(* ===== verification/Prelude.thy ===== *)
theory Prelude
  imports Main "HOL-Library.Word" "HOL-Library.AList" "HOL-Library.Sublist"
    "HOL-Library.Char_ord" "HOL-Library.Multiset"
begin

text \<open>
  Shared vocabulary of the development: the Go values and the Go standard-library routines that
  the modelled components use, with the facts about them that the component theories share.

  \<^item> A Go \<open>string\<close> and a Go \<open>[]byte\<close> read as text are HOL \<open>string\<close>s (lists of 8-bit
    characters). Case folding and trimming follow Go and SQLite on ASCII; other bytes are left
    unchanged, which is SQLite's NOCASE rule and Go's rule on ASCII input.
  \<^item> Network buffers are lists of bytes, \<open>8 word list\<close>.
  \<^item> \<open>outcome\<close> is the result of a routine that may return an error value or panic
    (an index out of range); \<open>go_slice\<close> and \<open>go_index\<close> are Go's checked slicing.
  \<^item> A \<open>time.Time\<close> is its number of nanoseconds since Go's zero time, an \<open>int\<close>; a
    \<open>time.Duration\<close> is a number of nanoseconds.
  \<^item> A Go map whose size or iteration matters is an association list with distinct keys (its
    order stands for Go's unspecified iteration order), otherwise a HOL map.
\<close>

section \<open>Collections of facts\<close>

named_theorems go_str_simps \<open>normal forms of the string helpers\<close>
named_theorems no_panic \<open>introduction rules for the absence of panics\<close>
named_theorems outcome_simps \<open>bind and case equations of outcome\<close>

section \<open>Outcomes: value, error or panic\<close>

datatype ('e, 'a) outcome = Ret 'a | Err 'e | Panic

fun obind :: "('e, 'a) outcome \<Rightarrow> ('a \<Rightarrow> ('e, 'b) outcome) \<Rightarrow> ('e, 'b) outcome" where
  "obind (Ret x) f = f x"
| "obind (Err e) f = Err e"
| "obind Panic f = Panic"

lemma obind_eq_Ret [simp, outcome_simps]:
  "obind m f = Ret y \<longleftrightarrow> (\<exists>x. m = Ret x \<and> f x = Ret y)"
  by (cases m) auto

lemma obind_eq_Panic [simp, outcome_simps]:
  "obind m f = Panic \<longleftrightarrow> m = Panic \<or> (\<exists>x. m = Ret x \<and> f x = Panic)"
  by (cases m) auto

definition oensure :: "bool \<Rightarrow> 'e \<Rightarrow> ('e, 'a) outcome \<Rightarrow> ('e, 'a) outcome" where
  "oensure c e m = (if c then m else Err e)"

lemma oensure_eq_Ret [simp, outcome_simps]: "oensure c e m = Ret y \<longleftrightarrow> c \<and> m = Ret y"
  by (simp add: oensure_def)

lemma oensure_eq_Panic [simp, outcome_simps]: "oensure c e m = Panic \<longleftrightarrow> c \<and> m = Panic"
  by (simp add: oensure_def)

lemma oensure_True [simp]: "oensure True e m = m"
  by (simp add: oensure_def)

text \<open>Go's \<open>xs[lo:hi]\<close> and \<open>xs[i]\<close>: a panic when the bounds are wrong.\<close>

definition go_slice :: "nat \<Rightarrow> nat \<Rightarrow> 'a list \<Rightarrow> ('e, 'a list) outcome" where
  "go_slice lo hi xs = (if lo \<le> hi \<and> hi \<le> length xs then Ret (take (hi - lo) (drop lo xs)) else Panic)"

definition go_index :: "'a list \<Rightarrow> nat \<Rightarrow> ('e, 'a) outcome" where
  "go_index xs i = (if i < length xs then Ret (xs ! i) else Panic)"

lemma go_slice_ok [simp]:
  "lo \<le> hi \<Longrightarrow> hi \<le> length xs \<Longrightarrow> go_slice lo hi xs = Ret (take (hi - lo) (drop lo xs))"
  by (simp add: go_slice_def)

lemma go_index_ok [simp]: "i < length xs \<Longrightarrow> go_index xs i = Ret (xs ! i)"
  by (simp add: go_index_def)

lemma go_slice_eq_Ret:
  "go_slice lo hi xs = Ret ys \<longleftrightarrow> lo \<le> hi \<and> hi \<le> length xs \<and> ys = take (hi - lo) (drop lo xs)"
  by (auto simp: go_slice_def)

lemma go_slice_eq_Panic: "go_slice lo hi xs = Panic \<longleftrightarrow> \<not> (lo \<le> hi \<and> hi \<le> length xs)"
  by (simp add: go_slice_def)

lemma go_index_eq_Ret: "go_index xs i = Ret x \<longleftrightarrow> i < length xs \<and> x = xs ! i"
  by (auto simp: go_index_def)

lemma go_index_eq_Panic: "go_index xs i = Panic \<longleftrightarrow> \<not> i < length xs"
  by (simp add: go_index_def)

text \<open>Absence of panics is shown by walking down the binds with these rules.\<close>

lemma obind_no_panic [no_panic]:
  "m \<noteq> Panic \<Longrightarrow> (\<And>x. m = Ret x \<Longrightarrow> f x \<noteq> Panic) \<Longrightarrow> obind m f \<noteq> Panic"
  by auto

lemma oensure_no_panic [no_panic]: "(c \<Longrightarrow> m \<noteq> Panic) \<Longrightarrow> oensure c e m \<noteq> Panic"
  by auto

lemma go_slice_no_panic [no_panic]: "lo \<le> hi \<Longrightarrow> hi \<le> length xs \<Longrightarrow> go_slice lo hi xs \<noteq> Panic"
  by simp

lemma go_index_no_panic [no_panic]: "i < length xs \<Longrightarrow> go_index xs i \<noteq> Panic"
  by simp

lemma if_no_panic [no_panic]:
  "(c \<Longrightarrow> m \<noteq> Panic) \<Longrightarrow> (\<not> c \<Longrightarrow> n \<noteq> Panic) \<Longrightarrow> (if c then m else n) \<noteq> Panic"
  by simp

lemma pair_no_panic [no_panic]: "f (fst p) (snd p) \<noteq> Panic \<Longrightarrow> (case p of (a, b) \<Rightarrow> f a b) \<noteq> Panic"
  by (cases p) simp

lemma let_no_panic [no_panic]: "f x \<noteq> Panic \<Longrightarrow> Let x f \<noteq> Panic"
  by simp

lemma Ret_no_panic [no_panic]: "Ret x \<noteq> Panic" and Err_no_panic [no_panic]: "Err e \<noteq> Panic"
  by simp_all

section \<open>Strings\<close>

definition lower_char :: "char \<Rightarrow> char" where
  "lower_char c = (let n = (of_char c :: nat) in if 65 \<le> n \<and> n \<le> 90 then char_of (n + 32) else c)"

text \<open>\<open>strings.ToLower\<close>.\<close>

definition to_lower :: "string \<Rightarrow> string" where
  "to_lower s = map lower_char s"

text \<open>\<open>strings.EqualFold\<close> and SQLite's \<open>= ... COLLATE NOCASE\<close>.\<close>

definition eq_fold :: "string \<Rightarrow> string \<Rightarrow> bool" where
  "eq_fold s t \<longleftrightarrow> to_lower s = to_lower t"

definition is_space :: "char \<Rightarrow> bool" where
  "is_space c = (let n = (of_char c :: nat) in n = 32 \<or> (9 \<le> n \<and> n \<le> 13))"

definition trim_right :: "string \<Rightarrow> string" where
  "trim_right s = rev (dropWhile is_space (rev s))"

text \<open>\<open>strings.TrimSpace\<close>.\<close>

definition trim_space :: "string \<Rightarrow> string" where
  "trim_space s = trim_right (dropWhile is_space s)"

text \<open>\<open>strings.TrimSuffix\<close> and \<open>strings.TrimPrefix\<close>.\<close>

definition trim_suffix :: "string \<Rightarrow> string \<Rightarrow> string" where
  "trim_suffix suf s = (if suffix suf s then take (length s - length suf) s else s)"

definition trim_prefix :: "string \<Rightarrow> string \<Rightarrow> string" where
  "trim_prefix pre s = (if prefix pre s then drop (length pre) s else s)"

text \<open>\<open>strings.IndexByte\<close>: the first position of a byte.\<close>

fun index_byte :: "char \<Rightarrow> string \<Rightarrow> nat option" where
  "index_byte c [] = None"
| "index_byte c (x # xs) = (if x = c then Some 0 else map_option Suc (index_byte c xs))"

text \<open>\<open>strings.Split\<close> on a one-byte separator: always at least one part.\<close>

fun split_on :: "char \<Rightarrow> string \<Rightarrow> string list" where
  "split_on c [] = [[]]"
| "split_on c (x # xs) =
     (if x = c then [] # split_on c xs
      else case split_on c xs of [] \<Rightarrow> [[x]] | p # ps \<Rightarrow> (x # p) # ps)"

text \<open>\<open>strings.Join\<close> with a one-byte separator.\<close>

fun join_with :: "char \<Rightarrow> string list \<Rightarrow> string" where
  "join_with c [] = []"
| "join_with c [p] = p"
| "join_with c (p # q # ps) = p @ c # join_with c (q # ps)"

text \<open>\<open>strings.Contains\<close>.\<close>

definition str_contains :: "string \<Rightarrow> string \<Rightarrow> bool" where
  "str_contains s sub \<longleftrightarrow> sublist sub s"

lemma lower_char_idem [simp]: "lower_char (lower_char c) = lower_char c"
proof -
  have "of_char c < (256 :: nat)" by simp
  then show ?thesis by (auto simp: lower_char_def Let_def)
qed

lemma to_lower_idem [simp]: "to_lower (to_lower s) = to_lower s"
  by (simp add: to_lower_def)

lemma to_lower_Nil [simp]: "to_lower [] = []"
  by (simp add: to_lower_def)

lemma to_lower_eq_Nil [simp]: "to_lower s = [] \<longleftrightarrow> s = []"
  by (simp add: to_lower_def)

lemma length_to_lower [simp]: "length (to_lower s) = length s"
  by (simp add: to_lower_def)

lemma eq_fold_refl [simp, intro]: "eq_fold s s"
  by (simp add: eq_fold_def)

lemma eq_fold_sym: "eq_fold s t \<longleftrightarrow> eq_fold t s"
  by (auto simp: eq_fold_def)

lemma eq_fold_trans [trans]: "eq_fold s t \<Longrightarrow> eq_fold t u \<Longrightarrow> eq_fold s u"
  by (simp add: eq_fold_def)

lemma eq_fold_cong: "eq_fold s t \<Longrightarrow> eq_fold s u \<longleftrightarrow> eq_fold t u"
  by (simp add: eq_fold_def)

lemma eq_fold_Nil [simp]: "eq_fold s [] \<longleftrightarrow> s = []" "eq_fold [] s \<longleftrightarrow> s = []"
  by (auto simp: eq_fold_def to_lower_def)

lemma index_byte_takeWhile:
  "(case index_byte c s of Some i \<Rightarrow> take i s | None \<Rightarrow> s) = takeWhile (\<lambda>x. x \<noteq> c) s"
  by (induction s) (auto split: option.splits)

lemma index_byte_None: "index_byte c s = None \<longleftrightarrow> c \<notin> set s"
  by (induction s) auto

lemma split_on_not_Nil [simp]: "split_on c s \<noteq> []"
  by (induction s) (auto split: list.splits)

lemma join_split [simp]: "join_with c (split_on c s) = s"
proof (induction s)
  case (Cons x s)
  then show ?case
    by (cases "split_on c s") (auto split: list.splits, (metis join_with.simps(2,3) list.exhaust append_Cons)+)
qed simp

lemma dropWhile_idem: "dropWhile P (dropWhile P xs) = dropWhile P xs"
  by (induction xs) auto

lemma trim_right_Nil [simp]: "trim_right [] = []"
  by (simp add: trim_right_def)

lemma trim_space_Nil [simp]: "trim_space [] = []"
  by (simp add: trim_space_def)

lemma trim_suffix_append [simp]: "trim_suffix suf (s @ suf) = s"
  by (simp add: trim_suffix_def suffix_def)

lemma length_trim_suffix_le: "length (trim_suffix suf s) \<le> length s"
  by (simp add: trim_suffix_def)

section \<open>Bytes and big-endian integers\<close>

type_synonym u8 = "8 word"
type_synonym u16 = "16 word"
type_synonym u32 = "32 word"
type_synonym bytes = "8 word list"

unbundle bit_operations_syntax

text \<open>\<open>binary.BigEndian.Uint16\<close>, \<open>Uint32\<close> and \<open>PutUint16\<close>, \<open>PutUint32\<close>.\<close>

definition be16 :: "u8 \<Rightarrow> u8 \<Rightarrow> u16" where
  "be16 a b = push_bit 8 (ucast a) OR ucast b"

definition put16 :: "u16 \<Rightarrow> bytes" where
  "put16 v = [ucast (drop_bit 8 v), ucast v]"

definition be32 :: "u8 \<Rightarrow> u8 \<Rightarrow> u8 \<Rightarrow> u8 \<Rightarrow> u32" where
  "be32 a b c d =
     push_bit 24 (ucast a) OR push_bit 16 (ucast b) OR push_bit 8 (ucast c) OR ucast d"

definition put32 :: "u32 \<Rightarrow> bytes" where
  "put32 v = [ucast (drop_bit 24 v), ucast (drop_bit 16 v), ucast (drop_bit 8 v), ucast v]"

text \<open>\<open>string(b)\<close> for a byte slice, and \<open>[]byte(s)\<close>.\<close>

definition string_of_bytes :: "bytes \<Rightarrow> string" where
  "string_of_bytes bs = map (\<lambda>b. char_of (unat b)) bs"

definition bytes_of_string :: "string \<Rightarrow> bytes" where
  "bytes_of_string s = map (\<lambda>c. word_of_nat (of_char c)) s"

lemma string_of_bytes_of_string [simp]: "string_of_bytes (bytes_of_string s) = s"
proof -
  have "of_char c mod 256 = (of_char c :: nat)" for c :: char by simp
  then show ?thesis
    by (simp add: string_of_bytes_def bytes_of_string_def comp_def unat_of_nat map_idI)
qed

lemma length_bytes_of_string [simp]: "length (bytes_of_string s) = length s"
  by (simp add: bytes_of_string_def)

lemma be16_put16 [simp]: "be16 (ucast (drop_bit 8 v)) (ucast v) = v"
  by (rule bit_eqI) (auto simp: be16_def bit_simps)

lemma put16_be16 [simp]: "put16 (be16 a b) = [a, b]"
proof -
  have "ucast (drop_bit 8 (be16 a b)) = a" and "ucast (be16 a b) = b"
    by (rule bit_word_eqI; auto simp: be16_def bit_simps dest: bit_imp_le_length)+
  then show ?thesis by (simp add: put16_def)
qed

lemma be32_put32 [simp]:
  "be32 (ucast (drop_bit 24 v)) (ucast (drop_bit 16 v)) (ucast (drop_bit 8 v)) (ucast v) = v"
proof (rule bit_word_eqI)
  fix n assume "n < LENGTH(32)"
  then consider "n < 8" | "8 \<le> n" "n < 16" | "16 \<le> n" "n < 24" | "24 \<le> n" "n < 32"
    by fastforce
  then show "bit (be32 (ucast (drop_bit 24 v)) (ucast (drop_bit 16 v)) (ucast (drop_bit 8 v))
      (ucast v)) n \<longleftrightarrow> bit v n"
    by cases (auto simp: be32_def bit_simps)
qed

lemma unat_be16: "unat (be16 a b) = 256 * unat a + unat b"
proof -
  have ab: "unat a < 256" "unat b < 256" using unsigned_less [of a] unsigned_less [of b] by auto
  have "be16 a b = push_bit 8 (ucast a) + ucast b"
    unfolding be16_def by (rule disjunctive_add [symmetric]) (auto simp: bit_simps dest!: bit_imp_le_length)
  then show ?thesis
    using ab by (simp add: unat_word_ariths push_bit_eq_mult unsigned_ucast_eq take_bit_eq_mod)
qed

lemma length_put16 [simp]: "length (put16 v) = 2"
  by (simp add: put16_def)

lemma length_put32 [simp]: "length (put32 v) = 4"
  by (simp add: put32_def)

section \<open>Numbers as text\<close>

definition digit_char :: "nat \<Rightarrow> char" where
  "digit_char d = char_of (if d < 10 then 48 + d else 87 + d)"

fun nat_string_base :: "nat \<Rightarrow> nat \<Rightarrow> string" where
  "nat_string_base b n =
     (if b < 2 \<or> n < b then [digit_char n] else nat_string_base b (n div b) @ [digit_char (n mod b)])"

declare nat_string_base.simps [simp del]

text \<open>\<open>strconv.Itoa\<close> of a non-negative number.\<close>

definition itoa :: "nat \<Rightarrow> string" where
  "itoa n = nat_string_base 10 n"

text \<open>\<open>strconv.FormatInt\<close> in base 10.\<close>

definition format_int :: "int \<Rightarrow> string" where
  "format_int i = (if i < 0 then CHR ''-'' # itoa (nat (- i)) else itoa (nat i))"

text \<open>\<open>strconv.Atoi\<close> and \<open>strconv.ParseInt(s, 10, 64)\<close>; \<open>None\<close> is an error.\<close>

definition dec_digits :: "string \<Rightarrow> nat option" where
  "dec_digits s =
     (if s \<noteq> [] \<and> list_all (\<lambda>c. 48 \<le> (of_char c :: nat) \<and> (of_char c :: nat) \<le> 57) s
      then Some (foldl (\<lambda>v c. v * 10 + (of_char c - 48)) 0 s) else None)"

definition atoi :: "string \<Rightarrow> int option" where
  "atoi s =
     (case s of
        c # cs \<Rightarrow>
          if c = CHR ''-'' then
            (case dec_digits cs of Some n \<Rightarrow> if n \<le> 2 ^ 63 then Some (- int n) else None | None \<Rightarrow> None)
          else
            (case dec_digits (if c = CHR ''+'' then cs else s) of
               Some n \<Rightarrow> if n < 2 ^ 63 then Some (int n) else None | None \<Rightarrow> None)
      | [] \<Rightarrow> None)"

lemma of_char_digit: "d < 10 \<Longrightarrow> of_char (digit_char d) = 48 + (d :: nat)"
  by (simp add: digit_char_def)

lemma itoa_digits: "c \<in> set (itoa n) \<Longrightarrow> 48 \<le> (of_char c :: nat) \<and> (of_char c :: nat) \<le> 57"
  unfolding itoa_def
proof (induction "10 :: nat" n rule: nat_string_base.induct)
  case (1 n)
  have "(of_char (digit_char (n mod 10)) :: nat) = 48 + n mod 10" by (rule of_char_digit) simp
  moreover have "n < 10 \<Longrightarrow> (of_char (digit_char n) :: nat) = 48 + n" by (rule of_char_digit)
  ultimately show ?case using 1 nat_string_base.simps [of 10 n] by (cases "n < 10") auto
qed

lemma itoa_not_Nil [simp]: "itoa n \<noteq> []"
  unfolding itoa_def by (subst nat_string_base.simps) simp

lemma itoa_value: "foldl (\<lambda>v c. v * 10 + (of_char c - 48)) 0 (itoa n) = n"
  unfolding itoa_def
proof (induction "10 :: nat" n rule: nat_string_base.induct)
  case (1 n)
  have "(of_char (digit_char (n mod 10)) :: nat) = 48 + n mod 10" by (rule of_char_digit) simp
  moreover have "n < 10 \<Longrightarrow> (of_char (digit_char n) :: nat) = 48 + n" by (rule of_char_digit)
  ultimately show ?case using 1 nat_string_base.simps [of 10 n] by (cases "n < 10") auto
qed

lemma dec_digits_itoa [simp]: "dec_digits (itoa n) = Some n"
  using itoa_digits [of _ n] by (simp add: dec_digits_def itoa_value list_all_iff)

lemma itoa_no_char: "\<not> (48 \<le> (of_char c :: nat) \<and> (of_char c :: nat) \<le> 57) \<Longrightarrow> c \<notin> set (itoa n)"
  using itoa_digits by blast

lemma atoi_itoa: "n < 2 ^ 63 \<Longrightarrow> atoi (itoa n) = Some (int n)"
proof -
  assume n: "n < 2 ^ 63"
  obtain c cs where i: "itoa n = c # cs" by (cases "itoa n") auto
  have "c \<noteq> CHR ''-'' \<and> c \<noteq> CHR ''+''" using itoa_digits [of c n] i by auto
  then show ?thesis using n dec_digits_itoa [of n] unfolding i by (simp add: atoi_def)
qed

lemma atoi_format_int: "- (2 ^ 63) \<le> i \<Longrightarrow> i < 2 ^ 63 \<Longrightarrow> atoi (format_int i) = Some i"
  by (cases "i < 0") (auto simp: format_int_def atoi_itoa, simp add: atoi_def)

lemma format_int_no_char:
  "c \<noteq> CHR ''-'' \<Longrightarrow> \<not> (48 \<le> (of_char c :: nat) \<and> (of_char c :: nat) \<le> 57) \<Longrightarrow> c \<notin> set (format_int i)"
  using itoa_no_char by (auto simp: format_int_def)

section \<open>Splitting at a separator\<close>

lemma split_on_append: "split_on c (a @ c # b) = split_on c a @ split_on c b"
  by (induction a) (auto split: list.splits)

lemma split_on_no_sep: "c \<notin> set s \<Longrightarrow> split_on c s = [s]"
  by (induction s) auto

lemma last_split_on_no_sep: "c \<notin> set (last (split_on c s))"
proof (induction s)
  case (Cons x s)
  then show ?case by (cases "split_on c s") auto
qed simp

lemma split_on_first: "c \<notin> set l \<Longrightarrow> split_on c (l @ c # t) = l # split_on c t"
  by (induction l) auto

lemma split_join: "ps \<noteq> [] \<Longrightarrow> (\<And>p. p \<in> set ps \<Longrightarrow> c \<notin> set p) \<Longrightarrow> split_on c (join_with c ps) = ps"
  by (induction c ps rule: join_with.induct) (auto simp: split_on_no_sep split_on_first)

lemma split_on_parts_no_sep: "p \<in> set (split_on c s) \<Longrightarrow> c \<notin> set p"
  by (induction s arbitrary: p) (auto split: list.splits if_splits)

section \<open>Trimmed text\<close>

definition trimmed :: "string \<Rightarrow> bool" where
  "trimmed s \<longleftrightarrow> s = [] \<or> (\<not> is_space (hd s) \<and> \<not> is_space (last s))"

lemma trim_space_trimmed [simp]: "trimmed s \<Longrightarrow> trim_space s = s"
proof -
  assume t: "trimmed s"
  have "dropWhile is_space s = s" using t by (cases s) (auto simp: trimmed_def)
  moreover have "dropWhile is_space (rev s) = rev s"
    using t by (cases "rev s") (auto simp: trimmed_def hd_rev [symmetric])
  ultimately show ?thesis by (simp add: trim_space_def trim_right_def)
qed

lemma trimmed_trim_space [simp]: "trimmed (trim_space s)"
proof -
  define a where "a = dropWhile is_space s"
  define b where "b = dropWhile is_space (rev a)"
  have t: "trim_space s = rev b" by (simp add: trim_space_def trim_right_def a_def b_def)
  show ?thesis
  proof (cases "b = []")
    case False
    have "suffix b (rev a)" by (simp add: b_def suffix_dropWhile)
    then have "last b = last (rev a)" using False by (metis last_appendR suffix_def)
    moreover have "a \<noteq> []" using False by (auto simp: b_def)
    then have "\<not> is_space (hd a)" by (metis a_def hd_dropWhile)
    ultimately have "\<not> is_space (last b)" using \<open>a \<noteq> []\<close> by (simp add: last_rev)
    moreover have "\<not> is_space (hd b)" using False by (metis b_def hd_dropWhile)
    ultimately show ?thesis using False by (simp add: t trimmed_def hd_rev last_rev)
  qed (simp add: t trimmed_def)
qed

lemma trim_space_idem [simp]: "trim_space (trim_space s) = trim_space s"
  by simp

end
