(* ===== verification/Egress_Allowlist.thy ===== *)
theory Egress_Allowlist
  imports Prelude
begin

text \<open>
  The egress gateway's allow-list (\<open>cmd/egress-gateway/allowlist.go\<close>): host normalisation, the
  rule set and the subdomain walk, with the declarative meaning of a rule and the proof that the
  walk implements it.
\<close>

section \<open>The code\<close>

record allow_list =
  rules :: "string set"

definition normalizeHost :: "string \<Rightarrow> string" where
  "normalizeHost h0 =
     (let h1 = trim_space (to_lower h0);
          h2 = (case index_byte CHR '':'' h1 of Some i \<Rightarrow> take i h1 | None \<Rightarrow> h1)
      in trim_suffix ''.'' h2)"

definition NewAllowList :: "string list \<Rightarrow> allow_list" where
  "NewAllowList hosts =
     fold (\<lambda>h a. let h' = normalizeHost h in
                 if h' \<noteq> [] then a\<lparr>rules := insert h' (rules a)\<rparr> else a)
       hosts \<lparr>rules = {}\<rparr>"

text \<open>The loop over the parent domains of a host, from left to right.\<close>

fun subdomain_walk :: "string set \<Rightarrow> string \<Rightarrow> bool" where
  "subdomain_walk R [] = False"
| "subdomain_walk R (c # cs) = (if c = CHR ''.'' \<and> cs \<in> R then True else subdomain_walk R cs)"

definition Allowed :: "allow_list \<Rightarrow> string \<Rightarrow> bool" where
  "Allowed a host0 =
     (let host = normalizeHost host0 in
      if host = [] then False
      else if host \<in> rules a then True
      else subdomain_walk (rules a) host)"

section \<open>What a rule means\<close>

text \<open>A rule matches a host that is equal to it or is a subdomain of it.\<close>

definition rule_matches :: "string \<Rightarrow> string \<Rightarrow> bool" where
  "rule_matches r host \<longleftrightarrow> host = r \<or> suffix (CHR ''.'' # r) host"

lemma subdomain_walk_iff:
  "subdomain_walk R host \<longleftrightarrow> (\<exists>r\<in>R. suffix (CHR ''.'' # r) host)"
  by (induction host) (auto simp: suffix_Cons)

lemma rules_fold:
  "rules (fold (\<lambda>h a. let h' = normalizeHost h in
                 if h' \<noteq> [] then a\<lparr>rules := insert h' (rules a)\<rparr> else a) hosts a)
   = rules a \<union> {r. r \<noteq> [] \<and> r \<in> normalizeHost ` set hosts}"
  by (induction hosts arbitrary: a) (auto simp: Let_def)

lemma rules_NewAllowList [simp]:
  "rules (NewAllowList hosts) = {r. r \<noteq> [] \<and> r \<in> normalizeHost ` set hosts}"
  by (simp add: NewAllowList_def rules_fold)

lemma Allowed_iff:
  "Allowed a host \<longleftrightarrow>
     normalizeHost host \<noteq> [] \<and> (\<exists>r\<in>rules a. rule_matches r (normalizeHost host))"
  by (auto simp: Allowed_def Let_def rule_matches_def subdomain_walk_iff)


section \<open>Normal forms\<close>

lemma CHR_colon_not_space [simp]: "\<not> is_space CHR '':''"
  by (simp add: is_space_def)

lemma CHR_dot_not_space [simp]: "\<not> is_space CHR ''.''"
  by (simp add: is_space_def)

lemma lower_char_eq_colon [simp]: "lower_char c = CHR '':'' \<longleftrightarrow> c = CHR '':''"
proof -
  have "of_char c < (256::nat)" by simp
  have "lower_char c = CHR '':'' \<longleftrightarrow> (of_char (lower_char c) :: nat) = of_char CHR '':''"
    by (simp only: of_char_eq_iff)
  also have "\<dots> \<longleftrightarrow> (of_char c :: nat) = of_char CHR '':''"
    by (auto simp: lower_char_def Let_def)
  also have "\<dots> \<longleftrightarrow> c = CHR '':''" by (simp only: of_char_eq_iff)
  finally show ?thesis .
qed

text \<open>Clean host text: lower case, no colon, no blank, no final dot.\<close>

definition clean_host :: "string \<Rightarrow> bool" where
  "clean_host p \<longleftrightarrow> p \<noteq> [] \<and> to_lower p = p \<and> CHR '':'' \<notin> set p \<and>
     (\<forall>c\<in>set p. \<not> is_space c) \<and> last p \<noteq> CHR ''.''"

lemma dropWhile_nonspace: "\<forall>c\<in>set p. \<not> is_space c \<Longrightarrow> dropWhile is_space (p @ q) = (if p = [] then dropWhile is_space q else p @ q)"
  by (cases p) auto

lemma trim_right_append_nonspace:
  "\<not> is_space c \<Longrightarrow> trim_right (xs @ c # ys) = xs @ c # trim_right ys"
  by (simp add: trim_right_def dropWhile_append dropWhile_eq_Nil_conv) 

lemma trim_suffix_dot_id: "p \<noteq> [] \<Longrightarrow> last p \<noteq> CHR ''.'' \<Longrightarrow> trim_suffix ''.'' p = p"
  by (auto simp: trim_suffix_def suffix_def)

lemma takeWhile_no_colon: "CHR '':'' \<notin> set p \<Longrightarrow> takeWhile (\<lambda>c. c \<noteq> CHR '':'') (p @ CHR '':'' # q) = p"
  by (induction p) auto

lemma normalizeHost_clean_port:
  assumes "clean_host p"
  shows "normalizeHost (p @ CHR '':'' # q) = p"
proof -
  have lower: "to_lower (p @ CHR '':'' # q) = p @ CHR '':'' # to_lower q"
    using assms by (simp add: clean_host_def to_lower_def)
  have trim: "trim_space (p @ CHR '':'' # to_lower q) = p @ CHR '':'' # trim_right (to_lower q)"
    using assms by (simp add: clean_host_def trim_space_def dropWhile_nonspace trim_right_append_nonspace)
  show ?thesis
    using assms unfolding normalizeHost_def Let_def lower trim index_byte_takeWhile
    by (simp add: clean_host_def takeWhile_no_colon trim_suffix_dot_id)
qed

text \<open>Everything after the first colon is ignored on both sides, so a configured IPv6
  literal \<open>p:q\<close> (its first group \<open>p\<close>) permits every IPv6 literal \<open>p:r\<close> with the same first
  group, not only the configured address.\<close>

theorem ipv6_literal_rule_permits_whole_group:
  assumes "clean_host p"
  shows "Allowed (NewAllowList [p @ CHR '':'' # q]) (p @ CHR '':'' # r)"
proof -
  have "p \<noteq> []" using assms by (simp add: clean_host_def)
  then show ?thesis
    by (simp add: Allowed_iff normalizeHost_clean_port [OF assms] rule_matches_def)
qed

lemma ipv6_literal_rule_permits_whole_group_witness:
  "Allowed (NewAllowList [''2606:4700:4700::1111'']) ''2606:2800:220:1::1''"
  using ipv6_literal_rule_permits_whole_group [of "''2606''" "''4700:4700::1111''" "''2800:220:1::1''"]
  by (simp add: clean_host_def to_lower_def lower_char_def is_space_def)

end
