(* ===== verification/Net_Ip.thy ===== *)
theory Net_Ip
  imports Prelude
begin

text \<open>
  Go's \<open>net.IP\<close> as the code uses it: a byte slice of length 4 or 16 (\<open>nil\<close> is the empty list),
  with the classification predicates of package \<open>net\<close>, the textual form and the IPv4 parser, and
  the gateway's \<open>isPublicIP\<close> (\<open>cmd/egress-gateway/dial.go\<close>) with its exact meaning in terms of
  address blocks.
\<close>

section \<open>Package net\<close>

type_synonym net_ip = bytes

definition v4_in_v6_prefix :: bytes where
  "v4_in_v6_prefix = replicate 10 0 @ [0xff, 0xff]"

text \<open>\<open>ip.To4()\<close>: \<open>None\<close> stands for the nil result.\<close>

definition to4 :: "net_ip \<Rightarrow> net_ip option" where
  "to4 ip =
     (if length ip = 4 then Some ip
      else if length ip = 16 \<and> take 12 ip = v4_in_v6_prefix then Some (drop 12 ip)
      else None)"

text \<open>\<open>ip.Equal(x)\<close>: an IPv4 address and its IPv4-mapped IPv6 form are equal.\<close>

definition ip_equal :: "net_ip \<Rightarrow> net_ip \<Rightarrow> bool" where
  "ip_equal ip x =
     (if length ip = length x then ip = x
      else if length ip = 4 \<and> length x = 16 then take 12 x = v4_in_v6_prefix \<and> drop 12 x = ip
      else if length ip = 16 \<and> length x = 4 then take 12 ip = v4_in_v6_prefix \<and> drop 12 ip = x
      else False)"

definition IPv4zero :: net_ip where "IPv4zero = v4_in_v6_prefix @ [0, 0, 0, 0]"
definition IPv6unspecified :: net_ip where "IPv6unspecified = replicate 16 0"
definition IPv6loopback :: net_ip where "IPv6loopback = replicate 15 0 @ [1]"

definition IsUnspecified :: "net_ip \<Rightarrow> bool" where
  "IsUnspecified ip \<longleftrightarrow> ip_equal ip IPv4zero \<or> ip_equal ip IPv6unspecified"

definition IsLoopback :: "net_ip \<Rightarrow> bool" where
  "IsLoopback ip = (case to4 ip of Some v \<Rightarrow> v ! 0 = 127 | None \<Rightarrow> ip_equal ip IPv6loopback)"

definition IsPrivate :: "net_ip \<Rightarrow> bool" where
  "IsPrivate ip =
     (case to4 ip of
        Some v \<Rightarrow> v ! 0 = 10 \<or> (v ! 0 = 172 \<and> v ! 1 AND 0xf0 = 16) \<or> (v ! 0 = 192 \<and> v ! 1 = 168)
      | None \<Rightarrow> length ip = 16 \<and> ip ! 0 AND 0xfe = 0xfc)"

definition IsMulticast :: "net_ip \<Rightarrow> bool" where
  "IsMulticast ip =
     (case to4 ip of Some v \<Rightarrow> v ! 0 AND 0xf0 = 0xe0 | None \<Rightarrow> length ip = 16 \<and> ip ! 0 = 0xff)"

definition IsInterfaceLocalMulticast :: "net_ip \<Rightarrow> bool" where
  "IsInterfaceLocalMulticast ip \<longleftrightarrow> length ip = 16 \<and> ip ! 0 = 0xff \<and> ip ! 1 AND 0x0f = 1"

definition IsLinkLocalMulticast :: "net_ip \<Rightarrow> bool" where
  "IsLinkLocalMulticast ip =
     (case to4 ip of
        Some v \<Rightarrow> v ! 0 = 224 \<and> v ! 1 = 0 \<and> v ! 2 = 0
      | None \<Rightarrow> length ip = 16 \<and> ip ! 0 = 0xff \<and> ip ! 1 AND 0x0f = 2)"

definition IsLinkLocalUnicast :: "net_ip \<Rightarrow> bool" where
  "IsLinkLocalUnicast ip =
     (case to4 ip of
        Some v \<Rightarrow> v ! 0 = 169 \<and> v ! 1 = 254
      | None \<Rightarrow> length ip = 16 \<and> ip ! 0 = 0xfe \<and> ip ! 1 AND 0xc0 = 0x80)"

fun ip_groups :: "bytes \<Rightarrow> nat list" where
  "ip_groups (a # b # rest) = unat (be16 a b) # ip_groups rest"
| "ip_groups _ = []"

text \<open>The longest run of at least two zero groups, the first one on a tie.\<close>

definition zero_run :: "nat list \<Rightarrow> nat \<times> nat" where
  "zero_run gs =
     foldl (\<lambda>(zs, ze) i.
        let j = i + length (takeWhile (\<lambda>g. g = 0) (drop i gs))
        in if 2 \<le> j - i \<and> ze - zs < j - i then (i, j) else (zs, ze))
      (255, 255) [0..<length gs]"

fun ip6_text :: "nat \<Rightarrow> nat \<times> nat \<Rightarrow> nat \<Rightarrow> nat list \<Rightarrow> string" where
  "ip6_text 0 z i gs = []"
| "ip6_text (Suc fuel) z i gs =
     (if length gs \<le> i then []
      else if i = fst z then ''::'' @
        (if length gs \<le> snd z then []
         else nat_string_base 16 (gs ! snd z) @ ip6_text fuel z (snd z + 1) gs)
      else (if 0 < i then '':'' else []) @ nat_string_base 16 (gs ! i) @ ip6_text fuel z (i + 1) gs)"

text \<open>\<open>ip.String()\<close> for the lengths the code builds.\<close>

definition ip_string :: "net_ip \<Rightarrow> string" where
  "ip_string ip =
     (case to4 ip of
        Some v \<Rightarrow> itoa (unat (v ! 0)) @ ''.'' @ itoa (unat (v ! 1)) @ ''.'' @
                  itoa (unat (v ! 2)) @ ''.'' @ itoa (unat (v ! 3))
      | None \<Rightarrow> if ip = [] then ''<nil>''
                else (let gs = ip_groups ip in ip6_text 9 (zero_run gs) 0 gs))"

text \<open>
  \<open>net.ParseIP\<close> on a string without a colon (the only kind the gateway passes to it): four
  decimal fields up to 255 without leading zeros. The result is the 16-byte form.
\<close>

definition digit_val :: "char \<Rightarrow> nat option" where
  "digit_val c = (let n = of_char c :: nat in if 48 \<le> n \<and> n \<le> 57 then Some (n - 48) else None)"

fun dec_field :: "string \<Rightarrow> nat \<Rightarrow> nat \<Rightarrow> nat option" where
  "dec_field [] v len = (if len = 0 then None else Some v)"
| "dec_field (c # cs) v len =
     (case digit_val c of
        None \<Rightarrow> None
      | Some d \<Rightarrow>
          if len = 1 \<and> v = 0 then None
          else if v * 10 + d > 255 then None
          else dec_field cs (v * 10 + d) (len + 1))"

definition parse_ip :: "string \<Rightarrow> net_ip option" where
  "parse_ip s =
     (case map (\<lambda>f. dec_field f 0 0) (split_on CHR ''.'' s) of
        [Some a, Some b, Some c, Some d] \<Rightarrow>
          Some (v4_in_v6_prefix @ [of_nat a, of_nat b, of_nat c, of_nat d])
      | _ \<Rightarrow> None)"

section \<open>isPublicIP\<close>

definition isPublicIP :: "net_ip \<Rightarrow> bool" where
  "isPublicIP ip0 =
     (if ip0 = [] then False
      else
        let ip = (case to4 ip0 of Some v4 \<Rightarrow> v4 | None \<Rightarrow> ip0) in
        if IsUnspecified ip \<or> IsLoopback ip \<or> IsPrivate ip \<or> IsLinkLocalUnicast ip \<or>
           IsLinkLocalMulticast ip \<or> IsInterfaceLocalMulticast ip \<or> IsMulticast ip
        then False
        else
          case to4 ip of
            Some v4 \<Rightarrow>
              if v4 ! 0 = 0 then False
              else if v4 ! 0 = 100 \<and> v4 ! 1 AND 0xc0 = 64 then False
              else if v4 ! 0 = 192 \<and> v4 ! 1 = 0 \<and> v4 ! 2 = 0 then False
              else if v4 ! 0 = 198 \<and> v4 ! 1 AND 0xfe = 18 then False
              else if v4 ! 0 = 255 \<and> v4 ! 1 = 255 \<and> v4 ! 2 = 255 \<and> v4 ! 3 = 255 then False
              else True
          | None \<Rightarrow> True)"

section \<open>The blocks an IPv4 address is refused in\<close>

text \<open>An IPv4 address as a number, and the blocks (base, prefix length) the code's comment lists.\<close>

definition v4_num :: "net_ip \<Rightarrow> nat" where
  "v4_num v = ((unat (v ! 0) * 256 + unat (v ! 1)) * 256 + unat (v ! 2)) * 256 + unat (v ! 3)"

definition in_block :: "nat \<Rightarrow> nat \<times> nat \<Rightarrow> bool" where
  "in_block n b \<longleftrightarrow> n div 2 ^ (32 - snd b) = fst b div 2 ^ (32 - snd b)"

definition quad :: "nat \<Rightarrow> nat \<Rightarrow> nat \<Rightarrow> nat \<Rightarrow> nat" where
  "quad a b c d = ((a * 256 + b) * 256 + c) * 256 + d"

definition refused_blocks :: "(nat \<times> nat) list" where
  "refused_blocks =
     [(quad 0 0 0 0, 8), (quad 10 0 0 0, 8), (quad 100 64 0 0, 10), (quad 127 0 0 0, 8),
      (quad 169 254 0 0, 16), (quad 172 16 0 0, 12), (quad 192 0 0 0, 24), (quad 192 168 0 0, 16),
      (quad 198 18 0 0, 15), (quad 224 0 0 0, 4), (quad 255 255 255 255, 32)]"

text \<open>Byte masks as divisions.\<close>

lemma byte_eqI:
  fixes a b :: u8
  assumes "\<And>n. n \<in> {0, 1, 2, 3, 4, 5, 6, 7} \<Longrightarrow> bit a n \<longleftrightarrow> bit b n"
  shows "a = b"
  by (rule bit_word_eqI, rule assms) auto

lemma byte_high_mask:
  fixes b :: u8
  shows "b AND 0xf0 = push_bit 4 (drop_bit 4 b)" "b AND 0xc0 = push_bit 6 (drop_bit 6 b)"
    "b AND 0xfe = push_bit (Suc 0) (drop_bit (Suc 0) b)"
    apply (rule byte_eqI; auto simp: bit_simps)
   apply (rule byte_eqI; auto simp: bit_simps)
  apply (rule byte_eqI; auto simp: bit_and_iff bit_push_bit_iff bit_drop_bit_eq eval_nat_numeral simp del: push_bit_Suc drop_bit_Suc)
  done

lemma unat_byte_high:
  fixes b :: u8
  assumes "k < 8"
  shows "unat (push_bit k (drop_bit k b)) = 2 ^ k * (unat b div 2 ^ k)"
proof -
  have "2 ^ k * (unat b div 2 ^ k) \<le> unat b" by simp
  also have "\<dots> < 256" using unsigned_less [where 'a = nat, of b] by simp
  finally show ?thesis
    unfolding unsigned_push_bit_eq unat_drop_bit_eq
    by (simp add: push_bit_eq_mult drop_bit_eq_div take_bit_eq_mod mult.commute)
qed

lemma mask_f0_16: "(b :: u8) AND 0xf0 = 16 \<longleftrightarrow> unat b div 16 = 1"
  and mask_f0_e0: "b AND 0xf0 = 0xe0 \<longleftrightarrow> unat b div 16 = 14"
  and mask_c0_64: "b AND 0xc0 = 64 \<longleftrightarrow> unat b div 64 = 1"
  and mask_fe_18: "b AND 0xfe = 18 \<longleftrightarrow> unat b div 2 = 9"
  using unat_byte_high [of 4 b] unat_byte_high [of 6 b] unat_byte_high [of "Suc 0" b]
  by (auto simp: byte_high_mask word_unat_eq_iff)


text \<open>The quotients of an address by the block sizes, in terms of its bytes.\<close>

lemma v4_num_div:
  fixes a b c d :: u8
  defines "n \<equiv> v4_num [a, b, c, d]"
  shows "n div 2 ^ 24 = unat a" "n div 2 ^ 16 = unat a * 256 + unat b"
    "n div 2 ^ 8 = (unat a * 256 + unat b) * 256 + unat c"
proof -
  have "unat b < 256" "unat c < 256" "unat d < 256"
    using unsigned_less [where 'a = nat, of b] unsigned_less [where 'a = nat, of c]
      unsigned_less [where 'a = nat, of d] by auto
  then show "n div 2 ^ 24 = unat a" "n div 2 ^ 16 = unat a * 256 + unat b"
    "n div 2 ^ 8 = (unat a * 256 + unat b) * 256 + unat c"
    unfolding n_def v4_num_def by simp_all
qed

lemma v4_num_div_split:
  fixes a b c d :: u8
  defines "n \<equiv> v4_num [a, b, c, d]"
  shows "n div 2 ^ 28 = unat a div 16" "n div 2 ^ 22 = (unat a * 256 + unat b) div 64"
    "n div 2 ^ 20 = (unat a * 256 + unat b) div 16" "n div 2 ^ 17 = (unat a * 256 + unat b) div 2"
  using v4_num_div [of a b c d] unfolding n_def
  by (simp_all add: power_add flip: div_mult2_eq
      div_mult2_eq [of _ "2 ^ 24" 16] div_mult2_eq [of _ "2 ^ 16" 64])

lemma radix_num:
  fixes A B k N :: nat
  assumes "B < k"
  shows "A * k + B = N \<longleftrightarrow> A = N div k \<and> B = N mod k"
proof
  assume "A * k + B = N"
  then show "A = N div k \<and> B = N mod k" using assms by (auto simp flip: \<open>A * k + B = N\<close>)
next
  assume "A = N div k \<and> B = N mod k"
  then show "A * k + B = N" by simp
qed

lemma pair_div_cases:
  fixes A B :: nat
  assumes "B < 256"
  shows "(A * 256 + B) div 64 = 401 \<longleftrightarrow> A = 100 \<and> B div 64 = 1"
    "(A * 256 + B) div 16 = 2753 \<longleftrightarrow> A = 172 \<and> B div 16 = 1"
    "(A * 256 + B) div 2 = 25353 \<longleftrightarrow> A = 198 \<and> B div 2 = 9"
    "A * 256 + B = 43518 \<longleftrightarrow> A = 169 \<and> B = 254"
    "A * 256 + B = 49320 \<longleftrightarrow> A = 192 \<and> B = 168"
proof -
  have d: "(A * 256 + B) div 64 = A * 4 + B div 64" "(A * 256 + B) div 16 = A * 16 + B div 16"
    "(A * 256 + B) div 2 = A * 128 + B div 2"
    by presburger+
  have l: "B div 64 < 4" "B div 16 < 16" "B div 2 < 128" using assms by auto
  show "(A * 256 + B) div 64 = 401 \<longleftrightarrow> A = 100 \<and> B div 64 = 1"
    "(A * 256 + B) div 16 = 2753 \<longleftrightarrow> A = 172 \<and> B div 16 = 1"
    "(A * 256 + B) div 2 = 25353 \<longleftrightarrow> A = 198 \<and> B div 2 = 9"
    "A * 256 + B = 43518 \<longleftrightarrow> A = 169 \<and> B = 254"
    "A * 256 + B = 49320 \<longleftrightarrow> A = 192 \<and> B = 168"
    using radix_num [OF l(1)] radix_num [OF l(2)] radix_num [OF l(3)] radix_num [OF assms]
    by (simp_all add: d)
qed

lemma triple_cases:
  fixes A B C :: nat
  assumes "B < 256" "C < 256"
  shows "(A * 256 + B) * 256 + C = 12582912 \<longleftrightarrow> A = 192 \<and> B = 0 \<and> C = 0"
  by (simp only: radix_num [OF assms(2)] radix_num [OF assms(1)]) simp

lemma quad_cases:
  fixes A B C D :: nat
  assumes "B < 256" "C < 256" "D < 256"
  shows "((A * 256 + B) * 256 + C) * 256 + D = 4294967295 \<longleftrightarrow>
    A = 255 \<and> B = 255 \<and> C = 255 \<and> D = 255"
  by (simp only: radix_num [OF assms(3)] radix_num [OF assms(2)] radix_num [OF assms(1)]) simp

lemma in_refused_blocks:
  fixes a b c d :: u8
  defines "n \<equiv> v4_num [a, b, c, d]"
  shows "in_block n (quad 0 0 0 0, 8) \<longleftrightarrow> a = 0" "in_block n (quad 10 0 0 0, 8) \<longleftrightarrow> a = 10"
    "in_block n (quad 100 64 0 0, 10) \<longleftrightarrow> a = 100 \<and> b AND 0xc0 = 64"
    "in_block n (quad 127 0 0 0, 8) \<longleftrightarrow> a = 127"
    "in_block n (quad 169 254 0 0, 16) \<longleftrightarrow> a = 169 \<and> b = 254"
    "in_block n (quad 172 16 0 0, 12) \<longleftrightarrow> a = 172 \<and> b AND 0xf0 = 16"
    "in_block n (quad 192 0 0 0, 24) \<longleftrightarrow> a = 192 \<and> b = 0 \<and> c = 0"
    "in_block n (quad 192 168 0 0, 16) \<longleftrightarrow> a = 192 \<and> b = 168"
    "in_block n (quad 198 18 0 0, 15) \<longleftrightarrow> a = 198 \<and> b AND 0xfe = 18"
    "in_block n (quad 224 0 0 0, 4) \<longleftrightarrow> a AND 0xf0 = 0xe0"
    "in_block n (quad 255 255 255 255, 32) \<longleftrightarrow> a = 255 \<and> b = 255 \<and> c = 255 \<and> d = 255"
proof -
  have lt: "unat a < 256" "unat b < 256" "unat c < 256" "unat d < 256"
    using unsigned_less [where 'a = nat, of a] unsigned_less [where 'a = nat, of b]
      unsigned_less [where 'a = nat, of c] unsigned_less [where 'a = nat, of d] by auto
  note q = v4_num_div [of a b c d, folded n_def] v4_num_div_split [of a b c d, folded n_def]
  have blk: "in_block n (quad 0 0 0 0, 8) \<longleftrightarrow> n div 2 ^ 24 = 0"
    "in_block n (quad 10 0 0 0, 8) \<longleftrightarrow> n div 2 ^ 24 = 10"
    "in_block n (quad 100 64 0 0, 10) \<longleftrightarrow> n div 2 ^ 22 = 401"
    "in_block n (quad 127 0 0 0, 8) \<longleftrightarrow> n div 2 ^ 24 = 127"
    "in_block n (quad 169 254 0 0, 16) \<longleftrightarrow> n div 2 ^ 16 = 43518"
    "in_block n (quad 172 16 0 0, 12) \<longleftrightarrow> n div 2 ^ 20 = 2753"
    "in_block n (quad 192 0 0 0, 24) \<longleftrightarrow> n div 2 ^ 8 = 12582912"
    "in_block n (quad 192 168 0 0, 16) \<longleftrightarrow> n div 2 ^ 16 = 49320"
    "in_block n (quad 198 18 0 0, 15) \<longleftrightarrow> n div 2 ^ 17 = 25353"
    "in_block n (quad 224 0 0 0, 4) \<longleftrightarrow> n div 2 ^ 28 = 14"
    "in_block n (quad 255 255 255 255, 32) \<longleftrightarrow> n = 4294967295"
    by (simp_all add: in_block_def quad_def)
  have num: "n = ((unat a * 256 + unat b) * 256 + unat c) * 256 + unat d"
    by (simp add: n_def v4_num_def)
  note rw = blk q pair_div_cases [OF lt(2)] triple_cases [OF lt(2,3)] mask_f0_16 mask_f0_e0
    mask_c0_64 mask_fe_18
  show "in_block n (quad 0 0 0 0, 8) \<longleftrightarrow> a = 0" "in_block n (quad 10 0 0 0, 8) \<longleftrightarrow> a = 10"
    "in_block n (quad 100 64 0 0, 10) \<longleftrightarrow> a = 100 \<and> b AND 0xc0 = 64"
    "in_block n (quad 127 0 0 0, 8) \<longleftrightarrow> a = 127"
    "in_block n (quad 169 254 0 0, 16) \<longleftrightarrow> a = 169 \<and> b = 254"
    "in_block n (quad 172 16 0 0, 12) \<longleftrightarrow> a = 172 \<and> b AND 0xf0 = 16"
    "in_block n (quad 192 0 0 0, 24) \<longleftrightarrow> a = 192 \<and> b = 0 \<and> c = 0"
    "in_block n (quad 192 168 0 0, 16) \<longleftrightarrow> a = 192 \<and> b = 168"
    "in_block n (quad 198 18 0 0, 15) \<longleftrightarrow> a = 198 \<and> b AND 0xfe = 18"
    "in_block n (quad 224 0 0 0, 4) \<longleftrightarrow> a AND 0xf0 = 0xe0"
    by (simp_all only: rw) (simp_all add: word_unat_eq_iff)
  show "in_block n (quad 255 255 255 255, 32) \<longleftrightarrow> a = 255 \<and> b = 255 \<and> c = 255 \<and> d = 255"
    using quad_cases [OF lt(2,3,4), of "unat a", folded num] blk(11)
    by (simp add: word_unat_eq_iff)
qed

lemma isPublicIP_v4:
  "isPublicIP [a, b, c, d] = (\<forall>blk\<in>set refused_blocks. \<not> in_block (v4_num [a, b, c, d]) blk) \<and>
   isPublicIP (v4_in_v6_prefix @ [a, b, c, d]) = isPublicIP [a, b, c, d]"
proof
  have z: "v4_in_v6_prefix \<noteq> []" "length v4_in_v6_prefix = 12" by (simp_all add: v4_in_v6_prefix_def)
  have t: "to4 [a, b, c, d] = Some [a, b, c, d]"
    "to4 (v4_in_v6_prefix @ [a, b, c, d]) = Some [a, b, c, d]"
    using z by (simp_all add: to4_def)
  have u: "IsUnspecified [a, b, c, d] \<longleftrightarrow> a = 0 \<and> b = 0 \<and> c = 0 \<and> d = 0"
    using z by (auto simp: IsUnspecified_def ip_equal_def IPv4zero_def IPv6unspecified_def
        v4_in_v6_prefix_def numeral_eq_Suc)
  show "isPublicIP [a, b, c, d] = (\<forall>blk\<in>set refused_blocks. \<not> in_block (v4_num [a, b, c, d]) blk)"
    unfolding refused_blocks_def
    by (auto simp: in_refused_blocks isPublicIP_def t u IsLoopback_def IsPrivate_def
        IsLinkLocalUnicast_def IsLinkLocalMulticast_def IsInterfaceLocalMulticast_def IsMulticast_def)
  show "isPublicIP (v4_in_v6_prefix @ [a, b, c, d]) = isPublicIP [a, b, c, d]"
    using z by (simp add: isPublicIP_def t)
qed

text \<open>An IPv4 address, also in its IPv4-mapped IPv6 form, is public exactly when it lies in
  none of the special-purpose blocks: no loopback, link-local (the metadata service), private,
  shared, benchmarking, multicast or broadcast address passes, and every other address does.\<close>

theorem isPublicIP_v4_iff:
  "isPublicIP [a, b, c, d] = (\<not> list_ex (in_block (v4_num [a, b, c, d])) refused_blocks) \<and>
   isPublicIP (v4_in_v6_prefix @ [a, b, c, d]) = isPublicIP [a, b, c, d]"
  using isPublicIP_v4 [of a b c d] by (auto simp: list_ex_iff)

text \<open>Addresses the comment on isPublicIP calls unroutable but the code lets through: the
  reserved block 240.0.0.0/4 and the IPv4-compatible spelling of 127.0.0.1.\<close>

lemma reserved_block_is_public: "isPublicIP [240, 0, 0, 1]"
  by (simp add: isPublicIP_v4 refused_blocks_def in_block_def v4_num_def quad_def)

end
