(* ===== verification/Egress_DnsCache.thy ===== *)
theory Egress_DnsCache
  imports Egress_Allowlist Net_Ip
begin

text \<open>
  The gateway's memory of DNS answers (\<open>cmd/egress-gateway/dnscache.go\<close>): recording, lookup,
  pruning and learning from a response, with the bounds of the table, the life time of a name and
  the provenance of every name it returns. \<open>sort.Slice\<close> is not stable, so the two unstable sorts
  of the code are arguments that satisfy the contract of the locale \<open>sorter\<close>.
\<close>

section \<open>The contract of a sort\<close>

locale sorter =
  fixes srt :: "'a list \<Rightarrow> 'a list" and key :: "'a \<Rightarrow> int"
  assumes perm: "mset (srt xs) = mset xs"
    and ordered: "sorted (map key (srt xs))"
begin

lemma set_srt [simp]: "set (srt xs) = set xs"
  by (metis perm set_mset_mset)

lemma length_srt [simp]: "length (srt xs) = length xs"
  by (metis perm size_mset)

lemma distinct_srt [simp]: "distinct (map f (srt xs)) = distinct (map f xs)"
  by (metis perm mset_map distinct_count_atmost_1 mset_eq_imp_distinct_iff)

lemma take_smallest:
  assumes "x \<in> set (take n (srt xs))" and "y \<in> set (drop n (srt xs))"
  shows "key x \<le> key y"
proof -
  have "sorted (map key (take n (srt xs) @ drop n (srt xs)))"
    using ordered [of xs] by simp
  with assms show ?thesis by (simp only: map_append sorted_append set_map) blast
qed

lemma set_take_subset_srt: "set (take n (srt xs)) \<subseteq> set xs"
  using set_take_subset [of n "srt xs"] by simp

end

section \<open>The code\<close>

definition second :: int where "second = 1000000000"
definition dnsMinTTL :: int where "dnsMinTTL = 6 * 3600 * second"
definition dnsMaxNames :: nat where "dnsMaxNames = 16"
definition dnsMaxIPs :: nat where "dnsMaxIPs = 65536"

record dns_entry =
  de_name :: string
  de_seen :: int
  de_expires :: int

type_synonym ip_table = "(string \<times> dns_entry list) list"

record dns_cache =
  byIP :: ip_table

definition newDNSCache :: dns_cache where
  "newDNSCache = \<lparr>byIP = []\<rparr>"

text \<open>The order "most recently seen first", as a key for an ascending sort.\<close>

abbreviation recent_key :: "dns_entry \<Rightarrow> int" where
  "recent_key e \<equiv> - de_seen e"

text \<open>\<open>sort.SliceStable\<close> with that order.\<close>

definition sort_recent :: "dns_entry list \<Rightarrow> dns_entry list" where
  "sort_recent es = sort_key recent_key es"

interpretation recent: sorter sort_recent recent_key
  by unfold_locales (simp_all add: sort_recent_def)

definition live :: "int \<Rightarrow> dns_entry \<Rightarrow> bool" where
  "live now e \<longleftrightarrow> now < de_expires e"

definition latest_seen :: "dns_entry list \<Rightarrow> int" where
  "latest_seen es = foldl (\<lambda>m e. if m < de_seen e then de_seen e else m) 0 es"

text \<open>\<open>pruneLocked\<close>: the first loop, then the oldest addresses beyond half the cap.\<close>

definition drop_expired :: "int \<Rightarrow> ip_table \<Rightarrow> ip_table" where
  "drop_expired now t =
     filter (\<lambda>(k, es). es \<noteq> []) (map (\<lambda>(k, es). (k, filter (live now) es)) t)"

definition pruneLocked ::
    "((string \<times> int) list \<Rightarrow> (string \<times> int) list) \<Rightarrow> int \<Rightarrow> dns_cache \<Rightarrow> dns_cache" where
  "pruneLocked srtA now c =
     (let t = drop_expired now (byIP c);
          ages = map (\<lambda>(k, es). (k, latest_seen es)) t;
          excess = length t - dnsMaxIPs div 2
      in if 0 < excess
         then c\<lparr>byIP := foldl (\<lambda>t a. AList.delete (fst a) t) t (take excess (srtA ages))\<rparr>
         else c\<lparr>byIP := t\<rparr>)"

text \<open>The refresh of an entry that is already there: the first one with the name.\<close>

fun refresh :: "string \<Rightarrow> int \<Rightarrow> int \<Rightarrow> dns_entry list \<Rightarrow> dns_entry list" where
  "refresh name now exp [] = []"
| "refresh name now exp (e # es) =
     (if de_name e = name
      then e\<lparr>de_seen := now, de_expires := (if de_expires e < exp then exp else de_expires e)\<rparr> # es
      else e # refresh name now exp es)"

definition entries_of :: "ip_table \<Rightarrow> string \<Rightarrow> dns_entry list" where
  "entries_of t k = (case map_of t k of Some es \<Rightarrow> es | None \<Rightarrow> [])"

definition Record ::
    "(dns_entry list \<Rightarrow> dns_entry list) \<Rightarrow> ((string \<times> int) list \<Rightarrow> (string \<times> int) list) \<Rightarrow>
     int \<Rightarrow> string \<Rightarrow> net_ip \<Rightarrow> int \<Rightarrow> dns_cache \<Rightarrow> dns_cache" where
  "Record srtE srtA now name0 ip ttl0 c =
     (let name = normalizeHost name0 in
      if name = [] \<or> ip = [] then c
      else
        let ttl = (if ttl0 < dnsMinTTL then dnsMinTTL else ttl0);
            key = ip_string ip;
            entries = entries_of (byIP c) key
        in if \<exists>e\<in>set entries. de_name e = name
           then c\<lparr>byIP := AList.update key (refresh name now (now + ttl) entries) (byIP c)\<rparr>
           else
             let entries' = (if dnsMaxNames \<le> length entries
                             then take (dnsMaxNames - 1) (srtE entries) else entries);
                 c' = (if map_of (byIP c) key = None \<and> dnsMaxIPs \<le> length (byIP c)
                       then pruneLocked srtA now c else c);
                 e = \<lparr>de_name = name, de_seen = now, de_expires = now + ttl\<rparr>
             in c'\<lparr>byIP := AList.update key (entries' @ [e]) (byIP c')\<rparr>)"

definition Names :: "int \<Rightarrow> net_ip \<Rightarrow> dns_cache \<Rightarrow> string list \<times> dns_cache" where
  "Names now ip c =
     (if ip = [] then ([], c)
      else
        let lv = filter (live now) (entries_of (byIP c) (ip_string ip))
        in if lv = [] then ([], c\<lparr>byIP := AList.delete (ip_string ip) (byIP c)\<rparr>)
           else (map de_name (sort_recent lv), c))"

text \<open>
  \<open>Learn\<close> on a message as the third-party parser (golang.org/x/net/dns/dnsmessage) delivers it:
  \<open>None\<close> when the header or the questions are malformed, else the question names and the answers
  up to the end of the section or the first malformed one. Every \<open>Record\<close> reads the clock itself:
  \<open>clk i\<close> is its reading at the \<open>i\<close>-th answer.
\<close>

datatype dns_answer = AnsA bytes u32 | AnsAAAA bytes u32 | AnsOther

fun learn_answers ::
    "(dns_entry list \<Rightarrow> dns_entry list) \<Rightarrow> ((string \<times> int) list \<Rightarrow> (string \<times> int) list) \<Rightarrow>
     (nat \<Rightarrow> int) \<Rightarrow> nat \<Rightarrow> string \<Rightarrow> dns_answer list \<Rightarrow> dns_cache \<Rightarrow> dns_cache" where
  "learn_answers srtE srtA clk i q [] c = c"
| "learn_answers srtE srtA clk i q (a # as) c =
     learn_answers srtE srtA clk (Suc i) q as
       (case a of
          AnsA r ttl \<Rightarrow> Record srtE srtA (clk i) q r (int (unat ttl) * second) c
        | AnsAAAA r ttl \<Rightarrow> Record srtE srtA (clk i) q r (int (unat ttl) * second) c
        | AnsOther \<Rightarrow> c)"

definition Learn ::
    "(dns_entry list \<Rightarrow> dns_entry list) \<Rightarrow> ((string \<times> int) list \<Rightarrow> (string \<times> int) list) \<Rightarrow>
     (nat \<Rightarrow> int) \<Rightarrow> (string list \<times> dns_answer list) option \<Rightarrow> dns_cache \<Rightarrow> dns_cache" where
  "Learn srtE srtA clk msg c =
     (case msg of
        None \<Rightarrow> c
      | Some ([], as) \<Rightarrow> c
      | Some (q # qs, as) \<Rightarrow> learn_answers srtE srtA clk 0 (trim_suffix ''.'' q) as c)"

text \<open>The length-prefixed frames of DNS over TCP; \<open>None\<close> is an error of \<open>io.ReadFull\<close>.\<close>

definition readDNSFrame :: "bytes \<Rightarrow> (bytes \<times> bytes) option" where
  "readDNSFrame r =
     (case r of
        a # b # r1 \<Rightarrow>
          (let n = unat (be16 a b) in if length r1 < n then None else Some (take n r1, drop n r1))
      | _ \<Rightarrow> None)"

definition writeDNSFrame :: "bytes \<Rightarrow> bytes" where
  "writeDNSFrame msg = put16 (of_nat (length msg)) @ msg"

lemma readDNSFrame_writeDNSFrame:
  assumes "length msg < 65536"
  shows "readDNSFrame (writeDNSFrame msg @ rest) = Some (msg, rest)"
proof -
  obtain a b where "put16 (of_nat (length msg) :: u16) = [a, b]" "be16 a b = of_nat (length msg)"
    by (simp add: put16_def)
  with assms show ?thesis by (simp add: readDNSFrame_def writeDNSFrame_def unat_of_nat)
qed

section \<open>The table invariant\<close>

definition entries_ok :: "dns_entry list \<Rightarrow> bool" where
  "entries_ok es \<longleftrightarrow> es \<noteq> [] \<and> length es \<le> dnsMaxNames \<and> distinct (map de_name es)
     \<and> [] \<notin> set (map de_name es)"

definition table_ok :: "ip_table \<Rightarrow> bool" where
  "table_ok t \<longleftrightarrow> distinct (map fst t) \<and> (\<forall>k es. map_of t k = Some es \<longrightarrow> entries_ok es)"

definition cache_ok :: "dns_cache \<Rightarrow> bool" where
  "cache_ok c \<longleftrightarrow> table_ok (byIP c) \<and> length (byIP c) \<le> dnsMaxIPs"

lemma map_de_name_refresh [simp]: "map de_name (refresh name now exp es) = map de_name es"
  by (induction es) auto

lemma length_refresh [simp]: "length (refresh name now exp es) = length es"
  by (induction es) auto

lemma refresh_eq_Nil [simp]: "refresh name now exp es = [] \<longleftrightarrow> es = []"
  by (metis length_0_conv length_refresh)

lemma entries_ok_refresh [simp]: "entries_ok (refresh name now exp es) = entries_ok es"
  by (simp add: entries_ok_def)

lemma table_ok_update [intro]: "table_ok t \<Longrightarrow> entries_ok es \<Longrightarrow> table_ok (AList.update k es t)"
  by (auto simp: table_ok_def distinct_update update_conv')

lemma table_ok_entries: "table_ok t \<Longrightarrow> map_of t k = Some es \<Longrightarrow> entries_ok es"
  by (simp add: table_ok_def)

lemma table_ok_delete [intro]: "table_ok t \<Longrightarrow> table_ok (AList.delete k t)"
  by (auto simp: table_ok_def distinct_delete delete_conv' split: if_splits)

lemma length_update:
  "length (AList.update k v t) = (if k \<in> fst ` set t then length t else Suc (length t))"
  by (induction t) auto

lemma drop_expired_Cons:
  "drop_expired now ((k, es) # t) =
     (if filter (live now) es = [] then drop_expired now t
      else (k, filter (live now) es) # drop_expired now t)"
  by (simp add: drop_expired_def)

lemma drop_expired_Nil [simp]: "drop_expired now [] = []"
  by (simp add: drop_expired_def)

lemma fst_set_drop_expired: "fst ` set (drop_expired now t) \<subseteq> fst ` set t"
  by (force simp: drop_expired_def)

lemma distinct_drop_expired: "distinct (map fst t) \<Longrightarrow> distinct (map fst (drop_expired now t))"
proof (induction t)
  case (Cons p t)
  then show ?case
    using fst_set_drop_expired [of now t] by (cases p) (auto simp: drop_expired_Cons)
qed simp

lemma map_of_drop_expired:
  "distinct (map fst t) \<Longrightarrow>
   map_of (drop_expired now t) k =
     (case map_of t k of None \<Rightarrow> None
      | Some es \<Rightarrow> if filter (live now) es = [] then None else Some (filter (live now) es))"
proof (induction t)
  case (Cons p t)
  obtain k' es where p: "p = (k', es)" by (cases p)
  have "map_of t k' = None" using Cons.prems p by (simp add: map_of_eq_None_iff)
  with Cons show ?case by (auto simp: p drop_expired_Cons split: option.splits)
qed simp

lemma length_drop_expired: "length (drop_expired now t) \<le> length t"
  by (simp add: drop_expired_def)

lemma entries_ok_filter: "entries_ok es \<Longrightarrow> filter P es \<noteq> [] \<Longrightarrow> entries_ok (filter P es)"
  by (auto simp: entries_ok_def distinct_map_filter intro: order_trans [OF length_filter_le])

lemma table_ok_drop_expired: "table_ok t \<Longrightarrow> table_ok (drop_expired now t)"
  by (auto simp: table_ok_def distinct_drop_expired map_of_drop_expired entries_ok_filter
      split: option.splits if_splits)

text \<open>Deleting a list of keys one after the other.\<close>

lemma map_of_foldl_delete:
  "map_of (foldl (\<lambda>t a. AList.delete (fst a) t) t as) k = (if k \<in> fst ` set as then None else map_of t k)"
  by (induction as arbitrary: t) (auto simp: delete_conv')

lemma table_ok_foldl_delete:
  "table_ok t \<Longrightarrow> table_ok (foldl (\<lambda>t a. AList.delete (fst a) t) t as)"
  by (induction as arbitrary: t) auto

lemma fst_set_delete: "fst ` set (AList.delete k t) = fst ` set t - {k}"
  by (metis delete_keys list.set_map set_removeAll)

lemma length_delete_present:
  "distinct (map fst t) \<Longrightarrow> k \<in> fst ` set t \<Longrightarrow> Suc (length (AList.delete k t)) = length t"
proof (induction t)
  case (Cons p t)
  have "k \<notin> fst ` set t \<Longrightarrow> AList.delete k t = t" by (simp add: delete_id)
  with Cons show ?case by (cases p) auto
qed simp

lemma length_foldl_delete:
  assumes "distinct (map fst t)" and "distinct (map fst as)" and "fst ` set as \<subseteq> fst ` set t"
  shows "length (foldl (\<lambda>t a. AList.delete (fst a) t) t as) + length as = length t"
  using assms
proof (induction as arbitrary: t)
  case (Cons a as)
  have "fst ` set as \<subseteq> fst ` set (AList.delete (fst a) t)"
    using Cons.prems unfolding fst_set_delete by (simp add: subset_Diff_insert)
  with Cons show ?case
    using length_delete_present [of t "fst a"] by (auto simp: distinct_delete)
qed simp

section \<open>Pruning\<close>

lemma map_fst_ages: "map fst (map (\<lambda>(k, es). (k, latest_seen es)) t) = map fst t"
  by (induction t) auto

lemma prune_table_ok: "table_ok (byIP c) \<Longrightarrow> table_ok (byIP (pruneLocked srtA now c))"
  by (simp add: pruneLocked_def Let_def table_ok_drop_expired table_ok_foldl_delete)

lemma prune_length:
  assumes "table_ok (byIP c)" and srt: "sorter srtA snd"
  shows "length (byIP (pruneLocked srtA now c)) \<le> dnsMaxIPs div 2"
proof -
  define t where "t = drop_expired now (byIP c)"
  define ages where "ages = map (\<lambda>(k, es). (k, latest_seen es)) t"
  define x where "x = length t - dnsMaxIPs div 2"
  have d: "distinct (map fst t)"
    using assms(1) table_ok_drop_expired by (simp add: t_def table_ok_def)
  have fst_ages: "map fst ages = map fst t" by (simp only: ages_def map_fst_ages)
  have "distinct (map fst (srtA ages))"
    using d fst_ages by (simp add: sorter.distinct_srt [OF srt])
  then have "distinct (map fst (take x (srtA ages)))" by (metis distinct_take take_map)
  moreover have "fst ` set (take x (srtA ages)) \<subseteq> fst ` set t"
    using sorter.set_take_subset_srt [OF srt, of x ages] fst_ages by (metis image_mono list.set_map)
  moreover have "length (take x (srtA ages)) = x"
    by (simp add: sorter.length_srt [OF srt] ages_def x_def)
  ultimately have "length (foldl (\<lambda>t a. AList.delete (fst a) t) t (take x (srtA ages))) + x = length t"
    using length_foldl_delete [OF d] by metis
  then show ?thesis
    by (auto simp: pruneLocked_def Let_def t_def [symmetric] ages_def [symmetric] x_def [symmetric])
       (auto simp: x_def)
qed

lemma map_of_prune:
  assumes "distinct (map fst (byIP c))" and "map_of (byIP (pruneLocked srtA now c)) k = Some es"
  shows "\<exists>es0. map_of (byIP c) k = Some es0 \<and> es = filter (live now) es0"
  using assms(2)
  by (auto simp: pruneLocked_def Let_def map_of_foldl_delete map_of_drop_expired [OF assms(1)]
      split: if_splits option.splits)

section \<open>Every operation keeps the table within its bounds\<close>

lemma entries_of_ok: "table_ok t \<Longrightarrow> entries_of t k \<noteq> [] \<Longrightarrow> entries_ok (entries_of t k)"
  by (auto simp: entries_of_def table_ok_entries split: option.splits)

lemma entries_ok_snoc:
  assumes "es = [] \<or> entries_ok es" and "sorter srtE recent_key"
    and "name \<notin> set (map de_name es)" and "name \<noteq> []" and "de_name e = name"
  shows "entries_ok ((if dnsMaxNames \<le> length es then take (dnsMaxNames - 1) (srtE es) else es) @ [e])"
proof (cases "dnsMaxNames \<le> length es")
  case True
  then have ok: "entries_ok es" using assms(1) by (auto simp: dnsMaxNames_def)
  let ?k = "take (dnsMaxNames - 1) (srtE es)"
  have "set ?k \<subseteq> set es" by (rule sorter.set_take_subset_srt [OF assms(2)])
  moreover have "distinct (map de_name ?k)"
    using ok sorter.distinct_srt [OF assms(2), of de_name es]
    by (metis distinct_take entries_ok_def take_map)
  ultimately show ?thesis
    using True ok assms(3-5) by (auto simp: entries_ok_def dnsMaxNames_def)
next
  case False
  with assms show ?thesis by (auto simp: entries_ok_def)
qed

lemma Record_ok:
  assumes "cache_ok c" and "sorter srtE recent_key" and "sorter srtA snd"
  shows "cache_ok (Record srtE srtA now n ip ttl c)"
proof (cases "normalizeHost n = [] \<or> ip = []")
  case True
  then show ?thesis using assms(1) by (auto simp: Record_def)
next
  case False
  define k where "k = ip_string ip"
  define es where "es = entries_of (byIP c) k"
  have ok: "table_ok (byIP c)" and len: "length (byIP c) \<le> dnsMaxIPs"
    using assms(1) by (auto simp: cache_ok_def)
  have es: "es = [] \<or> entries_ok es" using ok entries_of_ok es_def by blast
  show ?thesis
  proof (cases "\<exists>e\<in>set es. de_name e = normalizeHost n")
    case True
    then have "es \<noteq> []" by auto
    then have "map_of (byIP c) k \<noteq> None" by (auto simp: es_def entries_of_def split: option.splits)
    then have "k \<in> fst ` set (byIP c)" by (simp add: map_of_eq_None_iff)
    with True False ok len es \<open>es \<noteq> []\<close> show ?thesis
      by (auto simp: Record_def Let_def cache_ok_def length_update k_def [symmetric] es_def [symmetric])
  next
    case new: False
    define c' where "c' = (if map_of (byIP c) k = None \<and> dnsMaxIPs \<le> length (byIP c)
                       then pruneLocked srtA now c else c)"
    have ok': "table_ok (byIP c')" using ok by (simp add: c'_def prune_table_ok)
    have "entries_ok ((if dnsMaxNames \<le> length es then take (dnsMaxNames - 1) (srtE es) else es) @
        [\<lparr>de_name = normalizeHost n, de_seen = now,
          de_expires = now + (if ttl < dnsMinTTL then dnsMinTTL else ttl)\<rparr>])"
      by (rule entries_ok_snoc [OF es assms(2), of "normalizeHost n"]) (use new False in auto)
    moreover have "length (byIP c') \<le> dnsMaxIPs \<and> (k \<notin> fst ` set (byIP c') \<longrightarrow> length (byIP c') < dnsMaxIPs)"
      using len prune_length [OF ok assms(3), of now]
      by (auto simp: c'_def dnsMaxIPs_def map_of_eq_None_iff)
    ultimately show ?thesis
      using ok' new False
      by (auto simp: Record_def Let_def cache_ok_def length_update table_ok_update k_def [symmetric] es_def [symmetric]
          c'_def [symmetric])
  qed
qed

lemma Names_ok: "cache_ok c \<Longrightarrow> cache_ok (snd (Names now ip c))"
  by (auto simp: Names_def Let_def cache_ok_def intro: le_trans [OF length_delete_le])

section \<open>Histories of the cache\<close>

datatype dns_op = OpRecord int string net_ip int | OpNames int net_ip

fun dns_step ::
    "(dns_entry list \<Rightarrow> dns_entry list) \<Rightarrow> ((string \<times> int) list \<Rightarrow> (string \<times> int) list) \<Rightarrow>
     dns_op \<Rightarrow> dns_cache \<Rightarrow> dns_cache" where
  "dns_step srtE srtA (OpRecord now n ip ttl) c = Record srtE srtA now n ip ttl c"
| "dns_step srtE srtA (OpNames now ip) c = snd (Names now ip c)"

definition dns_run ::
    "(dns_entry list \<Rightarrow> dns_entry list) \<Rightarrow> ((string \<times> int) list \<Rightarrow> (string \<times> int) list) \<Rightarrow>
     dns_op list \<Rightarrow> dns_cache" where
  "dns_run srtE srtA ops = foldl (\<lambda>c op. dns_step srtE srtA op c) newDNSCache ops"

lemma cache_ok_new: "cache_ok newDNSCache"
  by (simp add: cache_ok_def table_ok_def newDNSCache_def)

lemma dns_run_snoc: "dns_run srtE srtA (ops @ [op]) = dns_step srtE srtA op (dns_run srtE srtA ops)"
  by (simp add: dns_run_def)

lemma dns_run_ok:
  assumes "sorter srtE recent_key" and "sorter srtA snd"
  shows "cache_ok (dns_run srtE srtA ops)"
proof (induction ops rule: rev_induct)
  case Nil
  show ?case using cache_ok_new by (simp add: dns_run_def)
next
  case (snoc op ops)
  then show ?case
    by (cases op) (simp_all add: dns_run_snoc Record_ok [OF _ assms] Names_ok)
qed

text \<open>C35: whatever is recorded and looked up, and in whatever order, the table never holds more
  than 65536 addresses nor more than 16 names for one address, no address has an empty or a
  repeated name, and no address is left without a name.\<close>

theorem dns_cache_bounded:
  assumes "sorter srtE recent_key" and "sorter srtA snd"
  shows "table_ok (byIP (dns_run srtE srtA ops)) \<and> length (byIP (dns_run srtE srtA ops)) \<le> 65536"
  using dns_run_ok [OF assms, of ops] by (simp add: cache_ok_def dnsMaxIPs_def)

text \<open>The stable sort of the library satisfies both contracts, so the theorem applies.\<close>

lemma sorter_sort_key: "sorter (sort_key key) (key :: 'a \<Rightarrow> int)"
  by unfold_locales simp_all

lemma dns_cache_bounded_witness:
  "table_ok (byIP (dns_run sort_recent (sort_key snd)
     [OpRecord 5 ''smtp.gmail.com'' [1, 1, 1, 1] 60, OpNames 6 [1, 1, 1, 1]])) \<and>
   length (byIP (dns_run sort_recent (sort_key snd)
     [OpRecord 5 ''smtp.gmail.com'' [1, 1, 1, 1] 60, OpNames 6 [1, 1, 1, 1]])) \<le> 65536"
  by (rule dns_cache_bounded [OF recent.sorter_axioms sorter_sort_key])

section \<open>Provenance\<close>

text \<open>An entry of an address is justified by an answer recorded for the same address: the name
  is the normal form of the recorded one, and its expiry is that answer's.\<close>

definition justified :: "dns_op list \<Rightarrow> string \<Rightarrow> dns_entry \<Rightarrow> bool" where
  "justified ops k e \<longleftrightarrow>
     (\<exists>t n ip ttl. OpRecord t n ip ttl \<in> set ops \<and> normalizeHost n = de_name e
        \<and> ip_string ip = k \<and> de_expires e = t + max ttl dnsMinTTL)"

definition all_justified :: "dns_op list \<Rightarrow> dns_cache \<Rightarrow> bool" where
  "all_justified ops c \<longleftrightarrow>
     (\<forall>k es e. map_of (byIP c) k = Some es \<longrightarrow> e \<in> set es \<longrightarrow> justified ops k e)"

lemma justified_mono: "justified ops k e \<Longrightarrow> justified (ops @ [op]) k e"
  by (auto simp: justified_def)

lemma justified_new:
  "normalizeHost n = de_name e \<Longrightarrow> ip_string ip = k \<Longrightarrow> de_expires e = t + max ttl dnsMinTTL \<Longrightarrow>
   justified (ops @ [OpRecord t n ip ttl]) k e"
  by (auto simp: justified_def)

lemma refresh_justified:
  assumes "e \<in> set (refresh (normalizeHost n) t (t + max ttl dnsMinTTL) es)"
    and "\<forall>e\<in>set es. justified ops k e" and "ip_string ip = k"
  shows "justified (ops @ [OpRecord t n ip ttl]) k e"
  using assms
proof (induction es)
  case (Cons x es)
  have new: "justified (ops @ [OpRecord t n ip ttl]) k e"
    if "de_name x = normalizeHost n"
      "e = x\<lparr>de_seen := t, de_expires := (if de_expires x < t + max ttl dnsMinTTL
         then t + max ttl dnsMinTTL else de_expires x)\<rparr>"
  proof (cases "de_expires x < t + max ttl dnsMinTTL")
    case True
    then show ?thesis using that assms(3) by (intro justified_new) auto
  next
    case False
    then have "justified ops k x \<Longrightarrow> justified ops k e" using that by (simp add: justified_def)
    then show ?thesis using Cons.prems(2) by (auto intro: justified_mono)
  qed
  show ?case
    using Cons new by (auto split: if_splits intro: justified_mono)
qed simp

lemma entries_of_justified:
  "all_justified ops c \<Longrightarrow> e \<in> set (entries_of (byIP c) k) \<Longrightarrow> justified ops k e"
  by (cases "map_of (byIP c) k") (auto simp: all_justified_def entries_of_def)

lemma prune_justified:
  "distinct (map fst (byIP c)) \<Longrightarrow> all_justified ops c \<Longrightarrow> all_justified ops (pruneLocked srtA now c)"
  unfolding all_justified_def by (fastforce dest: map_of_prune)

lemma all_justified_update:
  assumes "all_justified ops c" and "\<forall>e\<in>set es. justified (ops @ [op]) k e"
  shows "all_justified (ops @ [op]) (c\<lparr>byIP := AList.update k es (byIP c)\<rparr>)"
  using assms by (auto simp: all_justified_def update_conv' intro: justified_mono)

lemma Record_justified:
  assumes "all_justified ops c" and "cache_ok c" and "sorter srtE recent_key"
  shows "all_justified (ops @ [OpRecord t n ip ttl]) (Record srtE srtA t n ip ttl c)"
proof (cases "normalizeHost n = [] \<or> ip = []")
  case True
  then show ?thesis
    using assms(1) by (auto simp: Record_def all_justified_def intro: justified_mono)
next
  case False
  define k where "k = ip_string ip"
  define es where "es = entries_of (byIP c) k"
  have mx: "(if ttl < dnsMinTTL then dnsMinTTL else ttl) = max ttl dnsMinTTL" by auto
  have j: "\<forall>e\<in>set es. justified ops k e"
    using entries_of_justified [OF assms(1)] es_def by blast
  have d: "distinct (map fst (byIP c))" using assms(2) by (simp add: cache_ok_def table_ok_def)
  define es' where "es' = (if dnsMaxNames \<le> length es then take (dnsMaxNames - 1) (srtE es) else es)"
  have "set es' \<subseteq> set es"
    using sorter.set_take_subset_srt [OF assms(3)] by (simp add: es'_def)
  then have 1: "\<forall>e\<in>set (es' @ [\<lparr>de_name = normalizeHost n, de_seen = t,
      de_expires = t + max ttl dnsMinTTL\<rparr>]). justified (ops @ [OpRecord t n ip ttl]) k e"
    using j by (auto intro: justified_mono justified_new simp: k_def)
  have 2: "\<forall>e\<in>set (refresh (normalizeHost n) t (t + max ttl dnsMinTTL) es).
      justified (ops @ [OpRecord t n ip ttl]) k e"
    using refresh_justified [OF _ j] k_def by blast
  show ?thesis
    using False all_justified_update [OF assms(1) 2] all_justified_update [OF assms(1) 1]
      all_justified_update [OF prune_justified [OF d assms(1), of srtA t] 1]
    unfolding Record_def Let_def mx k_def [symmetric] es_def [symmetric] es'_def [symmetric]
    by (simp split: if_splits)
qed

lemma Names_justified: "all_justified ops c \<Longrightarrow> all_justified (ops @ [op]) (snd (Names t ip c))"
  by (auto simp: Names_def Let_def all_justified_def delete_conv' split: if_splits
      intro: justified_mono)

lemma dns_run_justified:
  assumes "sorter srtE recent_key" and "sorter srtA snd"
  shows "all_justified ops (dns_run srtE srtA ops)"
proof (induction ops rule: rev_induct)
  case Nil
  show ?case by (simp add: dns_run_def all_justified_def newDNSCache_def)
next
  case (snoc op ops)
  then show ?case
    using dns_run_ok [OF assms]
    by (cases op) (simp_all add: dns_run_snoc Record_justified Names_justified assms)
qed

text \<open>C36: the gateway never attributes a name to an address that no unexpired answer gave: every
  name it returns was recorded for that address, with a life time of at least six hours that has
  not run out.\<close>

theorem dns_names_provenance:
  assumes "sorter srtE recent_key" and "sorter srtA snd"
    and "name \<in> set (fst (Names now ip (dns_run srtE srtA ops)))"
  shows "\<exists>t n ip' ttl. OpRecord t n ip' ttl \<in> set ops \<and> normalizeHost n = name
    \<and> ip_string ip' = ip_string ip \<and> now < t + max ttl dnsMinTTL"
proof -
  let ?c = "dns_run srtE srtA ops"
  from assms(3) obtain e where "e \<in> set (entries_of (byIP ?c) (ip_string ip))" "live now e" "de_name e = name"
    by (auto simp: Names_def Let_def split: if_splits)
  then show ?thesis
    using entries_of_justified [OF dns_run_justified [OF assms(1,2)]]
    by (fastforce simp: justified_def live_def)
qed

text \<open>Read on its own, \<open>Names\<close> lists the unexpired names, most recently seen first.\<close>

lemma fst_Names:
  "ip \<noteq> [] \<Longrightarrow> fst (Names now ip c) =
     map de_name (sort_recent (filter (live now) (entries_of (byIP c) (ip_string ip))))"
  by (simp add: Names_def Let_def sort_recent_def)

lemma dns_names_provenance_witness:
  "\<exists>t n ip' ttl. OpRecord t n ip' ttl \<in> set [OpRecord 5 ''a.b'' [1, 1, 1, 1] 60] \<and>
     normalizeHost n = ''a.b'' \<and> ip_string ip' = ip_string [1, 1, 1, 1] \<and> 6 < t + max ttl dnsMinTTL"
proof (rule dns_names_provenance [OF recent.sorter_axioms sorter_sort_key])
  show "''a.b'' \<in> set (fst (Names 6 [1, 1, 1, 1]
      (dns_run sort_recent (sort_key snd) [OpRecord 5 ''a.b'' [1, 1, 1, 1] 60])))"
    by (simp add: fst_Names dns_run_def Record_def Let_def newDNSCache_def entries_of_def live_def
        sort_recent_def dnsMinTTL_def second_def dnsMaxNames_def dnsMaxIPs_def normalizeHost_def
        to_lower_def lower_char_def trim_space_def trim_right_def is_space_def trim_suffix_def suffix_to_prefix)
qed

section \<open>A recorded name is kept for the life time of its answer\<close>

lemma refresh_expiry:
  assumes "\<exists>e\<in>set es. de_name e = name"
  shows "\<exists>e\<in>set (refresh name now exp es). de_name e = name \<and> exp \<le> de_expires e"
  using assms by (induction es) auto

text \<open>Right after an answer has been recorded, and until its time to live or six hours have
  passed (whichever is longer), the address is known by the answer's name.\<close>

theorem dns_recorded_name_is_returned:
  assumes "normalizeHost n \<noteq> []" and "ip \<noteq> []" and "now < t + max ttl dnsMinTTL"
  shows "normalizeHost n \<in> set (fst (Names now ip (Record srtE srtA t n ip ttl c)))"
proof -
  let ?c = "Record srtE srtA t n ip ttl c"
  define es where "es = entries_of (byIP c) (ip_string ip)"
  have mx: "(if ttl < dnsMinTTL then dnsMinTTL else ttl) = max ttl dnsMinTTL" by auto
  have upd: "entries_of (AList.update k v T) k = v" for k v and T :: ip_table
    by (simp add: entries_of_def update_conv')
  have "\<exists>e\<in>set (entries_of (byIP ?c) (ip_string ip)).
      de_name e = normalizeHost n \<and> t + max ttl dnsMinTTL \<le> de_expires e"
  proof (cases "\<exists>e\<in>set es. de_name e = normalizeHost n")
    case True
    from refresh_expiry [OF this] show ?thesis
      using assms(1,2) True unfolding Record_def Let_def mx es_def [symmetric] by (simp add: upd)
  next
    case False
    then show ?thesis
      using assms(1,2) unfolding Record_def Let_def mx es_def [symmetric] by (simp add: upd)
  qed
  then obtain e where e: "e \<in> set (entries_of (byIP ?c) (ip_string ip))"
    "de_name e = normalizeHost n" "t + max ttl dnsMinTTL \<le> de_expires e"
    by blast
  then have "live now e" using assms(3) unfolding live_def by linarith
  with e(1) have "e \<in> set (filter (live now) (entries_of (byIP ?c) (ip_string ip)))" by simp
  then have "de_name e \<in> set (fst (Names now ip ?c))"
    by (auto simp: fst_Names [OF assms(2)] simp del: set_filter)
  then show ?thesis by (simp add: e(2))
qed

lemma dns_recorded_name_is_returned_witness:
  "normalizeHost ''smtp.gmail.com'' \<in> set (fst (Names 7 [1, 1, 1, 1]
     (Record sort_recent (sort_key snd) 5 ''smtp.gmail.com'' [1, 1, 1, 1] 60 newDNSCache)))"
  by (rule dns_recorded_name_is_returned)
    (simp_all add: normalizeHost_def Let_def dnsMinTTL_def to_lower_def lower_char_def
      trim_space_def trim_right_def is_space_def trim_suffix_def suffix_to_prefix)

end
