(* ===== verification/Tls_Wire.thy ===== *)
theory Tls_Wire
  imports Prelude
begin

text \<open>
  The wire shape of a TLS ClientHello as the two SNI readers of the code rely on it (RFC 8446
  section 4.1.2, RFC 6066 section 3): the reference encoder against which the gateway's and the
  relay's parsers are verified, and Go's checked reads of big-endian lengths.
\<close>

section \<open>Checked big-endian reads\<close>

text \<open>\<open>binary.BigEndian.Uint16(b)\<close> panics when \<open>b\<close> has fewer than two bytes.\<close>

definition uint16_of :: "bytes \<Rightarrow> ('e, u16) outcome" where
  "uint16_of b = obind (go_index b 1) (\<lambda>b1. obind (go_index b 0) (\<lambda>b0. Ret (be16 b0 b1)))"

lemma uint16_of_pair [simp]: "uint16_of [a, b] = Ret (be16 a b)"
  by (simp add: uint16_of_def)

lemma uint16_of_eq_Panic: "uint16_of b = Panic \<longleftrightarrow> length b < 2"
  by (auto simp: uint16_of_def go_index_eq_Panic go_index_eq_Ret)

lemma uint16_of_no_panic [no_panic]: "2 \<le> length b \<Longrightarrow> uint16_of b \<noteq> Panic"
  by (simp add: uint16_of_eq_Panic)

lemma obind_cong [fundef_cong]:
  "m = m' \<Longrightarrow> (\<And>x. m' = Ret x \<Longrightarrow> f x = f' x) \<Longrightarrow> obind m f = obind m' f'"
  by (cases m') auto

lemma oensure_cong [fundef_cong]:
  "c = c' \<Longrightarrow> e = e' \<Longrightarrow> (c' \<Longrightarrow> m = m') \<Longrightarrow> oensure c e m = oensure c' e' m'"
  by (simp add: oensure_def)

section \<open>The reference encoder\<close>

type_synonym extension = "u16 \<times> bytes"

definition enc_ext :: "extension \<Rightarrow> bytes" where
  "enc_ext x = put16 (fst x) @ put16 (of_nat (length (snd x))) @ snd x"

definition enc_exts :: "extension list \<Rightarrow> bytes" where
  "enc_exts xs = concat (map enc_ext xs)"

text \<open>A server_name_list with the single host_name entry \<open>name\<close>.\<close>

definition sni_data :: "bytes \<Rightarrow> bytes" where
  "sni_data name =
     put16 (of_nat (length name + 3)) @ [0] @ put16 (of_nat (length name)) @ name"

record client_hello =
  ch_head :: bytes          \<comment> \<open>client_version and random, 34 bytes\<close>
  ch_session :: bytes
  ch_ciphers :: bytes
  ch_compression :: bytes
  ch_extensions :: bytes    \<comment> \<open>the encoded extension list\<close>

definition enc_body :: "client_hello \<Rightarrow> bytes" where
  "enc_body h =
     ch_head h
     @ [of_nat (length (ch_session h))] @ ch_session h
     @ put16 (of_nat (length (ch_ciphers h))) @ ch_ciphers h
     @ [of_nat (length (ch_compression h))] @ ch_compression h
     @ put16 (of_nat (length (ch_extensions h))) @ ch_extensions h"

definition enc_handshake :: "client_hello \<Rightarrow> bytes" where
  "enc_handshake h = 1 # tl (put32 (of_nat (length (enc_body h)))) @ enc_body h"

definition enc_record :: "client_hello \<Rightarrow> bytes" where
  "enc_record h = [0x16, 3, 1] @ put16 (of_nat (length (enc_handshake h))) @ enc_handshake h"

definition wf_hello :: "client_hello \<Rightarrow> bool" where
  "wf_hello h \<longleftrightarrow> length (ch_head h) = 34 \<and> length (ch_session h) < 256
     \<and> length (ch_compression h) < 256 \<and> length (enc_handshake h) < 65536"

definition wf_exts :: "extension list \<Rightarrow> bool" where
  "wf_exts xs \<longleftrightarrow> (\<forall>x\<in>set xs. length (snd x) < 65536)"

section \<open>Lengths that fit are read back\<close>

lemma unat_of_nat16 [simp]: "n < 65536 \<Longrightarrow> unat (of_nat n :: u16) = n"
  by (simp add: unat_of_nat)

lemma unat_of_nat8 [simp]: "n < 256 \<Longrightarrow> unat (of_nat n :: u8) = n"
  by (simp add: unat_of_nat)

lemma list4_cases:
  obtains "length xs < 4" | a b c d ys where "xs = a # b # c # d # ys"
proof (cases "length xs < 4")
  case False
  then obtain n where "length xs = Suc (Suc (Suc (Suc n)))"
    by (metis add.commute le_Suc_ex not_less numeral_eq_Suc add_numeral_left pred_numeral_simps(1,2,3)
        add_Suc_right add_0_right BitM.simps)
  then show ?thesis by (auto simp: length_Suc_conv intro: that(2))
qed (rule that(1))

lemma put16_cases: obtains a b where "put16 v = [a, b]" "be16 a b = v"
  by (simp add: put16_def)

lemma wf_hello_lengths:
  assumes "wf_hello h"
  shows "length (ch_ciphers h) < 65536" "length (ch_extensions h) < 65536"
    "length (enc_body h) < 65536"
  using assms by (auto simp: wf_hello_def enc_handshake_def enc_body_def)

lemma length_enc_handshake: "length (enc_handshake h) = 4 + length (enc_body h)"
  by (simp add: enc_handshake_def put32_def)

end
