(* ===== verification/Egress_Sni.thy ===== *)
theory Egress_Sni
  imports Tls_Wire
begin

text \<open>
  The egress gateway's ClientHello reader (\<open>cmd/egress-gateway/sni.go\<close>): reading one TLS record
  from a stream, and the walk to the server_name extension. Go's slice expressions are checked
  (\<open>go_slice\<close>, \<open>go_index\<close>), so that never panicking is a theorem and not an assumption.
\<close>

section \<open>The code\<close>

datatype sni_err =
    ReadEOF | ReadUnexpectedEOF            \<comment> \<open>io.ReadFull\<close>
  | NotTlsHandshake | BadRecordLength | NotClientHello | Truncated | NoExtensions
  | BadSniExt | BadSniLen | NoSniExtension

text \<open>\<open>io.ReadFull(r, buf)\<close> with \<open>len(buf) = n\<close>, on a stream that still delivers the bytes
  \<open>inp\<close>: the bytes read and the rest of the stream.\<close>

definition read_full :: "nat \<Rightarrow> bytes \<Rightarrow> (sni_err, bytes \<times> bytes) outcome" where
  "read_full n inp =
     (if n \<le> length inp then Ret (take n inp, drop n inp)
      else if inp = [] then Err ReadEOF else Err ReadUnexpectedEOF)"

text \<open>The closure \<open>read\<close> of parseClientHelloSNI over the remaining slice \<open>p\<close>.\<close>

definition read_or :: "sni_err \<Rightarrow> nat \<Rightarrow> bytes \<Rightarrow> (sni_err, bytes \<times> bytes) outcome" where
  "read_or e n p = oensure (\<not> length p < n) e (Ret (take n p, drop n p))"

text \<open>The body of the loop for an extension of type server_name.\<close>

definition sni_of_ext :: "bytes \<Rightarrow> (sni_err, string) outcome" where
  "sni_of_ext data =
     oensure (\<not> length data < 5) BadSniExt
      (obind (go_index data 2) (\<lambda>d2.
       oensure (\<not> d2 \<noteq> 0) BadSniExt
        (obind (go_slice 3 5 data) (\<lambda>l.
         obind (uint16_of l) (\<lambda>nl.
         let nameLen = unat nl in
         oensure (\<not> length data < 5 + nameLen) BadSniLen
          (obind (go_slice 5 (5 + nameLen) data) (\<lambda>name. Ret (string_of_bytes name))))))))"

function ext_loop :: "bytes \<Rightarrow> (sni_err, string) outcome" where
  "ext_loop ext =
     (if 4 \<le> length ext then
        obind (go_slice 0 2 ext) (\<lambda>t.
        obind (uint16_of t) (\<lambda>etype.
        obind (go_slice 2 4 ext) (\<lambda>l.
        obind (uint16_of l) (\<lambda>el.
        obind (go_slice 4 (length ext) ext) (\<lambda>ext1.
        let elen = unat el in
        if length ext1 < elen then Err NoSniExtension \<comment> \<open>break\<close>
        else obind (go_slice 0 elen ext1) (\<lambda>data.
             obind (go_slice elen (length ext1) ext1) (\<lambda>ext2.
             if etype \<noteq> 0 then ext_loop ext2 else sni_of_ext data)))))))
      else Err NoSniExtension)"
  by pat_completeness auto
termination
  by (relation "measure length") (auto simp: go_slice_eq_Ret)

declare ext_loop.simps [simp del]

definition parseClientHelloSNI :: "bytes \<Rightarrow> (sni_err, string) outcome" where
  "parseClientHelloSNI b =
     oensure (\<not> length b < 4) NotClientHello
      (obind (go_index b 0) (\<lambda>b0.
       oensure (\<not> b0 \<noteq> 1) NotClientHello
        (obind (go_slice 4 (length b) b) (\<lambda>p.
         obind (read_or Truncated (2 + 32) p) (\<lambda>(_, p).
         obind (read_or Truncated 1 p) (\<lambda>(sid, p).
         obind (go_index sid 0) (\<lambda>sidLen.
         obind (read_or Truncated (unat sidLen) p) (\<lambda>(_, p).
         obind (read_or Truncated 2 p) (\<lambda>(cs, p).
         obind (uint16_of cs) (\<lambda>csLen.
         obind (read_or Truncated (unat csLen) p) (\<lambda>(_, p).
         obind (read_or Truncated 1 p) (\<lambda>(cm, p).
         obind (go_index cm 0) (\<lambda>cmLen.
         obind (read_or Truncated (unat cmLen) p) (\<lambda>(_, p).
         obind (read_or NoExtensions 2 p) (\<lambda>(extTotal, ext).
         obind (uint16_of extTotal) (\<lambda>total.
         if unat total < length ext
         then obind (go_slice 0 (unat total) ext) ext_loop
         else ext_loop ext))))))))))))))))"

text \<open>
  \<open>readClientHelloSNI\<close>: the bytes to replay, the server name or the error, and what is left of
  the stream. A short record leaves the zero bytes of the buffer behind what was read.
\<close>

definition readClientHelloSNI :: "bytes \<Rightarrow> bytes \<times> (sni_err, string) outcome \<times> bytes" where
  "readClientHelloSNI r =
     (case read_full 5 r of
        Ret (hdr, r1) \<Rightarrow>
          if hdr ! 0 \<noteq> 0x16 then (hdr, Err NotTlsHandshake, r1)
          else
            let recLen = unat (be16 (hdr ! 3) (hdr ! 4)) in
            if recLen \<le> 0 \<or> recLen > 65536 then (hdr, Err BadRecordLength, r1)
            else (case read_full recLen r1 of
                    Ret (body, r2) \<Rightarrow> (hdr @ body, parseClientHelloSNI body, r2)
                  | Err e \<Rightarrow> (hdr @ r1 @ replicate (recLen - length r1) 0, Err e, [])
                  | Panic \<Rightarrow> ([], Panic, []))
      | Err e \<Rightarrow> ([], Err e, [])
      | Panic \<Rightarrow> ([], Panic, []))"

section \<open>Shape lemmas\<close>

lemma read_or_eq_Ret [simp]:
  "read_or e n p = Ret q \<longleftrightarrow> n \<le> length p \<and> q = (take n p, drop n p)"
  by (auto simp: read_or_def)

lemma read_or_not_Panic [simp]: "read_or e n p \<noteq> Panic"
  by (simp add: read_or_def)

lemma read_or_append [simp]: "n = length xs \<Longrightarrow> read_or e n (xs @ ys) = Ret (xs, ys)"
  by (simp add: read_or_def)

lemma read_or_one [simp]: "read_or e (Suc 0) (x # ys) = Ret ([x], ys)"
  by (simp add: read_or_def)

lemma read_or_two [simp]: "read_or e 2 (x # y # ys) = Ret ([x, y], ys)"
  by (simp add: read_or_def)

lemma sni_of_ext_not_Panic: "sni_of_ext data \<noteq> Panic"
  unfolding sni_of_ext_def by (intro no_panic) (auto simp: go_slice_eq_Ret)

lemma ext_loop_Cons4:
  "ext_loop (a # b # c # d # rest) =
     (let elen = unat (be16 c d) in
      if length rest < elen then Err NoSniExtension
      else if be16 a b \<noteq> 0 then ext_loop (drop elen rest) else sni_of_ext (take elen rest))"
  by (subst ext_loop.simps) (simp add: Let_def go_slice_def)

lemma ext_loop_short: "length ext < 4 \<Longrightarrow> ext_loop ext = Err NoSniExtension"
  by (subst ext_loop.simps) simp

lemma ext_loop_not_Panic: "ext_loop ext \<noteq> Panic"
proof (induction ext rule: length_induct)
  case (1 ext)
  show ?case
  proof (cases ext rule: list4_cases)
    case 1
    then show ?thesis by (simp add: ext_loop_short)
  next
    case (2 a b c d ys)
    then show ?thesis
      using "1" by (simp add: ext_loop_Cons4 Let_def sni_of_ext_not_Panic)
  qed
qed

lemma parseClientHelloSNI_not_Panic: "parseClientHelloSNI b \<noteq> Panic"
  unfolding parseClientHelloSNI_def
  by (intro no_panic read_or_not_Panic ext_loop_not_Panic) (auto simp: go_slice_eq_Ret)

lemma readClientHelloSNI_not_Panic: "fst (snd (readClientHelloSNI r)) \<noteq> Panic"
  by (auto simp: readClientHelloSNI_def read_full_def parseClientHelloSNI_not_Panic Let_def
      split: outcome.splits)

text \<open>No input, however malformed, makes the ClientHello parser or the record reader index or
  slice out of range.\<close>

theorem parseClientHelloSNI_never_panics:
  "parseClientHelloSNI b \<noteq> Panic \<and> fst (snd (readClientHelloSNI r)) \<noteq> Panic"
  by (simp add: parseClientHelloSNI_not_Panic readClientHelloSNI_not_Panic)

section \<open>Reading back an encoded ClientHello\<close>

lemma sni_of_ext_entry:
  assumes "length name < 65536"
  shows "sni_of_ext (put16 v @ 0 # put16 (of_nat (length name)) @ name) = Ret (string_of_bytes name)"
proof -
  obtain a b where ab: "put16 v = [a, b]" by (rule put16_cases)
  obtain c d where cd: "put16 (of_nat (length name) :: u16) = [c, d]"
    "be16 c d = of_nat (length name)" by (rule put16_cases)
  show ?thesis
    using assms by (simp add: sni_of_ext_def ab cd Let_def go_slice_def go_index_def)
qed

lemma ext_loop_enc_ext:
  assumes "length d < 65536"
  shows "ext_loop (enc_ext (t, d) @ rest) = (if t \<noteq> 0 then ext_loop rest else sni_of_ext d)"
proof -
  obtain a b where ab: "put16 t = [a, b]" "be16 a b = t" by (rule put16_cases)
  obtain e f where ef: "put16 (of_nat (length d) :: u16) = [e, f]" "be16 e f = of_nat (length d)"
    by (rule put16_cases)
  show ?thesis
    using assms by (simp add: enc_ext_def ab ef ext_loop_Cons4)
qed

lemma ext_loop_skip:
  assumes "\<forall>x\<in>set pre. fst x \<noteq> 0" and "wf_exts pre"
  shows "ext_loop (enc_exts pre @ rest) = ext_loop rest"
  using assms
proof (induction pre)
  case (Cons x pre)
  then have "ext_loop (enc_ext (fst x, snd x) @ (enc_exts pre @ rest)) = ext_loop (enc_exts pre @ rest)"
    by (subst ext_loop_enc_ext) (auto simp: wf_exts_def)
  with Cons show ?case by (simp add: enc_exts_def wf_exts_def)
qed (simp add: enc_exts_def)

lemma parse_enc_handshake:
  assumes "wf_hello h"
  shows "parseClientHelloSNI (enc_handshake h @ extra) = ext_loop (ch_extensions h)"
proof -
  note len = wf_hello_lengths [OF assms]
  obtain x y where xy: "put16 (of_nat (length (ch_ciphers h)) :: u16) = [x, y]"
    "be16 x y = of_nat (length (ch_ciphers h))" by (rule put16_cases)
  obtain u v where uv: "put16 (of_nat (length (ch_extensions h)) :: u16) = [u, v]"
    "be16 u v = of_nat (length (ch_extensions h))" by (rule put16_cases)
  have hd: "length (ch_head h) = 34" and s: "length (ch_session h) < 256"
    and c: "length (ch_compression h) < 256"
    using assms by (auto simp: wf_hello_def)
  have e: "enc_handshake h @ extra = 1 # tl (put32 (of_nat (length (enc_body h)))) @ (enc_body h @ extra)"
    by (simp add: enc_handshake_def)
  show ?thesis
    unfolding parseClientHelloSNI_def e
    using hd s c len by (simp add: put32_def enc_body_def xy uv)
qed


text \<open>The extension list of a client that asks for one host name, among other extensions.\<close>

definition exts_with_sni :: "extension list \<Rightarrow> bytes \<Rightarrow> extension list \<Rightarrow> extension list" where
  "exts_with_sni pre name post = pre @ (0, sni_data name) # post"

lemma ext_loop_exts_with_sni:
  assumes "\<forall>x\<in>set pre. fst x \<noteq> 0" and "wf_exts pre" and "length name + 5 < 65536"
  shows "ext_loop (enc_exts (exts_with_sni pre name post)) = Ret (string_of_bytes name)"
proof -
  have d: "length (sni_data name) < 65536" using assms(3) by (simp add: sni_data_def)
  have "ext_loop (enc_exts (exts_with_sni pre name post)) =
      ext_loop (enc_ext (0, sni_data name) @ enc_exts post)"
    using ext_loop_skip [OF assms(1,2)] by (simp add: enc_exts_def exts_with_sni_def)
  also have "\<dots> = sni_of_ext (sni_data name)"
    by (simp add: ext_loop_enc_ext [OF d])
  also have "\<dots> = Ret (string_of_bytes name)"
    using sni_of_ext_entry [of name] assms(3) by (simp add: sni_data_def)
  finally show ?thesis .
qed

lemma readClientHelloSNI_record:
  assumes "wf_hello h"
  shows "readClientHelloSNI (enc_record h @ rest) = (enc_record h, ext_loop (ch_extensions h), rest)"
proof -
  obtain a b where ab: "put16 (of_nat (length (enc_handshake h)) :: u16) = [a, b]"
    "be16 a b = of_nat (length (enc_handshake h))" by (rule put16_cases)
  have n: "length (enc_handshake h) < 65536" "0 < length (enc_handshake h)"
    using assms by (auto simp: wf_hello_def length_enc_handshake)
  have "parseClientHelloSNI (enc_handshake h) = ext_loop (ch_extensions h)"
    using parse_enc_handshake [OF assms, of "[]"] by simp
  with n show ?thesis
    by (simp add: readClientHelloSNI_def enc_record_def read_full_def ab Let_def)
qed

lemma readClientHelloSNI_enc_record:
  assumes "wf_hello h" and "ch_extensions h = enc_exts (exts_with_sni pre (bytes_of_string name) post)"
    and "\<forall>x\<in>set pre. fst x \<noteq> 0" and "wf_exts pre" and "length name + 5 < 65536"
  shows "readClientHelloSNI (enc_record h @ rest) = (enc_record h, Ret name, rest)"
  using ext_loop_exts_with_sni [OF assms(3,4), of "bytes_of_string name" post]
    readClientHelloSNI_record [OF assms(1), of rest] assms(2,5) by simp

text \<open>Reading a well-formed ClientHello record with a host name in its server_name extension,
  whatever the other fields and extensions are, gives exactly that name, the very bytes of the
  record for the replay, and leaves the rest of the stream unread.\<close>

theorem readClientHelloSNI_roundtrip:
  assumes "wf_hello h" and "ch_extensions h = enc_exts (exts_with_sni pre (bytes_of_string name) post)"
    and "\<forall>x\<in>set pre. fst x \<noteq> 0" and "wf_exts pre" and "length name + 5 < 65536"
  shows "readClientHelloSNI (enc_record h @ rest) = (enc_record h, Ret name, rest)"
  using assms by (rule readClientHelloSNI_enc_record)

definition sample_hello :: client_hello where
  "sample_hello = \<lparr>ch_head = replicate 34 0, ch_session = [7], ch_ciphers = [0x13, 1],
     ch_compression = [0],
     ch_extensions = enc_exts (exts_with_sni [(43, [2, 3, 4])] (bytes_of_string ''a.io'') [(10, [])])\<rparr>"

lemma length_enc_exts: "length (enc_exts xs) = (\<Sum>x\<leftarrow>xs. 4 + length (snd x))"
  by (induction xs) (auto simp: enc_exts_def enc_ext_def)

lemma wf_sample_hello: "wf_hello sample_hello"
  by (simp add: wf_hello_def sample_hello_def length_enc_handshake enc_body_def length_enc_exts
      exts_with_sni_def sni_data_def)

lemma read_sample_hello:
  "readClientHelloSNI (enc_record sample_hello @ rest) = (enc_record sample_hello, Ret ''a.io'', rest)"
  by (rule readClientHelloSNI_enc_record [OF wf_sample_hello, where pre = "[(43, [2, 3, 4])]" and post = "[(10, [])]"])
     (simp_all add: sample_hello_def wf_exts_def)

lemma readClientHelloSNI_roundtrip_witness:
  "readClientHelloSNI (enc_record sample_hello @ [1, 2]) = (enc_record sample_hello, Ret ''a.io'', [1, 2])"
  by (rule readClientHelloSNI_roundtrip [OF wf_sample_hello, where pre = "[(43, [2, 3, 4])]" and post = "[(10, [])]"])
     (simp_all add: sample_hello_def wf_exts_def)

end
