(* ===== verification/Egress_Gateway.thy ===== *)
theory Egress_Gateway
  imports Egress_DnsCache Egress_Sni
begin

text \<open>
  The connection handlers of the egress gateway (\<open>cmd/egress-gateway/main.go\<close> and \<open>dialPinned\<close>
  of \<open>dial.go\<close>). A handler is a function from the gateway, the outside world's answers and the
  traffic so far to the outcome of the connection and the new traffic: the lines of the attempts
  file and every address that was dialed, in order.
\<close>

section \<open>State and outside world\<close>

record gateway =
  gw_mode :: string
  gw_allow :: allow_list
  gw_attempts :: string
  gw_dns :: dns_cache

text \<open>A line of the attempts file; \<open>at_time\<close> is the clock of \<open>time.Now\<close>.\<close>

record attempt =
  at_host :: string
  at_port :: nat
  at_proto :: string
  at_decision :: string
  at_mode :: string
  at_time :: int

record traffic =
  attempts_file :: "attempt list"
  dialed :: "(net_ip \<times> string) list"

text \<open>
  What the handlers ask of the operating system: the clock, the resolver (\<open>None\<close> is an error),
  whether the \<open>i\<close>-th dial of a connection succeeds, and whether the attempts file can be opened.
\<close>

record outside =
  out_now :: int
  out_lookup :: "string \<Rightarrow> net_ip list option"
  out_dial :: "nat \<Rightarrow> net_ip \<Rightarrow> string \<Rightarrow> bool"
  out_can_open :: bool

text \<open>
  An accepted connection: the bytes the peer sends, the destination it dialed before the
  redirect (\<open>originalDst\<close>), our end's address, and what \<open>http.ReadRequest\<close> makes of the bytes:
  \<open>None\<close> for an error, else the Host and the bytes replayed to the upstream.
\<close>

record conn =
  conn_in :: bytes
  conn_dst :: "(net_ip \<times> nat) option"
  conn_local :: net_ip
  conn_http :: "(string \<times> bytes) option"

text \<open>How a connection ends: closed, or spliced to an upstream after replaying some bytes;
  \<open>Crashed\<close> is a panic of the handler's goroutine.\<close>

datatype verdict = Closed | Spliced net_ip string bytes | Crashed

section \<open>The code\<close>

definition splitCSV :: "string \<Rightarrow> string list" where
  "splitCSV s = filter (\<lambda>p. p \<noteq> []) (map trim_space (split_on CHR '','' s))"

text \<open>The gateway \<open>main\<close> builds from the environment.\<close>

definition new_gateway :: "string \<Rightarrow> string \<Rightarrow> string \<Rightarrow> gateway" where
  "new_gateway mode0 allow0 attempts0 =
     \<lparr>gw_mode = (if mode0 \<noteq> ''enforce'' then ''monitor'' else mode0),
      gw_allow = NewAllowList (splitCSV allow0), gw_attempts = attempts0, gw_dns = newDNSCache\<rparr>"

definition logAttempt ::
    "gateway \<Rightarrow> outside \<Rightarrow> string \<Rightarrow> string \<Rightarrow> nat \<Rightarrow> bool \<Rightarrow> traffic \<Rightarrow> traffic" where
  "logAttempt g out host proto port allowed w =
     (let decision = (if allowed then ''observed'' else ''blocked'') in
      if gw_attempts g = [] then w
      else if \<not> out_can_open out then w
      else w\<lparr>attempts_file := attempts_file w @
             [\<lparr>at_host = host, at_port = port, at_proto = proto, at_decision = decision,
               at_mode = gw_mode g, at_time = out_now out\<rparr>]\<rparr>)"

fun first_allowed :: "allow_list \<Rightarrow> string list \<Rightarrow> string option" where
  "first_allowed a [] = None"
| "first_allowed a (n # ns) = (if Allowed a n then Some n else first_allowed a ns)"

definition decideNames ::
    "gateway \<Rightarrow> outside \<Rightarrow> string list \<Rightarrow> string \<Rightarrow> string \<Rightarrow> nat \<Rightarrow> traffic
     \<Rightarrow> (string \<times> bool) \<times> traffic" where
  "decideNames g out names fallback proto port w =
     (case first_allowed (gw_allow g) names of
        Some n \<Rightarrow> ((n, True), w)
      | None \<Rightarrow>
          if Allowed (gw_allow g) fallback then ((fallback, True), w)
          else
            let host = (if 0 < length names then names ! 0 else fallback);
                allowed = (gw_mode g = ''monitor'')
            in ((host, allowed), logAttempt g out host proto port allowed w))"

definition decide ::
    "gateway \<Rightarrow> outside \<Rightarrow> string \<Rightarrow> string \<Rightarrow> nat \<Rightarrow> traffic \<Rightarrow> bool \<times> traffic" where
  "decide g out host proto port w =
     (case decideNames g out [host] host proto port w of ((_, ok), w') \<Rightarrow> (ok, w'))"

datatype dial_err = LookupFailed | NonPublic | NoAddresses | DialFailed

text \<open>The loop over the vetted addresses: the \<open>i\<close>-th is dialed as an IP literal, the first
  success wins.\<close>

fun dial_first ::
    "outside \<Rightarrow> string \<Rightarrow> nat \<Rightarrow> net_ip list \<Rightarrow> traffic \<Rightarrow> (dial_err + net_ip) \<times> traffic" where
  "dial_first out port i [] w = (Inl DialFailed, w)"
| "dial_first out port i (ip # ips) w =
     (let w' = w\<lparr>dialed := dialed w @ [(ip, port)]\<rparr> in
      if out_dial out i ip port then (Inr ip, w') else dial_first out port (Suc i) ips w')"

definition dialPinned ::
    "outside \<Rightarrow> string \<Rightarrow> string \<Rightarrow> bool \<Rightarrow> traffic \<Rightarrow> (dial_err + net_ip) \<times> traffic" where
  "dialPinned out host port requirePublic w =
     (let h = normalizeHost host in
      case (case parse_ip h of Some ip \<Rightarrow> Some [ip] | None \<Rightarrow> out_lookup out h) of
        None \<Rightarrow> (Inl LookupFailed, w)
      | Some ips \<Rightarrow>
          let vetted = (if requirePublic then filter isPublicIP ips else ips) in
          if requirePublic \<and> vetted = [] then (Inl NonPublic, w)
          else if vetted = [] then (Inl NoAddresses, w)
          else dial_first out port 0 vetted w)"

text \<open>\<open>strconv.Atoi\<close> of the two port literals the callers pass.\<close>

definition atoi_port :: "string \<Rightarrow> nat" where
  "atoi_port s = foldl (\<lambda>v c. v * 10 + (of_char c - 48)) 0 s"

definition dialUpstream ::
    "gateway \<Rightarrow> outside \<Rightarrow> string \<Rightarrow> string \<Rightarrow> string \<Rightarrow> traffic \<Rightarrow> (dial_err + net_ip) \<times> traffic" where
  "dialUpstream g out host port proto w =
     (case dialPinned out host port (gw_mode g = ''enforce'') w of
        (Inl NonPublic, w') \<Rightarrow> (Inl NonPublic, logAttempt g out host proto (atoi_port port) False w')
      | r \<Rightarrow> r)"

definition handleTLS :: "gateway \<Rightarrow> outside \<Rightarrow> conn \<Rightarrow> traffic \<Rightarrow> verdict \<times> traffic" where
  "handleTLS g out c w =
     (case readClientHelloSNI (conn_in c) of
        (hello, Panic, rest) \<Rightarrow> (Crashed, w)
      | (hello, Err _, rest) \<Rightarrow> (Closed, logAttempt g out ''(no-sni)'' ''tls'' 443 False w)
      | (hello, Ret sni, rest) \<Rightarrow>
          if sni = [] then (Closed, logAttempt g out ''(no-sni)'' ''tls'' 443 False w)
          else
            case decide g out sni ''tls'' 443 w of (ok, w1) \<Rightarrow>
              if \<not> ok then (Closed, w1)
              else
                case dialUpstream g out sni ''443'' ''tls'' w1 of
                  (Inl _, w2) \<Rightarrow> (Closed, w2)
                | (Inr ip, w2) \<Rightarrow> (Spliced ip ''443'' hello, w2))"

definition handleHTTP :: "gateway \<Rightarrow> outside \<Rightarrow> conn \<Rightarrow> traffic \<Rightarrow> verdict \<times> traffic" where
  "handleHTTP g out c w =
     (case conn_http c of
        None \<Rightarrow> (Closed, w)
      | Some (host, replay) \<Rightarrow>
          if host = [] then (Closed, logAttempt g out ''(no-host)'' ''http'' 80 False w)
          else
            case decide g out host ''http'' 80 w of (ok, w1) \<Rightarrow>
              if \<not> ok then (Closed, w1)
              else
                case dialUpstream g out host ''80'' ''http'' w1 of
                  (Inl _, w2) \<Rightarrow> (Closed, w2)
                | (Inr ip, w2) \<Rightarrow> (Spliced ip ''80'' replay, w2))"

definition handleRaw ::
    "gateway \<Rightarrow> outside \<Rightarrow> net_ip \<Rightarrow> nat \<Rightarrow> traffic \<Rightarrow> verdict \<times> gateway \<times> traffic" where
  "handleRaw g out ip port w =
     (case Names (out_now out) ip (gw_dns g) of (names, dns') \<Rightarrow>
        let g' = g\<lparr>gw_dns := dns'\<rparr> in
        case decideNames g' out names (ip_string ip) ''tcp'' port w of ((host, ok), w1) \<Rightarrow>
          if \<not> ok then (Closed, g', w1)
          else if gw_mode g' = ''enforce'' \<and> \<not> isPublicIP ip
          then (Closed, g', logAttempt g' out host ''tcp'' port False w1)
          else
            let w2 = w1\<lparr>dialed := dialed w1 @ [(ip, itoa port)]\<rparr> in
            if out_dial out 0 ip (itoa port) then (Spliced ip (itoa port) [], g', w2)
            else (Closed, g', w2))"

definition handleAny :: "gateway \<Rightarrow> outside \<Rightarrow> conn \<Rightarrow> traffic \<Rightarrow> verdict \<times> gateway \<times> traffic" where
  "handleAny g out c w =
     (case conn_dst c of
        None \<Rightarrow> (Closed, g, w)
      | Some (ip, port) \<Rightarrow>
          if IsLoopback ip \<or> ip_equal ip (conn_local c) then (Closed, g, w)
          else if port = 443 then (case handleTLS g out c w of (v, w') \<Rightarrow> (v, g, w'))
          else if port = 80 then (case handleHTTP g out c w of (v, w') \<Rightarrow> (v, g, w'))
          else handleRaw g out ip port w)"

section \<open>Effects of the operations\<close>

text \<open>The lines \<open>logAttempt\<close> appends: one, or none without a configured, writable file.\<close>

definition log_lines :: "gateway \<Rightarrow> outside \<Rightarrow> string \<Rightarrow> string \<Rightarrow> nat \<Rightarrow> bool \<Rightarrow> attempt list" where
  "log_lines g out host proto port allowed =
     (if gw_attempts g = [] \<or> \<not> out_can_open out then []
      else [\<lparr>at_host = host, at_port = port, at_proto = proto,
             at_decision = (if allowed then ''observed'' else ''blocked''),
             at_mode = gw_mode g, at_time = out_now out\<rparr>])"

lemma logAttempt_eq:
  "logAttempt g out host proto port allowed w =
     w\<lparr>attempts_file := attempts_file w @ log_lines g out host proto port allowed\<rparr>"
  by (simp add: logAttempt_def log_lines_def Let_def)

lemma log_lines_dns [simp]:
  "log_lines (g\<lparr>gw_dns := d\<rparr>) out host proto port allowed = log_lines g out host proto port allowed"
  by (simp add: log_lines_def)

lemma first_allowed_Some: "first_allowed a ns = Some n \<Longrightarrow> n \<in> set ns \<and> Allowed a n"
  by (induction ns) (auto split: if_splits)

lemma first_allowed_None: "first_allowed a ns = None \<longleftrightarrow> (\<forall>n\<in>set ns. \<not> Allowed a n)"
  by (induction ns) auto

lemma dialed_decideNames [simp]:
  "dialed (snd (decideNames g out names fb proto port w)) = dialed w"
  by (simp add: decideNames_def logAttempt_eq Let_def split: option.split)

lemma decideNames_enforce:
  assumes "gw_mode g = ''enforce''" and "decideNames g out names fb proto port w = ((host, True), w')"
  shows "Allowed (gw_allow g) host \<and> (host = fb \<or> host \<in> set names) \<and> w' = w"
  using assms by (auto simp: decideNames_def Let_def dest: first_allowed_Some split: option.splits if_splits)

lemma decide_eq:
  "decide g out host proto port w =
     (if Allowed (gw_allow g) host then (True, w)
      else (gw_mode g = ''monitor'', logAttempt g out host proto port (gw_mode g = ''monitor'') w))"
  by (simp add: decide_def decideNames_def Let_def)

text \<open>The addresses a host name stands for: itself as a literal, or one lookup.\<close>

definition addresses_of :: "outside \<Rightarrow> string \<Rightarrow> net_ip list option" where
  "addresses_of out host =
     (case parse_ip (normalizeHost host) of
        Some ip \<Rightarrow> Some [ip] | None \<Rightarrow> out_lookup out (normalizeHost host))"

lemma dial_first_effect:
  "dial_first out port i ips w = (r, w') \<Longrightarrow>
     \<exists>n. w' = w\<lparr>dialed := dialed w @ map (\<lambda>ip. (ip, port)) (take n ips)\<rparr> \<and>
       r \<noteq> Inl NonPublic \<and> (\<forall>ip. r = Inr ip \<longrightarrow> ip \<in> set (take n ips))"
proof (induction out port i ips w arbitrary: r w' rule: dial_first.induct)
  case (1 out port i w)
  then show ?case by (intro exI [of _ 0]) auto
next
  case (2 out port i ip ips w)
  show ?case
  proof (cases "out_dial out i ip port")
    case True
    then show ?thesis using "2.prems" by (intro exI [of _ 1]) (auto simp: Let_def)
  next
    case False
    from "2.IH" [OF refl False] "2.prems" False obtain n where
      "w' = w\<lparr>dialed := (dialed w @ [(ip, port)]) @ map (\<lambda>ip. (ip, port)) (take n ips)\<rparr>"
      "r \<noteq> Inl NonPublic" "\<forall>ip. r = Inr ip \<longrightarrow> ip \<in> set (take n ips)"
      by (auto simp: Let_def)
    then show ?thesis by (intro exI [of _ "Suc n"]) auto
  qed
qed

lemma dialPinned_effect:
  assumes "dialPinned out host port req w = (r, w')"
  shows "\<exists>ds. w' = w\<lparr>dialed := dialed w @ ds\<rparr> \<and> (\<forall>ip. r = Inr ip \<longrightarrow> (ip, port) \<in> set ds) \<and>
    (\<forall>(ip, p)\<in>set ds. p = port \<and> (req \<longrightarrow> isPublicIP ip) \<and>
       (\<exists>ips. addresses_of out host = Some ips \<and> ip \<in> set ips))"
proof (cases "addresses_of out host")
  case None
  then show ?thesis
    using assms by (intro exI [of _ "[]"]) (auto simp: dialPinned_def addresses_of_def Let_def)
next
  case (Some ips)
  define vetted where "vetted = (if req then filter isPublicIP ips else ips)"
  have d: "dialPinned out host port req w =
      (if req \<and> vetted = [] then (Inl NonPublic, w) else if vetted = [] then (Inl NoAddresses, w)
       else dial_first out port 0 vetted w)"
    using Some by (simp add: dialPinned_def addresses_of_def Let_def vetted_def)
  show ?thesis
  proof (cases "vetted = []")
    case True
    then show ?thesis using assms d by (intro exI [of _ "[]"]) (auto split: if_splits)
  next
    case False
    with assms d dial_first_effect [of out port 0 vetted w r w'] obtain n where
      n: "w' = w\<lparr>dialed := dialed w @ map (\<lambda>ip. (ip, port)) (take n vetted)\<rparr>"
      "\<forall>ip. r = Inr ip \<longrightarrow> ip \<in> set (take n vetted)" by auto
    have "set (take n vetted) \<subseteq> set ips" "req \<Longrightarrow> \<forall>ip\<in>set (take n vetted). isPublicIP ip"
      by (auto simp: vetted_def dest!: in_set_takeD split: if_splits)
    then show ?thesis using n Some by (intro exI [of _ "map (\<lambda>ip. (ip, port)) (take n vetted)"]) auto
  qed
qed

text \<open>The refusal is exactly the case that no address of the name is public.\<close>

definition only_non_public :: "outside \<Rightarrow> string \<Rightarrow> bool" where
  "only_non_public out host \<longleftrightarrow>
     (case addresses_of out host of None \<Rightarrow> False | Some ips \<Rightarrow> filter isPublicIP ips = [])"

lemma dialPinned_NonPublic:
  "fst (dialPinned out host port req w) = Inl NonPublic \<longleftrightarrow> req \<and> only_non_public out host"
proof -
  have "fst (dial_first out port 0 ips w) \<noteq> Inl NonPublic" for ips
    using dial_first_effect [of out port 0 ips w] by (cases "dial_first out port 0 ips w") auto
  then show ?thesis
    by (auto simp: dialPinned_def only_non_public_def addresses_of_def Let_def split: option.splits)
qed

lemma dialPinned_NonPublic_idle:
  "only_non_public out host \<Longrightarrow> dialPinned out host port True w = (Inl NonPublic, w)"
  by (auto simp: dialPinned_def only_non_public_def addresses_of_def Let_def split: option.splits)

lemma dialUpstream_effect:
  assumes "dialUpstream g out host port proto w = (r, w')"
  shows "\<exists>ds. dialed w' = dialed w @ ds \<and> (\<forall>ip. r = Inr ip \<longrightarrow> (ip, port) \<in> set ds) \<and>
    (\<forall>(ip, p)\<in>set ds. p = port \<and> (gw_mode g = ''enforce'' \<longrightarrow> isPublicIP ip) \<and>
       (\<exists>ips. addresses_of out host = Some ips \<and> ip \<in> set ips))"
proof -
  obtain r0 w0 where d: "dialPinned out host port (gw_mode g = ''enforce'') w = (r0, w0)" by fastforce
  have "r = r0" "dialed w' = dialed w0"
    using assms d by (auto simp: dialUpstream_def logAttempt_eq split: sum.splits dial_err.splits)
  with dialPinned_effect [OF d] show ?thesis by fastforce
qed

lemma dialUpstream_enforce:
  assumes "gw_mode g = ''enforce''"
  shows "attempts_file (snd (dialUpstream g out host port proto w)) = attempts_file w @
      (if only_non_public out host then log_lines g out host proto (atoi_port port) False else [])"
    and "only_non_public out host \<Longrightarrow> dialed (snd (dialUpstream g out host port proto w)) = dialed w"
proof -
  obtain r0 w0 where d: "dialPinned out host port True w = (r0, w0)" by fastforce
  have "r0 = Inl NonPublic \<longleftrightarrow> only_non_public out host"
    using dialPinned_NonPublic [of out host port True w] d by simp
  moreover have "attempts_file w0 = attempts_file w" using dialPinned_effect [OF d] by auto
  moreover have "dialed w0 = dialed w" if "only_non_public out host"
    using dialPinned_NonPublic_idle [OF that, of port w] d by simp
  ultimately show "attempts_file (snd (dialUpstream g out host port proto w)) = attempts_file w @
      (if only_non_public out host then log_lines g out host proto (atoi_port port) False else [])"
    "only_non_public out host \<Longrightarrow> dialed (snd (dialUpstream g out host port proto w)) = dialed w"
    using assms d
    by (auto simp: dialUpstream_def logAttempt_eq split: sum.splits dial_err.splits)
qed

section \<open>Enforce mode\<close>

text \<open>A name denotes an address of a connection: it resolves to it, or (for the ports without an
  in-band name) the peer dialed the address itself and the name is its literal or one the peer
  was given for it by the DNS forwarder.\<close>

definition denotes :: "gateway \<Rightarrow> outside \<Rightarrow> conn \<Rightarrow> string \<Rightarrow> net_ip \<Rightarrow> bool" where
  "denotes g out c name ip \<longleftrightarrow>
     (\<exists>ips. addresses_of out name = Some ips \<and> ip \<in> set ips) \<or>
     ((\<exists>port. conn_dst c = Some (ip, port)) \<and>
        (name = ip_string ip \<or> name \<in> set (fst (Names (out_now out) ip (gw_dns g)))))"

definition vetted_dials :: "gateway \<Rightarrow> outside \<Rightarrow> conn \<Rightarrow> traffic \<Rightarrow> verdict \<Rightarrow> traffic \<Rightarrow> bool" where
  "vetted_dials g out c w v w' \<longleftrightarrow>
     (\<exists>ds. dialed w' = dialed w @ ds \<and>
        (\<forall>ip port replay. v = Spliced ip port replay \<longrightarrow> (ip, port) \<in> set ds) \<and>
        (\<forall>(ip, port)\<in>set ds. isPublicIP ip \<and>
           (\<exists>name. Allowed (gw_allow g) name \<and> denotes g out c name ip)))"

lemma vetted_dials_none:
  "dialed w' = dialed w \<Longrightarrow> \<forall>ip port replay. v \<noteq> Spliced ip port replay \<Longrightarrow> vetted_dials g out c w v w'"
  by (simp add: vetted_dials_def)

lemma vetted_dials_upstream:
  assumes "gw_mode g = ''enforce''" and "Allowed (gw_allow g) host"
    and "dialUpstream g out host port proto w = (r, w')"
  shows "vetted_dials g out c w (case r of Inl _ \<Rightarrow> Closed | Inr ip \<Rightarrow> Spliced ip port replay) w'"
proof -
  from dialUpstream_effect [OF assms(3)] obtain ds where ds: "dialed w' = dialed w @ ds"
    "\<forall>ip. r = Inr ip \<longrightarrow> (ip, port) \<in> set ds"
    "\<forall>(ip, p)\<in>set ds. isPublicIP ip \<and> (\<exists>ips. addresses_of out host = Some ips \<and> ip \<in> set ips)"
    using assms(1) by fastforce
  show ?thesis
    unfolding vetted_dials_def
    using ds assms(2) by (intro exI [of _ ds]) (fastforce simp: denotes_def split: sum.splits)
qed

lemma vetted_dials_TLS:
  assumes "gw_mode g = ''enforce''"
  shows "vetted_dials g out c w (fst (handleTLS g out c w)) (snd (handleTLS g out c w))"
proof (cases "readClientHelloSNI (conn_in c)")
  case (fields hello res rest)
  show ?thesis
  proof (cases "\<exists>sni. res = Ret sni \<and> sni \<noteq> [] \<and> Allowed (gw_allow g) sni")
    case True
    then obtain sni where sni: "res = Ret sni" "sni \<noteq> []" "Allowed (gw_allow g) sni" by blast
    obtain r w' where d: "dialUpstream g out sni ''443'' ''tls'' w = (r, w')" by fastforce
    have "handleTLS g out c w = ((case r of Inl _ \<Rightarrow> Closed | Inr ip \<Rightarrow> Spliced ip ''443'' hello), w')"
      using fields sni d by (simp add: handleTLS_def decide_eq split: sum.split)
    then show ?thesis using vetted_dials_upstream [OF assms sni(3) d] by simp
  next
    case False
    then show ?thesis
      using fields assms by (intro vetted_dials_none)
        (auto simp: handleTLS_def decide_eq logAttempt_eq split: outcome.splits)
  qed
qed

lemma vetted_dials_HTTP:
  assumes "gw_mode g = ''enforce''"
  shows "vetted_dials g out c w (fst (handleHTTP g out c w)) (snd (handleHTTP g out c w))"
proof (cases "\<exists>host replay. conn_http c = Some (host, replay) \<and> host \<noteq> [] \<and> Allowed (gw_allow g) host")
  case True
  then obtain host replay where h: "conn_http c = Some (host, replay)" "host \<noteq> []"
    "Allowed (gw_allow g) host" by blast
  obtain r w' where d: "dialUpstream g out host ''80'' ''http'' w = (r, w')" by fastforce
  have "handleHTTP g out c w = ((case r of Inl _ \<Rightarrow> Closed | Inr ip \<Rightarrow> Spliced ip ''80'' replay), w')"
    using h d by (simp add: handleHTTP_def decide_eq split: sum.split)
  then show ?thesis using vetted_dials_upstream [OF assms h(3) d] by simp
next
  case False
  then show ?thesis
    using assms by (intro vetted_dials_none)
      (auto simp: handleHTTP_def decide_eq logAttempt_eq split: option.splits)
qed

lemma vetted_dials_Raw:
  assumes "gw_mode g = ''enforce''" and "conn_dst c = Some (ip, port)"
  shows "vetted_dials g out c w (fst (handleRaw g out ip port w)) (snd (snd (handleRaw g out ip port w)))"
proof -
  obtain names d where n: "Names (out_now out) ip (gw_dns g) = (names, d)" by fastforce
  define g' where "g' = g\<lparr>gw_dns := d\<rparr>"
  obtain host ok w1 where dn: "decideNames g' out names (ip_string ip) ''tcp'' port w = ((host, ok), w1)"
    by (metis prod.exhaust)
  have w1: "dialed w1 = dialed w" using dialed_decideNames [of g' out names "ip_string ip" "''tcp''" port w] dn
    by simp
  show ?thesis
  proof (cases "ok \<and> isPublicIP ip")
    case True
    then have "Allowed (gw_allow g) host" "host = ip_string ip \<or> host \<in> set names"
      using decideNames_enforce [of g'] dn assms(1) by (auto simp: g'_def)
    then have "denotes g out c host ip" using n assms(2) by (simp add: denotes_def)
    then show ?thesis
      unfolding vetted_dials_def using True n dn w1 \<open>Allowed (gw_allow g) host\<close>
      by (intro exI [of _ "[(ip, itoa port)]"])
        (auto simp: handleRaw_def g'_def [symmetric] Let_def)
  next
    case False
    then show ?thesis
      using n dn w1 assms(1) by (intro vetted_dials_none)
        (auto simp: handleRaw_def Let_def logAttempt_eq g'_def split: if_splits)
  qed
qed

text \<open>C12: in enforce mode, whatever a connection sends and wherever it was going, every address
  the gateway dials for it is public and belongs to an allow-listed name: one that resolved to
  that very address in the single lookup of the connection, or the address the worker itself
  dialed under an allow-listed name. A connection that is spliced is spliced to such an address.\<close>

theorem enforce_dials_only_vetted_addresses:
  assumes "gw_mode g = ''enforce''"
  shows "vetted_dials g out c w (fst (handleAny g out c w)) (snd (snd (handleAny g out c w)))"
proof (cases "conn_dst c")
  case None
  then show ?thesis by (simp add: handleAny_def vetted_dials_none)
next
  case (Some dst)
  obtain ip port where "dst = (ip, port)" by fastforce
  with Some show ?thesis
    using vetted_dials_TLS [OF assms, of out c w] vetted_dials_HTTP [OF assms, of out c w]
      vetted_dials_Raw [OF assms, of c ip port out w]
    by (auto simp: handleAny_def vetted_dials_none split: prod.splits)
qed

text \<open>A gateway that allows \<open>a.io\<close> and the literal 1.1.1.1, and a world in which \<open>a.io\<close> has one
  internal and one public address.\<close>

definition sample_gateway :: "string \<Rightarrow> gateway" where
  "sample_gateway mode =
     \<lparr>gw_mode = mode, gw_allow = \<lparr>rules = {''a.io'', ''1.1.1.1''}\<rparr>, gw_attempts = ''/log'',
      gw_dns = newDNSCache\<rparr>"

definition sample_outside :: outside where
  "sample_outside =
     \<lparr>out_now = 0,
      out_lookup = (\<lambda>h. if h = ''a.io'' then Some [[169, 254, 169, 254], [8, 8, 8, 8]] else Some [[10, 0, 0, 1]]),
      out_dial = (\<lambda>_ _ _. True), out_can_open = True\<rparr>"

definition no_traffic :: traffic where "no_traffic = \<lparr>attempts_file = [], dialed = []\<rparr>"

lemma enforce_dials_only_vetted_addresses_witness:
  "vetted_dials (sample_gateway ''enforce'') sample_outside
     \<lparr>conn_in = [], conn_dst = Some ([1, 1, 1, 1], 5432), conn_local = [172, 20, 0, 2], conn_http = None\<rparr>
     no_traffic
     (fst (handleAny (sample_gateway ''enforce'') sample_outside
        \<lparr>conn_in = [], conn_dst = Some ([1, 1, 1, 1], 5432), conn_local = [172, 20, 0, 2],
         conn_http = None\<rparr> no_traffic))
     (snd (snd (handleAny (sample_gateway ''enforce'') sample_outside
        \<lparr>conn_in = [], conn_dst = Some ([1, 1, 1, 1], 5432), conn_local = [172, 20, 0, 2],
         conn_http = None\<rparr> no_traffic)))"
  by (rule enforce_dials_only_vetted_addresses) (simp add: sample_gateway_def)

section \<open>The attempts file\<close>

text \<open>C13: in enforce mode the attempts file is exact for a TLS connection with a server name: a
  blocked line for the name is appended when the name is not allow-listed or none of its
  addresses is public, nothing is appended otherwise, and what was blocked was never dialed.\<close>

theorem enforce_audit_is_exact:
  assumes "gw_mode g = ''enforce''"
    and "readClientHelloSNI (conn_in c) = (hello, Ret sni, rest)" and "sni \<noteq> []"
  shows "attempts_file (snd (handleTLS g out c w)) = attempts_file w @
      (if Allowed (gw_allow g) sni \<and> \<not> only_non_public out sni then []
       else log_lines g out sni ''tls'' 443 False) \<and>
    (Allowed (gw_allow g) sni \<and> \<not> only_non_public out sni \<or>
     dialed (snd (handleTLS g out c w)) = dialed w \<and> fst (handleTLS g out c w) = Closed)"
proof (cases "Allowed (gw_allow g) sni")
  case False
  then show ?thesis using assms by (simp add: handleTLS_def decide_eq logAttempt_eq)
next
  case True
  obtain r w' where d: "dialUpstream g out sni ''443'' ''tls'' w = (r, w')" by fastforce
  have "handleTLS g out c w = (case r of Inl _ \<Rightarrow> Closed | Inr ip \<Rightarrow> Spliced ip ''443'' hello, w')"
    using assms(2,3) True d by (simp add: handleTLS_def decide_eq split: sum.split)
  moreover have "\<exists>e. r = Inl e" if "only_non_public out sni"
    using dialPinned_NonPublic_idle [OF that, of "''443''" w] d assms(1)
    by (auto simp: dialUpstream_def)
  moreover have "atoi_port ''443'' = 443" by (simp add: atoi_port_def)
  ultimately show ?thesis
    using True dialUpstream_enforce [OF assms(1), of out sni "''443''" "''tls''" w] d by auto
qed

lemma enforce_audit_is_exact_witness:
  "attempts_file (snd (handleTLS (sample_gateway ''enforce'') sample_outside
     \<lparr>conn_in = enc_record sample_hello, conn_dst = None, conn_local = [], conn_http = None\<rparr>
     no_traffic)) = []"
proof -
  have "readClientHelloSNI (enc_record sample_hello) = (enc_record sample_hello, Ret ''a.io'', [])"
    using read_sample_hello [of "[]"] by simp
  then show ?thesis
    using enforce_audit_is_exact [of "sample_gateway ''enforce''"
      "\<lparr>conn_in = enc_record sample_hello, conn_dst = None, conn_local = [], conn_http = None\<rparr>"
      "enc_record sample_hello" "''a.io''" "[]" sample_outside no_traffic]
    by (simp add: sample_gateway_def no_traffic_def Allowed_iff only_non_public_def addresses_of_def
        sample_outside_def normalizeHost_def to_lower_def lower_char_def trim_space_def trim_right_def
        is_space_def trim_suffix_def suffix_to_prefix parse_ip_def digit_val_def isPublicIP_v4
        refused_blocks_def in_block_def v4_num_def quad_def rule_matches_def)
qed

section \<open>Monitor mode\<close>

lemma decideNames_monitor:
  "gw_mode g = ''monitor'' \<Longrightarrow> snd (fst (decideNames g out names fb proto port w))"
  by (simp add: decideNames_def Let_def split: option.split)

lemma dialPinned_dialed:
  "dialed w1 = dialed w2 \<Longrightarrow>
     fst (dialPinned out host port req w1) = fst (dialPinned out host port req w2) \<and>
     dialed (snd (dialPinned out host port req w1)) = dialed (snd (dialPinned out host port req w2))"
proof -
  have "dialed w1 = dialed w2 \<Longrightarrow>
     fst (dial_first out port i ips w1) = fst (dial_first out port i ips w2) \<and>
     dialed (snd (dial_first out port i ips w1)) = dialed (snd (dial_first out port i ips w2))" for i ips
    by (induction ips arbitrary: i w1 w2) (simp_all add: Let_def)
  then show "dialed w1 = dialed w2 \<Longrightarrow> ?thesis"
    by (simp add: dialPinned_def Let_def split: option.split)
qed

lemma dialUpstream_monitor:
  "gw_mode g = ''monitor'' \<Longrightarrow> dialUpstream g out host port proto w = dialPinned out host port False w"
  using dialPinned_NonPublic [of out host port False w]
  by (auto simp: dialUpstream_def split: prod.splits sum.splits dial_err.splits)

text \<open>What an observer of the network sees of a handled connection.\<close>

definition network_view :: "verdict \<times> traffic \<Rightarrow> verdict \<times> (net_ip \<times> string) list" where
  "network_view r = (fst r, dialed (snd r))"

text \<open>In monitor mode a connection to a name is a pinned dial of it, whatever the allow-list.\<close>

definition pinned_view ::
    "outside \<Rightarrow> string \<Rightarrow> string \<Rightarrow> bytes \<Rightarrow> traffic \<Rightarrow> verdict \<times> (net_ip \<times> string) list" where
  "pinned_view out host port replay w =
     (case dialPinned out host port False w of
        (Inl _, w') \<Rightarrow> (Closed, dialed w')
      | (Inr ip, w') \<Rightarrow> (Spliced ip port replay, dialed w'))"

lemma pinned_view_cong: "dialed w1 = dialed w2 \<Longrightarrow> pinned_view out host port x w1 = pinned_view out host port x w2"
  using dialPinned_dialed [of w1 w2 out host port False]
  by (auto simp: pinned_view_def split: prod.splits sum.splits)

lemma named_view_monitor:
  assumes "gw_mode g = ''monitor''"
  shows "network_view
     (case decide g out host proto n w of (ok, w1) \<Rightarrow>
        if \<not> ok then (Closed, w1)
        else case dialUpstream g out host port proto w1 of
            (Inl _, w2) \<Rightarrow> (Closed, w2)
          | (Inr ip, w2) \<Rightarrow> (Spliced ip port replay, w2)) = pinned_view out host port replay w"
proof -
  have "\<exists>w1. decide g out host proto n w = (True, w1) \<and> dialed w1 = dialed w"
    using assms by (simp add: decide_eq logAttempt_eq)
  then obtain w1 where w1: "decide g out host proto n w = (True, w1)" "dialed w1 = dialed w" by blast
  have "network_view (case dialPinned out host port False w1 of
            (Inl _, w2) \<Rightarrow> (Closed, w2)
          | (Inr ip, w2) \<Rightarrow> (Spliced ip port replay, w2)) = pinned_view out host port replay w1"
    by (simp add: network_view_def pinned_view_def split: prod.splits sum.splits)
  then show ?thesis
    using pinned_view_cong [OF w1(2), of out host port replay] w1(1)
    by (simp add: dialUpstream_monitor assms)
qed

lemma handleTLS_monitor:
  assumes "gw_mode g = ''monitor''"
  shows "network_view (handleTLS g out c w) =
     (case readClientHelloSNI (conn_in c) of
        (hello, Ret sni, rest) \<Rightarrow>
          if sni = [] then (Closed, dialed w) else pinned_view out sni ''443'' hello w
      | (hello, Err _, rest) \<Rightarrow> (Closed, dialed w)
      | (hello, Panic, rest) \<Rightarrow> (Crashed, dialed w))"
  using named_view_monitor [OF assms]
  by (simp add: handleTLS_def logAttempt_eq network_view_def split: prod.split outcome.split)

lemma handleHTTP_monitor:
  assumes "gw_mode g = ''monitor''"
  shows "network_view (handleHTTP g out c w) =
     (case conn_http c of
        None \<Rightarrow> (Closed, dialed w)
      | Some (host, replay) \<Rightarrow>
          if host = [] then (Closed, dialed w) else pinned_view out host ''80'' replay w)"
  using named_view_monitor [OF assms]
  by (simp add: handleHTTP_def logAttempt_eq network_view_def split: option.split)

lemma handleRaw_monitor:
  assumes "gw_mode g = ''monitor''"
  shows "fst (handleRaw g out ip port w) =
      (if out_dial out 0 ip (itoa port) then Spliced ip (itoa port) [] else Closed) \<and>
    dialed (snd (snd (handleRaw g out ip port w))) = dialed w @ [(ip, itoa port)]"
proof -
  obtain names d where n: "Names (out_now out) ip (gw_dns g) = (names, d)" by fastforce
  obtain host ok w1 where dn: "decideNames (g\<lparr>gw_dns := d\<rparr>) out names (ip_string ip) ''tcp'' port w
      = ((host, ok), w1)" by (metis prod.exhaust)
  have "ok" using decideNames_monitor [of "g\<lparr>gw_dns := d\<rparr>" out names "ip_string ip" "''tcp''" port w]
      assms dn by simp
  moreover have "dialed w1 = dialed w"
    using dialed_decideNames [of "g\<lparr>gw_dns := d\<rparr>" out names "ip_string ip" "''tcp''" port w] dn by simp
  ultimately show ?thesis using n dn assms by (simp add: handleRaw_def Let_def)
qed

lemma handleAny_monitor:
  assumes "gw_mode g = ''monitor''" and "gw_mode h = ''monitor''"
  shows "(fst (handleAny g out c w), dialed (snd (snd (handleAny g out c w)))) =
    (fst (handleAny h out c w), dialed (snd (snd (handleAny h out c w))))"
proof (cases "conn_dst c")
  case None
  then show ?thesis by (simp add: handleAny_def)
next
  case (Some dst)
  obtain ip port where dst: "dst = (ip, port)" by fastforce
  have tls: "network_view (handleTLS g out c w) = network_view (handleTLS h out c w)"
    by (simp only: handleTLS_monitor [OF assms(1)] handleTLS_monitor [OF assms(2)])
  have http: "network_view (handleHTTP g out c w) = network_view (handleHTTP h out c w)"
    by (simp only: handleHTTP_monitor [OF assms(1)] handleHTTP_monitor [OF assms(2)])
  show ?thesis
    using tls http handleRaw_monitor [OF assms(1), of out ip port w]
      handleRaw_monitor [OF assms(2), of out ip port w]
    by (auto simp: handleAny_def Some dst network_view_def split: prod.splits)
qed

text \<open>Monitor mode never filters by name: the outcome of a connection and every address
  dialed for it are the same whatever the allow-list is.\<close>

theorem monitor_ignores_allow_list:
  assumes "gw_mode g = ''monitor''"
  shows "fst (handleAny (g\<lparr>gw_allow := a\<rparr>) out c w) = fst (handleAny g out c w) \<and>
    dialed (snd (snd (handleAny (g\<lparr>gw_allow := a\<rparr>) out c w))) = dialed (snd (snd (handleAny g out c w)))"
  using handleAny_monitor [OF assms, of "g\<lparr>gw_allow := a\<rparr>" out c w] assms by simp

lemma monitor_ignores_allow_list_witness:
  "fst (handleAny ((sample_gateway ''monitor'')\<lparr>gw_allow := \<lparr>rules = {}\<rparr>\<rparr>) sample_outside
     \<lparr>conn_in = [], conn_dst = Some ([1, 1, 1, 1], 80), conn_local = [], conn_http = Some (''evil.com'', [1])\<rparr>
     no_traffic) =
   fst (handleAny (sample_gateway ''monitor'') sample_outside
     \<lparr>conn_in = [], conn_dst = Some ([1, 1, 1, 1], 80), conn_local = [], conn_http = Some (''evil.com'', [1])\<rparr>
     no_traffic)"
  using monitor_ignores_allow_list [of "sample_gateway ''monitor''" "\<lparr>rules = {}\<rparr>"]
  by (simp add: sample_gateway_def)

text \<open>The exception: a TLS connection whose server name cannot be read is closed in every mode, so
  monitor mode does not let everything through.\<close>

lemma tls_without_server_name_is_refused:
  "readClientHelloSNI (conn_in c) = (hello, Err e, rest) \<Longrightarrow>
     handleTLS g out c w =
       (Closed, w\<lparr>attempts_file := attempts_file w @ log_lines g out ''(no-sni)'' ''tls'' 443 False\<rparr>)"
  by (simp add: handleTLS_def logAttempt_eq)

text \<open>No handler panics, in either mode.\<close>

lemma handleAny_not_Crashed: "fst (handleAny g out c w) \<noteq> Crashed"
proof -
  have "fst (handleTLS g out c w) \<noteq> Crashed"
    using readClientHelloSNI_not_Panic [of "conn_in c"]
    by (auto simp: handleTLS_def split: prod.splits outcome.splits sum.splits)
  moreover have "fst (handleHTTP g out c w) \<noteq> Crashed"
    by (auto simp: handleHTTP_def split: prod.splits option.splits sum.splits)
  moreover have "fst (handleRaw g out ip port w) \<noteq> Crashed" for ip port
    by (simp add: handleRaw_def Let_def split: prod.split)
  ultimately show ?thesis
    by (auto simp: handleAny_def split: prod.splits option.splits)
qed

end
