(* ===== verification/Relay_Sni.thy ===== *)
theory Relay_Sni
  imports Egress_Sni
begin

text \<open>
  The relay's ClientHello reader (\<open>internal/relay/sni.go\<close>): peeking one record out of a bounded
  buffer, and the index-based walk to the host name. Its agreement with the gateway's reader
  (theory \<open>Egress_Sni\<close>) is the last section.
\<close>

section \<open>The code\<close>

datatype relay_sni_err =
    PeekShort | PeekBufferFull             \<comment> \<open>\<open>bufio.Reader.Peek\<close>\<close>
  | ErrNotClientHello | FirstRecordNotHandshake | HandshakeNotClientHello
  | MalformedSni | SniNoHostName | NoSni

text \<open>\<open>br.Peek(n)\<close> on a reader with a buffer of \<open>cap\<close> bytes whose connection delivers \<open>inp\<close>.\<close>

definition peek :: "nat \<Rightarrow> nat \<Rightarrow> bytes \<Rightarrow> (relay_sni_err, bytes) outcome" where
  "peek cap n inp =
     (if cap < n then Err PeekBufferFull
      else if length inp < n then Err PeekShort else Ret (take n inp))"

definition peekClientHello :: "nat \<Rightarrow> bytes \<Rightarrow> (relay_sni_err, bytes) outcome" where
  "peekClientHello cap inp =
     obind (peek cap 5 inp) (\<lambda>hdr.
     obind (go_index hdr 0) (\<lambda>h0.
     oensure (\<not> h0 \<noteq> 0x16) FirstRecordNotHandshake
      (obind (go_slice 3 5 hdr) (\<lambda>l.
       obind (uint16_of l) (\<lambda>recLen.
       peek cap (5 + unat recLen) inp)))))"

function sni_list_loop :: "bytes \<Rightarrow> (relay_sni_err, string) outcome" where
  "sni_list_loop list =
     (if 3 \<le> length list then
        obind (go_index list 0) (\<lambda>nameType.
        obind (go_slice 1 3 list) (\<lambda>l.
        obind (uint16_of l) (\<lambda>nl.
        let nameLen = unat nl in
        if length list < 3 + nameLen then Err SniNoHostName \<comment> \<open>break\<close>
        else if nameType = 0
        then obind (go_slice 3 (3 + nameLen) list) (\<lambda>name. Ret (string_of_bytes name))
        else obind (go_slice (3 + nameLen) (length list) list) sni_list_loop)))
      else Err SniNoHostName)"
  by pat_completeness auto
termination
  by (relation "measure length") (auto simp: go_slice_eq_Ret)

declare sni_list_loop.simps [simp del]

function relay_ext_loop :: "bytes \<Rightarrow> (relay_sni_err, string) outcome" where
  "relay_ext_loop ext =
     (if 4 \<le> length ext then
        obind (go_slice 0 2 ext) (\<lambda>t.
        obind (uint16_of t) (\<lambda>etype.
        obind (go_slice 2 4 ext) (\<lambda>l.
        obind (uint16_of l) (\<lambda>el.
        let elen = unat el in
        if length ext < 4 + elen then Err NoSni \<comment> \<open>break\<close>
        else obind (go_slice 4 (4 + elen) ext) (\<lambda>edata.
             if etype = 0 then
               oensure (\<not> length edata < 2) MalformedSni
                (obind (go_slice 2 (length edata) edata) sni_list_loop)
             else obind (go_slice (4 + elen) (length ext) ext) relay_ext_loop)))))
      else Err NoSni)"
  by pat_completeness auto
termination
  by (relation "measure length") (auto simp: go_slice_eq_Ret)

declare relay_ext_loop.simps [simp del]

text \<open>The handshake length, three big-endian bytes: \<open>int(hs[1])<<16 | int(hs[2])<<8 | int(hs[3])\<close>.\<close>

definition handshake_len :: "u8 \<Rightarrow> u8 \<Rightarrow> u8 \<Rightarrow> nat" where
  "handshake_len a b c = unat (be32 0 a b c)"

text \<open>From the start of the ClientHello body, with the running offset \<open>p\<close> of the code.\<close>

definition relay_body :: "bytes \<Rightarrow> (relay_sni_err, string) outcome" where
  "relay_body body =
     (let p = 0 in
      oensure (\<not> length body < p + 34) ErrNotClientHello
      (let p = p + 34 in
       oensure (\<not> length body < p + 1) ErrNotClientHello
        (obind (go_index body p) (\<lambda>sidLen.
         let p = p + (1 + unat sidLen) in
         oensure (\<not> length body < p + 2) ErrNotClientHello
          (obind (go_slice p (p + 2) body) (\<lambda>cs.
           obind (uint16_of cs) (\<lambda>csLen.
           let p = p + (2 + unat csLen) in
           oensure (\<not> length body < p + 1) ErrNotClientHello
            (obind (go_index body p) (\<lambda>cmLen.
             let p = p + (1 + unat cmLen) in
             oensure (\<not> length body < p + 2) ErrNotClientHello
              (obind (go_slice p (p + 2) body) (\<lambda>et.
               obind (uint16_of et) (\<lambda>extTotal.
               let p = p + 2 in
               oensure (\<not> length body < p + unat extTotal) ErrNotClientHello
                (obind (go_slice p (p + unat extTotal) body) relay_ext_loop)))))))))))))"

definition parseSNI :: "bytes \<Rightarrow> (relay_sni_err, string) outcome" where
  "parseSNI buf =
     oensure (\<not> length buf < 5) ErrNotClientHello
      (obind (go_index buf 0) (\<lambda>b0.
       oensure (\<not> b0 \<noteq> 0x16) FirstRecordNotHandshake
        (obind (go_slice 3 5 buf) (\<lambda>l.
         obind (uint16_of l) (\<lambda>rl.
         let recLen = unat rl in
         oensure (\<not> length buf < 5 + recLen) ErrNotClientHello
          (obind (go_slice 5 (5 + recLen) buf) (\<lambda>hs.
           oensure (\<not> length hs < 4) ErrNotClientHello
            (obind (go_index hs 0) (\<lambda>h0.
             oensure (\<not> h0 \<noteq> 1) HandshakeNotClientHello
              (obind (go_index hs 1) (\<lambda>h1.
               obind (go_index hs 2) (\<lambda>h2.
               obind (go_index hs 3) (\<lambda>h3.
               let hsLen = handshake_len h1 h2 h3 in
               obind (go_slice 4 (length hs) hs) (\<lambda>body.
               oensure (\<not> length body < hsLen) ErrNotClientHello
                (obind (go_slice 0 hsLen body) relay_body)))))))))))))))"

section \<open>No panic\<close>

lemma peek_no_panic [no_panic]: "peek cap n inp \<noteq> Panic"
  by (simp add: peek_def)

lemma sni_list_loop_not_Panic: "sni_list_loop list \<noteq> Panic"
proof (induction list rule: length_induct)
  case (1 list)
  show ?case
    by (subst sni_list_loop.simps, intro no_panic)
       (auto simp: go_slice_eq_Ret intro!: "1"[rule_format])
qed

lemma relay_ext_loop_not_Panic: "relay_ext_loop ext \<noteq> Panic"
proof (induction ext rule: length_induct)
  case (1 ext)
  show ?case
    by (subst relay_ext_loop.simps, intro no_panic)
       (auto simp: go_slice_eq_Ret sni_list_loop_not_Panic intro!: "1"[rule_format])
qed

lemma relay_body_not_Panic: "relay_body body \<noteq> Panic"
  unfolding relay_body_def
  by (intro no_panic) (auto simp: go_slice_eq_Ret go_index_eq_Ret relay_ext_loop_not_Panic)

text \<open>No buffer makes the relay's parser, or its peek, index or slice out of range.\<close>

theorem relay_parsers_never_panic: "parseSNI buf \<noteq> Panic \<and> peekClientHello cap inp \<noteq> Panic"
  unfolding parseSNI_def peekClientHello_def
  by (intro conjI no_panic) (auto simp: go_slice_eq_Ret go_index_eq_Ret relay_body_not_Panic peek_def split: if_splits)


section \<open>Agreement with the gateway's reader\<close>

lemma drop_add_Cons3: "drop (3 + k) (a # b # c # r) = drop k r"
  and drop_add_Cons4: "drop (4 + k) (a # b # c # d # r) = drop k r"
  by (simp_all add: numeral_eq_Suc)

lemma relay_ext_loop_Cons4:
  "relay_ext_loop (a # b # c # d # rest) =
     (let elen = unat (be16 c d) in
      if length rest < elen then Err NoSni
      else if be16 a b = 0
      then oensure (2 \<le> elen) MalformedSni (sni_list_loop (drop 2 (take elen rest)))
      else relay_ext_loop (drop elen rest))"
  by (subst relay_ext_loop.simps) (simp add: Let_def go_slice_def oensure_def not_less drop_add_Cons4)

lemma sni_list_loop_Cons3:
  "sni_list_loop (t # a # b # rest) =
     (let n = unat (be16 a b) in
      if length rest < n then Err SniNoHostName
      else if t = 0 then Ret (string_of_bytes (take n rest))
      else sni_list_loop (drop n rest))"
  by (subst sni_list_loop.simps) (simp add: Let_def go_slice_def drop_add_Cons3)

lemma sni_list_loop_short: "length list < 3 \<Longrightarrow> sni_list_loop list = Err SniNoHostName"
  by (subst sni_list_loop.simps) simp

lemma relay_ext_loop_short: "length ext < 4 \<Longrightarrow> relay_ext_loop ext = Err NoSni"
  by (subst relay_ext_loop.simps) simp

text \<open>The two readers on the data of one server_name extension: the gateway looks at the first
  entry only, the relay at the first host_name entry.\<close>

lemma sni_entry_agree:
  assumes "sni_list_loop (drop 2 data) = Ret n"
  shows "sni_of_ext data = Ret n \<or> sni_of_ext data = Err BadSniExt"
proof -
  have "3 \<le> length (drop 2 data)"
    using assms sni_list_loop_short [of "drop 2 data"] by (cases "length (drop 2 data) < 3") auto
  then obtain l0 l1 t a b rest where d: "data = l0 # l1 # t # a # b # rest"
    by (cases data rule: list4_cases; cases "drop 4 data") auto
  show ?thesis
    using assms
    by (auto simp: d sni_list_loop_Cons3 sni_of_ext_def Let_def go_slice_def go_index_def
        oensure_def split: if_splits)
qed

lemma ext_loops_agree:
  assumes "relay_ext_loop ext = Ret n"
  shows "ext_loop ext = Ret n \<or> ext_loop ext = Err BadSniExt"
  using assms
proof (induction ext rule: length_induct)
  case (1 ext)
  show ?case
  proof (cases ext rule: list4_cases)
    case 1
    then show ?thesis using "1.prems" by (simp add: relay_ext_loop_short)
  next
    case (2 a b c d ys)
    show ?thesis
      using "1.prems" "1.IH"
      by (auto simp: 2 relay_ext_loop_Cons4 ext_loop_Cons4 Let_def sni_entry_agree split: if_splits)
  qed
qed

lemma read_or_drop_append:
  "p + k \<le> length body \<Longrightarrow>
     read_or e k (drop p (body @ extra)) = Ret (take k (drop p body), drop (p + k) (body @ extra))"
  by (simp add: read_or_def add.commute)

lemma relay_body_gateway:
  assumes "relay_body body = Ret n"
  shows "\<exists>ext. relay_ext_loop ext = Ret n \<and>
    parseClientHelloSNI (1 # x # y # z # body @ extra) = ext_loop ext"
proof -
  from assms obtain p1 cl p2 p3 el where
    p1: "34 < length body" "p1 = 35 + unat (body ! 34)" "p1 + 2 \<le> length body"
      "uint16_of (take 2 (drop p1 body)) = (Ret cl :: (relay_sni_err, u16) outcome)" and
    p2: "p2 = p1 + 2 + unat cl" "p2 < length body" and
    p3: "p3 = p2 + 1 + unat (body ! p2)" "p3 + 2 \<le> length body"
      "uint16_of (take 2 (drop p3 body)) = (Ret el :: (relay_sni_err, u16) outcome)"
      "p3 + 2 + unat el \<le> length body" and
    ext: "relay_ext_loop (take (unat el) (drop (p3 + 2) body)) = Ret n"
    by (fastforce simp: relay_body_def Let_def go_index_eq_Ret go_slice_eq_Ret not_less)
  have u: "uint16_of (take 2 (drop p1 body)) = (Ret cl :: (sni_err, u16) outcome)"
    "uint16_of (take 2 (drop p3 body)) = (Ret el :: (sni_err, u16) outcome)"
    using p1(4) p3(3) by (auto simp: uint16_of_def go_index_eq_Ret)
  define B where "B = body @ extra"
  note rd = read_or_drop_append [of _ _ body _ extra, folded B_def]
  have r1: "read_or Truncated 34 B = Ret (take 34 body, drop 34 B)"
    using rd [of 0 34 Truncated] p1(1) by simp
  have r2: "read_or Truncated (Suc 0) (drop 34 B) = Ret ([body ! 34], drop 35 B)"
    using rd [of 34 1 Truncated] p1(1) by (simp add: take_Suc_conv_app_nth)
  have r3: "read_or Truncated (unat (body ! 34)) (drop 35 B) =
      Ret (take (unat (body ! 34)) (drop 35 body), drop p1 B)"
    using rd [of 35 _ Truncated] p1 by simp
  have r4: "read_or Truncated 2 (drop p1 B) = Ret (take 2 (drop p1 body), drop (p1 + 2) B)"
    using rd [of p1 2] p1(3) by simp
  have r5: "read_or Truncated (unat cl) (drop (p1 + 2) B) =
      Ret (take (unat cl) (drop (p1 + 2) body), drop p2 B)"
    using rd [of "p1 + 2" "unat cl"] p2 by simp
  have r6: "read_or Truncated (Suc 0) (drop p2 B) = Ret ([body ! p2], drop (Suc p2) B)"
    using rd [of p2 1 Truncated] p2(2) by (simp add: take_Suc_conv_app_nth)
  have r7: "read_or Truncated (unat (body ! p2)) (drop (Suc p2) B) =
      Ret (take (unat (body ! p2)) (drop (p2 + 1) body), drop p3 B)"
    using rd [of "p2 + 1" "unat (body ! p2)"] p3 by simp
  have r8: "read_or NoExtensions 2 (drop p3 B) = Ret (take 2 (drop p3 body), drop (p3 + 2) B)"
    using rd [of p3 2] p3(2) by simp
  have "take (unat el) (drop (p3 + 2) body) = take (unat el) (drop (p3 + 2) B)"
    using p3(4) by (simp add: B_def)
  then have e: "take (unat el) (drop (p3 + 2) B) = take (unat el) (drop (p3 + 2) body)" by simp
  have e2: "drop (p3 + 2) B = take (unat el) (drop (p3 + 2) body)"
    if "\<not> unat el < length B - (p3 + 2)"
    using e that by simp
  have "parseClientHelloSNI (1 # x # y # z # B) = ext_loop (take (unat el) (drop (p3 + 2) body))"
    unfolding parseClientHelloSNI_def
    by (simp add: e e2 go_slice_def r1 r2 r3 r4 r5 r6 r7 r8 u del: add_2_eq_Suc')
  with ext show ?thesis unfolding B_def by blast
qed

text \<open>C32: whenever the relay routes a record by a name, the gateway's reader of the same stream
  reads that name, or refuses the record because its first server_name entry is not a host name;
  it never reads another name, and it neither loses nor invents a byte.\<close>

theorem sni_readers_agree:
  assumes "parseSNI buf = Ret n"
  shows "case readClientHelloSNI buf of (raw, res, rest) \<Rightarrow>
    raw @ rest = buf \<and> (res = Ret n \<or> res = Err BadSniExt)"
proof -
  define k where "k = unat (be16 (buf ! 3) (buf ! 4))"
  define hs where "hs = take k (drop 5 buf)"
  have u: "uint16_of (take 2 (drop 3 buf)) = (Ret (be16 (buf ! 3) (buf ! 4)) :: (relay_sni_err, u16) outcome)"
    if "5 \<le> length buf"
    using that by (simp add: uint16_of_def go_index_def)
  from assms have five: "5 \<le> length buf"
    by (simp add: parseSNI_def not_less)
  from assms five have len: "5 + k \<le> length buf" and h16: "buf ! 0 = 0x16"
    and hs0: "4 \<le> length hs" "hs ! 0 = 1"
    and body: "handshake_len (hs ! 1) (hs ! 2) (hs ! 3) \<le> length (drop 4 hs)"
      "relay_body (take (handshake_len (hs ! 1) (hs ! 2) (hs ! 3)) (drop 4 hs)) = Ret n"
    by (auto simp: parseSNI_def Let_def go_slice_eq_Ret go_index_eq_Ret u hs_def k_def not_less)
  obtain a x y z rest where hs: "hs = a # x # y # z # rest"
    using hs0(1) by (cases hs rule: list4_cases) auto
  define m where "m = handshake_len (hs ! 1) (hs ! 2) (hs ! 3)"
  have "\<exists>ext. relay_ext_loop ext = Ret n \<and>
      parseClientHelloSNI (1 # x # y # z # take m rest @ drop m rest) = ext_loop ext"
    by (rule relay_body_gateway) (use body hs m_def in simp)
  then have res: "parseClientHelloSNI hs = Ret n \<or> parseClientHelloSNI hs = Err BadSniExt"
    using hs hs0(2) by (auto dest: ext_loops_agree)
  have k: "0 < k" "k \<le> 65536"
    using hs0(1) unsigned_less [where 'a = nat, of "be16 (buf ! 3) (buf ! 4)"] by (auto simp: hs_def k_def)
  have rd: "readClientHelloSNI buf = (take 5 buf @ hs, parseClientHelloSNI hs, drop k (drop 5 buf))"
    using five len h16 k
    by (simp add: readClientHelloSNI_def read_full_def Let_def hs_def flip: k_def)
  have "(take 5 buf @ hs) @ drop k (drop 5 buf) = buf"
    by (simp add: hs_def del: drop_drop)
  with res show ?thesis by (simp add: rd)
qed

section \<open>Reading back an encoded ClientHello\<close>

lemma relay_ext_loop_enc_ext:
  assumes "length d < 65536"
  shows "relay_ext_loop (enc_ext (t, d) @ rest) =
    (if t = 0 then oensure (2 \<le> length d) MalformedSni (sni_list_loop (drop 2 d)) else relay_ext_loop rest)"
proof -
  obtain a b where ab: "put16 t = [a, b]" "be16 a b = t" by (rule put16_cases)
  obtain e f where ef: "put16 (of_nat (length d) :: u16) = [e, f]" "be16 e f = of_nat (length d)"
    by (rule put16_cases)
  show ?thesis
    using assms by (simp add: enc_ext_def ab ef relay_ext_loop_Cons4)
qed

lemma relay_ext_loop_skip:
  assumes "\<forall>x\<in>set pre. fst x \<noteq> 0" and "wf_exts pre"
  shows "relay_ext_loop (enc_exts pre @ rest) = relay_ext_loop rest"
  using assms
proof (induction pre)
  case (Cons x pre)
  then have "relay_ext_loop (enc_ext (fst x, snd x) @ (enc_exts pre @ rest)) =
      relay_ext_loop (enc_exts pre @ rest)"
    by (subst relay_ext_loop_enc_ext) (auto simp: wf_exts_def)
  with Cons show ?case by (simp add: enc_exts_def wf_exts_def)
qed (simp add: enc_exts_def)

lemma sni_list_loop_entry:
  assumes "length name < 65536"
  shows "sni_list_loop (drop 2 (sni_data name)) = Ret (string_of_bytes name)"
proof -
  obtain c d where "put16 (of_nat (length name) :: u16) = [c, d]" "be16 c d = of_nat (length name)"
    by (rule put16_cases)
  then show ?thesis using assms by (simp add: sni_data_def sni_list_loop_Cons3)
qed

lemma relay_ext_loop_exts_with_sni:
  assumes "\<forall>x\<in>set pre. fst x \<noteq> 0" and "wf_exts pre" and "length name + 5 < 65536"
  shows "relay_ext_loop (enc_exts (exts_with_sni pre name post)) = Ret (string_of_bytes name)"
proof -
  have d: "length (sni_data name) < 65536" "2 \<le> length (sni_data name)"
    using assms(3) by (simp_all add: sni_data_def)
  have "relay_ext_loop (enc_exts (exts_with_sni pre name post)) =
      relay_ext_loop (enc_ext (0, sni_data name) @ enc_exts post)"
    using relay_ext_loop_skip [OF assms(1,2)] by (simp add: enc_exts_def exts_with_sni_def)
  also have "\<dots> = Ret (string_of_bytes name)"
    using d assms(3) by (simp add: relay_ext_loop_enc_ext sni_list_loop_entry)
  finally show ?thesis .
qed

lemma relay_body_enc:
  assumes "wf_hello h"
  shows "relay_body (enc_body h) = relay_ext_loop (ch_extensions h)"
proof -
  note len = wf_hello_lengths [OF assms]
  obtain x y where xy: "put16 (of_nat (length (ch_ciphers h)) :: u16) = [x, y]"
    "be16 x y = of_nat (length (ch_ciphers h))" by (rule put16_cases)
  obtain u v where uv: "put16 (of_nat (length (ch_extensions h)) :: u16) = [u, v]"
    "be16 u v = of_nat (length (ch_extensions h))" by (rule put16_cases)
  have hd: "length (ch_head h) = 34" and s: "length (ch_session h) < 256"
    and c: "length (ch_compression h) < 256"
    using assms by (auto simp: wf_hello_def)
  show ?thesis
    using hd s c len
    by (simp add: relay_body_def enc_body_def xy uv Let_def nth_append go_slice_def go_index_def drop_Cons')
qed

lemma handshake_len_put32:
  assumes "n < 2 ^ 24" and "put32 (of_nat n) = [w, a, b, c]"
  shows "handshake_len a b c = n"
proof -
  define v :: u32 where "v = of_nat n"
  have v: "unat v = n" using assms(1) by (simp add: v_def unat_of_nat)
  have "unat (drop_bit 24 v) = 0"
    using assms(1) by (simp add: drop_bit_eq_div unat_div v)
  then have "drop_bit 24 v = 0" by (simp add: unat_eq_zero)
  then have "be32 0 a b c = v"
    using be32_put32 [of v] assms(2) by (simp add: put32_def flip: v_def)
  then show ?thesis by (simp add: handshake_len_def v)
qed

lemma take_add_Cons5: "take (5 + k) (a # b # c # d # e # r) = a # b # c # d # e # take k r"
  by (simp add: numeral_eq_Suc)

lemma parseSNI_record:
  assumes "length H < 65536" and "be16 a b = of_nat (length H)"
    and "length H = 4 + length body" and "H ! 0 = 1" and "drop 4 H = body"
    and "handshake_len (H ! 1) (H ! 2) (H ! 3) = length body"
  shows "parseSNI (0x16 # 3 # 1 # a # b # H @ rest) = relay_body body"
proof -
  have "unat (be16 a b) = length H" using assms(1,2) by simp
  moreover have "take (length H) (drop 5 (0x16 # 3 # 1 # a # b # H @ rest)) = H" by simp
  ultimately show ?thesis
    using assms(3-6) by (cases "H = []") (simp_all add: parseSNI_def Let_def go_slice_def go_index_def)
qed

lemma parseSNI_enc_record:
  assumes "wf_hello h"
  shows "parseSNI (enc_record h @ rest) = relay_ext_loop (ch_extensions h)"
proof -
  obtain a b where ab: "put16 (of_nat (length (enc_handshake h)) :: u16) = [a, b]"
    "be16 a b = of_nat (length (enc_handshake h))" by (rule put16_cases)
  obtain w x y z where wxyz: "put32 (of_nat (length (enc_body h)) :: u32) = [w, x, y, z]"
    by (simp add: put32_def)
  have n: "length (enc_handshake h) < 65536" "length (enc_body h) < 2 ^ 24"
    using assms by (auto simp: wf_hello_def length_enc_handshake)
  have hl: "handshake_len x y z = length (enc_body h)"
    by (rule handshake_len_put32 [OF n(2) wxyz])
  have hs: "enc_handshake h = 1 # x # y # z # enc_body h"
    by (simp add: enc_handshake_def wxyz)
  have "parseSNI (0x16 # 3 # 1 # a # b # enc_handshake h @ rest) = relay_body (enc_body h)"
    by (rule parseSNI_record [OF n(1) ab(2) length_enc_handshake]) (simp_all add: hs hl)
  then show ?thesis using relay_body_enc [OF assms] by (simp add: enc_record_def ab)
qed

text \<open>C33: the relay, peeking a well-formed record that fits its buffer, routes by exactly the host
  name of the record's server_name extension, whatever follows the record.\<close>

theorem relay_reads_back_sni:
  assumes "wf_hello h" and "ch_extensions h = enc_exts (exts_with_sni pre (bytes_of_string name) post)"
    and "\<forall>x\<in>set pre. fst x \<noteq> 0" and "wf_exts pre" and "length name + 5 < 65536"
    and "length (enc_record h) \<le> cap"
  shows "obind (peekClientHello cap (enc_record h @ rest)) parseSNI = Ret name"
proof -
  obtain a b where ab: "put16 (of_nat (length (enc_handshake h)) :: u16) = [a, b]"
    "be16 a b = of_nat (length (enc_handshake h))" by (rule put16_cases)
  have n: "length (enc_handshake h) < 65536" using assms(1) by (simp add: wf_hello_def)
  have "peekClientHello cap (enc_record h @ rest) = Ret (enc_record h)"
    using assms(6) n ab
    by (simp add: peekClientHello_def peek_def enc_record_def ab go_slice_def go_index_def
      take_add_Cons5)
  then show ?thesis
    using parseSNI_enc_record [OF assms(1), of "[]"] assms(5)
      relay_ext_loop_exts_with_sni [OF assms(3,4), of "bytes_of_string name" post]
    by (simp add: assms(2))
qed

lemma relay_reads_back_sni_witness:
  "obind (peekClientHello 16389 (enc_record sample_hello @ [9])) parseSNI = Ret ''a.io''"
  by (rule relay_reads_back_sni [OF wf_sample_hello, where pre = "[(43, [2, 3, 4])]" and post = "[(10, [])]"])
     (simp_all add: sample_hello_def wf_exts_def enc_record_def length_enc_handshake enc_body_def
       length_enc_exts exts_with_sni_def sni_data_def)

lemma parseSNI_sample: "parseSNI (enc_record sample_hello) = Ret ''a.io''"
  using parseSNI_enc_record [OF wf_sample_hello, of "[]"]
    relay_ext_loop_exts_with_sni [of "[(43, [2, 3, 4])]" "bytes_of_string ''a.io''" "[(10, [])]"]
  by (simp add: sample_hello_def wf_exts_def)

lemma sni_readers_agree_witness:
  "case readClientHelloSNI (enc_record sample_hello) of (raw, res, rest) \<Rightarrow>
    raw @ rest = enc_record sample_hello \<and> (res = Ret ''a.io'' \<or> res = Err BadSniExt)"
  by (rule sni_readers_agree [OF parseSNI_sample])

end
