(* ===== verification/Relay_Server.thy ===== *)
theory Relay_Server
  imports Prelude
begin

text \<open>
  The relay's routing state machine (\<open>internal/relay/server.go\<close>, frames of
  \<open>internal/relay/protocol.go\<close>): registered control channels, browser streams that wait for a
  data connection, and the cache of published hosts. Connections are numbered. Every critical
  section of the Go code and every blocking wait is one event of a step relation, so that any
  interleaving of the handler goroutines is a sequence of events.
\<close>

section \<open>Frames and state\<close>

datatype frame_type = FRegister | FData | FOpen | FAck | FError | FUnknown string

record frame =
  f_type :: frame_type
  f_token :: string
  f_subdomain :: string
  f_conn_id :: string
  f_sni :: string
  f_message :: string

definition empty_frame :: "frame_type \<Rightarrow> frame" where
  "empty_frame t = \<lparr>f_type = t, f_token = [], f_subdomain = [], f_conn_id = [], f_sni = [], f_message = []\<rparr>"

text \<open>A tunnel; two pointers are equal when they carry the same connection.\<close>

record tunnel =
  t_subdomain :: string
  t_conn :: nat

text \<open>
  The server's maps as association lists with distinct keys, then what is outside the struct: the
  handler goroutines that wait (the browser of a connection identifier, with its one-place
  handoff channel), the data handlers between taking a channel and sending on it, and what happened on the network: frames written, connections
  closed, pairs spliced. \<open>sv_used\<close> and \<open>sv_ids\<close> are the connections accepted and the
  identifiers generated so far.
\<close>

record server =
  sv_tunnels :: "(string \<times> tunnel) list"
  sv_pending :: "string list"
  sv_pub :: "(string \<times> string \<times> int) list"
  sv_waiting :: "(string \<times> nat \<times> nat option) list"
  sv_claimed :: "(string \<times> nat) list"
  sv_sent :: "(nat \<times> frame) list"
  sv_closed :: "nat list"
  sv_pairs :: "(string \<times> nat \<times> nat) list"
  sv_used :: "nat list"
  sv_ids :: "string list"

definition NewServer :: server where
  "NewServer = \<lparr>sv_tunnels = [], sv_pending = [], sv_pub = [], sv_waiting = [], sv_claimed = [],
     sv_sent = [], sv_closed = [], sv_pairs = [], sv_used = [], sv_ids = []\<rparr>"

definition send :: "nat \<Rightarrow> frame \<Rightarrow> server \<Rightarrow> server" where
  "send c f s = s\<lparr>sv_sent := sv_sent s @ [(c, f)]\<rparr>"

definition close_conn :: "nat \<Rightarrow> server \<Rightarrow> server" where
  "close_conn c s = s\<lparr>sv_closed := sv_closed s @ [c]\<rparr>"

section \<open>Routing\<close>

definition sni_key :: "string \<Rightarrow> string" where
  "sni_key sni = to_lower (trim_suffix ''.'' sni)"

definition owns_sni :: "string \<Rightarrow> string \<Rightarrow> bool" where
  "owns_sni sub sni \<longleftrightarrow> sni = sub \<or> suffix (CHR ''.'' # sub) sni"

text \<open>The loop over the map, in whatever order the list has.\<close>

definition tunnelForSNI :: "(string \<times> tunnel) list \<Rightarrow> string \<Rightarrow> tunnel option" where
  "tunnelForSNI ts sni0 =
     (let sni = sni_key sni0 in
      foldl (\<lambda>best (sub, t).
          if owns_sni sub sni
          then (case best of
                  None \<Rightarrow> Some t
                | Some b \<Rightarrow> if length (t_subdomain b) < length sub then Some t else best)
          else best)
        None ts)"

definition publicHostTTL :: int where "publicHostTTL = 60000000000"

definition pubCacheGet ::
    "string \<Rightarrow> int \<Rightarrow> (string \<times> string \<times> int) list \<Rightarrow> string option \<times> (string \<times> string \<times> int) list" where
  "pubCacheGet host now pub =
     (case map_of pub host of
        None \<Rightarrow> (None, pub)
      | Some (sub, expiry) \<Rightarrow> if expiry < now then (None, AList.delete host pub) else (Some sub, pub))"

definition pubCachePut ::
    "string \<Rightarrow> string \<Rightarrow> int \<Rightarrow> (string \<times> string \<times> int) list \<Rightarrow> (string \<times> string \<times> int) list" where
  "pubCachePut host sub now pub = AList.update host (sub, now + publicHostTTL) pub"

text \<open>\<open>resolver\<close> is \<open>ResolvePublicHost\<close>: \<open>None\<close> when it is not configured, and its answer is
  \<open>None\<close> for an error.\<close>

type_synonym resolver = "(string \<Rightarrow> string option) option"

definition tunnelForPublicSNI ::
    "resolver \<Rightarrow> int \<Rightarrow> string \<Rightarrow> server \<Rightarrow> tunnel option \<times> server" where
  "tunnelForPublicSNI resolver now sni s =
     (case resolver of
        None \<Rightarrow> (None, s)
      | Some resolve \<Rightarrow>
          let host = sni_key sni in
          if \<not> str_contains host ''.public.'' then (None, s)
          else
            case pubCacheGet host now (sv_pub s) of
              (Some sub, pub) \<Rightarrow> (map_of (sv_tunnels s) sub, s\<lparr>sv_pub := pub\<rparr>)
            | (None, pub) \<Rightarrow>
                (case resolve host of
                   None \<Rightarrow> (None, s\<lparr>sv_pub := pub\<rparr>)
                 | Some resolved \<Rightarrow>
                     let sub = to_lower (trim_space resolved) in
                     if sub = [] then (None, s\<lparr>sv_pub := pub\<rparr>)
                     else (map_of (sv_tunnels s) sub, s\<lparr>sv_pub := pubCachePut host sub now pub\<rparr>)))"

section \<open>Handlers\<close>

text \<open>\<open>handleRegister\<close> up to holding the channel open. \<open>ack_ok\<close>: the acknowledgement could be
  written.\<close>

definition handleRegister ::
    "(string \<Rightarrow> string \<Rightarrow> bool) \<Rightarrow> bool \<Rightarrow> nat \<Rightarrow> frame \<Rightarrow> server \<Rightarrow> server" where
  "handleRegister validate ack_ok c f s =
     (let sub = to_lower (trim_space (f_subdomain f)) in
      if sub = [] \<or> f_token f = [] then
        close_conn c (send c ((empty_frame FError)\<lparr>f_message := ''register requires token and subdomain''\<rparr>) s)
      else if \<not> validate (f_token f) sub then
        close_conn c (send c ((empty_frame FError)\<lparr>f_message := ''token/subdomain validation failed''\<rparr>) s)
      else
        let s1 = (case map_of (sv_tunnels s) sub of
                    Some old \<Rightarrow> close_conn (t_conn old) s
                  | None \<Rightarrow> s);
            s2 = s1\<lparr>sv_tunnels := AList.update sub \<lparr>t_subdomain = sub, t_conn = c\<rparr> (sv_tunnels s1)\<rparr>
        in if ack_ok then send c (empty_frame FAck) s2 else close_conn c s2)"

text \<open>The end of \<open>handleRegister\<close>: the control channel \<open>t\<close> went away.\<close>

definition retireTunnel :: "tunnel \<Rightarrow> server \<Rightarrow> server" where
  "retireTunnel t s =
     close_conn (t_conn t)
       (if map_of (sv_tunnels s) (t_subdomain t) = Some t
        then s\<lparr>sv_tunnels := AList.delete (t_subdomain t) (sv_tunnels s)\<rparr> else s)"

text \<open>\<open>handleData\<close> up to the send on the handoff channel.\<close>

definition handleData :: "nat \<Rightarrow> frame \<Rightarrow> server \<Rightarrow> server" where
  "handleData c f s =
     (if f_conn_id f = [] then close_conn c s
      else if f_conn_id f \<notin> set (sv_pending s) then close_conn c s
      else s\<lparr>sv_pending := removeAll (f_conn_id f) (sv_pending s),
             sv_claimed := sv_claimed s @ [(f_conn_id f, c)]\<rparr>)"

text \<open>\<open>handleTunnelConn\<close>: the opening frame, \<open>None\<close> when it cannot be read.\<close>

definition handleTunnelConn ::
    "(string \<Rightarrow> string \<Rightarrow> bool) \<Rightarrow> bool \<Rightarrow> nat \<Rightarrow> frame option \<Rightarrow> server \<Rightarrow> server" where
  "handleTunnelConn validate ack_ok c fo s =
     (case fo of
        None \<Rightarrow> close_conn c s
      | Some f \<Rightarrow>
          (case f_type f of
             FRegister \<Rightarrow> handleRegister validate ack_ok c f s
           | FData \<Rightarrow> handleData c f s
           | _ \<Rightarrow> close_conn c (send c ((empty_frame FError)\<lparr>f_message := ''expected register or data frame''\<rparr>) s)))"

text \<open>
  \<open>handlePassthroughConn\<close> from the parsed server name (\<open>None\<close>: it could not be read) to the
  open frame; \<open>write_ok\<close>: the frame could be written.
\<close>

definition routeFor :: "resolver \<Rightarrow> int \<Rightarrow> string \<Rightarrow> server \<Rightarrow> tunnel option \<times> server" where
  "routeFor resolver now sni s =
     (case tunnelForSNI (sv_tunnels s) sni of
        Some t \<Rightarrow> (Some t, s)
      | None \<Rightarrow> tunnelForPublicSNI resolver now sni s)"

definition handlePassthroughConn ::
    "resolver \<Rightarrow> int \<Rightarrow> bool \<Rightarrow> nat \<Rightarrow> string option \<Rightarrow> string \<Rightarrow> server \<Rightarrow> server" where
  "handlePassthroughConn resolver now write_ok browser sni_opt connID s =
     (case sni_opt of
        None \<Rightarrow> close_conn browser s
      | Some sni \<Rightarrow>
          (case routeFor resolver now sni s of
             (None, s1) \<Rightarrow> close_conn browser s1
           | (Some t, s1) \<Rightarrow>
               if write_ok
               then (send (t_conn t) ((empty_frame FOpen)\<lparr>f_conn_id := connID, f_sni := sni\<rparr>) s1)
                      \<lparr>sv_pending := sv_pending s1 @ [connID],
                       sv_waiting := sv_waiting s1 @ [(connID, browser, None)]\<rparr>
               else close_conn browser s1))"

text \<open>The send on the handoff channel: it reaches the waiting browser, or the drain of an expired
  wait, which closes it.\<close>

definition deliver :: "string \<Rightarrow> nat \<Rightarrow> server \<Rightarrow> server" where
  "deliver connID c s =
     (let s1 = s\<lparr>sv_claimed := filter (\<lambda>p. p \<noteq> (connID, c)) (sv_claimed s)\<rparr> in
      case map_of (sv_waiting s) connID of
        Some (browser, _) \<Rightarrow> s1\<lparr>sv_waiting := AList.update connID (browser, Some c) (sv_waiting s)\<rparr>
      | None \<Rightarrow> close_conn c s1)"

text \<open>The browser's handler wakes up with the connection and splices.\<close>

definition wake :: "string \<Rightarrow> server \<Rightarrow> server" where
  "wake connID s =
     (case map_of (sv_waiting s) connID of
        Some (browser, Some back) \<Rightarrow>
          s\<lparr>sv_waiting := AList.delete connID (sv_waiting s),
            sv_pairs := sv_pairs s @ [(connID, browser, back)]\<rparr>
      | _ \<Rightarrow> s)"

text \<open>The wait of 15 seconds ends: the identifier is withdrawn, the browser closed, and a data
  connection that is already in the channel is drained and closed.\<close>

definition expire :: "string \<Rightarrow> server \<Rightarrow> server" where
  "expire connID s =
     (case map_of (sv_waiting s) connID of
        Some (browser, back) \<Rightarrow>
          (let s1 = close_conn browser (s\<lparr>sv_pending := removeAll connID (sv_pending s),
                      sv_waiting := AList.delete connID (sv_waiting s)\<rparr>)
           in case back of None \<Rightarrow> s1 | Some c \<Rightarrow> close_conn c s1)
      | None \<Rightarrow> s)"

section \<open>Events\<close>

datatype event =
  EvTunnel bool nat "frame option"
| EvRetire tunnel
| EvBrowser resolver int bool nat "string option" string
| EvDeliver string nat
| EvWake string
| EvExpire string

fun apply_event :: "(string \<Rightarrow> string \<Rightarrow> bool) \<Rightarrow> event \<Rightarrow> server \<Rightarrow> server" where
  "apply_event V (EvTunnel ack_ok c fo) s =
     handleTunnelConn V ack_ok c fo (s\<lparr>sv_used := sv_used s @ [c]\<rparr>)"
| "apply_event V (EvRetire t) s = retireTunnel t s"
| "apply_event V (EvBrowser r now ok b sni cid) s =
     handlePassthroughConn r now ok b sni cid (s\<lparr>sv_used := sv_used s @ [b], sv_ids := sv_ids s @ [cid]\<rparr>)"
| "apply_event V (EvDeliver cid c) s = deliver cid c s"
| "apply_event V (EvWake cid) s = wake cid s"
| "apply_event V (EvExpire cid) s = expire cid s"

text \<open>A connection is accepted once, and a generated identifier (16 random bytes) is new and not
  empty; a data handler sends what it has claimed.\<close>

fun enabled :: "event \<Rightarrow> server \<Rightarrow> bool" where
  "enabled (EvTunnel ack_ok c fo) s \<longleftrightarrow> c \<notin> set (sv_used s)"
| "enabled (EvRetire t) s \<longleftrightarrow> t_conn t \<in> set (sv_used s)"
| "enabled (EvBrowser r now ok b sni cid) s \<longleftrightarrow> b \<notin> set (sv_used s) \<and> cid \<notin> set (sv_ids s) \<and> cid \<noteq> []"
| "enabled (EvDeliver cid c) s \<longleftrightarrow> (cid, c) \<in> set (sv_claimed s)"
| "enabled (EvWake cid) s \<longleftrightarrow> (\<exists>b d. map_of (sv_waiting s) cid = Some (b, Some d))"
| "enabled (EvExpire cid) s \<longleftrightarrow> cid \<in> fst ` set (sv_waiting s)"

inductive relay_reach :: "(string \<Rightarrow> string \<Rightarrow> bool) \<Rightarrow> event list \<Rightarrow> server \<Rightarrow> bool"
  for V :: "string \<Rightarrow> string \<Rightarrow> bool" where
  start: "relay_reach V [] NewServer"
| step: "relay_reach V evs s \<Longrightarrow> enabled ev s \<Longrightarrow> relay_reach V (evs @ [ev]) (apply_event V ev s)"

section \<open>Association lists\<close>

lemma in_set_delete [simp]: "x \<in> set (AList.delete k xs) \<longleftrightarrow> x \<in> set xs \<and> fst x \<noteq> k"
  by (auto simp: AList.delete_eq)

lemma in_set_update:
  "distinct (map fst xs) \<Longrightarrow>
     x \<in> set (AList.update k v xs) \<longleftrightarrow> x = (k, v) \<or> (x \<in> set xs \<and> fst x \<noteq> k)"
  by (induction xs) (auto simp: image_iff)

lemma in_set_update_subset: "x \<in> set (AList.update k v xs) \<Longrightarrow> x = (k, v) \<or> x \<in> set xs"
  by (induction xs) (auto split: if_splits)

section \<open>Longest match\<close>

definition keyed :: "(string \<times> tunnel) list \<Rightarrow> bool" where
  "keyed ts \<longleftrightarrow> distinct (map fst ts) \<and> (\<forall>(k, t)\<in>set ts. t_subdomain t = k)"

definition longest_owner :: "(string \<times> tunnel) list \<Rightarrow> string \<Rightarrow> tunnel \<Rightarrow> bool" where
  "longest_owner ts sni t \<longleftrightarrow>
     (t_subdomain t, t) \<in> set ts \<and> owns_sni (t_subdomain t) sni \<and>
     (\<forall>(k, u)\<in>set ts. owns_sni k sni \<longrightarrow> length k \<le> length (t_subdomain t))"

lemma owns_sni_suffix: "owns_sni sub sni \<Longrightarrow> suffix sub sni"
  by (auto simp: owns_sni_def suffix_def)

lemma longest_owner_unique:
  assumes "keyed ts" and "longest_owner ts sni t" and "longest_owner ts sni u"
  shows "t = u"
proof -
  have le: "length (t_subdomain x) \<le> length (t_subdomain y)"
    if "longest_owner ts sni x" "longest_owner ts sni y" for x y
    using that by (auto simp: longest_owner_def)
  have "length (t_subdomain t) = length (t_subdomain u)"
    using le assms(2,3) by (blast intro: le_antisym)
  moreover have "suffix (t_subdomain t) sni" "suffix (t_subdomain u) sni"
    using assms(2,3) by (auto simp: longest_owner_def intro: owns_sni_suffix)
  ultimately have "t_subdomain t = t_subdomain u"
    by (metis suffix_def append_eq_append_conv)
  moreover have "(t_subdomain t, t) \<in> set ts" "(t_subdomain u, u) \<in> set ts" "distinct (map fst ts)"
    using assms by (auto simp: longest_owner_def keyed_def)
  ultimately show ?thesis by (metis eq_key_imp_eq_value)
qed

lemma tunnelForSNI_snoc:
  "tunnelForSNI (ts @ [(k, t)]) sni =
     (if owns_sni k (sni_key sni)
      then (case tunnelForSNI ts sni of
              None \<Rightarrow> Some t
            | Some b \<Rightarrow> if length (t_subdomain b) < length k then Some t else Some b)
      else tunnelForSNI ts sni)"
  by (simp add: tunnelForSNI_def split: option.split)

lemma tunnelForSNI_spec:
  assumes "keyed ts"
  shows "case tunnelForSNI ts sni of
      None \<Rightarrow> \<forall>(k, u)\<in>set ts. \<not> owns_sni k (sni_key sni)
    | Some t \<Rightarrow> longest_owner ts (sni_key sni) t"
  using assms
proof (induction ts rule: rev_induct)
  case Nil
  then show ?case by (simp add: tunnelForSNI_def)
next
  case (snoc x ts)
  obtain k t where x: "x = (k, t)" by fastforce
  have "keyed ts" "t_subdomain t = k" using snoc.prems x by (auto simp: keyed_def)
  then show ?case
    using snoc.IH unfolding x tunnelForSNI_snoc
    by (fastforce simp: longest_owner_def split: option.splits if_splits)
qed

lemma tunnelForSNI_eq_Some:
  assumes "keyed ts"
  shows "tunnelForSNI ts sni = Some t \<longleftrightarrow> longest_owner ts (sni_key sni) t"
  using tunnelForSNI_spec [OF assms, of sni] longest_owner_unique [OF assms, of "sni_key sni"]
  by (auto split: option.splits simp: longest_owner_def)

lemma tunnelForSNI_eq_None:
  assumes "keyed ts"
  shows "tunnelForSNI ts sni = None \<longleftrightarrow> (\<forall>(k, u)\<in>set ts. \<not> owns_sni k (sni_key sni))"
  using tunnelForSNI_spec [OF assms, of sni] by (auto split: option.splits simp: longest_owner_def)

text \<open>A server name is routed to the registered domain that is the longest one equal to it or
  above it, and to no tunnel when no registered domain owns it; Go's random map order has no
  influence on the choice.\<close>

theorem tunnelForSNI_longest_match:
  assumes "keyed ts"
  shows "(tunnelForSNI ts sni = Some t) = longest_owner ts (sni_key sni) t \<and>
    (tunnelForSNI ts sni = None) = (\<not> list_ex (\<lambda>(k, u). owns_sni k (sni_key sni)) ts) \<and>
    (mset ts' = mset ts \<longrightarrow> tunnelForSNI ts' sni = tunnelForSNI ts sni)"
proof (intro conjI impI)
  show "(tunnelForSNI ts sni = Some t) = longest_owner ts (sni_key sni) t"
    by (rule tunnelForSNI_eq_Some [OF assms])
  show "(tunnelForSNI ts sni = None) = (\<not> list_ex (\<lambda>(k, u). owns_sni k (sni_key sni)) ts)"
    by (auto simp: tunnelForSNI_eq_None [OF assms] list_ex_iff)
  assume m: "mset ts' = mset ts"
  then have "set ts' = set ts" "distinct (map fst ts') = distinct (map fst ts)"
    by (metis set_mset_mset, metis mset_eq_imp_distinct_iff mset_map)
  with assms have "keyed ts'" "longest_owner ts' (sni_key sni) = longest_owner ts (sni_key sni)"
    by (auto simp: keyed_def longest_owner_def)
  then show "tunnelForSNI ts' sni = tunnelForSNI ts sni"
    using tunnelForSNI_eq_Some [OF assms] tunnelForSNI_eq_Some [of ts'] by (metis option.exhaust)
qed

lemma tunnelForSNI_longest_match_witness:
  "tunnelForSNI [(''b.io'', \<lparr>t_subdomain = ''b.io'', t_conn = 1\<rparr>),
      (''a.b.io'', \<lparr>t_subdomain = ''a.b.io'', t_conn = 2\<rparr>)] ''x.a.b.io.''
    = Some \<lparr>t_subdomain = ''a.b.io'', t_conn = 2\<rparr>"
proof -
  have k: "keyed [(''b.io'', \<lparr>t_subdomain = ''b.io'', t_conn = 1\<rparr>),
      (''a.b.io'', \<lparr>t_subdomain = ''a.b.io'', t_conn = 2\<rparr>)]" by (simp add: keyed_def)
  show ?thesis
    using tunnelForSNI_longest_match [OF k, of "''x.a.b.io.''" "\<lparr>t_subdomain = ''a.b.io'', t_conn = 2\<rparr>" "[]"]
    by (simp add: longest_owner_def owns_sni_def sni_key_def to_lower_def lower_char_def trim_suffix_def
        suffix_to_prefix)
qed

section \<open>Provenance of a route\<close>

text \<open>Connection \<open>c\<close> registered the domain \<open>k\<close> with a token that is valid for it.\<close>

definition registered :: "(string \<Rightarrow> string \<Rightarrow> bool) \<Rightarrow> event list \<Rightarrow> nat \<Rightarrow> string \<Rightarrow> bool" where
  "registered V evs c k \<longleftrightarrow>
     (\<exists>ok f. EvTunnel ok c (Some f) \<in> set evs \<and> f_type f = FRegister
        \<and> to_lower (trim_space (f_subdomain f)) = k \<and> V (f_token f) k)"

text \<open>The AOC answered at time \<open>t\<close> that the server of domain \<open>k\<close> owns the published host.\<close>

definition answered :: "event list \<Rightarrow> string \<Rightarrow> string \<Rightarrow> int \<Rightarrow> bool" where
  "answered evs host k t \<longleftrightarrow>
     (\<exists>rs ok b sni cid resolved. EvBrowser (Some rs) t ok b (Some sni) cid \<in> set evs
        \<and> sni_key sni = host \<and> rs host = Some resolved \<and> to_lower (trim_space resolved) = k)"

definition tunnels_ok :: "(string \<Rightarrow> string \<Rightarrow> bool) \<Rightarrow> event list \<Rightarrow> server \<Rightarrow> bool" where
  "tunnels_ok V evs s \<longleftrightarrow> keyed (sv_tunnels s) \<and>
     (\<forall>(k, t)\<in>set (sv_tunnels s). registered V evs (t_conn t) k)"

definition pub_ok :: "event list \<Rightarrow> server \<Rightarrow> bool" where
  "pub_ok evs s \<longleftrightarrow>
     (\<forall>(host, k, expiry)\<in>set (sv_pub s). answered evs host k (expiry - publicHostTTL))"

definition may_serve :: "event list \<Rightarrow> int \<Rightarrow> string \<Rightarrow> string \<Rightarrow> bool" where
  "may_serve evs now sni k \<longleftrightarrow>
     owns_sni k (sni_key sni) \<or> (\<exists>t. answered evs (sni_key sni) k t \<and> now \<le> t + publicHostTTL)"

lemma registered_mono: "registered V evs c k \<Longrightarrow> registered V (evs @ es) c k"
  by (auto simp: registered_def)

lemma answered_mono: "answered evs h k t \<Longrightarrow> answered (evs @ es) h k t"
  unfolding answered_def by (metis UnI1 set_append)

lemma may_serve_mono: "may_serve evs now sni k \<Longrightarrow> may_serve (evs @ es) now sni k"
  by (auto simp: may_serve_def intro: answered_mono)

lemma tunnels_ok_mono: "tunnels_ok V evs s \<Longrightarrow> tunnels_ok V (evs @ es) s"
  by (auto simp: tunnels_ok_def intro: registered_mono)

lemma pub_ok_mono: "pub_ok evs s \<Longrightarrow> pub_ok (evs @ es) s"
  by (auto simp: pub_ok_def intro: answered_mono)

lemma tunnels_ok_lookup:
  "tunnels_ok V evs s \<Longrightarrow> map_of (sv_tunnels s) k = Some t \<Longrightarrow>
     t_subdomain t = k \<and> registered V evs (t_conn t) k"
  by (auto simp: tunnels_ok_def keyed_def dest!: map_of_SomeD)

text \<open>What \<open>tunnelForPublicSNI\<close> returns, and that it changes the cache only.\<close>

lemma tunnelForPublicSNI_spec:
  assumes "tunnelForPublicSNI r now sni s = (to, s1)" and "pub_ok evs s"
    and "EvBrowser r now ok b (Some sni) cid \<in> set evs"
  shows "(\<exists>pub. s1 = s\<lparr>sv_pub := pub\<rparr>) \<and> pub_ok evs s1 \<and>
    (\<forall>t. to = Some t \<longrightarrow> (\<exists>k. map_of (sv_tunnels s) k = Some t \<and> may_serve evs now sni k))"
proof (cases "\<exists>rs. r = Some rs \<and> str_contains (sni_key sni) ''.public.''")
  case False
  then have "(to, s1) = (None, s)"
    using assms(1) by (auto simp: tunnelForPublicSNI_def Let_def split: option.splits if_splits)
  then show ?thesis using assms(2) by (auto intro: exI [of _ "sv_pub s"])
next
  case True
  then obtain rs where rs: "r = Some rs" "str_contains (sni_key sni) ''.public.''" by blast
  obtain hit pub where get: "pubCacheGet (sni_key sni) now (sv_pub s) = (hit, pub)" by fastforce
  have sub: "set pub \<subseteq> set (sv_pub s)"
    using get by (auto simp: pubCacheGet_def split: option.splits if_splits)
  have pub: "pub_ok evs (s\<lparr>sv_pub := pub\<rparr>)" using assms(2) sub by (auto simp: pub_ok_def)
  show ?thesis
  proof (cases hit)
    case (Some k)
    then obtain expiry where "map_of (sv_pub s) (sni_key sni) = Some (k, expiry)" "now \<le> expiry"
      using get by (auto simp: pubCacheGet_def split: option.splits if_splits)
    then have "answered evs (sni_key sni) k (expiry - publicHostTTL)"
      using assms(2) by (auto simp: pub_ok_def dest!: map_of_SomeD)
    then have "may_serve evs now sni k"
      using \<open>now \<le> expiry\<close> by (auto simp: may_serve_def intro!: exI [of _ "expiry - publicHostTTL"])
    then show ?thesis
      using assms(1) rs get Some pub by (auto simp: tunnelForPublicSNI_def Let_def)
  next
    case None
    show ?thesis
    proof (cases "\<exists>resolved. rs (sni_key sni) = Some resolved \<and> to_lower (trim_space resolved) \<noteq> []")
      case False
      then show ?thesis
        using assms(1) rs get None pub
        by (auto simp: tunnelForPublicSNI_def Let_def split: option.splits if_splits)
    next
      case True
      then obtain resolved where res: "rs (sni_key sni) = Some resolved" "to_lower (trim_space resolved) \<noteq> []"
        by blast
      have ans: "answered evs (sni_key sni) (to_lower (trim_space resolved)) now"
        using assms(3) rs res unfolding answered_def by blast
      then have "may_serve evs now sni (to_lower (trim_space resolved))"
        by (auto simp: may_serve_def publicHostTTL_def intro!: exI [of _ now])
      moreover have "pub_ok evs (s\<lparr>sv_pub := pubCachePut (sni_key sni) (to_lower (trim_space resolved)) now pub\<rparr>)"
        using pub ans by (auto simp: pub_ok_def pubCachePut_def dest!: in_set_update_subset)
      ultimately show ?thesis
        using assms(1) rs get None res by (auto simp: tunnelForPublicSNI_def Let_def)
    qed
  qed
qed

lemma routeFor_spec:
  assumes "routeFor r now sni s = (to, s1)" and "tunnels_ok V evs s" and "pub_ok evs s"
    and "EvBrowser r now ok b (Some sni) cid \<in> set evs"
  shows "(\<exists>pub. s1 = s\<lparr>sv_pub := pub\<rparr>) \<and> pub_ok evs s1 \<and>
    (\<forall>t. to = Some t \<longrightarrow> registered V evs (t_conn t) (t_subdomain t) \<and>
        may_serve evs now sni (t_subdomain t))"
proof (cases "tunnelForSNI (sv_tunnels s) sni")
  case None
  then have p: "tunnelForPublicSNI r now sni s = (to, s1)" using assms(1) by (simp add: routeFor_def)
  show ?thesis
    using tunnelForPublicSNI_spec [OF p assms(3,4)] tunnels_ok_lookup [OF assms(2)] by metis
next
  case (Some t)
  have "longest_owner (sv_tunnels s) (sni_key sni) t"
    using Some tunnelForSNI_eq_Some [of "sv_tunnels s"] assms(2) by (simp add: tunnels_ok_def)
  then have "registered V evs (t_conn t) (t_subdomain t)" "may_serve evs now sni (t_subdomain t)"
    using assms(2) by (auto simp: longest_owner_def tunnels_ok_def may_serve_def)
  then show ?thesis
    using assms(1,3) Some by (auto simp: routeFor_def intro: exI [of _ "sv_pub s"])
qed

section \<open>Invariants of the event system\<close>

definition open_frame :: "string \<Rightarrow> string \<Rightarrow> frame" where
  "open_frame cid sni = (empty_frame FOpen)\<lparr>f_conn_id := cid, f_sni := sni\<rparr>"

text \<open>Browser \<open>b\<close> asked for a server name, and the open frame with the identifier \<open>cid\<close> went to a
  connection registered for a domain that may serve the name.\<close>

definition announced :: "(string \<Rightarrow> string \<Rightarrow> bool) \<Rightarrow> event list \<Rightarrow> server \<Rightarrow> string \<Rightarrow> nat \<Rightarrow> bool" where
  "announced V evs s cid b \<longleftrightarrow>
     (\<exists>r now sni c k. EvBrowser r now True b (Some sni) cid \<in> set evs \<and>
        (c, open_frame cid sni) \<in> set (sv_sent s) \<and> registered V evs c k \<and> may_serve evs now sni k)"

text \<open>Connection \<open>d\<close> opened with a data frame that names \<open>cid\<close>.\<close>

definition presents :: "event list \<Rightarrow> string \<Rightarrow> nat \<Rightarrow> bool" where
  "presents evs cid d \<longleftrightarrow>
     (\<exists>ok f. EvTunnel ok d (Some f) \<in> set evs \<and> f_type f = FData \<and> f_conn_id f = cid)"

text \<open>The life of an identifier: pending, claimed, handed over, spliced, never two at once.\<close>

definition phases_ok :: "server \<Rightarrow> bool" where
  "phases_ok s \<longleftrightarrow>
     (distinct (map fst (sv_waiting s)) \<and> distinct (map fst (sv_claimed s)) \<and> distinct (map fst (sv_pairs s))) \<and>
     (\<forall>cid. cid \<in> set (sv_pending s) \<longrightarrow> (\<exists>b. (cid, b, None) \<in> set (sv_waiting s)) \<and>
        (\<forall>d. (cid, d) \<notin> set (sv_claimed s)) \<and> (\<forall>x. (cid, x) \<notin> set (sv_pairs s))) \<and>
     (\<forall>cid d. (cid, d) \<in> set (sv_claimed s) \<longrightarrow> cid \<in> set (sv_ids s) \<and> (\<forall>x. (cid, x) \<notin> set (sv_pairs s)) \<and>
        (\<forall>b h. (cid, b, h) \<in> set (sv_waiting s) \<longrightarrow> h = None)) \<and>
     (\<forall>cid x. (cid, x) \<in> set (sv_waiting s) \<longrightarrow> cid \<in> set (sv_ids s) \<and> (\<forall>x. (cid, x) \<notin> set (sv_pairs s))) \<and>
     (\<forall>cid x. (cid, x) \<in> set (sv_pairs s) \<longrightarrow> cid \<in> set (sv_ids s))"

lemma phases_okD:
  assumes "phases_ok s"
  shows "distinct (map fst (sv_waiting s))" "distinct (map fst (sv_claimed s))" "distinct (map fst (sv_pairs s))"
    "cid \<in> set (sv_pending s) \<Longrightarrow> \<exists>b. (cid, b, None) \<in> set (sv_waiting s)"
    "cid \<in> set (sv_pending s) \<Longrightarrow> (cid, d) \<notin> set (sv_claimed s)"
    "cid \<in> set (sv_pending s) \<Longrightarrow> (cid, x) \<notin> set (sv_pairs s)"
    "(cid, d) \<in> set (sv_claimed s) \<Longrightarrow> cid \<in> set (sv_ids s)"
    "(cid, d) \<in> set (sv_claimed s) \<Longrightarrow> (cid, x) \<notin> set (sv_pairs s)"
    "(cid, d) \<in> set (sv_claimed s) \<Longrightarrow> (cid, b, h) \<in> set (sv_waiting s) \<Longrightarrow> h = None"
    "(cid, y) \<in> set (sv_waiting s) \<Longrightarrow> cid \<in> set (sv_ids s)"
    "(cid, y) \<in> set (sv_waiting s) \<Longrightarrow> (cid, x) \<notin> set (sv_pairs s)"
    "(cid, x) \<in> set (sv_pairs s) \<Longrightarrow> cid \<in> set (sv_ids s)"
  using assms unfolding phases_ok_def by blast+

lemma not_in_fst: "k \<notin> fst ` set xs \<longleftrightarrow> (\<forall>v. (k, v) \<notin> set xs)"
  by force

definition sources_ok :: "(string \<Rightarrow> string \<Rightarrow> bool) \<Rightarrow> event list \<Rightarrow> server \<Rightarrow> bool" where
  "sources_ok V evs s \<longleftrightarrow>
     (\<forall>(cid, b, h)\<in>set (sv_waiting s). announced V evs s cid b \<and> (\<forall>d. h = Some d \<longrightarrow> presents evs cid d)) \<and>
     (\<forall>(cid, d)\<in>set (sv_claimed s). presents evs cid d) \<and>
     (\<forall>(cid, b, d)\<in>set (sv_pairs s). announced V evs s cid b \<and> presents evs cid d)"

definition accepts_ok :: "event list \<Rightarrow> server \<Rightarrow> bool" where
  "accepts_ok evs s \<longleftrightarrow>
     (\<forall>ok c fo. EvTunnel ok c fo \<in> set evs \<longrightarrow> c \<in> set (sv_used s)) \<and>
     (\<forall>r n ok b sni cid. EvBrowser r n ok b sni cid \<in> set evs \<longrightarrow> b \<in> set (sv_used s)) \<and>
     (\<forall>ok c fo ok' fo'. EvTunnel ok c fo \<in> set evs \<longrightarrow> EvTunnel ok' c fo' \<in> set evs \<longrightarrow> fo = fo') \<and>
     (\<forall>r n ok b sni cid r' n' ok' sni' cid'. EvBrowser r n ok b sni cid \<in> set evs \<longrightarrow>
        EvBrowser r' n' ok' b sni' cid' \<in> set evs \<longrightarrow> cid = cid')"

lemma accepts_okD:
  assumes "accepts_ok evs s"
  shows "EvTunnel ok c fo \<in> set evs \<Longrightarrow> c \<in> set (sv_used s)"
    "EvBrowser r n ok b sni cid \<in> set evs \<Longrightarrow> b \<in> set (sv_used s)"
    "EvTunnel ok c fo \<in> set evs \<Longrightarrow> EvTunnel ok' c fo' \<in> set evs \<Longrightarrow> fo = fo'"
    "EvBrowser r n ok b sni cid \<in> set evs \<Longrightarrow> EvBrowser r' n' ok' b sni' cid' \<in> set evs \<Longrightarrow> cid = cid'"
proof -
  note a = assms [unfolded accepts_ok_def]
  show "EvTunnel ok c fo \<in> set evs \<Longrightarrow> c \<in> set (sv_used s)"
    using a [THEN conjunct1] by blast
  show "EvBrowser r n ok b sni cid \<in> set evs \<Longrightarrow> b \<in> set (sv_used s)"
    using a [THEN conjunct2, THEN conjunct1] by blast
  show "EvTunnel ok c fo \<in> set evs \<Longrightarrow> EvTunnel ok' c fo' \<in> set evs \<Longrightarrow> fo = fo'"
    using a [THEN conjunct2, THEN conjunct2, THEN conjunct1] by blast
  show "EvBrowser r n ok b sni cid \<in> set evs \<Longrightarrow> EvBrowser r' n' ok' b sni' cid' \<in> set evs \<Longrightarrow> cid = cid'"
    using a [THEN conjunct2, THEN conjunct2, THEN conjunct2] by blast
qed

lemma announced_mono:
  "announced V evs s cid b \<Longrightarrow> set (sv_sent s) \<subseteq> set (sv_sent s') \<Longrightarrow> announced V (evs @ es) s' cid b"
  unfolding announced_def by (metis UnI1 may_serve_mono registered_mono set_append subsetD)

lemma presents_mono: "presents evs cid d \<Longrightarrow> presents (evs @ es) cid d"
  by (auto simp: presents_def)

lemma sources_ok_mono:
  assumes "sources_ok V evs s" and "set (sv_sent s) \<subseteq> set (sv_sent s')"
    and "sv_waiting s' = sv_waiting s" "sv_claimed s' = sv_claimed s" "sv_pairs s' = sv_pairs s"
  shows "sources_ok V (evs @ es) s'"
  using assms unfolding sources_ok_def
  by (auto split: prod.splits intro: announced_mono [OF _ assms(2)] presents_mono)

lemma phases_ok_cong:
  "sv_waiting s' = sv_waiting s \<Longrightarrow> sv_claimed s' = sv_claimed s \<Longrightarrow> sv_pairs s' = sv_pairs s \<Longrightarrow>
   sv_pending s' = sv_pending s \<Longrightarrow> sv_ids s' = sv_ids s \<Longrightarrow> phases_ok s' = phases_ok s"
  by (simp add: phases_ok_def)

text \<open>What the operations leave alone.\<close>

named_theorems relay_frame \<open>unchanged fields\<close>

lemma send_frame [relay_frame, simp]:
  "sv_waiting (send c f s) = sv_waiting s" "sv_claimed (send c f s) = sv_claimed s"
  "sv_pairs (send c f s) = sv_pairs s" "sv_pending (send c f s) = sv_pending s"
  "sv_ids (send c f s) = sv_ids s" "sv_used (send c f s) = sv_used s"
  "sv_tunnels (send c f s) = sv_tunnels s" "sv_pub (send c f s) = sv_pub s"
  "sv_sent (send c f s) = sv_sent s @ [(c, f)]"
  by (simp_all add: send_def)

lemma close_frame [relay_frame, simp]:
  "sv_waiting (close_conn c s) = sv_waiting s" "sv_claimed (close_conn c s) = sv_claimed s"
  "sv_pairs (close_conn c s) = sv_pairs s" "sv_pending (close_conn c s) = sv_pending s"
  "sv_ids (close_conn c s) = sv_ids s" "sv_used (close_conn c s) = sv_used s"
  "sv_tunnels (close_conn c s) = sv_tunnels s" "sv_pub (close_conn c s) = sv_pub s"
  "sv_sent (close_conn c s) = sv_sent s"
  by (simp_all add: close_conn_def)

lemma handleRegister_frame [relay_frame, simp]:
  "sv_waiting (handleRegister V ok c f s) = sv_waiting s" "sv_claimed (handleRegister V ok c f s) = sv_claimed s"
  "sv_pairs (handleRegister V ok c f s) = sv_pairs s" "sv_pending (handleRegister V ok c f s) = sv_pending s"
  "sv_ids (handleRegister V ok c f s) = sv_ids s" "sv_used (handleRegister V ok c f s) = sv_used s"
  "sv_pub (handleRegister V ok c f s) = sv_pub s"
  by (simp_all add: handleRegister_def Let_def split: option.split)

lemma handleRegister_sent: "set (sv_sent s) \<subseteq> set (sv_sent (handleRegister V ok c f s))"
  by (auto simp: handleRegister_def Let_def split: option.split)

lemma handleRegister_tunnels:
  assumes "tunnels_ok V evs s" and "EvTunnel ok c (Some f) \<in> set evs" and "f_type f = FRegister"
  shows "tunnels_ok V evs (handleRegister V ok c f s)"
proof -
  have upd: "tunnels_ok V evs s'" if "sv_tunnels s' = AList.update k \<lparr>t_subdomain = k, t_conn = c\<rparr> (sv_tunnels s)"
    "registered V evs c k" for s' k
    using assms(1) that by (auto simp: tunnels_ok_def keyed_def in_set_update distinct_update)
  have same: "tunnels_ok V evs s'" if "sv_tunnels s' = sv_tunnels s" for s'
    using assms(1) that by (simp add: tunnels_ok_def)
  define sub where "sub = to_lower (trim_space (f_subdomain f))"
  show ?thesis
  proof (cases "sub \<noteq> [] \<and> f_token f \<noteq> [] \<and> V (f_token f) sub")
    case True
    then have "sv_tunnels (handleRegister V ok c f s) =
        AList.update sub \<lparr>t_subdomain = sub, t_conn = c\<rparr> (sv_tunnels s)"
      unfolding handleRegister_def sub_def [symmetric] by (simp add: Let_def split: option.split)
    moreover have "registered V evs c sub"
      using assms(2,3) True by (auto simp: registered_def sub_def)
    ultimately show ?thesis by (rule upd)
  next
    case False
    then show ?thesis
      by (intro same) (auto simp: handleRegister_def Let_def sub_def)
  qed
qed

lemma retireTunnel_frame [relay_frame, simp]:
  "sv_waiting (retireTunnel t s) = sv_waiting s" "sv_claimed (retireTunnel t s) = sv_claimed s"
  "sv_pairs (retireTunnel t s) = sv_pairs s" "sv_pending (retireTunnel t s) = sv_pending s"
  "sv_ids (retireTunnel t s) = sv_ids s" "sv_used (retireTunnel t s) = sv_used s"
  "sv_pub (retireTunnel t s) = sv_pub s" "sv_sent (retireTunnel t s) = sv_sent s"
  by (simp_all add: retireTunnel_def)

lemma retireTunnel_tunnels: "tunnels_ok V evs s \<Longrightarrow> tunnels_ok V evs (retireTunnel t s)"
  by (auto simp: tunnels_ok_def keyed_def retireTunnel_def distinct_delete)

lemma tunnels_ok_cong: "sv_tunnels s' = sv_tunnels s \<Longrightarrow> tunnels_ok V evs s' = tunnels_ok V evs s"
  by (simp add: tunnels_ok_def)

lemma pub_ok_cong: "sv_pub s' = sv_pub s \<Longrightarrow> pub_ok evs s' = pub_ok evs s"
  by (simp add: pub_ok_def)

lemma handleData_frame [simp]:
  "sv_tunnels (handleData c f s) = sv_tunnels s" "sv_pub (handleData c f s) = sv_pub s"
  "sv_used (handleData c f s) = sv_used s" "sv_sent (handleData c f s) = sv_sent s"
  by (simp_all add: handleData_def)

lemma deliver_frame [simp]:
  "sv_tunnels (deliver cid c s) = sv_tunnels s" "sv_pub (deliver cid c s) = sv_pub s"
  "sv_used (deliver cid c s) = sv_used s" "sv_sent (deliver cid c s) = sv_sent s"
  by (simp_all add: deliver_def Let_def split: option.split)

lemma wake_frame [simp]:
  "sv_tunnels (wake cid s) = sv_tunnels s" "sv_pub (wake cid s) = sv_pub s"
  "sv_used (wake cid s) = sv_used s" "sv_sent (wake cid s) = sv_sent s"
  by (simp_all add: wake_def split: option.split)

lemma expire_frame [simp]:
  "sv_tunnels (expire cid s) = sv_tunnels s" "sv_pub (expire cid s) = sv_pub s"
  "sv_used (expire cid s) = sv_used s" "sv_sent (expire cid s) = sv_sent s"
  by (simp_all add: expire_def Let_def split: option.split)

lemma route_frame:
  assumes "routeFor r now sni s = (to, s1)"
  shows "\<exists>pub. s1 = s\<lparr>sv_pub := pub\<rparr>"
proof -
  have "\<exists>pub. snd (tunnelForPublicSNI r now sni s) = s\<lparr>sv_pub := pub\<rparr>"
    by (auto simp: tunnelForPublicSNI_def Let_def split: option.split prod.split
        intro: exI [of _ "sv_pub s"])
  then show ?thesis
    using assms by (auto simp: routeFor_def intro: exI [of _ "sv_pub s"] split: option.splits)
qed

lemma pass_frame [simp]:
  "sv_tunnels (handlePassthroughConn r now ok b so cid s) = sv_tunnels s"
  "sv_used (handlePassthroughConn r now ok b so cid s) = sv_used s"
  by (auto simp: handlePassthroughConn_def split: option.split prod.split dest!: route_frame)

text \<open>The four invariants together.\<close>

definition relay_inv :: "(string \<Rightarrow> string \<Rightarrow> bool) \<Rightarrow> event list \<Rightarrow> server \<Rightarrow> bool" where
  "relay_inv V evs s \<longleftrightarrow> tunnels_ok V evs s \<and> pub_ok evs s \<and> phases_ok s \<and> sources_ok V evs s \<and> accepts_ok evs s"

lemma accepts_ok_step:
  assumes "accepts_ok evs s" and "enabled ev s"
  shows "accepts_ok (evs @ [ev]) (apply_event V ev s)"
proof -
  note a = accepts_okD [OF assms(1)]
  show ?thesis
  proof (cases ev)
    case (EvTunnel ok c fo)
    have used: "sv_used (apply_event V ev s) = sv_used s @ [c]"
      using EvTunnel by (simp add: handleTunnelConn_def split: option.split frame_type.split)
    have new: "EvTunnel ok' c fo' \<notin> set evs" for ok' fo'
      using assms(2) a(1) EvTunnel by auto
    show ?thesis
      unfolding accepts_ok_def used
      using new EvTunnel by (intro conjI allI impI) (auto dest: a)
  next
    case (EvBrowser r now ok b sni cid)
    have used: "sv_used (apply_event V ev s) = sv_used s @ [b]" using EvBrowser by simp
    have new: "EvBrowser r n ok b sni cid \<notin> set evs" for r n ok sni cid
      using assms(2) a(2) EvBrowser by auto
    show ?thesis
      unfolding accepts_ok_def used
      using new EvBrowser by (intro conjI allI impI) (auto dest: a)
  qed (auto simp: accepts_ok_def dest: a)
qed

lemma handleData_inv:
  assumes "phases_ok s" and "sources_ok V evs s" and "EvTunnel ok c (Some f) \<in> set evs" and "f_type f = FData"
  shows "phases_ok (handleData c f s) \<and> sources_ok V evs (handleData c f s)"
proof (cases "f_conn_id f \<noteq> [] \<and> f_conn_id f \<in> set (sv_pending s)")
  case False
  then have "handleData c f s = close_conn c s" by (auto simp: handleData_def)
  then show ?thesis
    using assms(1,2) by (simp add: phases_ok_def sources_ok_def announced_def)
next
  case True
  define cid where "cid = f_conn_id f"
  have h: "handleData c f s = s\<lparr>sv_pending := removeAll cid (sv_pending s), sv_claimed := sv_claimed s @ [(cid, c)]\<rparr>"
    using True by (simp add: handleData_def cid_def)
  have p: "cid \<in> set (sv_pending s)" using True by (simp add: cid_def)
  note ok = phases_okD [OF assms(1)]
  obtain b where b: "(cid, b, None) \<in> set (sv_waiting s)" using ok(4) p by blast
  have one: "h = None" if "(cid, b', h) \<in> set (sv_waiting s)" for b' h
    using eq_key_imp_eq_value [OF ok(1) b that] by simp
  have "phases_ok (handleData c f s)"
    unfolding h phases_ok_def
    using ok(1-3) ok(4-6) [OF p] ok(4-) ok(10,11) [OF b] one
    by (auto simp: not_in_fst)
  moreover have "presents evs cid c" using assms(3,4) by (auto simp: presents_def cid_def)
  then have "sources_ok V evs (handleData c f s)"
    using assms(2) unfolding h sources_ok_def announced_def by auto
  ultimately show ?thesis ..
qed

lemma sources_okD:
  assumes "sources_ok V evs s"
  shows "(cid, b, h) \<in> set (sv_waiting s) \<Longrightarrow> announced V evs s cid b"
    "(cid, b, Some d) \<in> set (sv_waiting s) \<Longrightarrow> presents evs cid d"
    "(cid, d) \<in> set (sv_claimed s) \<Longrightarrow> presents evs cid d"
    "(cid, b, d) \<in> set (sv_pairs s) \<Longrightarrow> announced V evs s cid b"
    "(cid, b, d) \<in> set (sv_pairs s) \<Longrightarrow> presents evs cid d"
  using assms unfolding sources_ok_def by blast+

lemma announced_sent_cong: "sv_sent s' = sv_sent s \<Longrightarrow> announced V evs s' cid b = announced V evs s cid b"
  by (simp add: announced_def)

lemma deliver_inv:
  assumes "phases_ok s" and "sources_ok V evs s" and "(cid, c) \<in> set (sv_claimed s)"
  shows "phases_ok (deliver cid c s) \<and> sources_ok V evs (deliver cid c s)"
proof -
  note ok = phases_okD [OF assms(1)] and src = sources_okD [OF assms(2)]
  let ?cl = "filter (\<lambda>p. p \<noteq> (cid, c)) (sv_claimed s)"
  have d: "distinct (map fst ?cl)" using ok(2) by (simp add: distinct_map_filter)
  have gone: "(cid, e) \<notin> set ?cl" for e
    using eq_key_imp_eq_value [OF ok(2) assms(3), of e] by auto
  show ?thesis
  proof (cases "map_of (sv_waiting s) cid")
    case None
    then have h: "deliver cid c s = close_conn c (s\<lparr>sv_claimed := ?cl\<rparr>)" by (simp add: deliver_def Let_def)
    show ?thesis
      unfolding h phases_ok_def sources_ok_def
      using ok(1,3,4-) d src by (auto simp: announced_def)
  next
    case (Some w)
    then obtain b h0 where w: "w = (b, h0)" "(cid, b, h0) \<in> set (sv_waiting s)"
      using map_of_SomeD by (cases w) fast
    have h: "deliver cid c s = s\<lparr>sv_claimed := ?cl,
        sv_waiting := AList.update cid (b, Some c) (sv_waiting s)\<rparr>"
      using Some w(1) by (simp add: deliver_def Let_def)
    have up: "x \<in> set (AList.update cid (b, Some c) (sv_waiting s)) \<longleftrightarrow>
        x = (cid, b, Some c) \<or> (x \<in> set (sv_waiting s) \<and> fst x \<noteq> cid)" for x
      by (rule in_set_update [OF ok(1)])
    have np: "cid \<notin> set (sv_pending s)" using ok(5) assms(3) by blast
    have "phases_ok (deliver cid c s)"
      unfolding h phases_ok_def
      using ok(3,6-) ok(4,5) np d gone ok(10,11) [OF w(2)] distinct_update [OF ok(1)]
      by (auto simp: up)
    moreover have "sources_ok V evs (deliver cid c s)"
      unfolding h sources_ok_def using src assms(3) w(2) by (auto simp: up announced_def)
    ultimately show ?thesis ..
  qed
qed

lemma wake_inv:
  assumes "phases_ok s" and "sources_ok V evs s"
  shows "phases_ok (wake cid s) \<and> sources_ok V evs (wake cid s)"
proof (cases "\<exists>b d. map_of (sv_waiting s) cid = Some (b, Some d)")
  case False
  then have "wake cid s = s" by (auto simp: wake_def split: option.splits)
  then show ?thesis using assms by simp
next
  case True
  note ok = phases_okD [OF assms(1)] and src = sources_okD [OF assms(2)]
  from True obtain b d where m: "map_of (sv_waiting s) cid = Some (b, Some d)" by blast
  then have w: "(cid, b, Some d) \<in> set (sv_waiting s)" by (rule map_of_SomeD)
  have h: "wake cid s = s\<lparr>sv_waiting := AList.delete cid (sv_waiting s), sv_pairs := sv_pairs s @ [(cid, b, d)]\<rparr>"
    using m by (simp add: wake_def)
  have np: "cid \<notin> set (sv_pending s)"
    using ok(4) [of cid] eq_key_imp_eq_value [OF ok(1) w] by blast
  have nc: "(cid, e) \<notin> set (sv_claimed s)" for e using ok(9) [OF _ w] by blast
  have "phases_ok (wake cid s)"
    unfolding h phases_ok_def
    using ok(2,3,4-) np nc ok(10,11) [OF w] distinct_delete [OF ok(1)]
    by (auto simp: not_in_fst)
  moreover have "sources_ok V evs (wake cid s)"
    unfolding h sources_ok_def using src w by (auto simp: announced_def)
  ultimately show ?thesis ..
qed

lemma expire_inv:
  assumes "phases_ok s" and "sources_ok V evs s"
  shows "phases_ok (expire cid s) \<and> sources_ok V evs (expire cid s)"
proof (cases "map_of (sv_waiting s) cid")
  case None
  then show ?thesis using assms by (simp add: expire_def)
next
  case (Some w)
  note ok = phases_okD [OF assms(1)] and src = sources_okD [OF assms(2)]
  have f: "sv_waiting (expire cid s) = AList.delete cid (sv_waiting s)"
    "sv_pending (expire cid s) = removeAll cid (sv_pending s)"
    "sv_claimed (expire cid s) = sv_claimed s" "sv_pairs (expire cid s) = sv_pairs s"
    "sv_ids (expire cid s) = sv_ids s"
    using Some by (cases w; auto simp: expire_def Let_def split: option.split)+
  have "phases_ok (expire cid s)"
    unfolding f phases_ok_def using ok distinct_delete [OF ok(1)] by auto
  moreover have "sources_ok V evs (expire cid s)"
    unfolding sources_ok_def f using src by (auto simp: announced_def)
  ultimately show ?thesis ..
qed

lemma passthrough_inv:
  assumes "tunnels_ok V evs s" and "pub_ok evs s" and "phases_ok s" and "sources_ok V evs s"
    and "EvBrowser r now ok b so cid \<in> set evs" and "cid \<in> set (sv_ids s)"
    and "cid \<notin> set (sv_pending s)" "\<And>d. (cid, d) \<notin> set (sv_claimed s)"
    "\<And>x. (cid, x) \<notin> set (sv_waiting s)" "\<And>x. (cid, x) \<notin> set (sv_pairs s)"
  defines "s' \<equiv> handlePassthroughConn r now ok b so cid s"
  shows "pub_ok evs s' \<and> phases_ok s' \<and> sources_ok V evs s'"
proof -
  have idle: ?thesis if "\<exists>pub. s' = close_conn b (s\<lparr>sv_pub := pub\<rparr>)" and "pub_ok evs s'"
  proof -
    have "phases_ok s' = phases_ok s" by (rule phases_ok_cong) (use that(1) in auto)
    moreover have "sources_ok V (evs @ []) s'"
      by (rule sources_ok_mono [OF assms(4)]) (use that(1) in auto)
    ultimately show ?thesis using that(2) assms(3) by simp
  qed
  show ?thesis
  proof (cases so)
    case None
    then have "s' = close_conn b (s\<lparr>sv_pub := sv_pub s\<rparr>)" by (simp add: s'_def handlePassthroughConn_def)
    then show ?thesis
      using assms(2) by (intro idle exI [of _ "sv_pub s"]) (simp_all add: pub_ok_def)
  next
    case (Some sni)
    obtain to s1 where r: "routeFor r now sni s = (to, s1)" by fastforce
    from routeFor_spec [OF r assms(1,2)] assms(5) Some
    obtain pub where s1: "s1 = s\<lparr>sv_pub := pub\<rparr>" "pub_ok evs s1"
      and t: "\<And>t. to = Some t \<Longrightarrow> registered V evs (t_conn t) (t_subdomain t) \<and> may_serve evs now sni (t_subdomain t)"
      by blast
    show ?thesis
    proof (cases "to = None \<or> \<not> ok")
      case True
      then have "s' = close_conn b s1"
        using r Some by (auto simp: s'_def handlePassthroughConn_def split: option.split)
      then show ?thesis using s1 by (intro idle) (auto simp: pub_ok_def)
    next
      case False
      then obtain t where to: "to = Some t" and ok by auto
      have h: "s' = (send (t_conn t) (open_frame cid sni) s1)\<lparr>sv_pending := sv_pending s1 @ [cid],
          sv_waiting := sv_waiting s1 @ [(cid, b, None)]\<rparr>"
        using r Some to \<open>ok\<close> by (simp add: s'_def handlePassthroughConn_def open_frame_def)
      note pk = phases_okD [OF assms(3)] and src = sources_okD [OF assms(4)]
      have pend: "\<exists>b'. cid' = cid \<and> b' = b \<or> (cid', b', None) \<in> set (sv_waiting s)"
        if "cid' \<in> set (sv_pending s)" for cid'
        using pk(4) [OF that] by blast
      have "announced V evs s' cid b"
        using assms(5) Some t [OF to] \<open>ok\<close> unfolding announced_def h
        by (intro exI [of _ r] exI [of _ now] exI [of _ sni] exI [of _ "t_conn t"]
            exI [of _ "t_subdomain t"]) auto
      moreover have "announced V evs s' c b'" if "announced V evs s c b'" for c b'
        using announced_mono [OF that, of s' "[]"] by (auto simp: h s1(1))
      ultimately have "sources_ok V evs s'"
        using src unfolding sources_ok_def by (simp add: h s1(1)) blast
      moreover have "phases_ok s'"
        unfolding phases_ok_def h s1(1) using pk(1-3,5-) assms(6-10) pend
        by (auto simp: not_in_fst)
      moreover have "pub_ok evs s'" using s1(2) by (simp add: h pub_ok_def)
      ultimately show ?thesis by blast
    qed
  qed
qed

lemma handleTunnelConn_inv:
  assumes "tunnels_ok V evs s" and "pub_ok evs s" and "phases_ok s" and "sources_ok V evs s"
    and "EvTunnel ok c fo \<in> set evs"
  defines "s' \<equiv> handleTunnelConn V ok c fo s"
  shows "tunnels_ok V evs s' \<and> pub_ok evs s' \<and> phases_ok s' \<and> sources_ok V evs s'"
proof -
  have idle: ?thesis if "sv_tunnels s' = sv_tunnels s" "sv_pub s' = sv_pub s" "sv_waiting s' = sv_waiting s"
    "sv_claimed s' = sv_claimed s" "sv_pairs s' = sv_pairs s" "sv_pending s' = sv_pending s"
    "sv_ids s' = sv_ids s" "set (sv_sent s) \<subseteq> set (sv_sent s')"
    using tunnels_ok_cong [OF that(1)] pub_ok_cong [OF that(2)] phases_ok_cong [OF that(3-7)]
      sources_ok_mono [OF assms(4) that(8,3-5), of "[]"] assms(1-3) by simp
  show ?thesis
  proof (cases "\<exists>f. fo = Some f \<and> (f_type f = FRegister \<or> f_type f = FData)")
    case False
    then show ?thesis
      by (intro idle) (auto simp: s'_def handleTunnelConn_def split: option.splits frame_type.splits)
  next
    case True
    then obtain f where f: "fo = Some f" "f_type f = FRegister \<or> f_type f = FData" by blast
    from f(2) show ?thesis
    proof
      assume t: "f_type f = FRegister"
      have s': "s' = handleRegister V ok c f s" using f(1) t by (simp add: s'_def handleTunnelConn_def)
      have "phases_ok s' = phases_ok s" unfolding s' by (rule phases_ok_cong) simp_all
      moreover have "pub_ok evs s' = pub_ok evs s" unfolding s' by (rule pub_ok_cong) simp
      moreover have "sources_ok V (evs @ []) s'"
        unfolding s' by (rule sources_ok_mono [OF assms(4) handleRegister_sent]) simp_all
      ultimately show ?thesis
        using handleRegister_tunnels [OF assms(1) _ t, of ok c] assms(2,3,5) f(1) s' by simp
    next
      assume t: "f_type f = FData"
      have s': "s' = handleData c f s" using f(1) t by (simp add: s'_def handleTunnelConn_def)
      show ?thesis
        using handleData_inv [OF assms(3,4) _ t, of ok c] assms(1,2,5) f(1)
        by (simp add: s' tunnels_ok_def pub_ok_def)
    qed
  qed
qed

lemma relay_inv_step:
  assumes "relay_inv V evs s" and "enabled ev s"
  shows "relay_inv V (evs @ [ev]) (apply_event V ev s)"
proof -
  define evs' where "evs' = evs @ [ev]"
  have i: "tunnels_ok V evs' s" "pub_ok evs' s" "phases_ok s" "sources_ok V evs' s"
    using assms(1) sources_ok_mono [of V evs s s "[ev]"] tunnels_ok_mono [of V evs s "[ev]"]
      pub_ok_mono [of evs s "[ev]"]
    by (simp_all add: relay_inv_def evs'_def)
  have ev: "ev \<in> set evs'" by (simp add: evs'_def)
  let ?goal = "\<lambda>s'. tunnels_ok V evs' s' \<and> pub_ok evs' s' \<and> phases_ok s' \<and> sources_ok V evs' s'"
  have "?goal (apply_event V ev s)"
  proof (cases ev)
    case (EvTunnel ok c fo)
    let ?s = "s\<lparr>sv_used := sv_used s @ [c]\<rparr>"
    have "?goal ?s" using i by (simp add: tunnels_ok_def pub_ok_def phases_ok_def sources_ok_def announced_def)
    then show ?thesis using handleTunnelConn_inv [of V evs' ?s ok c fo] ev EvTunnel by simp
  next
    case (EvRetire t)
    then show ?thesis
      using i retireTunnel_tunnels [OF i(1), of t]
      by (simp add: pub_ok_def phases_ok_def sources_ok_def announced_def)
  next
    case (EvBrowser r now ok b so cid)
    let ?s = "s\<lparr>sv_used := sv_used s @ [b], sv_ids := sv_ids s @ [cid]\<rparr>"
    have g: "?goal ?s"
      using i by (auto simp: tunnels_ok_def pub_ok_def phases_ok_def sources_ok_def announced_def)
    have new: "cid \<notin> set (sv_ids s)" using assms(2) EvBrowser by simp
    note pk = phases_okD [OF i(3)]
    have "cid \<notin> set (sv_pending s)" "(cid, d) \<notin> set (sv_claimed s)" "(cid, x) \<notin> set (sv_waiting s)"
      "(cid, y) \<notin> set (sv_pairs s)" for d x y
      using new pk(4) pk(7) pk(10) pk(12) by blast+
    then show ?thesis
      using passthrough_inv [of V evs' ?s r now ok b so cid] g ev EvBrowser
      by (simp add: tunnels_ok_def)
  next
    case (EvDeliver cid c)
    then show ?thesis
      using deliver_inv [OF i(3,4), of cid c] i(1,2) assms(2) by (simp add: tunnels_ok_def pub_ok_def)
  next
    case (EvWake cid)
    then show ?thesis using wake_inv [OF i(3,4), of cid] i(1,2) by (simp add: tunnels_ok_def pub_ok_def)
  next
    case (EvExpire cid)
    then show ?thesis using expire_inv [OF i(3,4), of cid] i(1,2) by (simp add: tunnels_ok_def pub_ok_def)
  qed
  then show ?thesis
    using accepts_ok_step [of evs s ev V] assms by (simp add: relay_inv_def evs'_def)
qed

lemma relay_reach_inv: "relay_reach V evs s \<Longrightarrow> relay_inv V evs s"
proof (induction rule: relay_reach.induct)
  case start
  show ?case
    by (simp add: relay_inv_def NewServer_def tunnels_ok_def keyed_def pub_ok_def phases_ok_def
        sources_ok_def accepts_ok_def)
next
  case (step evs s ev)
  then show ?case by (blast intro: relay_inv_step)
qed

section \<open>Properties of every reachable state\<close>


text \<open>C21: every splice is right. A browser and a data connection that the relay splices belong to
  one identifier that no other splice uses; the data connection presented it, and the relay had
  told it only to a connection registered for a domain that may serve the name the browser asked
  for. No browser and no data connection is spliced twice.\<close>

theorem relay_splices_are_right:
  assumes "relay_reach V evs s" and "(cid, b, d) \<in> set (sv_pairs s)"
  shows "announced V evs s cid b \<and> presents evs cid d \<and>
    ((cid', b', d') \<in> set (sv_pairs s) \<longrightarrow> b' = b \<or> d' = d \<or> cid' = cid \<longrightarrow> (cid', b', d') = (cid, b, d))"
proof -
  have i: "phases_ok s" "sources_ok V evs s" "accepts_ok evs s"
    using relay_reach_inv [OF assms(1)] by (simp_all add: relay_inv_def)
  note src = sources_okD(4,5) [OF i(2)] and acc = accepts_okD(3,4) [OF i(3)]
  have same: "(cid', b', d') = (cid, b, d)"
    if p: "(cid', b', d') \<in> set (sv_pairs s)" and e: "b' = b \<or> d' = d \<or> cid' = cid"
  proof -
    have "cid' = cid"
      using e src [OF p] src [OF assms(2)] acc unfolding announced_def presents_def by (metis option.inject)
    then show ?thesis using eq_key_imp_eq_value [OF phases_okD(3) [OF i(1)]] p assms(2) by blast
  qed
  then show ?thesis using src [OF assms(2)] by blast
qed

text \<open>A run: a server registers \<open>b.io\<close>, a browser asks for \<open>x.b.io\<close>, the server dials back, the two
  are spliced.\<close>

definition sample_valid :: "string \<Rightarrow> string \<Rightarrow> bool" where
  "sample_valid tok sub \<longleftrightarrow> tok = ''t'' \<and> sub = ''b.io''"

definition sample_register :: event where
  "sample_register = EvTunnel True 1 (Some ((empty_frame FRegister)\<lparr>f_token := ''t'', f_subdomain := '' b.io ''\<rparr>))"

definition sample_browser :: event where
  "sample_browser = EvBrowser None 0 True 2 (Some ''x.b.io'') ''id''"

definition sample_data :: event where
  "sample_data = EvTunnel True 3 (Some ((empty_frame FData)\<lparr>f_conn_id := ''id''\<rparr>))"

definition sample_tunnel :: tunnel where "sample_tunnel = \<lparr>t_subdomain = ''b.io'', t_conn = 1\<rparr>"

lemmas sample_simps = sample_valid_def sample_register_def sample_browser_def sample_data_def sample_tunnel_def
  NewServer_def handleTunnelConn_def handleRegister_def handleData_def handlePassthroughConn_def
  deliver_def wake_def Let_def empty_frame_def send_def close_conn_def routeFor_def tunnelForSNI_def
  sni_key_def owns_sni_def to_lower_def lower_char_def trim_space_def trim_right_def is_space_def
  trim_suffix_def suffix_to_prefix

lemma sample_registered:
  "relay_reach sample_valid [sample_register] (apply_event sample_valid sample_register NewServer)"
  "sv_tunnels (apply_event sample_valid sample_register NewServer) = [(''b.io'', sample_tunnel)]"
  "sv_used (apply_event sample_valid sample_register NewServer) = [1]"
  "sv_ids (apply_event sample_valid sample_register NewServer) = []"
  using relay_reach.step [OF relay_reach.start, of sample_register sample_valid]
  by (simp_all add: sample_simps)


lemma sample_spliced:
  "\<exists>evs s. relay_reach sample_valid evs s \<and> sv_pairs s = [(''id'', 2, 3)]"
proof -
  let ?ap = "apply_event sample_valid"
  let ?s1 = "?ap sample_register NewServer"
  let ?s2 = "?ap sample_browser ?s1"
  let ?s3 = "?ap sample_data ?s2"
  let ?s4 = "?ap (EvDeliver ''id'' 3) ?s3"
  have s1: "?s1 = NewServer\<lparr>sv_tunnels := [(''b.io'', sample_tunnel)], sv_sent := [(1, empty_frame FAck)], sv_used := [1]\<rparr>"
    by (simp add: sample_simps)
  have s2: "?s2 = ?s1\<lparr>sv_used := [1, 2], sv_ids := [''id''], sv_pending := [''id''],
      sv_waiting := [(''id'', 2, None)], sv_sent := [(1, empty_frame FAck), (1, open_frame ''id'' ''x.b.io'')]\<rparr>"
    unfolding s1 by (simp add: sample_simps open_frame_def)
  have s3: "?s3 = ?s2\<lparr>sv_used := [1, 2, 3], sv_pending := [], sv_claimed := [(''id'', 3)]\<rparr>"
    unfolding s2 s1 by (simp add: sample_simps)
  have s4: "?s4 = ?s3\<lparr>sv_claimed := [], sv_waiting := [(''id'', 2, Some 3)]\<rparr>"
    unfolding s3 s2 s1 by (simp add: sample_simps)
  have r1: "relay_reach sample_valid [sample_register] ?s1" by (rule sample_registered(1))
  have r2: "relay_reach sample_valid ([sample_register] @ [sample_browser]) ?s2"
    by (rule relay_reach.step [OF r1]) (simp add: sample_browser_def sample_registered(3,4))
  have r3: "relay_reach sample_valid (([sample_register] @ [sample_browser]) @ [sample_data]) ?s3"
    by (rule relay_reach.step [OF r2]) (simp add: s2 sample_data_def)
  have r4: "relay_reach sample_valid ((([sample_register] @ [sample_browser]) @ [sample_data]) @ [EvDeliver ''id'' 3]) ?s4"
    by (rule relay_reach.step [OF r3]) (unfold s3, simp)
  have "relay_reach sample_valid (((([sample_register] @ [sample_browser]) @ [sample_data]) @ [EvDeliver ''id'' 3])
      @ [EvWake ''id'']) (?ap (EvWake ''id'') ?s4)"
    by (rule relay_reach.step [OF r4]) (unfold s4, simp)
  moreover have "sv_pairs (?ap (EvWake ''id'') ?s4) = [(''id'', 2, 3)]"
    unfolding apply_event.simps(5) unfolding s4 unfolding s3 unfolding s2 unfolding s1
    by (simp add: wake_def NewServer_def)
  ultimately show ?thesis by blast
qed

lemma relay_splices_are_right_witness:
  "\<exists>evs s. relay_reach sample_valid evs s \<and> announced sample_valid evs s ''id'' 2 \<and> presents evs ''id'' 3"
proof -
  obtain evs s where r: "relay_reach sample_valid evs s" "sv_pairs s = [(''id'', 2, 3)]"
    using sample_spliced by blast
  then show ?thesis using relay_splices_are_right [OF r(1), of "''id''" 2 3] by auto
qed

text \<open>The life time of a cached resolution.\<close>

lemma pubCache_hit_iff:
  "fst (pubCacheGet host later (pubCachePut host sub now pub)) =
     (if later \<le> now + publicHostTTL then Some sub else None)"
  by (simp add: pubCacheGet_def pubCachePut_def update_conv')

text \<open>When the acknowledgement cannot be written, the handler closes the connection and returns
  without retiring the tunnel: the domain stays mapped to a closed connection, and a live channel
  it superseded is closed as well.\<close>

lemma failed_ack_leaves_dead_tunnel:
  assumes "to_lower (trim_space (f_subdomain f)) = sub" and "sub \<noteq> []" and "f_token f \<noteq> []"
    and "V (f_token f) sub"
  shows "map_of (sv_tunnels (handleRegister V False c f s)) sub = Some \<lparr>t_subdomain = sub, t_conn = c\<rparr> \<and>
    c \<in> set (sv_closed (handleRegister V False c f s))"
  using assms by (auto simp: handleRegister_def Let_def close_conn_def update_conv' split: option.split)

end
