(* ===== verification/Docker_Subnets.thy ===== *)
theory Docker_Subnets
  imports Prelude
begin

text \<open>
  The subnet allocator (\<open>internal/docker/subnets.go\<close>): block sizes per role, the labels of a
  network, the search for the lowest free block, the fallback when the host's routes cover the
  base, and the collection of what is taken. An IPv4 network is its base address as a number
  below \<open>2 ^ 32\<close> and its prefix length; the code's 64-bit sums stay below \<open>2 ^ 34\<close>, so they are
  numbers here. The CIDR parser of package \<open>net\<close> is an argument.
\<close>

section \<open>The code\<close>

record ip_net =
  n_addr :: nat
  n_ones :: nat

definition net_size :: "ip_net \<Rightarrow> nat" where "net_size n = 2 ^ (32 - n_ones n)"

text \<open>\<open>n.Contains(ip)\<close>.\<close>

definition net_contains :: "ip_net \<Rightarrow> nat \<Rightarrow> bool" where
  "net_contains n a \<longleftrightarrow> a div net_size n = n_addr n div net_size n"

datatype role = RoleStage | RoleAgent | RolePlatform | RoleInfra | RoleOther string

fun role_name :: "role \<Rightarrow> string" where
  "role_name RoleStage = ''stage''"
| "role_name RoleAgent = ''agent''"
| "role_name RolePlatform = ''platform''"
| "role_name RoleInfra = ''infra''"
| "role_name (RoleOther s) = s"

fun networkPrefixLen :: "role \<Rightarrow> nat" where
  "networkPrefixLen RolePlatform = 20"
| "networkPrefixLen RoleAgent = 28"
| "networkPrefixLen RoleInfra = 24"
| "networkPrefixLen _ = 22"

record network_spec =
  ns_name :: string
  ns_role :: role
  ns_workspace :: string
  ns_stage :: string

definition Labels :: "network_spec \<Rightarrow> string list" where
  "Labels s =
     [''bitswan.managed=true''] @
     (if role_name (ns_role s) \<noteq> [] then [''bitswan.role='' @ role_name (ns_role s)] else []) @
     (if ns_workspace s \<noteq> [] then [''bitswan.workspace='' @ ns_workspace s] else []) @
     (if ns_stage s \<noteq> [] then [''bitswan.stage='' @ ns_stage s] else [])"

datatype subnet_err = BaseNotCidr | DoesNotFit | TooSmall | NoFreeBlock

definition DefaultSubnetBase :: string where "DefaultSubnetBase = ''10.128.0.0/12''"

text \<open>\<open>SubnetBase\<close>: \<open>env\<close> is the variable's value; the parser answers \<open>None\<close> for a malformed range
  and for one that is not IPv4.\<close>

definition SubnetBase :: "(string \<Rightarrow> ip_net option) \<Rightarrow> string \<Rightarrow> subnet_err + ip_net" where
  "SubnetBase parse_cidr env =
     (let raw0 = trim_space env;
          raw = (if raw0 = [] then DefaultSubnetBase else raw0)
      in case parse_cidr raw of None \<Rightarrow> Inl BaseNotCidr | Some base \<Rightarrow> Inr base)"

definition net_overlaps :: "ip_net \<Rightarrow> ip_net \<Rightarrow> bool" where
  "net_overlaps n t \<longleftrightarrow> net_contains n (n_addr t) \<or> net_contains t (n_addr n)"

text \<open>The first range that intersects; a nil entry is skipped.\<close>

fun firstOverlap :: "ip_net \<Rightarrow> ip_net option list \<Rightarrow> ip_net option" where
  "firstOverlap n [] = None"
| "firstOverlap n (None # ts) = firstOverlap n ts"
| "firstOverlap n (Some t # ts) = (if net_overlaps n t then Some t else firstOverlap n ts)"

function alloc_loop :: "nat \<Rightarrow> nat \<Rightarrow> nat \<Rightarrow> ip_net option list \<Rightarrow> nat \<Rightarrow> subnet_err + ip_net" where
  "alloc_loop prefixLen step end_addr taken start =
     (if start + step - 1 \<le> end_addr then
        let candidate = \<lparr>n_addr = start, n_ones = prefixLen\<rparr> in
        case firstOverlap candidate taken of
          None \<Rightarrow> Inr candidate
        | Some clash \<Rightarrow>
            let clashEnd = n_addr clash + 2 ^ (32 - n_ones clash) - 1;
                next = (clashEnd div step + 1) * step
            in if next \<le> start then Inl NoFreeBlock
               else alloc_loop prefixLen step end_addr taken next
      else Inl NoFreeBlock)"
  by pat_completeness auto

termination
  by (relation "measure (\<lambda>(p, step, end_addr, taken, start). end_addr + 2 - start)") auto

declare alloc_loop.simps [simp del]

definition allocateSubnet :: "ip_net \<Rightarrow> nat \<Rightarrow> ip_net option list \<Rightarrow> subnet_err + ip_net" where
  "allocateSubnet base prefixLen taken =
     (if prefixLen < n_ones base then Inl DoesNotFit
      else if prefixLen > 30 then Inl TooSmall
      else
        let step = 2 ^ (32 - prefixLen);
            first = n_addr base;
            end_addr = first + 2 ^ (32 - n_ones base) - 1
        in alloc_loop prefixLen step end_addr taken first)"

text \<open>The result with the flag that the warning about an overlapping route is printed.\<close>

definition allocateWithin ::
    "ip_net \<Rightarrow> nat \<Rightarrow> ip_net option list \<Rightarrow> ip_net option list \<Rightarrow> (subnet_err + ip_net) \<times> bool" where
  "allocateWithin base prefixLen docker routes =
     (case allocateSubnet base prefixLen (docker @ routes) of
        Inr subnet \<Rightarrow> (Inr subnet, False)
      | Inl _ \<Rightarrow>
          (case allocateSubnet base prefixLen docker of
             Inl e \<Rightarrow> (Inl e, False)
           | Inr subnet \<Rightarrow> (Inr subnet, 0 < length routes \<and> firstOverlap subnet routes \<noteq> None)))"

text \<open>\<open>strings.Fields\<close>.\<close>

fun fields_acc :: "string \<Rightarrow> string \<Rightarrow> string list" where
  "fields_acc [] w = (if w = [] then [] else [rev w])"
| "fields_acc (c # cs) w =
     (if is_space c then (if w = [] then fields_acc cs [] else rev w # fields_acc cs [])
      else fields_acc cs (c # w))"

definition str_fields :: "string \<Rightarrow> string list" where
  "str_fields s = fields_acc s []"

definition parseCIDRs :: "(string \<Rightarrow> ip_net option) \<Rightarrow> string list \<Rightarrow> ip_net option list" where
  "parseCIDRs parse_cidr raw = filter (\<lambda>n. n \<noteq> None) (map (\<lambda>r. parse_cidr (trim_space r)) raw)"

text \<open>\<open>existingSubnets\<close>: \<open>ls\<close> is the output of \<open>docker network ls -q\<close> (\<open>None\<close> when it fails) and
  \<open>inspect\<close> what \<open>docker network inspect\<close> printed for the ids, whatever its exit code.\<close>

definition existingSubnets ::
    "(string \<Rightarrow> ip_net option) \<Rightarrow> string option \<Rightarrow> (string list \<Rightarrow> string) \<Rightarrow> ip_net option list" where
  "existingSubnets parse_cidr ls inspect =
     (case ls of
        None \<Rightarrow> []
      | Some ids \<Rightarrow>
          let fields = str_fields ids in
          if length fields = 0 then [] else parseCIDRs parse_cidr (str_fields (inspect fields)))"

definition nl :: char where "nl = char_of (10 :: nat)"

definition route_dest :: "string \<Rightarrow> string option" where
  "route_dest line =
     (case str_fields line of
        [] \<Rightarrow> None
      | dest # _ \<Rightarrow>
          if dest = ''default'' \<or> dest = ''0.0.0.0/0'' then None
          else Some (if \<not> str_contains dest ''/'' then dest @ ''/32'' else dest))"

definition hostRoutes :: "(string \<Rightarrow> ip_net option) \<Rightarrow> string option \<Rightarrow> ip_net option list" where
  "hostRoutes parse_cidr out =
     (case out of
        None \<Rightarrow> []
      | Some text \<Rightarrow>
          parseCIDRs parse_cidr (map the (filter (\<lambda>d. d \<noteq> None) (map route_dest (split_on nl text)))))"

definition nextFreeSubnet ::
    "(string \<Rightarrow> ip_net option) \<Rightarrow> string \<Rightarrow> string option \<Rightarrow> (string list \<Rightarrow> string) \<Rightarrow> string option \<Rightarrow>
     role \<Rightarrow> ip_net option list \<Rightarrow> (subnet_err + ip_net) \<times> bool" where
  "nextFreeSubnet parse_cidr env ls inspect routes role avoid =
     (case SubnetBase parse_cidr env of
        Inl e \<Rightarrow> (Inl e, False)
      | Inr base \<Rightarrow>
          let taken = existingSubnets parse_cidr ls inspect @ avoid
          in allocateWithin base (networkPrefixLen role) taken (hostRoutes parse_cidr routes))"

section \<open>Networks as address ranges\<close>

text \<open>What \<open>net.ParseCIDR\<close> returns: a prefix of at most 32 bits, host bits zero.\<close>

definition wf_net :: "ip_net \<Rightarrow> bool" where
  "wf_net n \<longleftrightarrow> n_ones n \<le> 32 \<and> n_addr n mod net_size n = 0 \<and> n_addr n < 2 ^ 32"

definition wf_nets :: "ip_net option list \<Rightarrow> bool" where
  "wf_nets ts \<longleftrightarrow> list_all (\<lambda>t. case t of None \<Rightarrow> True | Some n \<Rightarrow> wf_net n) ts"

lemma net_size_pos [simp]: "0 < net_size n"
  by (simp add: net_size_def)

lemma div_eq_iff_range:
  fixes S :: nat
  assumes "0 < S"
  shows "a div S = k \<longleftrightarrow> k * S \<le> a \<and> a < k * S + S"
proof
  assume "a div S = k"
  moreover have "a div S * S \<le> a" by simp
  moreover have "a < a div S * S + S"
    using mod_less_divisor [OF assms, of a] div_mult_mod_eq [of a S] by linarith
  ultimately show "k * S \<le> a \<and> a < k * S + S" by blast
next
  assume "k * S \<le> a \<and> a < k * S + S"
  then show "a div S = k" by (intro div_nat_eqI) (auto simp: algebra_simps)
qed

lemma lt_next_multiple: "0 < S \<Longrightarrow> a < (a div S + 1) * S" for a S :: nat
  using div_eq_iff_range [of S a "a div S"] by simp

lemma multiple_of: "a mod S = 0 \<Longrightarrow> \<exists>k. a = k * S" for a S :: nat
  by (metis add_0_right div_mult_mod_eq)

lemma net_contains_range:
  assumes "wf_net n"
  shows "net_contains n a \<longleftrightarrow> n_addr n \<le> a \<and> a < n_addr n + net_size n"
proof -
  obtain k where k: "n_addr n = k * net_size n"
    using multiple_of [of "n_addr n" "net_size n"] assms by (metis wf_net_def)
  have "n_addr n div net_size n = k" by (simp add: k)
  then show ?thesis
    using div_eq_iff_range [of "net_size n" a k] by (simp add: net_contains_def k [symmetric])
qed

lemma net_overlaps_iff:
  assumes "wf_net n" "wf_net t"
  shows "net_overlaps n t \<longleftrightarrow> (\<exists>a. net_contains n a \<and> net_contains t a)"
proof
  assume "net_overlaps n t"
  then show "\<exists>a. net_contains n a \<and> net_contains t a"
    by (auto simp: net_overlaps_def net_contains_def)
next
  assume "\<exists>a. net_contains n a \<and> net_contains t a"
  then show "net_overlaps n t"
    using assms by (auto simp: net_overlaps_def net_contains_range)
qed

lemma wf_nets_Cons [simp]:
  "wf_nets (t # ts) \<longleftrightarrow> (case t of None \<Rightarrow> True | Some n \<Rightarrow> wf_net n) \<and> wf_nets ts"
  by (simp add: wf_nets_def)

lemma wf_nets_append [simp]: "wf_nets (xs @ ys) \<longleftrightarrow> wf_nets xs \<and> wf_nets ys"
  by (simp add: wf_nets_def)

lemma wf_nets_member: "wf_nets ts \<Longrightarrow> Some t \<in> set ts \<Longrightarrow> wf_net t"
  by (auto simp: wf_nets_def list_all_iff)

lemma firstOverlap_None: "firstOverlap n ts = None \<longleftrightarrow> (\<forall>t. Some t \<in> set ts \<longrightarrow> \<not> net_overlaps n t)"
  by (induction n ts rule: firstOverlap.induct) auto

lemma firstOverlap_Some: "firstOverlap n ts = Some t \<Longrightarrow> Some t \<in> set ts \<and> net_overlaps n t"
  by (induction n ts rule: firstOverlap.induct) (auto split: if_splits)

text \<open>Whether the block of prefix length \<open>p\<close> at \<open>a\<close> is free.\<close>

definition block :: "nat \<Rightarrow> nat \<Rightarrow> ip_net" where "block p a = \<lparr>n_addr = a, n_ones = p\<rparr>"

definition block_free :: "nat \<Rightarrow> ip_net option list \<Rightarrow> nat \<Rightarrow> bool" where
  "block_free p taken a \<longleftrightarrow> firstOverlap (block p a) taken = None"

lemma net_size_block [simp]: "net_size (block p a) = 2 ^ (32 - p)"
  by (simp add: net_size_def block_def)

lemma n_addr_block [simp]: "n_addr (block p a) = a"
  by (simp add: block_def)

lemma wf_block: "p \<le> 32 \<Longrightarrow> a mod 2 ^ (32 - p) = 0 \<Longrightarrow> a < 2 ^ 32 \<Longrightarrow> wf_net (block p a)"
  by (simp add: wf_net_def) (simp add: block_def)

text \<open>What the skip relies on: after a clash at \<open>start\<close>, every aligned block before the computed
  continuation clashes too.\<close>

lemma skip_only_taken:
  fixes S :: nat
  assumes S: "S = 2 ^ (32 - p)" "p \<le> 32" and t: "wf_net t" and start: "start mod S = 0" "start < 2 ^ 32"
    and ov: "net_overlaps (block p start) t"
    and c: "start \<le> c" "c < ((n_addr t + net_size t - 1) div S + 1) * S" "c mod S = 0" "c < 2 ^ 32"
  shows "net_overlaps (block p c) t"
proof (cases "c = start")
  case False
  have pos: "0 < S" using S by simp
  obtain k where k: "c = k * S" using multiple_of [OF c(3)] by metis
  obtain m where m: "start = m * S" using multiple_of [OF start(1)] by metis
  let ?e = "n_addr t + net_size t - 1"
  have wf: "wf_net (block p start)" "wf_net (block p c)"
    using S start c by (auto intro: wf_block)
  have e: "n_addr t \<le> ?e" "?e < n_addr t + net_size t" using net_size_pos [of t] by linarith+
  from ov obtain a where a: "start \<le> a" "a < start + S" "n_addr t \<le> a"
    using net_overlaps_iff [OF wf(1) t] S by (auto simp: net_contains_range wf t)
  have "k * S < (?e div S + 1) * S" using c(2) k by simp
  then have "k < ?e div S + 1" by (simp only: mult_less_cancel2)
  then have "k * S \<le> ?e" using pos by (metis Suc_eq_plus1 less_Suc_eq_le less_eq_div_iff_mult_less_eq)
  moreover have "m < k" using False c(1) k m pos by (simp add: order_le_less)
  then have "m * S + S \<le> k * S" by (metis Suc_leI add.commute mult_Suc mult_le_mono1)
  then have "n_addr t \<le> c" using a(2,3) k m by linarith
  moreover have "c \<le> ?e" using \<open>k * S \<le> ?e\<close> k by simp
  then have "c < n_addr t + net_size t" using e(2) by linarith
  ultimately have "net_contains t c" by (simp add: net_contains_range [OF t])
  then show ?thesis by (simp add: net_overlaps_def)
qed (use ov in simp)

section \<open>The search\<close>

text \<open>The aligned blocks of prefix length \<open>p\<close> inside a base.\<close>

definition block_in :: "ip_net \<Rightarrow> nat \<Rightarrow> nat \<Rightarrow> bool" where
  "block_in base p a \<longleftrightarrow> a mod 2 ^ (32 - p) = 0 \<and> n_addr base \<le> a \<and>
     a + 2 ^ (32 - p) \<le> n_addr base + net_size base"

lemma clash_end_ge:
  assumes "wf_net t" and "p \<le> 32" "start mod 2 ^ (32 - p) = 0" "start < 2 ^ 32"
    and "net_overlaps (block p start) t"
  shows "start < ((n_addr t + net_size t - 1) div 2 ^ (32 - p) + 1) * 2 ^ (32 - p)"
proof -
  have wf: "wf_net (block p start)" using assms(2-4) by (rule wf_block)
  obtain a where a: "start \<le> a" "a < n_addr t + net_size t"
    using assms(1,5) net_overlaps_iff [OF wf assms(1)] by (auto simp: net_contains_range wf)
  let ?e = "n_addr t + net_size t - 1" and ?S = "2 ^ (32 - p) :: nat"
  have "?e < (?e div ?S + 1) * ?S" by (rule lt_next_multiple) simp
  then show ?thesis using a by linarith
qed

text \<open>The result of a search from \<open>start\<close>: the lowest free aligned block up to \<open>end_addr\<close>, or none.\<close>

definition search_result ::
    "nat \<Rightarrow> nat \<Rightarrow> ip_net option list \<Rightarrow> nat \<Rightarrow> subnet_err + ip_net \<Rightarrow> bool" where
  "search_result p end_addr taken start r \<longleftrightarrow>
     (let S = 2 ^ (32 - p) in
      case r of
        Inr n \<Rightarrow> (\<exists>a. n = block p a \<and> a mod S = 0 \<and> start \<le> a \<and> a + S - 1 \<le> end_addr \<and> block_free p taken a \<and>
          (\<forall>c. c mod S = 0 \<longrightarrow> start \<le> c \<longrightarrow> c < a \<longrightarrow> \<not> block_free p taken c))
      | Inl e \<Rightarrow> e = NoFreeBlock \<and>
          (\<forall>c. c mod S = 0 \<longrightarrow> start \<le> c \<longrightarrow> c + S - 1 \<le> end_addr \<longrightarrow> \<not> block_free p taken c))"

lemma search_result_extend:
  assumes "search_result p end_addr taken nxt r" and "start \<le> nxt" and "end_addr < 2 ^ 32"
    and skip: "\<And>c. c mod 2 ^ (32 - p) = 0 \<Longrightarrow> start \<le> c \<Longrightarrow> c < nxt \<Longrightarrow> c < 2 ^ 32 \<Longrightarrow> \<not> block_free p taken c"
  shows "search_result p end_addr taken start r"
proof (cases r)
  case (Inl e)
  have "\<not> block_free p taken c"
    if "c mod 2 ^ (32 - p) = 0" "start \<le> c" "c + 2 ^ (32 - p) - 1 \<le> end_addr" for c
  proof (cases "c < nxt")
    case True
    have "(0::nat) < 2 ^ (32 - p)" by simp
    then have "c < 2 ^ 32" using that(3) assms(3) by linarith
    then show ?thesis using skip [OF that(1,2) True] by simp
  next
    case False
    then show ?thesis using assms(1) Inl that by (simp add: search_result_def Let_def)
  qed
  then show ?thesis using assms(1) Inl by (simp add: search_result_def Let_def)
next
  case (Inr n)
  from assms(1) Inr obtain a where a: "n = block p a" "a mod 2 ^ (32 - p) = 0" "nxt \<le> a"
    "a + 2 ^ (32 - p) - 1 \<le> end_addr" "block_free p taken a"
    "\<forall>c. c mod 2 ^ (32 - p) = 0 \<longrightarrow> nxt \<le> c \<longrightarrow> c < a \<longrightarrow> \<not> block_free p taken c"
    by (auto simp: search_result_def Let_def)
  have "(0::nat) < 2 ^ (32 - p)" by simp
  then have "a < 2 ^ 32" using a(4) assms(3) by linarith
  then have "\<not> block_free p taken c" if "c mod 2 ^ (32 - p) = 0" "start \<le> c" "c < a" for c
    using skip a(6) that by (cases "c < nxt") auto
  then show ?thesis
    using a(1-5) assms(2) Inr unfolding search_result_def Let_def by auto
qed

lemma alloc_loop_spec:
  assumes "wf_nets taken" and "p \<le> 32" and "end_addr < 2 ^ 32"
  shows "start mod 2 ^ (32 - p) = 0 \<Longrightarrow>
    search_result p end_addr taken start (alloc_loop p (2 ^ (32 - p)) end_addr taken start)"
proof (induction "end_addr + 2 - start" arbitrary: start rule: less_induct)
  case less
  let ?S = "2 ^ (32 - p) :: nat"
  have pos: "0 < ?S" by simp
  show ?case
  proof (cases "start + ?S - 1 \<le> end_addr")
    case False
    then have "\<not> c + ?S - 1 \<le> end_addr" if "start \<le> c" for c using that by linarith
    then show ?thesis using False by (subst alloc_loop.simps) (simp add: search_result_def Let_def)
  next
    case True
    then have lt: "start < 2 ^ 32" using assms(3) pos by linarith
    show ?thesis
    proof (cases "firstOverlap (block p start) taken")
      case None
      then have "alloc_loop p ?S end_addr taken start = Inr (block p start)"
        using True by (subst alloc_loop.simps) (simp add: Let_def block_def)
      moreover have "search_result p end_addr taken start (Inr (block p start))"
        unfolding search_result_def Let_def sum.case
        using None True less.prems by (intro exI [of _ start]) (simp add: block_free_def)
      ultimately show ?thesis by simp
    next
      case (Some t)
      have t: "wf_net t" "net_overlaps (block p start) t" "Some t \<in> set taken"
        using firstOverlap_Some [OF Some] wf_nets_member [OF assms(1)] by auto
      define nxt where "nxt = ((n_addr t + net_size t - 1) div ?S + 1) * ?S"
      have nxt: "start < nxt" "nxt mod ?S = 0"
        using clash_end_ge [OF t(1) assms(2) less.prems lt t(2)] by (simp_all add: nxt_def)
      have eq: "alloc_loop p ?S end_addr taken start = alloc_loop p ?S end_addr taken nxt"
        using True Some nxt(1) by (subst alloc_loop.simps)
          (simp add: block_def [symmetric] nxt_def net_size_def Let_def)
      have skip: "\<not> block_free p taken c" if "c mod ?S = 0" "start \<le> c" "c < nxt" "c < 2 ^ 32" for c
        using skip_only_taken [OF refl assms(2) t(1) less.prems lt t(2) that(2) that(3)[unfolded nxt_def] that(1,4)]
          t(3) by (auto simp: block_free_def firstOverlap_None)
      have "end_addr + 2 - nxt < end_addr + 2 - start" using True nxt(1) pos by linarith
      note IH = less.hyps [OF this nxt(2)]
      show ?thesis
        unfolding eq by (rule search_result_extend [OF IH less_imp_le [OF nxt(1)] assms(3) skip])
    qed
  qed
qed

lemma base_aligned:
  assumes "wf_net base" and "n_ones base \<le> p"
  shows "n_addr base mod 2 ^ (32 - p) = 0"
proof -
  have "(2::nat) ^ (32 - p) dvd 2 ^ (32 - n_ones base)" using assms(2) by (intro le_imp_power_dvd) simp
  moreover have "2 ^ (32 - n_ones base) dvd n_addr base"
    using assms(1) by (simp add: wf_net_def net_size_def mod_eq_0_iff_dvd)
  ultimately show ?thesis by (metis dvd_trans mod_0_imp_dvd dvd_imp_mod_0)
qed

lemma base_end:
  assumes "wf_net base"
  shows "n_addr base + net_size base \<le> 2 ^ 32"
proof -
  obtain k where k: "n_addr base = k * net_size base"
    using multiple_of [of "n_addr base" "net_size base"] assms by (metis wf_net_def)
  have s: "(2::nat) ^ 32 = 2 ^ n_ones base * net_size base"
    using assms by (simp add: wf_net_def net_size_def flip: power_add)
  have "k * net_size base < 2 ^ n_ones base * net_size base" using assms k s by (metis wf_net_def)
  then have "k < 2 ^ n_ones base" by (simp only: mult_less_cancel2)
  then have "(k + 1) * net_size base \<le> 2 ^ n_ones base * net_size base" by (intro mult_le_mono1) simp
  then show ?thesis using k s by simp
qed

lemma block_in_range:
  assumes "wf_net base"
  shows "block_in base p a \<longleftrightarrow> a mod 2 ^ (32 - p) = 0 \<and> n_addr base \<le> a \<and>
    a + 2 ^ (32 - p) - 1 \<le> n_addr base + 2 ^ (32 - n_ones base) - 1"
proof -
  have "(0::nat) < 2 ^ (32 - p)" "0 < net_size base" by simp_all
  then have "a + 2 ^ (32 - p) \<le> n_addr base + net_size base \<longleftrightarrow>
      a + 2 ^ (32 - p) - 1 \<le> n_addr base + net_size base - 1" by linarith
  then show ?thesis by (simp add: block_in_def net_size_def)
qed

lemma allocateSubnet_spec:
  assumes "wf_net base" and "wf_nets taken" and "n_ones base \<le> p" and "p \<le> 30"
  shows "case allocateSubnet base p taken of
      Inr n \<Rightarrow> (\<exists>a. n = block p a \<and> block_in base p a \<and> block_free p taken a \<and>
        (\<forall>c. block_in base p c \<longrightarrow> c < a \<longrightarrow> \<not> block_free p taken c))
    | Inl e \<Rightarrow> e = NoFreeBlock \<and> (\<forall>c. block_in base p c \<longrightarrow> \<not> block_free p taken c)"
proof -
  let ?e = "n_addr base + 2 ^ (32 - n_ones base) - 1"
  have "?e < 2 ^ 32" using base_end [OF assms(1)] net_size_pos [of base] by (simp add: net_size_def)
  then have r: "search_result p ?e taken (n_addr base) (alloc_loop p (2 ^ (32 - p)) ?e taken (n_addr base))"
    using assms base_aligned [OF assms(1,3)] by (intro alloc_loop_spec) auto
  have eq: "allocateSubnet base p taken = alloc_loop p (2 ^ (32 - p)) ?e taken (n_addr base)"
    using assms(3,4) by (simp add: allocateSubnet_def Let_def)
  show ?thesis
  proof (cases "allocateSubnet base p taken")
    case (Inl e)
    then show ?thesis
      using r unfolding eq by (simp add: search_result_def Let_def block_in_range [OF assms(1)])
  next
    case (Inr n)
    have "search_result p ?e taken (n_addr base) (Inr n)" using r eq Inr by simp
    then obtain a where a: "n = block p a" "a mod 2 ^ (32 - p) = 0" "n_addr base \<le> a"
      "a + 2 ^ (32 - p) - 1 \<le> ?e" "block_free p taken a"
      "\<forall>c. c mod 2 ^ (32 - p) = 0 \<longrightarrow> n_addr base \<le> c \<longrightarrow> c < a \<longrightarrow> \<not> block_free p taken c"
      unfolding search_result_def Let_def by auto
    then show ?thesis
      using Inr block_in_range [OF assms(1), of p] by (auto intro!: exI [of _ a])
  qed
qed

section \<open>Correctness of the allocation\<close>

definition shares_address :: "ip_net \<Rightarrow> ip_net \<Rightarrow> bool" where
  "shares_address n t \<longleftrightarrow> (\<exists>a. net_contains n a \<and> net_contains t a)"

definition clear_of :: "ip_net \<Rightarrow> ip_net option list \<Rightarrow> bool" where
  "clear_of n taken \<longleftrightarrow> (\<forall>t. Some t \<in> set taken \<longrightarrow> \<not> shares_address n t)"

lemma block_in_wf:
  assumes "wf_net base" and "block_in base p a" and "p \<le> 32"
  shows "wf_net (block p a)"
proof (rule wf_block [OF assms(3)])
  have "(0::nat) < 2 ^ (32 - p)" by simp
  then show "a < 2 ^ 32" using base_end [OF assms(1)] assms(2) unfolding block_in_def by linarith
qed (use assms(2) in \<open>simp add: block_in_def\<close>)

lemma block_free_iff_clear:
  assumes "wf_net base" and "wf_nets taken" and "block_in base p a" and "p \<le> 32"
  shows "block_free p taken a \<longleftrightarrow> clear_of (block p a) taken"
  using net_overlaps_iff [OF block_in_wf [OF assms(1,3,4)]] wf_nets_member [OF assms(2)]
  by (auto simp: block_free_def firstOverlap_None clear_of_def shares_address_def)

lemma allocateSubnet_correct:
  assumes "wf_net base" and "wf_nets taken" and "n_ones base \<le> p" and "p \<le> 30"
  shows "case allocateSubnet base p taken of
      Inr n \<Rightarrow> (\<exists>a. n = block p a \<and> block_in base p a \<and> clear_of n taken \<and>
        (\<forall>c. block_in base p c \<longrightarrow> c < a \<longrightarrow> \<not> clear_of (block p c) taken))
    | Inl e \<Rightarrow> e = NoFreeBlock \<and> (\<forall>c. block_in base p c \<longrightarrow> \<not> clear_of (block p c) taken)"
proof -
  have "p \<le> 32" using assms(4) by simp
  note iff = block_free_iff_clear [OF assms(1,2) _ this]
  show ?thesis
  proof (cases "allocateSubnet base p taken")
    case (Inl e)
    then show ?thesis using allocateSubnet_spec [OF assms] iff by simp
  next
    case (Inr n)
    with allocateSubnet_spec [OF assms] obtain a where "n = block p a" "block_in base p a"
      "block_free p taken a" "\<forall>c. block_in base p c \<longrightarrow> c < a \<longrightarrow> \<not> block_free p taken c"
      by auto
    then show ?thesis using Inr iff by auto
  qed
qed

text \<open>C30: the allocator returns an aligned block of the requested size inside the base that shares
  no address with any network that is taken, and it is the lowest such block; it fails only when
  every aligned block of that size in the base is taken. So skipping a whole clashing range never
  jumps over a free block.\<close>

theorem allocateSubnet_lowest_free:
  assumes "wf_net base" and "wf_nets taken" and "n_ones base \<le> p" and "p \<le> 30"
  shows "case allocateSubnet base p taken of
      Inr n \<Rightarrow> (\<exists>a. n = block p a \<and> block_in base p a \<and> clear_of n taken \<and>
        (\<forall>c. block_in base p c \<longrightarrow> c < a \<longrightarrow> \<not> clear_of (block p c) taken))
    | Inl e \<Rightarrow> e = NoFreeBlock \<and> (\<forall>c. block_in base p c \<longrightarrow> \<not> clear_of (block p c) taken)"
  using assms by (rule allocateSubnet_correct)

text \<open>10.128.0.0/12 with its first /22 in use: the next stage network is 10.128.4.0/22.\<close>

definition default_base :: ip_net where "default_base = \<lparr>n_addr = 176160768, n_ones = 12\<rparr>"

lemma wf_default_base: "wf_net default_base"
  by (simp add: wf_net_def default_base_def net_size_def)

lemma alloc_sample: "allocateSubnet default_base 22 [Some (block 22 176160768)] = Inr (block 22 176161792)"
  by (simp add: allocateSubnet_def default_base_def Let_def alloc_loop.simps block_def net_overlaps_def
      net_contains_def net_size_def)

lemma allocateSubnet_lowest_free_witness:
  "clear_of (block 22 176161792) [Some (block 22 176160768)] \<and> \<not> clear_of (block 22 176160768) [Some (block 22 176160768)]"
proof -
  have wf: "wf_nets [Some (block 22 176160768)]"
    by (simp add: wf_nets_def wf_net_def) (simp add: block_def)
  have "block_in default_base 22 176160768" by (simp add: block_in_def default_base_def net_size_def)
  moreover have "n_ones default_base \<le> 22" by (simp add: default_base_def)
  ultimately show ?thesis
    using allocateSubnet_lowest_free [OF wf_default_base wf, of 22]
    by (auto simp: alloc_sample) (auto simp: block_def)
qed

section \<open>Capacity\<close>

lemma small_net_block:
  assumes "wf_net t" and "p \<le> n_ones t" and "p \<le> 32" and "net_overlaps (block p c) t"
  shows "n_addr t div 2 ^ (32 - p) = c div 2 ^ (32 - p)"
proof -
  have "net_contains t c \<Longrightarrow> ?thesis"
  proof -
    assume "net_contains t c"
    then have "c div net_size t = n_addr t div net_size t" by (simp add: net_contains_def)
    moreover have "(2::nat) ^ (32 - p) = net_size t * 2 ^ (n_ones t - p)"
      using assms(1-3) by (simp add: net_size_def wf_net_def flip: power_add)
    ultimately show ?thesis by (simp add: div_mult2_eq)
  qed
  moreover have "net_contains (block p c) (n_addr t) \<Longrightarrow> ?thesis" by (simp add: net_contains_def)
  ultimately show ?thesis using assms(4) by (auto simp: net_overlaps_def)
qed

text \<open>C31: capacity. While fewer than \<open>2 ^ (p - b)\<close> ranges are taken, none of them larger than the
  block asked for, a base of prefix length \<open>b\<close> always has a block left: 1024 stage networks, or
  65536 agent networks, in the default base.\<close>

theorem allocateSubnet_capacity:
  assumes "wf_net base" and "wf_nets taken" and "n_ones base \<le> p" and "p \<le> 30"
    and "\<forall>t. Some t \<in> set taken \<longrightarrow> p \<le> n_ones t" and "length taken < 2 ^ (p - n_ones base)"
  shows "\<exists>n. allocateSubnet base p taken = Inr n"
proof (rule ccontr)
  assume "\<not> ?thesis"
  then obtain e where e: "allocateSubnet base p taken = Inl e" by (cases "allocateSubnet base p taken") auto
  let ?S = "2 ^ (32 - p) :: nat" and ?N = "2 ^ (p - n_ones base) :: nat"
  have p: "p \<le> 32" and size: "net_size base = ?N * ?S"
    using assms(3,4) by (simp_all add: net_size_def flip: power_add)
  obtain k where k: "n_addr base = k * ?S"
    using multiple_of [OF base_aligned [OF assms(1,3)]] by metis
  have "i \<in> (\<lambda>t. n_addr (the t) div ?S - k) ` set taken" if "i < ?N" for i
  proof -
    let ?c = "(k + i) * ?S"
    have "(i + 1) * ?S \<le> ?N * ?S" using that by (intro mult_le_mono1) simp
    then have "block_in base p ?c" by (simp add: block_in_def k size add_mult_distrib)
    then obtain t where t: "Some t \<in> set taken" "net_overlaps (block p ?c) t"
      using allocateSubnet_spec [OF assms(1-4)] e by (auto simp: block_free_def firstOverlap_None)
    have "n_addr t div ?S = k + i"
      using small_net_block [OF wf_nets_member [OF assms(2) t(1)] _ p t(2)] assms(5) t(1) by simp
    then show ?thesis using t(1) by (auto intro!: image_eqI [of _ _ "Some t"])
  qed
  then have "{..<?N} \<subseteq> (\<lambda>t. n_addr (the t) div ?S - k) ` set taken" by auto
  then have "card {..<?N} \<le> card (set taken)"
    by (meson List.finite_set card_image_le card_mono finite_imageI le_trans)
  then show False using card_length [of taken] assms(6) by simp
qed

lemma allocateSubnet_capacity_witness:
  "\<exists>n. allocateSubnet default_base (networkPrefixLen RoleStage) [Some (block 22 176160768), None] = Inr n"
proof (rule allocateSubnet_capacity [OF wf_default_base])
  show "wf_nets [Some (block 22 176160768), None]"
    by (simp add: wf_nets_def wf_net_def) (simp add: block_def)
qed (simp_all add: default_base_def block_def)

section \<open>Routes of the host\<close>

text \<open>The range handed to Docker never shares an address with a network Docker already has,
  and it clears the host's routes as well whenever any aligned block does; the fallback that
  overlaps a route is taken exactly when no block clears both, and then it is announced. An
  error means that no block is free of Docker's own networks.\<close>

theorem allocateWithin_prefers_route_free:
  assumes "wf_net base" and "wf_nets docker" and "wf_nets routes" and "n_ones base \<le> p" and "p \<le> 30"
  shows "case allocateWithin base p docker routes of
      (Inr n, warn) \<Rightarrow> (\<exists>a. n = block p a \<and> block_in base p a) \<and> clear_of n docker \<and>
        (warn \<longleftrightarrow> \<not> clear_of n routes) \<and>
        (clear_of n routes \<longleftrightarrow> (\<exists>c. block_in base p c \<and> clear_of (block p c) (docker @ routes)))
    | (Inl e, warn) \<Rightarrow> e = NoFreeBlock \<and> (\<forall>c. block_in base p c \<longrightarrow> \<not> clear_of (block p c) docker)"
proof -
  have app: "clear_of n (docker @ routes) \<longleftrightarrow> clear_of n docker \<and> clear_of n routes" for n
    by (auto simp: clear_of_def)
  have wf: "wf_nets (docker @ routes)" using assms(2,3) by simp
  note both = allocateSubnet_correct [OF assms(1) wf assms(4,5)]
    and own = allocateSubnet_correct [OF assms(1,2,4,5)]
  show ?thesis
  proof (cases "allocateSubnet base p (docker @ routes)")
    case (Inr n)
    then show ?thesis using both by (auto simp: allocateWithin_def app)
  next
    case l: (Inl e)
    then have none: "\<not> (\<exists>c. block_in base p c \<and> clear_of (block p c) (docker @ routes))"
      using both by auto
    show ?thesis
    proof (cases "allocateSubnet base p docker")
      case (Inl e')
      then show ?thesis using l own by (simp add: allocateWithin_def)
    next
      case (Inr n)
      with own obtain a where a: "n = block p a" "block_in base p a" "clear_of n docker" by auto
      have "p \<le> 32" using assms(5) by simp
      then have fo: "firstOverlap n routes = None \<longleftrightarrow> clear_of n routes"
        using block_free_iff_clear [OF assms(1,3) a(2)] a(1) by (simp add: block_free_def)
      have nr: "\<not> clear_of n routes" using none a app by blast
      then have "0 < length routes" by (cases routes) (auto simp: clear_of_def)
      then show ?thesis
        using l Inr a none nr fo by (auto simp: allocateWithin_def)
    qed
  qed
qed

lemma allocateWithin_prefers_route_free_witness:
  "\<exists>n warn. allocateWithin default_base 22 [] [Some (block 8 167772160)] = (Inr n, warn) \<and> warn"
proof -
  have wf: "wf_nets []" "wf_nets [Some (block 8 167772160)]"
    by (simp_all add: wf_nets_def wf_net_def) (simp add: block_def)
  have r: "allocateWithin default_base 22 [] [Some (block 8 167772160)] = (Inr (block 22 176160768), True)"
    by (simp add: allocateWithin_def allocateSubnet_def default_base_def Let_def alloc_loop.simps block_def
        net_overlaps_def net_contains_def net_size_def)
  have "\<not> clear_of (block 22 176160768) [Some (block 8 167772160)]"
    by (auto simp: clear_of_def shares_address_def net_contains_def intro!: exI [of _ 176160768])
  then show ?thesis
    using allocateWithin_prefers_route_free [OF wf_default_base wf, of 22] r
    by (auto simp: default_base_def)
qed

end
