(* ===== verification/Mfa_Throttle.thy ===== *)
theory Mfa_Throttle
  imports Prelude
begin

text \<open>
  The second-factor brute-force throttle (\<open>internal/daemon/mfa_throttle.go\<close>): lock-out lengths,
  the counters per account and per address, the atomic check-and-reserve, the reset, the sweep,
  the client address a request is counted under, and the replies. The mutex makes every operation
  one step; the clock of each operation is an argument.
\<close>

section \<open>The code\<close>

definition sec :: int where "sec = 1000000000"

definition mfaMaxFails :: nat where "mfaMaxFails = 5"
definition mfaLockoutBase :: int where "mfaLockoutBase = 25 * sec"
definition mfaLockoutMax :: int where "mfaLockoutMax = 15 * 60 * sec"
definition mfaFailWindow :: int where "mfaFailWindow = 15 * 60 * sec"

record mfa_attempt =
  fails :: nat
  lockCount :: nat
  lastFail :: int
  lockedUntil :: int

definition new_attempt :: mfa_attempt where
  "new_attempt = \<lparr>fails = 0, lockCount = 0, lastFail = 0, lockedUntil = 0\<rparr>"

type_synonym attempts = "string \<Rightarrow> mfa_attempt option"

text \<open>The doubling loop; its counter runs from 1 to \<open>lockCount\<close>.\<close>

fun lockout_loop :: "nat \<Rightarrow> int \<Rightarrow> int" where
  "lockout_loop 0 d = d"
| "lockout_loop (Suc n) d = (if d < mfaLockoutMax then lockout_loop n (d * 2) else d)"

definition mfaLockoutFor :: "nat \<Rightarrow> int" where
  "mfaLockoutFor lockCount0 =
     (let lockCount = (if lockCount0 < 1 then 1 else lockCount0);
          d = lockout_loop (lockCount - 1) mfaLockoutBase
      in if mfaLockoutMax < d then mfaLockoutMax else d)"

definition mfaThrottleKeys :: "string \<Rightarrow> string \<Rightarrow> string list" where
  "mfaThrottleKeys email ip =
     (let e = to_lower (trim_space email) in
      (if e \<noteq> [] then [''acct:'' @ e] else []) @ (if ip \<noteq> [] then [''ip:'' @ ip] else []))"

definition is_locked :: "int \<Rightarrow> mfa_attempt \<Rightarrow> bool" where
  "is_locked now a \<longleftrightarrow> now < lockedUntil a"

definition is_idle :: "int \<Rightarrow> mfa_attempt \<Rightarrow> bool" where
  "is_idle now a \<longleftrightarrow> lastFail a \<noteq> 0 \<and> mfaFailWindow < now - lastFail a"

definition mfaAttemptLocked :: "string \<Rightarrow> int \<Rightarrow> attempts \<Rightarrow> mfa_attempt \<times> attempts" where
  "mfaAttemptLocked key now m =
     (let a = (case m key of None \<Rightarrow> new_attempt | Some a \<Rightarrow> a);
          a' = (if \<not> is_locked now a \<and> is_idle now a then a\<lparr>fails := 0, lockCount := 0\<rparr> else a)
      in (a', m(key \<mapsto> a')))"

text \<open>\<open>int(d.Seconds()) + 1\<close> for a positive duration.\<close>

definition retry_seconds :: "int \<Rightarrow> mfa_attempt \<Rightarrow> int" where
  "retry_seconds now a = (lockedUntil a - now) div sec + 1"

fun state_loop :: "int \<Rightarrow> attempts \<Rightarrow> string list \<Rightarrow> int \<Rightarrow> nat \<Rightarrow> int \<times> nat" where
  "state_loop now m [] retry fs = (retry, fs)"
| "state_loop now m (k # ks) retry fs =
     (case m k of
        None \<Rightarrow> state_loop now m ks retry fs
      | Some a \<Rightarrow>
          if is_locked now a then
            state_loop now m ks (max retry (retry_seconds now a)) (max fs (fails a))
          else if is_idle now a then state_loop now m ks retry fs
          else state_loop now m ks retry (max fs (fails a)))"

definition mfaThrottleState :: "string \<Rightarrow> string \<Rightarrow> int \<Rightarrow> attempts \<Rightarrow> int \<times> nat" where
  "mfaThrottleState email ip now m = state_loop now m (mfaThrottleKeys email ip) 0 0"

fun check_loop :: "int \<Rightarrow> string list \<Rightarrow> nat \<times> int \<times> attempts \<Rightarrow> nat \<times> int \<times> attempts" where
  "check_loop now [] s = s"
| "check_loop now (k # ks) (fs, retry, m) =
     (case mfaAttemptLocked k now m of (a, m') \<Rightarrow>
        check_loop now ks
          (if is_locked now a then (max fs (fails a), max retry (retry_seconds now a), m')
           else (fs, retry, m')))"

definition count_attempt :: "int \<Rightarrow> mfa_attempt \<Rightarrow> mfa_attempt" where
  "count_attempt now a0 =
     (let a = a0\<lparr>fails := fails a0 + 1, lastFail := now\<rparr> in
      if fails a mod mfaMaxFails = 0
      then a\<lparr>lockCount := lockCount a + 1, lockedUntil := now + mfaLockoutFor (lockCount a + 1)\<rparr>
      else a)"

fun reserve_loop :: "int \<Rightarrow> string list \<Rightarrow> nat \<times> int \<times> attempts \<Rightarrow> nat \<times> int \<times> attempts" where
  "reserve_loop now [] s = s"
| "reserve_loop now (k # ks) (fs, retry, m) =
     (case mfaAttemptLocked k now m of (a0, m') \<Rightarrow>
        let a = count_attempt now a0 in
        reserve_loop now ks
          (max fs (fails a), (if is_locked now a then max retry (retry_seconds now a) else retry), m'(k \<mapsto> a)))"

definition mfaThrottleSweepLocked :: "int \<Rightarrow> attempts \<Rightarrow> attempts" where
  "mfaThrottleSweepLocked now m =
     (\<lambda>k. case m k of None \<Rightarrow> None | Some a \<Rightarrow> if \<not> is_locked now a \<and> is_idle now a then None else Some a)"

text \<open>The result is (fails, retryAfter, ok).\<close>

definition mfaThrottleBegin :: "string \<Rightarrow> string \<Rightarrow> int \<Rightarrow> attempts \<Rightarrow> (nat \<times> int \<times> bool) \<times> attempts" where
  "mfaThrottleBegin email ip now m =
     (case check_loop now (mfaThrottleKeys email ip) (0, 0, m) of (fs, retry, m1) \<Rightarrow>
        if 0 < retry then ((fs, retry, False), m1)
        else
          case reserve_loop now (mfaThrottleKeys email ip) (fs, retry, m1) of (fs', retry', m2) \<Rightarrow>
            ((fs', retry', True), mfaThrottleSweepLocked now m2))"

definition mfaThrottleReset :: "string \<Rightarrow> string \<Rightarrow> attempts \<Rightarrow> attempts" where
  "mfaThrottleReset email ip m = fold (\<lambda>k m. m(k := None)) (mfaThrottleKeys email ip) m"

definition mfaTrustedProxyHops :: "string \<Rightarrow> nat" where
  "mfaTrustedProxyHops env =
     (case atoi (trim_space env) of None \<Rightarrow> 0 | Some n \<Rightarrow> if n < 0 then 0 else nat n)"

text \<open>The host part of \<open>net.SplitHostPort\<close>; \<open>None\<close> is an error.\<close>

definition last_index :: "char \<Rightarrow> string \<Rightarrow> nat option" where
  "last_index c s = (case index_byte c (rev s) of None \<Rightarrow> None | Some i \<Rightarrow> Some (length s - 1 - i))"

definition split_host_port :: "string \<Rightarrow> string option" where
  "split_host_port hp =
     (case last_index CHR '':'' hp of
        None \<Rightarrow> None
      | Some i \<Rightarrow>
          if hp ! 0 = CHR ''['' then
            (case index_byte CHR '']'' hp of
               None \<Rightarrow> None
             | Some e \<Rightarrow>
                 if e + 1 \<noteq> i then None
                 else if CHR ''['' \<in> set (drop 1 hp) \<or> CHR '']'' \<in> set (drop (e + 1) hp) then None
                 else Some (take (e - 1) (drop 1 hp)))
          else
            (let host = take i hp in
             if CHR '':'' \<in> set host \<or> CHR ''['' \<in> set hp \<or> CHR '']'' \<in> set hp then None else Some host))"

text \<open>\<open>xff\<close> is the value of X-Forwarded-For, empty when it is missing.\<close>

definition clientIPForRequest :: "nat \<Rightarrow> string \<Rightarrow> string \<Rightarrow> string" where
  "clientIPForRequest hops remote xff =
     (let peer = (case split_host_port remote of Some host \<Rightarrow> host | None \<Rightarrow> remote) in
      if hops = 0 then peer
      else if xff = [] then peer
      else
        let parts = split_on CHR '','' xff in
        if length parts < hops then peer
        else
          let candidate = trim_space (parts ! (length parts - hops))
          in if candidate \<noteq> [] then candidate else peer)"

section \<open>Replies\<close>

datatype audit = Audit2FAFailed | Audit2FALockout

record reply =
  rp_status :: nat
  rp_error :: string
  rp_fails :: nat
  rp_retry :: int
  rp_retry_header :: "int option"

definition mfaThrottledMessage :: string where
  "mfaThrottledMessage = ''Too many attempts '' @ [CHR 0xE2, CHR 0x80, CHR 0x94] @ '' wait a moment before trying again.''"

definition writeJSONThrottled :: "string \<Rightarrow> nat \<Rightarrow> nat \<Rightarrow> int \<Rightarrow> reply" where
  "writeJSONThrottled msg status fs retry =
     \<lparr>rp_status = status, rp_error = msg, rp_fails = fs, rp_retry = retry,
      rp_retry_header = (if 0 < retry then Some retry else None)\<rparr>"

text \<open>\<open>None\<close>: the request may go on (with its address); \<open>Some\<close>: it was answered.\<close>

definition mfaGateThrottlePrecheck :: "string \<Rightarrow> string \<Rightarrow> int \<Rightarrow> attempts \<Rightarrow> reply option" where
  "mfaGateThrottlePrecheck email ip now m =
     (case mfaThrottleState email ip now m of (retry, fs) \<Rightarrow>
        if 0 < retry then Some (writeJSONThrottled mfaThrottledMessage 429 fs retry) else None)"

definition mfaGateThrottleReject :: "nat \<Rightarrow> int \<Rightarrow> audit list \<times> reply" where
  "mfaGateThrottleReject fs retry =
     ([Audit2FALockout], writeJSONThrottled mfaThrottledMessage 429 fs retry)"

definition mfaGateThrottleFail :: "string \<Rightarrow> nat \<Rightarrow> int \<Rightarrow> audit list \<times> reply" where
  "mfaGateThrottleFail msg fs retry =
     (if 0 < retry
      then ([Audit2FAFailed, Audit2FALockout], writeJSONThrottled mfaThrottledMessage 429 fs retry)
      else ([Audit2FAFailed], writeJSONThrottled msg 401 fs retry))"

text \<open>A verification: reserve, compare the code, then reset or report the failure.\<close>

definition verify_code ::
    "string \<Rightarrow> string \<Rightarrow> string \<Rightarrow> bool \<Rightarrow> int \<Rightarrow> attempts \<Rightarrow> (bool \<times> audit list \<times> reply option) \<times> attempts" where
  "verify_code email ip msg code_ok now m =
     (case mfaThrottleBegin email ip now m of ((fs, retry, ok), m1) \<Rightarrow>
        if \<not> ok then (case mfaGateThrottleReject fs retry of (au, rep) \<Rightarrow> ((False, au, Some rep), m1))
        else if code_ok then ((True, [], None), mfaThrottleReset email ip m1)
        else (case mfaGateThrottleFail msg fs retry of (au, rep) \<Rightarrow> ((False, au, Some rep), m1)))"

section \<open>The length of a lock-out\<close>

lemma lockout_loop_eq:
  "0 < d \<Longrightarrow> min (lockout_loop n d) mfaLockoutMax = min (d * 2 ^ n) mfaLockoutMax"
proof (induction n arbitrary: d)
  case (Suc n)
  show ?case
  proof (cases "d < mfaLockoutMax")
    case True
    then show ?thesis using Suc.IH [of "d * 2"] Suc.prems by (simp add: mult.assoc)
  next
    case False
    have "(1::int) \<le> 2 ^ Suc n" by (rule one_le_power) simp
    then have "d * 1 \<le> d * 2 ^ Suc n" using Suc.prems by (intro mult_left_mono) auto
    then show ?thesis using False by simp
  qed
qed simp

text \<open>The \<open>n\<close>-th consecutive cooldown of a key lasts 25 seconds doubled \<open>n - 1\<close> times, and
  never longer than 15 minutes.\<close>

theorem mfaLockoutFor_doubles_to_ceiling:
  "mfaLockoutFor n = min (25 * sec * 2 ^ (n - 1)) (15 * 60 * sec)"
  using lockout_loop_eq [of mfaLockoutBase "(if n < 1 then 1 else n) - 1"]
  by (simp add: mfaLockoutFor_def Let_def mfaLockoutBase_def sec_def min_def mfaLockoutMax_def split: if_splits)

lemma mfaLockoutFor_ge: "25 * sec \<le> mfaLockoutFor n"
proof -
  have "(1::int) * 1 \<le> 2 ^ (n - 1)" by simp
  then have "25 * sec * 1 \<le> 25 * sec * 2 ^ (n - 1)" by (intro mult_left_mono) (auto simp: sec_def)
  then show ?thesis
    using lockout_loop_eq [of mfaLockoutBase "(if n < 1 then 1 else n) - 1"]
    by (auto simp: mfaLockoutFor_def Let_def mfaLockoutBase_def sec_def min_def mfaLockoutMax_def split: if_splits)
qed

lemma mfaLockoutFor_pos: "0 < mfaLockoutFor n"
  using mfaLockoutFor_ge [of n] by (simp add: sec_def)

section \<open>What an attempt does to each key\<close>

definition decayed :: "int \<Rightarrow> mfa_attempt \<Rightarrow> mfa_attempt" where
  "decayed now a = (if \<not> is_locked now a \<and> is_idle now a then a\<lparr>fails := 0, lockCount := 0\<rparr> else a)"

definition rec_of :: "attempts \<Rightarrow> string \<Rightarrow> mfa_attempt" where
  "rec_of m k = (case m k of None \<Rightarrow> new_attempt | Some a \<Rightarrow> a)"

lemma mfaAttemptLocked_eq:
  "mfaAttemptLocked k now m = (decayed now (rec_of m k), m(k \<mapsto> decayed now (rec_of m k)))"
  by (simp add: mfaAttemptLocked_def decayed_def rec_of_def Let_def)

lemma decayed_idem [simp]: "decayed now (decayed now a) = decayed now a"
  by (simp add: decayed_def is_locked_def is_idle_def)

lemma is_locked_decayed [simp]: "is_locked now (decayed now a) = is_locked now a"
  by (simp add: decayed_def is_locked_def)

definition key_locked :: "int \<Rightarrow> attempts \<Rightarrow> string \<Rightarrow> bool" where
  "key_locked now m k \<longleftrightarrow> (\<exists>a. m k = Some a \<and> is_locked now a)"

lemma is_locked_rec_of: "0 \<le> now \<Longrightarrow> is_locked now (rec_of m k) = key_locked now m k"
  by (auto simp: key_locked_def rec_of_def new_attempt_def is_locked_def split: option.split)

lemma distinct_keys: "distinct (mfaThrottleKeys email ip)"
  by (simp add: mfaThrottleKeys_def Let_def)

lemma retry_seconds_pos: "is_locked now a \<Longrightarrow> 0 < retry_seconds now a"
  by (simp add: retry_seconds_def is_locked_def sec_def pos_imp_zdiv_nonneg_iff add_nonneg_pos)

lemma check_loop_spec:
  assumes "0 \<le> now" and "distinct ks" and "0 \<le> retry"
  shows "case check_loop now ks (fs, retry, m) of (fs', retry', m') \<Rightarrow>
    (0 < retry' \<longleftrightarrow> 0 < retry \<or> (\<exists>k\<in>set ks. key_locked now m k)) \<and>
    m' = (\<lambda>k. if k \<in> set ks then Some (decayed now (rec_of m k)) else m k)"
  using assms
proof (induction ks arbitrary: fs retry m)
  case (Cons k ks)
  let ?a = "decayed now (rec_of m k)" and ?m = "m(k \<mapsto> decayed now (rec_of m k))"
  let ?s = "if is_locked now (rec_of m k) then (max fs (fails ?a), max retry (retry_seconds now ?a), ?m) else (fs, retry, ?m)"
  obtain fs1 r1 where s: "?s = (fs1, r1, ?m)" "0 \<le> r1" "0 < r1 \<longleftrightarrow> 0 < retry \<or> key_locked now m k"
    using Cons.prems retry_seconds_pos [of now ?a] is_locked_rec_of [OF Cons.prems(1), of m k]
    by (cases "is_locked now (rec_of m k)") (auto simp: max_def)
  obtain fs' r' m' where c: "check_loop now ks (fs1, r1, ?m) = (fs', r', m')" by (metis prod.exhaust)
  have same: "key_locked now ?m k' = key_locked now m k'" "rec_of ?m k' = rec_of m k'" if "k' \<in> set ks" for k'
    using that Cons.prems(2) by (auto simp: key_locked_def rec_of_def)
  have IH: "0 < r' \<longleftrightarrow> 0 < r1 \<or> (\<exists>k\<in>set ks. key_locked now ?m k)"
    "m' = (\<lambda>k. if k \<in> set ks then Some (decayed now (rec_of ?m k)) else ?m k)"
  proof -
    have "distinct ks" using Cons.prems(2) by simp
    from Cons.IH [OF Cons.prems(1) this s(2), of ?m fs1, unfolded c prod.case]
    show "0 < r' \<longleftrightarrow> 0 < r1 \<or> (\<exists>k\<in>set ks. key_locked now ?m k)"
      "m' = (\<lambda>k. if k \<in> set ks then Some (decayed now (rec_of ?m k)) else ?m k)" by blast+
  qed
  have "check_loop now (k # ks) (fs, retry, m) = (fs', r', m')"
    using c s(1) by (simp add: mfaAttemptLocked_eq)
  moreover have "0 < r' \<longleftrightarrow> 0 < retry \<or> (\<exists>k\<in>set (k # ks). key_locked now m k)"
    using IH(1) s(3) same(1) by auto
  moreover have "m' = (\<lambda>k'. if k' \<in> set (k # ks) then Some (decayed now (rec_of m k')) else m k')"
    using IH(2) same(2) by (auto simp: fun_eq_iff)
  ultimately show ?case by simp
qed (simp add: fun_eq_iff)

lemma reserve_loop_map:
  assumes "distinct ks"
  shows "snd (snd (reserve_loop now ks (fs, retry, m))) =
    (\<lambda>k. if k \<in> set ks then Some (count_attempt now (decayed now (rec_of m k))) else m k)"
  using assms
proof (induction ks arbitrary: fs retry m)
  case (Cons k ks)
  have "rec_of (m(k \<mapsto> x, k \<mapsto> y)) k' = rec_of m k'" if "k' \<in> set ks" for k' x y
    using that Cons.prems by (auto simp: rec_of_def)
  then show ?case
    using Cons by (auto simp: mfaAttemptLocked_eq Let_def fun_eq_iff)
qed (simp add: fun_eq_iff)

lemma count_attempt_fields [simp]:
  "lastFail (count_attempt now a) = now" "fails (count_attempt now a) = Suc (fails a)"
  by (simp_all add: count_attempt_def Let_def)

text \<open>The effect of \<open>mfaThrottleBegin\<close>, key by key.\<close>

lemma mfaThrottleBegin_spec:
  assumes "0 < now"
  shows "case mfaThrottleBegin email ip now m of ((fs, retry, ok), m') \<Rightarrow>
    (ok \<longleftrightarrow> \<not> (\<exists>k\<in>set (mfaThrottleKeys email ip). key_locked now m k)) \<and>
    (\<not> ok \<longrightarrow> 0 < retry \<and> m' = (\<lambda>k. if k \<in> set (mfaThrottleKeys email ip)
        then Some (decayed now (rec_of m k)) else m k)) \<and>
    (ok \<longrightarrow> m' = (\<lambda>k. if k \<in> set (mfaThrottleKeys email ip)
        then Some (count_attempt now (decayed now (rec_of m k))) else mfaThrottleSweepLocked now m k))"
proof -
  let ?ks = "mfaThrottleKeys email ip"
  obtain fs retry m1 where c: "check_loop now ?ks (0, 0, m) = (fs, retry, m1)" by (metis prod.exhaust)
  have m1: "0 < retry \<longleftrightarrow> (\<exists>k\<in>set ?ks. key_locked now m k)"
    "m1 = (\<lambda>k. if k \<in> set ?ks then Some (decayed now (rec_of m k)) else m k)"
    using check_loop_spec [OF less_imp_le [OF assms] distinct_keys, of 0 email ip m 0] c by auto
  obtain fs' retry' m2 where r: "reserve_loop now ?ks (fs, retry, m1) = (fs', retry', m2)" by (metis prod.exhaust)
  have m2: "m2 = (\<lambda>k. if k \<in> set ?ks then Some (count_attempt now (decayed now (rec_of m1 k))) else m1 k)"
    using reserve_loop_map [OF distinct_keys, of now email ip fs retry m1] r by simp
  have "rec_of m1 k = decayed now (rec_of m k)" if "k \<in> set ?ks" for k
    using that by (simp add: m1(2) rec_of_def)
  then have "mfaThrottleSweepLocked now m2 = (\<lambda>k. if k \<in> set ?ks
      then Some (count_attempt now (decayed now (rec_of m k))) else mfaThrottleSweepLocked now m k)"
    by (auto simp: m2 m1(2) mfaThrottleSweepLocked_def fun_eq_iff is_idle_def mfaFailWindow_def sec_def
        split: option.splits)
  then show ?thesis using c r m1 by (auto simp: mfaThrottleBegin_def)
qed

section \<open>Runs\<close>

text \<open>Any sequence of verifications and resets; the log keeps the attempts that were let through,
  the latest first, each with its time and keys.\<close>

datatype mfa_op = OpBegin int string string | OpReset string string

fun mfa_step :: "mfa_op \<Rightarrow> attempts \<times> (int \<times> string list) list \<Rightarrow> attempts \<times> (int \<times> string list) list" where
  "mfa_step (OpBegin now email ip) (m, log) =
     (case mfaThrottleBegin email ip now m of ((_, _, ok), m') \<Rightarrow>
        (m', if ok then (now, mfaThrottleKeys email ip) # log else log))"
| "mfa_step (OpReset email ip) (m, log) = (mfaThrottleReset email ip m, log)"

definition mfa_run :: "mfa_op list \<Rightarrow> attempts \<times> (int \<times> string list) list" where
  "mfa_run ops = fold mfa_step ops (\<lambda>_. None, [])"

definition times_of :: "string \<Rightarrow> (int \<times> string list) list \<Rightarrow> int list" where
  "times_of k log = map fst (filter (\<lambda>e. k \<in> set (snd e)) log)"

fun op_time :: "mfa_op \<Rightarrow> int list" where
  "op_time (OpBegin now email ip) = [now]"
| "op_time (OpReset email ip) = []"

fun resets_key :: "string \<Rightarrow> mfa_op \<Rightarrow> bool" where
  "resets_key k (OpBegin now email ip) = False"
| "resets_key k (OpReset email ip) = (k \<in> set (mfaThrottleKeys email ip))"

definition op_times :: "mfa_op list \<Rightarrow> int list" where
  "op_times ops = concat (map op_time ops)"

text \<open>The attempts let through within 25 seconds from \<open>w\<close>.\<close>

definition in_window :: "int \<Rightarrow> int list \<Rightarrow> int list" where
  "in_window w ts = filter (\<lambda>t. w \<le> t \<and> t < w + 25 * sec) ts"

section \<open>The invariant of a key\<close>

text \<open>At time \<open>n\<close>, with the attempts \<open>r\<close> let through so far (latest first): those since the last
  lock-out or decay are as many as the counter says, all earlier ones are at least 25 seconds
  behind whatever attempt may come next.\<close>

definition key_inv :: "int \<Rightarrow> int list \<Rightarrow> mfa_attempt option \<Rightarrow> bool" where
  "key_inv n r mo \<longleftrightarrow> (\<forall>x\<in>set r. x \<le> n) \<and>
     (case mo of
        None \<Rightarrow> \<forall>x\<in>set r. x + 25 * sec \<le> n
      | Some a \<Rightarrow> \<exists>rc old. r = rc @ old \<and> length rc = fails a mod 5 \<and>
          (\<forall>x\<in>set rc. x \<le> lastFail a) \<and> (\<forall>x\<in>set old. x + 25 * sec \<le> max (lockedUntil a) n))"

lemma key_inv_later: "key_inv n r mo \<Longrightarrow> n \<le> n' \<Longrightarrow> key_inv n' r mo"
  unfolding key_inv_def by (auto split: option.splits) (fastforce simp: max_def split: if_splits)+

lemma idle_old:
  assumes "is_idle n a" and "x \<le> lastFail a"
  shows "x + 25 * sec \<le> n"
  using assms by (simp add: is_idle_def mfaFailWindow_def sec_def)

lemma key_inv_rec:
  assumes "key_inv n r (m k)"
  shows "key_inv n r (Some (decayed n (rec_of m k)))"
proof (cases "m k")
  case None
  then show ?thesis
    using assms by (auto simp: key_inv_def rec_of_def decayed_def new_attempt_def is_idle_def max_def)
next
  case (Some a)
  from assms Some obtain rc old where r: "r = rc @ old" "length rc = fails a mod 5"
    "\<forall>x\<in>set rc. x \<le> lastFail a" "\<forall>x\<in>set old. x + 25 * sec \<le> max (lockedUntil a) n" "\<forall>x\<in>set r. x \<le> n"
    by (auto simp: key_inv_def)
  show ?thesis
  proof (cases "\<not> is_locked n a \<and> is_idle n a")
    case True
    then have "\<forall>x\<in>set r. x + 25 * sec \<le> max (lockedUntil a) n"
      using r(1,3,4) idle_old [of n a] by fastforce
    then have "key_inv n r (Some (a\<lparr>fails := 0, lockCount := 0\<rparr>))"
      using r(5) by (auto simp: key_inv_def intro!: exI [of _ "[]"] exI [of _ r])
    then show ?thesis using True Some by (simp add: rec_of_def decayed_def)
  next
    case False
    then show ?thesis using assms Some by (auto simp: rec_of_def decayed_def)
  qed
qed

lemma key_inv_sweep:
  assumes "key_inv n r (m k)"
  shows "key_inv n r (mfaThrottleSweepLocked n m k)"
proof (cases "\<exists>a. m k = Some a \<and> \<not> is_locked n a \<and> is_idle n a")
  case False
  then show ?thesis using assms by (auto simp: mfaThrottleSweepLocked_def split: option.splits)
next
  case True
  then obtain a where a: "m k = Some a" "\<not> is_locked n a" "is_idle n a" by blast
  with assms obtain rc old where r: "r = rc @ old" "\<forall>x\<in>set rc. x \<le> lastFail a"
    "\<forall>x\<in>set old. x + 25 * sec \<le> max (lockedUntil a) n" "\<forall>x\<in>set r. x \<le> n"
    by (auto simp: key_inv_def)
  have "max (lockedUntil a) n = n" using a(2) by (simp add: is_locked_def)
  then show ?thesis using a r idle_old [OF a(3)] by (auto simp: key_inv_def mfaThrottleSweepLocked_def)
qed

lemma key_inv_attempt:
  assumes "key_inv n r (Some a)" and "\<not> is_locked n a"
  shows "key_inv n (n # r) (Some (count_attempt n a)) \<and> (\<exists>rc old. r = rc @ old \<and> length rc \<le> 4 \<and> (\<forall>x\<in>set old. x + 25 * sec \<le> n))"
proof -
  from assms(1) obtain rc old where r: "r = rc @ old" "length rc = fails a mod 5"
    "\<forall>x\<in>set old. x + 25 * sec \<le> max (lockedUntil a) n" "\<forall>x\<in>set r. x \<le> n"
    by (auto simp: key_inv_def)
  have old: "\<forall>x\<in>set old. x + 25 * sec \<le> n" using r(3) assms(2) by (simp add: is_locked_def)
  have "key_inv n (n # r) (Some (count_attempt n a))"
  proof (cases "Suc (fails a) mod 5 = 0")
    case True
    let ?L = "n + mfaLockoutFor (Suc (lockCount a))"
    have "\<forall>x\<in>set (n # r). x + 25 * sec \<le> max ?L n"
      using r(4) mfaLockoutFor_ge [of "Suc (lockCount a)"] by (auto simp: max_def; fastforce)
    then show ?thesis
      using True r(4) by (auto simp: key_inv_def count_attempt_def Let_def mfaMaxFails_def
          intro!: exI [of _ "[]"] exI [of _ "n # r"])
  next
    case False
    then have "length (n # rc) = Suc (fails a) mod 5" using r(2) by (simp add: mod_Suc split: if_splits)
    moreover have "\<forall>x\<in>set old. x + 25 * sec \<le> max (lockedUntil a) n" using old by (auto simp: max_def)
    ultimately have "\<exists>rc' old'. n # r = rc' @ old' \<and> length rc' = Suc (fails a) mod 5 \<and>
        (\<forall>x\<in>set rc'. x \<le> n) \<and> (\<forall>x\<in>set old'. x + 25 * sec \<le> max (lockedUntil a) n)"
      using r(1,4) by - (rule exI [of _ "n # rc"], rule exI [of _ old], auto)
    then show ?thesis
      using False r(4) unfolding key_inv_def by (simp add: count_attempt_def Let_def mfaMaxFails_def)
  qed
  moreover have "length rc \<le> 4" using r(2) by simp
  ultimately show ?thesis using r(1) old by blast
qed

lemma in_window_attempt:
  assumes "r = rc @ old" and "length rc \<le> 4" and "\<forall>x\<in>set old. x + 25 * sec \<le> n"
    and "\<forall>w. length (in_window w r) \<le> 5"
  shows "length (in_window w (n # r)) \<le> 5"
proof (cases "w \<le> n \<and> n < w + 25 * sec")
  case True
  have "in_window w old = []" using assms(3) True by (fastforce simp: in_window_def filter_empty_conv)
  then have "length (in_window w (n # r)) = Suc (length (in_window w rc))"
    using True assms(1) by (simp add: in_window_def)
  also have "length (in_window w rc) \<le> length rc" by (simp add: in_window_def)
  finally show ?thesis using assms(2) by linarith
next
  case False
  then show ?thesis using assms(4) by (auto simp: in_window_def)
qed

lemma mfa_run_inv:
  assumes "sorted (op_times ops)" and "\<forall>t\<in>set (op_times ops). 0 < t \<and> t \<le> n"
    and "\<forall>op\<in>set ops. \<not> resets_key k op"
  shows "key_inv n (times_of k (snd (mfa_run ops))) (fst (mfa_run ops) k) \<and>
    (\<forall>w. length (in_window w (times_of k (snd (mfa_run ops)))) \<le> 5)"
  using assms
proof (induction ops arbitrary: n rule: rev_induct)
  case Nil
  then show ?case by (simp add: mfa_run_def times_of_def key_inv_def in_window_def)
next
  case (snoc op ops)
  obtain m log where run: "mfa_run ops = (m, log)" by fastforce
  have run': "mfa_run (ops @ [op]) = mfa_step op (m, log)" using run by (simp add: mfa_run_def)
  show ?case
  proof (cases op)
    case (OpReset email ip)
    have "fst (mfa_step op (m, log)) k = m k"
    proof -
      have "fold (\<lambda>k m. m(k := None)) ks m k = m k" if "k \<notin> set ks" for ks and m :: attempts
        using that by (induction ks arbitrary: m) auto
      then show ?thesis using snoc.prems(3) OpReset by (simp add: mfaThrottleReset_def)
    qed
    then show ?thesis
      using snoc.IH [of n] snoc.prems run run' OpReset by (simp add: op_times_def)
  next
    case (OpBegin now email ip)
    let ?ks = "mfaThrottleKeys email ip"
    have t: "0 < now" "now \<le> n" "\<forall>t\<in>set (op_times ops). 0 < t \<and> t \<le> now" "sorted (op_times ops)"
      using snoc.prems(1,2) OpBegin by (auto simp: op_times_def sorted_append)
    then have IH: "key_inv now (times_of k log) (m k)" "\<forall>w. length (in_window w (times_of k log)) \<le> 5"
      using snoc.IH [of now] snoc.prems(3) run by auto
    obtain fs retry ok m' where b: "mfaThrottleBegin email ip now m = ((fs, retry, ok), m')"
      by (metis prod.exhaust)
    note spec = mfaThrottleBegin_spec [OF t(1), of email ip m, unfolded b prod.case]
    have res: "mfa_run (ops @ [op]) = (m', if ok then (now, ?ks) # log else log)"
      using run' OpBegin b by simp
    have "key_inv now (times_of k (snd (mfa_run (ops @ [op])))) (m' k) \<and>
        (\<forall>w. length (in_window w (times_of k (snd (mfa_run (ops @ [op]))))) \<le> 5)"
    proof (cases "k \<in> set ?ks")
      case False
      then have "times_of k (snd (mfa_run (ops @ [op]))) = times_of k log"
        "m' k = m k \<or> m' k = mfaThrottleSweepLocked now m k"
        using res spec by (auto simp: times_of_def)
      then show ?thesis using IH key_inv_sweep [where m = m and k = k, OF IH(1)] by auto
    next
      case True
      let ?a = "decayed now (rec_of m k)"
      have inv: "key_inv now (times_of k log) (Some ?a)" by (rule key_inv_rec [where m = m and k = k, OF IH(1)])
      show ?thesis
      proof (cases ok)
        case False
        then show ?thesis using spec inv IH(2) res True by simp
      next
        case ok: True
        have "\<not> is_locked now ?a"
          using spec ok True is_locked_rec_of [of now m k] t(1) by auto
        from key_inv_attempt [OF inv this] in_window_attempt [OF _ _ _ IH(2)]
        show ?thesis using spec ok res True by (auto simp: times_of_def)
      qed
    qed
    then show ?thesis using key_inv_later [OF _ t(2)] res by auto
  qed
qed



section \<open>A verification against the cooldown\<close>

lemma state_loop_retry:
  assumes "0 \<le> retry"
  shows "0 < fst (state_loop now m ks retry fs) \<longleftrightarrow> 0 < retry \<or> (\<exists>k\<in>set ks. key_locked now m k)"
  using assms
proof (induction now m ks retry fs rule: state_loop.induct)
  case (2 now m k ks retry fs)
  show ?case
  proof (cases "m k")
    case None
    then show ?thesis using 2 by (simp add: key_locked_def)
  next
    case (Some a)
    then show ?thesis
      using 2 retry_seconds_pos [of now a] by (auto simp: key_locked_def max_def split: if_splits)
  qed
qed simp

text \<open>A verification succeeds exactly when the code is right and neither the account nor the
  address is in a cooldown, so during a cooldown not even the right code passes; the attempt that
  is refused is not charged (no counter, no cooldown of a locked key changes), it is answered 429
  with a positive retry time and audited; and the read-only pre-check refuses the same requests.\<close>

theorem verify_code_respects_cooldown:
  assumes "0 < now" and "verify_code email ip msg code_ok now m = ((passed, audits, reply), m')"
  defines "blocked \<equiv> \<exists>k\<in>set (mfaThrottleKeys email ip). key_locked now m k"
  shows "(passed \<longleftrightarrow> code_ok \<and> \<not> blocked) \<and>
    (blocked \<longrightarrow> audits = [Audit2FALockout] \<and> (\<exists>r. reply = Some r \<and> rp_status r = 429 \<and> 0 < rp_retry r) \<and>
      (\<forall>k. key_locked now m k \<longrightarrow> m' k = m k)) \<and>
    (mfaGateThrottlePrecheck email ip now m \<noteq> None \<longleftrightarrow> blocked)"
proof -
  obtain fs retry ok m1 where b: "mfaThrottleBegin email ip now m = ((fs, retry, ok), m1)" by (metis prod.exhaust)
  note spec = mfaThrottleBegin_spec [OF assms(1), of email ip m, unfolded b prod.case]
  have ok: "ok \<longleftrightarrow> \<not> blocked" using spec by (simp add: blocked_def)
  have "passed \<longleftrightarrow> code_ok \<and> ok"
    using assms(2) b by (auto simp: verify_code_def mfaGateThrottleReject_def mfaGateThrottleFail_def split: if_splits)
  moreover have "audits = [Audit2FALockout] \<and> (\<exists>r. reply = Some r \<and> rp_status r = 429 \<and> 0 < rp_retry r) \<and>
      (\<forall>k. key_locked now m k \<longrightarrow> m' k = m k)" if "\<not> ok"
  proof -
    have keep: "decayed now (rec_of m k) = rec_of m k \<and> m k = Some (rec_of m k)" if "key_locked now m k" for k
      using that by (auto simp: key_locked_def rec_of_def decayed_def)
    show ?thesis
      using assms(2) b spec \<open>\<not> ok\<close> keep
      by (auto simp: verify_code_def mfaGateThrottleReject_def writeJSONThrottled_def)
  qed
  moreover have "mfaGateThrottlePrecheck email ip now m \<noteq> None \<longleftrightarrow> blocked"
    using state_loop_retry [of 0 now m "mfaThrottleKeys email ip" 0]
    by (auto simp: mfaGateThrottlePrecheck_def mfaThrottleState_def blocked_def split: prod.split)
  ultimately show ?thesis using ok by blast
qed

definition sample_locked :: attempts where
  "sample_locked = [''acct:a@b'' \<mapsto> \<lparr>fails = 5, lockCount = 1, lastFail = 10, lockedUntil = 10 + 25 * sec\<rparr>]"

lemma verify_code_respects_cooldown_witness:
  "\<not> fst (fst (verify_code ''a@b'' ''1.1.1.1'' ''no'' True 11 sample_locked))"
proof -
  obtain p au r m' where v: "verify_code ''a@b'' ''1.1.1.1'' ''no'' True 11 sample_locked = ((p, au, r), m')"
    by (metis prod.exhaust)
  have "key_locked 11 sample_locked ''acct:a@b''"
    by (simp add: key_locked_def sample_locked_def is_locked_def sec_def)
  moreover have "''acct:a@b'' \<in> set (mfaThrottleKeys ''a@b'' ''1.1.1.1'')"
    by (simp add: mfaThrottleKeys_def Let_def trim_space_def trim_right_def is_space_def to_lower_def lower_char_def)
  ultimately show ?thesis
    using verify_code_respects_cooldown [OF _ v] v by auto
qed

text \<open>A cooldown of the full 15 minutes is also the idle time after which the counters are
  forgotten: the first attempt any moment after it starts over, as a first failure with the
  shortest cooldown ahead, so the escalation does not persist beyond the ceiling.\<close>

theorem ceiling_lockout_forgets_escalation:
  assumes "0 < now" and "m k = Some a" and "lastFail a \<noteq> 0" and "lockedUntil a = lastFail a + mfaLockoutMax"
    and "lockedUntil a < now" and "k \<in> set (mfaThrottleKeys email ip)"
    and "mfaThrottleBegin email ip now m = ((fs, retry, True), m')"
  shows "\<exists>a'. m' k = Some a' \<and> fails a' = 1 \<and> lockCount a' = 0 \<and> mfaLockoutFor (lockCount a' + 1) = 25 * sec"
proof -
  have "decayed now (rec_of m k) = a\<lparr>fails := 0, lockCount := 0\<rparr>"
    using assms(2-5) by (simp add: decayed_def rec_of_def is_locked_def is_idle_def mfaLockoutMax_def mfaFailWindow_def)
  then show ?thesis
    using mfaThrottleBegin_spec [OF assms(1), of email ip m] assms(6,7)
    by (simp add: count_attempt_def Let_def mfaMaxFails_def mfaLockoutFor_def mfaLockoutBase_def mfaLockoutMax_def sec_def)
qed

definition ceiling_locked :: attempts where
  "ceiling_locked = [''acct:a@b'' \<mapsto> \<lparr>fails = 35, lockCount = 7, lastFail = 10, lockedUntil = 10 + mfaLockoutMax\<rparr>]"

lemma ceiling_lockout_forgets_escalation_witness:
  "\<exists>a'. snd (mfaThrottleBegin ''a@b'' [] (11 + mfaLockoutMax) ceiling_locked) ''acct:a@b'' = Some a' \<and> fails a' = 1"
proof -
  define a where "a = \<lparr>fails = 35, lockCount = 7, lastFail = 10, lockedUntil = 10 + mfaLockoutMax\<rparr>"
  define m where "m = ceiling_locked"
  define now where "now = 11 + mfaLockoutMax"
  have keys: "mfaThrottleKeys ''a@b'' [] = [''acct:a@b'']"
    by (simp add: mfaThrottleKeys_def Let_def trim_space_def trim_right_def is_space_def to_lower_def lower_char_def)
  have f: "0 < now" "m ''acct:a@b'' = Some a" "lastFail a \<noteq> 0" "lockedUntil a = lastFail a + mfaLockoutMax"
    "lockedUntil a < now" "''acct:a@b'' \<in> set (mfaThrottleKeys ''a@b'' [])"
    by (simp_all add: now_def m_def a_def ceiling_locked_def keys mfaLockoutMax_def sec_def)
  obtain fs retry ok m' where b: "mfaThrottleBegin ''a@b'' [] now m = ((fs, retry, ok), m')"
    by (metis prod.exhaust)
  have "ok \<longleftrightarrow> \<not> (\<exists>k\<in>set [''acct:a@b'']. key_locked now m k)"
    by (rule mfaThrottleBegin_spec [OF f(1), of "''a@b''" "[]" m, unfolded b prod.case keys, THEN conjunct1])
  moreover have "\<not> key_locked now m ''acct:a@b''" using f(2,5) by (simp add: key_locked_def is_locked_def)
  ultimately have "ok = True" by simp
  from ceiling_lockout_forgets_escalation [OF f b [unfolded \<open>ok = True\<close>]]
  obtain a' where "m' ''acct:a@b'' = Some a'" "fails a' = 1" by (elim exE conjE)
  then have "\<exists>a'. snd (mfaThrottleBegin ''a@b'' [] now m) ''acct:a@b'' = Some a' \<and> fails a' = 1"
    unfolding b snd_conv by (intro exI conjI)
  then show ?thesis by (simp only: m_def now_def)
qed

text \<open>A success clears both keys.\<close>

lemma mfaThrottleReset_clears:
  "mfaThrottleReset email ip m = (\<lambda>k. if k \<in> set (mfaThrottleKeys email ip) then None else m k)"
proof -
  have "fold (\<lambda>k m. m(k := None)) ks m = (\<lambda>k. if k \<in> set ks then None else m k)" for ks and m :: attempts
    by (induction ks arbitrary: m) (auto simp: fun_eq_iff)
  then show ?thesis by (simp add: mfaThrottleReset_def)
qed

section \<open>The address a request is counted under\<close>

text \<open>C29: the address cannot be forged. With no trusted proxy the header has no influence, and
  with \<open>hops\<close> of them whatever a client puts in front of the entries its proxies append has none:
  two requests from the same peer whose headers end in the same \<open>hops\<close> entries are counted under
  the same address.\<close>

theorem client_ip_ignores_forged_prefix:
  assumes "hops \<le> length (split_on CHR '','' trusted)"
  shows "clientIPForRequest hops remote (forged @ '','' @ trusted) =
      clientIPForRequest hops remote (forged' @ '','' @ trusted) \<and>
    clientIPForRequest 0 remote xff = clientIPForRequest 0 remote xff'"
proof -
  have "split_on CHR '','' (f @ '','' @ trusted) ! (length (split_on CHR '','' (f @ '','' @ trusted)) - hops) =
      split_on CHR '','' trusted ! (length (split_on CHR '','' trusted) - hops)" for f
  proof -
    have "\<not> length (split_on CHR '','' f) + length (split_on CHR '','' trusted) - hops < length (split_on CHR '','' f)"
      using assms by linarith
    moreover have "length (split_on CHR '','' f) + length (split_on CHR '','' trusted) - hops - length (split_on CHR '','' f)
        = length (split_on CHR '','' trusted) - hops" using assms by linarith
    ultimately show ?thesis by (simp only: split_on_append append_Cons append_Nil length_append nth_append if_False)
  qed
  moreover have "\<not> length (split_on CHR '','' (f @ '','' @ trusted)) < hops" for f
    using assms by (simp add: split_on_append)
  ultimately show ?thesis by (simp add: clientIPForRequest_def Let_def)
qed

lemma client_ip_ignores_forged_prefix_witness:
  "clientIPForRequest 1 ''10.0.0.9:5512'' ''6.6.6.6, 203.0.113.7'' =
   clientIPForRequest 1 ''10.0.0.9:5512'' ''evil, 203.0.113.7''"
  using client_ip_ignores_forged_prefix [of 1 "'' 203.0.113.7''" "''10.0.0.9:5512''" "''6.6.6.6''" "''evil''"]
  by simp

end
