(* ===== verification/Acl_Store.thy ===== *)
theory Acl_Store
  imports Prelude
begin

text \<open>
  The per-endpoint access-control store (\<open>internal/daemon/acl.go\<close>, tables of
  \<open>internal/daemon/bailey_store.go\<close>). A table is the list of its rows; the columns that the
  schema declares \<open>COLLATE NOCASE\<close> are compared with \<open>eq_fold\<close>, and a foreign key is checked on
  insertion and cascades on deletion. Time stamps are numbers (\<open>RFC3339\<close> in UTC sorts as they
  do). A failing database (disk, lock) is outside the model; a constraint violation is not.
\<close>

section \<open>Tables\<close>

record endpoint =
  ep_host :: string
  ep_owner :: string
  ep_display :: string
  ep_parent :: string
  ep_kind :: string
  ep_stage :: string
  ep_source :: string
  ep_source_bp :: string
  ep_created :: int

record grant =
  gr_host :: string
  gr_ptype :: string
  gr_value :: string
  gr_role :: string
  gr_at :: int
  gr_by :: string

record access_request =
  rq_host :: string
  rq_email :: string
  rq_at :: int

record acl_db =
  db_endpoints :: "endpoint list"
  db_grants :: "grant list"
  db_requests :: "access_request list"

datatype endpoint_role = RoleOwner | RoleAccess | RoleNone

datatype acl_err =
  HostAndOwnerRequired | HostRequired | InvalidPrincipalType | InvalidRole | ForeignKey | LastOwner
| PrincipalRequired | EmailRequired | UnknownAction

type_synonym acl_result = "acl_err option \<times> acl_db"

section \<open>Endpoints\<close>

definition getEndpoint :: "string \<Rightarrow> acl_db \<Rightarrow> endpoint option" where
  "getEndpoint host db = find (\<lambda>e. eq_fold (ep_host e) host) (db_endpoints db)"

text \<open>\<open>UPDATE endpoints SET ... WHERE hostname = ?\<close>.\<close>

definition update_endpoints :: "(endpoint \<Rightarrow> bool) \<Rightarrow> (endpoint \<Rightarrow> endpoint) \<Rightarrow> acl_db \<Rightarrow> acl_db" where
  "update_endpoints P f db = db\<lparr>db_endpoints := map (\<lambda>e. if P e then f e else e) (db_endpoints db)\<rparr>"

definition registerEndpoint ::
    "int \<Rightarrow> string \<Rightarrow> string \<Rightarrow> string \<Rightarrow> string \<Rightarrow> string \<Rightarrow> string \<Rightarrow> acl_db
     \<Rightarrow> (acl_err + endpoint option) \<times> acl_db" where
  "registerEndpoint now host0 owner0 display parent kind stage db =
     (let host = trim_space host0; owner = trim_space owner0 in
      if host = [] \<or> owner = [] then (Inl HostAndOwnerRequired, db)
      else
        let db1 = (if \<exists>e\<in>set (db_endpoints db). eq_fold (ep_host e) host then db
                   else db\<lparr>db_endpoints := db_endpoints db @
                     [\<lparr>ep_host = host, ep_owner = owner, ep_display = display, ep_parent = parent,
                       ep_kind = kind, ep_stage = stage, ep_source = ''manual'', ep_source_bp = [],
                       ep_created = now\<rparr>]\<rparr>);
            db2 = (if kind \<noteq> []
                   then update_endpoints (\<lambda>e. eq_fold (ep_host e) host \<and> ep_kind e = [])
                          (\<lambda>e. e\<lparr>ep_kind := kind\<rparr>) db1
                   else db1);
            db3 = (if stage \<noteq> []
                   then update_endpoints (\<lambda>e. eq_fold (ep_host e) host \<and> ep_stage e = [])
                          (\<lambda>e. e\<lparr>ep_stage := stage\<rparr>) db2
                   else db2)
        in (Inr (getEndpoint host db3), db3))"

definition setEndpointOwner :: "string \<Rightarrow> string \<Rightarrow> acl_db \<Rightarrow> acl_result" where
  "setEndpointOwner host0 owner db =
     (let host = trim_space host0 in
      if host = [] then (Some HostRequired, db)
      else (None, update_endpoints (\<lambda>e. eq_fold (ep_host e) host) (\<lambda>e. e\<lparr>ep_owner := trim_space owner\<rparr>) db))"

definition deleteEndpoint :: "string \<Rightarrow> acl_db \<Rightarrow> acl_db" where
  "deleteEndpoint host db =
     \<lparr>db_endpoints = filter (\<lambda>e. \<not> eq_fold (ep_host e) host) (db_endpoints db),
      db_grants = filter (\<lambda>g. \<not> eq_fold (gr_host g) host) (db_grants db),
      db_requests = filter (\<lambda>r. \<not> eq_fold (rq_host r) host) (db_requests db)\<rparr>"

definition setEndpointSourceBP :: "string \<Rightarrow> string \<Rightarrow> string \<Rightarrow> acl_db \<Rightarrow> acl_db" where
  "setEndpointSourceBP host source bp db =
     (if bp \<noteq> []
      then update_endpoints (\<lambda>e. eq_fold (ep_host e) (trim_space host))
             (\<lambda>e. e\<lparr>ep_source := source, ep_source_bp := bp\<rparr>) db
      else update_endpoints (\<lambda>e. eq_fold (ep_host e) (trim_space host)) (\<lambda>e. e\<lparr>ep_source := source\<rparr>) db)"

definition setEndpointSource :: "string \<Rightarrow> string \<Rightarrow> acl_db \<Rightarrow> acl_db" where
  "setEndpointSource host source db = setEndpointSourceBP host source [] db"

section \<open>Grants\<close>

text \<open>The primary key of a grant.\<close>

definition same_grant :: "string \<Rightarrow> string \<Rightarrow> string \<Rightarrow> string \<Rightarrow> grant \<Rightarrow> bool" where
  "same_grant host ptype value role g \<longleftrightarrow>
     eq_fold (gr_host g) host \<and> gr_ptype g = ptype \<and> eq_fold (gr_value g) value \<and> gr_role g = role"

definition addGrant ::
    "int \<Rightarrow> string \<Rightarrow> string \<Rightarrow> string \<Rightarrow> string \<Rightarrow> string \<Rightarrow> acl_db \<Rightarrow> acl_result" where
  "addGrant now host ptype value role by db =
     (if ptype \<noteq> ''email'' \<and> ptype \<noteq> ''group'' then (Some InvalidPrincipalType, db)
      else if role \<noteq> ''owner'' \<and> role \<noteq> ''access'' then (Some InvalidRole, db)
      else if \<exists>g\<in>set (db_grants db). same_grant host ptype value role g then (None, db)
      else if \<not> (\<exists>e\<in>set (db_endpoints db). eq_fold (ep_host e) host) then (Some ForeignKey, db)
      else (None, db\<lparr>db_grants := db_grants db @
             [\<lparr>gr_host = host, gr_ptype = ptype, gr_value = value, gr_role = role, gr_at = now, gr_by = by\<rparr>]\<rparr>))"

definition removeGrant :: "string \<Rightarrow> string \<Rightarrow> string \<Rightarrow> string \<Rightarrow> acl_db \<Rightarrow> acl_db" where
  "removeGrant host ptype value role db =
     db\<lparr>db_grants := filter (\<lambda>g. \<not> same_grant host ptype value role g) (db_grants db)\<rparr>"

text \<open>Newest first; no property here depends on the order of equal time stamps.\<close>

definition listGrants :: "string \<Rightarrow> acl_db \<Rightarrow> grant list" where
  "listGrants host db = sort_key (\<lambda>g. - gr_at g) (filter (\<lambda>g. eq_fold (gr_host g) host) (db_grants db))"

section \<open>Owners\<close>

definition add_owner :: "string list \<Rightarrow> string \<Rightarrow> string list" where
  "add_owner out e0 =
     (let e = trim_space e0 in
      if e = [] \<or> (\<exists>o'\<in>set out. to_lower o' = to_lower e) then out else out @ [e])"

definition endpointOwners :: "string \<Rightarrow> acl_db \<Rightarrow> string list" where
  "endpointOwners host db =
     (let out = (case getEndpoint host db of Some ep \<Rightarrow> add_owner [] (ep_owner ep) | None \<Rightarrow> [])
      in foldl (\<lambda>out g. if gr_ptype g = ''email'' \<and> gr_role g = ''owner'' then add_owner out (gr_value g) else out)
           out (listGrants host db))"

definition revokeOwnership :: "string \<Rightarrow> string \<Rightarrow> acl_db \<Rightarrow> acl_result" where
  "revokeOwnership host email0 db =
     (let email = trim_space email0;
          owners = endpointOwners host db;
          remaining = filter (\<lambda>o'. \<not> eq_fold o' email) owners
      in if \<not> (\<exists>o'\<in>set owners. eq_fold o' email) then (None, db)
         else if length remaining = 0 then (Some LastOwner, db)
         else
           let db1 = removeGrant host ''email'' email ''owner'' db in
           case getEndpoint host db1 of
             Some ep \<Rightarrow> if eq_fold (ep_owner ep) email then setEndpointOwner host (remaining ! 0) db1 else (None, db1)
           | None \<Rightarrow> (None, db1))"

section \<open>Roles\<close>

definition grant_matches :: "string \<Rightarrow> string list \<Rightarrow> grant \<Rightarrow> bool" where
  "grant_matches email groups g =
     (if gr_ptype g = ''email'' then eq_fold (gr_value g) email
      else if gr_ptype g = ''group'' then \<exists>gg\<in>set groups. eq_fold (trim_space gg) (gr_value g)
      else False)"

fun best_role :: "string \<Rightarrow> string list \<Rightarrow> grant list \<Rightarrow> endpoint_role \<Rightarrow> endpoint_role" where
  "best_role email groups [] best = best"
| "best_role email groups (g # gs) best =
     (if \<not> grant_matches email groups g then best_role email groups gs best
      else if gr_role g = ''owner'' then RoleOwner
      else if gr_role g = ''access'' then best_role email groups gs RoleAccess
      else best_role email groups gs best)"

definition directRoleFor :: "string \<Rightarrow> string \<Rightarrow> string list \<Rightarrow> acl_db \<Rightarrow> endpoint_role" where
  "directRoleFor host email groups db =
     (case getEndpoint host db of
        None \<Rightarrow> RoleNone
      | Some ep \<Rightarrow>
          if eq_fold (ep_owner ep) email then RoleOwner
          else best_role email groups (listGrants host db) RoleNone)"

definition workspaceMembershipSurface :: "endpoint \<Rightarrow> string" where
  "workspaceMembershipSurface ep =
     (if ep_parent ep = [] then []
      else if eq_fold (ep_parent ep) (ep_host ep) then []
      else ep_parent ep)"

definition roleFor :: "string \<Rightarrow> string \<Rightarrow> string list \<Rightarrow> acl_db \<Rightarrow> endpoint_role" where
  "roleFor host email groups db =
     (let role = directRoleFor host email groups db in
      if role = RoleOwner then role
      else
        case getEndpoint host db of
          None \<Rightarrow> role
        | Some ep \<Rightarrow>
            let surface = workspaceMembershipSurface ep in
            if surface \<noteq> [] then
              (let parentRole = directRoleFor surface email groups db
               in if parentRole \<noteq> RoleNone then parentRole else role)
            else role)"

section \<open>Access requests\<close>

definition addAccessRequest :: "int \<Rightarrow> string \<Rightarrow> string \<Rightarrow> acl_db \<Rightarrow> acl_result" where
  "addAccessRequest now host email db =
     (if \<exists>r\<in>set (db_requests db). eq_fold (rq_host r) host \<and> eq_fold (rq_email r) email
      then (None, db\<lparr>db_requests := map (\<lambda>r. if eq_fold (rq_host r) host \<and> eq_fold (rq_email r) email
              then r\<lparr>rq_at := now\<rparr> else r) (db_requests db)\<rparr>)
      else if \<not> (\<exists>e\<in>set (db_endpoints db). eq_fold (ep_host e) host) then (Some ForeignKey, db)
      else (None, db\<lparr>db_requests := db_requests db @ [\<lparr>rq_host = host, rq_email = email, rq_at = now\<rparr>]\<rparr>))"

definition listAccessRequests :: "string \<Rightarrow> acl_db \<Rightarrow> access_request list" where
  "listAccessRequests host db = sort_key (\<lambda>r. - rq_at r) (filter (\<lambda>r. eq_fold (rq_host r) host) (db_requests db))"

definition listAllAccessRequests :: "acl_db \<Rightarrow> access_request list" where
  "listAllAccessRequests db = sort_key (\<lambda>r. - rq_at r) (db_requests db)"

definition removeAccessRequest :: "string \<Rightarrow> string \<Rightarrow> acl_db \<Rightarrow> acl_db" where
  "removeAccessRequest host email db =
     db\<lparr>db_requests := filter (\<lambda>r. \<not> (eq_fold (rq_host r) host \<and> eq_fold (rq_email r) email)) (db_requests db)\<rparr>"

section \<open>Listings\<close>

definition listAllEndpoints :: "acl_db \<Rightarrow> endpoint list" where
  "listAllEndpoints db = db_endpoints db"

text \<open>SQLite's \<open>LIKE\<close>, which ignores case.\<close>

fun sql_like :: "string \<Rightarrow> string \<Rightarrow> bool" where
  "sql_like [] s = (s = [])"
| "sql_like (p # ps) [] = (p = CHR ''%'' \<and> sql_like ps [])"
| "sql_like (p # ps) (c # cs) =
     (if p = CHR ''%'' then sql_like ps (c # cs) \<or> sql_like (p # ps) cs
      else (p = CHR ''_'' \<or> lower_char p = lower_char c) \<and> sql_like ps cs)"

definition listGitopsManagedHosts :: "string \<Rightarrow> string \<Rightarrow> acl_db \<Rightarrow> string list" where
  "listGitopsManagedHosts workspace bp db =
     map ep_host (filter (\<lambda>e. ep_source e = ''gitops'' \<and> sql_like (workspace @ ''-%'') (ep_host e)
        \<and> (bp = [] \<or> ep_source_bp e = bp)) (db_endpoints db))"

definition listEndpointsWhereUserCanShare :: "string \<Rightarrow> string list \<Rightarrow> acl_db \<Rightarrow> endpoint list" where
  "listEndpointsWhereUserCanShare email groups db =
     filter (\<lambda>e. roleFor (ep_host e) email groups db = RoleOwner) (listAllEndpoints db)"

definition listAccessibleEndpoints :: "string \<Rightarrow> string list \<Rightarrow> acl_db \<Rightarrow> endpoint list" where
  "listAccessibleEndpoints email groups db =
     filter (\<lambda>e. roleFor (ep_host e) email groups db \<noteq> RoleNone) (listAllEndpoints db)"

section \<open>What a role means\<close>

definition has_grant :: "acl_db \<Rightarrow> string \<Rightarrow> string \<Rightarrow> string list \<Rightarrow> string \<Rightarrow> bool" where
  "has_grant db host email groups role \<longleftrightarrow>
     (\<exists>g\<in>set (db_grants db). eq_fold (gr_host g) host \<and> grant_matches email groups g \<and> gr_role g = role)"

lemma best_role_owner:
  "b \<noteq> RoleOwner \<Longrightarrow> best_role email groups gs b = RoleOwner \<longleftrightarrow>
     (\<exists>g\<in>set gs. grant_matches email groups g \<and> gr_role g = ''owner'')"
  by (induction gs arbitrary: b) auto

lemma best_role_none:
  "best_role email groups gs b = RoleNone \<longleftrightarrow>
     b = RoleNone \<and> \<not> (\<exists>g\<in>set gs. grant_matches email groups g \<and> gr_role g \<in> {''owner'', ''access''})"
  by (induction gs arbitrary: b) auto

lemma set_listGrants [simp]: "set (listGrants host db) = {g \<in> set (db_grants db). eq_fold (gr_host g) host}"
  by (simp add: listGrants_def)

definition is_owner :: "acl_db \<Rightarrow> string \<Rightarrow> string \<Rightarrow> string list \<Rightarrow> bool" where
  "is_owner db host email groups \<longleftrightarrow>
     (\<exists>ep. getEndpoint host db = Some ep \<and> (eq_fold (ep_owner ep) email \<or> has_grant db host email groups ''owner''))"

definition is_member :: "acl_db \<Rightarrow> string \<Rightarrow> string \<Rightarrow> string list \<Rightarrow> bool" where
  "is_member db host email groups \<longleftrightarrow> is_owner db host email groups \<or>
     (getEndpoint host db \<noteq> None \<and> has_grant db host email groups ''access'')"

lemma directRoleFor_owner: "directRoleFor host email groups db = RoleOwner \<longleftrightarrow> is_owner db host email groups"
  by (auto simp: directRoleFor_def is_owner_def has_grant_def best_role_owner split: option.split)

lemma directRoleFor_none: "directRoleFor host email groups db = RoleNone \<longleftrightarrow> \<not> is_member db host email groups"
  by (auto simp: directRoleFor_def is_member_def is_owner_def has_grant_def best_role_none split: option.split)

text \<open>C24: who may do what. A caller owns an endpoint exactly when the recorded owner, or an owner
  grant to the caller or one of the caller's groups, is on the endpoint itself or on its workspace
  dashboard; a caller has any role at all exactly when an owner or access right is on one of the
  two. So an access right on the dashboard never becomes ownership of what it spawned.\<close>

theorem roleFor_delegation:
  "(roleFor host email groups db = RoleOwner) =
     (is_owner db host email groups \<or>
      (\<exists>ep. getEndpoint host db = Some ep \<and> workspaceMembershipSurface ep \<noteq> [] \<and>
         is_owner db (workspaceMembershipSurface ep) email groups)) \<and>
   (roleFor host email groups db \<noteq> RoleNone) =
     (is_member db host email groups \<or>
      (\<exists>ep. getEndpoint host db = Some ep \<and> workspaceMembershipSurface ep \<noteq> [] \<and>
         is_member db (workspaceMembershipSurface ep) email groups))"
proof -
  have o_none: "is_owner db h email groups \<Longrightarrow> getEndpoint h db \<noteq> None" for h by (auto simp: is_owner_def)
  have m_o: "is_owner db h email groups \<Longrightarrow> is_member db h email groups" for h by (simp add: is_member_def)
  show ?thesis
  proof (cases "getEndpoint host db")
    case None
    then show ?thesis
      by (simp add: roleFor_def Let_def directRoleFor_def is_owner_def is_member_def)
  next
    case (Some ep)
    let ?s = "workspaceMembershipSurface ep"
    have d: "directRoleFor h email groups db = (if is_owner db h email groups then RoleOwner
        else if is_member db h email groups then RoleAccess else RoleNone)" for h
      using directRoleFor_owner [of h email groups db] directRoleFor_none [of h email groups db] m_o [of h]
      by (cases "directRoleFor h email groups db") auto
    show ?thesis
      using m_o [of host] m_o [of ?s] by (auto simp: roleFor_def Let_def d Some)
  qed
qed

section \<open>The invariant of the store\<close>

definition endpoint_known :: "acl_db \<Rightarrow> string \<Rightarrow> bool" where
  "endpoint_known db host \<longleftrightarrow> (\<exists>e\<in>set (db_endpoints db). eq_fold (ep_host e) host)"

definition grant_key :: "grant \<Rightarrow> string \<times> string \<times> string \<times> string" where
  "grant_key g = (to_lower (gr_host g), gr_ptype g, to_lower (gr_value g), gr_role g)"

definition wf_endpoint :: "endpoint \<Rightarrow> bool" where
  "wf_endpoint e \<longleftrightarrow> ep_owner e \<noteq> [] \<and> trimmed (ep_owner e)"

definition wf_grant :: "grant \<Rightarrow> bool" where
  "wf_grant g \<longleftrightarrow> gr_ptype g \<in> {''email'', ''group''} \<and> gr_role g \<in> {''owner'', ''access''} \<and>
     gr_value g \<noteq> [] \<and> trimmed (gr_value g)"

definition acl_ok :: "acl_db \<Rightarrow> bool" where
  "acl_ok db \<longleftrightarrow>
     distinct (map (\<lambda>e. to_lower (ep_host e)) (db_endpoints db)) \<and>
     distinct (map grant_key (db_grants db)) \<and>
     distinct (map (\<lambda>r. (to_lower (rq_host r), to_lower (rq_email r))) (db_requests db)) \<and>
     (\<forall>e\<in>set (db_endpoints db). wf_endpoint e) \<and>
     (\<forall>g\<in>set (db_grants db). wf_grant g \<and> endpoint_known db (gr_host g)) \<and>
     (\<forall>r\<in>set (db_requests db). endpoint_known db (rq_host r))"

lemma same_grant_key: "same_grant host ptype value role g \<longleftrightarrow> grant_key g = (to_lower host, ptype, to_lower value, role)"
  by (auto simp: same_grant_def grant_key_def eq_fold_def)

lemma update_endpoints_hosts:
  "(\<And>e. ep_host (f e) = ep_host e) \<Longrightarrow>
   map (\<lambda>e. to_lower (ep_host e)) (db_endpoints (update_endpoints P f db)) = map (\<lambda>e. to_lower (ep_host e)) (db_endpoints db)"
  by (simp add: update_endpoints_def)

lemma endpoint_known_iff:
  "endpoint_known db host \<longleftrightarrow> to_lower host \<in> set (map (\<lambda>e. to_lower (ep_host e)) (db_endpoints db))"
  by (simp add: endpoint_known_def eq_fold_def image_iff) metis

lemma endpoint_known_update [simp]:
  assumes "\<And>e. ep_host (f e) = ep_host e"
  shows "endpoint_known (update_endpoints P f db) host = endpoint_known db host"
  using update_endpoints_hosts [OF assms, of P db] by (simp add: endpoint_known_iff)

lemma acl_ok_update:
  assumes "acl_ok db" and "\<And>e. ep_host (f e) = ep_host e"
    and "\<And>e. e \<in> set (db_endpoints db) \<Longrightarrow> wf_endpoint e \<Longrightarrow> wf_endpoint (f e)"
  shows "acl_ok (update_endpoints P f db)"
proof -
  have "db_grants (update_endpoints P f db) = db_grants db" "db_requests (update_endpoints P f db) = db_requests db"
    by (simp_all add: update_endpoints_def)
  moreover have "\<forall>e\<in>set (db_endpoints (update_endpoints P f db)). wf_endpoint e"
    using assms by (auto simp: update_endpoints_def acl_ok_def)
  ultimately show ?thesis
    using assms(1,2) update_endpoints_hosts [of f P db] by (simp add: acl_ok_def)
qed

lemma acl_ok_register:
  assumes "acl_ok db"
  shows "acl_ok (snd (registerEndpoint now host owner display parent kind stage db))"
proof -
  have ins: "acl_ok (db\<lparr>db_endpoints := db_endpoints db @ [e]\<rparr>)"
    if "\<not> endpoint_known db (ep_host e)" "wf_endpoint e" for e
    using assms that by (auto simp: acl_ok_def endpoint_known_def eq_fold_def image_iff)
  have kind: "acl_ok (update_endpoints P (\<lambda>e. e\<lparr>ep_kind := k\<rparr>) db')" if "acl_ok db'" for P k db'
    by (rule acl_ok_update [OF that]) (simp_all add: wf_endpoint_def)
  have stage: "acl_ok (update_endpoints P (\<lambda>e. e\<lparr>ep_stage := k\<rparr>) db')" if "acl_ok db'" for P k db'
    by (rule acl_ok_update [OF that]) (simp_all add: wf_endpoint_def)
  show ?thesis
    using assms unfolding registerEndpoint_def Let_def
    by (auto simp: wf_endpoint_def endpoint_known_def intro!: kind stage ins)
qed

lemma acl_ok_setOwner:
  "acl_ok db \<Longrightarrow> trim_space owner \<noteq> [] \<Longrightarrow> acl_ok (snd (setEndpointOwner host owner db))"
  by (auto simp: setEndpointOwner_def Let_def wf_endpoint_def intro!: acl_ok_update)

lemma acl_ok_delete: "acl_ok db \<Longrightarrow> acl_ok (deleteEndpoint host db)"
  unfolding acl_ok_def deleteEndpoint_def endpoint_known_def
  by (auto simp: distinct_map_filter) (metis eq_fold_sym eq_fold_trans)+

lemma acl_ok_setSource: "acl_ok db \<Longrightarrow> acl_ok (setEndpointSourceBP host source bp db)"
  by (auto simp: setEndpointSourceBP_def wf_endpoint_def intro!: acl_ok_update)

lemma acl_ok_insert_grant:
  assumes "acl_ok db" and "wf_grant g" and "endpoint_known db (gr_host g)" and "grant_key g \<notin> grant_key ` set (db_grants db)"
  shows "acl_ok (db\<lparr>db_grants := db_grants db @ [g]\<rparr>)"
  using assms by (simp add: acl_ok_def endpoint_known_def)

lemma addGrant_changed:
  assumes "snd (addGrant now host ptype v role by db) \<noteq> db"
  shows "ptype = ''email'' \<or> ptype = ''group''" "role = ''owner'' \<or> role = ''access''"
    "\<not> (\<exists>g\<in>set (db_grants db). same_grant host ptype v role g)" "endpoint_known db host"
    "snd (addGrant now host ptype v role by db) = db\<lparr>db_grants := db_grants db @
       [\<lparr>gr_host = host, gr_ptype = ptype, gr_value = v, gr_role = role, gr_at = now, gr_by = by\<rparr>]\<rparr>"
proof -
  show c1: "ptype = ''email'' \<or> ptype = ''group''"
    by (rule ccontr) (use assms in \<open>simp add: addGrant_def\<close>)
  show c2: "role = ''owner'' \<or> role = ''access''"
    by (rule ccontr) (use assms c1 in \<open>simp add: addGrant_def\<close>)
  show c3: "\<not> (\<exists>g\<in>set (db_grants db). same_grant host ptype v role g)"
    by (rule notI) (use assms c1 c2 in \<open>simp add: addGrant_def\<close>)
  show c4: "endpoint_known db host"
    by (rule ccontr) (use assms c1 c2 c3 in \<open>simp add: addGrant_def endpoint_known_def\<close>)
  then show "snd (addGrant now host ptype v role by db) = db\<lparr>db_grants := db_grants db @
       [\<lparr>gr_host = host, gr_ptype = ptype, gr_value = v, gr_role = role, gr_at = now, gr_by = by\<rparr>]\<rparr>"
    using c1 c2 c3 by (simp add: addGrant_def endpoint_known_def)
qed

lemma acl_ok_addGrant:
  assumes "acl_ok db" and "v \<noteq> []" and "trimmed v"
  shows "acl_ok (snd (addGrant now host ptype v role by db))"
proof (cases "snd (addGrant now host ptype v role by db) = db")
  case False
  let ?g = "\<lparr>gr_host = host, gr_ptype = ptype, gr_value = v, gr_role = role, gr_at = now, gr_by = by\<rparr>"
  note c = addGrant_changed [OF False]
  have "wf_grant ?g" using c(1,2) assms(2,3) by (simp add: wf_grant_def)
  moreover have "grant_key ?g \<notin> grant_key ` set (db_grants db)"
    using c(3) by (auto simp: same_grant_key grant_key_def)
  ultimately show ?thesis unfolding c(5) using assms(1) c(4) by (intro acl_ok_insert_grant) simp_all
qed (use assms(1) in simp)

lemma acl_ok_removeGrant: "acl_ok db \<Longrightarrow> acl_ok (removeGrant host ptype v role db)"
  by (auto simp: acl_ok_def removeGrant_def distinct_map_filter endpoint_known_def)

lemma acl_ok_addRequest:
  assumes "acl_ok db"
  shows "acl_ok (snd (addAccessRequest now host email db))"
proof (cases "\<exists>r\<in>set (db_requests db). eq_fold (rq_host r) host \<and> eq_fold (rq_email r) email")
  case True
  let ?f = "\<lambda>r. if eq_fold (rq_host r) host \<and> eq_fold (rq_email r) email then r\<lparr>rq_at := now\<rparr> else r"
  have keys: "distinct (map (\<lambda>r. (to_lower (rq_host r), to_lower (rq_email r))) (map ?f (db_requests db)))"
  proof -
    have eq: "map (\<lambda>r. (to_lower (rq_host r), to_lower (rq_email r))) (map ?f (db_requests db)) =
        map (\<lambda>r. (to_lower (rq_host r), to_lower (rq_email r))) (db_requests db)" by simp
    show ?thesis unfolding eq using assms unfolding acl_ok_def by (elim conjE)
  qed
  have "snd (addAccessRequest now host email db) = db\<lparr>db_requests := map ?f (db_requests db)\<rparr>"
    using True by (simp add: addAccessRequest_def)
  then show ?thesis
    using assms keys unfolding acl_ok_def by (simp del: map_map) (auto simp: endpoint_known_def)
next
  case False
  then show ?thesis
    using assms by (auto simp: addAccessRequest_def acl_ok_def endpoint_known_def image_iff eq_fold_def)
qed

lemma acl_ok_removeRequest: "acl_ok db \<Longrightarrow> acl_ok (removeAccessRequest host email db)"
  by (auto simp: acl_ok_def removeAccessRequest_def distinct_map_filter endpoint_known_def)

section \<open>Registration\<close>

lemma getEndpoint_Some: "getEndpoint host db = Some e \<Longrightarrow> e \<in> set (db_endpoints db) \<and> eq_fold (ep_host e) host"
  by (auto simp: getEndpoint_def find_Some_iff)

lemma getEndpoint_None: "getEndpoint host db = None \<longleftrightarrow> \<not> endpoint_known db host"
  by (auto simp: getEndpoint_def find_None_iff endpoint_known_def)

lemma getEndpoint_update:
  assumes "\<And>e. ep_host (f e) = ep_host e"
  shows "getEndpoint host (update_endpoints P f db) = map_option (\<lambda>e. if P e then f e else e) (getEndpoint host db)"
proof -
  have "find (\<lambda>e. eq_fold (ep_host e) host) (map (\<lambda>e. if P e then f e else e) es) =
      map_option (\<lambda>e. if P e then f e else e) (find (\<lambda>e. eq_fold (ep_host e) host) es)" for es
    by (induction es) (auto simp: assms)
  then show ?thesis by (simp add: getEndpoint_def update_endpoints_def)
qed

text \<open>What a second registration may change: an empty kind and an empty stage are filled in.\<close>

definition fill_in :: "string \<Rightarrow> string \<Rightarrow> endpoint \<Rightarrow> endpoint" where
  "fill_in kind stage e =
     e\<lparr>ep_kind := (if ep_kind e = [] then kind else ep_kind e),
       ep_stage := (if ep_stage e = [] then stage else ep_stage e)\<rparr>"

lemma fill_in_nil [simp]: "fill_in [] [] e = e"
  by (cases e) (simp add: fill_in_def)

lemma register_known:
  assumes "endpoint_known db (trim_space host)" and "trim_space host \<noteq> []" and "trim_space owner \<noteq> []"
  shows "snd (registerEndpoint now host owner display parent kind stage db) =
    update_endpoints (\<lambda>e. eq_fold (ep_host e) (trim_space host)) (fill_in kind stage) db"
proof -
  have "\<exists>e\<in>set (db_endpoints db). eq_fold (ep_host e) (trim_space host)"
    using assms(1) by (simp add: endpoint_known_def)
  then show ?thesis
    using assms(2,3)
    by (cases db) (auto simp: registerEndpoint_def Let_def update_endpoints_def fill_in_def cong: if_cong)
qed

text \<open>Registering a host that exists never takes it over: the recorded owner, parent, display
  name, provenance and creation time stay what they were, only an empty kind or stage is filled
  in, no other endpoint, grant or request changes, and the call answers with the existing
  record.\<close>

theorem registerEndpoint_never_overwrites:
  assumes "getEndpoint (trim_space host) db = Some e" and "trim_space host \<noteq> []" and "trim_space owner \<noteq> []"
  shows "fst (registerEndpoint now host owner display parent kind stage db) = Inr (Some (fill_in kind stage e)) \<and>
    (\<forall>h. \<not> eq_fold h (trim_space host) \<longrightarrow>
      getEndpoint h (snd (registerEndpoint now host owner display parent kind stage db)) = getEndpoint h db) \<and>
    db_grants (snd (registerEndpoint now host owner display parent kind stage db)) = db_grants db \<and>
    db_requests (snd (registerEndpoint now host owner display parent kind stage db)) = db_requests db \<and>
    ep_owner (fill_in kind stage e) = ep_owner e \<and> ep_parent (fill_in kind stage e) = ep_parent e \<and>
    ep_source (fill_in kind stage e) = ep_source e"
proof -
  have k: "endpoint_known db (trim_space host)" using assms(1) getEndpoint_None [of "trim_space host" db] by auto
  note s = register_known [OF k assms(2,3), of now display parent kind stage]
  have h: "ep_host (fill_in kind stage x) = ep_host x" for x by (simp add: fill_in_def)
  have e: "eq_fold (ep_host e) (trim_space host)" using getEndpoint_Some [OF assms(1)] by blast
  have "fst (registerEndpoint now host owner display parent kind stage db) =
      Inr (getEndpoint (trim_space host) (snd (registerEndpoint now host owner display parent kind stage db)))"
    using assms(2,3) by (simp add: registerEndpoint_def Let_def)
  moreover have "getEndpoint h' (snd (registerEndpoint now host owner display parent kind stage db)) = getEndpoint h' db"
    if "\<not> eq_fold h' (trim_space host)" for h'
  proof -
    have "\<not> eq_fold (ep_host x) (trim_space host)" if "getEndpoint h' db = Some x" for x
      using getEndpoint_Some [OF that] \<open>\<not> eq_fold h' (trim_space host)\<close> by (metis eq_fold_sym eq_fold_trans)
    then show ?thesis by (cases "getEndpoint h' db") (auto simp: s getEndpoint_update h)
  qed
  ultimately show ?thesis
    using assms(1) e by (simp add: s getEndpoint_update h) (simp add: update_endpoints_def fill_in_def)
qed

definition sample_acl :: acl_db where
  "sample_acl =
     \<lparr>db_endpoints =
        [\<lparr>ep_host = ''ws-dashboard.io'', ep_owner = ''ann@x'', ep_display = [], ep_parent = [],
          ep_kind = ''workspace'', ep_stage = [], ep_source = ''manual'', ep_source_bp = [], ep_created = 1\<rparr>,
         \<lparr>ep_host = ''app.io'', ep_owner = ''bob@x'', ep_display = [], ep_parent = ''ws-dashboard.io'',
          ep_kind = [], ep_stage = [], ep_source = ''manual'', ep_source_bp = [], ep_created = 2\<rparr>],
      db_grants =
        [\<lparr>gr_host = ''ws-dashboard.io'', gr_ptype = ''email'', gr_value = ''cid@x'', gr_role = ''owner'', gr_at = 3, gr_by = ''ann@x''\<rparr>],
      db_requests = []\<rparr>"

lemma sample_acl_ok: "acl_ok sample_acl"
  by (simp add: acl_ok_def sample_acl_def wf_endpoint_def wf_grant_def endpoint_known_def trimmed_def is_space_def
      to_lower_def lower_char_def grant_key_def)

lemma registerEndpoint_never_overwrites_witness:
  "\<exists>e. fst (registerEndpoint 9 '' app.io '' ''eve@x'' [] [] ''frontend'' [] sample_acl) = Inr (Some e) \<and>
     ep_owner e = ''bob@x'' \<and> ep_kind e = ''frontend''"
proof -
  let ?e = "\<lparr>ep_host = ''app.io'', ep_owner = ''bob@x'', ep_display = [], ep_parent = ''ws-dashboard.io'',
          ep_kind = [], ep_stage = [], ep_source = ''manual'', ep_source_bp = [], ep_created = 2\<rparr>"
  have t: "trim_space '' app.io '' = ''app.io''" "trim_space ''eve@x'' \<noteq> []"
    by (simp_all add: trim_space_def trim_right_def is_space_def)
  have g: "getEndpoint (trim_space '' app.io '') sample_acl = Some ?e"
    unfolding t by (simp add: getEndpoint_def sample_acl_def eq_fold_def to_lower_def lower_char_def)
  show ?thesis
    using registerEndpoint_never_overwrites [OF g _ t(2), of 9 "[]" "[]" "''frontend''" "[]"] t(1)
    by (auto simp: fill_in_def)
qed

section \<open>Ownership\<close>

definition owner_keys :: "acl_db \<Rightarrow> string \<Rightarrow> string set" where
  "owner_keys db host = to_lower ` set (endpointOwners host db)"

lemma add_owner_keys:
  "trimmed e \<Longrightarrow> e \<noteq> [] \<Longrightarrow> to_lower ` set (add_owner out e) = insert (to_lower e) (to_lower ` set out)"
  by (auto simp: add_owner_def Let_def) (metis imageI)

lemma endpointOwners_keys:
  assumes "acl_ok db"
  shows "owner_keys db host =
    (case getEndpoint host db of Some ep \<Rightarrow> {to_lower (ep_owner ep)} | None \<Rightarrow> {}) \<union>
    {to_lower (gr_value g) |g. g \<in> set (db_grants db) \<and> eq_fold (gr_host g) host \<and> gr_ptype g = ''email'' \<and> gr_role g = ''owner''}"
proof -
  have fold: "to_lower ` set (foldl (\<lambda>out g. if gr_ptype g = ''email'' \<and> gr_role g = ''owner'' then add_owner out (gr_value g) else out) out gs)
      = to_lower ` set out \<union> {to_lower (gr_value g) |g. g \<in> set gs \<and> gr_ptype g = ''email'' \<and> gr_role g = ''owner''}"
    if "\<forall>g\<in>set gs. gr_value g \<noteq> [] \<and> trimmed (gr_value g)" for out gs
    using that by (induction gs arbitrary: out) (auto simp: add_owner_keys)
  have "\<forall>g\<in>set (listGrants host db). gr_value g \<noteq> [] \<and> trimmed (gr_value g)"
    using assms by (auto simp: acl_ok_def wf_grant_def)
  from fold [OF this] have "owner_keys db host =
      to_lower ` set (case getEndpoint host db of Some ep \<Rightarrow> add_owner [] (ep_owner ep) | None \<Rightarrow> []) \<union>
      {to_lower (gr_value g) |g. g \<in> set (db_grants db) \<and> eq_fold (gr_host g) host \<and> gr_ptype g = ''email'' \<and> gr_role g = ''owner''}"
    by (auto simp: owner_keys_def endpointOwners_def Let_def)
  moreover have "trimmed (ep_owner ep) \<and> ep_owner ep \<noteq> []" if "getEndpoint host db = Some ep" for ep
    using assms getEndpoint_Some [OF that] by (auto simp: acl_ok_def wf_endpoint_def)
  ultimately show ?thesis by (auto simp: add_owner_keys split: option.splits)
qed

lemma owner_keys_is_owner:
  assumes "acl_ok db" and "getEndpoint host db \<noteq> None"
  shows "is_owner db host email [] \<longleftrightarrow> to_lower email \<in> owner_keys db host"
proof -
  have m: "grant_matches email [] g \<longleftrightarrow> gr_ptype g = ''email'' \<and> eq_fold (gr_value g) email" for g
    by (simp add: grant_matches_def)
  show ?thesis
    using assms(2) unfolding endpointOwners_keys [OF assms(1)] is_owner_def has_grant_def m
    by (auto simp: eq_fold_def)
qed

lemma removeGrant_keys:
  "db_endpoints (removeGrant host ptype v role db) = db_endpoints db"
  "g \<in> set (db_grants (removeGrant host ptype v role db)) \<longleftrightarrow> g \<in> set (db_grants db) \<and> \<not> same_grant host ptype v role g"
  by (simp_all add: removeGrant_def)

lemma getEndpoint_removeGrant [simp]: "getEndpoint h (removeGrant host ptype v role db) = getEndpoint h db"
  by (simp add: getEndpoint_def removeGrant_keys)

lemma owner_keys_trimmed:
  assumes "acl_ok db" and "o' \<in> set (endpointOwners host db)"
  shows "trimmed o' \<and> o' \<noteq> []"
proof -
  have add: "\<forall>x\<in>set (add_owner out e). trimmed x \<and> x \<noteq> []" if "\<forall>x\<in>set out. trimmed x \<and> x \<noteq> []" for out e
    using that by (auto simp: add_owner_def Let_def)
  let ?step = "\<lambda>out g. if gr_ptype g = ''email'' \<and> gr_role g = ''owner'' then add_owner out (gr_value g) else out"
  have step: "\<forall>x\<in>set (?step out g). trimmed x \<and> x \<noteq> []" if "\<forall>x\<in>set out. trimmed x \<and> x \<noteq> []" for out and g :: grant
    using that add [OF that, of "gr_value g"] by (simp only: split: if_split) blast
  have "\<forall>x\<in>set (foldl ?step out gs). trimmed x \<and> x \<noteq> []" if "\<forall>x\<in>set out. trimmed x \<and> x \<noteq> []" for out and gs :: "grant list"
    using that
  proof (induction gs arbitrary: out)
    case (Cons g gs)
    show ?case using Cons.IH [OF step [OF Cons.prems, of g]] by (simp only: foldl_Cons)
  qed simp
  moreover have "\<forall>x\<in>set (case getEndpoint host db of Some ep \<Rightarrow> add_owner [] (ep_owner ep) | None \<Rightarrow> []). trimmed x \<and> x \<noteq> []"
    using add [of "[]"] by (cases "getEndpoint host db") simp_all
  ultimately show ?thesis using assms(2) unfolding endpointOwners_def Let_def by blast
qed

text \<open>The owners after the two updates of a revocation.\<close>

lemma revoke_owner_keys:
  assumes "acl_ok db" and "getEndpoint host db = Some ep" and "host = trim_space host" "host \<noteq> []"
    and "r \<in> set (endpointOwners host db)" and "\<not> eq_fold r email"
    and "db1 = removeGrant host ''email'' email ''owner'' db"
    and "db' = (if eq_fold (ep_owner ep) email then snd (setEndpointOwner host r db1) else db1)"
  shows "acl_ok db' \<and> owner_keys db' host = owner_keys db host - {to_lower email}"
proof -
  have r: "trimmed r" "r \<noteq> []" "to_lower r \<in> owner_keys db host"
    using owner_keys_trimmed [OF assms(1,5)] assms(5) by (auto simp: owner_keys_def)
  have ok1: "acl_ok db1" unfolding assms(7) by (rule acl_ok_removeGrant [OF assms(1)])
  have ok': "acl_ok db'" using ok1 acl_ok_setOwner [OF ok1, of r host] r by (simp add: assms(8))
  have ge: "getEndpoint host db' = Some (if eq_fold (ep_owner ep) email then ep\<lparr>ep_owner := r\<rparr> else ep)"
    using assms(2,3,4) r(1) getEndpoint_Some [OF assms(2)]
    by (simp add: assms(7,8) setEndpointOwner_def Let_def getEndpoint_update)
  have gr: "db_grants db' = db_grants db1" by (simp add: assms(8) setEndpointOwner_def Let_def update_endpoints_def)
  let ?G = "\<lambda>d. {to_lower (gr_value g) |g. g \<in> set (db_grants d) \<and> eq_fold (gr_host g) host \<and> gr_ptype g = ''email'' \<and> gr_role g = ''owner''}"
  have G: "?G db1 = ?G db - {to_lower email}"
    by (auto simp: assms(7) removeGrant_keys same_grant_def eq_fold_def)
  have k': "owner_keys db' host = {to_lower (if eq_fold (ep_owner ep) email then r else ep_owner ep)} \<union> (?G db - {to_lower email})"
    using endpointOwners_keys [OF ok', of host] ge gr G by auto
  have k: "owner_keys db host = {to_lower (ep_owner ep)} \<union> ?G db"
    using endpointOwners_keys [OF assms(1), of host] assms(2) by simp
  have "to_lower r \<noteq> to_lower email" using assms(6) by (simp add: eq_fold_def)
  then show ?thesis using ok' r(3) unfolding k k' by (auto simp: eq_fold_def)
qed

text \<open>C27: revoking an owner. An endpoint keeps at least one owner: the request is refused, with
  nothing changed, exactly when it names the only one. Otherwise afterwards that address owns the
  endpoint no longer, neither as recorded owner nor by a grant, every other owner still does, and
  the store's invariant holds.\<close>

theorem revokeOwnership_keeps_an_owner:
  assumes "acl_ok db" and "getEndpoint host db \<noteq> None" and "host = trim_space host" "host \<noteq> []"
    and "revokeOwnership host email db = (err, db')"
  shows "acl_ok db' \<and> owner_keys db' host \<noteq> {} \<and>
    (err = Some LastOwner \<longleftrightarrow> owner_keys db host = {to_lower (trim_space email)}) \<and>
    (err = Some LastOwner \<longrightarrow> db' = db) \<and>
    (err \<noteq> Some LastOwner \<longrightarrow> err = None \<and> owner_keys db' host = owner_keys db host - {to_lower (trim_space email)} \<and>
       \<not> is_owner db' host (trim_space email) [])"
proof -
  let ?e = "trim_space email" and ?os = "endpointOwners host db"
  let ?rem = "filter (\<lambda>o'. \<not> eq_fold o' ?e) ?os"
  obtain ep where ep: "getEndpoint host db = Some ep" using assms(2) by blast
  have ne: "owner_keys db host \<noteq> {}" using endpointOwners_keys [OF assms(1), of host] ep by simp
  have io: "\<not> is_owner d host ?e []" if "acl_ok d" "getEndpoint host d \<noteq> None" "to_lower ?e \<notin> owner_keys d host" for d
    using owner_keys_is_owner [OF that(1,2), of ?e] that(3) by simp
  consider (no) "\<not> (\<exists>o'\<in>set ?os. eq_fold o' ?e)" | (last) "\<exists>o'\<in>set ?os. eq_fold o' ?e" "?rem = []"
    | (some) "\<exists>o'\<in>set ?os. eq_fold o' ?e" "?rem \<noteq> []" by blast
  then show ?thesis
  proof cases
    case no
    then have nk: "to_lower ?e \<notin> owner_keys db host"
      unfolding owner_keys_def eq_fold_def by (metis imageE)
    have eq: "err = None" "db' = db"
      using assms(5) no unfolding revokeOwnership_def Let_def by (simp_all only: if_True if_False not_False_eq_True prod.inject)
    have "owner_keys db host \<noteq> {to_lower ?e}" using nk by (metis singletonI)
    then show ?thesis
      unfolding eq using assms(1) ne io [OF assms(1,2) nk] Diff_insert_absorb [of "to_lower ?e" "owner_keys db host"] nk
      by (simp only: option.distinct simp_thms Diff_insert0 Diff_empty)
  next
    case last
    have "\<forall>o'\<in>set ?os. to_lower o' = to_lower ?e" using last(2) by (simp add: filter_empty_conv eq_fold_def)
    then have "to_lower ` set ?os = (\<lambda>_. to_lower ?e) ` set ?os" by (intro image_cong) simp_all
    moreover have "set ?os \<noteq> {}" using last(1) by (metis empty_iff)
    ultimately have k: "owner_keys db host = {to_lower ?e}" by (simp only: owner_keys_def image_constant_conv if_False)
    have eq: "err = Some LastOwner" "db' = db"
      using assms(5) last unfolding revokeOwnership_def Let_def by simp_all
    show ?thesis unfolding eq using assms(1) k by (simp only: simp_thms insert_not_empty)
  next
    case some
    then have r: "?rem ! 0 \<in> set ?rem" by (intro nth_mem) (simp only: length_greater_0_conv not_False_eq_True)
    then have r': "?rem ! 0 \<in> set ?os" "\<not> eq_fold (?rem ! 0) ?e"
      unfolding set_filter by blast+
    let ?db1 = "removeGrant host ''email'' ?e ''owner'' db"
    have res: "err = None" "db' = (if eq_fold (ep_owner ep) ?e then snd (setEndpointOwner host (?rem ! 0) ?db1) else ?db1)"
      using assms(5) some ep assms(3) [symmetric] assms(4) unfolding revokeOwnership_def Let_def
      by (simp_all add: setEndpointOwner_def split: if_splits)
    note k = revoke_owner_keys [OF assms(1) ep assms(3,4) r' refl res(2)]
    have "to_lower (?rem ! 0) \<in> owner_keys db host - {to_lower ?e}"
      using r' unfolding owner_keys_def eq_fold_def by simp
    moreover have "getEndpoint host db' \<noteq> None"
      using ep by (simp add: res(2) setEndpointOwner_def Let_def getEndpoint_update)
    moreover have "owner_keys db host \<noteq> {to_lower ?e}"
      using \<open>to_lower (?rem ! 0) \<in> owner_keys db host - {to_lower ?e}\<close> by blast
    ultimately show ?thesis using k res(1) io [of db'] by (simp only: option.distinct) blast
  qed
qed

lemma revokeOwnership_keeps_an_owner_witness:
  "owner_keys (snd (revokeOwnership ''ws-dashboard.io'' ''ann@x'' sample_acl)) ''ws-dashboard.io'' \<noteq> {}"
proof -
  obtain err db' where r: "revokeOwnership ''ws-dashboard.io'' ''ann@x'' sample_acl = (err, db')" by fastforce
  have "getEndpoint ''ws-dashboard.io'' sample_acl \<noteq> None" by (simp add: getEndpoint_def sample_acl_def)
  moreover have "''ws-dashboard.io'' = trim_space ''ws-dashboard.io''"
    by (simp add: trim_space_def trim_right_def is_space_def)
  ultimately show ?thesis
    using revokeOwnership_keeps_an_owner [OF sample_acl_ok _ _ _ r] r by simp
qed

section \<open>Managed routes of a workspace\<close>

lemma sql_like_percent: "sql_like [CHR ''%''] s"
  by (induction s) auto

lemma sql_like_prefix: "\<forall>c\<in>set p. c \<noteq> CHR ''%'' \<Longrightarrow> sql_like (p @ q) (p @ s) = sql_like q s"
  by (induction p) auto

text \<open>The reconcile's list of prunable hosts. It never contains a manual route, and with a
  business process it contains only that one's routes. But it goes by the name prefix: a managed
  host of the workspace \<open>a-b\<close> is listed for the workspace \<open>a\<close> as well when no business process
  is given, so that reconcile would prune another workspace's route.\<close>

theorem gitops_hosts_scope:
  assumes "\<forall>c\<in>set (w @ v). c \<noteq> CHR ''%''" and "e \<in> set (db_endpoints db)" and "ep_source e = ''gitops''"
    and "ep_host e = w @ ''-'' @ v @ ''-'' @ rest"
  shows "ep_host e \<in> set (listGitopsManagedHosts (w @ ''-'' @ v) [] db) \<and>
    ep_host e \<in> set (listGitopsManagedHosts w [] db) \<and>
    (h \<in> set (listGitopsManagedHosts w bp db) \<longrightarrow>
       (\<exists>e'\<in>set (db_endpoints db). ep_host e' = h \<and> ep_source e' = ''gitops'' \<and> (bp = [] \<or> ep_source_bp e' = bp)))"
proof -
  have "sql_like (w @ ''-%'') (ep_host e)"
    using sql_like_prefix [of "w @ ''-''" "''%''" "v @ ''-'' @ rest"] assms(1,4) by (simp add: sql_like_percent)
  moreover have "sql_like ((w @ ''-'' @ v) @ ''-%'') (ep_host e)"
    using sql_like_prefix [of "w @ ''-'' @ v @ ''-''" "''%''" rest] assms(1,4) by (simp add: sql_like_percent)
  ultimately show ?thesis using assms(2,3) by (auto simp: listGitopsManagedHosts_def)
qed

lemma gitops_hosts_scope_witness:
  "''shop-eu-api.io'' \<in> set (listGitopsManagedHosts ''shop'' [] (sample_acl\<lparr>db_endpoints :=
     [\<lparr>ep_host = ''shop-eu-api.io'', ep_owner = ''o@x'', ep_display = [], ep_parent = [], ep_kind = [],
       ep_stage = [], ep_source = ''gitops'', ep_source_bp = [], ep_created = 0\<rparr>]\<rparr>))"
  using gitops_hosts_scope [of "''shop''" "''eu''" "\<lparr>ep_host = ''shop-eu-api.io'', ep_owner = ''o@x'', ep_display = [],
       ep_parent = [], ep_kind = [], ep_stage = [], ep_source = ''gitops'', ep_source_bp = [], ep_created = 0\<rparr>" _ "''api.io''" ]
  by simp

end
