(* ===== verification/Acl_Share.thy ===== *)
theory Acl_Share
  imports Acl_Store
begin

text \<open>
  Who may change an endpoint's grants, and how (\<open>internal/daemon/acl_share.go\<close>,
  \<open>internal/daemon/acl_workspace_members.go\<close>): the form actions, the JSON API, the HTML form
  handler, access requests, and the inherited half of an endpoint's access list. A response is
  its status; whether the request carries a trusted-device cookie of the caller is an argument
  (\<open>callerHasTrustedDevice\<close>), as is the form, \<open>None\<close> when it cannot be parsed.
\<close>

section \<open>The code\<close>

type_synonym form = "string \<Rightarrow> string"

definition applyShareAction :: "int \<Rightarrow> string \<Rightarrow> string \<Rightarrow> form \<Rightarrow> acl_db \<Rightarrow> acl_result" where
  "applyShareAction now host caller fm db =
     (let action = trim_space (fm ''action'');
          pType = trim_space (fm ''principal_type'');
          pVal = trim_space (fm ''principal_value'');
          role0 = trim_space (fm ''role'')
      in if action = [] \<or> action = ''grant'' then
           (let role = (if role0 = [] then ''access'' else role0) in
            if pVal = [] then (Some PrincipalRequired, db)
            else case addGrant now host pType pVal role caller db of
                (Some e, db1) \<Rightarrow> (Some e, db1)
              | (None, db1) \<Rightarrow> (None, if pType = ''email'' then removeAccessRequest host pVal db1 else db1))
         else if action = ''revoke'' then
           (if pType = ''email'' \<and> role0 = ''owner'' then revokeOwnership host pVal db
            else (None, removeGrant host pType pVal role0 db))
         else if action = ''deny-request'' then
           (let target = trim_space (fm ''email'') in
            if target = [] then (Some EmailRequired, db) else (None, removeAccessRequest host target db))
         else (Some UnknownAction, db))"

datatype http_method = GET | POST | DELETE | OtherMethod string

text \<open>\<open>handleShareAPI\<close> from the unescaped host of the path on; \<open>body_ok\<close>: the body of a DELETE could
  be read and parsed, and its fields are in \<open>fm\<close>.\<close>

definition handleShareAPI ::
    "int \<Rightarrow> http_method \<Rightarrow> string \<Rightarrow> string \<Rightarrow> string list \<Rightarrow> bool \<Rightarrow> form option \<Rightarrow> bool \<Rightarrow> acl_db \<Rightarrow> nat \<times> acl_db" where
  "handleShareAPI now meth host email groups trusted fo body_ok db =
     (if host = [] then (400, db)
      else
        case getEndpoint host db of
          None \<Rightarrow> (404, db)
        | Some ep \<Rightarrow>
            if roleFor host email groups db \<noteq> RoleOwner then (403, db)
            else
              case meth of
                GET \<Rightarrow> (200, db)
              | OtherMethod _ \<Rightarrow> (405, db)
              | _ \<Rightarrow>
                  if \<not> trusted then (403, db)
                  else
                    case fo of
                      None \<Rightarrow> (400, db)
                    | Some fm0 \<Rightarrow>
                        if meth = DELETE \<and> \<not> body_ok then (400, db)
                        else
                          let fm = (if meth = DELETE then fm0(''action'' := ''revoke'') else fm0) in
                          case applyShareAction now host email fm db of
                            (Some _, db') \<Rightarrow> (400, db')
                          | (None, db') \<Rightarrow> (200, db'))"

text \<open>The HTML sibling.\<close>

definition handleShareEndpoint ::
    "int \<Rightarrow> http_method \<Rightarrow> string \<Rightarrow> string \<Rightarrow> string list \<Rightarrow> bool \<Rightarrow> form option \<Rightarrow> acl_db \<Rightarrow> nat \<times> acl_db" where
  "handleShareEndpoint now meth host email groups trusted fo db =
     (if host = [] then (200, db)
      else
        case getEndpoint host db of
          None \<Rightarrow> (404, db)
        | Some ep \<Rightarrow>
            if roleFor host email groups db \<noteq> RoleOwner then (403, db)
            else if meth = POST then
              (if \<not> trusted then (403, db)
               else
                 case fo of
                   None \<Rightarrow> (400, db)
                 | Some fm \<Rightarrow>
                     (case applyShareAction now host email fm db of
                        (Some _, db') \<Rightarrow> (400, db')
                      | (None, db') \<Rightarrow> (303, db')))
            else (200, db))"

definition handleRequestAccess :: "int \<Rightarrow> http_method \<Rightarrow> string \<Rightarrow> string \<Rightarrow> acl_db \<Rightarrow> nat \<times> acl_db" where
  "handleRequestAccess now meth host email db =
     (if meth \<noteq> POST then (405, db)
      else if host = [] then (400, db)
      else
        case getEndpoint host db of
          None \<Rightarrow> (404, db)
        | Some ep \<Rightarrow>
            (case addAccessRequest now host email db of
               (Some _, db') \<Rightarrow> (500, db')
             | (None, db') \<Rightarrow> (200, db')))"

text \<open>The inherited half of an access list; \<open>members\<close> is \<open>workspaceMemberEmails\<close>, the owners and
  e-mail grantees of the dashboard.\<close>

record workspace_access =
  wa_endpoint :: string
  wa_label :: string
  wa_members :: "string list"
  wa_groups :: "string list"

definition workspaceLabelForDashboardHost :: "(string \<Rightarrow> string) \<Rightarrow> string \<Rightarrow> string" where
  "workspaceLabelForDashboardHost by_host host =
     (let name = by_host (to_lower host) in
      if name \<noteq> [] then name
      else
        let label = (case index_byte CHR ''.'' host of
                       Some i \<Rightarrow> if 0 < i then take i host else host | None \<Rightarrow> host)
        in trim_suffix ''-dashboard'' label)"

definition workspaceAccessFor ::
    "(string \<Rightarrow> string) \<Rightarrow> (string \<Rightarrow> string list) \<Rightarrow> endpoint \<Rightarrow> acl_db \<Rightarrow> workspace_access option" where
  "workspaceAccessFor by_host members ep db =
     (let surface = workspaceMembershipSurface ep in
      if surface = [] then None
      else Some \<lparr>wa_endpoint = surface, wa_label = workspaceLabelForDashboardHost by_host surface,
                 wa_members = members surface,
                 wa_groups = map gr_value (filter (\<lambda>g. gr_ptype g = ''group'') (listGrants surface db))\<rparr>)"

section \<open>Frame of a share action\<close>

text \<open>Two stores agree on every host but one.\<close>

definition same_elsewhere :: "string \<Rightarrow> acl_db \<Rightarrow> acl_db \<Rightarrow> bool" where
  "same_elsewhere host db db' \<longleftrightarrow>
     (\<forall>h. \<not> eq_fold h host \<longrightarrow> getEndpoint h db' = getEndpoint h db \<and> listGrants h db' = listGrants h db \<and>
        listAccessRequests h db' = listAccessRequests h db)"

lemma same_elsewhere_refl [simp]: "same_elsewhere host db db"
  by (simp add: same_elsewhere_def)

lemma same_elsewhere_trans: "same_elsewhere host a b \<Longrightarrow> same_elsewhere host b c \<Longrightarrow> same_elsewhere host a c"
  by (simp add: same_elsewhere_def)

lemma eq_fold_other: "eq_fold x h \<Longrightarrow> \<not> eq_fold h host \<Longrightarrow> \<not> eq_fold x host"
  by (simp add: eq_fold_def)

lemma same_elsewhere_grants:
  assumes "\<And>h. \<not> eq_fold h host \<Longrightarrow> filter (\<lambda>g. eq_fold (gr_host g) h) gs' = filter (\<lambda>g. eq_fold (gr_host g) h) (db_grants db)"
  shows "same_elsewhere host db (db\<lparr>db_grants := gs'\<rparr>)"
  using assms by (simp add: same_elsewhere_def getEndpoint_def listGrants_def listAccessRequests_def)

lemma same_elsewhere_requests:
  assumes "\<And>h. \<not> eq_fold h host \<Longrightarrow> filter (\<lambda>r. eq_fold (rq_host r) h) rs' = filter (\<lambda>r. eq_fold (rq_host r) h) (db_requests db)"
  shows "same_elsewhere host db (db\<lparr>db_requests := rs'\<rparr>)"
  using assms by (simp add: same_elsewhere_def getEndpoint_def listGrants_def listAccessRequests_def)

lemma same_elsewhere_addGrant: "same_elsewhere host db (snd (addGrant now host ptype v role by db))"
proof (cases "snd (addGrant now host ptype v role by db) = db")
  case False
  show ?thesis
    unfolding addGrant_changed(5) [OF False] by (rule same_elsewhere_grants) (simp add: eq_fold_sym [of host])
qed simp

lemma same_elsewhere_removeGrant: "same_elsewhere host db (removeGrant host ptype v role db)"
  unfolding removeGrant_def
  by (rule same_elsewhere_grants) (auto simp: same_grant_def intro!: filter_cong dest: eq_fold_other)

lemma same_elsewhere_removeRequest: "same_elsewhere host db (removeAccessRequest host email db)"
  unfolding removeAccessRequest_def
  by (rule same_elsewhere_requests) (auto intro!: filter_cong dest: eq_fold_other)

lemma same_elsewhere_setOwner: "host = trim_space host \<Longrightarrow> same_elsewhere host db (snd (setEndpointOwner host o' db))"
proof -
  assume h: "host = trim_space host"
  have "getEndpoint k (update_endpoints (\<lambda>e. eq_fold (ep_host e) host) (\<lambda>e. e\<lparr>ep_owner := trim_space o'\<rparr>) db) = getEndpoint k db"
    if "\<not> eq_fold k host" for k
    using that getEndpoint_Some [of k db] eq_fold_other [of _ k host]
    by (cases "getEndpoint k db") (auto simp: getEndpoint_update)
  then show ?thesis
    using h [symmetric]
    by (simp add: setEndpointOwner_def Let_def same_elsewhere_def listGrants_def listAccessRequests_def)
      (simp add: update_endpoints_def)
qed

lemma same_elsewhere_revoke:
  assumes "host = trim_space host"
  shows "same_elsewhere host db (snd (revokeOwnership host email db))"
  unfolding revokeOwnership_def Let_def
  using same_elsewhere_trans [OF same_elsewhere_removeGrant same_elsewhere_setOwner [OF assms]]
    same_elsewhere_removeGrant
  by (simp split: option.split)

lemma grant_step_cases:
  "P db1 \<Longrightarrow> P (removeAccessRequest host v db1) \<Longrightarrow>
   P (snd (if pt = ''email'' then (None :: acl_err option, removeAccessRequest host v db1) else (None, db1)))"
  by simp

lemma snd_if_cases: "(c \<Longrightarrow> P (snd x)) \<Longrightarrow> (\<not> c \<Longrightarrow> P (snd y)) \<Longrightarrow> P (snd (if c then x else y))"
  by simp

text \<open>A predicate on stores that the four mutations a share action is made of keep.\<close>

lemma applyShareAction_induct:
  assumes "P db"
    and add: "\<And>ptype v role. v \<noteq> [] \<Longrightarrow> trimmed v \<Longrightarrow> P (snd (addGrant now host ptype v role caller db))"
    and add_drop: "\<And>ptype v role. v \<noteq> [] \<Longrightarrow> trimmed v \<Longrightarrow>
      P (removeAccessRequest host v (snd (addGrant now host ptype v role caller db)))"
    and revoke: "\<And>v. P (snd (revokeOwnership host v db))"
    and drop_grant: "\<And>ptype v role. P (removeGrant host ptype v role db)"
    and drop_req: "\<And>e. P (removeAccessRequest host e db)"
  shows "P (snd (applyShareAction now host caller fm db))"
proof -
  let ?v = "trim_space (fm ''principal_value'')"
  have g: "P (snd (case addGrant now host pt ?v r caller db of (Some e, db1) \<Rightarrow> (Some e, db1)
      | (None, db1) \<Rightarrow> (None, if pt = ''email'' then removeAccessRequest host ?v db1 else db1)))"
    if "?v \<noteq> []" for pt r
    using add [OF that trimmed_trim_space, of pt r] add_drop [OF that trimmed_trim_space, of pt r]
    by (cases "addGrant now host pt ?v r caller db"; cases "fst (addGrant now host pt ?v r caller db)") auto
  show ?thesis
    unfolding applyShareAction_def Let_def
    by (intro snd_if_cases [where P = P] g revoke) (simp_all add: assms(1) drop_grant drop_req)
qed

lemma same_elsewhere_share:
  assumes "host = trim_space host"
  shows "same_elsewhere host db (snd (applyShareAction now host caller fm db))"
  by (rule applyShareAction_induct)
    (simp_all add: same_elsewhere_addGrant same_elsewhere_trans [OF same_elsewhere_addGrant same_elsewhere_removeRequest]
      same_elsewhere_revoke [OF assms] same_elsewhere_removeGrant same_elsewhere_removeRequest)

lemma revokeOwnership_acl_ok: 
  assumes "acl_ok db" and "host = trim_space host" "host \<noteq> []" "getEndpoint host db \<noteq> None"
  shows "acl_ok (snd (revokeOwnership host email db))"
proof -
  let ?rem = "filter (\<lambda>o'. \<not> eq_fold o' (trim_space email)) (endpointOwners host db)"
  have ok1: "acl_ok (removeGrant host ''email'' (trim_space email) ''owner'' db)" by (rule acl_ok_removeGrant [OF assms(1)])
  have "acl_ok (snd (setEndpointOwner host (?rem ! 0) (removeGrant host ''email'' (trim_space email) ''owner'' db)))"
    if "length ?rem \<noteq> 0"
  proof (rule acl_ok_setOwner [OF ok1])
    have "?rem ! 0 \<in> set ?rem" using that by (intro nth_mem) (simp only: neq0_conv)
    then have "?rem ! 0 \<in> set (endpointOwners host db)" unfolding set_filter by blast
    then show "trim_space (?rem ! 0) \<noteq> []" using owner_keys_trimmed [OF assms(1)] trim_space_trimmed by metis
  qed
  then show ?thesis
    unfolding revokeOwnership_def Let_def using assms(1) ok1
    by (intro snd_if_cases [where P = acl_ok]) (auto split: option.split)
qed

lemma share_acl_ok:
  assumes "acl_ok db" and "host = trim_space host" "host \<noteq> []" "getEndpoint host db \<noteq> None"
  shows "acl_ok (snd (applyShareAction now host caller fm db))"
  by (rule applyShareAction_induct)
    (simp_all add: assms(1) acl_ok_addGrant acl_ok_removeRequest revokeOwnership_acl_ok [OF assms] acl_ok_removeGrant)

section \<open>Authority\<close>

lemma handleShareAPI_cases:
  "(\<exists>st. handleShareAPI now meth host email groups trusted fo body_ok db = (st, db)) \<or>
   (roleFor host email groups db = RoleOwner \<and> trusted \<and> (meth = POST \<or> meth = DELETE) \<and> host \<noteq> [] \<and>
    getEndpoint host db \<noteq> None \<and>
    (\<exists>st fm. handleShareAPI now meth host email groups trusted fo body_ok db = (st, snd (applyShareAction now host email fm db))))"
proof (cases "host = [] \<or> getEndpoint host db = None \<or> roleFor host email groups db \<noteq> RoleOwner \<or>
    (meth \<noteq> POST \<and> meth \<noteq> DELETE) \<or> \<not> trusted \<or> fo = None \<or> (meth = DELETE \<and> \<not> body_ok)")
  case True
  then have "\<exists>st. handleShareAPI now meth host email groups trusted fo body_ok db = (st, db)"
    by (cases meth) (auto simp: handleShareAPI_def split: option.splits)
  then show ?thesis ..
next
  case False
  from False obtain fm0 where fo: "fo = Some fm0" by (cases fo) auto
  let ?fm = "if meth = DELETE then fm0(''action'' := ''revoke'') else fm0"
  have "\<exists>st. handleShareAPI now meth host email groups trusted fo body_ok db = (st, snd (applyShareAction now host email ?fm db))"
    using False fo by (cases meth) (auto simp: handleShareAPI_def Let_def split: option.split prod.split)
  then have "\<exists>st fm. handleShareAPI now meth host email groups trusted fo body_ok db = (st, snd (applyShareAction now host email fm db))"
    by (elim exE) (rule exI, rule exI)
  moreover have "roleFor host email groups db = RoleOwner" "trusted" "meth = POST \<or> meth = DELETE" "host \<noteq> []"
    "getEndpoint host db \<noteq> None"
    using False by simp_all
  ultimately show ?thesis by blast
qed

text \<open>C25: authority over sharing. The share API changes the store only for a caller who owns the
  endpoint, on a device the caller has paired, and by a POST or DELETE; whatever the form says it
  then touches that endpoint only (its record, grants and requests), so no role on any other
  endpoint's own list changes; and the store stays consistent.\<close>

theorem share_api_authority:
  assumes "handleShareAPI now meth host email groups trusted fo body_ok db = (status, db')"
    and "host = trim_space host" and "acl_ok db"
  shows "(db' \<noteq> db \<longrightarrow> roleFor host email groups db = RoleOwner \<and> trusted \<and> (meth = POST \<or> meth = DELETE)) \<and>
    same_elsewhere host db db' \<and> acl_ok db' \<and>
    (\<not> eq_fold h host \<longrightarrow> directRoleFor h who gs db' = directRoleFor h who gs db)"
proof -
  have s: "same_elsewhere host db db'" and ok: "acl_ok db'"
    and auth: "db' \<noteq> db \<Longrightarrow> roleFor host email groups db = RoleOwner \<and> trusted \<and> (meth = POST \<or> meth = DELETE)"
  proof -
    consider "db' = db"
      | fm where "roleFor host email groups db = RoleOwner" "trusted" "meth = POST \<or> meth = DELETE" "host \<noteq> []"
        "getEndpoint host db \<noteq> None" "db' = snd (applyShareAction now host email fm db)"
      using handleShareAPI_cases [of now meth host email groups trusted fo body_ok db, unfolded assms(1) prod.inject]
      by blast
    then have "same_elsewhere host db db' \<and> acl_ok db' \<and>
        (db' \<noteq> db \<longrightarrow> roleFor host email groups db = RoleOwner \<and> trusted \<and> (meth = POST \<or> meth = DELETE))"
    proof cases
      case 1
      then show ?thesis by (simp add: assms(3))
    next
      case (2 fm)
      then show ?thesis
        using same_elsewhere_share [OF assms(2), of db now email fm] share_acl_ok [OF assms(3,2), of now email fm] by blast
    qed
    then show "same_elsewhere host db db'" "acl_ok db'"
      "db' \<noteq> db \<Longrightarrow> roleFor host email groups db = RoleOwner \<and> trusted \<and> (meth = POST \<or> meth = DELETE)" by blast+
  qed
  have "directRoleFor h who gs db' = directRoleFor h who gs db" if "\<not> eq_fold h host"
  proof -
    have "getEndpoint h db' = getEndpoint h db" "listGrants h db' = listGrants h db"
      using s that unfolding same_elsewhere_def by blast+
    then show ?thesis by (cases "getEndpoint h db") (simp_all add: directRoleFor_def)
  qed
  with s ok auth show ?thesis by blast
qed

definition share_form :: form where
  "share_form = (\<lambda>_. [])(''principal_type'' := ''email'', ''principal_value'' := ''dan@x'')"

lemma app_host_trimmed: "''app.io'' = trim_space ''app.io''"
  by (simp add: trim_space_def trim_right_def is_space_def)

lemma share_api_authority_witness:
  "snd (handleShareAPI 9 POST ''app.io'' ''eve@x'' [] True (Some share_form) True sample_acl) = sample_acl"
proof (rule ccontr)
  assume n: "\<not> ?thesis"
  obtain st db' where h: "handleShareAPI 9 POST ''app.io'' ''eve@x'' [] True (Some share_form) True sample_acl = (st, db')"
    by fastforce
  have "roleFor ''app.io'' ''eve@x'' [] sample_acl = RoleOwner"
    using share_api_authority [OF h app_host_trimmed sample_acl_ok] n h by simp
  moreover have "directRoleFor ''app.io'' ''eve@x'' [] sample_acl = RoleNone"
    "directRoleFor ''ws-dashboard.io'' ''eve@x'' [] sample_acl = RoleNone"
    by (simp_all add: directRoleFor_def getEndpoint_def sample_acl_def eq_fold_def to_lower_def lower_char_def
        listGrants_def grant_matches_def)
  moreover have "getEndpoint ''app.io'' sample_acl = Some (db_endpoints sample_acl ! 1)"
    by (simp add: getEndpoint_def sample_acl_def eq_fold_def to_lower_def lower_char_def)
  ultimately show False
    by (simp add: roleFor_def Let_def workspaceMembershipSurface_def sample_acl_def eq_fold_def to_lower_def lower_char_def)
qed

text \<open>C26: asking and granting. When an owner on a paired device grants an address with the form's
  defaults (no action, no role), the answer is 200, the address has a role on the endpoint from
  then on, its pending access request is gone, and nobody's own role on the endpoint is lost.\<close>

theorem grant_satisfies_request:
  assumes "roleFor host caller groups db = RoleOwner" and "host \<noteq> []"
    and "trim_space (fm ''action'') = []" "trim_space (fm ''principal_type'') = ''email''"
    and "trim_space (fm ''principal_value'') = v" "v \<noteq> []" "trim_space (fm ''role'') = []"
    and "handleShareAPI now POST host caller groups True (Some fm) body_ok db = (status, db')"
  shows "status = 200 \<and> roleFor host v [] db' \<noteq> RoleNone \<and>
    \<not> list_ex (\<lambda>r. eq_fold (rq_email r) v) (listAccessRequests host db') \<and>
    (is_member db host who gs \<longrightarrow> is_member db' host who gs)"
proof -
  obtain ep where ep: "getEndpoint host db = Some ep"
    using assms(1) by (cases "getEndpoint host db") (auto simp: roleFor_def directRoleFor_def Let_def)
  then have known: "\<exists>e\<in>set (db_endpoints db). eq_fold (ep_host e) host"
    using getEndpoint_Some [OF ep] by blast
  let ?db1 = "snd (addGrant now host ''email'' v ''access'' caller db)"
  have err: "fst (addGrant now host ''email'' v ''access'' caller db) = None" using known by (simp add: addGrant_def)
  have r: "status = 200" "db' = removeAccessRequest host v ?db1"
    using assms ep err
    by (cases "addGrant now host ''email'' v ''access'' caller db"; auto simp: handleShareAPI_def applyShareAction_def Let_def)+
  have eps: "db_endpoints db' = db_endpoints db"
    unfolding r(2) by (simp add: removeAccessRequest_def addGrant_def)
  then have ge: "getEndpoint h db' = getEndpoint h db" for h by (simp add: getEndpoint_def)
  have grants: "set (db_grants db) \<subseteq> set (db_grants db')" "\<exists>g\<in>set (db_grants db'). same_grant host ''email'' v ''access'' g"
    unfolding r(2) using known by (auto simp: removeAccessRequest_def addGrant_def same_grant_def)
  have keep: "has_grant db host who gs role \<Longrightarrow> has_grant db' host who gs role" for who gs role
    using grants(1) unfolding has_grant_def by blast
  have "has_grant db' host v [] ''access''"
  proof -
    from grants(2) obtain g where g: "g \<in> set (db_grants db')" "same_grant host ''email'' v ''access'' g" by blast
    have "grant_matches v [] g" using g(2) by (simp add: same_grant_def grant_matches_def)
    moreover have "eq_fold (gr_host g) host" "gr_role g = ''access''" using g(2) by (simp_all add: same_grant_def)
    ultimately show ?thesis unfolding has_grant_def using g(1) by blast
  qed
  then have "is_member db' host v []" using ge ep by (simp add: is_member_def)
  then have "directRoleFor host v [] db' \<noteq> RoleNone" by (simp add: directRoleFor_none)
  then have "roleFor host v [] db' \<noteq> RoleNone"
    unfolding roleFor_def Let_def by (auto split: option.split)
  moreover have "\<not> list_ex (\<lambda>r. eq_fold (rq_email r) v) (listAccessRequests host db')"
    unfolding r(2) by (auto simp: list_ex_iff listAccessRequests_def removeAccessRequest_def)
  moreover have "is_member db host who gs \<Longrightarrow> is_member db' host who gs"
    using ge keep by (auto simp: is_member_def is_owner_def)
  ultimately show ?thesis using r(1) by blast
qed

lemma grant_satisfies_request_witness:
  "roleFor ''app.io'' ''dan@x'' [] (snd (handleShareAPI 9 POST ''app.io'' ''bob@x'' [] True (Some share_form) True sample_acl)) \<noteq> RoleNone"
proof -
  obtain st db' where h: "handleShareAPI 9 POST ''app.io'' ''bob@x'' [] True (Some share_form) True sample_acl = (st, db')"
    by fastforce
  have "roleFor ''app.io'' ''bob@x'' [] sample_acl = RoleOwner"
    by (simp add: roleFor_def directRoleFor_def getEndpoint_def sample_acl_def eq_fold_def to_lower_def lower_char_def)
  then show ?thesis
    using grant_satisfies_request [of "''app.io''" "''bob@x''" "[]" sample_acl share_form "''dan@x''" 9 True st db'] h
    by (simp add: share_form_def trim_space_def trim_right_def is_space_def)
qed

end
