(* ===== verification/Jobs.thy ===== *)
theory Jobs
  imports Prelude
begin

text \<open>
  The daemon's interactive jobs (\<open>internal/daemon/jobs.go\<close>): the job object and its operations, the
  job table, the line writer and the input reader, and the HTTP handlers. A job's two Go channels
  are their contents: \<open>inputChan\<close> has capacity one, \<open>outputChan\<close> capacity 100; \<open>job_done\<close> says
  that \<open>doneChan\<close> and \<open>outputChan\<close> are closed, which \<open>Complete\<close> does together. A send on a
  closed channel and a second close panic. The time stamps of log entries are not modelled. The
  goroutines of a restore job are in the theory \<open>Job_Runs\<close>.
\<close>

section \<open>The job\<close>

datatype job_state =
    JobStatePending | JobStateRunning | JobStateWaitingInput | JobStateCompleted | JobStateFailed

record log_entry =
  le_level :: string
  le_message :: string
  le_prompt :: string

record job =
  job_type :: string
  job_state :: job_state
  job_error :: string
  job_input :: "string option"
  job_output :: "log_entry list"
  job_done :: bool

datatype job_err = NotWaitingForInput | InputChannelFull | JobCancelled | InputTimeout

definition output_cap :: nat where "output_cap = 100"

definition new_job :: "string \<Rightarrow> job" where
  "new_job typ = \<lparr>job_type = typ, job_state = JobStatePending, job_error = [], job_input = None,
                   job_output = [], job_done = False\<rparr>"

type_synonym job_table = "string \<Rightarrow> job option"

text \<open>\<open>jid\<close> is the random identifier drawn for the job.\<close>

definition CreateJob :: "string \<Rightarrow> string \<Rightarrow> job_table \<Rightarrow> job \<times> job_table" where
  "CreateJob jid typ m = (new_job typ, m(jid \<mapsto> new_job typ))"

definition GetJob :: "string \<Rightarrow> job_table \<Rightarrow> job option" where
  "GetJob jid m = m jid"

definition DeleteJob :: "string \<Rightarrow> job_table \<Rightarrow> job_table" where
  "DeleteJob jid m = m(jid := None)"

definition SetState :: "job_state \<Rightarrow> job \<Rightarrow> job" where
  "SetState st j = j\<lparr>job_state := st\<rparr>"

definition GetState :: "job \<Rightarrow> job_state" where
  "GetState j = job_state j"

text \<open>A send on \<open>outputChan\<close> in a select with a default branch.\<close>

definition try_output :: "log_entry \<Rightarrow> job \<Rightarrow> (job_err, job) outcome" where
  "try_output e j =
     (if job_done j then Panic
      else Ret (if length (job_output j) < output_cap then j\<lparr>job_output := job_output j @ [e]\<rparr> else j))"

definition Log :: "string \<Rightarrow> string \<Rightarrow> job \<Rightarrow> (job_err, job) outcome" where
  "Log level message j = try_output \<lparr>le_level = level, le_message = message, le_prompt = []\<rparr> j"

text \<open>\<open>Prompt\<close> up to its wait, and the wait: \<open>woken\<close> is the ready branch the select takes.\<close>

datatype woken = ByInput | ByDone | ByTimeout

definition PromptAsk :: "string \<Rightarrow> job \<Rightarrow> (job_err, job) outcome" where
  "PromptAsk prompt j =
     try_output \<lparr>le_level = ''prompt'', le_message = [], le_prompt = prompt\<rparr> (SetState JobStateWaitingInput j)"

definition PromptWait :: "woken \<Rightarrow> job \<Rightarrow> (job_err + string) option \<times> job" where
  "PromptWait w j =
     (case w of
        ByInput \<Rightarrow>
          (case job_input j of
             None \<Rightarrow> (None, j) \<comment> \<open>not ready\<close>
           | Some input \<Rightarrow> (Some (Inr (trim_space input)), SetState JobStateRunning (j\<lparr>job_input := None\<rparr>)))
      | ByDone \<Rightarrow> (if job_done j then Some (Inl JobCancelled) else None, j)
      | ByTimeout \<Rightarrow> (Some (Inl InputTimeout), j))"

text \<open>The channel send of \<open>SendInput\<close>, after its state check.\<close>

definition put_input :: "string \<Rightarrow> job \<Rightarrow> job_err option \<times> job" where
  "put_input input j =
     (case job_input j of
        None \<Rightarrow> (None, j\<lparr>job_input := Some input\<rparr>)
      | Some _ \<Rightarrow> (Some InputChannelFull, j))"

definition SendInput :: "string \<Rightarrow> job \<Rightarrow> job_err option \<times> job" where
  "SendInput input j =
     (if GetState j \<noteq> JobStateWaitingInput then (Some NotWaitingForInput, j) else put_input input j)"

text \<open>The argument is the error of the job's work, \<open>None\<close> for nil.\<close>

definition Complete :: "string option \<Rightarrow> job \<Rightarrow> (job_err, job) outcome" where
  "Complete err j =
     (let j1 = (case err of
                  Some e \<Rightarrow> j\<lparr>job_state := JobStateFailed, job_error := e\<rparr>
                | None \<Rightarrow> j\<lparr>job_state := JobStateCompleted\<rparr>)
      in if job_done j then Panic else Ret (j1\<lparr>job_done := True\<rparr>))"

definition IsDone :: "job \<Rightarrow> bool" where
  "IsDone j = job_done j"

section \<open>The line writer and the input reader\<close>

definition newline :: char where "newline = CHR 0x0A"

record job_writer =
  jw_level :: string
  jw_buffer :: string

definition NewJobWriter :: "string \<Rightarrow> job_writer" where
  "NewJobWriter level = \<lparr>jw_level = level, jw_buffer = []\<rparr>"

lemma index_byte_less: "index_byte c s = Some i \<Longrightarrow> i < length s \<and> s ! i = c"
  by (induction s arbitrary: i) (auto split: if_splits)

function write_loop :: "string \<Rightarrow> string \<Rightarrow> job \<Rightarrow> (job_err, string \<times> job) outcome" where
  "write_loop level str j =
     (case index_byte newline str of
        None \<Rightarrow> Ret (str, j)
      | Some idx \<Rightarrow>
          (let line = take idx str; rest = drop (idx + 1) str in
           obind (if line \<noteq> [] then Log level line j else Ret j) (\<lambda>j'. write_loop level rest j')))"
  by pat_completeness auto

termination
  by (relation "measure (\<lambda>(l, s, j). length s)") (auto dest: index_byte_less)

declare write_loop.simps [simp del]

definition Write :: "string \<Rightarrow> job_writer \<Rightarrow> job \<Rightarrow> (job_err, nat \<times> job_writer \<times> job) outcome" where
  "Write p w j =
     obind (write_loop (jw_level w) (jw_buffer w @ p) j) (\<lambda>(buf, j').
     Ret (length p, w\<lparr>jw_buffer := buf\<rparr>, j'))"

definition Flush :: "job_writer \<Rightarrow> job \<Rightarrow> (job_err, job_writer \<times> job) outcome" where
  "Flush w j =
     (if 0 < length (jw_buffer w)
      then obind (Log (jw_level w) (jw_buffer w) j) (\<lambda>j'. Ret (w\<lparr>jw_buffer := []\<rparr>, j'))
      else Ret (w, j))"

text \<open>\<open>JobInputReader.Read\<close> into a buffer of length \<open>plen\<close>: \<open>None\<close> while it blocks, \<open>Inl\<close> for
  end of file, otherwise the returned count and the bytes copied.\<close>

definition ReadInput :: "nat \<Rightarrow> job \<Rightarrow> (unit + nat \<times> string) option \<times> job" where
  "ReadInput plen j =
     (if IsDone j then (Some (Inl ()), j)
      else
        case job_input j of
          None \<Rightarrow> (None, j)
        | Some input0 \<Rightarrow>
            let input = (if \<not> suffix [newline] input0 then input0 @ [newline] else input0)
            in (Some (Inr (length input, take plen input)), j\<lparr>job_input := None\<rparr>))"

section \<open>HTTP handlers\<close>

datatype http_verb = VerbGet | VerbPost | VerbOther

datatype restore_kind = CouchDB | Postgres | Garage

record launch =
  la_kind :: restore_kind
  la_job :: string
  la_workspace :: string
  la_stage :: string
  la_backup :: string

datatype job_reply =
    ErrorReply nat                            \<comment> \<open>writeJSONError with its status\<close>
  | CreatedReply string job_state
  | StatusReply string string job_state string
  | StreamReply string                        \<comment> \<open>200, then the entries of the job\<close>
  | InputReply

text \<open>A decoded request: type, workspace and the string parameters (a missing parameter, or one
  that is not a string, reads as the empty string).\<close>

type_synonym create_req = "string \<times> string \<times> (string \<Rightarrow> string)"

definition kind_of_type :: "string \<Rightarrow> restore_kind option" where
  "kind_of_type t =
     (if t = ''couchdb_restore'' then Some CouchDB
      else if t = ''postgres_restore'' then Some Postgres
      else if t = ''garage_restore'' then Some Garage else None)"

definition handleCreateJob ::
    "http_verb \<Rightarrow> create_req option \<Rightarrow> string \<Rightarrow> job_table \<Rightarrow> (job_err, job_reply \<times> launch option \<times> job_table) outcome" where
  "handleCreateJob meth body jid m =
     (if meth \<noteq> VerbPost then Ret (ErrorReply 405, None, m)
      else
        case body of
          None \<Rightarrow> Ret (ErrorReply 400, None, m)
        | Some (typ, workspace, params) \<Rightarrow>
            (case CreateJob jid typ m of (j0, m1) \<Rightarrow>
               let j1 = SetState JobStateRunning j0 in
               case kind_of_type typ of
                 Some k \<Rightarrow>
                   Ret (CreatedReply jid (job_state j1),
                        Some \<lparr>la_kind = k, la_job = jid, la_workspace = workspace,
                              la_stage = params ''stage'', la_backup = params ''backup_path''\<rparr>,
                        m1(jid \<mapsto> j1))
               | None \<Rightarrow>
                   obind (Complete (Some (''unknown job type: '' @ typ)) j1) (\<lambda>j2.
                   Ret (CreatedReply jid (job_state j2), None, m1(jid \<mapsto> j2)))))"

text \<open>\<open>strings.Split(strings.Trim(path, "/"), "/")\<close>.\<close>

definition path_parts :: "string \<Rightarrow> string list" where
  "path_parts path =
     split_on CHR ''/''
       (rev (dropWhile (\<lambda>c. c = CHR ''/'') (rev (dropWhile (\<lambda>c. c = CHR ''/'') path))))"

text \<open>\<open>can_flush\<close>: the response writer is an \<open>http.Flusher\<close>.\<close>

definition handleJobStream :: "http_verb \<Rightarrow> string \<Rightarrow> bool \<Rightarrow> job_table \<Rightarrow> job_reply" where
  "handleJobStream meth path can_flush m =
     (if meth \<noteq> VerbGet then ErrorReply 405
      else if length (path_parts path) < 3 then ErrorReply 400
      else
        let jobID = path_parts path ! 1 in
        case GetJob jobID m of
          None \<Rightarrow> ErrorReply 404
        | Some j \<Rightarrow> if \<not> can_flush then ErrorReply 500 else StreamReply jobID)"

text \<open>One turn of its loop: an entry to encode, the end of the stream with the final status
  line, or \<open>None\<close> while the channel is empty and open.\<close>

datatype stream_item = Entry log_entry | Final job_state string

definition stream_next :: "job \<Rightarrow> (stream_item \<times> job) option" where
  "stream_next j =
     (case job_output j of
        e # es \<Rightarrow> Some (Entry e, j\<lparr>job_output := es\<rparr>)
      | [] \<Rightarrow> if job_done j then Some (Final (GetState j) (job_error j), j) else None)"

definition handleJobInput ::
    "http_verb \<Rightarrow> string \<Rightarrow> string option \<Rightarrow> job_table \<Rightarrow> job_reply \<times> job_table" where
  "handleJobInput meth path body m =
     (if meth \<noteq> VerbPost then (ErrorReply 405, m)
      else if length (path_parts path) < 3 then (ErrorReply 400, m)
      else
        let jobID = path_parts path ! 1 in
        case GetJob jobID m of
          None \<Rightarrow> (ErrorReply 404, m)
        | Some j \<Rightarrow>
            (case body of
               None \<Rightarrow> (ErrorReply 400, m)
             | Some input \<Rightarrow>
                 (case SendInput input j of
                    (Some _, j') \<Rightarrow> (ErrorReply 400, m(jobID \<mapsto> j'))
                  | (None, j') \<Rightarrow> (InputReply, m(jobID \<mapsto> j')))))"

definition handleJobStatus :: "http_verb \<Rightarrow> string \<Rightarrow> job_table \<Rightarrow> job_reply" where
  "handleJobStatus meth path m =
     (if meth \<noteq> VerbGet then ErrorReply 405
      else if length (path_parts path) < 2 then ErrorReply 400
      else
        let jobID = path_parts path ! 1 in
        case GetJob jobID m of
          None \<Rightarrow> ErrorReply 404
        | Some j \<Rightarrow> StatusReply jobID (job_type j) (GetState j) (job_error j))"

text \<open>\<open>handleJobs\<close>: the request is the method, the path and the two possible bodies.\<close>

definition handleJobs ::
    "http_verb \<Rightarrow> string \<Rightarrow> create_req option \<Rightarrow> string option \<Rightarrow> bool \<Rightarrow> string \<Rightarrow> job_table \<Rightarrow>
     (job_err, job_reply \<times> launch option \<times> job_table) outcome" where
  "handleJobs meth path create input can_flush jid m =
     (let parts = path_parts path in
      if length parts = 1 \<and> meth = VerbPost then handleCreateJob meth create jid m
      else if length parts = 2 \<and> meth = VerbGet then Ret (handleJobStatus meth path m, None, m)
      else if length parts = 3 \<and> parts ! 2 = ''stream'' \<and> meth = VerbGet
      then Ret (handleJobStream meth path can_flush m, None, m)
      else if length parts = 3 \<and> parts ! 2 = ''input'' \<and> meth = VerbPost
      then (case handleJobInput meth path input m of (rep, m') \<Rightarrow> Ret (rep, None, m'))
      else Ret (ErrorReply 404, None, m))"

section \<open>The writer against its specification\<close>

text \<open>Logging a list of lines.\<close>

fun log_lines :: "string \<Rightarrow> string list \<Rightarrow> job \<Rightarrow> (job_err, job) outcome" where
  "log_lines level [] j = Ret j"
| "log_lines level (l # ls) j = obind (Log level l j) (log_lines level ls)"

fun write_all :: "string list \<Rightarrow> job_writer \<Rightarrow> job \<Rightarrow> (job_err, job_writer \<times> job) outcome" where
  "write_all [] w j = Ret (w, j)"
| "write_all (p # ps) w j = obind (Write p w j) (\<lambda>(n, w', j'). write_all ps w' j')"

lemma obind_assoc: "obind (obind m f) g = obind m (\<lambda>x. obind (f x) g)"
  by (cases m) auto

lemma obind_Ret_right: "obind m Ret = m"
  by (cases m) auto

lemma log_lines_none: "log_lines level [] = Ret"
  by (rule ext) simp

lemma log_lines_one: "log_lines level [l] j = Log level l j"
  by (simp add: log_lines_none obind_Ret_right)

lemma log_lines_append: "log_lines level (xs @ ys) = (\<lambda>j. obind (log_lines level xs j) (log_lines level ys))"
proof (induction xs)
  case (Cons x xs)
  show ?case by (rule ext) (simp add: obind_assoc Cons.IH)
qed (simp add: fun_eq_iff)

lemma split_on_last_append:
  "split_on c (s @ t) = butlast (split_on c s) @ split_on c (last (split_on c s) @ t)"
proof (induction s)
  case (Cons x s)
  obtain p ps where s: "split_on c s = p # ps" by (cases "split_on c s") auto
  show ?case
  proof (cases ps)
    case Nil
    then show ?thesis using Cons s by (cases "split_on c (p @ t)") auto
  qed (use Cons s in auto)
qed simp

lemma write_loop_eq:
  "write_loop level str j =
     obind (log_lines level (filter (\<lambda>l. l \<noteq> []) (butlast (split_on newline str))) j) (\<lambda>j'. Ret (last (split_on newline str), j'))"
proof (induction level str j rule: write_loop.induct)
  case (1 level str j)
  show ?case
  proof (cases "index_byte newline str")
    case None
    have "newline \<notin> set str" using None by (simp add: index_byte_None)
    then have split: "split_on newline str = [str]" by (rule split_on_no_sep)
    show ?thesis by (simp add: write_loop.simps [of level str] None split)
  next
    case (Some i)
    define line rest where lr: "line = take i str" "rest = drop (i + 1) str"
    have line: "line = takeWhile (\<lambda>x. x \<noteq> newline) str"
      using index_byte_takeWhile [of str newline] Some by (simp add: lr)
    have i: "i < length str" "str ! i = newline" using index_byte_less [OF Some] by auto
    have str: "str = line @ newline # rest"
      using id_take_nth_drop [OF i(1)] i(2) by (simp add: lr)
    have no: "newline \<notin> set line" unfolding line by (auto dest: set_takeWhileD)
    have split: "split_on newline str = line # split_on newline rest"
      using split_on_first [OF no, of rest] by (simp only: str [symmetric])
    have IH: "write_loop level rest j' =
        obind (log_lines level (filter (\<lambda>l. l \<noteq> []) (butlast (split_on newline rest))) j') (\<lambda>j''. Ret (last (split_on newline rest), j''))" for j'
      using "1.IH" [OF Some lr] by blast
    have "write_loop level str j = obind (if line \<noteq> [] then Log level line j else Ret j) (write_loop level rest)"
      using Some by (simp add: write_loop.simps [of level str] lr)
    also have "\<dots> = obind (log_lines level (filter (\<lambda>l. l \<noteq> []) [line]) j) (write_loop level rest)"
      by (simp add: obind_Ret_right log_lines_none)
    finally show ?thesis
      unfolding split IH by (simp add: log_lines_append obind_assoc obind_Ret_right log_lines_none)
  qed
qed

lemma write_all_eq:
  "newline \<notin> set (jw_buffer w) \<Longrightarrow>
   write_all ps w j =
     (let parts = split_on newline (jw_buffer w @ concat ps) in
      obind (log_lines (jw_level w) (filter (\<lambda>l. l \<noteq> []) (butlast parts)) j) (\<lambda>j'. Ret (w\<lparr>jw_buffer := last parts\<rparr>, j')))"
proof (induction ps arbitrary: w j)
  case Nil
  then show ?case by (simp add: split_on_no_sep)
next
  case (Cons p ps)
  let ?s = "split_on newline (jw_buffer w @ p)"
  define w' where "w' = w\<lparr>jw_buffer := last ?s\<rparr>"
  have IH: "write_all ps w' j' =
      (let parts = split_on newline (last ?s @ concat ps) in
       obind (log_lines (jw_level w) (filter (\<lambda>l. l \<noteq> []) (butlast parts)) j') (\<lambda>j''. Ret (w'\<lparr>jw_buffer := last parts\<rparr>, j'')))" for j'
    using Cons.IH [of w' j'] last_split_on_no_sep by (simp add: w'_def)
  have parts: "split_on newline (jw_buffer w @ concat (p # ps)) = butlast ?s @ split_on newline (last ?s @ concat ps)"
    using split_on_last_append [of newline "jw_buffer w @ p" "concat ps"] by simp
  show ?case
    unfolding parts using IH
    by (simp add: Write_def write_loop_eq obind_assoc Let_def butlast_append log_lines_append w'_def)
qed

text \<open>The line writer logs exactly the non-empty lines of what is written to it. However the
  output is cut into chunks, writing them and flushing has the effect of logging, in order, the
  non-empty lines of the whole text, the last one even without its newline; the writer is empty
  afterwards, and where logging panics (the job is complete) so does the writer.\<close>

theorem job_writer_logs_lines:
  "obind (write_all chunks (NewJobWriter level) j) (\<lambda>(w, j1). Flush w j1) =
   obind (log_lines level (filter (\<lambda>l. l \<noteq> []) (split_on newline (concat chunks))) j)
     (\<lambda>j'. Ret (NewJobWriter level, j'))"
proof -
  let ?s = "split_on newline (concat chunks)"
  have s: "?s = butlast ?s @ [last ?s]" by simp
  have "log_lines level (filter (\<lambda>l. l \<noteq> []) ?s) j =
      obind (log_lines level (filter (\<lambda>l. l \<noteq> []) (butlast ?s)) j) (log_lines level (filter (\<lambda>l. l \<noteq> []) [last ?s]))"
    by (subst s) (simp only: filter_append log_lines_append)
  then show ?thesis
    by (simp add: write_all_eq NewJobWriter_def Let_def Flush_def obind_assoc obind_Ret_right log_lines_none cong: if_cong)
qed

end
