(* ===== verification/Job_Runs.thy ===== *)
theory Job_Runs
  imports Jobs
begin

text \<open>
  The goroutines of a restore job (\<open>runCouchDBRestoreJob\<close>, \<open>runPostgresRestoreJob\<close> and
  \<open>runGarageRestoreJob\<close> of \<open>internal/daemon/jobs.go\<close>, three copies of one body around different
  proxy calls): the body itself, the reader of the captured standard output, and the feeder of
  client input, interleaved with the clients that answer prompts and stream the output. Each event
  is one atomic step of one of them. The proxied restore is the environment: it emits output on the
  process's standard output and returns, or panics, at any moment. The 200 ms pause before the job
  completes is a time-out, so nothing makes the reader finish first: in a \<open>patient\<close> run it does.
\<close>

section \<open>State\<close>

datatype main_pc = Proxying | Draining "string option" | Finished
datatype reader_pc = Reading | Prompting string | ReaderGone
datatype feeder_pc = Waiting | Holding string | FeederGone

text \<open>\<open>r_pipe\<close>: bytes written to the stdout pipe and not yet read; \<open>r_wclosed\<close>: the write ends of
  both pipes are closed; \<open>r_clients\<close>: inputs whose sender has passed the state check of
  \<open>SendInput\<close> and not yet sent; \<open>r_sent\<close> and \<open>r_emitted\<close> record what was streamed and printed.\<close>

record run =
  r_job :: job
  r_main :: main_pc
  r_reader :: reader_pc
  r_feeder :: feeder_pc
  r_pipe :: string
  r_wclosed :: bool
  r_buf :: string
  r_stdin :: string
  r_clients :: "string list"
  r_sent :: "log_entry list"
  r_emitted :: string
  r_crashed :: bool

definition start_run :: "job \<Rightarrow> run" where
  "start_run j =
     \<lparr>r_job = j, r_main = Proxying, r_reader = Reading, r_feeder = Waiting, r_pipe = [], r_wclosed = False,
      r_buf = [], r_stdin = [], r_clients = [], r_sent = [], r_emitted = [], r_crashed = False\<rparr>"

datatype run_event =
    Emit string | ReadByte | ReadTimeout | PromptSent | ReadEOF
  | FeederTake | FeederWrite | FeederStop
  | ProxyReturns "string option" | ProxyPanics string | Completes
  | ClientCheck string | ClientSend nat | StreamTake

section \<open>Steps\<close>

definition with_job :: "(job_err, job) outcome \<Rightarrow> run \<Rightarrow> run" where
  "with_job out s = (case out of Ret j \<Rightarrow> s\<lparr>r_job := j\<rparr> | _ \<Rightarrow> s\<lparr>r_crashed := True\<rparr>)"

text \<open>\<open>strings.TrimRight(s, "\n\r")\<close>.\<close>

definition trim_eol :: "string \<Rightarrow> string" where
  "trim_eol s = rev (dropWhile (\<lambda>c. c = newline \<or> c = CHR 0x0D) (rev s))"

text \<open>The reader goroutine: a byte, a read time-out, the blocking send of a prompt, the end of
  the pipe.\<close>

definition reader_byte :: "run \<Rightarrow> run" where
  "reader_byte s =
     (case r_pipe s of
        [] \<Rightarrow> s
      | c # cs \<Rightarrow>
          let buf = r_buf s @ [c]; s1 = s\<lparr>r_pipe := cs\<rparr>
          in if c = newline then
               (let line = trim_eol buf; s2 = s1\<lparr>r_buf := []\<rparr>
                in if line \<noteq> [] then with_job (Log ''info'' line (r_job s2)) s2 else s2)
             else s1\<lparr>r_buf := buf\<rparr>)"

definition reader_timeout :: "run \<Rightarrow> run" where
  "reader_timeout s =
     (let partial = r_buf s
      in if partial \<noteq> [] \<and> str_contains partial ''(yes/no)''
         then s\<lparr>r_job := SetState JobStateWaitingInput (r_job s), r_reader := Prompting partial\<rparr>
         else s)"

definition reader_prompt :: "string \<Rightarrow> run \<Rightarrow> run" where
  "reader_prompt partial s =
     (if job_done (r_job s) then s\<lparr>r_crashed := True\<rparr> \<comment> \<open>send on a closed channel\<close>
      else s\<lparr>r_job := (r_job s)\<lparr>job_output := job_output (r_job s) @
                 [\<lparr>le_level = ''prompt'', le_message = [], le_prompt = partial\<rparr>]\<rparr>,
             r_buf := [], r_reader := Reading\<rparr>)"

definition reader_eof :: "run \<Rightarrow> run" where
  "reader_eof s =
     (let s1 = (if 0 < length (r_buf s) then with_job (Log ''info'' (r_buf s) (r_job s)) s else s)
      in s1\<lparr>r_buf := [], r_reader := ReaderGone\<rparr>)"

text \<open>The feeder goroutine.\<close>

definition feeder_take :: "run \<Rightarrow> run" where
  "feeder_take s =
     (case job_input (r_job s) of
        None \<Rightarrow> s
      | Some input \<Rightarrow> s\<lparr>r_job := (r_job s)\<lparr>job_input := None\<rparr>, r_feeder := Holding input\<rparr>)"

definition feeder_write :: "string \<Rightarrow> run \<Rightarrow> run" where
  "feeder_write input s =
     s\<lparr>r_job := SetState JobStateRunning (r_job s), r_feeder := Waiting,
       r_stdin := (if r_wclosed s then r_stdin s else r_stdin s @ input @ [newline])\<rparr>"

text \<open>The body: the proxy call has returned and the write ends are closed; then \<open>Complete\<close>. A
  panic of the proxy call is recovered by the deferred function, which completes the job and
  leaves the pipes open.\<close>

definition body_close :: "string option \<Rightarrow> run \<Rightarrow> run" where
  "body_close err s = s\<lparr>r_main := Draining err, r_wclosed := True\<rparr>"

definition body_complete :: "string option \<Rightarrow> run \<Rightarrow> run" where
  "body_complete err s = with_job (Complete err (r_job s)) (s\<lparr>r_main := Finished\<rparr>)"

fun apply_run :: "run_event \<Rightarrow> run \<Rightarrow> run" where
  "apply_run (Emit bs) s = s\<lparr>r_pipe := r_pipe s @ bs, r_emitted := r_emitted s @ bs\<rparr>"
| "apply_run ReadByte s = reader_byte s"
| "apply_run ReadTimeout s = reader_timeout s"
| "apply_run PromptSent s = (case r_reader s of Prompting p \<Rightarrow> reader_prompt p s | _ \<Rightarrow> s)"
| "apply_run ReadEOF s = reader_eof s"
| "apply_run FeederTake s = feeder_take s"
| "apply_run FeederWrite s = (case r_feeder s of Holding i \<Rightarrow> feeder_write i s | _ \<Rightarrow> s)"
| "apply_run FeederStop s = s\<lparr>r_feeder := FeederGone\<rparr>"
| "apply_run (ProxyReturns err) s = body_close err s"
| "apply_run (ProxyPanics m) s = body_complete (Some (''panic: '' @ m)) s"
| "apply_run Completes s = (case r_main s of Draining err \<Rightarrow> body_complete err s | _ \<Rightarrow> s)"
| "apply_run (ClientCheck i) s = s\<lparr>r_clients := r_clients s @ [i]\<rparr>"
| "apply_run (ClientSend k) s =
     s\<lparr>r_job := snd (put_input (r_clients s ! k) (r_job s)),
       r_clients := take k (r_clients s) @ drop (Suc k) (r_clients s)\<rparr>"
| "apply_run StreamTake s =
     s\<lparr>r_sent := r_sent s @ take 1 (job_output (r_job s)),
       r_job := (r_job s)\<lparr>job_output := drop 1 (job_output (r_job s))\<rparr>\<rparr>"

text \<open>When an event can happen; \<open>patient\<close>: the pause before completion was long enough for the
  reader to finish, and the proxy call does not panic.\<close>

fun run_enabled :: "bool \<Rightarrow> run_event \<Rightarrow> run \<Rightarrow> bool" where
  "run_enabled patient (Emit bs) s = (\<not> r_wclosed s)"
| "run_enabled patient ReadByte s = (r_reader s = Reading \<and> r_pipe s \<noteq> [])"
| "run_enabled patient ReadTimeout s = (r_reader s = Reading \<and> r_pipe s = [] \<and> \<not> r_wclosed s)"
| "run_enabled patient PromptSent s =
     ((case r_reader s of Prompting p \<Rightarrow> True | _ \<Rightarrow> False) \<and>
      (job_done (r_job s) \<or> length (job_output (r_job s)) < output_cap))"
| "run_enabled patient ReadEOF s = (r_reader s = Reading \<and> r_pipe s = [] \<and> r_wclosed s)"
| "run_enabled patient FeederTake s = (r_feeder s = Waiting \<and> job_input (r_job s) \<noteq> None)"
| "run_enabled patient FeederWrite s = (case r_feeder s of Holding i \<Rightarrow> True | _ \<Rightarrow> False)"
| "run_enabled patient FeederStop s = (r_feeder s = Waiting \<and> job_done (r_job s))"
| "run_enabled patient (ProxyReturns err) s = (r_main s = Proxying)"
| "run_enabled patient (ProxyPanics m) s = (r_main s = Proxying \<and> \<not> patient)"
| "run_enabled patient Completes s =
     ((case r_main s of Draining err \<Rightarrow> True | _ \<Rightarrow> False) \<and> (patient \<longrightarrow> r_reader s = ReaderGone))"
| "run_enabled patient (ClientCheck i) s = (GetState (r_job s) = JobStateWaitingInput)"
| "run_enabled patient (ClientSend k) s = (k < length (r_clients s))"
| "run_enabled patient StreamTake s = (job_output (r_job s) \<noteq> [])"

text \<open>The three runners: the proxied service call, the start and the steps.\<close>

record runner =
  ru_service :: string
  ru_workspace :: string
  ru_stage :: string
  ru_backup :: string
  ru_start :: "job \<Rightarrow> run"
  ru_step :: "run_event \<Rightarrow> run \<Rightarrow> run"

definition runCouchDBRestoreJob :: "string \<Rightarrow> string \<Rightarrow> string \<Rightarrow> runner" where
  "runCouchDBRestoreJob workspace stage backupPath =
     \<lparr>ru_service = ''couchdb'', ru_workspace = workspace, ru_stage = stage, ru_backup = backupPath,
      ru_start = start_run, ru_step = apply_run\<rparr>"

definition runPostgresRestoreJob :: "string \<Rightarrow> string \<Rightarrow> string \<Rightarrow> runner" where
  "runPostgresRestoreJob workspace stage backupPath =
     \<lparr>ru_service = ''postgres'', ru_workspace = workspace, ru_stage = stage, ru_backup = backupPath,
      ru_start = start_run, ru_step = apply_run\<rparr>"

definition runGarageRestoreJob :: "string \<Rightarrow> string \<Rightarrow> string \<Rightarrow> runner" where
  "runGarageRestoreJob workspace stage backupPath =
     \<lparr>ru_service = ''garage'', ru_workspace = workspace, ru_stage = stage, ru_backup = backupPath,
      ru_start = start_run, ru_step = apply_run\<rparr>"

definition runner_of :: "launch \<Rightarrow> runner" where
  "runner_of l =
     (case la_kind l of
        CouchDB \<Rightarrow> runCouchDBRestoreJob (la_workspace l) (la_stage l) (la_backup l)
      | Postgres \<Rightarrow> runPostgresRestoreJob (la_workspace l) (la_stage l) (la_backup l)
      | Garage \<Rightarrow> runGarageRestoreJob (la_workspace l) (la_stage l) (la_backup l))"

text \<open>Everything that can happen to a job launched by \<open>handleCreateJob\<close>.\<close>

inductive restore_reach :: "bool \<Rightarrow> launch \<Rightarrow> run \<Rightarrow> bool" for patient l where
  start: "restore_reach patient l (ru_start (runner_of l) (SetState JobStateRunning (new_job typ)))"
| step: "restore_reach patient l s \<Longrightarrow> \<not> r_crashed s \<Longrightarrow> run_enabled patient e s \<Longrightarrow>
     restore_reach patient l (ru_step (runner_of l) e s)"

lemma runner_parts [simp]: "ru_start (runner_of l) = start_run" "ru_step (runner_of l) = apply_run"
  by (cases "la_kind l"; simp add: runner_of_def runCouchDBRestoreJob_def runPostgresRestoreJob_def
      runGarageRestoreJob_def)+

section \<open>The invariant\<close>

text \<open>The text of an entry, and what has been logged so far, streamed or queued.\<close>

definition entry_text :: "log_entry \<Rightarrow> string" where
  "entry_text e = le_message e @ le_prompt e"

definition logged_text :: "run \<Rightarrow> string" where
  "logged_text s = concat (map entry_text (r_sent s @ job_output (r_job s)))"

definition run_inv :: "bool \<Rightarrow> run \<Rightarrow> bool" where
  "run_inv patient s \<longleftrightarrow>
     length (job_output (r_job s)) \<le> output_cap \<and>
     (job_done (r_job s) \<longleftrightarrow> r_main s = Finished) \<and>
     (\<forall>p. r_reader s = Prompting p \<longrightarrow> r_buf s = p) \<and> (r_reader s = ReaderGone \<longrightarrow> r_buf s = []) \<and>
     subseq (logged_text s @ r_buf s @ r_pipe s) (r_emitted s) \<and>
     (r_wclosed s \<longrightarrow> r_main s \<noteq> Proxying) \<and>
     (patient \<longrightarrow> (job_done (r_job s) \<longrightarrow> r_reader s = ReaderGone) \<and>
                  (r_main s \<noteq> Proxying \<longrightarrow> r_wclosed s) \<and> \<not> r_crashed s)"

lemma trim_eol_subseq: "subseq (trim_eol s) s"
proof -
  have "prefix (rev (dropWhile P (rev s))) s" for P
    using suffix_dropWhile [of P "rev s"] by (simp add: suffix_to_prefix)
  then show ?thesis unfolding trim_eol_def by (rule prefix_imp_subseq)
qed

lemma with_log_open:
  "\<not> job_done (r_job s) \<Longrightarrow> with_job (Log lvl msg (r_job s)) s =
     s\<lparr>r_job := (r_job s)\<lparr>job_output := job_output (r_job s) @
       (if length (job_output (r_job s)) < output_cap then [\<lparr>le_level = lvl, le_message = msg, le_prompt = []\<rparr>] else [])\<rparr>\<rparr>"
  by (simp add: with_job_def Log_def try_output_def)

lemma with_log_done: "job_done (r_job s) \<Longrightarrow> with_job (Log lvl msg (r_job s)) s = s\<lparr>r_crashed := True\<rparr>"
  by (simp add: with_job_def Log_def try_output_def)

lemma body_complete_open:
  "\<not> job_done (r_job s) \<Longrightarrow> body_complete err s =
     s\<lparr>r_main := Finished,
       r_job := (case err of Some e \<Rightarrow> (r_job s)\<lparr>job_state := JobStateFailed, job_error := e, job_done := True\<rparr>
                 | None \<Rightarrow> (r_job s)\<lparr>job_state := JobStateCompleted, job_done := True\<rparr>)\<rparr>"
  by (simp add: body_complete_def with_job_def Complete_def split: option.split)

lemma put_input_frame [simp]:
  "job_output (snd (put_input i j)) = job_output j" "job_done (snd (put_input i j)) = job_done j"
  "job_state (snd (put_input i j)) = job_state j"
  by (simp_all add: put_input_def split: option.split)

lemma SetState_frame [simp]:
  "job_output (SetState st j) = job_output j" "job_done (SetState st j) = job_done j"
  "job_input (SetState st j) = job_input j" "job_state (SetState st j) = st"
  by (simp_all add: SetState_def)

text \<open>The text half of the invariant: a step of the reader only drops characters.\<close>

lemma subseq_logged:
  assumes "subseq (logged_text s @ r_buf s @ r_pipe s) (r_emitted s)"
    and "subseq (logged_text s' @ r_buf s' @ r_pipe s') (logged_text s @ r_buf s @ r_pipe s)"
    and "r_emitted s' = r_emitted s"
  shows "subseq (logged_text s' @ r_buf s' @ r_pipe s') (r_emitted s')"
  using assms subseq_order.trans by metis

lemma reader_byte_text:
  assumes "run_inv patient s"
  shows "subseq (logged_text (reader_byte s) @ r_buf (reader_byte s) @ r_pipe (reader_byte s))
    (logged_text s @ r_buf s @ r_pipe s)"
proof (cases "r_pipe s")
  case (Cons c cs)
  have "subseq (trim_eol (r_buf s @ [c]) @ cs) ((r_buf s @ [c]) @ cs)" by (simp only: subseq_append trim_eol_subseq)
  moreover have "subseq cs ((r_buf s @ [c]) @ cs)" by (rule suffix_imp_subseq) (rule suffixI, rule refl)
  ultimately show ?thesis
    by (cases "job_done (r_job s)"; cases "c = newline")
      (auto simp: reader_byte_def Cons Let_def with_job_def Log_def try_output_def logged_text_def entry_text_def
        subseq_append')
qed (simp add: reader_byte_def)

text \<open>Preservation, one group of events at a time.\<close>

lemma inv_environment:
  assumes "run_inv patient s" and "run_enabled patient e s"
    and "e = Emit bs \<or> e = ReadTimeout \<or> e = FeederTake \<or> e = FeederWrite \<or> e = FeederStop \<or>
      e = ClientCheck i \<or> e = ClientSend k \<or> e = ProxyReturns err \<or> e = StreamTake"
  shows "run_inv patient (apply_run e s)"
proof -
  have t: "subseq (logged_text s @ r_buf s @ r_pipe s) (r_emitted s)" using assms(1) by (simp add: run_inv_def)
  have pipe: "subseq (logged_text s @ r_buf s @ r_pipe s @ bs) (r_emitted s @ bs)"
    using list_emb_append_mono [OF t, of bs bs] by simp
  from assms(3) show ?thesis
  proof (elim disjE)
    assume e: "e = Emit bs"
    then show ?thesis using assms(1,2) pipe by (simp add: run_inv_def logged_text_def)
  next
    assume e: "e = FeederTake"
    then show ?thesis using assms(1,2) by (auto simp: run_inv_def logged_text_def feeder_take_def)
  next
    assume e: "e = FeederWrite"
    then show ?thesis using assms(1,2)
      by (auto simp: run_inv_def logged_text_def feeder_write_def split: feeder_pc.splits)
  next
    assume e: "e = StreamTake"
    have "concat (map entry_text (r_sent s @ take 1 xs @ drop 1 xs)) = concat (map entry_text (r_sent s @ xs))" for xs
      by (simp only: append_take_drop_id)
    then have "logged_text (apply_run e s) = logged_text s" by (simp add: e logged_text_def)
    then show ?thesis using assms(1,2) by (auto simp: e run_inv_def)
  next
    assume "e = ReadTimeout"
    then show ?thesis using assms(1,2) by (auto simp: run_inv_def logged_text_def reader_timeout_def Let_def)
  qed (use assms(1,2) in \<open>auto simp: run_inv_def logged_text_def body_close_def\<close>)
qed

lemma inv_reader_byte:
  assumes "run_inv patient s" and "run_enabled patient ReadByte s"
  shows "run_inv patient (reader_byte s)"
proof -
  obtain c cs where c: "r_pipe s = c # cs" using assms(2) by (cases "r_pipe s") auto
  have r: "r_reader s = Reading" using assms(2) by simp
  have tx: "subseq (logged_text (reader_byte s) @ r_buf (reader_byte s) @ r_pipe (reader_byte s)) (r_emitted s)"
    using reader_byte_text [OF assms(1)] assms(1) subseq_order.trans unfolding run_inv_def by blast
  have emitted: "r_emitted (reader_byte s) = r_emitted s"
    by (simp add: reader_byte_def c Let_def with_job_def split: outcome.split)
  have done_: "patient \<Longrightarrow> \<not> job_done (r_job s)" using assms(1) r by (auto simp: run_inv_def)
  show ?thesis
    using assms(1) r done_ tx emitted
    by (cases "job_done (r_job s)")
      (auto simp: run_inv_def reader_byte_def c Let_def with_job_def Log_def try_output_def)
qed

lemma inv_reader_prompt:
  assumes "run_inv patient s" and "r_reader s = Prompting p" and "run_enabled patient PromptSent s"
  shows "run_inv patient (reader_prompt p s)"
proof (cases "job_done (r_job s)")
  case True
  then show ?thesis using assms by (auto simp: run_inv_def reader_prompt_def logged_text_def)
next
  case False
  then show ?thesis using assms by (auto simp: run_inv_def reader_prompt_def logged_text_def entry_text_def)
qed

lemma inv_reader_eof:
  assumes "run_inv patient s" and "run_enabled patient ReadEOF s"
  shows "run_inv patient (reader_eof s)"
proof -
  have t: "subseq (logged_text s @ r_buf s) (r_emitted s)" using assms by (simp add: run_inv_def)
  have t': "subseq (logged_text s) (r_emitted s)"
    by (rule subseq_order.trans [OF prefix_imp_subseq t]) simp
  have done_: "patient \<Longrightarrow> \<not> job_done (r_job s)" using assms by (auto simp: run_inv_def)
  show ?thesis
    using assms t t' done_
    by (cases "job_done (r_job s)")
      (auto simp: run_inv_def reader_eof_def Let_def with_job_def Log_def try_output_def logged_text_def entry_text_def)
qed

lemma inv_complete:
  assumes "run_inv patient s" and "r_main s \<noteq> Finished" and "patient \<Longrightarrow> r_reader s = ReaderGone"
    "patient \<Longrightarrow> r_wclosed s"
  shows "run_inv patient (body_complete err s)"
proof -
  have "\<not> job_done (r_job s)" using assms by (auto simp: run_inv_def)
  then show ?thesis
    using assms by (auto simp: body_complete_open run_inv_def logged_text_def split: option.split)
qed

lemma run_step_inv:
  assumes "run_inv patient s" and "run_enabled patient e s"
  shows "run_inv patient (apply_run e s)"
proof (cases e)
  case PromptSent
  then show ?thesis using assms inv_reader_prompt by (auto split: reader_pc.splits)
next
  case (ProxyPanics m)
  then show ?thesis using assms inv_complete [OF assms(1)] by auto
next
  case Completes
  then obtain err where "r_main s = Draining err" using assms(2) by (auto split: main_pc.splits)
  then show ?thesis using Completes assms inv_complete [OF assms(1), of err] by (auto simp: run_inv_def)
qed (use assms inv_environment [OF assms] inv_reader_byte [OF assms(1)] inv_reader_eof [OF assms(1)] in auto)

lemma restore_reach_inv: "restore_reach patient l s \<Longrightarrow> run_inv patient s"
proof (induction rule: restore_reach.induct)
  case (start t)
  show ?case by (simp add: run_inv_def start_run_def new_job_def logged_text_def)
next
  case (step s e)
  then show ?case using run_step_inv by simp
qed

section \<open>Schedules\<close>

text \<open>A schedule run from a state: \<open>None\<close> when an event of it cannot happen.\<close>

fun run_events :: "bool \<Rightarrow> run_event list \<Rightarrow> run \<Rightarrow> run option" where
  "run_events patient [] s = Some s"
| "run_events patient (e # es) s =
     (if \<not> r_crashed s \<and> run_enabled patient e s then run_events patient es (apply_run e s) else None)"

lemma run_events_reach:
  "restore_reach patient l s \<Longrightarrow> run_events patient es s = Some s' \<Longrightarrow> restore_reach patient l s'"
proof (induction es arbitrary: s)
  case (Cons e es)
  then show ?case using restore_reach.step [of patient l s e] by (auto split: if_splits)
qed simp

lemma start_reach: "restore_reach patient l (start_run (SetState JobStateRunning (new_job t)))"
  using restore_reach.start [of patient l t] by simp

text \<open>C37: a restore job in any interleaving of its goroutines, its clients and the restore. At most
  100 entries are queued; the job is marked done exactly when its body has completed it, so it is
  completed once; everything that was logged or prompted, streamed or still queued, occurs in the
  printed output in the order it was printed; and when the pause before completion is long enough
  for the reader to finish, the daemon does not crash and nothing is logged after completion.\<close>

theorem restore_job_invariant:
  assumes "restore_reach patient l s"
  shows "length (job_output (r_job s)) \<le> 100 \<and>
    (job_done (r_job s) \<longleftrightarrow> r_main s = Finished) \<and>
    subseq (logged_text s) (r_emitted s) \<and>
    (patient \<longrightarrow> \<not> r_crashed s \<and> (job_done (r_job s) \<longrightarrow> r_reader s = ReaderGone))"
proof -
  have i: "run_inv patient s" by (rule restore_reach_inv [OF assms])
  then have "subseq (logged_text s @ r_buf s @ r_pipe s) (r_emitted s)" by (simp add: run_inv_def)
  then have "subseq (logged_text s) (r_emitted s)"
    by (rule subseq_order.trans [OF prefix_imp_subseq, rotated]) simp
  then show ?thesis using i by (simp add: run_inv_def output_cap_def)
qed

definition sample_launch :: launch where
  "sample_launch = \<lparr>la_kind = Postgres, la_job = ''j'', la_workspace = ''w'', la_stage = ''dev'', la_backup = ''b''\<rparr>"

definition sample_run :: run where
  "sample_run = start_run (SetState JobStateRunning (new_job ''postgres_restore''))"

definition sample_schedule :: "run_event list" where
  "sample_schedule = [Emit (''ok'' @ [newline]), ReadByte, ReadByte, ReadByte, ProxyReturns None, ReadEOF, Completes]"

lemma sample_schedule_runs:
  "run_events True sample_schedule sample_run = Some (the (run_events True sample_schedule sample_run)) \<and>
   job_output (r_job (the (run_events True sample_schedule sample_run))) =
     [\<lparr>le_level = ''info'', le_message = ''ok'', le_prompt = []\<rparr>]"
  by code_simp

lemma restore_job_invariant_witness:
  "\<not> r_crashed (the (run_events True sample_schedule sample_run)) \<and>
   subseq ''ok'' (r_emitted (the (run_events True sample_schedule sample_run)))"
proof -
  let ?s = "the (run_events True sample_schedule sample_run)"
  have "restore_reach True sample_launch ?s"
    using run_events_reach [OF start_reach] sample_schedule_runs unfolding sample_run_def by blast
  then have "subseq (logged_text ?s) (r_emitted ?s) \<and> \<not> r_crashed ?s"
    using restore_job_invariant [of True sample_launch ?s] by simp
  moreover have "logged_text ?s = ''ok''"
    by code_simp
  ultimately show ?thesis by simp
qed

text \<open>What the pause does not guarantee: a line read after the job has completed is a send on a
  closed channel in a goroutine without a recover, which ends the daemon.\<close>

lemma late_output_crashes_daemon:
  "\<exists>s. restore_reach False l s \<and> r_main s = Finished \<and> r_crashed s"
proof -
  let ?es = "[Emit (''x'' @ [newline]), ProxyReturns None, Completes, ReadByte, ReadByte]"
  have "run_events False ?es sample_run = Some (the (run_events False ?es sample_run)) \<and>
      r_crashed (the (run_events False ?es sample_run)) \<and> r_main (the (run_events False ?es sample_run)) = Finished"
    by code_simp
  then show ?thesis using run_events_reach [OF start_reach] unfolding sample_run_def by blast
qed

text \<open>A client's input taken by the feeder after completion makes the finished job read as running.\<close>

lemma late_input_hides_completion:
  "\<exists>s. restore_reach True l s \<and> job_done (r_job s) \<and> GetState (r_job s) = JobStateRunning"
proof -
  let ?es = "[Emit ''(yes/no)'', ReadByte, ReadByte, ReadByte, ReadByte, ReadByte, ReadByte, ReadByte, ReadByte,
    ReadTimeout, PromptSent, ClientCheck ''yes'', ClientSend 0, ProxyReturns None, ReadEOF, Completes, FeederTake,
    FeederWrite]"
  have "run_events True ?es sample_run = Some (the (run_events True ?es sample_run)) \<and>
      job_done (r_job (the (run_events True ?es sample_run))) \<and>
      job_state (r_job (the (run_events True ?es sample_run))) = JobStateRunning"
    by code_simp
  then show ?thesis using run_events_reach [OF start_reach] unfolding sample_run_def GetState_def by blast
qed

section \<open>Draining\<close>

fun internal :: "run_event \<Rightarrow> bool" where
  "internal ReadByte = True" | "internal ReadTimeout = True" | "internal PromptSent = True"
| "internal ReadEOF = True" | "internal FeederTake = True" | "internal FeederWrite = True"
| "internal FeederStop = True" | "internal Completes = True" | "internal _ = False"

text \<open>What is left to do once the pipes are closed.\<close>

definition work_left :: "run \<Rightarrow> nat" where
  "work_left s =
     length (r_pipe s) +
     (case r_reader s of Prompting p \<Rightarrow> 2 | Reading \<Rightarrow> 1 | ReaderGone \<Rightarrow> 0) +
     (case r_feeder s of Holding i \<Rightarrow> 2 | Waiting \<Rightarrow> 1 | FeederGone \<Rightarrow> 0) +
     (if job_input (r_job s) = None then 0 else 2) +
     (case r_main s of Finished \<Rightarrow> 0 | _ \<Rightarrow> 1)"

lemma internal_step:
  assumes "internal e" and "r_wclosed s" and "\<not> r_crashed s" and "run_enabled True e s" and "run_inv True s"
  shows "work_left (apply_run e s) < work_left s \<and> r_wclosed (apply_run e s)"
proof -
  have d: "r_reader s \<noteq> ReaderGone \<Longrightarrow> \<not> job_done (r_job s)" using assms(5) by (auto simp: run_inv_def)
  show ?thesis
  proof (cases e)
    case ReadByte
    then obtain c cs where "r_pipe s = c # cs" "r_reader s = Reading" using assms(4) by (cases "r_pipe s") auto
    then show ?thesis using ReadByte assms(2) d by (simp add: reader_byte_def Let_def with_job_def Log_def try_output_def work_left_def)
  next
    case Completes
    then obtain err where "r_main s = Draining err" using assms(4) by (auto split: main_pc.splits)
    moreover from this have "\<not> job_done (r_job s)" using assms(5) by (auto simp: run_inv_def)
    ultimately show ?thesis using Completes assms(2) by (auto simp: body_complete_open work_left_def split: option.split)
  next
    case FeederTake
    then obtain i where "job_input (r_job s) = Some i" "r_feeder s = Waiting" using assms(4) by auto
    then show ?thesis using FeederTake assms(2) by (simp add: feeder_take_def work_left_def)
  next
    case ReadEOF
    then show ?thesis using assms(2,4) d by (simp add: reader_eof_def Let_def with_log_open work_left_def)
  qed (use assms(1-4) d in \<open>auto simp: reader_prompt_def feeder_write_def work_left_def split: reader_pc.splits feeder_pc.splits\<close>)
qed

lemma internal_run_bound:
  "run_inv True s \<Longrightarrow> r_wclosed s \<Longrightarrow> list_all internal es \<Longrightarrow> run_events True es s = Some s' \<Longrightarrow>
     length es + work_left s' \<le> work_left s \<and> run_inv True s' \<and> r_wclosed s'"
proof (induction es arbitrary: s)
  case (Cons e es)
  have step: "\<not> r_crashed s" "run_enabled True e s" "run_events True es (apply_run e s) = Some s'" "internal e"
    using Cons.prems by (auto split: if_splits)
  have "run_inv True (apply_run e s)" by (rule run_step_inv [OF Cons.prems(1) step(2)])
  then show ?case
    using Cons.IH [of "apply_run e s"] internal_step [OF step(4) Cons.prems(2) step(1,2) Cons.prems(1)] Cons.prems(3) step(3)
    by simp
qed simp

lemma stuck_run:
  assumes "run_inv True s" and "r_wclosed s" and stuck: "\<And>e. internal e \<Longrightarrow> \<not> run_enabled True e s"
  shows "job_done (r_job s) \<or> ((\<exists>p. r_reader s = Prompting p) \<and> length (job_output (r_job s)) = output_cap)"
proof (cases "r_reader s")
  case Reading
  then show ?thesis using stuck [of ReadByte] stuck [of ReadEOF] assms(2) by auto
next
  case (Prompting p)
  then show ?thesis using stuck [of PromptSent] assms(1) by (auto simp: run_inv_def)
next
  case ReaderGone
  then show ?thesis using stuck [of Completes] assms(1,2) by (cases "r_main s") (auto simp: run_inv_def)
qed


definition drained :: "run \<Rightarrow> bool" where
  "drained s \<longleftrightarrow> list_all (\<lambda>e. \<not> run_enabled True e s)
     [ReadByte, ReadTimeout, PromptSent, ReadEOF, FeederTake, FeederWrite, FeederStop, Completes]"

lemma drained_stuck: "drained s \<Longrightarrow> internal e \<Longrightarrow> \<not> run_enabled True e s"
  by (cases e) (auto simp: drained_def)


end
