(* ===== verification/Infra_Json.thy ===== *)
theory Infra_Json
  imports Prelude "HOL-Library.Monad_Syntax"
begin

text \<open>
  The values that cross the wire between gitops, the daemon and the infra driver
  (\<open>internal/infradriver/driver.go\<close>, \<open>api.go\<close>): the structs as records, and what \<open>encoding/json\<close>
  makes of them. A JSON text is its value, a tree; a Go struct is written as an object with its
  tagged fields in order, leaving out the empty ones tagged \<open>omitempty\<close>, and read back field by
  field: an absent or null field keeps the zero value, a field of the wrong kind is an error, other
  fields are ignored. Strings are text (valid UTF-8); a Go map is the list of its entries in the
  order \<open>encoding/json\<close> writes them.
\<close>

section \<open>JSON values\<close>

datatype json =
    JNull | JBool bool | JInt int | JStr string | JArr "json list" | JObj "(string \<times> json) list"

fun as_str :: "json \<Rightarrow> string option" where
  "as_str (JStr s) = Some s" | "as_str _ = None"

fun as_bool :: "json \<Rightarrow> bool option" where
  "as_bool (JBool b) = Some b" | "as_bool _ = None"

fun as_int :: "json \<Rightarrow> int option" where
  "as_int (JInt i) = (if - (2 ^ 63) \<le> i \<and> i < 2 ^ 63 then Some i else None)" | "as_int _ = None"

fun collect :: "('a \<Rightarrow> 'b option) \<Rightarrow> 'a list \<Rightarrow> 'b list option" where
  "collect f [] = Some []"
| "collect f (x # xs) =
     (case f x of None \<Rightarrow> None | Some y \<Rightarrow> map_option ((#) y) (collect f xs))"

fun as_list :: "(json \<Rightarrow> 'a option) \<Rightarrow> json \<Rightarrow> 'a list option" where
  "as_list f (JArr vs) = collect f vs" | "as_list f _ = None"

fun as_map :: "json \<Rightarrow> (string \<times> string) list option" where
  "as_map (JObj fs) = collect (\<lambda>(k, v). map_option (Pair k) (as_str v)) fs" | "as_map _ = None"

text \<open>One field of a struct.\<close>

fun jfield :: "string \<Rightarrow> (json \<Rightarrow> 'a option) \<Rightarrow> 'a \<Rightarrow> (string \<times> json) list \<Rightarrow> 'a option" where
  "jfield name f z [] = Some z"
| "jfield name f z ((k, v) # fs) =
     (if k = name \<and> v \<noteq> JNull
      then (case f v of None \<Rightarrow> None | Some z' \<Rightarrow> jfield name f z' fs)
      else jfield name f z fs)"

text \<open>The object a struct is read from; \<open>null\<close> reads as the zero struct.\<close>

fun fields_of :: "json \<Rightarrow> (string \<times> json) list option" where
  "fields_of (JObj fs) = Some fs" | "fields_of JNull = Some []" | "fields_of _ = None"

definition jmap :: "(string \<times> string) list \<Rightarrow> json" where
  "jmap m = JObj (map (\<lambda>(k, v). (k, JStr v)) m)"

definition omit_str :: "string \<Rightarrow> string \<Rightarrow> (string \<times> json) list" where
  "omit_str k s = (if s = [] then [] else [(k, JStr s)])"

definition omit_bool :: "string \<Rightarrow> bool \<Rightarrow> (string \<times> json) list" where
  "omit_bool k b = (if b then [(k, JBool True)] else [])"

definition omit_map :: "string \<Rightarrow> (string \<times> string) list \<Rightarrow> (string \<times> json) list" where
  "omit_map k m = (if m = [] then [] else [(k, jmap m)])"

definition omit_int :: "string \<Rightarrow> int option \<Rightarrow> (string \<times> json) list" where
  "omit_int k i = (case i of None \<Rightarrow> [] | Some n \<Rightarrow> [(k, JInt n)])"

section \<open>Structs\<close>

record workspace_context =
  wc_name :: string
  wc_domain :: string
  wc_gitops_dir :: string
  wc_secrets_dir :: string
  wc_wrap :: bool
  wc_bp :: string

record exec_spec =
  ex_container :: string
  ex_cmd :: "string list"
  ex_tty :: bool
  ex_user :: string

record build_request =
  br_ctx :: workspace_context
  br_tag :: string
  br_source_path :: string
  br_base_image :: string
  br_mount_path :: string
  br_dockerfile :: string
  br_source_sha :: string

record image_ref =
  ir_full_tag :: string
  ir_image_id :: string
  ir_cache_hit :: bool

record image =
  im_id :: string
  im_tag :: string
  im_created :: int
  im_size :: int

record container_filter =
  cf_labels :: "(string \<times> string) list"
  cf_restarts :: bool

record container =
  ct_id :: string
  ct_name :: string
  ct_state :: string
  ct_health :: string
  ct_image :: string
  ct_created :: int
  ct_labels :: "(string \<times> string) list"
  ct_restarts :: "int option"
  ct_started :: "int option"

record container_stat =
  cs_id :: string
  cs_name :: string
  cs_mem :: int
  cs_labels :: "(string \<times> string) list"

record log_line =
  ll_line :: string
  ll_stderr :: bool

record container_event =
  ce_action :: string
  ce_container :: string
  ce_id :: string

section \<open>Writing and reading them\<close>

definition enc_ctx :: "workspace_context \<Rightarrow> json" where
  "enc_ctx c = JObj ([(''workspace_name'', JStr (wc_name c)), (''domain'', JStr (wc_domain c)),
     (''gitops_dir'', JStr (wc_gitops_dir c)), (''secrets_dir'', JStr (wc_secrets_dir c)),
     (''wrap_available'', JBool (wc_wrap c))] @ omit_str ''bp'' (wc_bp c))"

definition dec_ctx :: "json \<Rightarrow> workspace_context option" where
  "dec_ctx v = do {
     fs \<leftarrow> fields_of v;
     n \<leftarrow> jfield ''workspace_name'' as_str [] fs;
     d \<leftarrow> jfield ''domain'' as_str [] fs;
     g \<leftarrow> jfield ''gitops_dir'' as_str [] fs;
     s \<leftarrow> jfield ''secrets_dir'' as_str [] fs;
     w \<leftarrow> jfield ''wrap_available'' as_bool False fs;
     b \<leftarrow> jfield ''bp'' as_str [] fs;
     Some \<lparr>wc_name = n, wc_domain = d, wc_gitops_dir = g, wc_secrets_dir = s, wc_wrap = w, wc_bp = b\<rparr>}"

definition zero_ctx :: workspace_context where
  "zero_ctx = \<lparr>wc_name = [], wc_domain = [], wc_gitops_dir = [], wc_secrets_dir = [], wc_wrap = False, wc_bp = []\<rparr>"

definition enc_spec :: "exec_spec \<Rightarrow> json" where
  "enc_spec e = JObj ([(''container'', JStr (ex_container e)), (''cmd'', JArr (map JStr (ex_cmd e)))] @
     omit_bool ''tty'' (ex_tty e) @ omit_str ''user'' (ex_user e))"

definition dec_spec :: "json \<Rightarrow> exec_spec option" where
  "dec_spec v = do {
     fs \<leftarrow> fields_of v;
     c \<leftarrow> jfield ''container'' as_str [] fs;
     a \<leftarrow> jfield ''cmd'' (as_list as_str) [] fs;
     t \<leftarrow> jfield ''tty'' as_bool False fs;
     u \<leftarrow> jfield ''user'' as_str [] fs;
     Some \<lparr>ex_container = c, ex_cmd = a, ex_tty = t, ex_user = u\<rparr>}"

definition zero_spec :: exec_spec where
  "zero_spec = \<lparr>ex_container = [], ex_cmd = [], ex_tty = False, ex_user = []\<rparr>"

definition enc_build :: "build_request \<Rightarrow> json" where
  "enc_build b = JObj ([(''ctx'', enc_ctx (br_ctx b)), (''tag'', JStr (br_tag b)),
     (''source_path'', JStr (br_source_path b)), (''base_image'', JStr (br_base_image b)),
     (''mount_path'', JStr (br_mount_path b))] @ omit_str ''dockerfile'' (br_dockerfile b) @
     [(''source_sha'', JStr (br_source_sha b))])"

definition dec_build :: "json \<Rightarrow> build_request option" where
  "dec_build v = do {
     fs \<leftarrow> fields_of v;
     c \<leftarrow> jfield ''ctx'' dec_ctx zero_ctx fs;
     t \<leftarrow> jfield ''tag'' as_str [] fs;
     p \<leftarrow> jfield ''source_path'' as_str [] fs;
     i \<leftarrow> jfield ''base_image'' as_str [] fs;
     m \<leftarrow> jfield ''mount_path'' as_str [] fs;
     d \<leftarrow> jfield ''dockerfile'' as_str [] fs;
     s \<leftarrow> jfield ''source_sha'' as_str [] fs;
     Some \<lparr>br_ctx = c, br_tag = t, br_source_path = p, br_base_image = i, br_mount_path = m,
           br_dockerfile = d, br_source_sha = s\<rparr>}"

definition enc_image_ref :: "image_ref \<Rightarrow> json" where
  "enc_image_ref i = JObj [(''full_tag'', JStr (ir_full_tag i)), (''image_id'', JStr (ir_image_id i)),
     (''cache_hit'', JBool (ir_cache_hit i))]"

definition dec_image_ref :: "json \<Rightarrow> image_ref option" where
  "dec_image_ref v = do {
     fs \<leftarrow> fields_of v;
     t \<leftarrow> jfield ''full_tag'' as_str [] fs;
     i \<leftarrow> jfield ''image_id'' as_str [] fs;
     h \<leftarrow> jfield ''cache_hit'' as_bool False fs;
     Some \<lparr>ir_full_tag = t, ir_image_id = i, ir_cache_hit = h\<rparr>}"

definition zero_image_ref :: image_ref where
  "zero_image_ref = \<lparr>ir_full_tag = [], ir_image_id = [], ir_cache_hit = False\<rparr>"

definition enc_image :: "image \<Rightarrow> json" where
  "enc_image i = JObj [(''id'', JStr (im_id i)), (''tag'', JStr (im_tag i)),
     (''created'', JInt (im_created i)), (''size'', JInt (im_size i))]"

definition dec_image :: "json \<Rightarrow> image option" where
  "dec_image v = do {
     fs \<leftarrow> fields_of v;
     i \<leftarrow> jfield ''id'' as_str [] fs;
     t \<leftarrow> jfield ''tag'' as_str [] fs;
     c \<leftarrow> jfield ''created'' as_int 0 fs;
     s \<leftarrow> jfield ''size'' as_int 0 fs;
     Some \<lparr>im_id = i, im_tag = t, im_created = c, im_size = s\<rparr>}"

definition enc_filter :: "container_filter \<Rightarrow> json" where
  "enc_filter f = JObj (omit_map ''labels'' (cf_labels f) @ omit_bool ''with_restart_counts'' (cf_restarts f))"

definition dec_filter :: "json \<Rightarrow> container_filter option" where
  "dec_filter v = do {
     fs \<leftarrow> fields_of v;
     l \<leftarrow> jfield ''labels'' as_map [] fs;
     r \<leftarrow> jfield ''with_restart_counts'' as_bool False fs;
     Some \<lparr>cf_labels = l, cf_restarts = r\<rparr>}"

definition zero_filter :: container_filter where
  "zero_filter = \<lparr>cf_labels = [], cf_restarts = False\<rparr>"

definition enc_container :: "container \<Rightarrow> json" where
  "enc_container c = JObj ([(''id'', JStr (ct_id c)), (''name'', JStr (ct_name c)), (''state'', JStr (ct_state c)),
     (''health'', JStr (ct_health c)), (''image'', JStr (ct_image c)), (''created'', JInt (ct_created c))] @
     omit_map ''labels'' (ct_labels c) @ omit_int ''restart_count'' (ct_restarts c) @
     omit_int ''started_at'' (ct_started c))"

definition dec_container :: "json \<Rightarrow> container option" where
  "dec_container v = do {
     fs \<leftarrow> fields_of v;
     i \<leftarrow> jfield ''id'' as_str [] fs;
     n \<leftarrow> jfield ''name'' as_str [] fs;
     s \<leftarrow> jfield ''state'' as_str [] fs;
     h \<leftarrow> jfield ''health'' as_str [] fs;
     m \<leftarrow> jfield ''image'' as_str [] fs;
     c \<leftarrow> jfield ''created'' as_int 0 fs;
     l \<leftarrow> jfield ''labels'' as_map [] fs;
     r \<leftarrow> jfield ''restart_count'' (\<lambda>j. map_option Some (as_int j)) None fs;
     t \<leftarrow> jfield ''started_at'' (\<lambda>j. map_option Some (as_int j)) None fs;
     Some \<lparr>ct_id = i, ct_name = n, ct_state = s, ct_health = h, ct_image = m, ct_created = c,
           ct_labels = l, ct_restarts = r, ct_started = t\<rparr>}"

definition enc_stat :: "container_stat \<Rightarrow> json" where
  "enc_stat c = JObj ([(''id'', JStr (cs_id c)), (''name'', JStr (cs_name c)),
     (''mem_usage_bytes'', JInt (cs_mem c))] @ omit_map ''labels'' (cs_labels c))"

definition dec_stat :: "json \<Rightarrow> container_stat option" where
  "dec_stat v = do {
     fs \<leftarrow> fields_of v;
     i \<leftarrow> jfield ''id'' as_str [] fs;
     n \<leftarrow> jfield ''name'' as_str [] fs;
     m \<leftarrow> jfield ''mem_usage_bytes'' as_int 0 fs;
     l \<leftarrow> jfield ''labels'' as_map [] fs;
     Some \<lparr>cs_id = i, cs_name = n, cs_mem = m, cs_labels = l\<rparr>}"

definition enc_line :: "log_line \<Rightarrow> json" where
  "enc_line l = JObj [(''line'', JStr (ll_line l)), (''stderr'', JBool (ll_stderr l))]"

definition dec_line :: "json \<Rightarrow> log_line option" where
  "dec_line v = do {
     fs \<leftarrow> fields_of v;
     l \<leftarrow> jfield ''line'' as_str [] fs;
     e \<leftarrow> jfield ''stderr'' as_bool False fs;
     Some \<lparr>ll_line = l, ll_stderr = e\<rparr>}"

definition enc_event :: "container_event \<Rightarrow> json" where
  "enc_event e = JObj ([(''action'', JStr (ce_action e)), (''container'', JStr (ce_container e))] @
     omit_str ''id'' (ce_id e))"

definition dec_event :: "json \<Rightarrow> container_event option" where
  "dec_event v = do {
     fs \<leftarrow> fields_of v;
     a \<leftarrow> jfield ''action'' as_str [] fs;
     c \<leftarrow> jfield ''container'' as_str [] fs;
     i \<leftarrow> jfield ''id'' as_str [] fs;
     Some \<lparr>ce_action = a, ce_container = c, ce_id = i\<rparr>}"

definition enc_error :: "string \<Rightarrow> json" where
  "enc_error e = JObj [(''error'', JStr e)]"

definition dec_error :: "json \<Rightarrow> string option" where
  "dec_error v = do { fs \<leftarrow> fields_of v; jfield ''error'' as_str [] fs }"

section \<open>Every struct is read back\<close>

definition int64 :: "int \<Rightarrow> bool" where
  "int64 i \<longleftrightarrow> - (2 ^ 63) \<le> i \<and> i < 2 ^ 63"

named_theorems json_rt \<open>round trips of the structs\<close>

lemma as_int_int64 [simp]: "int64 i \<Longrightarrow> as_int (JInt i) = Some i"
  by (simp add: int64_def)

declare as_int.simps(1) [simp del]

lemma collect_map [simp]: "(\<And>x. x \<in> set xs \<Longrightarrow> f (g x) = Some x) \<Longrightarrow> collect f (map g xs) = Some xs"
  by (induction xs) auto

lemma collect_map_same: "(\<And>x. f (g x) = Some x) \<Longrightarrow> collect f (map g xs) = Some xs"
  by simp

lemma as_map_jmap [simp]: "as_map (jmap m) = Some m"
  by (simp add: jmap_def) (induction m; auto)

lemma jmap_not_null [simp]: "jmap m \<noteq> JNull"
  by (simp add: jmap_def)

lemma jfield_append:
  "jfield name f z (xs @ ys) = (case jfield name f z xs of None \<Rightarrow> None | Some z' \<Rightarrow> jfield name f z' ys)"
  by (induction xs arbitrary: z) (auto split: option.splits)

lemma jfield_omit_str [simp]:
  "jfield name as_str z (omit_str k s) = Some (if k = name \<and> s \<noteq> [] then s else z)"
  by (simp add: omit_str_def)

lemma jfield_other [simp]:
  "k \<noteq> name \<Longrightarrow> jfield name f z (omit_str k s) = Some z"
  "k \<noteq> name \<Longrightarrow> jfield name f z (omit_bool k b) = Some z"
  "k \<noteq> name \<Longrightarrow> jfield name f z (omit_map k m) = Some z"
  "k \<noteq> name \<Longrightarrow> jfield name f z (omit_int k i) = Some z"
  by (simp_all add: omit_str_def omit_bool_def omit_map_def omit_int_def split: option.split)

lemma jfield_omit_same [simp]:
  "jfield k as_bool False (omit_bool k b) = Some b"
  "jfield k as_map [] (omit_map k m) = Some m"
  "case_option True int64 i \<Longrightarrow> jfield k (\<lambda>j. map_option Some (as_int j)) None (omit_int k i) = Some i"
  by (auto simp: omit_bool_def omit_map_def omit_int_def split: option.splits)

lemma jfield_Cons_other [simp]: "k \<noteq> name \<Longrightarrow> jfield name f z ((k, v) # fs) = jfield name f z fs"
  by simp

lemma enc_not_null [simp]:
  "enc_ctx c \<noteq> JNull" "enc_spec sp \<noteq> JNull" "enc_filter f \<noteq> JNull"
  by (simp_all add: enc_ctx_def enc_spec_def enc_filter_def)

lemma dec_enc_ctx [json_rt]: "dec_ctx (enc_ctx c) = Some c"
  by (simp add: dec_ctx_def enc_ctx_def jfield_append)

lemma dec_enc_spec [json_rt]: "dec_spec (enc_spec e) = Some e"
  by (simp add: dec_spec_def enc_spec_def jfield_append)

lemma dec_enc_build [json_rt]: "dec_build (enc_build b) = Some b"
  by (simp add: dec_build_def enc_build_def jfield_append dec_enc_ctx)

lemma dec_enc_image_ref [json_rt]: "dec_image_ref (enc_image_ref i) = Some i"
  by (simp add: dec_image_ref_def enc_image_ref_def)

definition image_ok :: "image \<Rightarrow> bool" where
  "image_ok i \<longleftrightarrow> int64 (im_created i) \<and> int64 (im_size i)"

lemma dec_enc_image [json_rt]: "image_ok i \<Longrightarrow> dec_image (enc_image i) = Some i"
  by (simp add: dec_image_def enc_image_def image_ok_def)

lemma dec_enc_filter [json_rt]: "dec_filter (enc_filter f) = Some f"
  by (simp add: dec_filter_def enc_filter_def jfield_append)

definition container_ok :: "container \<Rightarrow> bool" where
  "container_ok c \<longleftrightarrow> int64 (ct_created c) \<and> pred_option int64 (ct_restarts c) \<and> pred_option int64 (ct_started c)"

lemma dec_enc_container [json_rt]: "container_ok c \<Longrightarrow> dec_container (enc_container c) = Some c"
  by (simp add: dec_container_def enc_container_def jfield_append container_ok_def pred_option_def split: option.splits)

lemma dec_enc_stat [json_rt]: "int64 (cs_mem c) \<Longrightarrow> dec_stat (enc_stat c) = Some c"
  by (simp add: dec_stat_def enc_stat_def jfield_append)

lemma dec_enc_line [json_rt]: "dec_line (enc_line l) = Some l"
  by (simp add: dec_line_def enc_line_def)

lemma dec_enc_event [json_rt]: "dec_event (enc_event e) = Some e"
  by (simp add: dec_event_def enc_event_def jfield_append)

lemma dec_enc_error [json_rt]: "dec_error (enc_error e) = Some e"
  by (simp add: dec_error_def enc_error_def)

end
