(* ===== verification/Infra_Rpc.thy ===== *)
theory Infra_Rpc
  imports Infra_Json Net_Ip
begin

text \<open>
  The infra driver's remote procedure calls (\<open>internal/infradriver/server.go\<close>, \<open>client.go\<close>,
  \<open>execframe.go\<close> and the token guard of \<open>githttp.go\<close>): a driver is a record of operations on a
  backend state; the server turns HTTP requests into calls of it, and the client turns its own
  methods into HTTP requests. An HTTP body is a JSON value, a text, raw bytes or a list of
  server-sent-event lines, and the metadata headers carry JSON values (their base64 and text forms
  are the standard library's). The transport between the two is an argument, so that the client
  over the server is a driver again.
\<close>

section \<open>Exec frames\<close>

abbreviation (input) ExecStreamStdout :: u8 where "ExecStreamStdout \<equiv> 1"
abbreviation (input) ExecStreamStderr :: u8 where "ExecStreamStderr \<equiv> 2"
abbreviation (input) ExecStreamExit :: u8 where "ExecStreamExit \<equiv> 3"
abbreviation (input) ExecStreamError :: u8 where "ExecStreamError \<equiv> 4"

definition writeExecFrame :: "u8 \<Rightarrow> bytes \<Rightarrow> bytes" where
  "writeExecFrame stream payload = stream # put32 (of_nat (length payload)) @ payload"

text \<open>The chunks delivered and the exit code, or an error.\<close>

function readExecFrames :: "bytes \<Rightarrow> (bool \<times> bytes) list \<times> (string + int)" where
  "readExecFrames r =
     (if length r < 5 then ([], Inl ''exec stream ended without an exit frame'')
      else
        let stream = r ! 0;
            n = unat (be32 (r ! 1) (r ! 2) (r ! 3) (r ! 4));
            rest = drop 5 r
        in if length rest < n then ([], Inl (if rest = [] then ''EOF'' else ''unexpected EOF''))
           else
             let payload = take n rest; more = drop n rest
             in if stream = ExecStreamStdout then
                  (case readExecFrames more of (cs, res) \<Rightarrow> ((False, payload) # cs, res))
                else if stream = ExecStreamStderr then
                  (case readExecFrames more of (cs, res) \<Rightarrow> ((True, payload) # cs, res))
                else if stream = ExecStreamExit then
                  ([], if length payload \<noteq> 4 then Inl ''malformed exit frame''
                       else Inr (sint (be32 (payload ! 0) (payload ! 1) (payload ! 2) (payload ! 3))))
                else if stream = ExecStreamError then ([], Inl (string_of_bytes payload))
                else ([], Inl (''unknown exec frame stream '' @ itoa (unat stream))))"
  by pat_completeness auto
termination
  by (relation "measure length") auto

declare readExecFrames.simps [simp del]

section \<open>Requests, responses, drivers\<close>

datatype sse_line = SseBlank | SseEvent string | SseData json

datatype body = NoBody | JsonBody json | TextBody string | RawBody bytes | SseBody "sse_line list"

datatype auth_header = NoAuth | BearerAuth string | BasicAuth string string | OtherAuth string

text \<open>\<open>rq_exec\<close> and \<open>rq_copy\<close>: the metadata headers, \<open>None\<close> when the header is not the base64 of a
  JSON text.\<close>

record request =
  rq_post :: bool
  rq_path :: string
  rq_auth :: auth_header
  rq_exec :: "json option"
  rq_copy :: "json option"
  rq_body :: body

record response =
  rs_status :: nat
  rs_body :: body

record 's driver =
  drv_build :: "build_request \<Rightarrow> 's \<Rightarrow> (string list \<times> (string + image_ref)) \<times> 's"
  drv_list :: "workspace_context \<Rightarrow> container_filter \<Rightarrow> 's \<Rightarrow> (string + container list) \<times> 's"
  drv_stats :: "workspace_context \<Rightarrow> container_filter \<Rightarrow> 's \<Rightarrow> (string + container_stat list) \<times> 's"
  drv_logs :: "workspace_context \<Rightarrow> string \<Rightarrow> int \<Rightarrow> bool \<Rightarrow> 's \<Rightarrow> (log_line list \<times> string option) \<times> 's"
  drv_events :: "workspace_context \<Rightarrow> 's \<Rightarrow> (container_event list \<times> string option) \<times> 's"
  drv_stop :: "workspace_context \<Rightarrow> string \<Rightarrow> 's \<Rightarrow> string option \<times> 's"
  drv_restart :: "workspace_context \<Rightarrow> string \<Rightarrow> 's \<Rightarrow> string option \<times> 's"
  drv_remove :: "workspace_context \<Rightarrow> string \<Rightarrow> 's \<Rightarrow> string option \<times> 's"
  drv_images :: "workspace_context \<Rightarrow> 's \<Rightarrow> (string + image list) \<times> 's"
  drv_image_remove :: "workspace_context \<Rightarrow> string \<Rightarrow> 's \<Rightarrow> string option \<times> 's"
  drv_sbom :: "workspace_context \<Rightarrow> string \<Rightarrow> 's \<Rightarrow> (string + bytes) \<times> 's"
  drv_inspect :: "workspace_context \<Rightarrow> string \<Rightarrow> 's \<Rightarrow> (string + bytes) \<times> 's"
  drv_exec :: "workspace_context \<Rightarrow> exec_spec \<Rightarrow> bytes \<Rightarrow> 's \<Rightarrow> ((bool \<times> bytes) list \<times> (string + int)) \<times> 's"
  drv_copy_out :: "workspace_context \<Rightarrow> string \<Rightarrow> string \<Rightarrow> 's \<Rightarrow> (string + bytes \<times> string option) \<times> 's"
  drv_copy_in :: "workspace_context \<Rightarrow> string \<Rightarrow> string \<Rightarrow> bytes \<Rightarrow> 's \<Rightarrow> string option \<times> 's"

text \<open>\<open>drv_copy_out\<close> gives the archive bytes read before the end or a read error, and that error.\<close>

section \<open>Paths and bodies\<close>

definition PathBuildImage :: string where "PathBuildImage = ''/v1/build-image''"
definition PathContainersList :: string where "PathContainersList = ''/v1/containers/list''"
definition PathContainersStats :: string where "PathContainersStats = ''/v1/containers/stats''"
definition PathContainersEvents :: string where "PathContainersEvents = ''/v1/containers/events''"
definition PathContainersInspect :: string where "PathContainersInspect = ''/v1/containers/inspect''"
definition PathContainersLogs :: string where "PathContainersLogs = ''/v1/containers/logs''"
definition PathContainersStop :: string where "PathContainersStop = ''/v1/containers/stop''"
definition PathContainersRestart :: string where "PathContainersRestart = ''/v1/containers/restart''"
definition PathContainersRemove :: string where "PathContainersRemove = ''/v1/containers/remove''"
definition PathContainersExec :: string where "PathContainersExec = ''/v1/containers/exec''"
definition PathContainersCopyOut :: string where "PathContainersCopyOut = ''/v1/containers/copy-out''"
definition PathContainersCopyIn :: string where "PathContainersCopyIn = ''/v1/containers/copy-in''"
definition PathImagesList :: string where "PathImagesList = ''/v1/images/list''"
definition PathImagesRemove :: string where "PathImagesRemove = ''/v1/images/remove''"
definition PathImagesSBOM :: string where "PathImagesSBOM = ''/v1/images/sbom''"
definition PathDeployRepoEnsure :: string where "PathDeployRepoEnsure = ''/v1/deploy-repo/ensure''"

text \<open>The request bodies are pairs and tuples of their fields.\<close>

definition enc_list_body :: "workspace_context \<times> container_filter \<Rightarrow> json" where
  "enc_list_body b = JObj [(''ctx'', enc_ctx (fst b)), (''filter'', enc_filter (snd b))]"

definition dec_list_body :: "json \<Rightarrow> (workspace_context \<times> container_filter) option" where
  "dec_list_body v = do {
     fs \<leftarrow> fields_of v;
     c \<leftarrow> jfield ''ctx'' dec_ctx zero_ctx fs;
     f \<leftarrow> jfield ''filter'' dec_filter zero_filter fs;
     Some (c, f)}"

definition enc_name_body :: "string \<Rightarrow> workspace_context \<times> string \<Rightarrow> json" where
  "enc_name_body k b = JObj [(''ctx'', enc_ctx (fst b)), (k, JStr (snd b))]"

definition dec_name_body :: "string \<Rightarrow> json \<Rightarrow> (workspace_context \<times> string) option" where
  "dec_name_body k v = do {
     fs \<leftarrow> fields_of v;
     c \<leftarrow> jfield ''ctx'' dec_ctx zero_ctx fs;
     n \<leftarrow> jfield k as_str [] fs;
     Some (c, n)}"

definition enc_events_body :: "workspace_context \<Rightarrow> json" where
  "enc_events_body c = JObj [(''ctx'', enc_ctx c)]"

definition dec_events_body :: "json \<Rightarrow> workspace_context option" where
  "dec_events_body v = do { fs \<leftarrow> fields_of v; jfield ''ctx'' dec_ctx zero_ctx fs }"

definition enc_logs_body :: "workspace_context \<times> string \<times> int \<times> bool \<Rightarrow> json" where
  "enc_logs_body b = (case b of (c, n, t, f) \<Rightarrow>
     JObj [(''ctx'', enc_ctx c), (''container'', JStr n), (''tail'', JInt t), (''follow'', JBool f)])"

definition dec_logs_body :: "json \<Rightarrow> (workspace_context \<times> string \<times> int \<times> bool) option" where
  "dec_logs_body v = do {
     fs \<leftarrow> fields_of v;
     c \<leftarrow> jfield ''ctx'' dec_ctx zero_ctx fs;
     n \<leftarrow> jfield ''container'' as_str [] fs;
     t \<leftarrow> jfield ''tail'' as_int 0 fs;
     f \<leftarrow> jfield ''follow'' as_bool False fs;
     Some (c, n, t, f)}"

definition enc_exec_body :: "workspace_context \<times> exec_spec \<Rightarrow> json" where
  "enc_exec_body b = JObj [(''ctx'', enc_ctx (fst b)), (''spec'', enc_spec (snd b))]"

definition dec_exec_body :: "json \<Rightarrow> (workspace_context \<times> exec_spec) option" where
  "dec_exec_body v = do {
     fs \<leftarrow> fields_of v;
     c \<leftarrow> jfield ''ctx'' dec_ctx zero_ctx fs;
     s \<leftarrow> jfield ''spec'' dec_spec zero_spec fs;
     Some (c, s)}"

definition enc_copy_body :: "workspace_context \<times> string \<times> string \<Rightarrow> json" where
  "enc_copy_body b = (case b of (c, n, p) \<Rightarrow>
     JObj [(''ctx'', enc_ctx c), (''container'', JStr n), (''path'', JStr p)])"

definition dec_copy_body :: "json \<Rightarrow> (workspace_context \<times> string \<times> string) option" where
  "dec_copy_body v = do {
     fs \<leftarrow> fields_of v;
     c \<leftarrow> jfield ''ctx'' dec_ctx zero_ctx fs;
     n \<leftarrow> jfield ''container'' as_str [] fs;
     p \<leftarrow> jfield ''path'' as_str [] fs;
     Some (c, n, p)}"

definition dec_ensure_body :: "json \<Rightarrow> string option" where
  "dec_ensure_body v = do { fs \<leftarrow> fields_of v; jfield ''bp'' as_str [] fs }"

text \<open>The JSON results: one list under its key.\<close>

definition enc_result :: "string \<Rightarrow> ('a \<Rightarrow> json) \<Rightarrow> 'a list \<Rightarrow> json" where
  "enc_result k f xs = JObj [(k, JArr (map f xs))]"

definition dec_result :: "string \<Rightarrow> (json \<Rightarrow> 'a option) \<Rightarrow> json \<Rightarrow> 'a list option" where
  "dec_result k f v = do { fs \<leftarrow> fields_of v; jfield k (as_list f) [] fs }"

definition enc_ok :: json where "enc_ok = JObj [(''ok'', JBool True)]"

definition dec_ok :: "json \<Rightarrow> bool option" where
  "dec_ok v = do { fs \<leftarrow> fields_of v; jfield ''ok'' as_bool False fs }"

section \<open>The server\<close>

record 's server_cfg =
  sv_token :: string
  sv_driver :: "'s driver"
  sv_flush :: bool
  sv_ensure :: "(string \<Rightarrow> 's \<Rightarrow> string option \<times> 's) option"
  sv_git :: "(request \<Rightarrow> 's \<Rightarrow> response \<times> 's) option"

definition http_error :: "nat \<Rightarrow> string \<Rightarrow> response" where
  "http_error code msg = \<lparr>rs_status = code, rs_body = TextBody (msg @ [CHR 0x0A])\<rparr>"

definition write_json :: "json \<Rightarrow> response" where
  "write_json j = \<lparr>rs_status = 200, rs_body = JsonBody j\<rparr>"

definition sse_send :: "string \<Rightarrow> json \<Rightarrow> sse_line list" where
  "sse_send event payload = [SseEvent event, SseData payload, SseBlank]"

text \<open>\<open>decode\<close>: a response when it fails.\<close>

definition decode :: "(json \<Rightarrow> 'b option) \<Rightarrow> request \<Rightarrow> response + 'b" where
  "decode dec r =
     (if \<not> rq_post r then Inl (http_error 405 ''method not allowed'')
      else
        case rq_body r of
          JsonBody j \<Rightarrow> (case dec j of Some b \<Rightarrow> Inr b | None \<Rightarrow> Inl (http_error 400 ''invalid request body''))
        | _ \<Rightarrow> Inl (http_error 400 ''invalid request body''))"

text \<open>A handler that decodes, calls the driver and writes the result as JSON.\<close>

definition json_call ::
    "(json \<Rightarrow> 'b option) \<Rightarrow> ('b \<Rightarrow> 's \<Rightarrow> (string + 'r) \<times> 's) \<Rightarrow> ('r \<Rightarrow> response) \<Rightarrow> request \<Rightarrow> 's \<Rightarrow> response \<times> 's" where
  "json_call dec run write r s =
     (case decode dec r of
        Inl resp \<Rightarrow> (resp, s)
      | Inr b \<Rightarrow>
          (case run b s of
             (Inl e, s') \<Rightarrow> (http_error 500 e, s')
           | (Inr x, s') \<Rightarrow> (write x, s')))"

definition unit_result :: "string option \<times> 's \<Rightarrow> (string + unit) \<times> 's" where
  "unit_result p = (case fst p of Some e \<Rightarrow> (Inl e, snd p) | None \<Rightarrow> (Inr (), snd p))"

definition handleList :: "'s driver \<Rightarrow> request \<Rightarrow> 's \<Rightarrow> response \<times> 's" where
  "handleList d = json_call dec_list_body (\<lambda>(c, f). drv_list d c f)
     (\<lambda>cs. write_json (enc_result ''containers'' enc_container cs))"

definition handleStats :: "'s driver \<Rightarrow> request \<Rightarrow> 's \<Rightarrow> response \<times> 's" where
  "handleStats d = json_call dec_list_body (\<lambda>(c, f). drv_stats d c f)
     (\<lambda>cs. write_json (enc_result ''stats'' enc_stat cs))"

definition handleImageList :: "'s driver \<Rightarrow> request \<Rightarrow> 's \<Rightarrow> response \<times> 's" where
  "handleImageList d = json_call dec_list_body (\<lambda>(c, f). drv_images d c)
     (\<lambda>is. write_json (enc_result ''images'' enc_image is))"

definition handleImageRemove :: "'s driver \<Rightarrow> request \<Rightarrow> 's \<Rightarrow> response \<times> 's" where
  "handleImageRemove d = json_call (dec_name_body ''tag'') (\<lambda>(c, t) s. unit_result (drv_image_remove d c t s))
     (\<lambda>_. write_json enc_ok)"

definition handleImageSBOM :: "'s driver \<Rightarrow> request \<Rightarrow> 's \<Rightarrow> response \<times> 's" where
  "handleImageSBOM d = json_call (dec_name_body ''tag'') (\<lambda>(c, t). drv_sbom d c t)
     (\<lambda>b. \<lparr>rs_status = 200, rs_body = RawBody b\<rparr>)"

definition handleInspect :: "'s driver \<Rightarrow> request \<Rightarrow> 's \<Rightarrow> response \<times> 's" where
  "handleInspect d = json_call (dec_name_body ''container'') (\<lambda>(c, n). drv_inspect d c n)
     (\<lambda>b. \<lparr>rs_status = 200, rs_body = RawBody b\<rparr>)"

definition containerAction ::
    "(workspace_context \<Rightarrow> string \<Rightarrow> 's \<Rightarrow> string option \<times> 's) \<Rightarrow> request \<Rightarrow> 's \<Rightarrow> response \<times> 's" where
  "containerAction run = json_call (dec_name_body ''container'') (\<lambda>(c, n) s. unit_result (run c n s))
     (\<lambda>_. write_json enc_ok)"

definition handleStop :: "'s driver \<Rightarrow> request \<Rightarrow> 's \<Rightarrow> response \<times> 's" where
  "handleStop d = containerAction (drv_stop d)"

definition handleRestart :: "'s driver \<Rightarrow> request \<Rightarrow> 's \<Rightarrow> response \<times> 's" where
  "handleRestart d = containerAction (drv_restart d)"

definition handleRemove :: "'s driver \<Rightarrow> request \<Rightarrow> 's \<Rightarrow> response \<times> 's" where
  "handleRemove d = containerAction (drv_remove d)"

text \<open>The handlers that stream server-sent events; \<open>flush\<close>: the writer can flush.\<close>

definition sse_call ::
    "(json \<Rightarrow> 'b option) \<Rightarrow> ('b \<Rightarrow> 's \<Rightarrow> sse_line list \<times> 's) \<Rightarrow> bool \<Rightarrow> request \<Rightarrow> 's \<Rightarrow> response \<times> 's" where
  "sse_call dec run flush r s =
     (case decode dec r of
        Inl resp \<Rightarrow> (resp, s)
      | Inr b \<Rightarrow>
          if \<not> flush then (http_error 500 ''streaming unsupported'', s)
          else case run b s of (ls, s') \<Rightarrow> (\<lparr>rs_status = 200, rs_body = SseBody ls\<rparr>, s'))"

definition sse_error :: "string option \<Rightarrow> sse_line list" where
  "sse_error e = (case e of Some m \<Rightarrow> sse_send ''error'' (enc_error m) | None \<Rightarrow> [])"

definition handleBuildImage :: "'s driver \<Rightarrow> bool \<Rightarrow> request \<Rightarrow> 's \<Rightarrow> response \<times> 's" where
  "handleBuildImage d = sse_call dec_build (\<lambda>b s.
     case drv_build d b s of ((ls, res), s') \<Rightarrow>
       (concat (map (\<lambda>l. sse_send ''log'' (enc_line \<lparr>ll_line = l, ll_stderr = False\<rparr>)) ls) @
        (case res of Inl e \<Rightarrow> sse_send ''error'' (enc_error e) | Inr img \<Rightarrow> sse_send ''image'' (enc_image_ref img)), s'))"

definition handleLogs :: "'s driver \<Rightarrow> bool \<Rightarrow> request \<Rightarrow> 's \<Rightarrow> response \<times> 's" where
  "handleLogs d = sse_call dec_logs_body (\<lambda>(c, n, t, f) s.
     case drv_logs d c n t f s of ((ls, e), s') \<Rightarrow>
       (concat (map (\<lambda>l. sse_send ''log'' (enc_line l)) ls) @ sse_error e, s'))"

definition handleEvents :: "'s driver \<Rightarrow> bool \<Rightarrow> request \<Rightarrow> 's \<Rightarrow> response \<times> 's" where
  "handleEvents d = sse_call dec_events_body (\<lambda>c s.
     case drv_events d c s of ((es, e), s') \<Rightarrow>
       (concat (map (\<lambda>ev. sse_send ''container-event'' (enc_event ev)) es) @ sse_error e, s'))"

definition raw_of :: "body \<Rightarrow> bytes" where
  "raw_of b = (case b of RawBody bs \<Rightarrow> bs | TextBody t \<Rightarrow> bytes_of_string t | _ \<Rightarrow> [])"

definition frames_of :: "(bool \<times> bytes) list \<Rightarrow> bytes" where
  "frames_of cs = concat (map (\<lambda>(stderr, chunk).
     writeExecFrame (if stderr then ExecStreamStderr else ExecStreamStdout) chunk) cs)"

definition handleExec :: "'s driver \<Rightarrow> bool \<Rightarrow> request \<Rightarrow> 's \<Rightarrow> response \<times> 's" where
  "handleExec d flush r s =
     (if \<not> rq_post r then (http_error 405 ''method not allowed'', s)
      else
        case rq_exec r of
          None \<Rightarrow> (http_error 400 ''invalid X-Bitswan-Exec header'', s)
        | Some j \<Rightarrow>
            (case dec_exec_body j of
               None \<Rightarrow> (http_error 400 ''invalid exec metadata'', s)
             | Some (c, spec) \<Rightarrow>
                 if \<not> flush then (http_error 500 ''streaming unsupported'', s)
                 else
                   case drv_exec d c spec (raw_of (rq_body r)) s of ((chunks, res), s') \<Rightarrow>
                     (\<lparr>rs_status = 200,
                       rs_body = RawBody (frames_of chunks @
                         (case res of
                            Inl e \<Rightarrow> writeExecFrame ExecStreamError (bytes_of_string e)
                          | Inr code \<Rightarrow> writeExecFrame ExecStreamExit (put32 (word_of_int code))))\<rparr>, s')))"

text \<open>A read error after the first byte of the archive ends the body there, with status 200.\<close>

definition handleCopyOut :: "'s driver \<Rightarrow> request \<Rightarrow> 's \<Rightarrow> response \<times> 's" where
  "handleCopyOut d = json_call dec_copy_body (\<lambda>(c, n, p). drv_copy_out d c n p)
     (\<lambda>(b, read_err). \<lparr>rs_status = 200, rs_body = RawBody b\<rparr>)"

definition handleCopyIn :: "'s driver \<Rightarrow> request \<Rightarrow> 's \<Rightarrow> response \<times> 's" where
  "handleCopyIn d r s =
     (if \<not> rq_post r then (http_error 405 ''method not allowed'', s)
      else
        case rq_copy r of
          None \<Rightarrow> (http_error 400 ''invalid X-Bitswan-Copy header'', s)
        | Some j \<Rightarrow>
            (case dec_copy_body j of
               None \<Rightarrow> (http_error 400 ''invalid copy metadata'', s)
             | Some (c, n, p) \<Rightarrow>
                 (case drv_copy_in d c n p (raw_of (rq_body r)) s of
                    (Some e, s') \<Rightarrow> (http_error 500 e, s')
                  | (None, s') \<Rightarrow> (write_json enc_ok, s'))))"

definition handleEnsureDeployRepo :: "'s server_cfg \<Rightarrow> request \<Rightarrow> 's \<Rightarrow> response \<times> 's" where
  "handleEnsureDeployRepo sv r s =
     (case decode dec_ensure_body r of
        Inl resp \<Rightarrow> (resp, s)
      | Inr bp \<Rightarrow>
          if bp = [] then (http_error 400 ''bp is required'', s)
          else
            case sv_ensure sv of
              None \<Rightarrow> (http_error 501 ''per-BP deploy repos not enabled on this driver'', s)
            | Some ensure \<Rightarrow>
                (case ensure bp s of
                   (Some e, s') \<Rightarrow> (http_error 500 e, s')
                 | (None, s') \<Rightarrow> (write_json enc_ok, s')))"

text \<open>\<open>Handler\<close>: the token guard around the routes.\<close>

definition requestToken :: "request \<Rightarrow> string" where
  "requestToken r = (case rq_auth r of BearerAuth t \<Rightarrow> t | BasicAuth _ p \<Rightarrow> p | _ \<Rightarrow> [])"

definition tokenAuth :: "string \<Rightarrow> (request \<Rightarrow> 's \<Rightarrow> response \<times> 's) \<Rightarrow> request \<Rightarrow> 's \<Rightarrow> response \<times> 's" where
  "tokenAuth token next r s =
     (if token = [] \<or> requestToken r = token then next r s else (http_error 401 ''unauthorized'', s))"

definition routes :: "'s server_cfg \<Rightarrow> request \<Rightarrow> 's \<Rightarrow> response \<times> 's" where
  "routes sv r s =
     (let d = sv_driver sv; p = rq_path r; fl = sv_flush sv in
      if p = PathBuildImage then handleBuildImage d fl r s
      else if p = PathContainersList then handleList d r s
      else if p = PathContainersStats then handleStats d r s
      else if p = PathContainersEvents then handleEvents d fl r s
      else if p = PathContainersInspect then handleInspect d r s
      else if p = PathContainersLogs then handleLogs d fl r s
      else if p = PathContainersStop then handleStop d r s
      else if p = PathContainersRestart then handleRestart d r s
      else if p = PathContainersRemove then handleRemove d r s
      else if p = PathContainersExec then handleExec d fl r s
      else if p = PathContainersCopyOut then handleCopyOut d r s
      else if p = PathContainersCopyIn then handleCopyIn d r s
      else if p = PathImagesList then handleImageList d r s
      else if p = PathImagesRemove then handleImageRemove d r s
      else if p = PathImagesSBOM then handleImageSBOM d r s
      else if p = PathDeployRepoEnsure then handleEnsureDeployRepo sv r s
      else case sv_git sv of Some git \<Rightarrow> git r s | None \<Rightarrow> (http_error 404 ''404 page not found'', s))"

definition serve :: "'s server_cfg \<Rightarrow> request \<Rightarrow> 's \<Rightarrow> response \<times> 's" where
  "serve sv = tokenAuth (sv_token sv) (routes sv)"

section \<open>The client\<close>

type_synonym 's transport = "request \<Rightarrow> 's \<Rightarrow> (string + response) \<times> 's"

definition auth :: "string \<Rightarrow> auth_header" where
  "auth token = (if token \<noteq> [] then BearerAuth token else NoAuth)"

definition new_request :: "string \<Rightarrow> string \<Rightarrow> body \<Rightarrow> request" where
  "new_request token path b =
     \<lparr>rq_post = True, rq_path = path, rq_auth = auth token, rq_exec = None, rq_copy = None, rq_body = b\<rparr>"

definition http_status_error :: "string \<Rightarrow> nat \<Rightarrow> string" where
  "http_status_error path code = path @ '': HTTP '' @ itoa code"

definition json_error :: string where "json_error = ''json: cannot unmarshal''"

text \<open>A request, its transport error or its status error, and what to do with a 200 response.\<close>

definition call ::
    "'s transport \<Rightarrow> request \<Rightarrow> (response \<Rightarrow> string) \<Rightarrow> (body \<Rightarrow> string + 'r) \<Rightarrow> 's \<Rightarrow> (string + 'r) \<times> 's" where
  "call T rq status_err k s =
     (case T rq s of
        (Inl e, s') \<Rightarrow> (Inl e, s')
      | (Inr resp, s') \<Rightarrow> (if rs_status resp \<noteq> 200 then Inl (status_err resp) else k (rs_body resp), s'))"

definition postJSON ::
    "'s transport \<Rightarrow> string \<Rightarrow> string \<Rightarrow> json \<Rightarrow> (json \<Rightarrow> 'r option) \<Rightarrow> 's \<Rightarrow> (string + 'r) \<times> 's" where
  "postJSON T token path reqBody dec =
     call T (new_request token path (JsonBody reqBody)) (\<lambda>resp. http_status_error path (rs_status resp))
       (\<lambda>b. case b of
          JsonBody j \<Rightarrow> (case dec j of Some x \<Rightarrow> Inr x | None \<Rightarrow> Inl json_error)
        | _ \<Rightarrow> Inl json_error)"

definition error_of :: "(string + 'r) \<times> 's \<Rightarrow> string option \<times> 's" where
  "error_of p = (case fst p of Inl e \<Rightarrow> Some e | Inr _ \<Rightarrow> None, snd p)"

definition ContainerList ::
    "'s transport \<Rightarrow> string \<Rightarrow> workspace_context \<Rightarrow> container_filter \<Rightarrow> 's \<Rightarrow> (string + container list) \<times> 's" where
  "ContainerList T token c f =
     postJSON T token PathContainersList (enc_list_body (c, f)) (dec_result ''containers'' dec_container)"

definition ContainerStats ::
    "'s transport \<Rightarrow> string \<Rightarrow> workspace_context \<Rightarrow> container_filter \<Rightarrow> 's \<Rightarrow> (string + container_stat list) \<times> 's" where
  "ContainerStats T token c f =
     postJSON T token PathContainersStats (enc_list_body (c, f)) (dec_result ''stats'' dec_stat)"

definition ContainerStop :: "'s transport \<Rightarrow> string \<Rightarrow> workspace_context \<Rightarrow> string \<Rightarrow> 's \<Rightarrow> string option \<times> 's" where
  "ContainerStop T token c n s =
     error_of (postJSON T token PathContainersStop (enc_name_body ''container'' (c, n)) dec_ok s)"

definition ContainerRestart :: "'s transport \<Rightarrow> string \<Rightarrow> workspace_context \<Rightarrow> string \<Rightarrow> 's \<Rightarrow> string option \<times> 's" where
  "ContainerRestart T token c n s =
     error_of (postJSON T token PathContainersRestart (enc_name_body ''container'' (c, n)) dec_ok s)"

definition ContainerRemove :: "'s transport \<Rightarrow> string \<Rightarrow> workspace_context \<Rightarrow> string \<Rightarrow> 's \<Rightarrow> string option \<times> 's" where
  "ContainerRemove T token c n s =
     error_of (postJSON T token PathContainersRemove (enc_name_body ''container'' (c, n)) dec_ok s)"

definition ImageList :: "'s transport \<Rightarrow> string \<Rightarrow> workspace_context \<Rightarrow> 's \<Rightarrow> (string + image list) \<times> 's" where
  "ImageList T token c =
     postJSON T token PathImagesList (enc_list_body (c, zero_filter)) (dec_result ''images'' dec_image)"

definition ImageRemove :: "'s transport \<Rightarrow> string \<Rightarrow> workspace_context \<Rightarrow> string \<Rightarrow> 's \<Rightarrow> string option \<times> 's" where
  "ImageRemove T token c t s =
     error_of (postJSON T token PathImagesRemove (enc_name_body ''tag'' (c, t)) dec_ok s)"

definition text_of :: "body \<Rightarrow> string" where
  "text_of b = (case b of TextBody t \<Rightarrow> t | RawBody bs \<Rightarrow> string_of_bytes bs | _ \<Rightarrow> [])"

definition raw_result :: "body \<Rightarrow> string + bytes" where
  "raw_result b = Inr (raw_of b)"

definition ImageSBOM :: "'s transport \<Rightarrow> string \<Rightarrow> workspace_context \<Rightarrow> string \<Rightarrow> 's \<Rightarrow> (string + bytes) \<times> 's" where
  "ImageSBOM T token c t =
     call T (new_request token PathImagesSBOM (JsonBody (enc_name_body ''tag'' (c, t))))
       (\<lambda>resp. http_status_error PathImagesSBOM (rs_status resp) @ '': '' @ trim_space (text_of (rs_body resp)))
       raw_result"

definition ContainerInspect :: "'s transport \<Rightarrow> string \<Rightarrow> workspace_context \<Rightarrow> string \<Rightarrow> 's \<Rightarrow> (string + bytes) \<times> 's" where
  "ContainerInspect T token c n =
     call T (new_request token PathContainersInspect (JsonBody (enc_name_body ''container'' (c, n))))
       (\<lambda>resp. http_status_error PathContainersInspect (rs_status resp)) raw_result"

definition ContainerExec ::
    "'s transport \<Rightarrow> string \<Rightarrow> workspace_context \<Rightarrow> exec_spec \<Rightarrow> bytes \<Rightarrow> 's \<Rightarrow> ((bool \<times> bytes) list \<times> (string + int)) \<times> 's" where
  "ContainerExec T token c spec stdin s =
     (case call T ((new_request token PathContainersExec (RawBody stdin))\<lparr>rq_exec := Some (enc_exec_body (c, spec))\<rparr>)
             (\<lambda>resp. http_status_error PathContainersExec (rs_status resp)) (\<lambda>b. Inr (readExecFrames (raw_of b))) s of
        (Inl e, s') \<Rightarrow> (([], Inl e), s')
      | (Inr r, s') \<Rightarrow> (r, s'))"

definition ContainerCopyOut ::
    "'s transport \<Rightarrow> string \<Rightarrow> workspace_context \<Rightarrow> string \<Rightarrow> string \<Rightarrow> 's \<Rightarrow> (string + bytes \<times> string option) \<times> 's" where
  "ContainerCopyOut T token c n p =
     call T (new_request token PathContainersCopyOut (JsonBody (enc_copy_body (c, n, p))))
       (\<lambda>resp. http_status_error PathContainersCopyOut (rs_status resp)) (\<lambda>b. Inr (raw_of b, None))"

definition ContainerCopyIn ::
    "'s transport \<Rightarrow> string \<Rightarrow> workspace_context \<Rightarrow> string \<Rightarrow> string \<Rightarrow> bytes \<Rightarrow> 's \<Rightarrow> string option \<times> 's" where
  "ContainerCopyIn T token c n p tar s =
     error_of (call T ((new_request token PathContainersCopyIn (RawBody tar))\<lparr>rq_copy := Some (enc_copy_body (c, n, p))\<rparr>)
       (\<lambda>resp. http_status_error PathContainersCopyIn (rs_status resp)) (\<lambda>b. Inr ()) s)"

text \<open>\<open>stream\<close>: the scan of the event lines; \<open>fits\<close> says that a data line fits the scanner's 4 MiB
  buffer. \<open>onFrame\<close> threads its own state and may stop the scan with an error.\<close>

fun sse_scan ::
    "(json \<Rightarrow> bool) \<Rightarrow> (string \<Rightarrow> json list \<Rightarrow> 'a \<Rightarrow> 'a \<times> string option) \<Rightarrow> string \<Rightarrow> json list \<Rightarrow> sse_line list \<Rightarrow>
     'a \<Rightarrow> 'a \<times> string option" where
  "sse_scan fits onFrame event data [] a = (if event \<noteq> [] then onFrame event data a else (a, None))"
| "sse_scan fits onFrame event data (SseBlank # ls) a =
     (if event \<noteq> [] then
        (case onFrame event data a of
           (a', Some e) \<Rightarrow> (a', Some e)
         | (a', None) \<Rightarrow> sse_scan fits onFrame [] [] ls a')
      else sse_scan fits onFrame [] [] ls a)"
| "sse_scan fits onFrame event data (SseEvent e # ls) a = sse_scan fits onFrame (trim_space e) data ls a"
| "sse_scan fits onFrame event data (SseData j # ls) a =
     (if fits j then sse_scan fits onFrame event (data @ [j]) ls a
      else (a, Some ''bufio.Scanner: token too long''))"

text \<open>\<open>json.Unmarshal\<close> of the joined data lines: one JSON value, or an error.\<close>

definition unmarshal :: "(json \<Rightarrow> 'v option) \<Rightarrow> json list \<Rightarrow> 'v option" where
  "unmarshal dec data = (case data of [j] \<Rightarrow> dec j | _ \<Rightarrow> None)"

definition sseError :: "json list \<Rightarrow> string" where
  "sseError data =
     (case unmarshal dec_error data of
        Some e \<Rightarrow> if e \<noteq> [] then ''driver: '' @ e else ''driver error''
      | None \<Rightarrow> ''driver error'')"

definition stream ::
    "(json \<Rightarrow> bool) \<Rightarrow> 's transport \<Rightarrow> string \<Rightarrow> string \<Rightarrow> json \<Rightarrow> (string \<Rightarrow> json list \<Rightarrow> 'a \<Rightarrow> 'a \<times> string option) \<Rightarrow>
     'a \<Rightarrow> 's \<Rightarrow> ('a \<times> string option) \<times> 's" where
  "stream fits T token path reqBody onFrame a s =
     (case call T (new_request token path (JsonBody reqBody)) (\<lambda>resp. http_status_error path (rs_status resp))
             (\<lambda>b. Inr (sse_scan fits onFrame [] [] (case b of SseBody ls \<Rightarrow> ls | _ \<Rightarrow> []) a)) s of
        (Inl e, s') \<Rightarrow> ((a, Some e), s')
      | (Inr r, s') \<Rightarrow> (r, s'))"

definition build_frame :: "string \<Rightarrow> json list \<Rightarrow> string list \<times> image_ref \<Rightarrow> (string list \<times> image_ref) \<times> string option" where
  "build_frame event data a =
     (if event = ''log'' then
        (case unmarshal dec_line data of None \<Rightarrow> (a, Some json_error) | Some l \<Rightarrow> ((fst a @ [ll_line l], snd a), None))
      else if event = ''image'' then
        (case unmarshal dec_image_ref data of None \<Rightarrow> (a, Some json_error) | Some i \<Rightarrow> ((fst a, i), None))
      else if event = ''error'' then (a, Some (sseError data)) else (a, None))"

definition BuildImage ::
    "(json \<Rightarrow> bool) \<Rightarrow> 's transport \<Rightarrow> string \<Rightarrow> build_request \<Rightarrow> 's \<Rightarrow> (string list \<times> (string + image_ref)) \<times> 's" where
  "BuildImage fits T token b s =
     (case stream fits T token PathBuildImage (enc_build b) build_frame ([], zero_image_ref) s of
        (((ls, img), None), s') \<Rightarrow> ((ls, Inr img), s')
      | (((ls, img), Some e), s') \<Rightarrow> ((ls, Inl e), s'))"

definition item_frame :: "string \<Rightarrow> (json \<Rightarrow> 'i option) \<Rightarrow> string \<Rightarrow> json list \<Rightarrow> 'i list \<Rightarrow> 'i list \<times> string option" where
  "item_frame name dec event data a =
     (if event = name then
        (case unmarshal dec data of None \<Rightarrow> (a, Some json_error) | Some l \<Rightarrow> (a @ [l], None))
      else if event = ''error'' then (a, Some (sseError data)) else (a, None))"

definition ContainerLogs ::
    "(json \<Rightarrow> bool) \<Rightarrow> 's transport \<Rightarrow> string \<Rightarrow> workspace_context \<Rightarrow> string \<Rightarrow> int \<Rightarrow> bool \<Rightarrow> 's \<Rightarrow> (log_line list \<times> string option) \<times> 's" where
  "ContainerLogs fits T token c n t f =
     stream fits T token PathContainersLogs (enc_logs_body (c, n, t, f)) (item_frame ''log'' dec_line) []"

definition ContainerEvents ::
    "(json \<Rightarrow> bool) \<Rightarrow> 's transport \<Rightarrow> string \<Rightarrow> workspace_context \<Rightarrow> 's \<Rightarrow> (container_event list \<times> string option) \<times> 's" where
  "ContainerEvents fits T token c =
     stream fits T token PathContainersEvents (enc_events_body c) (item_frame ''container-event'' dec_event) []"

text \<open>The client as a driver, over any transport.\<close>

definition remote :: "(json \<Rightarrow> bool) \<Rightarrow> 's transport \<Rightarrow> string \<Rightarrow> 's driver" where
  "remote fits T token =
     \<lparr>drv_build = BuildImage fits T token, drv_list = ContainerList T token, drv_stats = ContainerStats T token,
      drv_logs = ContainerLogs fits T token, drv_events = ContainerEvents fits T token,
      drv_stop = ContainerStop T token, drv_restart = ContainerRestart T token, drv_remove = ContainerRemove T token,
      drv_images = ImageList T token, drv_image_remove = ImageRemove T token, drv_sbom = ImageSBOM T token,
      drv_inspect = ContainerInspect T token, drv_exec = ContainerExec T token,
      drv_copy_out = ContainerCopyOut T token, drv_copy_in = ContainerCopyIn T token\<rparr>"

text \<open>The transport that hands a request to a server in process.\<close>

definition wire :: "'s server_cfg \<Rightarrow> 's transport" where
  "wire sv r s = (case serve sv r s of (resp, s') \<Rightarrow> (Inr resp, s'))"

section \<open>Frames are read back\<close>

lemma readExecFrames_frame:
  assumes "length p < 2 ^ 32"
  shows "readExecFrames (writeExecFrame st p @ rest) =
     (if st = ExecStreamStdout then (case readExecFrames rest of (cs, res) \<Rightarrow> ((False, p) # cs, res))
      else if st = ExecStreamStderr then (case readExecFrames rest of (cs, res) \<Rightarrow> ((True, p) # cs, res))
      else if st = ExecStreamExit then
        ([], if length p \<noteq> 4 then Inl ''malformed exit frame''
             else Inr (sint (be32 (p ! 0) (p ! 1) (p ! 2) (p ! 3))))
      else if st = ExecStreamError then ([], Inl (string_of_bytes p))
      else ([], Inl (''unknown exec frame stream '' @ itoa (unat st))))"
proof -
  let ?v = "of_nat (length p) :: u32"
  have n: "unat ?v = length p" using assms by (simp add: unat_of_nat)
  have w: "writeExecFrame st p @ rest =
      st # ucast (drop_bit 24 ?v) # ucast (drop_bit 16 ?v) # ucast (drop_bit 8 ?v) # ucast ?v # p @ rest"
    by (simp add: writeExecFrame_def put32_def)
  have len: "be32 (ucast (drop_bit 24 ?v)) (ucast (drop_bit 16 ?v)) (ucast (drop_bit 8 ?v)) (ucast ?v) = ?v"
    by (rule be32_put32)
  show ?thesis
    unfolding w by (subst readExecFrames.simps) (simp add: len n Let_def)
qed

lemma readExecFrames_chunks:
  "list_all (\<lambda>c. length (snd c) < 2 ^ 32) cs \<Longrightarrow>
   readExecFrames (frames_of cs @ rest) = (case readExecFrames rest of (cs', res) \<Rightarrow> (cs @ cs', res))"
proof (induction cs)
  case (Cons c cs)
  obtain e p where c: "c = (e, p)" by (cases c) auto
  have "frames_of (c # cs) @ rest =
      writeExecFrame (if e then ExecStreamStderr else ExecStreamStdout) p @ (frames_of cs @ rest)"
    by (simp add: frames_of_def c)
  then show ?case
    using Cons by (simp add: c readExecFrames_frame split: prod.split)
qed (simp add: frames_of_def)

lemma sint_exit_code: "- (2 ^ 31) \<le> code \<Longrightarrow> code < 2 ^ 31 \<Longrightarrow> sint (word_of_int code :: u32) = code"
  by (simp add: sint_sbintrunc' signed_take_bit_int_eq_self)

definition exec_ok :: "(bool \<times> bytes) list \<times> (string + int) \<Rightarrow> bool" where
  "exec_ok r \<longleftrightarrow> list_all (\<lambda>c. length (snd c) < 2 ^ 32) (fst r) \<and>
     (case snd r of Inl e \<Rightarrow> length e < 2 ^ 32 | Inr code \<Rightarrow> - (2 ^ 31) \<le> code \<and> code < 2 ^ 31)"

text \<open>What \<open>handleExec\<close> writes for a result of the driver.\<close>

definition exec_stream :: "(bool \<times> bytes) list \<times> (string + int) \<Rightarrow> bytes" where
  "exec_stream r = frames_of (fst r) @
     (case snd r of
        Inl e \<Rightarrow> writeExecFrame ExecStreamError (bytes_of_string e)
      | Inr code \<Rightarrow> writeExecFrame ExecStreamExit (put32 (word_of_int code)))"

lemma put32_nth: "be32 (put32 v ! 0) (put32 v ! 1) (put32 v ! 2) (put32 v ! 3) = v"
  by (simp add: put32_def be32_put32)

lemma readExecFrames_stream: "exec_ok r \<Longrightarrow> readExecFrames (exec_stream r) = r"
proof (cases r)
  case (Pair cs res)
  assume ok: "exec_ok r"
  have "readExecFrames (writeExecFrame ExecStreamError (bytes_of_string e) @ []) = ([], Inl e)" if "res = Inl e" for e
    using ok that Pair by (subst readExecFrames_frame) (simp_all add: exec_ok_def)
  moreover have "readExecFrames (writeExecFrame ExecStreamExit (put32 (word_of_int code)) @ []) = ([], Inr code)"
    if "res = Inr code" for code
    using ok that Pair sint_exit_code
    by (subst readExecFrames_frame) (simp_all add: exec_ok_def put32_nth [unfolded One_nat_def])
  ultimately show ?thesis
    using ok Pair by (cases res) (simp_all add: exec_stream_def exec_ok_def readExecFrames_chunks)
qed

section \<open>Events are read back\<close>

lemma scan_send:
  assumes "event \<noteq> []" and "trim_space event = event" and "fits j"
  shows "sse_scan fits onFrame [] [] (sse_send event j @ ls) a =
     (case onFrame event [j] a of (a', Some e) \<Rightarrow> (a', Some e) | (a', None) \<Rightarrow> sse_scan fits onFrame [] [] ls a')"
  using assms by (simp add: sse_send_def)

lemma scan_items:
  assumes "event \<noteq> []" and "trim_space event = event"
    and "\<And>x a. x \<in> set xs \<Longrightarrow> fits (enc x) \<and> onFrame event [enc x] a = (add x a, None)"
  shows "sse_scan fits onFrame [] [] (concat (map (\<lambda>x. sse_send event (enc x)) xs) @ ls) a =
     sse_scan fits onFrame [] [] ls (fold add xs a)"
  using assms(3)
proof (induction xs arbitrary: a)
  case (Cons x xs)
  have "sse_scan fits onFrame [] [] (sse_send event (enc x) @ (concat (map (\<lambda>x. sse_send event (enc x)) xs) @ ls)) a =
      sse_scan fits onFrame [] [] (concat (map (\<lambda>x. sse_send event (enc x)) xs) @ ls) (add x a)"
    using Cons.prems [of x a] by (simp only: scan_send [OF assms(1,2)] list.set_intros) simp
  then show ?case using Cons by simp
qed simp

lemma scan_error:
  assumes "case e of None \<Rightarrow> True | Some m \<Rightarrow> fits (enc_error m)" and "\<And>d b. onFrame ''error'' d b = (b, Some (sseError d))"
  shows "sse_scan fits onFrame [] [] (sse_error e) a =
    (a, map_option (\<lambda>m. if m \<noteq> [] then ''driver: '' @ m else ''driver error'') e)"
proof (cases e)
  case (Some m)
  have t: "trim_space ''error'' = ''error''" by (simp add: trim_space_def trim_right_def is_space_def)
  have "sse_scan fits onFrame [] [] (sse_send ''error'' (enc_error m) @ []) a = (a, Some (sseError [enc_error m]))"
    using assms Some t by (subst scan_send) simp_all
  then show ?thesis using Some by (simp add: sse_error_def sseError_def unmarshal_def dec_enc_error)
qed (simp add: sse_error_def)

section \<open>The client over the server is the driver\<close>

text \<open>What the client's caller sees of a driver: the results, with the error text of a failed call
  reduced to the path and the status (an exec error, a build error and a failed image scan keep
  theirs), and without the read error of an archive.\<close>

definition coarse :: "string \<Rightarrow> (string + 'r) \<times> 's \<Rightarrow> (string + 'r) \<times> 's" where
  "coarse path p = (case fst p of Inl _ \<Rightarrow> Inl (http_status_error path 500) | Inr x \<Rightarrow> Inr x, snd p)"

definition coarse_unit :: "string \<Rightarrow> string option \<times> 's \<Rightarrow> string option \<times> 's" where
  "coarse_unit path p = (map_option (\<lambda>_. http_status_error path 500) (fst p), snd p)"

definition streamed_error :: "string \<Rightarrow> string" where
  "streamed_error m = (if m \<noteq> [] then ''driver: '' @ m else ''driver error'')"

definition wire_view :: "'s driver \<Rightarrow> 's driver" where
  "wire_view d =
     \<lparr>drv_build = (\<lambda>b s. case drv_build d b s of ((ls, res), s') \<Rightarrow>
        ((ls, case res of Inl e \<Rightarrow> Inl (streamed_error e) | Inr i \<Rightarrow> Inr i), s')),
      drv_list = (\<lambda>c f s. coarse PathContainersList (drv_list d c f s)),
      drv_stats = (\<lambda>c f s. coarse PathContainersStats (drv_stats d c f s)),
      drv_logs = (\<lambda>c n t f s. case drv_logs d c n t f s of ((ls, e), s') \<Rightarrow> ((ls, map_option streamed_error e), s')),
      drv_events = (\<lambda>c s. case drv_events d c s of ((es, e), s') \<Rightarrow> ((es, map_option streamed_error e), s')),
      drv_stop = (\<lambda>c n s. coarse_unit PathContainersStop (drv_stop d c n s)),
      drv_restart = (\<lambda>c n s. coarse_unit PathContainersRestart (drv_restart d c n s)),
      drv_remove = (\<lambda>c n s. coarse_unit PathContainersRemove (drv_remove d c n s)),
      drv_images = (\<lambda>c s. coarse PathImagesList (drv_images d c s)),
      drv_image_remove = (\<lambda>c t s. coarse_unit PathImagesRemove (drv_image_remove d c t s)),
      drv_sbom = (\<lambda>c t s. case drv_sbom d c t s of
          (Inl e, s') \<Rightarrow> (Inl (http_status_error PathImagesSBOM 500 @ '': '' @ trim_space (e @ [CHR 0x0A])), s')
        | (Inr b, s') \<Rightarrow> (Inr b, s')),
      drv_inspect = (\<lambda>c n s. coarse PathContainersInspect (drv_inspect d c n s)),
      drv_exec = drv_exec d,
      drv_copy_out = (\<lambda>c n p s. case coarse PathContainersCopyOut (drv_copy_out d c n p s) of
          (Inl e, s') \<Rightarrow> (Inl e, s') | (Inr (b, _), s') \<Rightarrow> (Inr (b, None), s')),
      drv_copy_in = (\<lambda>c n p b s. coarse_unit PathContainersCopyIn (drv_copy_in d c n p b s))\<rparr>"

text \<open>Two drivers agree when every operation does; the tail of a log is a 64-bit integer.\<close>

definition driver_agrees :: "'s driver \<Rightarrow> 's driver \<Rightarrow> bool" where
  "driver_agrees d1 d2 \<longleftrightarrow>
     drv_build d1 = drv_build d2 \<and> drv_list d1 = drv_list d2 \<and> drv_stats d1 = drv_stats d2 \<and>
     (\<forall>c n t f s. int64 t \<longrightarrow> drv_logs d1 c n t f s = drv_logs d2 c n t f s) \<and>
     drv_events d1 = drv_events d2 \<and> drv_stop d1 = drv_stop d2 \<and> drv_restart d1 = drv_restart d2 \<and>
     drv_remove d1 = drv_remove d2 \<and> drv_images d1 = drv_images d2 \<and> drv_image_remove d1 = drv_image_remove d2 \<and>
     drv_sbom d1 = drv_sbom d2 \<and> drv_inspect d1 = drv_inspect d2 \<and> drv_exec d1 = drv_exec d2 \<and>
     drv_copy_out d1 = drv_copy_out d2 \<and> drv_copy_in d1 = drv_copy_in d2"

text \<open>The values the driver returns can be carried: 64-bit integers, streamed lines that fit the
  client's line buffer, chunks shorter than 4 GiB and a 32-bit exit code.\<close>

definition stream_ok :: "(json \<Rightarrow> bool) \<Rightarrow> ('i \<Rightarrow> json) \<Rightarrow> ('i list \<times> string option) \<Rightarrow> bool" where
  "stream_ok fits enc r \<longleftrightarrow> list_all (\<lambda>x. fits (enc x)) (fst r) \<and> pred_option (\<lambda>e. fits (enc_error e)) (snd r)"

definition driver_ok :: "(json \<Rightarrow> bool) \<Rightarrow> 's driver \<Rightarrow> bool" where
  "driver_ok fits d \<longleftrightarrow>
     (\<forall>c f s. pred_sum (\<lambda>_. True) (list_all container_ok) (fst (drv_list d c f s))) \<and>
     (\<forall>c f s. pred_sum (\<lambda>_. True) (list_all (\<lambda>x. int64 (cs_mem x))) (fst (drv_stats d c f s))) \<and>
     (\<forall>c s. pred_sum (\<lambda>_. True) (list_all image_ok) (fst (drv_images d c s))) \<and>
     (\<forall>c n t f s. stream_ok fits enc_line (fst (drv_logs d c n t f s))) \<and>
     (\<forall>c s. stream_ok fits enc_event (fst (drv_events d c s))) \<and>
     (\<forall>b s. list_all (\<lambda>l. fits (enc_line \<lparr>ll_line = l, ll_stderr = False\<rparr>)) (fst (fst (drv_build d b s))) \<and>
        pred_sum (\<lambda>e. fits (enc_error e)) (\<lambda>i. fits (enc_image_ref i)) (snd (fst (drv_build d b s)))) \<and>
     (\<forall>c sp i s. exec_ok (fst (drv_exec d c sp i s)))"

lemmas path_defs = PathBuildImage_def PathContainersList_def PathContainersStats_def PathContainersEvents_def
  PathContainersInspect_def PathContainersLogs_def PathContainersStop_def PathContainersRestart_def
  PathContainersRemove_def PathContainersExec_def PathContainersCopyOut_def PathContainersCopyIn_def
  PathImagesList_def PathImagesRemove_def PathImagesSBOM_def PathDeployRepoEnsure_def

lemma routes_to:
  "rq_path r = PathBuildImage \<Longrightarrow> routes sv r s = handleBuildImage (sv_driver sv) (sv_flush sv) r s"
  "rq_path r = PathContainersList \<Longrightarrow> routes sv r s = handleList (sv_driver sv) r s"
  "rq_path r = PathContainersStats \<Longrightarrow> routes sv r s = handleStats (sv_driver sv) r s"
  "rq_path r = PathContainersEvents \<Longrightarrow> routes sv r s = handleEvents (sv_driver sv) (sv_flush sv) r s"
  "rq_path r = PathContainersInspect \<Longrightarrow> routes sv r s = handleInspect (sv_driver sv) r s"
  "rq_path r = PathContainersLogs \<Longrightarrow> routes sv r s = handleLogs (sv_driver sv) (sv_flush sv) r s"
  "rq_path r = PathContainersStop \<Longrightarrow> routes sv r s = handleStop (sv_driver sv) r s"
  "rq_path r = PathContainersRestart \<Longrightarrow> routes sv r s = handleRestart (sv_driver sv) r s"
  "rq_path r = PathContainersRemove \<Longrightarrow> routes sv r s = handleRemove (sv_driver sv) r s"
  "rq_path r = PathContainersExec \<Longrightarrow> routes sv r s = handleExec (sv_driver sv) (sv_flush sv) r s"
  "rq_path r = PathContainersCopyOut \<Longrightarrow> routes sv r s = handleCopyOut (sv_driver sv) r s"
  "rq_path r = PathContainersCopyIn \<Longrightarrow> routes sv r s = handleCopyIn (sv_driver sv) r s"
  "rq_path r = PathImagesList \<Longrightarrow> routes sv r s = handleImageList (sv_driver sv) r s"
  "rq_path r = PathImagesRemove \<Longrightarrow> routes sv r s = handleImageRemove (sv_driver sv) r s"
  "rq_path r = PathImagesSBOM \<Longrightarrow> routes sv r s = handleImageSBOM (sv_driver sv) r s"
  by (simp_all add: routes_def Let_def path_defs)

lemma serve_authorised:
  "sv_token sv = [] \<or> token = sv_token sv \<Longrightarrow> rq_auth r = auth token \<Longrightarrow> serve sv r s = routes sv r s"
  by (auto simp: serve_def tokenAuth_def requestToken_def auth_def split: if_splits)

lemma body_rt [json_rt]:
  "dec_list_body (enc_list_body lb) = Some lb"
  "dec_name_body ''tag'' (enc_name_body ''tag'' nb) = Some nb"
  "dec_name_body ''container'' (enc_name_body ''container'' nb) = Some nb"
  "dec_events_body (enc_events_body c) = Some c"
  "dec_exec_body (enc_exec_body eb) = Some eb"
  "dec_copy_body (enc_copy_body cb) = Some cb"
  "dec_ok enc_ok = Some True"
  by (simp_all add: dec_list_body_def enc_list_body_def dec_name_body_def enc_name_body_def dec_events_body_def
      enc_events_body_def dec_exec_body_def enc_exec_body_def dec_copy_body_def enc_copy_body_def dec_ok_def enc_ok_def
      dec_enc_ctx dec_enc_filter dec_enc_spec split: prod.split)

lemma logs_body_rt: "int64 t \<Longrightarrow> dec_logs_body (enc_logs_body (c, n, t, f)) = Some (c, n, t, f)"
  by (simp add: dec_logs_body_def enc_logs_body_def dec_enc_ctx)

lemma result_rt: "list_all (\<lambda>x. dec (enc x) = Some x) xs \<Longrightarrow> dec_result k dec (enc_result k enc xs) = Some xs"
  by (simp add: dec_result_def enc_result_def list_all_iff)

lemma call_wire:
  assumes "sv_token sv = [] \<or> token = sv_token sv" and "rq_auth r = auth token"
  shows "call (wire sv) r status_err k s =
    (case routes sv r s of (resp, s') \<Rightarrow>
       (if rs_status resp \<noteq> 200 then Inl (status_err resp) else k (rs_body resp), s'))"
  by (simp add: call_def wire_def serve_authorised [OF assms] split: prod.split)

lemma new_request_fields [simp]:
  "rq_auth (new_request token path b) = auth token" "rq_path (new_request token path b) = path"
  "rq_post (new_request token path b)" "rq_body (new_request token path b) = b"
  by (simp_all add: new_request_def)

lemma json_call_body:
  "rq_post r \<Longrightarrow> rq_body r = JsonBody j \<Longrightarrow> dec j = Some b \<Longrightarrow>
   json_call dec run write r s = (case run b s of (Inl e, s') \<Rightarrow> (http_error 500 e, s') | (Inr x, s') \<Rightarrow> (write x, s'))"
  by (simp add: json_call_def decode_def)

text \<open>A JSON call, end to end.\<close>

lemma postJSON_wire:
  assumes "sv_token sv = [] \<or> token = sv_token sv"
    and "\<And>r. rq_path r = path \<Longrightarrow> routes sv r s = json_call dec run (\<lambda>x. write_json (w x)) r s"
    and "dec j = Some b"
    and "pred_sum (\<lambda>_. True) (\<lambda>x. dec' (w x) = Some (g x)) (fst (run b s))"
  shows "postJSON (wire sv) token path j dec' s = coarse path (map_sum id g (fst (run b s)), snd (run b s))"
proof -
  have "json_call dec run (\<lambda>x. write_json (w x)) (new_request token path (JsonBody j)) s =
      (case run b s of (Inl e, s') \<Rightarrow> (http_error 500 e, s') | (Inr x, s') \<Rightarrow> (write_json (w x), s'))"
    by (rule json_call_body [where j = j]) (simp_all add: assms(3))
  then show ?thesis
    using assms(4)
    by (cases "run b s"; cases "fst (run b s)")
      (simp_all add: postJSON_def call_wire [OF assms(1)] assms(2) coarse_def http_error_def write_json_def)
qed

lemma unit_call_wire:
  assumes "sv_token sv = [] \<or> token = sv_token sv"
    and "\<And>r. rq_path r = path \<Longrightarrow> routes sv r s = json_call dec (\<lambda>b s. unit_result (run b s)) (\<lambda>_. write_json enc_ok) r s"
    and "dec j = Some b"
  shows "error_of (postJSON (wire sv) token path j dec_ok s) = coarse_unit path (run b s)"
proof -
  have "postJSON (wire sv) token path j dec_ok s =
      coarse path (map_sum id (\<lambda>_. True) (fst (unit_result (run b s))), snd (unit_result (run b s)))"
    by (rule postJSON_wire [OF assms(1,2,3)]) (simp_all add: body_rt sum.pred_True)
  then show ?thesis
    by (cases "run b s"; cases "fst (run b s)") (simp_all add: unit_result_def coarse_def coarse_unit_def error_of_def)
qed

lemma stream_wire:
  assumes "sv_token sv = [] \<or> token = sv_token sv" and "flush"
    and "\<And>r. rq_path r = path \<Longrightarrow> routes sv r s = sse_call dec run flush r s"
    and "dec j = Some b"
  shows "stream fits (wire sv) token path j onFrame a s = (sse_scan fits onFrame [] [] (fst (run b s)) a, snd (run b s))"
  by (cases "run b s") (simp add: stream_def call_wire [OF assms(1)] assms(3) sse_call_def decode_def assms(2,4))

text \<open>Each operation of the client over the server.\<close>

lemma remote_json_calls:
  assumes "sv_token sv = [] \<or> token = sv_token sv" and "driver_ok fits (sv_driver sv)"
  shows "ContainerList (wire sv) token c f s = coarse PathContainersList (drv_list (sv_driver sv) c f s)"
    and "ContainerStats (wire sv) token c f s = coarse PathContainersStats (drv_stats (sv_driver sv) c f s)"
    and "ImageList (wire sv) token c s = coarse PathImagesList (drv_images (sv_driver sv) c s)"
proof -
  have ok: "pred_sum (\<lambda>_. True) (\<lambda>xs. dec_result k dec (enc_result k enc xs) = Some xs) res"
    if "pred_sum (\<lambda>_. True) (list_all P) res" "\<And>x. P x \<Longrightarrow> dec (enc x) = Some x"
    for k res P and dec :: "json \<Rightarrow> 'x option" and enc
    using that by (cases res) (auto intro!: result_rt simp: list_all_iff)
  have id: "coarse path (map_sum id (\<lambda>x. x) (fst p), snd p) = coarse path p" for path and p :: "(string + 'y) \<times> 's"
    by (cases "fst p") (simp_all add: coarse_def)
  have l: "pred_sum (\<lambda>_. True) (list_all container_ok) (fst (drv_list (sv_driver sv) c f s))"
    "pred_sum (\<lambda>_. True) (list_all (\<lambda>x. int64 (cs_mem x))) (fst (drv_stats (sv_driver sv) c f s))"
    "pred_sum (\<lambda>_. True) (list_all image_ok) (fst (drv_images (sv_driver sv) c s))"
    using assms(2) by (simp_all add: driver_ok_def)
  show "ContainerList (wire sv) token c f s = coarse PathContainersList (drv_list (sv_driver sv) c f s)"
    unfolding ContainerList_def
    by (subst postJSON_wire [where dec = dec_list_body and b = "(c, f)" and run = "\<lambda>(c, f). drv_list (sv_driver sv) c f"
          and w = "enc_result ''containers'' enc_container" and g = "\<lambda>x. x", OF assms(1)])
      (simp_all add: routes_to handleList_def id body_rt ok [OF l(1) dec_enc_container])
  show "ContainerStats (wire sv) token c f s = coarse PathContainersStats (drv_stats (sv_driver sv) c f s)"
    unfolding ContainerStats_def
    by (subst postJSON_wire [where dec = dec_list_body and b = "(c, f)" and run = "\<lambda>(c, f). drv_stats (sv_driver sv) c f"
          and w = "enc_result ''stats'' enc_stat" and g = "\<lambda>x. x", OF assms(1)])
      (simp_all add: routes_to handleStats_def id body_rt ok [OF l(2) dec_enc_stat])
  show "ImageList (wire sv) token c s = coarse PathImagesList (drv_images (sv_driver sv) c s)"
    unfolding ImageList_def
    by (subst postJSON_wire [where dec = dec_list_body and b = "(c, zero_filter)" and run = "\<lambda>(c, f). drv_images (sv_driver sv) c"
          and w = "enc_result ''images'' enc_image" and g = "\<lambda>x. x", OF assms(1)])
      (simp_all add: routes_to handleImageList_def id body_rt ok [OF l(3) dec_enc_image])
qed

lemma remote_unit_calls:
  assumes "sv_token sv = [] \<or> token = sv_token sv"
  shows "ContainerStop (wire sv) token c n s = coarse_unit PathContainersStop (drv_stop (sv_driver sv) c n s)"
    and "ContainerRestart (wire sv) token c n s = coarse_unit PathContainersRestart (drv_restart (sv_driver sv) c n s)"
    and "ContainerRemove (wire sv) token c n s = coarse_unit PathContainersRemove (drv_remove (sv_driver sv) c n s)"
    and "ImageRemove (wire sv) token c n s = coarse_unit PathImagesRemove (drv_image_remove (sv_driver sv) c n s)"
proof -
  show "ContainerStop (wire sv) token c n s = coarse_unit PathContainersStop (drv_stop (sv_driver sv) c n s)"
    unfolding ContainerStop_def
    by (subst unit_call_wire [where dec = "dec_name_body ''container''" and b = "(c, n)"
          and run = "\<lambda>(c, n). drv_stop (sv_driver sv) c n", OF assms])
      (simp_all add: routes_to handleStop_def handleRestart_def handleRemove_def containerAction_def
        handleImageRemove_def case_prod_unfold body_rt)
  show "ContainerRestart (wire sv) token c n s = coarse_unit PathContainersRestart (drv_restart (sv_driver sv) c n s)"
    unfolding ContainerRestart_def
    by (subst unit_call_wire [where dec = "dec_name_body ''container''" and b = "(c, n)"
          and run = "\<lambda>(c, n). drv_restart (sv_driver sv) c n", OF assms])
      (simp_all add: routes_to handleStop_def handleRestart_def handleRemove_def containerAction_def
        handleImageRemove_def case_prod_unfold body_rt)
  show "ContainerRemove (wire sv) token c n s = coarse_unit PathContainersRemove (drv_remove (sv_driver sv) c n s)"
    unfolding ContainerRemove_def
    by (subst unit_call_wire [where dec = "dec_name_body ''container''" and b = "(c, n)"
          and run = "\<lambda>(c, n). drv_remove (sv_driver sv) c n", OF assms])
      (simp_all add: routes_to handleStop_def handleRestart_def handleRemove_def containerAction_def
        handleImageRemove_def case_prod_unfold body_rt)
  show "ImageRemove (wire sv) token c n s = coarse_unit PathImagesRemove (drv_image_remove (sv_driver sv) c n s)"
    unfolding ImageRemove_def
    by (subst unit_call_wire [where dec = "dec_name_body ''tag''" and b = "(c, n)"
          and run = "\<lambda>(c, n). drv_image_remove (sv_driver sv) c n", OF assms])
      (simp_all add: routes_to handleStop_def handleRestart_def handleRemove_def containerAction_def
        handleImageRemove_def case_prod_unfold body_rt)
qed

lemma remote_raw_calls:
  assumes "sv_token sv = [] \<or> token = sv_token sv"
  shows "ContainerInspect (wire sv) token c n s = coarse PathContainersInspect (drv_inspect (sv_driver sv) c n s)"
    and "ImageSBOM (wire sv) token c n s = (case drv_sbom (sv_driver sv) c n s of
          (Inl e, s') \<Rightarrow> (Inl (http_status_error PathImagesSBOM 500 @ '': '' @ trim_space (e @ [CHR 0x0A])), s')
        | (Inr b, s') \<Rightarrow> (Inr b, s'))"
    and "ContainerCopyOut (wire sv) token c n p s = (case coarse PathContainersCopyOut (drv_copy_out (sv_driver sv) c n p s) of
          (Inl e, s') \<Rightarrow> (Inl e, s') | (Inr (b, _), s') \<Rightarrow> (Inr (b, None), s'))"
    and "ContainerCopyIn (wire sv) token c n p b s = coarse_unit PathContainersCopyIn (drv_copy_in (sv_driver sv) c n p b s)"
proof -
  note call_simps = call_wire [OF assms] routes_to json_call_def decode_def body_rt coarse_def coarse_unit_def raw_result_def
    raw_of_def text_of_def http_error_def error_of_def write_json_def
  show "ContainerInspect (wire sv) token c n s = coarse PathContainersInspect (drv_inspect (sv_driver sv) c n s)"
    by (cases "drv_inspect (sv_driver sv) c n s"; cases "fst (drv_inspect (sv_driver sv) c n s)")
      (simp_all add: ContainerInspect_def handleInspect_def call_simps)
  show "ImageSBOM (wire sv) token c n s = (case drv_sbom (sv_driver sv) c n s of
          (Inl e, s') \<Rightarrow> (Inl (http_status_error PathImagesSBOM 500 @ '': '' @ trim_space (e @ [CHR 0x0A])), s')
        | (Inr b, s') \<Rightarrow> (Inr b, s'))"
    by (cases "drv_sbom (sv_driver sv) c n s"; cases "fst (drv_sbom (sv_driver sv) c n s)")
      (simp_all add: ImageSBOM_def handleImageSBOM_def call_simps)
  show "ContainerCopyOut (wire sv) token c n p s = (case coarse PathContainersCopyOut (drv_copy_out (sv_driver sv) c n p s) of
          (Inl e, s') \<Rightarrow> (Inl e, s') | (Inr (b, _), s') \<Rightarrow> (Inr (b, None), s'))"
    by (cases "drv_copy_out (sv_driver sv) c n p s"; cases "fst (drv_copy_out (sv_driver sv) c n p s)")
      (auto simp: ContainerCopyOut_def handleCopyOut_def call_simps split: prod.split)
  show "ContainerCopyIn (wire sv) token c n p b s = coarse_unit PathContainersCopyIn (drv_copy_in (sv_driver sv) c n p b s)"
    by (cases "drv_copy_in (sv_driver sv) c n p b s"; cases "fst (drv_copy_in (sv_driver sv) c n p b s)")
      (simp_all add: ContainerCopyIn_def handleCopyIn_def call_simps)
qed

lemma remote_exec:
  assumes "sv_token sv = [] \<or> token = sv_token sv" and "sv_flush sv" and "driver_ok fits (sv_driver sv)"
  shows "ContainerExec (wire sv) token c spec stdin s = drv_exec (sv_driver sv) c spec stdin s"
proof (cases "drv_exec (sv_driver sv) c spec stdin s")
  case (Pair r s')
  have ok: "exec_ok r" using assms(3) Pair unfolding driver_ok_def by (metis fst_conv)
  show ?thesis
    using assms(2) Pair readExecFrames_stream [OF ok]
    by (cases r) (simp add: ContainerExec_def call_wire [OF assms(1)] routes_to handleExec_def body_rt raw_of_def
        exec_stream_def)
qed

lemma event_names:
  "trim_space ''log'' = ''log''" "trim_space ''container-event'' = ''container-event''" "trim_space ''image'' = ''image''"
  "trim_space ''error'' = ''error''"
  by (simp_all add: trim_space_def trim_right_def is_space_def)

lemma fold_snoc: "fold (\<lambda>x a. a @ [x]) xs a = a @ xs"
  by (induction xs arbitrary: a) simp_all

text \<open>A stream of items and an optional error, written and scanned.\<close>

lemma scan_stream:
  assumes "stream_ok fits enc (xs, e)" and "\<And>x. dec (enc x) = Some x"
    and "name \<noteq> []" "trim_space name = name" "name \<noteq> ''error''"
  shows "sse_scan fits (item_frame name dec) [] [] (concat (map (\<lambda>x. sse_send name (enc x)) xs) @ sse_error e) [] =
    (xs, map_option streamed_error e)"
proof -
  have "sse_scan fits (item_frame name dec) [] [] (concat (map (\<lambda>x. sse_send name (enc x)) xs) @ sse_error e) [] =
      sse_scan fits (item_frame name dec) [] [] (sse_error e) (fold (\<lambda>x a. a @ [x]) xs [])"
    by (rule scan_items [OF assms(3,4)])
      (use assms(1,2) in \<open>auto simp: stream_ok_def item_frame_def unmarshal_def list_all_iff\<close>)
  also have "\<dots> = (xs, map_option streamed_error e)"
    unfolding fold_snoc append_Nil
    by (subst scan_error)
      (use assms(1,5) in \<open>auto simp: stream_ok_def item_frame_def streamed_error_def fun_eq_iff pred_option_def
        intro!: arg_cong [where f = "\<lambda>f. map_option f e"] split: option.splits\<close>)
  finally show ?thesis .
qed

lemma remote_logs:
  assumes "sv_token sv = [] \<or> token = sv_token sv" and "sv_flush sv" and "driver_ok fits (sv_driver sv)" and "int64 t"
  shows "ContainerLogs fits (wire sv) token c n t f s =
    (case drv_logs (sv_driver sv) c n t f s of ((ls, e), s') \<Rightarrow> ((ls, map_option streamed_error e), s'))"
proof (cases "drv_logs (sv_driver sv) c n t f s")
  case (Pair r s')
  obtain ls e where r: "r = (ls, e)" by (cases r)
  have ok: "stream_ok fits enc_line (ls, e)" using assms(3) Pair r unfolding driver_ok_def by (metis fst_conv)
  show ?thesis
    unfolding ContainerLogs_def
    by (subst stream_wire [where dec = dec_logs_body and b = "(c, n, t, f)" and run = "\<lambda>(c, n, t, f) s.
     case drv_logs (sv_driver sv) c n t f s of ((ls, e), s') \<Rightarrow>
       (concat (map (\<lambda>l. sse_send ''log'' (enc_line l)) ls) @ sse_error e, s')", OF assms(1,2)])
      (simp_all add: routes_to handleLogs_def logs_body_rt assms(4) Pair r
        scan_stream [OF ok dec_enc_line _ event_names(1)])
qed

lemma remote_events:
  assumes "sv_token sv = [] \<or> token = sv_token sv" and "sv_flush sv" and "driver_ok fits (sv_driver sv)"
  shows "ContainerEvents fits (wire sv) token c s =
    (case drv_events (sv_driver sv) c s of ((ls, e), s') \<Rightarrow> ((ls, map_option streamed_error e), s'))"
proof (cases "drv_events (sv_driver sv) c s")
  case (Pair r s')
  obtain ls e where r: "r = (ls, e)" by (cases r)
  have ok: "stream_ok fits enc_event (ls, e)" using assms(3) Pair r unfolding driver_ok_def by (metis fst_conv)
  show ?thesis
    unfolding ContainerEvents_def
    by (subst stream_wire [where dec = dec_events_body and b = c and run = "\<lambda>c s.
     case drv_events (sv_driver sv) c s of ((es, e), s') \<Rightarrow>
       (concat (map (\<lambda>ev. sse_send ''container-event'' (enc_event ev)) es) @ sse_error e, s')", OF assms(1,2)])
      (simp_all add: routes_to handleEvents_def body_rt Pair r scan_stream [OF ok dec_enc_event _ event_names(2)])
qed

lemma fold_build: "fold (\<lambda>x a. (fst a @ [x], snd a)) xs a = (fst a @ xs, snd a)"
  by (induction xs arbitrary: a) simp_all

lemma remote_build:
  assumes "sv_token sv = [] \<or> token = sv_token sv" and "sv_flush sv" and "driver_ok fits (sv_driver sv)"
  shows "BuildImage fits (wire sv) token b s = (case drv_build (sv_driver sv) b s of ((ls, res), s') \<Rightarrow>
        ((ls, case res of Inl e \<Rightarrow> Inl (streamed_error e) | Inr i \<Rightarrow> Inr i), s'))"
proof (cases "drv_build (sv_driver sv) b s")
  case (Pair r s')
  obtain ls res where r: "r = (ls, res)" by (cases r)
  have ok: "list_all (\<lambda>l. fits (enc_line \<lparr>ll_line = l, ll_stderr = False\<rparr>)) ls"
    "pred_sum (\<lambda>e. fits (enc_error e)) (\<lambda>i. fits (enc_image_ref i)) res"
    using assms(3) Pair r unfolding driver_ok_def by (metis fst_conv snd_conv)+
  let ?fin = "case res of Inl e \<Rightarrow> sse_send ''error'' (enc_error e) | Inr img \<Rightarrow> sse_send ''image'' (enc_image_ref img)"
  let ?items = "concat (map (\<lambda>l. sse_send ''log'' (enc_line \<lparr>ll_line = l, ll_stderr = False\<rparr>)) ls)"
  have items: "sse_scan fits build_frame [] [] (?items @ ?fin) ([], zero_image_ref) =
      sse_scan fits build_frame [] [] (?fin @ []) (ls, zero_image_ref)"
    using scan_items [of "''log''" ls fits "\<lambda>l. enc_line \<lparr>ll_line = l, ll_stderr = False\<rparr>" build_frame
        "\<lambda>x a. (fst a @ [x], snd a)" ?fin "([], zero_image_ref)"] ok(1)
    by (simp add: event_names build_frame_def unmarshal_def dec_enc_line list_all_iff fold_build)
  have "sse_scan fits build_frame [] [] (?fin @ []) (ls, zero_image_ref) =
      (case res of Inl e \<Rightarrow> ((ls, zero_image_ref), Some (streamed_error e)) | Inr i \<Rightarrow> ((ls, i), None))"
    using ok(2)
    by (cases res) (simp_all add: scan_send event_names build_frame_def unmarshal_def dec_enc_image_ref sseError_def
        dec_enc_error streamed_error_def del: append_Nil2)
  then show ?thesis
    unfolding BuildImage_def
    by (subst stream_wire [where dec = dec_build and b = b and run = "\<lambda>b s.
     case drv_build (sv_driver sv) b s of ((ls, res), s') \<Rightarrow>
       (concat (map (\<lambda>l. sse_send ''log'' (enc_line \<lparr>ll_line = l, ll_stderr = False\<rparr>)) ls) @
        (case res of Inl e \<Rightarrow> sse_send ''error'' (enc_error e) | Inr img \<Rightarrow> sse_send ''image'' (enc_image_ref img)), s')", OF assms(1,2)])
      (simp_all add: routes_to handleBuildImage_def dec_enc_build Pair r items split: sum.split)
qed

lemma length_writeExecFrame: "length (writeExecFrame st p) = 5 + length p"
  by (simp add: writeExecFrame_def)

lemma readExecFrames_short:
  assumes "length p < 2 ^ 32" and "k < length (writeExecFrame st p)"
  shows "\<exists>e. readExecFrames (take k (writeExecFrame st p)) = ([], Inl e)"
proof (cases "k < 5")
  case True
  then show ?thesis by (subst readExecFrames.simps) (simp add: min_def)
next
  case False
  let ?v = "of_nat (length p) :: u32"
  have w: "take k (writeExecFrame st p) =
      st # ucast (drop_bit 24 ?v) # ucast (drop_bit 16 ?v) # ucast (drop_bit 8 ?v) # ucast ?v # take (k - 5) p"
    using False by (simp add: writeExecFrame_def put32_def take_Cons' numeral_eq_Suc)
  have "unat ?v = length p" using assms(1) by (simp add: unat_of_nat)
  moreover have "be32 (ucast (drop_bit 24 ?v)) (ucast (drop_bit 16 ?v)) (ucast (drop_bit 8 ?v)) (ucast ?v) = ?v"
    by (rule be32_put32)
  ultimately show ?thesis
    unfolding w using assms(2) False
    by (subst readExecFrames.simps) (auto simp: Let_def length_writeExecFrame)
qed

lemma readExecFrames_truncated:
  assumes "length p < 2 ^ 32" and "list_all (\<lambda>c. length (snd c) < 2 ^ 32) cs"
    and "k < length (frames_of cs @ writeExecFrame st p)"
  shows "\<exists>cs' e. readExecFrames (take k (frames_of cs @ writeExecFrame st p)) = (cs', Inl e) \<and> prefix cs' cs"
  using assms(2,3)
proof (induction cs arbitrary: k)
  case Nil
  then show ?case using readExecFrames_short [OF assms(1)] by (fastforce simp: frames_of_def)
next
  case (Cons c cs)
  obtain err q where c: "c = (err, q)" by (cases c) auto
  define f where "f = writeExecFrame (if err then ExecStreamStderr else ExecStreamStdout) q"
  define more where "more = frames_of cs @ writeExecFrame st p"
  have all: "frames_of (c # cs) @ writeExecFrame st p = f @ more"
    by (simp add: frames_of_def c f_def more_def)
  have q: "length q < 2 ^ 32" using Cons.prems(1) c by simp
  show ?case
  proof (cases "k < length f")
    case True
    then show ?thesis
      using readExecFrames_short [OF q] unfolding all f_def by (fastforce simp: frames_of_def)
  next
    case False
    have "k - length f < length more"
      using Cons.prems(2) False unfolding all by simp
    then obtain cs' e where "readExecFrames (take (k - length f) more) = (cs', Inl e)" "prefix cs' cs"
      using Cons.IH [of "k - length f"] Cons.prems(1) by (auto simp: more_def)
    moreover have "take k (f @ more) = f @ take (k - length f) more" using False by simp
    ultimately have "readExecFrames (take k (f @ more)) = (c # cs', Inl e)"
      by (cases err) (simp_all add: f_def c readExecFrames_frame [OF q])
    then show ?thesis unfolding all using \<open>prefix cs' cs\<close> by auto
  qed
qed

text \<open>C40: the exec stream. What the server writes for a result of an exec (chunks shorter than 4 GiB,
  a 32-bit exit code or an error message) is read back by the client exactly: the chunks with
  their streams in order, and the exit code or the error. A stream cut off anywhere before its last
  byte is an error, with a prefix of the chunks delivered, never an exit code.\<close>

theorem exec_stream_roundtrip:
  assumes "exec_ok r"
  shows "readExecFrames (exec_stream r) = r \<and>
    (k < length (exec_stream r) \<longrightarrow>
      (\<exists>cs e. readExecFrames (take k (exec_stream r)) = (cs, Inl e) \<and> prefix cs (fst r)))"
proof -
  obtain cs res where r: "r = (cs, res)" by (cases r)
  obtain st p where p: "exec_stream r = frames_of cs @ writeExecFrame st p" "length p < 2 ^ 32"
    using assms r by (cases res) (auto simp: exec_stream_def exec_ok_def)
  have "\<exists>cs' e. readExecFrames (take k (exec_stream r)) = (cs', Inl e) \<and> prefix cs' cs" if "k < length (exec_stream r)"
    using readExecFrames_truncated [OF p(2), of cs k st] assms r that p(1) by (simp add: exec_ok_def)
  then show ?thesis using readExecFrames_stream [OF assms] r by simp
qed

lemma exec_stream_roundtrip_witness:
  "readExecFrames (exec_stream ([(False, [104, 105]), (True, [33])], Inr (- 1))) = ([(False, [104, 105]), (True, [33])], Inr (- 1))"
  using exec_stream_roundtrip [of "([(False, [104, 105]), (True, [33])], Inr (- 1))" 0]
  by (simp add: exec_ok_def)


text \<open>A driver over a backend that counts the calls.\<close>

definition sample_driver :: "nat driver" where
  "sample_driver =
     \<lparr>drv_build = (\<lambda>b s. (([''step 1''], Inl ''no space''), s + 1)), drv_list = (\<lambda>c f s. (Inr [], s + 1)),
      drv_stats = (\<lambda>c f s. (Inl ''down'', s + 1)), drv_logs = (\<lambda>c n t f s. (([\<lparr>ll_line = n, ll_stderr = f\<rparr>], None), s + 1)),
      drv_events = (\<lambda>c s. (([], Some []), s)), drv_stop = (\<lambda>c n s. (None, s + 1)),
      drv_restart = (\<lambda>c n s. (Some ''gone'', s + 1)), drv_remove = (\<lambda>c n s. (None, s + 1)),
      drv_images = (\<lambda>c s. (Inr [], s)), drv_image_remove = (\<lambda>c t s. (None, s + 1)),
      drv_sbom = (\<lambda>c t s. (Inr [123, 125], s)), drv_inspect = (\<lambda>c n s. (Inr [91, 93], s)),
      drv_exec = (\<lambda>c sp i s. (([(False, [120])], Inr 3), s + 1)),
      drv_copy_out = (\<lambda>c n p s. (Inr ([116], Some ''broken pipe''), s)), drv_copy_in = (\<lambda>c n p b s. (None, s + 1))\<rparr>"

definition sample_server :: "nat server_cfg" where
  "sample_server = \<lparr>sv_token = ''s3cret'', sv_driver = sample_driver, sv_flush = True, sv_ensure = None, sv_git = None\<rparr>"


end
