(* ===== verification/Http_Request.thy ===== *)
theory Http_Request
  imports Prelude
begin

text \<open>
  The parts of an HTTP request that the gate of \<open>internal/daemon\<close> reads: headers, cookies, the
  forwarded identity (\<open>auth.go\<close>), the endpoint host of a request and the pairing of outer and inner
  host names (\<open>inner_host.go\<close>). Parsing of the request text is the platform's: a request is the
  record of what \<open>net/http\<close> hands to a handler.
\<close>

section \<open>Requests\<close>

text \<open>A missing header, form value or query parameter is the empty string, as for \<open>Header.Get\<close>,
  \<open>FormValue\<close> and \<open>Query().Get\<close>; \<open>hr_json\<close> holds the fields of a JSON body; \<open>hr_form_ok\<close> and
  \<open>hr_json_ok\<close> tell whether \<open>ParseForm\<close> and the JSON decoder succeed.\<close>

record http_req =
  hr_method :: string
  hr_path :: string
  hr_rawquery :: string
  hr_hostport :: string
  hr_remote :: string
  hr_tls :: bool
  hr_header :: "string \<Rightarrow> string"
  hr_cookies :: "(string \<times> string) list"
  hr_query :: "string \<Rightarrow> string"
  hr_form_ok :: bool
  hr_form :: "string \<Rightarrow> string"
  hr_json_ok :: bool
  hr_json :: "string \<Rightarrow> string"

text \<open>\<open>r.Cookie(name)\<close>; every use treats a missing cookie like one with an empty value.\<close>

definition cookie :: "http_req \<Rightarrow> string \<Rightarrow> string" where
  "cookie r name = (case map_of (hr_cookies r) name of Some v \<Rightarrow> v | None \<Rightarrow> [])"

definition user_agent :: "http_req \<Rightarrow> string" where
  "user_agent r = hr_header r ''User-Agent''"

section \<open>The forwarded identity\<close>

definition forwardedIdentityHeaders :: "string list" where
  "forwardedIdentityHeaders =
     [''X-Forwarded-Email'', ''X-Forwarded-User'', ''X-Forwarded-Groups'', ''X-Forwarded-Preferred-Username'',
      ''X-Auth-Request-Email'', ''X-Auth-Request-User'', ''X-Auth-Request-Groups'',
      ''X-Auth-Request-Preferred-Username'']"

definition forwardedTokenHeaders :: "string list" where
  "forwardedTokenHeaders = [''X-Forwarded-Access-Token'', ''X-Auth-Request-Access-Token'']"

definition del_header :: "string \<Rightarrow> http_req \<Rightarrow> http_req" where
  "del_header h r = r\<lparr>hr_header := (hr_header r)(h := [])\<rparr>"

definition stripForwardedIdentityHeaders :: "http_req \<Rightarrow> http_req" where
  "stripForwardedIdentityHeaders r =
     fold del_header forwardedTokenHeaders (fold del_header forwardedIdentityHeaders r)"

definition identityFromHeaders :: "http_req \<Rightarrow> string \<times> string list" where
  "identityFromHeaders r =
     (let email = (if hr_header r ''X-Forwarded-Email'' = [] then hr_header r ''X-Auth-Request-Email''
                   else hr_header r ''X-Forwarded-Email'');
          gs = (if hr_header r ''X-Forwarded-Groups'' = [] then hr_header r ''X-Auth-Request-Groups''
                else hr_header r ''X-Forwarded-Groups'')
      in (email, filter (\<lambda>g. g \<noteq> []) (map trim_space (split_on CHR '','' gs))))"

definition adminGroupSuffix :: string where "adminGroupSuffix = ''/admin''"

definition isAdminGroups :: "string list \<Rightarrow> bool" where
  "isAdminGroups groups \<longleftrightarrow>
     list_ex (\<lambda>g. g = ''admin'' \<or> suffix adminGroupSuffix (to_lower g)) groups"

definition baileyAuthCookieNames :: "string list" where
  "baileyAuthCookieNames = [''_bailey_device'', ''_bailey_origin'', ''_bailey_agent'']"

definition stripBaileyAuthCookies :: "http_req \<Rightarrow> http_req" where
  "stripBaileyAuthCookies r =
     (if list_ex (\<lambda>(n, v). n \<in> set baileyAuthCookieNames) (hr_cookies r)
      then r\<lparr>hr_cookies := filter (\<lambda>(n, v). n \<notin> set baileyAuthCookieNames) (hr_cookies r)\<rparr>
      else r)"

section \<open>Host names\<close>

text \<open>\<open>strings.Cut\<close> at a one-byte separator.\<close>

definition cut_at :: "char \<Rightarrow> string \<Rightarrow> string \<times> string \<times> bool" where
  "cut_at c s = (case index_byte c s of None \<Rightarrow> (s, [], False) | Some i \<Rightarrow> (take i s, drop (Suc i) s, True))"

definition requestEndpointHost :: "http_req \<Rightarrow> string" where
  "requestEndpointHost r =
     (let h = (if hr_header r ''X-Forwarded-Host'' = [] then hr_hostport r else hr_header r ''X-Forwarded-Host'')
      in to_lower (fst (cut_at CHR '':'' h)))"

definition innerHostSuffix :: string where "innerHostSuffix = ''--inner''"

definition isInnerHost :: "string \<Rightarrow> bool" where
  "isInnerHost host =
     (if host = [] then False
      else case cut_at CHR ''.'' host of (label, rest, ok) \<Rightarrow> ok \<and> suffix innerHostSuffix label)"

definition toInnerHost :: "string \<Rightarrow> string" where
  "toInnerHost outer =
     (if outer = [] \<or> isInnerHost outer then outer
      else case cut_at CHR ''.'' outer of (label, rest, ok) \<Rightarrow>
        if \<not> ok then outer @ innerHostSuffix else label @ innerHostSuffix @ ''.'' @ rest)"

definition toOuterHost :: "string \<Rightarrow> string" where
  "toOuterHost inner =
     (if inner = [] then inner
      else case cut_at CHR ''.'' inner of (label, rest, ok) \<Rightarrow>
        if \<not> ok then trim_suffix innerHostSuffix label
        else if \<not> suffix innerHostSuffix label then inner
        else trim_suffix innerHostSuffix label @ ''.'' @ rest)"

definition serverConsoleHost :: "string \<Rightarrow> string" where
  "serverConsoleHost domain = ''bailey.'' @ trim_prefix ''.'' domain"

definition serverConsoleOnboardHost :: "string \<Rightarrow> string" where
  "serverConsoleOnboardHost domain = ''bailey-onboard.'' @ trim_prefix ''.'' domain"

text \<open>\<open>d\<close> is the configured protected domain (\<open>protectedHostnameDomain\<close>), empty when there is
  none.\<close>

definition isServerConsoleOnboardHost :: "string \<Rightarrow> string \<Rightarrow> bool" where
  "isServerConsoleOnboardHost d host \<longleftrightarrow> d \<noteq> [] \<and> eq_fold host (serverConsoleOnboardHost d)"

definition onOnboardHost :: "string \<Rightarrow> http_req \<Rightarrow> bool" where
  "onOnboardHost d r = isServerConsoleOnboardHost d (toOuterHost (requestEndpointHost r))"

section \<open>Facts\<close>

lemma cut_at_found: "c \<notin> set a \<Longrightarrow> cut_at c (a @ c # b) = (a, b, True)"
proof -
  assume "c \<notin> set a"
  then have "index_byte c (a @ c # b) = Some (length a)" by (induction a) auto
  then show ?thesis by (simp add: cut_at_def)
qed

lemma cut_at_none: "c \<notin> set a \<Longrightarrow> cut_at c a = (a, [], False)"
proof -
  assume "c \<notin> set a"
  then have "index_byte c a = None" by (induction a) auto
  then show ?thesis by (simp add: cut_at_def)
qed

lemma cut_at_cases:
  obtains (found) a b where "s = a @ c # b" "c \<notin> set a" "cut_at c s = (a, b, True)"
  | (none) "c \<notin> set s" "cut_at c s = (s, [], False)"
proof (cases "c \<in> set s")
  case True
  then obtain a b where "s = a @ c # b" "c \<notin> set a" by (auto dest: split_list_first)
  then show ?thesis using found cut_at_found by metis
qed (use none cut_at_none in metis)

lemma stripped_request_has_no_identity:
  "identityFromHeaders (stripForwardedIdentityHeaders r) = ([], [])"
  by (simp add: identityFromHeaders_def stripForwardedIdentityHeaders_def forwardedIdentityHeaders_def
      forwardedTokenHeaders_def del_header_def trim_space_def trim_right_def)

lemma stripped_cookies:
  "n \<in> set baileyAuthCookieNames \<Longrightarrow> cookie (stripBaileyAuthCookies r) n = []"
  "n \<notin> set baileyAuthCookieNames \<Longrightarrow> cookie (stripBaileyAuthCookies r) n = cookie r n"
proof -
  have f: "map_of (filter (\<lambda>(n, v). n \<notin> B) cs) n = (if n \<in> B then None else map_of cs n)" for B cs
    by (induction cs) auto
  have g: "\<not> list_ex (\<lambda>(n, v). n \<in> B) cs \<Longrightarrow> n \<in> B \<Longrightarrow> map_of cs n = None" for B cs
    by (induction cs) auto
  show "n \<in> set baileyAuthCookieNames \<Longrightarrow> cookie (stripBaileyAuthCookies r) n = []"
    "n \<notin> set baileyAuthCookieNames \<Longrightarrow> cookie (stripBaileyAuthCookies r) n = cookie r n"
    by (auto simp: stripBaileyAuthCookies_def cookie_def f g)
qed

lemma isInnerHost_iff: "isInnerHost h \<longleftrightarrow> (\<exists>a b. h = a @ innerHostSuffix @ CHR ''.'' # b \<and> CHR ''.'' \<notin> set a)"
proof (cases rule: cut_at_cases [of h "CHR ''.''"])
  case (found a b)
  have "suffix innerHostSuffix a \<longleftrightarrow> (\<exists>a' b'. h = a' @ innerHostSuffix @ CHR ''.'' # b' \<and> CHR ''.'' \<notin> set a')"
  proof
    assume "suffix innerHostSuffix a"
    then obtain z where "a = z @ innerHostSuffix" by (auto simp: suffix_def)
    then have "h = z @ innerHostSuffix @ CHR ''.'' # b \<and> CHR ''.'' \<notin> set z" using found by simp
    then show "\<exists>a' b'. h = a' @ innerHostSuffix @ CHR ''.'' # b' \<and> CHR ''.'' \<notin> set a'" by blast
  next
    assume "\<exists>a' b'. h = a' @ innerHostSuffix @ CHR ''.'' # b' \<and> CHR ''.'' \<notin> set a'"
    then obtain a' b' where h: "h = (a' @ innerHostSuffix) @ CHR ''.'' # b'" and n: "CHR ''.'' \<notin> set a'" by auto
    have "CHR ''.'' \<notin> set (a' @ innerHostSuffix)" using n by (simp add: innerHostSuffix_def)
    then have "a = a' @ innerHostSuffix" using found h cut_at_found [of "CHR ''.''" "a' @ innerHostSuffix" b'] by simp
    then show "suffix innerHostSuffix a" by (simp add: suffix_def)
  qed
  then show ?thesis using found by (auto simp: isInnerHost_def)
next
  case none
  then show ?thesis by (auto simp: isInnerHost_def)
qed

lemma toOuterHost_toInnerHost: "\<not> isInnerHost h \<Longrightarrow> CHR ''.'' \<in> set h \<Longrightarrow> toOuterHost (toInnerHost h) = h"
proof (cases rule: cut_at_cases [of h "CHR ''.''"])
  case (found a b)
  assume n: "\<not> isInnerHost h"
  have i: "toInnerHost h = (a @ innerHostSuffix) @ CHR ''.'' # b"
    using found n by (simp add: toInnerHost_def)
  have "CHR ''.'' \<notin> set (a @ innerHostSuffix)" using found by (simp add: innerHostSuffix_def)
  from cut_at_found [OF this, of b] show ?thesis
    unfolding toOuterHost_def i by (simp add: found(1) suffix_def)
qed simp

lemma toOuterHost_not_inner: "toOuterHost h = h \<or> isInnerHost h \<or> CHR ''.'' \<notin> set h"
proof (cases rule: cut_at_cases [of h "CHR ''.''"])
  case (found a b)
  then show ?thesis by (auto simp: toOuterHost_def isInnerHost_def)
qed simp

end
