(* ===== verification/Device_Cookie.thy ===== *)
theory Device_Cookie
  imports Http_Request Mfa_Throttle
begin

text \<open>
  The signed tokens of device trust: the device cookie (\<open>mfa_devices.go\<close>), the second-factor session
  cookie (\<open>mfa_totp.go\<close>) and the grant that carries trust from the onboarding host to another host
  (\<open>mfa_device_grant.go\<close>) with the store of outstanding grants. The three kinds of token share one
  key and the separator \<open>'.'\<close>. \<open>mac key body\<close> is the hex text of HMAC-SHA256; a clock
  reading is an argument.
\<close>

section \<open>base64.RawURLEncoding\<close>

definition b64_alphabet :: string where
  "b64_alphabet = ''ABCDEFGHIJKLMNOPQRSTUVWXYZabcdefghijklmnopqrstuvwxyz0123456789-_''"

fun sextets :: "string \<Rightarrow> nat list" where
  "sextets [] = []"
| "sextets [a] = [of_char a div 4, (of_char a mod 4) * 16]"
| "sextets [a, b] = [of_char a div 4, (of_char a mod 4) * 16 + of_char b div 16, (of_char b mod 16) * 4]"
| "sextets (a # b # c # s) =
     [of_char a div 4, (of_char a mod 4) * 16 + of_char b div 16, (of_char b mod 16) * 4 + of_char c div 64,
      of_char c mod 64] @ sextets s"

definition b64_encode :: "string \<Rightarrow> string" where
  "b64_encode s = map (\<lambda>i. b64_alphabet ! i) (sextets s)"

text \<open>The decoder skips line breaks and does not look at the unused bits of the last group.\<close>

fun of_sextets :: "nat list \<Rightarrow> string option" where
  "of_sextets [] = Some []"
| "of_sextets [p] = None"
| "of_sextets [p, q] = Some [char_of (p * 4 + q div 16)]"
| "of_sextets [p, q, r] = Some [char_of (p * 4 + q div 16), char_of ((q mod 16) * 16 + r div 4)]"
| "of_sextets (p # q # r # t # s) =
     (case of_sextets s of None \<Rightarrow> None
      | Some cs \<Rightarrow> Some ([char_of (p * 4 + q div 16), char_of ((q mod 16) * 16 + r div 4), char_of ((r mod 4) * 64 + t)] @ cs))"

fun b64_values :: "string \<Rightarrow> nat list option" where
  "b64_values [] = Some []"
| "b64_values (c # s) =
     (case index_byte c b64_alphabet of None \<Rightarrow> None
      | Some i \<Rightarrow> (case b64_values s of None \<Rightarrow> None | Some is \<Rightarrow> Some (i # is)))"

definition b64_decode :: "string \<Rightarrow> string option" where
  "b64_decode s =
     (case b64_values (filter (\<lambda>c. c \<noteq> CHR 0x0A \<and> c \<noteq> CHR 0x0D) s) of None \<Rightarrow> None | Some is \<Rightarrow> of_sextets is)"

section \<open>Times\<close>

text \<open>A time is its number of nanoseconds since Go's zero time; \<open>unix\<close> is \<open>t.Unix()\<close>.\<close>

definition unix :: "int \<Rightarrow> int" where "unix t = t div sec - 62135596800"

text \<open>\<open>time.Since(time.Unix(s, 0))\<close>.\<close>

definition since_unix :: "int \<Rightarrow> int \<Rightarrow> int" where "since_unix now s = now - (s + 62135596800) * sec"

section \<open>The device cookie\<close>

definition deviceCookieName :: string where "deviceCookieName = ''_bailey_device''"

definition dot_join :: "string list \<Rightarrow> string" where "dot_join = join_with CHR ''.''"

definition signedDeviceCookie :: "(string \<Rightarrow> string \<Rightarrow> string) \<Rightarrow> string \<Rightarrow> string \<Rightarrow> string \<Rightarrow> int \<Rightarrow> string" where
  "signedDeviceCookie mac key email deviceID issuedAt =
     (let emailEnc = b64_encode email; tsStr = format_int (unix issuedAt);
          sig = mac key (emailEnc @ ''.'' @ deviceID @ ''.'' @ tsStr)
      in dot_join [emailEnc, deviceID, tsStr, sig])"

definition verifyDeviceCookie :: "(string \<Rightarrow> string \<Rightarrow> string) \<Rightarrow> string \<Rightarrow> string \<Rightarrow> string \<Rightarrow> string option" where
  "verifyDeviceCookie mac key email cookieVal =
     (case split_on CHR ''.'' cookieVal of
        [emailEnc, deviceID, tsStr, sig] \<Rightarrow>
          (case b64_decode emailEnc of
             None \<Rightarrow> None
           | Some decoded \<Rightarrow>
               if \<not> eq_fold decoded email then None
               else if atoi tsStr = None then None
               else if mac key (emailEnc @ ''.'' @ deviceID @ ''.'' @ tsStr) \<noteq> sig then None
               else Some deviceID)
      | _ \<Rightarrow> None)"

definition deviceIDFromRequest :: "(string \<Rightarrow> string \<Rightarrow> string) \<Rightarrow> string \<Rightarrow> http_req \<Rightarrow> string \<Rightarrow> string option" where
  "deviceIDFromRequest mac key r email =
     (if cookie r deviceCookieName = [] then None
      else verifyDeviceCookie mac key email (cookie r deviceCookieName))"

definition deviceCookieOlderThan :: "int \<Rightarrow> http_req \<Rightarrow> int \<Rightarrow> bool" where
  "deviceCookieOlderThan now r d =
     (if cookie r deviceCookieName = [] then False
      else case split_on CHR ''.'' (cookie r deviceCookieName) of
        [_, _, tsStr, _] \<Rightarrow> (case atoi tsStr of None \<Rightarrow> False | Some ts \<Rightarrow> d < since_unix now ts)
      | _ \<Rightarrow> False)"

section \<open>The session cookie\<close>

definition twoFactorCookieName :: string where "twoFactorCookieName = ''_bailey_2fa''"
definition cookieMaxAge :: int where "cookieMaxAge = 8 * 60 * 60 * sec"

definition signedSessionCookie :: "(string \<Rightarrow> string \<Rightarrow> string) \<Rightarrow> string \<Rightarrow> string \<Rightarrow> int \<Rightarrow> string" where
  "signedSessionCookie mac key email expiry =
     (let emailEnc = b64_encode email; expStr = format_int (unix expiry);
          sig = mac key (emailEnc @ ''.'' @ expStr)
      in emailEnc @ ''.'' @ expStr @ ''.'' @ sig)"

definition verifySessionCookie :: "(string \<Rightarrow> string \<Rightarrow> string) \<Rightarrow> string \<Rightarrow> int \<Rightarrow> string \<Rightarrow> string \<Rightarrow> bool" where
  "verifySessionCookie mac key now email cookieVal =
     (case split_on CHR ''.'' cookieVal of
        [emailEnc, expStr, sig] \<Rightarrow>
          (case b64_decode emailEnc of
             None \<Rightarrow> False
           | Some decoded \<Rightarrow>
               eq_fold decoded email \<and>
               (case atoi expStr of None \<Rightarrow> False | Some ex \<Rightarrow> unix now < ex) \<and>
               mac key (emailEnc @ ''.'' @ expStr) = sig)
      | _ \<Rightarrow> False)"

definition hasValidSession :: "(string \<Rightarrow> string \<Rightarrow> string) \<Rightarrow> string \<Rightarrow> int \<Rightarrow> http_req \<Rightarrow> string \<Rightarrow> bool" where
  "hasValidSession mac key now r email \<longleftrightarrow>
     cookie r twoFactorCookieName \<noteq> [] \<and> verifySessionCookie mac key now email (cookie r twoFactorCookieName)"

section \<open>Grants\<close>

definition grantTTL :: int where "grantTTL = 2 * 60 * sec"

record device_grant =
  dg_email :: string
  dg_host :: string
  dg_device :: string
  dg_nonce :: string

type_synonym grant_store = "(string \<times> int) list"

definition evictExpiredLocked :: "int \<Rightarrow> grant_store \<Rightarrow> grant_store" where
  "evictExpiredLocked now g = filter (\<lambda>(n, ex). \<not> ex < now) g"

definition register :: "int \<Rightarrow> string \<Rightarrow> int \<Rightarrow> grant_store \<Rightarrow> grant_store" where
  "register now nonce ex g = AList.update nonce ex (evictExpiredLocked now g)"

definition consume :: "int \<Rightarrow> string \<Rightarrow> grant_store \<Rightarrow> bool \<times> grant_store" where
  "consume now nonce g =
     (case map_of g nonce of None \<Rightarrow> (False, g) | Some ex \<Rightarrow> (now < ex, AList.delete nonce g))"

definition grantBody :: "string \<Rightarrow> string \<Rightarrow> string \<Rightarrow> int \<Rightarrow> string \<Rightarrow> string" where
  "grantBody email host deviceID issuedAt nonce =
     dot_join [b64_encode email, b64_encode host, deviceID, format_int issuedAt, nonce]"

text \<open>\<open>nonce\<close> is the hex text of 16 random bytes.\<close>

definition mintGrant ::
    "(string \<Rightarrow> string \<Rightarrow> string) \<Rightarrow> string \<Rightarrow> int \<Rightarrow> string \<Rightarrow> string \<Rightarrow> string \<Rightarrow> string \<Rightarrow> grant_store \<Rightarrow> string \<times> grant_store" where
  "mintGrant mac key now nonce email host deviceID g =
     (let body = grantBody email host deviceID (unix now) nonce; sig = mac key body
      in (body @ ''.'' @ sig, register now nonce (now + grantTTL) g))"

definition verifyGrant :: "(string \<Rightarrow> string \<Rightarrow> string) \<Rightarrow> string \<Rightarrow> int \<Rightarrow> string \<Rightarrow> device_grant option" where
  "verifyGrant mac key now token =
     (let parts = split_on CHR ''.'' token in
      if length parts \<noteq> 6 then None
      else if mac key (dot_join (take 5 parts)) \<noteq> parts ! 5 then None
      else case (b64_decode (parts ! 0), b64_decode (parts ! 1), atoi (parts ! 3)) of
          (Some emailB, Some hostB, Some issuedAt) \<Rightarrow>
            if grantTTL < since_unix now issuedAt then None
            else Some \<lparr>dg_email = emailB, dg_host = hostB, dg_device = parts ! 2, dg_nonce = parts ! 4\<rparr>
        | _ \<Rightarrow> None)"

section \<open>Decoding inverts encoding\<close>

lemma char_quotients [simp]:
  "(of_char c :: nat) div 4 < 64" "(of_char c :: nat) div 16 < 16" "(of_char c :: nat) div 64 < 4"
  by (simp_all add: less_mult_imp_div_less)

lemma sextet_less: "i \<in> set (sextets s) \<Longrightarrow> i < 64"
proof (induction s rule: sextets.induct)
  case (3 a b)
  then show ?case using char_quotients(2) [of b] by (auto simp del: char_quotients(2))
next
  case (4 a b c s)
  then show ?case using char_quotients(2) [of b] char_quotients(3) [of c]
    by (auto simp del: char_quotients(2,3))
qed auto

lemma char_of_split:
  "char_of ((of_char a div 4) * 4 + ((of_char a mod 4) * 16 + of_char b div 16) div (16 :: nat)) = a"
  "char_of ((of_char a div 4) * 4 + ((of_char a mod 4) * 16 :: nat) div 16) = a"
  "char_of (((x * 16 + of_char b div 16) mod 16) * 16 + ((of_char b mod 16) * 4 + of_char c div 64) div (4 :: nat)) = b"
  "char_of (((x * 16 + of_char b div 16) mod 16) * 16 + ((of_char b mod 16) * 4 :: nat) div 4) = b"
  "char_of (((y * 4 + of_char c div 64) mod 4) * 64 + of_char c mod (64 :: nat)) = c"
proof -
  have q: "(of_char b :: nat) div 16 < 16" "(of_char c :: nat) div 64 < 4"
    by simp_all
  have e: "(of_char a div 4) * 4 + ((of_char a mod 4) * 16 + of_char b div 16) div 16 = (of_char a :: nat)"
    "(of_char a div 4) * 4 + ((of_char a mod 4) * 16) div 16 = (of_char a :: nat)"
    "((x * 16 + of_char b div 16) mod 16) * 16 + ((of_char b mod 16) * 4 + of_char c div 64) div 4 = (of_char b :: nat)"
    "((x * 16 + of_char b div 16) mod 16) * 16 + ((of_char b mod 16) * 4) div 4 = (of_char b :: nat)"
    "((y * 4 + of_char c div 64) mod 4) * 64 + of_char c mod 64 = (of_char c :: nat)"
    using q by auto
  show "char_of ((of_char a div 4) * 4 + ((of_char a mod 4) * 16 + of_char b div 16) div (16 :: nat)) = a"
    by (simp only: e char_of_char)
  show "char_of ((of_char a div 4) * 4 + ((of_char a mod 4) * 16 :: nat) div 16) = a"
    by (simp only: e char_of_char)
  show "char_of (((x * 16 + of_char b div 16) mod 16) * 16 + ((of_char b mod 16) * 4 + of_char c div 64) div (4 :: nat)) = b"
    by (simp only: e char_of_char)
  show "char_of (((x * 16 + of_char b div 16) mod 16) * 16 + ((of_char b mod 16) * 4 :: nat) div 4) = b"
    by (simp only: e char_of_char)
  show "char_of (((y * 4 + of_char c div 64) mod 4) * 64 + of_char c mod (64 :: nat)) = c"
    by (simp only: e char_of_char)
qed

lemma of_sextets_sextets: "of_sextets (sextets s) = Some s"
  by (induction s rule: sextets.induct) (simp_all only: sextets.simps append_Cons append_Nil of_sextets.simps
      char_of_split option.case list.simps)

lemma index_byte_nth: "distinct xs \<Longrightarrow> i < length xs \<Longrightarrow> index_byte (xs ! i) xs = Some i"
  by (induction xs arbitrary: i) (auto simp: nth_Cons split: nat.splits)

lemma b64_alphabet_facts:
  "distinct b64_alphabet" "length b64_alphabet = 64" "CHR ''.'' \<notin> set b64_alphabet"
  "CHR 0x0A \<notin> set b64_alphabet" "CHR 0x0D \<notin> set b64_alphabet"
  by code_simp+

lemma b64_values_map: "(\<And>i. i \<in> set is \<Longrightarrow> i < 64) \<Longrightarrow> b64_values (map (\<lambda>i. b64_alphabet ! i) is) = Some is"
  by (induction "is") (auto simp: index_byte_nth b64_alphabet_facts)

lemma b64_encode_chars: "set (b64_encode s) \<subseteq> set b64_alphabet"
  using sextet_less [of _ s] by (auto simp: b64_encode_def b64_alphabet_facts)

lemma b64_encode_no_dot [simp]: "CHR ''.'' \<notin> set (b64_encode s)"
  using b64_encode_chars [of s] b64_alphabet_facts by auto

lemma b64_decode_encode [simp]: "b64_decode (b64_encode s) = Some s"
proof -
  have "filter (\<lambda>c. c \<noteq> CHR 0x0A \<and> c \<noteq> CHR 0x0D) (b64_encode s) = b64_encode s"
    using b64_encode_chars [of s] b64_alphabet_facts(4,5) by (intro filter_True) auto
  then show ?thesis
    using b64_values_map [of "sextets s", OF sextet_less] by (simp add: b64_decode_def b64_encode_def of_sextets_sextets)
qed

section \<open>What the verifiers accept\<close>

text \<open>\<open>signed_by mac key n t body\<close>: the token \<open>t\<close> is \<open>body\<close> followed by the signature of \<open>body\<close>, and
  \<open>body\<close> has \<open>n\<close> fields.\<close>

definition signed_by :: "(string \<Rightarrow> string \<Rightarrow> string) \<Rightarrow> string \<Rightarrow> nat \<Rightarrow> string \<Rightarrow> string \<Rightarrow> bool" where
  "signed_by mac key n t body \<longleftrightarrow>
     t = body @ ''.'' @ mac key body \<and> length (split_on CHR ''.'' body) = n"

lemma split_on_eq_join: "split_on c t = ps \<Longrightarrow> t = join_with c ps \<and> (\<forall>p\<in>set ps. c \<notin> set p)"
  using join_split [of c t] split_on_parts_no_sep by auto

lemma verifyDeviceCookie_iff:
  "verifyDeviceCookie mac key email v = Some d \<longleftrightarrow>
     (\<exists>e ts e'. signed_by mac key 3 v (e @ ''.'' @ d @ ''.'' @ ts) \<and> CHR ''.'' \<notin> set (e @ d @ ts @ mac key (e @ ''.'' @ d @ ''.'' @ ts)) \<and>
        b64_decode e = Some e' \<and> eq_fold e' email \<and> atoi ts \<noteq> None)" (is "_ \<longleftrightarrow> ?R")
proof
  assume a: "verifyDeviceCookie mac key email v = Some d"
  then obtain e ts sig where s: "split_on CHR ''.'' v = [e, d, ts, sig]"
    by (auto simp: verifyDeviceCookie_def split: list.splits option.splits if_splits)
  note j = split_on_eq_join [OF s]
  have m: "mac key (e @ ''.'' @ d @ ''.'' @ ts) = sig" "atoi ts \<noteq> None" "\<exists>e'. b64_decode e = Some e' \<and> eq_fold e' email"
    using a by (auto simp: verifyDeviceCookie_def s split: option.splits if_splits)
  have "v = (e @ ''.'' @ d @ ''.'' @ ts) @ ''.'' @ mac key (e @ ''.'' @ d @ ''.'' @ ts)"
    using j m(1) by simp
  then have "signed_by mac key 3 v (e @ ''.'' @ d @ ''.'' @ ts)"
    using j by (simp add: signed_by_def split_on_first split_on_no_sep)
  then show ?R using j m by fastforce
next
  assume ?R
  then obtain e ts e' where s: "signed_by mac key 3 v (e @ ''.'' @ d @ ''.'' @ ts)"
    and n: "CHR ''.'' \<notin> set (e @ d @ ts @ mac key (e @ ''.'' @ d @ ''.'' @ ts))"
    and o: "b64_decode e = Some e'" "eq_fold e' email" "atoi ts \<noteq> None" by auto
  have "split_on CHR ''.'' v = [e, d, ts, mac key (e @ ''.'' @ d @ ''.'' @ ts)]"
    using s n by (simp add: signed_by_def split_on_first split_on_no_sep)
  then show "verifyDeviceCookie mac key email v = Some d" using o by (simp add: verifyDeviceCookie_def)
qed

lemma verifySessionCookie_signed:
  "verifySessionCookie mac key now email v \<Longrightarrow> \<exists>body. signed_by mac key 2 v body"
proof -
  assume a: "verifySessionCookie mac key now email v"
  then obtain e ts sig where s: "split_on CHR ''.'' v = [e, ts, sig]"
    by (auto simp: verifySessionCookie_def split: list.splits)
  note j = split_on_eq_join [OF s]
  have "mac key (e @ ''.'' @ ts) = sig" using a by (auto simp: verifySessionCookie_def s split: option.splits)
  then have "signed_by mac key 2 v (e @ ''.'' @ ts)"
    using j by (auto simp: signed_by_def split_on_first split_on_no_sep)
  then show ?thesis ..
qed

lemma verifyGrant_signed:
  "verifyGrant mac key now v = Some g \<Longrightarrow> \<exists>body. signed_by mac key 5 v body"
proof -
  assume a: "verifyGrant mac key now v = Some g"
  have "length (split_on CHR ''.'' v) = 6" using a by (auto simp: verifyGrant_def Let_def split: if_splits)
  then obtain p0 p1 p2 p3 p4 p5 where s: "split_on CHR ''.'' v = [p0, p1, p2, p3, p4, p5]"
    by (auto simp: numeral_eq_Suc length_Suc_conv)
  note j = split_on_eq_join [OF s]
  define body where "body = dot_join [p0, p1, p2, p3, p4]"
  have m: "mac key body = p5"
    using a by (auto simp: verifyGrant_def s body_def Let_def numeral_eq_Suc split: if_splits)
  have l: "split_on CHR ''.'' body = [p0, p1, p2, p3, p4]"
    unfolding body_def dot_join_def using j by (intro split_join) auto
  have "signed_by mac key 5 v body" using j m by (simp add: signed_by_def l) (simp add: body_def dot_join_def)
  then show ?thesis ..
qed

lemma signedDeviceCookie_accepted:
  assumes "CHR ''.'' \<notin> set deviceID" "\<And>b. CHR ''.'' \<notin> set (mac key b)"
    and "- (2 ^ 63) \<le> unix t" "unix t < 2 ^ 63"
  shows "verifyDeviceCookie mac key email (signedDeviceCookie mac key email deviceID t) = Some deviceID"
proof -
  define ts where "ts = format_int (unix t)"
  have n: "CHR ''.'' \<notin> set ts" by (simp add: ts_def format_int_no_char)
  have v: "signedDeviceCookie mac key email deviceID t =
      (b64_encode email @ ''.'' @ deviceID @ ''.'' @ ts) @ ''.'' @ mac key (b64_encode email @ ''.'' @ deviceID @ ''.'' @ ts)"
    by (simp add: signedDeviceCookie_def ts_def dot_join_def Let_def)
  have "signed_by mac key 3 (signedDeviceCookie mac key email deviceID t) (b64_encode email @ ''.'' @ deviceID @ ''.'' @ ts)"
    unfolding signed_by_def v using n assms(1) by (simp add: split_on_first split_on_no_sep)
  then show ?thesis
    using n assms(1,2) atoi_format_int [OF assms(3,4)]
    unfolding verifyDeviceCookie_iff ts_def
    by (intro exI [of _ "b64_encode email"] exI [of _ "format_int (unix t)"] exI [of _ email]) auto
qed

lemma verifyGrant_minted:
  assumes n: "CHR ''.'' \<notin> set deviceID" "CHR ''.'' \<notin> set nonce" "\<And>b. CHR ''.'' \<notin> set (mac key b)"
    and t: "- (2 ^ 63) \<le> unix t" "unix t < 2 ^ 63"
  shows "verifyGrant mac key now (fst (mintGrant mac key t nonce email host deviceID g)) =
    (if grantTTL < since_unix now (unix t) then None
     else Some \<lparr>dg_email = email, dg_host = host, dg_device = deviceID, dg_nonce = nonce\<rparr>)"
proof -
  define ts where "ts = format_int (unix t)"
  define body where "body = grantBody email host deviceID (unix t) nonce"
  have nt: "CHR ''.'' \<notin> set ts" by (simp add: ts_def format_int_no_char)
  have b: "body = dot_join [b64_encode email, b64_encode host, deviceID, ts, nonce]"
    by (simp add: body_def grantBody_def ts_def)
  have tok: "fst (mintGrant mac key t nonce email host deviceID g) =
      dot_join [b64_encode email, b64_encode host, deviceID, ts, nonce, mac key body]"
    by (simp add: mintGrant_def body_def [symmetric]) (simp add: b dot_join_def)
  have s: "split_on CHR ''.'' (dot_join [b64_encode email, b64_encode host, deviceID, ts, nonce, mac key body]) =
      [b64_encode email, b64_encode host, deviceID, ts, nonce, mac key body]"
    unfolding dot_join_def using n nt by (intro split_join) auto
  show ?thesis
    unfolding tok verifyGrant_def s
    using atoi_format_int [OF t] by (simp add: b [symmetric] ts_def [symmetric])
qed

text \<open>The signatures of the three kinds of token, made with one key, cannot be taken for each other:
  whatever a device cookie, a session cookie or a grant that is accepted has signed, the signed
  texts differ; and a device cookie that is accepted names the device, the account and the time
  that were signed.\<close>

lemma signed_tokens_are_separated:
  "(\<forall>email v d. verifyDeviceCookie mac key email v = Some d \<longrightarrow>
      (\<exists>e e' ts. v = (e @ ''.'' @ d @ ''.'' @ ts) @ ''.'' @ mac key (e @ ''.'' @ d @ ''.'' @ ts) \<and>
         b64_decode e = Some e' \<and> eq_fold e' email \<and> length (split_on CHR ''.'' (e @ ''.'' @ d @ ''.'' @ ts)) = 3)) \<and>
   (\<forall>now email v. verifySessionCookie mac key now email v \<longrightarrow>
      (\<exists>body. v = body @ ''.'' @ mac key body \<and> length (split_on CHR ''.'' body) = 2)) \<and>
   (\<forall>now v g. verifyGrant mac key now v = Some g \<longrightarrow>
      (\<exists>body. v = body @ ''.'' @ mac key body \<and> length (split_on CHR ''.'' body) = 5))"
  using verifySessionCookie_signed [of mac key] verifyGrant_signed [of mac key]
  unfolding verifyDeviceCookie_iff signed_by_def by blast

end
