(* ===== verification/Trust_Store.thy ===== *)
theory Trust_Store
  imports Device_Cookie Acl_Store "HOL-Library.List_Lexorder"
begin

text \<open>
  The trust store of the daemon: the SQL tables behind pairing, devices, authenticators, backup
  codes, invites, magic links, roles, settings and the audit log (\<open>bailey_store_*.go\<close>), and the
  operations on them, including those of \<open>mfa_pair.go\<close> and \<open>mfa_devices.go\<close> that the handlers
  use. A table is the list of its rows in insertion order; columns declared \<open>COLLATE NOCASE\<close> are
  compared with \<open>eq_fold\<close>. \<open>sha\<close> is the hex text of SHA-256. Random values are arguments. A
  failing database file is outside the model; a violated key is not.
\<close>

section \<open>Tables\<close>

record device_row =
  dv_id :: string
  dv_email :: string
  dv_name :: string
  dv_paired :: int
  dv_seen :: "int option"
  dv_origin :: string

record pairing =
  pp_email :: string
  pp_code :: string
  pp_issued :: int
  pp_expires :: int
  pp_by :: string
  pp_info :: string
  pp_ua :: string

record totp_row =
  tt_email :: string
  tt_secret :: string
  tt_created :: int

record code_row =
  bc_email :: string
  bc_hash :: string
  bc_created :: int

record invite_row =
  iv_email :: string
  iv_hash :: string
  iv_role :: string
  iv_by :: string
  iv_created :: int
  iv_expires :: int
  iv_consumed :: "int option"

record magic_link =
  ml_id :: string
  ml_hash :: string
  ml_host :: string
  ml_by :: string
  ml_created :: int
  ml_expires :: int
  ml_revoked :: "int option"

record scoped_trust =
  st_device :: string
  st_host :: string
  st_email :: string
  st_at :: int

record role_row =
  ur_email :: string
  ur_role :: string
  ur_at :: int
  ur_by :: string

record event_row =
  ev_at :: int
  ev_actor :: string
  ev_action :: string
  ev_target :: string

record trust_db =
  td_devices :: "device_row list"
  td_pairs :: "pairing list"
  td_totp :: "totp_row list"
  td_codes :: "code_row list"
  td_invites :: "invite_row list"
  td_links :: "magic_link list"
  td_scoped :: "scoped_trust list"
  td_roles :: "role_row list"
  td_settings :: "string \<Rightarrow> (string \<times> int \<times> string) option"
  td_events :: "event_row list"
  td_key :: "string option"

text \<open>\<open>UPDATE ... WHERE P\<close>, and \<open>INSERT ... ON CONFLICT DO UPDATE\<close> where \<open>P\<close> selects the conflicting row.\<close>

definition update_rows :: "('r \<Rightarrow> bool) \<Rightarrow> ('r \<Rightarrow> 'r) \<Rightarrow> 'r list \<Rightarrow> 'r list" where
  "update_rows P f rows = map (\<lambda>r. if P r then f r else r) rows"

definition upsert_row :: "('r \<Rightarrow> bool) \<Rightarrow> ('r \<Rightarrow> 'r) \<Rightarrow> 'r \<Rightarrow> 'r list \<Rightarrow> 'r list" where
  "upsert_row P f new rows = (if list_ex P rows then update_rows P f rows else rows @ [new])"

definition delete_rows :: "('r \<Rightarrow> bool) \<Rightarrow> 'r list \<Rightarrow> 'r list" where
  "delete_rows P rows = filter (\<lambda>r. \<not> P r) rows"

section \<open>Times in the tables\<close>

text \<open>\<open>RFC3339\<close> keeps whole seconds.\<close>

definition rfc3339 :: "int \<Rightarrow> int" where "rfc3339 t = t - t mod sec"

text \<open>
  \<open>RFC3339Nano\<close> keeps the nanoseconds, without trailing zeros, and SQLite compares the texts. The
  part up to the seconds compares like the numbers; the rest is compared as text.
\<close>

definition nano_digits :: "nat \<Rightarrow> string" where
  "nano_digits n = map (\<lambda>i. char_of (48 + (n div 10 ^ (8 - i)) mod 10)) [0..<9]"

definition nano_tail :: "int \<Rightarrow> string" where
  "nano_tail t =
     (let n = nat (t mod sec) in
      (if n = 0 then [] else CHR ''.'' # rev (dropWhile (\<lambda>c. c = CHR ''0'') (rev (nano_digits n)))) @ ''Z'')"

fun text_less :: "string \<Rightarrow> string \<Rightarrow> bool" where
  "text_less s [] = False"
| "text_less [] (y # t) = True"
| "text_less (x # s) (y # t) =
     ((of_char x :: nat) < of_char y \<or> (x = y \<and> text_less s t))"

definition nano_less :: "int \<Rightarrow> int \<Rightarrow> bool" where
  "nano_less a b \<longleftrightarrow> a div sec < b div sec \<or> (a div sec = b div sec \<and> text_less (nano_tail a) (nano_tail b))"

section \<open>The audit log and the settings\<close>

definition recordEvent :: "int \<Rightarrow> string \<Rightarrow> string \<Rightarrow> string \<Rightarrow> trust_db \<Rightarrow> trust_db" where
  "recordEvent now actor action target db =
     db\<lparr>td_events := td_events db @ [\<lparr>ev_at = rfc3339 now, ev_actor = actor, ev_action = action, ev_target = target\<rparr>]\<rparr>"

text \<open>Newest first: by time, then by row.\<close>

definition dbListEvents :: "int \<Rightarrow> trust_db \<Rightarrow> event_row list" where
  "dbListEvents limit db =
     take (nat (if limit \<le> 0 then 25 else limit)) (rev (sort_key ev_at (td_events db)))"

definition dbGetSetting :: "string \<Rightarrow> trust_db \<Rightarrow> string" where
  "dbGetSetting k db = (case td_settings db k of Some (v, _) \<Rightarrow> v | None \<Rightarrow> [])"

definition dbSetSetting :: "int \<Rightarrow> string \<Rightarrow> string \<Rightarrow> string \<Rightarrow> trust_db \<Rightarrow> trust_db" where
  "dbSetSetting now k v by db = db\<lparr>td_settings := (td_settings db)(k \<mapsto> (v, rfc3339 now, by))\<rparr>"

definition dbDeleteSetting :: "string \<Rightarrow> trust_db \<Rightarrow> trust_db" where
  "dbDeleteSetting k db = db\<lparr>td_settings := (td_settings db)(k := None)\<rparr>"

text \<open>\<open>dbSigningKey\<close>; \<open>fresh\<close> is 32 random bytes.\<close>

definition dbSigningKey :: "string \<Rightarrow> trust_db \<Rightarrow> string \<times> trust_db" where
  "dbSigningKey fresh db =
     (case td_key db of Some k \<Rightarrow> (k, db) | None \<Rightarrow> (fresh, db\<lparr>td_key := Some fresh\<rparr>))"

section \<open>Pending pairs\<close>

definition dbUpsertPendingPair :: "pairing \<Rightarrow> trust_db \<Rightarrow> trust_db" where
  "dbUpsertPendingPair e db =
     db\<lparr>td_pairs := upsert_row (\<lambda>p. eq_fold (pp_email p) (pp_email e))
       (\<lambda>p. e\<lparr>pp_email := pp_email p, pp_ua := (if pp_ua e = [] then pp_ua p else pp_ua e)\<rparr>) e (td_pairs db)\<rparr>"

definition dbLoadPendingPairByCode :: "string \<Rightarrow> trust_db \<Rightarrow> pairing option" where
  "dbLoadPendingPairByCode code db = find (\<lambda>p. pp_code p = code) (td_pairs db)"

definition dbLoadPendingPairByEmail :: "string \<Rightarrow> trust_db \<Rightarrow> pairing option" where
  "dbLoadPendingPairByEmail email db = find (\<lambda>p. eq_fold (pp_email p) email) (td_pairs db)"

definition dbDeletePendingPairByEmail :: "string \<Rightarrow> trust_db \<Rightarrow> trust_db" where
  "dbDeletePendingPairByEmail email db = db\<lparr>td_pairs := delete_rows (\<lambda>p. eq_fold (pp_email p) email) (td_pairs db)\<rparr>"

definition dbPurgeExpiredPendingPairs :: "int \<Rightarrow> trust_db \<Rightarrow> trust_db" where
  "dbPurgeExpiredPendingPairs now db = db\<lparr>td_pairs := delete_rows (\<lambda>p. nano_less (pp_expires p) now) (td_pairs db)\<rparr>"

definition dbListPendingPairs :: "trust_db \<Rightarrow> pairing list" where
  "dbListPendingPairs db = td_pairs db"

definition pairingTTL :: int where "pairingTTL = 5 * 60 * sec"
definition pairingRefreshThreshold :: int where "pairingRefreshThreshold = 90 * sec"

text \<open>\<open>fmt.Sprintf("%06d", n)\<close> for \<open>n\<close> below a million.\<close>

definition code6 :: "nat \<Rightarrow> string" where
  "code6 n = (let s = itoa n in replicate (6 - length s) CHR ''0'' @ s)"

definition generatePendingPairUA :: "int \<Rightarrow> nat \<Rightarrow> string \<Rightarrow> string \<Rightarrow> trust_db \<Rightarrow> pairing \<times> trust_db" where
  "generatePendingPairUA now codeInt email userAgent db0 =
     (let db = dbPurgeExpiredPendingPairs now db0;
          e = \<lparr>pp_email = email, pp_code = code6 codeInt, pp_issued = now, pp_expires = now + pairingTTL,
               pp_by = [], pp_info = [], pp_ua = userAgent\<rparr>
      in case dbLoadPendingPairByEmail email db of
           Some p \<Rightarrow>
             if pp_by p = [] \<and> pairingRefreshThreshold < pp_expires p - now then (p, db)
             else (e, dbUpsertPendingPair e db)
         | None \<Rightarrow> (e, dbUpsertPendingPair e db))"

definition approvePendingPair ::
    "int \<Rightarrow> string \<Rightarrow> string \<Rightarrow> string \<Rightarrow> bool \<Rightarrow> trust_db \<Rightarrow> pairing option \<times> trust_db" where
  "approvePendingPair now email code approverEmail approverIsAdmin db =
     (case dbLoadPendingPairByCode code db of
        None \<Rightarrow> (None, db)
      | Some p \<Rightarrow>
          if pp_email p \<noteq> email \<or> pp_expires p < now then (None, db)
          else
            let e = p\<lparr>pp_by := approverEmail,
                      pp_info := (if approverIsAdmin then approverEmail @ '' (admin)'' else approverEmail)\<rparr>
            in (Some e, dbUpsertPendingPair e db))"

definition approvePendingPairByCodeVia ::
    "int \<Rightarrow> string \<Rightarrow> string \<Rightarrow> string \<Rightarrow> trust_db \<Rightarrow> pairing option \<times> trust_db" where
  "approvePendingPairByCodeVia now code approverEmail via db =
     (case dbLoadPendingPairByCode code db of
        None \<Rightarrow> (None, db)
      | Some p \<Rightarrow>
          if pp_expires p < now then (None, db)
          else
            let e = p\<lparr>pp_by := approverEmail, pp_info := approverEmail @ '' (admin via '' @ via @ '')''\<rparr>
            in (Some e, dbUpsertPendingPair e db))"

definition approvePendingPairByCode :: "int \<Rightarrow> string \<Rightarrow> string \<Rightarrow> trust_db \<Rightarrow> pairing option \<times> trust_db" where
  "approvePendingPairByCode now code approverEmail db = approvePendingPairByCodeVia now code approverEmail ''CLI'' db"

definition claimPendingPair :: "int \<Rightarrow> string \<Rightarrow> trust_db \<Rightarrow> pairing option \<times> trust_db" where
  "claimPendingPair now email db =
     (case dbLoadPendingPairByEmail email db of
        None \<Rightarrow> (None, db)
      | Some e \<Rightarrow>
          if pp_by e = [] \<or> pp_expires e < now then (None, db)
          else (Some e, dbDeletePendingPairByEmail email db))"

section \<open>Devices\<close>

definition dbListDevices :: "string \<Rightarrow> trust_db \<Rightarrow> device_row list" where
  "dbListDevices email db = sort_key dv_paired (filter (\<lambda>d. eq_fold (dv_email d) email) (td_devices db))"

definition dbListAllDevices :: "trust_db \<Rightarrow> device_row list" where
  "dbListAllDevices db = sort_key (\<lambda>d. to_lower (dv_email d)) (sort_key dv_paired (td_devices db))"

text \<open>\<open>id\<close> is the hex text of 8 random bytes, \<open>today\<close> the text of the date; \<open>None\<close> when the key is taken.\<close>

definition dbAddDevice :: "int \<Rightarrow> string \<Rightarrow> string \<Rightarrow> string \<Rightarrow> string \<Rightarrow> string \<Rightarrow> trust_db \<Rightarrow> device_row option \<times> trust_db" where
  "dbAddDevice now today devid email name0 origin db =
     (let name = (if trim_space name0 = [] then ''Device added '' @ today else name0);
          d = \<lparr>dv_id = devid, dv_email = email, dv_name = name, dv_paired = rfc3339 now, dv_seen = None, dv_origin = origin\<rparr>
      in if \<exists>x\<in>set (td_devices db). dv_id x = devid then (None, db)
         else (Some d, db\<lparr>td_devices := td_devices db @ [d]\<rparr>))"

definition update_devices :: "(device_row \<Rightarrow> bool) \<Rightarrow> (device_row \<Rightarrow> device_row) \<Rightarrow> trust_db \<Rightarrow> trust_db" where
  "update_devices P f db = db\<lparr>td_devices := update_rows P f (td_devices db)\<rparr>"

definition own_device :: "string \<Rightarrow> string \<Rightarrow> device_row \<Rightarrow> bool" where
  "own_device email devid d \<longleftrightarrow> dv_id d = devid \<and> eq_fold (dv_email d) email"

definition dbRenameDevice :: "string \<Rightarrow> string \<Rightarrow> string \<Rightarrow> trust_db \<Rightarrow> bool \<times> trust_db" where
  "dbRenameDevice email devid name db =
     (list_ex (own_device email devid) (td_devices db), update_devices (own_device email devid) (\<lambda>d. d\<lparr>dv_name := name\<rparr>) db)"

definition dbRemoveDevice :: "string \<Rightarrow> string \<Rightarrow> trust_db \<Rightarrow> trust_db" where
  "dbRemoveDevice email devid db = db\<lparr>td_devices := delete_rows (own_device email devid) (td_devices db)\<rparr>"

definition dbFindDevice :: "string \<Rightarrow> string \<Rightarrow> trust_db \<Rightarrow> device_row option" where
  "dbFindDevice email devid db = find (own_device email devid) (td_devices db)"

definition dbTouchDevice :: "int \<Rightarrow> string \<Rightarrow> string \<Rightarrow> trust_db \<Rightarrow> trust_db" where
  "dbTouchDevice now email devid = update_devices (own_device email devid) (\<lambda>d. d\<lparr>dv_seen := Some (rfc3339 now)\<rparr>)"

definition dbAnyDevicesExist :: "trust_db \<Rightarrow> bool" where
  "dbAnyDevicesExist db \<longleftrightarrow> td_devices db \<noteq> []"

definition addDeviceWithOrigin ::
    "int \<Rightarrow> string \<Rightarrow> string \<Rightarrow> string \<Rightarrow> string \<Rightarrow> string \<Rightarrow> trust_db \<Rightarrow> device_row option \<times> trust_db" where
  "addDeviceWithOrigin now today devid email name origin db =
     (case dbAddDevice now today devid email name origin db of
        (None, db1) \<Rightarrow> (None, db1)
      | (Some d, db1) \<Rightarrow>
          (Some d, dbDeletePendingPairByEmail email (recordEvent now email ''device.approve'' (dv_id d) db1)))"

definition removeDevice :: "int \<Rightarrow> string \<Rightarrow> string \<Rightarrow> trust_db \<Rightarrow> trust_db" where
  "removeDevice now email devid db = recordEvent now email ''device.revoke'' devid (dbRemoveDevice email devid db)"

definition deviceNameMaxLen :: nat where "deviceNameMaxLen = 60"

text \<open>Runes of UTF-8 text: every byte but the continuation bytes starts one (an invalid byte counts
  as one rune for Go; text from a form is taken to be valid). The control characters are those of
  ASCII and the C1 block, \<open>0xC2\<close> followed by a byte up to \<open>0x9F\<close>.\<close>

definition rune_count :: "string \<Rightarrow> nat" where
  "rune_count s = length (filter (\<lambda>c. (of_char c :: nat) < 128 \<or> 192 \<le> (of_char c :: nat)) s)"

fun has_control :: "string \<Rightarrow> bool" where
  "has_control [] = False"
| "has_control (c # s) =
     ((of_char c :: nat) < 32 \<or> (of_char c :: nat) = 127 \<or>
      ((of_char c :: nat) = 194 \<and> (case s of [] \<Rightarrow> False | d # _ \<Rightarrow> (of_char d :: nat) < 160)) \<or> has_control s)"

definition validDeviceName :: "string \<Rightarrow> string + string" where
  "validDeviceName name0 =
     (let name = trim_space name0 in
      if name = [] then Inl ''name required''
      else if deviceNameMaxLen < rune_count name then Inl ''name must be at most 60 characters''
      else if has_control name then Inl ''name must not contain control characters''
      else Inr name)"

definition renameDevice :: "int \<Rightarrow> string \<Rightarrow> string \<Rightarrow> string \<Rightarrow> trust_db \<Rightarrow> bool \<times> trust_db" where
  "renameDevice now email devid name db =
     (case dbRenameDevice email devid name db of
        (ok, db1) \<Rightarrow> (ok, if ok then recordEvent now email ''device.rename'' devid db1 else db1))"

definition currentDeviceForRequest ::
    "(string \<Rightarrow> string \<Rightarrow> string) \<Rightarrow> string \<Rightarrow> http_req \<Rightarrow> string \<Rightarrow> trust_db \<Rightarrow> device_row option" where
  "currentDeviceForRequest mac key r email db =
     (if cookie r deviceCookieName = [] then None
      else case verifyDeviceCookie mac key email (cookie r deviceCookieName) of
        None \<Rightarrow> None
      | Some devid \<Rightarrow> dbFindDevice email devid db)"

text \<open>The latest \<open>paired_at\<close> per account, then the requests an approver may act on.\<close>

definition latestDevicePairedAtByEmail :: "trust_db \<Rightarrow> string \<Rightarrow> int option" where
  "latestDevicePairedAtByEmail db =
     foldl (\<lambda>m d. let k = to_lower (dv_email d) in
        case m k of None \<Rightarrow> m(k \<mapsto> dv_paired d) | Some cur \<Rightarrow> if cur < dv_paired d then m(k \<mapsto> dv_paired d) else m)
      Map.empty (td_devices db)"

definition visiblePendingRequests :: "int \<Rightarrow> string \<Rightarrow> bool \<Rightarrow> trust_db \<Rightarrow> pairing list" where
  "visiblePendingRequests now approverEmail approverIsAdmin db =
     (let pairedAt = latestDevicePairedAtByEmail db in
      filter (\<lambda>e. \<not> (pp_expires e < now \<or> pp_by e \<noteq> []) \<and>
        \<not> (case pairedAt (to_lower (pp_email e)) of Some t \<Rightarrow> pp_issued e < t | None \<Rightarrow> False) \<and>
        (approverIsAdmin \<or> eq_fold (pp_email e) approverEmail)) (dbListPendingPairs db))"

section \<open>Authenticators\<close>

definition dbLoadTOTP :: "string \<Rightarrow> trust_db \<Rightarrow> totp_row option" where
  "dbLoadTOTP email db = find (\<lambda>t. eq_fold (tt_email t) email) (td_totp db)"

definition dbSaveTOTP :: "totp_row \<Rightarrow> trust_db \<Rightarrow> trust_db" where
  "dbSaveTOTP rec db =
     db\<lparr>td_totp := upsert_row (\<lambda>t. eq_fold (tt_email t) (tt_email rec))
       (\<lambda>t. t\<lparr>tt_secret := tt_secret rec, tt_created := tt_created rec\<rparr>) rec (td_totp db)\<rparr>"

definition saveTOTPRecord :: "int \<Rightarrow> totp_row \<Rightarrow> trust_db \<Rightarrow> trust_db" where
  "saveTOTPRecord now rec db = recordEvent now (tt_email rec) ''totp.enrol'' (tt_email rec) (dbSaveTOTP rec db)"

definition dbDeleteTOTP :: "string \<Rightarrow> trust_db \<Rightarrow> trust_db" where
  "dbDeleteTOTP email db = db\<lparr>td_totp := delete_rows (\<lambda>t. eq_fold (tt_email t) email) (td_totp db)\<rparr>"

definition dbListTOTPEnrolledEmails :: "trust_db \<Rightarrow> string list" where
  "dbListTOTPEnrolledEmails db = remdups (map (\<lambda>t. to_lower (tt_email t)) (td_totp db))"

section \<open>Backup codes\<close>

definition upper_char :: "char \<Rightarrow> char" where
  "upper_char c = (let n = (of_char c :: nat) in if 97 \<le> n \<and> n \<le> 122 then char_of (n - 32) else c)"

definition normalizeBackupCode :: "string \<Rightarrow> string" where
  "normalizeBackupCode code =
     filter (\<lambda>r. let n = (of_char r :: nat) in (65 \<le> n \<and> n \<le> 90) \<or> (48 \<le> n \<and> n \<le> 57)) (map upper_char code)"

definition hashBackupCode :: "(string \<Rightarrow> string) \<Rightarrow> string \<Rightarrow> string" where
  "hashBackupCode sha code = sha (normalizeBackupCode code)"

definition dbBackupCodesExist :: "string \<Rightarrow> trust_db \<Rightarrow> bool" where
  "dbBackupCodesExist email db \<longleftrightarrow> list_ex (\<lambda>b. eq_fold (bc_email b) email) (td_codes db)"

definition same_code :: "string \<Rightarrow> string \<Rightarrow> code_row \<Rightarrow> bool" where
  "same_code email h b \<longleftrightarrow> eq_fold (bc_email b) email \<and> bc_hash b = h"

definition insert_code :: "(string \<Rightarrow> string) \<Rightarrow> int \<Rightarrow> string \<Rightarrow> string \<Rightarrow> code_row list \<Rightarrow> code_row list" where
  "insert_code sha now email c rows =
     (if normalizeBackupCode c = [] \<or> list_ex (same_code email (hashBackupCode sha c)) rows then rows
      else rows @ [\<lparr>bc_email = email, bc_hash = hashBackupCode sha c, bc_created = rfc3339 now\<rparr>])"

definition dbSaveBackupCodes :: "(string \<Rightarrow> string) \<Rightarrow> int \<Rightarrow> string \<Rightarrow> string list \<Rightarrow> trust_db \<Rightarrow> trust_db" where
  "dbSaveBackupCodes sha now email codes db =
     db\<lparr>td_codes := fold (insert_code sha now email) codes (delete_rows (\<lambda>b. eq_fold (bc_email b) email) (td_codes db))\<rparr>"

definition dbConsumeBackupCode :: "(string \<Rightarrow> string) \<Rightarrow> string \<Rightarrow> string \<Rightarrow> trust_db \<Rightarrow> bool \<times> trust_db" where
  "dbConsumeBackupCode sha email code db =
     (if normalizeBackupCode code = [] then (False, db)
      else (list_ex (same_code email (hashBackupCode sha code)) (td_codes db),
            db\<lparr>td_codes := delete_rows (same_code email (hashBackupCode sha code)) (td_codes db)\<rparr>))"

section \<open>Invites\<close>

definition inviteTTL :: int where "inviteTTL = 48 * 60 * 60 * sec"

definition inv_consumed :: "invite_row \<Rightarrow> bool" where "inv_consumed v \<longleftrightarrow> iv_consumed v \<noteq> None"
definition inv_expired :: "int \<Rightarrow> invite_row \<Rightarrow> bool" where "inv_expired now v \<longleftrightarrow> iv_expires v < now"
definition inv_live :: "int \<Rightarrow> invite_row \<Rightarrow> bool" where "inv_live now v \<longleftrightarrow> \<not> inv_consumed v \<and> \<not> inv_expired now v"

definition dbUpsertInvite :: "invite_row \<Rightarrow> trust_db \<Rightarrow> trust_db" where
  "dbUpsertInvite v db =
     db\<lparr>td_invites := upsert_row (\<lambda>x. eq_fold (iv_email x) (iv_email v)) (\<lambda>x. v\<lparr>iv_email := iv_email x\<rparr>) v (td_invites db)\<rparr>"

definition dbLoadInviteByTokenHash :: "string \<Rightarrow> trust_db \<Rightarrow> invite_row option" where
  "dbLoadInviteByTokenHash h db = find (\<lambda>v. iv_hash v = h) (td_invites db)"

definition dbLoadInviteByEmail :: "string \<Rightarrow> trust_db \<Rightarrow> invite_row option" where
  "dbLoadInviteByEmail email db = find (\<lambda>v. eq_fold (iv_email v) email) (td_invites db)"

text \<open>Newest first.\<close>

definition dbListUnconsumedInvites :: "trust_db \<Rightarrow> invite_row list" where
  "dbListUnconsumedInvites db = sort_key (\<lambda>v. - iv_created v) (filter (\<lambda>v. \<not> inv_consumed v) (td_invites db))"

definition consumable :: "string \<Rightarrow> int \<Rightarrow> invite_row \<Rightarrow> bool" where
  "consumable h now v \<longleftrightarrow> iv_hash v = h \<and> iv_consumed v = None \<and> nano_less now (iv_expires v)"

definition dbConsumeInviteAtomic :: "string \<Rightarrow> int \<Rightarrow> trust_db \<Rightarrow> bool \<times> trust_db" where
  "dbConsumeInviteAtomic h now db =
     (list_ex (consumable h now) (td_invites db),
      db\<lparr>td_invites := update_rows (consumable h now) (\<lambda>v. v\<lparr>iv_consumed := Some now\<rparr>) (td_invites db)\<rparr>)"

definition dbDeleteInvite :: "string \<Rightarrow> trust_db \<Rightarrow> bool \<times> trust_db" where
  "dbDeleteInvite email db =
     (list_ex (\<lambda>v. eq_fold (iv_email v) email) (td_invites db),
      db\<lparr>td_invites := delete_rows (\<lambda>v. eq_fold (iv_email v) email) (td_invites db)\<rparr>)"

section \<open>Magic links\<close>

definition ml_is_revoked :: "magic_link \<Rightarrow> bool" where "ml_is_revoked m \<longleftrightarrow> ml_revoked m \<noteq> None"
definition ml_expired :: "int \<Rightarrow> magic_link \<Rightarrow> bool" where "ml_expired now m \<longleftrightarrow> ml_expires m < now"
definition ml_live :: "int \<Rightarrow> magic_link \<Rightarrow> bool" where "ml_live now m \<longleftrightarrow> \<not> ml_is_revoked m \<and> \<not> ml_expired now m"

text \<open>\<open>tok\<close> is the random token, \<open>mid\<close> the random id; \<open>None\<close> when the id is taken or the endpoint
  unknown.\<close>

definition dbCreateMagicLink ::
    "(string \<Rightarrow> string) \<Rightarrow> int \<Rightarrow> string \<Rightarrow> string \<Rightarrow> string \<Rightarrow> string \<Rightarrow> int \<Rightarrow> acl_db \<Rightarrow> trust_db
     \<Rightarrow> magic_link option \<times> trust_db" where
  "dbCreateMagicLink sha now mid tok host createdBy ttl acl db =
     (if (\<exists>m\<in>set (td_links db). ml_id m = mid) \<or> \<not> endpoint_known acl host then (None, db)
      else
        let row = \<lparr>ml_id = mid, ml_hash = sha tok, ml_host = host, ml_by = createdBy, ml_created = rfc3339 now,
                   ml_expires = rfc3339 (now + ttl), ml_revoked = None\<rparr>
        in (Some (row\<lparr>ml_created := now, ml_expires := now + ttl\<rparr>), db\<lparr>td_links := td_links db @ [row]\<rparr>))"

definition dbMagicLinkByTokenHash :: "string \<Rightarrow> trust_db \<Rightarrow> magic_link option" where
  "dbMagicLinkByTokenHash h db = find (\<lambda>m. ml_hash m = h) (td_links db)"

definition dbListMagicLinks :: "int \<Rightarrow> string \<Rightarrow> trust_db \<Rightarrow> magic_link list" where
  "dbListMagicLinks now host db =
     filter (ml_live now) (sort_key (\<lambda>m. - ml_created m)
       (filter (\<lambda>m. eq_fold (ml_host m) host \<and> ml_revoked m = None) (td_links db)))"

definition revocable :: "string \<Rightarrow> string \<Rightarrow> magic_link \<Rightarrow> bool" where
  "revocable mid host m \<longleftrightarrow> ml_id m = mid \<and> eq_fold (ml_host m) host \<and> ml_revoked m = None"

definition dbRevokeMagicLink :: "int \<Rightarrow> string \<Rightarrow> string \<Rightarrow> trust_db \<Rightarrow> bool \<times> trust_db" where
  "dbRevokeMagicLink now mid host db =
     (list_ex (revocable mid host) (td_links db),
      db\<lparr>td_links := update_rows (revocable mid host) (\<lambda>m. m\<lparr>ml_revoked := Some (rfc3339 now)\<rparr>) (td_links db)\<rparr>)"

definition scoped_for :: "string \<Rightarrow> string \<Rightarrow> scoped_trust \<Rightarrow> bool" where
  "scoped_for deviceID host s \<longleftrightarrow> st_device s = deviceID \<and> eq_fold (st_host s) host"

text \<open>\<open>False\<close>: the endpoint is unknown.\<close>

definition dbAddEndpointDeviceTrust :: "int \<Rightarrow> string \<Rightarrow> string \<Rightarrow> string \<Rightarrow> acl_db \<Rightarrow> trust_db \<Rightarrow> bool \<times> trust_db" where
  "dbAddEndpointDeviceTrust now deviceID host email acl db =
     (if \<not> endpoint_known acl host then (False, db)
      else (True, db\<lparr>td_scoped := delete_rows (scoped_for deviceID host) (td_scoped db) @
                       [\<lparr>st_device = deviceID, st_host = host, st_email = email, st_at = rfc3339 now\<rparr>]\<rparr>))"

definition dbEndpointDeviceTrusted :: "string \<Rightarrow> string \<Rightarrow> trust_db \<Rightarrow> bool" where
  "dbEndpointDeviceTrusted deviceID host db \<longleftrightarrow> list_ex (scoped_for deviceID host) (td_scoped db)"

section \<open>Roles and the claim of the server\<close>

definition dbGetUserRole :: "string \<Rightarrow> trust_db \<Rightarrow> string" where
  "dbGetUserRole email0 db =
     (let email = trim_space email0 in
      if email = [] then []
      else case find (\<lambda>u. eq_fold (ur_email u) email) (td_roles db) of Some u \<Rightarrow> ur_role u | None \<Rightarrow> [])"

text \<open>\<open>False\<close>: no email.\<close>

definition dbSetUserRole :: "int \<Rightarrow> string \<Rightarrow> string \<Rightarrow> string \<Rightarrow> trust_db \<Rightarrow> bool \<times> trust_db" where
  "dbSetUserRole now email0 role by db =
     (let email = trim_space email0 in
      if email = [] then (False, db)
      else (True, db\<lparr>td_roles := upsert_row (\<lambda>u. eq_fold (ur_email u) email)
        (\<lambda>u. u\<lparr>ur_role := role, ur_at := rfc3339 now, ur_by := by\<rparr>)
        \<lparr>ur_email = email, ur_role = role, ur_at = rfc3339 now, ur_by = by\<rparr> (td_roles db)\<rparr>))"

definition dbDeleteUserRole :: "string \<Rightarrow> trust_db \<Rightarrow> trust_db" where
  "dbDeleteUserRole email0 db =
     (let email = trim_space email0 in
      if email = [] then db else db\<lparr>td_roles := delete_rows (\<lambda>u. eq_fold (ur_email u) email) (td_roles db)\<rparr>)"

definition dbListUsersByRoles :: "string list \<Rightarrow> trust_db \<Rightarrow> (string \<times> string) list" where
  "dbListUsersByRoles roles db =
     map (\<lambda>u. (ur_email u, ur_role u))
       (sort_key (\<lambda>u. to_lower (ur_email u)) (filter (\<lambda>u. ur_role u \<in> set roles) (td_roles db)))"

definition serverRootAdmin :: "trust_db \<Rightarrow> string" where
  "serverRootAdmin db = trim_space (dbGetSetting ''root_admin_email'' db)"

definition serverClaimedAt :: "trust_db \<Rightarrow> string" where
  "serverClaimedAt db = trim_space (dbGetSetting ''claimed_at'' db)"

definition serverClaimed :: "trust_db \<Rightarrow> bool" where
  "serverClaimed db \<longleftrightarrow> serverRootAdmin db \<noteq> [] \<or> dbAnyDevicesExist db"

text \<open>\<open>stamp\<close> is the \<open>RFC3339\<close> text of \<open>now\<close>.\<close>

definition recordServerClaim :: "int \<Rightarrow> string \<Rightarrow> string \<Rightarrow> trust_db \<Rightarrow> trust_db" where
  "recordServerClaim now stamp email db =
     recordEvent now email ''server.claim'' email
       (dbSetSetting now ''claimed_at'' stamp email (dbSetSetting now ''root_admin_email'' email email db))"

definition anyAdminElsewhere :: bool where "anyAdminElsewhere = False"

definition eligibleToClaim :: "string \<Rightarrow> string list \<Rightarrow> bool" where
  "eligibleToClaim email groups \<longleftrightarrow>
     (if email = [] then False else if isAdminGroups groups then True else \<not> anyAdminElsewhere)"

definition effectiveRole :: "string \<Rightarrow> trust_db \<Rightarrow> string" where
  "effectiveRole email0 db =
     (let email = trim_space email0 in
      if email = [] then []
      else if dbGetUserRole email db \<noteq> [] then dbGetUserRole email db
      else if eq_fold email (trim_space (serverRootAdmin db)) then ''admin''
      else ''member'')"

definition callerIsAdmin :: "string \<Rightarrow> trust_db \<Rightarrow> bool" where
  "callerIsAdmin email db \<longleftrightarrow> effectiveRole email db = ''admin''"

definition validRole :: "string \<Rightarrow> bool" where
  "validRole role \<longleftrightarrow> role = ''admin'' \<or> role = ''auditor'' \<or> role = ''member'' \<or> role = ''user''"

section \<open>The keys of the tables\<close>

definition fold_key :: "('r \<Rightarrow> string) \<Rightarrow> 'r \<Rightarrow> string" where "fold_key f r = to_lower (f r)"

text \<open>What the schema promises: the primary keys are unique, case-insensitively where the column is.
  A pending pair of a stored request has a six-digit code.\<close>

definition trust_ok :: "trust_db \<Rightarrow> bool" where
  "trust_ok db \<longleftrightarrow>
     distinct (map dv_id (td_devices db)) \<and>
     distinct (map (fold_key pp_email) (td_pairs db)) \<and>
     distinct (map (fold_key tt_email) (td_totp db)) \<and>
     distinct (map (\<lambda>b. (fold_key bc_email b, bc_hash b)) (td_codes db)) \<and>
     distinct (map (fold_key iv_email) (td_invites db)) \<and>
     distinct (map ml_id (td_links db)) \<and>
     distinct (map (\<lambda>s. (st_device s, fold_key st_host s)) (td_scoped db)) \<and>
     distinct (map (fold_key ur_email) (td_roles db))"

named_theorems trust_ops \<open>definitions of the store operations\<close>
named_theorems keeps_ok \<open>operations keep the keys unique\<close>

lemmas trust_store_ops [trust_ops] =
  recordEvent_def dbSetSetting_def dbDeleteSetting_def dbUpsertPendingPair_def dbDeletePendingPairByEmail_def
  dbPurgeExpiredPendingPairs_def update_devices_def dbRemoveDevice_def dbTouchDevice_def dbSaveTOTP_def
  dbDeleteTOTP_def dbUpsertInvite_def dbDeleteUserRole_def

lemma delete_rows_keys [intro]: "distinct (map k rows) \<Longrightarrow> distinct (map k (delete_rows P rows))"
  by (simp add: delete_rows_def distinct_map_filter)

lemma update_rows_keys: "(\<And>r. k (f r) = k r) \<Longrightarrow> map k (update_rows P f rows) = map k rows"
  by (simp add: update_rows_def)

lemma update_rows_keys_on:
  "(\<And>r. r \<in> set rows \<Longrightarrow> P r \<Longrightarrow> k (f r) = k r) \<Longrightarrow> map k (update_rows P f rows) = map k rows"
  by (simp add: update_rows_def)

lemma upsert_row_keys:
  assumes "distinct (map k rows)" "\<And>r. P r \<longleftrightarrow> k r = k new" "\<And>r. P r \<Longrightarrow> k (f r) = k r"
  shows "distinct (map k (upsert_row P f new rows))"
proof (cases "list_ex P rows")
  case True
  then show ?thesis using assms(1,3) by (simp add: upsert_row_def update_rows_keys_on)
next
  case False
  then have "k new \<notin> k ` set rows" using assms(2) by (auto simp: list_ex_iff image_iff)
  then show ?thesis using False assms(1) by (simp add: upsert_row_def)
qed

lemma set_delete_rows [simp]: "set (delete_rows P rows) = {r \<in> set rows. \<not> P r}"
  by (auto simp: delete_rows_def)

lemma set_update_rows: "set (update_rows P f rows) = (\<lambda>r. if P r then f r else r) ` set rows"
  by (simp add: update_rows_def)

lemma trust_ok_recordEvent [simp, keeps_ok]: "trust_ok (recordEvent now a act tgt db) = trust_ok db"
  by (simp add: trust_ok_def recordEvent_def)

lemma trust_ok_dbSetSetting [simp, keeps_ok]: "trust_ok (dbSetSetting now k v by' db) = trust_ok db"
  by (simp add: trust_ok_def dbSetSetting_def)

lemma trust_ok_dbDeleteSetting [simp, keeps_ok]: "trust_ok (dbDeleteSetting k db) = trust_ok db"
  by (simp add: trust_ok_def dbDeleteSetting_def)

lemma trust_ok_dbUpsertPendingPair [simp, intro, keeps_ok]: "trust_ok db \<Longrightarrow> trust_ok (dbUpsertPendingPair e db)"
  by (auto simp: trust_ok_def dbUpsertPendingPair_def fold_key_def eq_fold_def intro!: upsert_row_keys)

lemma trust_ok_dbDeletePendingPairByEmail [simp, intro, keeps_ok]:
  "trust_ok db \<Longrightarrow> trust_ok (dbDeletePendingPairByEmail email db)"
  by (auto simp: trust_ok_def dbDeletePendingPairByEmail_def)

lemma trust_ok_dbPurgeExpiredPendingPairs [simp, intro, keeps_ok]:
  "trust_ok db \<Longrightarrow> trust_ok (dbPurgeExpiredPendingPairs now db)"
  by (auto simp: trust_ok_def dbPurgeExpiredPendingPairs_def)

lemma trust_ok_generatePendingPairUA [simp, intro, keeps_ok]:
  "trust_ok db \<Longrightarrow> trust_ok (snd (generatePendingPairUA now n email ua db))"
  by (auto simp: generatePendingPairUA_def Let_def split: option.splits)

lemma trust_ok_approvePendingPair [simp, intro, keeps_ok]:
  "trust_ok db \<Longrightarrow> trust_ok (snd (approvePendingPair now email code by' adm db))"
  by (auto simp: approvePendingPair_def Let_def split: option.splits)

lemma trust_ok_approvePendingPairByCodeVia [simp, intro, keeps_ok]:
  "trust_ok db \<Longrightarrow> trust_ok (snd (approvePendingPairByCodeVia now code by' via db))"
  by (auto simp: approvePendingPairByCodeVia_def Let_def split: option.splits)

lemma trust_ok_claimPendingPair [simp, intro, keeps_ok]:
  "trust_ok db \<Longrightarrow> trust_ok (snd (claimPendingPair now email db))"
  by (auto simp: claimPendingPair_def split: option.splits)

lemma trust_ok_addDeviceWithOrigin [simp, intro, keeps_ok]:
  "trust_ok db \<Longrightarrow> trust_ok (snd (addDeviceWithOrigin now today d email name o' db))"
proof -
  assume ok: "trust_ok db"
  then have "\<not> (\<exists>x\<in>set (td_devices db). dv_id x = d) \<Longrightarrow> trust_ok (db\<lparr>td_devices := td_devices db @ [r]\<rparr>)" if "dv_id r = d" for r
    using that by (auto simp: trust_ok_def)
  then show ?thesis using ok
    by (auto simp: addDeviceWithOrigin_def dbAddDevice_def Let_def)
qed

lemma trust_ok_update_devices [simp, keeps_ok]:
  "(\<And>d. dv_id (f d) = dv_id d) \<Longrightarrow> trust_ok (update_devices P f db) = trust_ok db"
  by (simp add: trust_ok_def update_devices_def update_rows_keys)

lemma trust_ok_dbTouchDevice [simp, keeps_ok]: "trust_ok (dbTouchDevice now email d db) = trust_ok db"
  by (simp add: dbTouchDevice_def)

lemma trust_ok_renameDevice [simp, keeps_ok]: "trust_ok (snd (renameDevice now email d name db)) = trust_ok db"
  by (simp add: renameDevice_def dbRenameDevice_def split: prod.splits)

lemma trust_ok_removeDevice [simp, intro, keeps_ok]: "trust_ok db \<Longrightarrow> trust_ok (removeDevice now email d db)"
  by (auto simp: removeDevice_def trust_ok_def dbRemoveDevice_def recordEvent_def)

lemma trust_ok_saveTOTPRecord [simp, intro, keeps_ok]: "trust_ok db \<Longrightarrow> trust_ok (saveTOTPRecord now rec db)"
  unfolding saveTOTPRecord_def
  by (auto simp: trust_ok_def recordEvent_def dbSaveTOTP_def fold_key_def eq_fold_def intro!: upsert_row_keys)

lemma trust_ok_dbDeleteTOTP [simp, intro, keeps_ok]: "trust_ok db \<Longrightarrow> trust_ok (dbDeleteTOTP email db)"
  by (auto simp: trust_ok_def dbDeleteTOTP_def)

lemma distinct_insert_code:
  "distinct (map (\<lambda>b. (fold_key bc_email b, bc_hash b)) rows) \<Longrightarrow>
   distinct (map (\<lambda>b. (fold_key bc_email b, bc_hash b)) (insert_code sha now email c rows))"
  by (auto simp: insert_code_def list_ex_iff same_code_def eq_fold_def fold_key_def)

lemma trust_ok_dbSaveBackupCodes [simp, intro, keeps_ok]:
  "trust_ok db \<Longrightarrow> trust_ok (dbSaveBackupCodes sha now email codes db)"
proof -
  have "distinct (map (\<lambda>b. (fold_key bc_email b, bc_hash b)) rows) \<Longrightarrow>
    distinct (map (\<lambda>b. (fold_key bc_email b, bc_hash b)) (fold (insert_code sha now email) codes rows))" for rows
    by (induction codes arbitrary: rows) (auto intro: distinct_insert_code)
  then show "trust_ok db \<Longrightarrow> ?thesis" by (auto simp: trust_ok_def dbSaveBackupCodes_def)
qed

lemma trust_ok_dbConsumeBackupCode [simp, intro, keeps_ok]:
  "trust_ok db \<Longrightarrow> trust_ok (snd (dbConsumeBackupCode sha email code db))"
  by (auto simp: trust_ok_def dbConsumeBackupCode_def)

lemma trust_ok_dbUpsertInvite [simp, intro, keeps_ok]: "trust_ok db \<Longrightarrow> trust_ok (dbUpsertInvite v db)"
  by (auto simp: trust_ok_def dbUpsertInvite_def fold_key_def eq_fold_def intro!: upsert_row_keys)

lemma trust_ok_dbConsumeInviteAtomic [simp, keeps_ok]: "trust_ok (snd (dbConsumeInviteAtomic h now db)) = trust_ok db"
  by (simp add: trust_ok_def dbConsumeInviteAtomic_def update_rows_keys fold_key_def)

lemma trust_ok_dbDeleteInvite [simp, intro, keeps_ok]: "trust_ok db \<Longrightarrow> trust_ok (snd (dbDeleteInvite email db))"
  by (auto simp: trust_ok_def dbDeleteInvite_def)

lemma trust_ok_dbCreateMagicLink [simp, intro, keeps_ok]:
  "trust_ok db \<Longrightarrow> trust_ok (snd (dbCreateMagicLink sha now mid tok host by' ttl acl db))"
  by (auto simp: trust_ok_def dbCreateMagicLink_def Let_def)

lemma trust_ok_dbRevokeMagicLink [simp, keeps_ok]: "trust_ok (snd (dbRevokeMagicLink now mid host db)) = trust_ok db"
  by (simp add: trust_ok_def dbRevokeMagicLink_def update_rows_keys)

lemma trust_ok_dbAddEndpointDeviceTrust [simp, intro, keeps_ok]:
  "trust_ok db \<Longrightarrow> trust_ok (snd (dbAddEndpointDeviceTrust now d host email acl db))"
  by (auto simp: trust_ok_def dbAddEndpointDeviceTrust_def scoped_for_def eq_fold_def fold_key_def)

lemma trust_ok_dbSetUserRole [simp, intro, keeps_ok]: "trust_ok db \<Longrightarrow> trust_ok (snd (dbSetUserRole now email role by' db))"
  by (auto simp: trust_ok_def dbSetUserRole_def Let_def fold_key_def eq_fold_def intro!: upsert_row_keys)

lemma trust_ok_dbDeleteUserRole [simp, intro, keeps_ok]: "trust_ok db \<Longrightarrow> trust_ok (dbDeleteUserRole email db)"
  by (auto simp: trust_ok_def dbDeleteUserRole_def Let_def)

lemma trust_ok_recordServerClaim [simp, keeps_ok]: "trust_ok (recordServerClaim now stamp email db) = trust_ok db"
  by (simp add: recordServerClaim_def)

end
