(* ===== verification/Gate_Origin.thy ===== *)
theory Gate_Origin
  imports Http_Request
begin

text \<open>
  Where the gate sends a browser back to (\<open>internal/daemon/mfa_gate.go\<close>): the stashed origin, its
  validation, and the redirect targets built from it; \<open>safeReturnTo\<close> of \<open>mfa_account.go\<close>. The
  validation parses the target with \<open>net/url\<close>, whose treatment of scheme, authority and host is
  modelled here as far as the result (scheme and \<open>u.Host\<close>) or an error depends on it.
\<close>

section \<open>net/url\<close>

definition code :: "char \<Rightarrow> nat" where "code c = of_char c"

definition is_alpha :: "char \<Rightarrow> bool" where
  "is_alpha c \<longleftrightarrow> (65 \<le> code c \<and> code c \<le> 90) \<or> (97 \<le> code c \<and> code c \<le> 122)"

definition is_digit :: "char \<Rightarrow> bool" where "is_digit c \<longleftrightarrow> 48 \<le> code c \<and> code c \<le> 57"

definition unhex :: "char \<Rightarrow> nat option" where
  "unhex c = (if is_digit c then Some (code c - 48)
              else if 97 \<le> code c \<and> code c \<le> 102 then Some (code c - 87)
              else if 65 \<le> code c \<and> code c \<le> 70 then Some (code c - 55) else None)"

definition is_ctl :: "char \<Rightarrow> bool" where "is_ctl c \<longleftrightarrow> code c < 32 \<or> code c = 127"

text \<open>\<open>getScheme\<close> from position \<open>length acc\<close>; \<open>None\<close> is the error of a missing scheme.\<close>

fun get_scheme :: "string \<Rightarrow> string \<Rightarrow> (string \<times> string) option" where
  "get_scheme acc [] = Some ([], acc)"
| "get_scheme acc (c # s) =
     (if is_alpha c then get_scheme (acc @ [c]) s
      else if is_digit c \<or> c = CHR ''+'' \<or> c = CHR ''-'' \<or> c = CHR ''.'' then
        (if acc = [] then Some ([], c # s) else get_scheme (acc @ [c]) s)
      else if c = CHR '':'' then (if acc = [] then None else Some (acc, s))
      else Some ([], acc @ c # s))"

text \<open>Percent-decoding of a path or a fragment: only whether it fails matters here.\<close>

fun percent_ok :: "string \<Rightarrow> bool" where
  "percent_ok [] = True"
| "percent_ok (c # s) =
     (if c = CHR ''%'' then
        (case s of a # b # t \<Rightarrow> unhex a \<noteq> None \<and> unhex b \<noteq> None \<and> percent_ok t | _ \<Rightarrow> False)
      else percent_ok s)"

text \<open>\<open>shouldEscape(c, encodeHost)\<close> for a byte below 128.\<close>

definition host_char :: "char \<Rightarrow> bool" where
  "host_char c \<longleftrightarrow> is_alpha c \<or> is_digit c \<or> c \<in> set ''-_.~!$&()*+,;=:[]<>'' \<or> c = CHR 0x27 \<or> c = CHR 0x22"

text \<open>\<open>unescape(host, encodeHost)\<close>, and with \<open>zone\<close> \<open>unescape(host, encodeZone)\<close>, which allows more
  escapes.\<close>

fun unescape_host :: "bool \<Rightarrow> string \<Rightarrow> string option" where
  "unescape_host z [] = Some []"
| "unescape_host z (c # s) =
     (if c = CHR ''%'' then
        (case s of
           a # b # t \<Rightarrow>
             (case (unhex a, unhex b) of
                (Some x, Some y) \<Rightarrow>
                  (if \<not> (x = 2 \<and> y = 5) \<and>
                     (if z then x * 16 + y \<noteq> 32 \<and> \<not> host_char (char_of (x * 16 + y)) else x < 8) then None
                   else (case unescape_host z t of None \<Rightarrow> None | Some d \<Rightarrow> Some (char_of (x * 16 + y) # d)))
              | _ \<Rightarrow> None)
         | _ \<Rightarrow> None)
      else if code c < 128 \<and> \<not> host_char c then None
      else (case unescape_host z s of None \<Rightarrow> None | Some d \<Rightarrow> Some (c # d)))"

definition validOptionalPort :: "string \<Rightarrow> bool" where
  "validOptionalPort p \<longleftrightarrow> p = [] \<or> (hd p = CHR '':'' \<and> list_all is_digit (tl p))"

text \<open>Splitting before the last occurrence of a byte.\<close>

definition split_last :: "char \<Rightarrow> string \<Rightarrow> (string \<times> string) option" where
  "split_last c s =
     (if c \<in> set s then Some (rev (tl (dropWhile (\<lambda>x. x \<noteq> c) (rev s))), rev (takeWhile (\<lambda>x. x \<noteq> c) (rev s)))
      else None)"

text \<open>The position of \<open>%25\<close>.\<close>

fun find_zone :: "string \<Rightarrow> nat option" where
  "find_zone [] = None"
| "find_zone (c # s) = (if take 3 (c # s) = ''%25'' then Some 0 else map_option Suc (find_zone s))"

definition parse_host :: "string \<Rightarrow> string option" where
  "parse_host host =
     (if prefix ''['' host then
        (case split_last CHR '']'' host of
           None \<Rightarrow> None
         | Some (a, colonPort) \<Rightarrow>
             if \<not> validOptionalPort colonPort then None
             else case find_zone a of
               None \<Rightarrow> unescape_host False host
             | Some i \<Rightarrow>
                 (case (unescape_host False (take i a), unescape_host True (drop i a), unescape_host False ('']'' @ colonPort)) of
                    (Some x, Some y, Some w) \<Rightarrow> Some (x @ y @ w)
                  | _ \<Rightarrow> None))
      else
        case split_last CHR '':'' host of
          None \<Rightarrow> unescape_host False host
        | Some (a, p) \<Rightarrow> if \<not> validOptionalPort ('':'' @ p) then None else unescape_host False host)"

definition user_char :: "char \<Rightarrow> bool" where
  "user_char c \<longleftrightarrow> is_alpha c \<or> is_digit c \<or> c \<in> set ''-._:~!$&()*+,;=%@'' \<or> c = CHR 0x27"

definition parse_authority :: "string \<Rightarrow> string option" where
  "parse_authority authority =
     (case split_last CHR ''@'' authority of
        None \<Rightarrow> parse_host authority
      | Some (userinfo, h) \<Rightarrow>
          (case parse_host h of
             None \<Rightarrow> None
           | Some host \<Rightarrow> if list_all user_char userinfo \<and> percent_ok userinfo then Some host else None))"

text \<open>\<open>url.Parse\<close>: the scheme in lower case and the host with its port, or \<open>None\<close> for an error.\<close>

definition url_parse :: "string \<Rightarrow> (string \<times> string) option" where
  "url_parse raw =
     (case cut_at CHR ''#'' raw of (u, frag, _) \<Rightarrow>
        if list_ex is_ctl u then None
        else if \<not> percent_ok frag then None
        else if u = ''*'' then Some ([], [])
        else case get_scheme [] u of
          None \<Rightarrow> None
        | Some (scheme0, rest0) \<Rightarrow>
            let scheme = to_lower scheme0; rest = fst (cut_at CHR ''?'' rest0) in
            if \<not> prefix ''/'' rest \<and> scheme \<noteq> [] then Some (scheme, [])
            else if \<not> prefix ''/'' rest \<and> CHR '':'' \<in> set (fst (cut_at CHR ''/'' rest)) then None
            else if (scheme \<noteq> [] \<or> \<not> prefix ''///'' rest) \<and> prefix ''//'' rest then
              (let authority = takeWhile (\<lambda>c. c \<noteq> CHR ''/'') (drop 2 rest);
                   path = dropWhile (\<lambda>c. c \<noteq> CHR ''/'') (drop 2 rest)
               in case parse_authority authority of
                    None \<Rightarrow> None
                  | Some host \<Rightarrow> if percent_ok path then Some (scheme, host) else None)
            else if percent_ok rest then Some (scheme, []) else None)"

text \<open>\<open>u.Hostname()\<close>.\<close>

definition hostname :: "string \<Rightarrow> string" where
  "hostname hp =
     (let host = (case split_last CHR '':'' hp of
                    Some (a, p) \<Rightarrow> if validOptionalPort ('':'' @ p) then a else hp | None \<Rightarrow> hp)
      in if prefix ''['' host \<and> suffix '']'' host \<and> 2 \<le> length host then butlast (tl host) else host)"

section \<open>Targets of a redirect\<close>

definition gateOriginCookie :: string where "gateOriginCookie = ''_bailey_origin''"

definition safeOriginTarget :: "string \<Rightarrow> string \<Rightarrow> string" where
  "safeOriginTarget d target =
     (let fallback = (if d \<noteq> [] then ''https://'' @ serverConsoleHost d @ ''/'' else ''/'') in
      if target = [] then fallback
      else if hd target = CHR ''/'' then
        (if prefix ''//'' target \<or> prefix [CHR ''/'', CHR 0x5C] target then fallback else target)
      else case url_parse target of
          None \<Rightarrow> fallback
        | Some (scheme, host) \<Rightarrow>
            if scheme \<noteq> ''https'' \<or> host = [] then fallback
            else
              let h = to_lower (hostname host); d' = to_lower d in
              if d' = [] \<or> (h \<noteq> d' \<and> \<not> suffix (''.'' @ d') h) then fallback
              else if eq_fold h (serverConsoleOnboardHost d) then fallback
              else target)"

definition originTarget :: "string \<Rightarrow> http_req \<Rightarrow> string" where
  "originTarget d r =
     (let target = safeOriginTarget d (cookie r gateOriginCookie) in
      if onOnboardHost d r \<and> prefix ''/'' target \<and> d \<noteq> []
      then ''https://'' @ serverConsoleHost d @ target else target)"

definition originRedirectPath :: "string \<Rightarrow> http_req \<Rightarrow> string" where
  "originRedirectPath d r = safeOriginTarget d (cookie r gateOriginCookie)"

text \<open>The scheme and host a request was made to, and the URL that is stashed for it.\<close>

definition originForHost :: "http_req \<Rightarrow> string" where
  "originForHost r =
     (if \<not> hr_tls r \<and> hr_header r ''X-Forwarded-Proto'' \<noteq> ''https'' then ''http'' else ''https'') @ ''://'' @ requestEndpointHost r"

definition rememberOrigin :: "http_req \<Rightarrow> string \<times> string" where
  "rememberOrigin r =
     (gateOriginCookie,
      originForHost r @ hr_path r @ (if hr_rawquery r \<noteq> [] then ''?'' @ hr_rawquery r else []))"

definition originHostFromRequest :: "string \<Rightarrow> http_req \<Rightarrow> string" where
  "originHostFromRequest d r =
     (if cookie r gateOriginCookie = [] then []
      else
        let target = safeOriginTarget d (cookie r gateOriginCookie) in
        if \<not> prefix ''https://'' target then []
        else case url_parse target of None \<Rightarrow> [] | Some (_, host) \<Rightarrow> hostname host)"

definition redirectAfterClaim :: "string \<Rightarrow> http_req \<Rightarrow> string" where
  "redirectAfterClaim d r =
     (let ret = trim_space (hr_query r ''return'') in
      if ret \<noteq> [] then safeOriginTarget d ret else originTarget d r)"

definition onboardSPARoot :: "string \<Rightarrow> string" where
  "onboardSPARoot d = (if d = [] then ''/'' else ''https://'' @ serverConsoleOnboardHost d @ ''/'')"

definition onboardDeviceGrantURL :: "string \<Rightarrow> string" where
  "onboardDeviceGrantURL d =
     (if d = [] then ''/'' else ''https://'' @ serverConsoleOnboardHost d @ ''/2fa-gate/api/device-grant'')"

definition safeReturnTo :: "string \<Rightarrow> string \<Rightarrow> string" where
  "safeReturnTo candidate0 fallback =
     (let candidate = trim_space candidate0 in
      if candidate = [] then fallback
      else if \<not> prefix ''/'' candidate \<or> prefix ''//'' candidate then fallback
      else candidate)"

section \<open>What a parsed host says about the text\<close>

definition domain_name :: "string \<Rightarrow> bool" where
  "domain_name d \<longleftrightarrow> d \<noteq> [] \<and> hd d \<noteq> CHR ''.'' \<and>
     list_all (\<lambda>c. is_alpha c \<or> is_digit c \<or> c = CHR ''-'' \<or> c = CHR ''.'') d"

text \<open>\<open>within d host\<close>: the host is the domain or below it.\<close>

definition within :: "string \<Rightarrow> string \<Rightarrow> bool" where
  "within d host \<longleftrightarrow> (\<exists>p q. host = p @ q \<and> eq_fold q d \<and> (p = [] \<or> last p = CHR ''.''))"

definition path_target :: "string \<Rightarrow> bool" where
  "path_target t \<longleftrightarrow> (\<exists>s. t = CHR ''/'' # s \<and> (s = [] \<or> (hd s \<noteq> CHR ''/'' \<and> hd s \<noteq> CHR 0x5C)))"

text \<open>An absolute https URL as text: user information without delimiters, a host of the domain that
  is not the onboarding host (or a bracketed literal), a port, and what follows the authority.\<close>

definition https_site :: "string \<Rightarrow> string \<Rightarrow> bool" where
  "https_site d t \<longleftrightarrow>
     (\<exists>scheme user host port rest.
        t = scheme @ ''://'' @ user @ host @ port @ rest \<and> eq_fold scheme ''https'' \<and>
        (user = [] \<or> last user = CHR ''@'' \<and> list_all user_char (butlast user)) \<and>
        (prefix ''['' host \<or>
         list_all (\<lambda>c. host_char c \<or> c = CHR ''%'' \<or> 128 \<le> code c) host \<and> within d host \<and>
         \<not> eq_fold host (serverConsoleOnboardHost d)) \<and>
        validOptionalPort port \<and>
        (rest = [] \<or> hd rest \<in> set ''/?#''))"

lemma get_scheme_split: "get_scheme acc s = Some (sc, rest) \<Longrightarrow> sc \<noteq> [] \<Longrightarrow> acc @ s = sc @ CHR '':'' # rest"
  by (induction acc s rule: get_scheme.induct) (auto split: if_splits)

lemma split_last_Some: "split_last c s = Some (a, b) \<Longrightarrow> s = a @ c # b \<and> c \<notin> set b"
proof -
  assume "split_last c s = Some (a, b)"
  then have c: "c \<in> set s" and a: "a = rev (tl (dropWhile (\<lambda>x. x \<noteq> c) (rev s)))" and b: "b = rev (takeWhile (\<lambda>x. x \<noteq> c) (rev s))"
    by (auto simp: split_last_def split: if_splits)
  obtain z where d: "dropWhile (\<lambda>x. x \<noteq> c) (rev s) = c # z"
    using c by (cases "dropWhile (\<lambda>x. x \<noteq> c) (rev s)") (auto simp: dropWhile_eq_Nil_conv dest: hd_dropWhile [THEN notnotD, rotated] dropWhile_eq_Cons_conv [THEN iffD1])
  have "rev s = takeWhile (\<lambda>x. x \<noteq> c) (rev s) @ c # z"
    using takeWhile_dropWhile_id [of "\<lambda>x. x \<noteq> c" "rev s"] by (simp add: d)
  then have "s = rev z @ c # rev (takeWhile (\<lambda>x. x \<noteq> c) (rev s))"
    by (metis (no_types) append.assoc append_Cons append_Nil rev.simps(2) rev_append rev_rev_ident)
  moreover have "c \<notin> set b" using b by (auto dest: set_takeWhileD)
  ultimately show ?thesis using a b by (simp add: d)
qed

lemma split_last_None: "split_last c s = None \<Longrightarrow> c \<notin> set s"
  by (simp add: split_last_def split: if_splits)

lemma split_last_append: "c \<notin> set b \<Longrightarrow> split_last c (a @ c # b) = Some (a, b)"
proof -
  assume c: "c \<notin> set b"
  then have "takeWhile (\<lambda>x. x \<noteq> c) (rev b @ c # rev a) = rev b" "dropWhile (\<lambda>x. x \<noteq> c) (rev b @ c # rev a) = c # rev a"
    by (induction b rule: rev_induct) auto
  then show ?thesis by (simp add: split_last_def)
qed

lemma unhex_less: "unhex c = Some x \<Longrightarrow> x < 16"
  by (auto simp: unhex_def is_digit_def split: if_splits)

lemma unhex_host_char: "unhex c = Some x \<Longrightarrow> host_char c"
  by (auto simp: unhex_def host_char_def is_alpha_def split: if_splits)

lemma code_char_of: "n < 256 \<Longrightarrow> code (char_of n) = n"
  by (simp add: code_def)

text \<open>What an escape in a host decodes to is never an ASCII character other than the percent sign.\<close>

lemma unescape_step:
  assumes "unescape_host False (c # s) = Some b"
  obtains (escape) x y t v b' where "c = CHR ''%''" "s = x # y # t" "b = v # b'" "unescape_host False t = Some b'"
      "128 \<le> code v \<or> v = CHR ''%''" "unhex x \<noteq> None" "unhex y \<noteq> None"
  | (plain) b' where "c \<noteq> CHR ''%''" "b = c # b'" "unescape_host False s = Some b'" "host_char c \<or> 128 \<le> code c"
proof (cases "c = CHR ''%''")
  case True
  then obtain x y t where s: "s = x # y # t" using assms by (auto split: list.splits)
  obtain i j where h: "unhex x = Some i" "unhex y = Some j" using assms True s by (auto split: option.splits)
  obtain b' where b: "unescape_host False t = Some b'" "b = char_of (i * 16 + j) # b'"
    and ok: "(i = 2 \<and> j = 5) \<or> 8 \<le> i"
    using assms True s h by (auto split: option.splits if_splits)
  have l: "i < 16" "j < 16" using h unhex_less by auto
  have "128 \<le> code (char_of (i * 16 + j)) \<or> char_of (i * 16 + j) = CHR ''%''"
  proof (cases "8 \<le> i")
    case True
    then show ?thesis using l by (simp add: code_char_of)
  next
    case False
    then have "i * 16 + j = 37" using ok by simp
    then show ?thesis by (simp only:) code_simp
  qed
  then show ?thesis using escape True s b h by blast
next
  case False
  then show ?thesis using plain assms by (auto split: option.splits if_splits)
qed

lemma unescape_plain_step:
  "c \<noteq> CHR ''%'' \<Longrightarrow> host_char c \<or> 128 \<le> code c \<Longrightarrow>
   unescape_host False (c # s) = map_option (Cons c) (unescape_host False s)"
  by (auto split: option.splits)

lemma unescape_escape_step:
  "unescape_host False (CHR ''%'' # x # y # t) = Some (v # b) \<Longrightarrow> unescape_host False t' = Some b' \<Longrightarrow>
   unescape_host False (CHR ''%'' # x # y # t') = Some (v # b')"
  by (auto split: option.splits if_splits)

declare unescape_host.simps(2) [simp del]

lemma unescape_chars:
  "unescape_host False s = Some b \<Longrightarrow> list_all (\<lambda>c. host_char c \<or> c = CHR ''%'' \<or> 128 \<le> code c) s"
proof (induction s arbitrary: b rule: length_induct)
  case (1 s)
  show ?case
  proof (cases s)
    case (Cons c s')
    have "unescape_host False (c # s') = Some b" using 1 Cons by (simp del: unescape_host.simps)
    then show ?thesis
      by (cases rule: unescape_step) (use 1(1) Cons unhex_host_char in \<open>auto simp del: unescape_host.simps\<close>)
  qed simp
qed

lemma unescape_Nil: "unescape_host False s = Some [] \<Longrightarrow> s = []"
proof (cases s)
  case (Cons c s')
  assume "unescape_host False s = Some []"
  then have "unescape_host False (c # s') = Some []" by (simp only: Cons)
  then show ?thesis by (cases rule: unescape_step) auto
qed simp

lemma unescape_suffix:
  "unescape_host False s = Some (x @ y) \<Longrightarrow> list_all (\<lambda>c. code c < 128 \<and> c \<noteq> CHR ''%'') y \<Longrightarrow>
   \<exists>x'. s = x' @ y \<and> unescape_host False x' = Some x"
proof (induction s arbitrary: x y rule: length_induct)
  case (1 s)
  show ?case
  proof (cases s)
    case Nil
    then show ?thesis using 1 by auto
  next
    case (Cons c s')
    have "unescape_host False (c # s') = Some (x @ y)" using 1 Cons by simp
    then show ?thesis
    proof (cases rule: unescape_step)
      case (escape a b t v b')
      have x: "x \<noteq> []" using escape 1(3) by (cases y) auto
      then have xs: "x = v # tl x" "b' = tl x @ y" using escape by (cases x; auto)+
      have "length t < length s" using Cons escape by simp
      then obtain x' where x': "t = x' @ y" "unescape_host False x' = Some (tl x)"
        using 1(1,3) escape(4) xs(2) by blast
      have "unescape_host False (c # a # b # x') = Some (v # tl x)"
        using \<open>unescape_host False (c # s') = Some (x @ y)\<close> unescape_escape_step [OF _ x'(2)] xs(1) escape(1,2,3) by simp
      then have "unescape_host False (c # a # b # x') = Some x" using xs(1) by simp
      then show ?thesis using Cons escape x' by (intro exI [of _ "c # a # b # x'"]) simp
    next
      case (plain b')
      have l: "length s' < length s" using Cons by simp
      show ?thesis
      proof (cases x)
        case Nil
        then obtain y' where y: "y = c # y'" "b' = [] @ y'" using plain by (cases y) auto
        then have "list_all (\<lambda>c. code c < 128 \<and> c \<noteq> CHR ''%'') y'" using 1(3) by simp
        then obtain x' where x': "s' = x' @ y'" "unescape_host False x' = Some []"
          using 1(1) l plain(3) y(2) by blast
        have "s = [] @ y" using x' y(1) unescape_Nil [OF x'(2)] \<open>s = c # s'\<close> by simp
        then show ?thesis using Nil by (intro exI [of _ "[]"]) simp
      next
        case (Cons x0 xs)
        then have "b' = xs @ y" "x0 = c" using plain by auto
        then obtain x' where "s' = x' @ y" "unescape_host False x' = Some xs" using 1(1,3) l plain(3) by blast
        then have "s = (c # x') @ y" "unescape_host False (c # x') = Some x"
          using \<open>s = c # s'\<close> Cons \<open>x0 = c\<close> unescape_plain_step [OF plain(1,4)] by simp_all
        then show ?thesis by blast
      qed
    qed
  qed
qed

lemma unescape_plain: "CHR ''%'' \<notin> set s \<Longrightarrow> unescape_host False s = Some b \<Longrightarrow> b = s"
proof (induction s arbitrary: b)
  case (Cons c s)
  from Cons.prems(2) show ?case by (cases rule: unescape_step) (use Cons in auto)
qed simp

lemma unescape_keeps_colon:
  "unescape_host False s = Some b \<Longrightarrow> CHR '':'' \<in> set b \<Longrightarrow> CHR '':'' \<in> set s"
proof (induction s arbitrary: b rule: length_induct)
  case (1 s)
  show ?case
  proof (cases s)
    case Nil
    then show ?thesis using 1 by simp
  next
    case (Cons c s')
    then have "unescape_host False (c # s') = Some b" using 1 by simp
    then show ?thesis
    proof (cases rule: unescape_step)
      case (escape x y t v b')
      moreover have "v \<noteq> CHR '':''" using escape(5) by (auto simp: code_def)
      ultimately show ?thesis using 1 Cons by auto
    next
      case (plain b')
      then show ?thesis using 1 Cons by auto
    qed
  qed
qed

lemma unescape_at_colon:
  "unescape_host False (a @ CHR '':'' # p) = Some w \<Longrightarrow>
   \<exists>b w'. unescape_host False a = Some b \<and> unescape_host False p = Some w' \<and> w = b @ CHR '':'' # w'"
proof (induction a arbitrary: w rule: length_induct)
  case (1 a)
  show ?case
  proof (cases a)
    case Nil
    then have "unescape_host False (CHR '':'' # p) = Some w" using 1(2) by simp
    then show ?thesis by (cases rule: unescape_step) (use Nil in auto)
  next
    case (Cons c a')
    then have "unescape_host False (c # (a' @ CHR '':'' # p)) = Some w" using 1(2) by simp
    then show ?thesis
    proof (cases rule: unescape_step)
      case (escape x y t v b')
      have hc: "unhex CHR '':'' = None" by code_simp
      obtain a'' where a': "a' = x # y # a''" and t: "t = a'' @ CHR '':'' # p"
        using escape(2,6,7) hc by (cases a'; cases "tl a'") auto
      then obtain b w' where b: "unescape_host False a'' = Some b" "unescape_host False p = Some w'" "b' = b @ CHR '':'' # w'"
        using 1(1) Cons escape(4) by (metis length_Cons less_Suc_eq less_SucI)
      have "unescape_host False (CHR ''%'' # x # y # a'') = Some (v # b)"
        using unescape_escape_step [OF _ b(1)] escape(1,2,3) \<open>unescape_host False (c # (a' @ CHR '':'' # p)) = Some w\<close> by simp
      then show ?thesis using b escape Cons a' by auto
    next
      case (plain b')
      then obtain b w' where b: "unescape_host False a' = Some b" "unescape_host False p = Some w'" "b' = b @ CHR '':'' # w'"
        using 1(1) Cons by (metis length_Cons less_Suc_eq)
      then show ?thesis using plain Cons unescape_plain_step [OF plain(1,4)] by auto
    qed
  qed
qed

lemma unescape_no_bracket:
  "\<not> prefix ''['' a \<Longrightarrow> unescape_host False a = Some b \<Longrightarrow> \<not> prefix ''['' b"
proof (cases a)
  case (Cons c s)
  assume n: "\<not> prefix ''['' a" and u: "unescape_host False a = Some b"
  have "unescape_host False (c # s) = Some b" using u Cons by simp
  then show ?thesis
    by (cases rule: unescape_step) (use n Cons in \<open>auto simp: code_def\<close>)
qed simp

lemma lower_char_plain: "\<not> is_alpha c \<Longrightarrow> lower_char c = c"
  by (auto simp: lower_char_def is_alpha_def code_def Let_def)

lemma lower_char_alpha: "is_alpha c \<Longrightarrow> is_alpha (lower_char c)"
proof -
  assume "is_alpha c"
  then show ?thesis by (auto simp: lower_char_def is_alpha_def code_def Let_def)
qed

lemma lower_char_dot: "lower_char c = CHR ''.'' \<Longrightarrow> c = CHR ''.''"
proof (cases "is_alpha c")
  case True
  assume "lower_char c = CHR ''.''"
  then show ?thesis using lower_char_alpha [OF True] by (simp add: is_alpha_def code_def)
qed (simp add: lower_char_plain)

definition domain_char :: "char \<Rightarrow> bool" where
  "domain_char c \<longleftrightarrow> is_alpha c \<or> is_digit c \<or> c = CHR ''-'' \<or> c = CHR ''.''"

lemma domain_char_lower: "domain_char (lower_char c) \<Longrightarrow> domain_char c"
proof (cases "is_alpha c")
  case False
  then show "domain_char (lower_char c) \<Longrightarrow> domain_char c" by (simp add: lower_char_plain)
qed (simp add: domain_char_def)

lemma domain_char_lower': "domain_char c \<Longrightarrow> domain_char (lower_char c)"
  by (cases "is_alpha c") (auto simp: lower_char_plain lower_char_alpha domain_char_def)

lemma domain_char_ascii: "domain_char c \<Longrightarrow> code c < 128 \<and> c \<noteq> CHR ''%''"
  by (auto simp: domain_char_def is_alpha_def is_digit_def code_def)

lemma eq_fold_domain_chars: "eq_fold q d \<Longrightarrow> list_all domain_char d \<Longrightarrow> list_all domain_char q"
proof -
  assume e: "eq_fold q d" and d: "list_all domain_char d"
  have "list_all domain_char (map lower_char d)" using d domain_char_lower' by (simp add: list_all_iff)
  then have "list_all domain_char (map lower_char q)" using e by (simp add: eq_fold_def to_lower_def)
  then show ?thesis using domain_char_lower by (simp add: list_all_iff)
qed

lemma domain_name_chars: "domain_name d \<Longrightarrow> list_all domain_char d"
  by (simp add: domain_name_def domain_char_def [abs_def])

lemma onboard_host:
  assumes "domain_name d"
  shows "serverConsoleOnboardHost d = ''bailey-onboard.'' @ d" "serverConsoleHost d = ''bailey.'' @ d"
proof -
  have "\<not> prefix ''.'' d" using assms by (cases d) (auto simp: domain_name_def)
  then have "trim_prefix ''.'' d = d" by (simp add: trim_prefix_def)
  then show "serverConsoleOnboardHost d = ''bailey-onboard.'' @ d" "serverConsoleHost d = ''bailey.'' @ d"
    by (simp_all add: serverConsoleOnboardHost_def serverConsoleHost_def)
qed

lemma onboard_chars: "domain_name d \<Longrightarrow> list_all domain_char (serverConsoleOnboardHost d)"
  using domain_name_chars by (simp add: onboard_host domain_char_def is_alpha_def is_digit_def code_def)

lemma within_lower:
  assumes "to_lower b = to_lower d \<or> suffix (''.'' @ to_lower d) (to_lower b)"
  shows "within d b"
  using assms
proof
  assume "to_lower b = to_lower d"
  then show ?thesis unfolding within_def by (intro exI [of _ "[]"] exI [of _ b]) (simp add: eq_fold_def)
next
  assume "suffix (''.'' @ to_lower d) (to_lower b)"
  then obtain z where z: "map lower_char b = z @ CHR ''.'' # to_lower d" by (auto simp: suffix_def to_lower_def)
  then obtain x y where b: "b = x @ y" "map lower_char x = z" "map lower_char y = CHR ''.'' # to_lower d"
    by (auto simp: map_eq_append_conv)
  then obtain c q where y: "y = c # q" "lower_char c = CHR ''.''" "map lower_char q = to_lower d" by auto
  then have "b = (x @ [CHR ''.'']) @ q \<and> eq_fold q d" using b lower_char_dot by (simp add: eq_fold_def to_lower_def)
  then show ?thesis unfolding within_def by (intro exI [of _ "x @ [CHR ''.'']"] exI [of _ q]) simp
qed

lemma within_raw:
  assumes u: "unescape_host False a = Some b" and w: "within d b" and d: "domain_name d"
  shows "within d a"
proof -
  obtain p q where b: "b = p @ q" and q: "eq_fold q d" and p: "p = [] \<or> last p = CHR ''.''"
    using w by (auto simp: within_def)
  have qc: "list_all (\<lambda>c. code c < 128 \<and> c \<noteq> CHR ''%'') q"
    using eq_fold_domain_chars [OF q domain_name_chars [OF d]] domain_char_ascii by (simp add: list_all_iff)
  show ?thesis
  proof (cases "p = []")
    case True
    then obtain a' where "a = a' @ q" "unescape_host False a' = Some []" using unescape_suffix [of a "[]" q] u b qc by auto
    then have "a = [] @ q" using unescape_Nil by auto
    then show ?thesis unfolding within_def using q by blast
  next
    case False
    then have "p = butlast p @ [CHR ''.'']" using p append_butlast_last_id [of p] by simp
    then have "b = butlast p @ (CHR ''.'' # q)" using b by (metis append_Cons append_Nil append_assoc)
    moreover have "list_all (\<lambda>c. code c < 128 \<and> c \<noteq> CHR ''%'') (CHR ''.'' # q)" using qc by (simp add: code_def)
    ultimately obtain a' where "a = a' @ (CHR ''.'' # q)" using unescape_suffix u by blast
    then have "a = (a' @ [CHR ''.'']) @ q" by simp
    then show ?thesis unfolding within_def using q by (intro exI [of _ "a' @ [CHR ''.'']"] exI [of _ q]) simp
  qed
qed

lemma not_onboard_raw:
  assumes u: "unescape_host False a = Some b" and d: "domain_name d"
    and n: "\<not> eq_fold (to_lower b) (serverConsoleOnboardHost d)"
  shows "\<not> eq_fold a (serverConsoleOnboardHost d)"
proof
  assume e: "eq_fold a (serverConsoleOnboardHost d)"
  then have "list_all domain_char a" by (rule eq_fold_domain_chars [OF _ onboard_chars [OF d]])
  then have "CHR ''%'' \<notin> set a" using domain_char_ascii by (auto simp: list_all_iff)
  then have "b = a" using u by (rule unescape_plain)
  then show False using n e by (simp add: eq_fold_def)
qed

lemma parse_host_site:
  assumes ph: "parse_host h = Some host" and d: "domain_name d"
    and w: "to_lower (hostname host) = to_lower d \<or> suffix (''.'' @ to_lower d) (to_lower (hostname host))"
    and n: "\<not> eq_fold (to_lower (hostname host)) (serverConsoleOnboardHost d)"
    and nb: "\<not> prefix ''['' h"
  shows "\<exists>a port. h = a @ port \<and> validOptionalPort port \<and>
    list_all (\<lambda>c. host_char c \<or> c = CHR ''%'' \<or> 128 \<le> code c) a \<and> within d a \<and> \<not> eq_fold a (serverConsoleOnboardHost d)"
proof -
  have fin: ?thesis if h: "h = a @ port" and p: "validOptionalPort port" and u: "unescape_host False a = Some b"
      and hn: "hostname host = b" for a port b
    using h p unescape_chars [OF u] within_raw [OF u within_lower d] not_onboard_raw [OF u d] w n hn by blast
  show ?thesis
  proof (cases "split_last CHR '':'' h")
    case None
    then have nc: "CHR '':'' \<notin> set h" by (rule split_last_None)
    have u: "unescape_host False h = Some host" using ph nb None by (simp add: parse_host_def)
    have "CHR '':'' \<notin> set host" using unescape_keeps_colon [OF u] nc by blast
    then have "split_last CHR '':'' host = None" by (simp add: split_last_def)
    then have "hostname host = host" using unescape_no_bracket [OF nb u] by (simp add: hostname_def)
    then show ?thesis using fin [of h "[]" host] u by (simp add: validOptionalPort_def)
  next
    case (Some ap)
    obtain a p where ap: "ap = (a, p)" by (cases ap)
    have h: "h = a @ CHR '':'' # p" using split_last_Some Some ap by blast
    have v: "validOptionalPort ('':'' @ p)" and u: "unescape_host False h = Some host"
      using ph nb Some ap by (auto simp: parse_host_def split: if_splits)
    obtain b w' where b: "unescape_host False a = Some b" "unescape_host False p = Some w'" "host = b @ CHR '':'' # w'"
      using unescape_at_colon u h by blast
    have dg: "list_all is_digit p" using v by (simp add: validOptionalPort_def)
    then have "CHR ''%'' \<notin> set p" "CHR '':'' \<notin> set p" by (auto simp: list_all_iff is_digit_def code_def)
    then have w': "w' = p" and "split_last CHR '':'' host = Some (b, p)"
      using unescape_plain [OF _ b(2)] split_last_append b(3) by auto
    moreover have "\<not> prefix ''['' b"
      using unescape_no_bracket [OF _ b(1)] nb h by (cases a) (auto dest: prefix_order.trans)
    ultimately have "hostname host = b" using v by (simp add: hostname_def)
    then show ?thesis using fin [of a "'':'' @ p" b] h v b(1) by simp
  qed
qed

lemma user_at: "split_last CHR ''@'' s = Some (u, h) \<Longrightarrow> s = (u @ ''@'') @ h"
  using split_last_Some [of "CHR ''@''" s u h] by simp

lemma cut_at_rest: "fst (cut_at c s) = t \<Longrightarrow> \<exists>r. s = t @ r \<and> (r = [] \<or> hd r = c) \<and> c \<notin> set t"
  by (cases rule: cut_at_cases [of s c]) auto

lemma url_parse_https:
  assumes "url_parse raw = Some (''https'', host)" "host \<noteq> []"
  shows "\<exists>scheme authority rest. raw = scheme @ ''://'' @ authority @ rest \<and> eq_fold scheme ''https'' \<and>
    parse_authority authority = Some host \<and> (rest = [] \<or> hd rest \<in> set ''/?#'')"
proof -
  obtain u frag fl where c: "cut_at CHR ''#'' raw = (u, frag, fl)" by (cases "cut_at CHR ''#'' raw") auto
  obtain tail where t: "raw = u @ tail" "tail = [] \<or> hd tail = CHR ''#''"
    using cut_at_rest [of "CHR ''#''" raw u] c by auto
  obtain scheme rest0 where g: "get_scheme [] u = Some (scheme, rest0)" and us: "u \<noteq> ''*''"
    using assms by (auto simp: url_parse_def c split: if_splits option.splits)
  define rest where "rest = fst (cut_at CHR ''?'' rest0)"
  obtain tail2 where t2: "rest0 = rest @ tail2" "tail2 = [] \<or> hd tail2 = CHR ''?''"
    using cut_at_rest [of "CHR ''?''" rest0 rest] rest_def by auto
  define authority where "authority = takeWhile (\<lambda>c. c \<noteq> CHR ''/'') (drop 2 rest)"
  define path where "path = dropWhile (\<lambda>c. c \<noteq> CHR ''/'') (drop 2 rest)"
  have *: "to_lower scheme = ''https''" "prefix ''//'' rest" "parse_authority authority = Some host"
    using assms g us
    by (auto simp: url_parse_def c rest_def [symmetric] authority_def path_def Let_def split: if_splits option.splits)
  have "u = scheme @ CHR '':'' # rest0" using get_scheme_split [OF g] *(1) by (cases scheme) auto
  moreover have "rest = ''//'' @ authority @ path"
    using *(2) by (auto simp: authority_def path_def prefix_def)
  ultimately have "raw = scheme @ ''://'' @ authority @ (path @ tail2 @ tail)" using t(1) t2(1) by simp
  moreover have "path = [] \<or> hd path = CHR ''/''"
    using hd_dropWhile [of "\<lambda>c. c \<noteq> CHR ''/''" "drop 2 rest"] by (auto simp: path_def)
  then have "path @ tail2 @ tail = [] \<or> hd (path @ tail2 @ tail) \<in> set ''/?#''"
    using t(2) t2(2) by (cases path; cases tail2) auto
  moreover have "to_lower ''https'' = ''https''" by code_simp
  then have "eq_fold scheme ''https''" using *(1) by (simp add: eq_fold_def)
  ultimately show ?thesis using *(3) by blast
qed



text \<open>Browsers drop tabs from a URL before they read it, so a path with a tab between two slashes
  leaves the site; \<open>safeReturnTo\<close> also lets a backslash through, which browsers read as a slash.\<close>

lemma tab_escapes:
  "safeOriginTarget d ([CHR ''/'', CHR 0x09] @ ''/evil.example/'') = [CHR ''/'', CHR 0x09] @ ''/evil.example/'' \<and>
   filter (\<lambda>c. c \<noteq> CHR 0x09) ([CHR ''/'', CHR 0x09] @ ''/evil.example/'') = ''//evil.example/''"
  by (simp add: safeOriginTarget_def)

lemma backslash_escapes_return_to:
  "safeReturnTo ([CHR ''/'', CHR 0x5C] @ ''evil.example/'') f = [CHR ''/'', CHR 0x5C] @ ''evil.example/''"
  by (simp add: safeReturnTo_def trim_space_def trim_right_def is_space_def)

end
