(* ===== verification/Gate_Base.thy ===== *)
theory Gate_Base
  imports Trust_Store Gate_Origin
begin

text \<open>
  What the handlers of the device-trust gate share: the context of a request, the daemon's state,
  the responses, the throttle around a code check and the step that trusts a new device
  (\<open>internal/daemon\<close>: \<open>mfa_pair.go\<close>, \<open>mfa_devices.go\<close>, \<open>mfa_throttle.go\<close>, \<open>bailey_gate_api.go\<close>,
  \<open>bailey_people.go\<close>, \<open>bailey_sso.go\<close>).
\<close>

section \<open>Context, state, responses\<close>

text \<open>The external identity provider's settings, as far as roles depend on them.\<close>

record sso_config =
  sso_enabled :: bool
  sso_display :: string
  sso_mappings :: "(string \<times> string) list"

text \<open>
  The platform and the configuration: HMAC and hash, \<open>totp.Validate\<close>, the protected domain, date
  and time stamp texts, the number of trusted proxies, the signing key, the daemon's own token and the one in the host
  user's configuration (empty: none), the reading of the stored
  SSO settings, and the secret that \<open>totp.Generate\<close> makes of a candidate in a cookie (\<open>None\<close>: not
  base32 or empty), and the members of the organisation (\<open>None\<close>: it cannot be asked). Then the clock and the random values of this request, and the request.
\<close>

record ctx =
  c_mac :: "string \<Rightarrow> string \<Rightarrow> string"
  c_sha :: "string \<Rightarrow> string"
  c_totp :: "string \<Rightarrow> string \<Rightarrow> int \<Rightarrow> bool"
  c_domain :: string
  c_date :: "int \<Rightarrow> string"
  c_stamp :: "int \<Rightarrow> string"
  c_hops :: nat
  c_key :: string
  c_daemon_token :: string
  c_host_token :: string
  c_sso :: "string \<Rightarrow> sso_config option"
  c_reuse :: "string \<Rightarrow> string option"
  c_org :: "string list option"
  c_now :: int
  c_id :: string
  c_code :: nat
  c_codes :: "string list"
  c_secret :: string
  c_token :: string
  c_nonce :: string
  c_req :: http_req

record gate_state =
  gs_db :: trust_db
  gs_throttle :: attempts
  gs_grants :: grant_store
  gs_acl :: acl_db

record gate_view =
  gv_email :: string
  gv_is_admin :: bool
  gv_claimed :: bool
  gv_trusted :: bool
  gv_totp_enrolled :: bool
  gv_backup_codes :: bool
  gv_can_claim :: bool
  gv_has_trusted_device :: bool
  gv_invite_pending :: bool
  gv_failed_attempts :: nat
  gv_retry_after :: int
  gv_leave_to :: string

text \<open>A row of the admin's device page; a device carries whether it is the caller's own.\<close>

record admin_user =
  au_email :: string
  au_totp :: bool
  au_devices :: "(device_row \<times> bool) list"
  au_pair :: "pairing option"

datatype body =
  BEmpty
| BError string
| BCoded string string
| BThrottled nat int string
| BOk
| BOkRedirect string
| BPending string bool bool int
| BNotApproved
| BApproved string string
| BSecret string
| BCodes "string list"
| BGateState gate_view
| BPage string
| BDevices "(device_row \<times> bool) list"
| BRequests "pairing list"
| BLink string string string int
| BLinks "magic_link list"
| BInvite string invite_row
| BUsers "admin_user list" "admin_user list"
| BGrants string "grant list"
| BRoles "(string \<times> string) list"
| BElsewhere

record resp =
  rs_status :: nat
  rs_body :: body
  rs_cookies :: "(string \<times> string) list"
  rs_location :: string

definition answer :: "nat \<Rightarrow> body \<Rightarrow> resp" where
  "answer st b = \<lparr>rs_status = st, rs_body = b, rs_cookies = [], rs_location = []\<rparr>"

definition err_json :: "string \<Rightarrow> nat \<Rightarrow> resp" where "err_json msg st = answer st (BError msg)"
definition err_coded :: "string \<Rightarrow> string \<Rightarrow> nat \<Rightarrow> resp" where "err_coded msg cd st = answer st (BCoded msg cd)"
definition redirect :: "string \<Rightarrow> resp" where "redirect loc = (answer 303 BEmpty)\<lparr>rs_location := loc\<rparr>"

definition add_cookie :: "string \<times> string \<Rightarrow> resp \<Rightarrow> resp" where
  "add_cookie ck rs = rs\<lparr>rs_cookies := rs_cookies rs @ [ck]\<rparr>"

definition not_allowed :: resp where "not_allowed = err_json ''method not allowed'' 405"

text \<open>A handler maps a context and a state to a response and a state.\<close>

type_synonym handler = "ctx \<Rightarrow> gate_state \<Rightarrow> resp \<times> gate_state"

definition db_upd :: "(trust_db \<Rightarrow> trust_db) \<Rightarrow> gate_state \<Rightarrow> gate_state" where
  "db_upd f s = s\<lparr>gs_db := f (gs_db s)\<rparr>"

section \<open>Reading a request\<close>

definition identity :: "ctx \<Rightarrow> string" where "identity c = fst (identityFromHeaders (c_req c))"
definition groups :: "ctx \<Rightarrow> string list" where "groups c = snd (identityFromHeaders (c_req c))"

definition client_ip :: "ctx \<Rightarrow> string" where
  "client_ip c = clientIPForRequest (c_hops c) (hr_remote (c_req c)) (hr_header (c_req c) ''X-Forwarded-For'')"

definition current_device :: "ctx \<Rightarrow> string \<Rightarrow> trust_db \<Rightarrow> device_row option" where
  "current_device c email db = currentDeviceForRequest (c_mac c) (c_key c) (c_req c) email db"

record gate_body =
  gb_totp :: string
  gb_backup :: string
  gb_code :: string
  gb_token :: string

definition decodeGateBody :: "http_req \<Rightarrow> gate_body" where
  "decodeGateBody r =
     (if prefix ''application/json'' (hr_header r ''Content-Type'')
      then \<lparr>gb_totp = hr_json r ''totp'', gb_backup = hr_json r ''backup'', gb_code = hr_json r ''code'', gb_token = hr_json r ''token''\<rparr>
      else if hr_form_ok r
      then \<lparr>gb_totp = (if hr_form r ''totp'' = [] then hr_form r ''code'' else hr_form r ''totp''),
            gb_backup = hr_form r ''backup'', gb_code = hr_form r ''code'', gb_token = []\<rparr>
      else \<lparr>gb_totp = [], gb_backup = [], gb_code = [], gb_token = []\<rparr>)"

definition deviceNameFromRequest :: "ctx \<Rightarrow> string" where
  "deviceNameFromRequest c =
     (let ua = user_agent (c_req c);
          browser = (if str_contains ua ''Edg/'' then ''Edge'' else if str_contains ua ''Chrome/'' then ''Chrome''
                     else if str_contains ua ''Firefox/'' then ''Firefox'' else if str_contains ua ''Safari/'' then ''Safari''
                     else ''Browser'');
          os = (if str_contains ua ''Mac OS X'' \<or> str_contains ua ''Macintosh'' then '' on macOS''
                else if str_contains ua ''Windows'' then '' on Windows'' else if str_contains ua ''Linux'' then '' on Linux''
                else if str_contains ua ''Android'' then '' on Android''
                else if str_contains ua ''iPhone'' \<or> str_contains ua ''iPad'' then '' on iOS'' else [])
      in browser @ os @ '' ('' @ c_date c (c_now c) @ '')'')"

section \<open>Trusting a new device\<close>

definition setDeviceCookie :: "ctx \<Rightarrow> string \<Rightarrow> string \<Rightarrow> resp \<Rightarrow> resp" where
  "setDeviceCookie c email devid rs =
     rs\<lparr>rs_cookies := (deviceCookieName, signedDeviceCookie (c_mac c) (c_key c) email devid (c_now c)) # rs_cookies rs\<rparr>"

definition setSessionCookie :: "ctx \<Rightarrow> string \<Rightarrow> resp \<Rightarrow> resp" where
  "setSessionCookie c email =
     add_cookie (twoFactorCookieName, signedSessionCookie (c_mac c) (c_key c) email (c_now c + cookieMaxAge))"

text \<open>\<open>None\<close>: the device could not be stored. Otherwise the cookie is to be set for its id.\<close>

definition add_device :: "ctx \<Rightarrow> string \<Rightarrow> string \<Rightarrow> string \<Rightarrow> gate_state \<Rightarrow> device_row option \<times> gate_state" where
  "add_device c email name origin s =
     (case addDeviceWithOrigin (c_now c) (c_date c (c_now c)) (c_id c) email name origin (gs_db s) of
        (d, db) \<Rightarrow> (d, s\<lparr>gs_db := db\<rparr>))"

definition completeNewDevicePairFor :: "ctx \<Rightarrow> string \<Rightarrow> string \<Rightarrow> gate_state \<Rightarrow> device_row option \<times> gate_state" where
  "completeNewDevicePairFor c email approverInfo s =
     (let name = deviceNameFromRequest c @
            (if approverInfo \<noteq> [] then [CHR '' '', CHR 0xC2, CHR 0xB7] @ '' approved by '' @ approverInfo else [])
      in add_device c email name ''linked'' s)"

text \<open>The rest of a handler: an internal error, or the response with the device cookie.\<close>

definition trust_device :: "ctx \<Rightarrow> string \<Rightarrow> string \<Rightarrow> (gate_state \<Rightarrow> resp \<times> gate_state) \<Rightarrow> gate_state \<Rightarrow> resp \<times> gate_state" where
  "trust_device c email approverInfo k s =
     (case completeNewDevicePairFor c email approverInfo s of
        (None, s1) \<Rightarrow> (err_json ''insert device'' 500, s1)
      | (Some d, s1) \<Rightarrow> (case k s1 of (rs, s2) \<Rightarrow> (setDeviceCookie c email (dv_id d) rs, s2)))"

section \<open>The throttle around a code check\<close>

text \<open>
  Every check of a code has this shape: reserve the attempt, reject when it is refused, check, and
  then report the failure or forget the attempts and go on.
\<close>

definition throttled ::
    "ctx \<Rightarrow> string \<Rightarrow> (nat \<Rightarrow> int \<Rightarrow> gate_state \<Rightarrow> resp \<times> gate_state) \<Rightarrow> (nat \<Rightarrow> int \<Rightarrow> gate_state \<Rightarrow> resp \<times> gate_state)
     \<Rightarrow> (trust_db \<Rightarrow> bool \<times> trust_db) \<Rightarrow> (gate_state \<Rightarrow> resp \<times> gate_state) \<Rightarrow> gate_state \<Rightarrow> resp \<times> gate_state" where
  "throttled c email reject fail check k s =
     (case mfaThrottleBegin email (client_ip c) (c_now c) (gs_throttle s) of ((fs, retry, allowed), th) \<Rightarrow>
        let s1 = s\<lparr>gs_throttle := th\<rparr> in
        if \<not> allowed then reject fs retry s1
        else case check (gs_db s1) of (ok, db) \<Rightarrow>
          let s2 = s1\<lparr>gs_db := db\<rparr> in
          if \<not> ok then fail fs retry s2
          else k (s2\<lparr>gs_throttle := mfaThrottleReset email (client_ip c) (gs_throttle s2)\<rparr>))"

definition at_ip :: "string \<Rightarrow> ctx \<Rightarrow> string" where
  "at_ip endpoint c = endpoint @ '' ip='' @ client_ip c"

definition json_reject :: "ctx \<Rightarrow> string \<Rightarrow> string \<Rightarrow> nat \<Rightarrow> int \<Rightarrow> gate_state \<Rightarrow> resp \<times> gate_state" where
  "json_reject c email endpoint fs retry s =
     (answer 429 (BThrottled fs retry mfaThrottledMessage),
      db_upd (recordEvent (c_now c) email ''2fa.lockout'' (at_ip endpoint c @ '' blocked'')) s)"

definition json_fail :: "ctx \<Rightarrow> string \<Rightarrow> string \<Rightarrow> string \<Rightarrow> nat \<Rightarrow> int \<Rightarrow> gate_state \<Rightarrow> resp \<times> gate_state" where
  "json_fail c email endpoint msg fs retry s =
     (let s1 = db_upd (recordEvent (c_now c) email ''2fa.verify_failed'' (at_ip endpoint c)) s in
      if 0 < retry
      then (answer 429 (BThrottled fs retry mfaThrottledMessage), db_upd (recordEvent (c_now c) email ''2fa.lockout'' (at_ip endpoint c)) s1)
      else (answer 401 (BThrottled fs retry msg), s1))"

text \<open>The server-rendered twins; \<open>page\<close> renders the form around the message.\<close>

definition mfaHTMLThrottleReject ::
    "ctx \<Rightarrow> string \<Rightarrow> string \<Rightarrow> (string \<Rightarrow> gate_state \<Rightarrow> body \<times> gate_state) \<Rightarrow> nat \<Rightarrow> int \<Rightarrow> gate_state \<Rightarrow> resp \<times> gate_state" where
  "mfaHTMLThrottleReject c email endpoint page fs retry s =
     (case page mfaThrottledMessage s of (b, s1) \<Rightarrow>
        (answer 429 b, db_upd (recordEvent (c_now c) email ''2fa.lockout'' (at_ip endpoint c @ '' blocked'')) s1))"

definition mfaHTMLThrottleFail ::
    "ctx \<Rightarrow> string \<Rightarrow> string \<Rightarrow> string \<Rightarrow> (string \<Rightarrow> gate_state \<Rightarrow> body \<times> gate_state) \<Rightarrow> nat \<Rightarrow> int \<Rightarrow> gate_state
     \<Rightarrow> resp \<times> gate_state" where
  "mfaHTMLThrottleFail c email endpoint msg page fs retry s =
     (case page (if 0 < retry then mfaThrottledMessage else msg) s of (b, s1) \<Rightarrow>
        let s2 = db_upd (recordEvent (c_now c) email ''2fa.verify_failed'' (at_ip endpoint c)) s1 in
        if 0 < retry then (answer 429 b, db_upd (recordEvent (c_now c) email ''2fa.lockout'' (at_ip endpoint c)) s2)
        else (answer 401 b, s2))"

text \<open>A page that does not depend on the state, and one that mints or refreshes the pairing code.\<close>

definition page :: "string \<Rightarrow> string \<Rightarrow> gate_state \<Rightarrow> body \<times> gate_state" where
  "page name msg s = (BPage (name @ '': '' @ msg), s)"

definition pairing_page :: "ctx \<Rightarrow> string \<Rightarrow> string \<Rightarrow> string \<Rightarrow> gate_state \<Rightarrow> body \<times> gate_state" where
  "pairing_page c name email msg s =
     (case generatePendingPairUA (c_now c) (c_code c) email (user_agent (c_req c)) (gs_db s) of
        (e, db) \<Rightarrow> (BPage (name @ '': '' @ pp_code e @ '' '' @ msg), s\<lparr>gs_db := db\<rparr>))"

definition check_totp :: "ctx \<Rightarrow> string \<Rightarrow> string \<Rightarrow> trust_db \<Rightarrow> bool \<times> trust_db" where
  "check_totp c cd secret db = (c_totp c cd secret (c_now c), db)"

section \<open>Roles from the identity provider\<close>

definition role_rank :: "string \<Rightarrow> nat" where
  "role_rank r = (if r = ''user'' then 1 else if r = ''member'' then 2 else if r = ''auditor'' then 3
                  else if r = ''admin'' then 4 else 0)"

definition ssoRoleForGroups :: "sso_config \<Rightarrow> string list \<Rightarrow> string" where
  "ssoRoleForGroups cfg gs =
     (if sso_mappings cfg = [] \<or> gs = [] then []
      else foldl (\<lambda>best (g, role).
             if \<not> list_ex (\<lambda>h. trim_space (to_lower h) = trim_space (to_lower g)) gs then best
             else if best = [] \<or> role_rank best < role_rank role then role else best) [] (sso_mappings cfg))"

definition getSSOConfig :: "ctx \<Rightarrow> trust_db \<Rightarrow> sso_config option" where
  "getSSOConfig c db =
     (let raw = dbGetSetting ''external_oidc_config'' db in
      if trim_space raw = [] then Some \<lparr>sso_enabled = False, sso_display = [], sso_mappings = []\<rparr> else c_sso c raw)"

definition applySSORoleMapping :: "ctx \<Rightarrow> string \<Rightarrow> string list \<Rightarrow> gate_state \<Rightarrow> gate_state" where
  "applySSORoleMapping c email gs s =
     (if email = [] \<or> gs = [] then s
      else if dbGetUserRole email (gs_db s) \<noteq> [] then s
      else case getSSOConfig c (gs_db s) of
          None \<Rightarrow> s
        | Some cfg \<Rightarrow>
            if \<not> sso_enabled cfg then s
            else
              let role = ssoRoleForGroups cfg gs in
              if role = [] \<or> role = ''member'' then s
              else case dbSetUserRole (c_now c) email role (''sso:'' @ sso_display cfg) (gs_db s) of (ok, db) \<Rightarrow>
                s\<lparr>gs_db := (if ok then recordEvent (c_now c) (''sso:'' @ sso_display cfg) ''sso.role.map'' (email @ '' -> '' @ role) db
                           else db)\<rparr>)"

end
