(* ===== verification/Gate_Api.thy ===== *)
theory Gate_Api
  imports Gate_Base
begin

text \<open>
  The JSON gate API (\<open>bailey_gate_api.go\<close>, and invite redemption of \<open>bailey_people_invites.go\<close>),
  which a browser without a trusted device may call. A handler runs as one step; the daemon's
  database connection serialises the statements of concurrent requests, not the handlers.
\<close>

definition requireIdentity :: "string \<Rightarrow> (gate_state \<Rightarrow> resp \<times> gate_state) \<Rightarrow> gate_state \<Rightarrow> resp \<times> gate_state" where
  "requireIdentity email k s =
     (if trim_space email = [] then (err_json ''not authenticated'' 401, s) else k s)"

definition handleGateState :: handler where
  "handleGateState c s =
     (let email = identity c; db = gs_db s; claimed = serverClaimed db;
          rec = dbLoadTOTP email db;
          tstate = (if trim_space email = [] then (0, 0)
                    else mfaThrottleState email (client_ip c) (c_now c) (gs_throttle s));
          trusted = (email \<noteq> [] \<and> current_device c email db \<noteq> None)
      in (answer 200 (BGateState
            \<lparr>gv_email = email,
             gv_is_admin = callerIsAdmin email db,
             gv_claimed = claimed,
             gv_trusted = trusted,
             gv_totp_enrolled = (email \<noteq> [] \<and> rec \<noteq> None),
             gv_backup_codes = (email \<noteq> [] \<and> dbBackupCodesExist email db),
             gv_can_claim = (\<not> claimed \<and> eligibleToClaim email (groups c)),
             gv_has_trusted_device = (email \<noteq> [] \<and> dbListDevices email db \<noteq> []),
             gv_invite_pending = (email \<noteq> [] \<and>
               (case dbLoadInviteByEmail email db of Some v \<Rightarrow> inv_live (c_now c) v | None \<Rightarrow> False)),
             gv_failed_attempts = snd tstate,
             gv_retry_after = fst tstate,
             gv_leave_to = (if trusted \<and> onOnboardHost (c_domain c) (c_req c) then originTarget (c_domain c) (c_req c) else [])\<rparr>), s))"

text \<open>The claim proper, shared with the server-rendered page; \<open>k\<close> builds the response.\<close>

definition claim_server :: "ctx \<Rightarrow> string \<Rightarrow> (gate_state \<Rightarrow> resp \<times> gate_state) \<Rightarrow> gate_state \<Rightarrow> resp \<times> gate_state" where
  "claim_server c email k s =
     (let s1 = (if serverRootAdmin (gs_db s) = []
                then db_upd (recordServerClaim (c_now c) (c_stamp c (c_now c)) email) s else s)
      in case add_device c email (deviceNameFromRequest c) ''root'' s1 of
           (None, s2) \<Rightarrow> (err_json ''claim (trust device)'' 500, s2)
         | (Some d, s2) \<Rightarrow> (case k s2 of (rs, s3) \<Rightarrow> (setDeviceCookie c email (dv_id d) rs, s3)))"

definition handleGateClaim :: handler where
  "handleGateClaim c =
     (let email = identity c in
      requireIdentity email (\<lambda>s.
        if serverClaimed (gs_db s) then (err_json ''server already claimed'' 409, s)
        else if \<not> eligibleToClaim email (groups c) then (err_json ''not eligible to claim this server'' 403, s)
        else claim_server c email (\<lambda>s. (answer 200 BOk, s)) s))"

definition handleGatePendingPair :: handler where
  "handleGatePendingPair c =
     (let email = identity c in
      requireIdentity email (\<lambda>s.
        case generatePendingPairUA (c_now c) (c_code c) email (user_agent (c_req c)) (gs_db s) of
          (e, db) \<Rightarrow>
            (answer 200 (BPending (pp_code e) (pp_by e \<noteq> []) (dbLoadTOTP email db \<noteq> None) (rfc3339 (pp_expires e))),
             s\<lparr>gs_db := db\<rparr>)))"

text \<open>The approved pair is claimed, the device trusted, and an admin also gets a session.\<close>

definition poll_pair :: "ctx \<Rightarrow> string \<Rightarrow> resp \<Rightarrow> gate_state \<Rightarrow> resp \<times> gate_state" where
  "poll_pair c email none s =
     (case claimPendingPair (c_now c) email (gs_db s) of
        (None, db) \<Rightarrow> (none, s\<lparr>gs_db := db\<rparr>)
      | (Some e, db) \<Rightarrow>
          trust_device c email (pp_info e) (\<lambda>s.
            let rs = answer 200 (BApproved (pp_info e) (originRedirectPath (c_domain c) (c_req c)))
            in (if callerIsAdmin email (gs_db s) then setSessionCookie c email rs else rs, s)) (s\<lparr>gs_db := db\<rparr>))"

definition handleGatePendingPairPoll :: handler where
  "handleGatePendingPairPoll c =
     (let email = identity c in requireIdentity email (poll_pair c email (answer 200 BNotApproved)))"

definition ok_redirect :: "ctx \<Rightarrow> gate_state \<Rightarrow> resp \<times> gate_state" where
  "ok_redirect c s = (answer 200 (BOkRedirect (originRedirectPath (c_domain c) (c_req c))), s)"

definition mfa_precheck :: "ctx \<Rightarrow> string \<Rightarrow> (gate_state \<Rightarrow> resp \<times> gate_state) \<Rightarrow> gate_state \<Rightarrow> resp \<times> gate_state" where
  "mfa_precheck c email k s =
     (case mfaThrottleState email (client_ip c) (c_now c) (gs_throttle s) of (retry, fs) \<Rightarrow>
        if 0 < retry then (answer 429 (BThrottled fs retry mfaThrottledMessage), s) else k s)"

definition handleGateSelfTrust :: handler where
  "handleGateSelfTrust c =
     (let email = identity c in
      requireIdentity email (mfa_precheck c email (\<lambda>s.
        case dbLoadTOTP email (gs_db s) of
          None \<Rightarrow> (err_json ''no authenticator enrolled for this account'' 403, s)
        | Some rec \<Rightarrow>
            let cd = trim_space (gb_totp (decodeGateBody (c_req c))) in
            throttled c email (json_reject c email ''self-trust'') (json_fail c email ''self-trust'' ''that code didn't match'')
              (check_totp c cd (tt_secret rec))
              (trust_device c email ''self via authenticator'' (ok_redirect c)) s)))"

definition handleGateRecover :: handler where
  "handleGateRecover c =
     (let email = identity c in
      requireIdentity email (mfa_precheck c email (\<lambda>s.
        let rec = dbLoadTOTP email (gs_db s); body = decodeGateBody (c_req c); backup = trim_space (gb_backup body) in
        if rec = None \<and> \<not> dbBackupCodesExist email (gs_db s)
        then (err_json ''no recovery method set up; ask an admin to approve this device'' 403, s)
        else if backup \<noteq> [] then
          throttled c email (json_reject c email ''recover-backup'')
            (json_fail c email ''recover-backup'' ''that backup code isn't valid'')
            (dbConsumeBackupCode (c_sha c) email backup)
            (trust_device c email ''self via backup code'' (ok_redirect c)) s
        else case rec of
            None \<Rightarrow> (err_json ''authenticator not set up for this account'' 403, s)
          | Some t \<Rightarrow>
              throttled c email (json_reject c email ''recover-totp'')
                (json_fail c email ''recover-totp'' ''that code didn't match'')
                (check_totp c (trim_space (gb_totp body)) (tt_secret t))
                (trust_device c email ''self via authenticator recovery'' (ok_redirect c)) s)))"

definition gateEnrolCookieName :: string where "gateEnrolCookieName = ''_bailey_gate_enroll''"

text \<open>The candidate secret: that of the cookie again, or a fresh one.\<close>

definition candidate_secret :: "ctx \<Rightarrow> string \<Rightarrow> string" where
  "candidate_secret c ck =
     (if cookie (c_req c) ck = [] then c_secret c
      else case c_reuse c (cookie (c_req c) ck) of Some k \<Rightarrow> k | None \<Rightarrow> c_secret c)"

definition handleGateTOTPEnroll :: handler where
  "handleGateTOTPEnroll c =
     (let email = identity c in
      requireIdentity email (\<lambda>s.
        if dbLoadTOTP email (gs_db s) \<noteq> None then (err_json ''authenticator already enrolled'' 409, s)
        else
          let key = candidate_secret c gateEnrolCookieName
          in (add_cookie (gateEnrolCookieName, key) (answer 200 (BSecret key)), s)))"

definition handleGateTOTPVerify :: handler where
  "handleGateTOTPVerify c =
     (let email = identity c in
      requireIdentity email (mfa_precheck c email (\<lambda>s.
        let secret = cookie (c_req c) gateEnrolCookieName in
        if dbLoadTOTP email (gs_db s) \<noteq> None then (err_json ''authenticator already enrolled'' 409, s)
        else if secret = [] then (err_json ''enrolment session expired - start over'' 400, s)
        else
          throttled c email (json_reject c email ''totp-verify'') (json_fail c email ''totp-verify'' ''that code didn't match'')
            (check_totp c (trim_space (gb_code (decodeGateBody (c_req c)))) secret)
            (\<lambda>s.
              let db1 = saveTOTPRecord (c_now c) \<lparr>tt_email = email, tt_secret = secret, tt_created = rfc3339 (c_now c)\<rparr> (gs_db s);
                  db2 = dbSaveBackupCodes (c_sha c) (c_now c) email (c_codes c) db1
              in (add_cookie (gateEnrolCookieName, []) (answer 200 (BCodes (c_codes c))), s\<lparr>gs_db := db2\<rparr>)) s)))"

definition handleGateBackupCodesRegenerate :: handler where
  "handleGateBackupCodesRegenerate c =
     (let email = identity c in
      requireIdentity email (\<lambda>s.
        (answer 200 (BCodes (c_codes c)), db_upd (dbSaveBackupCodes (c_sha c) (c_now c) email (c_codes c)) s)))"

definition handleGateInviteRedeem :: handler where
  "handleGateInviteRedeem c =
     (let email = identity c; now = c_now c in
      requireIdentity email (\<lambda>s.
        let token = trim_space (gb_token (decodeGateBody (c_req c))) in
        if \<not> serverClaimed (gs_db s) then (err_coded ''this server hasn't been set up yet'' ''unclaimed'' 409, s)
        else if token = [] then (err_coded ''invite token required'' ''invalid'' 400, s)
        else case dbLoadInviteByTokenHash (c_sha c token) (gs_db s) of
            None \<Rightarrow> (err_coded ''that invite link isn't valid'' ''invalid'' 404, s)
          | Some v \<Rightarrow>
              if inv_consumed v then (err_coded ''that invite has already been used'' ''consumed'' 410, s)
              else if inv_expired now v then (err_coded ''that invite has expired'' ''expired'' 410, s)
              else if \<not> eq_fold (trim_space (iv_email v)) (trim_space email)
              then (err_coded ''this invite was issued for a different account'' ''wrong_account'' 403, s)
              else if dbListDevices email (gs_db s) \<noteq> []
              then (err_coded ''you're already set up on this server'' ''already_trusted'' 409, s)
              else case dbConsumeInviteAtomic (iv_hash v) now (gs_db s) of (claimed, db) \<Rightarrow>
                if \<not> claimed then (err_coded ''that invite has already been used'' ''consumed'' 410, s\<lparr>gs_db := db\<rparr>)
                else trust_device c email (''invite from '' @ iv_by v) (\<lambda>s.
                  let db1 = (if dbGetUserRole email (gs_db s) = [] \<and> \<not> eq_fold email (trim_space (serverRootAdmin (gs_db s)))
                             then snd (dbSetUserRole now email (iv_role v) (iv_by v) (gs_db s)) else gs_db s);
                      rs = fst (ok_redirect c s)
                  in (if callerIsAdmin email db1 then setSessionCookie c email rs else rs,
                      s\<lparr>gs_db := recordEvent now email ''invite.redeem'' (iv_by v) db1\<rparr>)) (s\<lparr>gs_db := db\<rparr>)))"

definition guardGet :: "handler \<Rightarrow> handler" where
  "guardGet h c s = (if hr_method (c_req c) \<noteq> ''GET'' then (err_json ''GET required'' 405, s) else h c s)"

definition guardPost :: "handler \<Rightarrow> handler" where
  "guardPost h c s = (if hr_method (c_req c) \<noteq> ''POST'' then (err_json ''POST required'' 405, s) else h c s)"

text \<open>\<open>None\<close>: not a route of the gate API.\<close>

definition handleGateAPI :: "string \<Rightarrow> handler option" where
  "handleGateAPI path =
     (if path = ''/bailey/api/gate-state'' then Some (guardGet handleGateState)
      else if path = ''/bailey/api/claim'' then Some (guardPost handleGateClaim)
      else if path = ''/bailey/api/pending-pair'' then Some (guardGet handleGatePendingPair)
      else if path = ''/bailey/api/pending-pair/poll'' then Some (guardGet handleGatePendingPairPoll)
      else if path = ''/bailey/api/self-trust'' then Some (guardPost handleGateSelfTrust)
      else if path = ''/bailey/api/recover'' then Some (guardPost handleGateRecover)
      else if path = ''/bailey/api/totp/enroll'' then Some (guardGet handleGateTOTPEnroll)
      else if path = ''/bailey/api/totp/verify'' then Some (guardPost handleGateTOTPVerify)
      else if path = ''/bailey/api/backup-codes/regenerate'' then Some (guardPost handleGateBackupCodesRegenerate)
      else if path = ''/bailey/api/invite/redeem'' then Some (guardPost handleGateInviteRedeem)
      else None)"

text \<open>\<open>generateBackupCodes\<close> from the sequence of random picks, 8 for each of the 10 codes.\<close>

definition backupCodeChars :: string where "backupCodeChars = ''ABCDEFGHJKLMNPQRSTUVWXYZ23456789''"

definition backup_group :: "nat list \<Rightarrow> string" where
  "backup_group picks = map (\<lambda>i. backupCodeChars ! i) (take 4 picks)"

fun generateBackupCodes :: "nat \<Rightarrow> nat list \<Rightarrow> string list" where
  "generateBackupCodes 0 picks = []"
| "generateBackupCodes (Suc n) picks =
     (backup_group picks @ ''-'' @ backup_group (drop 4 picks)) # generateBackupCodes n (drop 8 picks)"

end
