(* ===== verification/Gate_Pages.thy ===== *)
theory Gate_Pages
  imports Gate_Base
begin

text \<open>
  The gate's own paths under \<open>/2fa-gate\<close>: the server-rendered pages (\<open>mfa_claim.go\<close>,
  \<open>mfa_pair.go\<close>, \<open>mfa_account.go\<close>, \<open>mfa_totp.go\<close>), the grant dance between hosts
  (\<open>mfa_device_grant.go\<close>) and magic links (\<open>mfa_magic_link.go\<close>); the device-trust phase of the gate
  itself (\<open>enforceMFAGate\<close>), and the devices, approvals and people API behind it
  (\<open>bailey_devices_api.go\<close>, \<open>bailey_people.go\<close>, \<open>bailey_people_invites.go\<close>). A page is its name
  and its message; the HTML around it is not modelled.
\<close>

section \<open>Claiming the server\<close>

definition origin_redirect :: "ctx \<Rightarrow> resp" where
  "origin_redirect c = add_cookie (gateOriginCookie, []) (redirect (originTarget (c_domain c) (c_req c)))"

definition req_method :: "ctx \<Rightarrow> string" where "req_method c = hr_method (c_req c)"
definition form :: "ctx \<Rightarrow> string \<Rightarrow> string" where "form c k = trim_space (hr_form (c_req c) k)"

definition claimHandler :: handler where
  "claimHandler c s =
     (let email = identity c in
      if serverClaimed (gs_db s) then (redirect ''/2fa-gate/pending-pair'', s)
      else if \<not> eligibleToClaim email (groups c) then (answer 403 (BPage ''Waiting to be claimed''), s)
      else if req_method c = ''GET'' then (answer 200 (BPage ''Claim this server''), s)
      else if req_method c = ''POST'' then
        (let s1 = (if serverRootAdmin (gs_db s) = []
                   then db_upd (recordServerClaim (c_now c) (c_stamp c (c_now c)) email) s else s)
         in case add_device c email (deviceNameFromRequest c) ''root'' s1 of
              (None, s2) \<Rightarrow> (err_json ''claim (trust device)'' 500, s2)
            | (Some d, s2) \<Rightarrow> (setDeviceCookie c email (dv_id d) (origin_redirect c), s2))
      else (not_allowed, s))"

section \<open>Pairing\<close>

definition pendingPairHandler :: handler where
  "pendingPairHandler c s =
     (if req_method c \<noteq> ''GET'' then (not_allowed, s)
      else case pairing_page c ''Trust this device'' (identity c) [] s of (b, s1) \<Rightarrow> (answer 200 b, s1))"

definition pendingPairPollHandler :: handler where
  "pendingPairPollHandler c s =
     (let email = identity c in
      case claimPendingPair (c_now c) email (gs_db s) of
        (None, db) \<Rightarrow> (answer 204 BEmpty, s\<lparr>gs_db := db\<rparr>)
      | (Some e, db) \<Rightarrow>
          trust_device c email (pp_info e) (\<lambda>s.
            let rs = answer 200 (BApproved (pp_info e) (originRedirectPath (c_domain c) (c_req c)))
            in (if callerIsAdmin email (gs_db s) then setSessionCookie c email rs else rs, s)) (s\<lparr>gs_db := db\<rparr>))"

definition selfTrustHandler :: handler where
  "selfTrustHandler c s =
     (let email = identity c in
      case dbLoadTOTP email (gs_db s) of
        None \<Rightarrow> (redirect ''/2fa-gate/pending-pair'', s)
      | Some rec \<Rightarrow>
          if req_method c \<noteq> ''POST'' then (not_allowed, s)
          else if \<not> hr_form_ok (c_req c) then (answer 400 (BError ''form''), s)
          else
            throttled c email
              (mfaHTMLThrottleReject c email ''self-trust-form'' (pairing_page c ''Trust this device'' email))
              (mfaHTMLThrottleFail c email ''self-trust-form'' ''That code didn't match''
                 (pairing_page c ''Trust this device'' email))
              (check_totp c (form c ''code'') (tt_secret rec))
              (trust_device c email ''self via authenticator'' (\<lambda>s. (origin_redirect c, s))) s)"

definition approverIsTrusted :: "ctx \<Rightarrow> string \<Rightarrow> bool \<Rightarrow> trust_db \<Rightarrow> bool" where
  "approverIsTrusted c approverEmail approverIsAdmin db \<longleftrightarrow>
     current_device c approverEmail db \<noteq> None \<or>
     (approverIsAdmin \<and> hasValidSession (c_mac c) (c_key c) (c_now c) (c_req c) approverEmail)"

definition approveHandler :: handler where
  "approveHandler c s =
     (let approverEmail = identity c; approverIsAdmin = callerIsAdmin (identity c) (gs_db s);
          targetEmail = form c ''email''; cd = form c ''code'' in
      if req_method c = ''GET'' then (answer 200 (BRequests (visiblePendingRequests (c_now c) approverEmail approverIsAdmin (gs_db s))), s)
      else if req_method c = ''POST'' then
        (if \<not> hr_form_ok (c_req c) then (answer 400 (BError ''form''), s)
         else if targetEmail = [] \<or> cd = [] then (answer 400 (BError ''Both email and code are required.''), s)
         else if \<not> approverIsTrusted c approverEmail approverIsAdmin (gs_db s)
         then (answer 403 (BError ''Approve from a browser that's already trusted.''), s)
         else if \<not> eq_fold targetEmail approverEmail \<and> \<not> approverIsAdmin
         then (answer 403 (BError ''Only admins can approve a different user.''), s)
         else case approvePendingPair (c_now c) targetEmail cd approverEmail approverIsAdmin (gs_db s) of
             (None, db) \<Rightarrow> (answer 401 (BError ''Code didn't match''), s\<lparr>gs_db := db\<rparr>)
           | (Some e, db) \<Rightarrow> (answer 200 (BPage (''Approved '' @ targetEmail)), s\<lparr>gs_db := db\<rparr>))
      else (not_allowed, s))"

definition handleApprovePairJSON :: handler where
  "handleApprovePairJSON c s =
     (let approverEmail = identity c; approverIsAdmin = callerIsAdmin (identity c) (gs_db s);
          targetEmail = form c ''email''; cd = form c ''code'' in
      if req_method c \<noteq> ''POST'' then (err_json ''POST required'' 405, s)
      else if \<not> hr_form_ok (c_req c) then (err_json ''form'' 400, s)
      else if targetEmail = [] \<or> cd = [] then (err_json ''email and code required'' 400, s)
      else if \<not> approverIsTrusted c approverEmail approverIsAdmin (gs_db s)
      then (err_json ''approve from an already-trusted browser'' 403, s)
      else if \<not> eq_fold targetEmail approverEmail \<and> \<not> approverIsAdmin
      then (err_json ''only admins can approve a different user'' 403, s)
      else case approvePendingPair (c_now c) targetEmail cd approverEmail approverIsAdmin (gs_db s) of
          (None, db) \<Rightarrow> (err_json ''code didn't match'' 401, s\<lparr>gs_db := db\<rparr>)
        | (Some e, db) \<Rightarrow> (answer 200 (BApproved (pp_email e) []), s\<lparr>gs_db := db\<rparr>))"

definition recoveryHandler :: handler where
  "recoveryHandler c s =
     (let email = identity c; rec = dbLoadTOTP email (gs_db s) in
      if rec = None \<and> \<not> dbBackupCodesExist email (gs_db s) then (answer 403 (BError ''No recovery method is set up''), s)
      else if req_method c = ''GET'' then (answer 200 (BPage ''Recovery''), s)
      else if req_method c = ''POST'' then
        (if \<not> hr_form_ok (c_req c) then (answer 400 (BError ''form''), s)
         else if form c ''mode'' = ''backup'' then
           throttled c email (mfaHTMLThrottleReject c email ''recover-backup-form'' (page ''Recovery''))
             (mfaHTMLThrottleFail c email ''recover-backup-form'' ''That doesn't look like a valid backup code.'' (page ''Recovery''))
             (dbConsumeBackupCode (c_sha c) email (form c ''backup''))
             (trust_device c email ''self via backup code'' (\<lambda>s. (origin_redirect c, s))) s
         else case rec of
             None \<Rightarrow> (answer 403 (BError ''authenticator not set up for this account''), s)
           | Some t \<Rightarrow>
               throttled c email (mfaHTMLThrottleReject c email ''recover-totp-form'' (page ''Recovery''))
                 (mfaHTMLThrottleFail c email ''recover-totp-form'' ''Code didn't match'' (page ''Recovery''))
                 (check_totp c (form c ''code'') (tt_secret t))
                 (trust_device c email ''self via authenticator recovery'' (\<lambda>s. (origin_redirect c, s))) s)
      else (not_allowed, s))"

section \<open>Account pages\<close>

definition accountDevicesHandler :: handler where
  "accountDevicesHandler c s =
     (let email = identity c; devid = form c ''id'' in
      if req_method c = ''GET'' then
        (answer 200 (BDevices (map (\<lambda>d. (d, (case current_device c email (gs_db s) of Some cur \<Rightarrow> dv_id cur = dv_id d | None \<Rightarrow> False)))
           (dbListDevices email (gs_db s)))), s)
      else if req_method c = ''POST'' then
        (if \<not> hr_form_ok (c_req c) then (answer 400 (BError ''form''), s)
         else if form c ''action'' = ''remove'' then
           (if devid = [] then (answer 400 (BError ''id required''), s)
            else (redirect ''/2fa-gate/account/devices'', db_upd (removeDevice (c_now c) email devid) s))
         else (answer 400 (BError ''unknown action''), s))
      else (not_allowed, s))"

definition accountEnrolCookieName :: string where "accountEnrolCookieName = ''_bailey_account_enroll''"

definition candidateSecretForAccount :: "ctx \<Rightarrow> resp \<Rightarrow> string \<times> resp" where
  "candidateSecretForAccount c rs =
     (let ck = cookie (c_req c) accountEnrolCookieName in
      if ck \<noteq> [] \<and> c_reuse c ck \<noteq> None then (ck, rs)
      else (c_secret c, add_cookie (accountEnrolCookieName, c_secret c) rs))"

definition accountTOTPHandler :: handler where
  "accountTOTPHandler c s =
     (let email = identity c; admin = callerIsAdmin (identity c) (gs_db s); action = form c ''action'';
          back = safeReturnTo (hr_form (c_req c) ''return_to'') ''/2fa-gate/account/2fa'';
          candidate = cookie (c_req c) accountEnrolCookieName in
      if req_method c = ''GET'' then
        (if dbLoadTOTP email (gs_db s) \<noteq> None then (answer 200 (BPage ''Authenticator enabled''), s)
         else (case candidateSecretForAccount c (answer 200 BEmpty) of (k, rs) \<Rightarrow> (rs\<lparr>rs_body := BSecret k\<rparr>, s)))
      else if req_method c = ''POST'' then
        (if \<not> hr_form_ok (c_req c) then (answer 400 (BError ''form''), s)
         else if action = ''enroll'' then
           (if candidate = [] then (answer 400 (BError ''enrolment session expired - reload and try again''), s)
            else
              throttled c email (mfaHTMLThrottleReject c email ''account-2fa-enroll'' (page ''Enrol''))
                (mfaHTMLThrottleFail c email ''account-2fa-enroll'' ''Code didn't match'' (page ''Enrol''))
                (check_totp c (form c ''code'') candidate)
                (\<lambda>s. (add_cookie (accountEnrolCookieName, []) (redirect back),
                  db_upd (saveTOTPRecord (c_now c) \<lparr>tt_email = email, tt_secret = candidate, tt_created = rfc3339 (c_now c)\<rparr>) s)) s)
         else if action = ''disable'' then
           (if \<not> admin then (answer 403 (BError ''admins only''), s)
            else (redirect back, db_upd (dbDeleteTOTP email) s))
         else (answer 400 (BError ''unknown action''), s))
      else (not_allowed, s))"

section \<open>Enrolment and challenge pages of the gate\<close>

definition enrolCookieName :: "string \<Rightarrow> string" where
  "enrolCookieName basePath = (if str_contains basePath ''/account'' then ''_bailey_account_enroll'' else ''_bailey_enroll'')"

definition gate_candidate :: "ctx \<Rightarrow> string \<Rightarrow> string" where
  "gate_candidate c ck =
     (if cookie (c_req c) ck = [] then c_secret c
      else case c_reuse c (cookie (c_req c) ck) of Some k \<Rightarrow> k | None \<Rightarrow> c_secret c)"

definition handleEnrollGET :: "string \<Rightarrow> handler" where
  "handleEnrollGET basePath c s =
     (if dbLoadTOTP (identity c) (gs_db s) \<noteq> None then (redirect (basePath @ ''/challenge''), s)
      else
        let key = gate_candidate c (enrolCookieName basePath)
        in (add_cookie (enrolCookieName basePath, key) (answer 200 (BSecret key)), s))"

definition handleEnrollPOST :: "string \<Rightarrow> handler" where
  "handleEnrollPOST basePath c s =
     (let email = identity c; candidate = cookie (c_req c) (enrolCookieName basePath) in
      if dbLoadTOTP email (gs_db s) \<noteq> None then (redirect (basePath @ ''/challenge''), s)
      else if \<not> hr_form_ok (c_req c) then (answer 400 (BError ''form''), s)
      else if candidate = [] then (answer 400 (BError ''enrolment session expired - start over''), s)
      else
        throttled c email (mfaHTMLThrottleReject c email ''totp-enroll-form'' (page ''Enrol''))
          (mfaHTMLThrottleFail c email ''totp-enroll-form'' ''Code didn't match'' (page ''Enrol''))
          (check_totp c (form c ''code'') candidate)
          (\<lambda>s. (setSessionCookie c email (add_cookie (enrolCookieName basePath, []) (origin_redirect c)),
            db_upd (saveTOTPRecord (c_now c) \<lparr>tt_email = email, tt_secret = candidate, tt_created = rfc3339 (c_now c)\<rparr>) s)) s)"

definition handleChallengeGET :: "string \<Rightarrow> handler" where
  "handleChallengeGET basePath c s =
     (let email = identity c in
      if dbLoadTOTP email (gs_db s) = None then (redirect (basePath @ ''/enroll''), s)
      else if hasValidSession (c_mac c) (c_key c) (c_now c) (c_req c) email then (origin_redirect c, s)
      else case pairing_page c ''Second factor'' email [] s of (b, s1) \<Rightarrow> (answer 200 b, s1))"

definition handleChallengePOST :: "string \<Rightarrow> handler" where
  "handleChallengePOST basePath c s =
     (let email = identity c in
      case dbLoadTOTP email (gs_db s) of
        None \<Rightarrow> (redirect (basePath @ ''/enroll''), s)
      | Some rec \<Rightarrow>
          if \<not> hr_form_ok (c_req c) then (answer 400 (BError ''form''), s)
          else
            throttled c email (mfaHTMLThrottleReject c email ''totp-challenge'' (pairing_page c ''Second factor'' email))
              (mfaHTMLThrottleFail c email ''totp-challenge'' ''Code didn't match'' (pairing_page c ''Second factor'' email))
              (check_totp c (form c ''code'') (tt_secret rec))
              (\<lambda>s. (setSessionCookie c email (origin_redirect c), s)) s)"

definition handleTOTPGate :: "string \<Rightarrow> handler" where
  "handleTOTPGate basePath c s =
     (let isEnroll = prefix (basePath @ ''/enroll'') (hr_path (c_req c)) in
      if req_method c = ''GET'' then (if isEnroll then handleEnrollGET basePath c s else handleChallengeGET basePath c s)
      else if req_method c = ''POST'' then (if isEnroll then handleEnrollPOST basePath c s else handleChallengePOST basePath c s)
      else (not_allowed, s))"

end
