(* ===== verification/Gate_Hosts.thy ===== *)
theory Gate_Hosts
  imports Gate_Api Gate_Pages
begin

text \<open>
  Trust between hosts (\<open>mfa_device_grant.go\<close>), magic links (\<open>mfa_magic_link.go\<close>), the device-trust
  phase of the gate (\<open>mfa_gate.go\<close>), the API behind it (\<open>bailey_devices_api.go\<close>,
  \<open>bailey_people.go\<close>, \<open>bailey_people_invites.go\<close>) and the routing of the two path families
  (\<open>protected_gate.go\<close>, \<open>bailey_dispatch.go\<close>). Routes of other components answer \<open>BElsewhere\<close>;
  what they write, if anything, is a step of its own (theory \<open>Gate_Socket\<close>).
\<close>

section \<open>Device grants\<close>

definition trustLoopCookie :: string where "trustLoopCookie = ''_bailey_trustloop''"
definition maxTrustDanceRounds :: int where "maxTrustDanceRounds = 3"

definition clearTrustLoop :: "resp \<Rightarrow> resp" where "clearTrustLoop = add_cookie (trustLoopCookie, [])"

text \<open>The number \<open>strconv.Atoi\<close> returns beside an ignored error: 0 for a text that is no number, the
  nearest bound for one out of range.\<close>

definition atoi_value :: "string \<Rightarrow> int" where
  "atoi_value s =
     (case atoi s of
        Some k \<Rightarrow> k
      | None \<Rightarrow>
          (case s of
             [] \<Rightarrow> 0
           | x # xs \<Rightarrow>
               if dec_digits (if x = CHR ''-'' \<or> x = CHR ''+'' then xs else s) = None then 0
               else if x = CHR ''-'' then - (2 ^ 63) else 2 ^ 63 - 1))"

text \<open>Whether the dance is over, and the cookie to set.\<close>

definition trustDanceExhausted :: "http_req \<Rightarrow> bool \<times> (string \<times> string)" where
  "trustDanceExhausted r =
     (let n = atoi_value (cookie r trustLoopCookie) in
      if maxTrustDanceRounds \<le> n then (True, (trustLoopCookie, []))
      else (False, (trustLoopCookie, format_int (n + 1))))"

text \<open>\<open>grant\<close> goes into a query: \<open>url.QueryEscape\<close> leaves the characters of a grant as they are.\<close>

definition handleDeviceGrant :: handler where
  "handleDeviceGrant c s =
     (let email = identity c; host = originHostFromRequest (c_domain c) (c_req c) in
      if email = [] then (err_json ''no identity'' 401, s)
      else if host = [] then (redirect (safeOriginTarget (c_domain c) []), s)
      else case current_device c email (gs_db s) of
          Some dev \<Rightarrow>
            (case mintGrant (c_mac c) (c_key c) (c_now c) (c_nonce c) email host (dv_id dev) (gs_grants s) of
               (grant, g) \<Rightarrow>
                 (redirect (''https://'' @ host @ ''/2fa-gate/api/device-claim?grant='' @ grant), s\<lparr>gs_grants := g\<rparr>))
        | None \<Rightarrow> (redirect (onboardSPARoot (c_domain c)), s))"

definition redirect_after_claim :: "ctx \<Rightarrow> resp" where
  "redirect_after_claim c =
     (let rs = redirect (redirectAfterClaim (c_domain c) (c_req c)) in
      if trim_space (hr_query (c_req c) ''return'') \<noteq> [] then rs else add_cookie (gateOriginCookie, []) rs)"

definition handleDeviceClaim :: handler where
  "handleDeviceClaim c s =
     (let email = identity c in
      if email = [] then (err_json ''no identity'' 401, s)
      else if current_device c email (gs_db s) \<noteq> None then (clearTrustLoop (redirect_after_claim c), s)
      else case verifyGrant (c_mac c) (c_key c) (c_now c) (hr_query (c_req c) ''grant'') of
          None \<Rightarrow> (err_json ''invalid or expired device-trust grant'' 403, s)
        | Some g \<Rightarrow>
            if \<not> eq_fold (dg_email g) email \<or> \<not> eq_fold (dg_host g) (requestEndpointHost (c_req c))
            then (err_json ''invalid or expired device-trust grant'' 403, s)
            else case consume (c_now c) (dg_nonce g) (gs_grants s) of (ok, gr) \<Rightarrow>
              let s1 = s\<lparr>gs_grants := gr\<rparr> in
              if \<not> ok then (err_json ''device-trust grant already used'' 403, s1)
              else (setDeviceCookie c email (dg_device g) (clearTrustLoop (redirect_after_claim c)),
                    db_upd (dbTouchDevice (c_now c) email (dg_device g)) s1))"

section \<open>Magic links\<close>

definition magicLinkTTL :: int where "magicLinkTTL = 30 * 24 * 60 * 60 * sec"

definition canMintMagicLink :: "string \<Rightarrow> string list \<Rightarrow> string \<Rightarrow> gate_state \<Rightarrow> string option" where
  "canMintMagicLink email gs host s =
     (if roleFor host email gs (gs_acl s) \<noteq> RoleOwner then Some ''only an owner of this endpoint can create a magic link''
      else if effectiveRole email (gs_db s) \<noteq> ''admin'' \<and> effectiveRole email (gs_db s) \<noteq> ''auditor''
      then Some ''magic links can only be created by an admin or auditor''
      else case getEndpoint host (gs_acl s) of
          None \<Rightarrow> Some ''endpoint not registered''
        | Some ep \<Rightarrow> if \<not> eq_fold (ep_stage ep) ''production''
                     then Some ''magic links are only allowed for production endpoints'' else None)"

definition outer_host :: "ctx \<Rightarrow> string" where "outer_host c = toOuterHost (requestEndpointHost (c_req c))"

definition magicLinkURL :: "string \<Rightarrow> string \<Rightarrow> string" where
  "magicLinkURL host token = ''https://'' @ host @ ''/2fa-gate/api/magic-link/redeem?token='' @ token"

definition handleMagicLinkCreate :: handler where
  "handleMagicLinkCreate c s =
     (let email = identity c; host = outer_host c in
      if email = [] then (err_json ''no identity'' 401, s)
      else case canMintMagicLink email (groups c) host s of
          Some reason \<Rightarrow> (err_json reason 403, s)
        | None \<Rightarrow>
            (case dbCreateMagicLink (c_sha c) (c_now c) (c_id c) (c_token c) host email magicLinkTTL (gs_acl s) (gs_db s) of
               (None, db) \<Rightarrow> (err_json ''create magic link'' 500, s\<lparr>gs_db := db\<rparr>)
             | (Some m, db) \<Rightarrow>
                 (answer 200 (BLink (ml_id m) host (magicLinkURL host (c_token c)) (rfc3339 (ml_expires m))),
                  s\<lparr>gs_db := recordEvent (c_now c) email ''magiclink.create'' host db\<rparr>)))"

definition handleMagicLinkRedeem :: handler where
  "handleMagicLinkRedeem c s =
     (let email = identity c; token = trim_space (hr_query (c_req c) ''token'') in
      if email = [] then (err_json ''no identity'' 401, s)
      else if token = [] then (err_json ''missing magic-link token'' 400, s)
      else case dbMagicLinkByTokenHash (c_sha c token) (gs_db s) of
          None \<Rightarrow> (err_json ''this magic link is invalid, expired, or revoked'' 403, s)
        | Some m \<Rightarrow>
            if \<not> ml_live (c_now c) m then (err_json ''this magic link is invalid, expired, or revoked'' 403, s)
            else if \<not> eq_fold (ml_host m) (outer_host c) then (redirect (magicLinkURL (ml_host m) token), s)
            else
              let old = deviceIDFromRequest (c_mac c) (c_key c) (c_req c) email;
                  devid = (case old of Some d \<Rightarrow> d | None \<Rightarrow> c_id c);
                  rs = redirect (''https://'' @ ml_host m @ ''/'');
                  rs' = (if old = None then setDeviceCookie c email devid rs else rs)
              in case dbAddEndpointDeviceTrust (c_now c) devid (ml_host m) email (gs_acl s) (gs_db s) of (ok, db) \<Rightarrow>
                if \<not> ok then (err_json ''record trust'' 500, s\<lparr>gs_db := db\<rparr>)
                else (rs', s\<lparr>gs_db := recordEvent (c_now c) email ''magiclink.redeem'' (ml_host m) db\<rparr>))"

definition handleMagicLinkList :: handler where
  "handleMagicLinkList c s =
     (let host = outer_host c in
      if roleFor host (identity c) (groups c) (gs_acl s) \<noteq> RoleOwner then (err_json ''owners only'' 403, s)
      else (answer 200 (BLinks (dbListMagicLinks (c_now c) host (gs_db s))), s))"

definition handleMagicLinkRevoke :: handler where
  "handleMagicLinkRevoke c s =
     (let email = identity c; host = outer_host c; mid = hr_json (c_req c) ''id'' in
      case canMintMagicLink email (groups c) host s of
        Some reason \<Rightarrow> (err_json reason 403, s)
      | None \<Rightarrow>
          if trim_space mid = [] then (err_json ''id required'' 400, s)
          else case dbRevokeMagicLink (c_now c) mid host (gs_db s) of (changed, db) \<Rightarrow>
            if \<not> changed then (err_json ''no such live magic link on this endpoint'' 404, s\<lparr>gs_db := db\<rparr>)
            else (answer 200 BOk, s\<lparr>gs_db := recordEvent (c_now c) email ''magiclink.revoke'' host db\<rparr>))"

section \<open>The device-trust phase of the gate\<close>

definition gateExemptPath :: "string \<Rightarrow> bool" where
  "gateExemptPath p \<longleftrightarrow>
     prefix ''/oauth2/'' p \<or> prefix ''/2fa-gate'' p \<or> prefix ''/bailey/api/'' p \<or> prefix ''/bailey/static'' p \<or>
     prefix ''/bailey/favicon'' p"

definition isTopLevelHTMLGet :: "http_req \<Rightarrow> bool" where
  "isTopLevelHTMLGet r \<longleftrightarrow>
     (if hr_method r \<noteq> ''GET'' then False
      else
        let dest = hr_header r ''Sec-Fetch-Dest'' in
        if dest = ''document'' \<or> dest = ''iframe'' \<or> dest = ''frame'' then True
        else if dest = [] then str_contains (hr_header r ''Accept'') ''text/html''
        else False)"

text \<open>The answer to an untrusted device: an error for anything but a page; an error page when the
  dance between the hosts does not converge; otherwise the origin is stashed and the browser sent to
  the onboarding host.\<close>

definition gate_refusal :: "ctx \<Rightarrow> gate_state \<Rightarrow> (resp + (string \<times> string) list) \<times> gate_state" where
  "gate_refusal c s =
     (let r = c_req c in
      if \<not> isTopLevelHTMLGet r then (Inl (err_json ''device not trusted'' 401), s)
      else case trustDanceExhausted r of (exhausted, ck) \<Rightarrow>
        if exhausted then (Inl (add_cookie ck (answer 403 (BPage ''Couldn't establish device trust''))), s)
        else (Inl (add_cookie (rememberOrigin r) (add_cookie ck
               (answer 200 (BOkRedirect (onboardDeviceGrantURL (c_domain c)))))), s))"

text \<open>\<open>Inl\<close>: the gate answered; \<open>Inr\<close>: the request goes on, with the cookies to set.\<close>

definition enforceMFAGate :: "ctx \<Rightarrow> gate_state \<Rightarrow> (resp + (string \<times> string) list) \<times> gate_state" where
  "enforceMFAGate c s =
     (let r = c_req c; email = identity c in
      if gateExemptPath (hr_path r) then (Inr [], s)
      else if email = [] then (Inr [], s)
      else
        let s1 = applySSORoleMapping c email (groups c) s in
        if onOnboardHost (c_domain c) r then (Inr [], s1)
        else case current_device c email (gs_db s1) of
            Some dev \<Rightarrow>
              (Inr (if deviceCookieOlderThan (c_now c) r (24 * 60 * 60 * sec)
                    then [(deviceCookieName, signedDeviceCookie (c_mac c) (c_key c) email (dv_id dev) (c_now c))] else []),
               db_upd (dbTouchDevice (c_now c) email (dv_id dev)) s1)
          | None \<Rightarrow>
              (case deviceIDFromRequest (c_mac c) (c_key c) r email of
                 Some d \<Rightarrow>
                   if dbEndpointDeviceTrusted d (outer_host c) (gs_db s1) then (Inr [], s1)
                   else gate_refusal c s1
               | None \<Rightarrow> gate_refusal c s1))"

section \<open>Devices and approvals behind the gate\<close>

definition handleBaileyDevicesAPI :: handler where
  "handleBaileyDevicesAPI c s =
     (let email = identity c in
      (answer 200 (BDevices (map (\<lambda>d. (d, (case current_device c email (gs_db s) of Some cur \<Rightarrow> dv_id cur = dv_id d | None \<Rightarrow> False)))
         (dbListDevices email (gs_db s)))), s))"

definition handleBaileyDevicesRemoveAPI :: handler where
  "handleBaileyDevicesRemoveAPI c s =
     (let devid = form c ''id'' in
      if \<not> hr_form_ok (c_req c) then (err_json ''form'' 400, s)
      else if devid = [] then (err_json ''id required'' 400, s)
      else (answer 200 BOk, db_upd (removeDevice (c_now c) (identity c) devid) s))"

definition handleBaileyDevicesRenameAPI :: handler where
  "handleBaileyDevicesRenameAPI c s =
     (let devid = form c ''id'' in
      if \<not> hr_form_ok (c_req c) then (err_json ''form'' 400, s)
      else if devid = [] then (err_json ''id required'' 400, s)
      else case validDeviceName (hr_form (c_req c) ''name'') of
          Inl msg \<Rightarrow> (err_json msg 400, s)
        | Inr name \<Rightarrow>
            (case renameDevice (c_now c) (identity c) devid name (gs_db s) of (renamed, db) \<Rightarrow>
               if \<not> renamed then (err_json ''device not found'' 404, s\<lparr>gs_db := db\<rparr>)
               else (answer 200 (BApproved devid name), s\<lparr>gs_db := db\<rparr>)))"

definition handleBaileyApprovalsAPI :: handler where
  "handleBaileyApprovalsAPI c s =
     (answer 200 (BRequests (visiblePendingRequests (c_now c) (identity c) (callerIsAdmin (identity c) (gs_db s)) (gs_db s))), s)"

definition handleBaileyApprovalDenyAPI :: handler where
  "handleBaileyApprovalDenyAPI c s =
     (let email = identity c; target = form c ''email'' in
      if \<not> hr_form_ok (c_req c) then (err_json ''form'' 400, s)
      else if target = [] then (err_json ''email is required'' 400, s)
      else if \<not> callerIsAdmin email (gs_db s) \<and> \<not> eq_fold target email
      then (err_json ''you can only dismiss your own pending device requests'' 403, s)
      else handleBaileyApprovalsAPI c (db_upd (dbDeletePendingPairByEmail target) s))"

text \<open>The admin's page (\<open>bailey_admin_devices.go\<close>): the devices of all accounts by account, with the
  pending request of each, and the requests of accounts without a device.\<close>

definition add_user_device :: "string list \<Rightarrow> admin_user list \<Rightarrow> device_row \<times> bool \<Rightarrow> admin_user list" where
  "add_user_device totpSet rows d =
     (let k = to_lower (dv_email (fst d)) in
      if list_ex (\<lambda>u. to_lower (au_email u) = k) rows
      then map (\<lambda>u. if to_lower (au_email u) = k then u\<lparr>au_devices := au_devices u @ [d]\<rparr> else u) rows
      else rows @ [\<lparr>au_email = dv_email (fst d), au_totp = (k \<in> set totpSet), au_devices = [d], au_pair = None\<rparr>])"

definition attach_pair :: "string list \<Rightarrow> admin_user list \<times> admin_user list \<Rightarrow> pairing \<Rightarrow> admin_user list \<times> admin_user list" where
  "attach_pair totpSet acc p =
     (case acc of (rows, orphans) \<Rightarrow>
        let k = to_lower (pp_email p) in
        if list_ex (\<lambda>u. to_lower (au_email u) = k) rows
        then (map (\<lambda>u. if to_lower (au_email u) = k then u\<lparr>au_pair := Some p\<rparr> else u) rows, orphans)
        else (rows, orphans @ [\<lparr>au_email = pp_email p, au_totp = (k \<in> set totpSet), au_devices = [], au_pair = Some p\<rparr>]))"

definition handleAdminDevicesAPI :: handler where
  "handleAdminDevicesAPI c s =
     (let db = gs_db s; totpSet = dbListTOTPEnrolledEmails db;
          cur = (case current_device c (hr_header (c_req c) ''X-Forwarded-Email'') db of Some d \<Rightarrow> dv_id d | None \<Rightarrow> []);
          rows = foldl (add_user_device totpSet) [] (map (\<lambda>d. (d, dv_id d = cur)) (dbListAllDevices db));
          res = foldl (attach_pair totpSet) (rows, []) (visiblePendingRequests (c_now c) [] True db)
      in (answer 200 (BUsers (fst res) (snd res)), s))"

definition handleAdminDeviceRemoveAPI :: handler where
  "handleAdminDeviceRemoveAPI c s =
     (let email = form c ''email''; devid = form c ''id'' in
      if \<not> hr_form_ok (c_req c) then (err_json ''form'' 400, s)
      else if email = [] \<or> devid = [] then (err_json ''email and id required'' 400, s)
      else (answer 200 BOk, db_upd (removeDevice (c_now c) email devid) s))"

definition totp_remove :: handler where
  "totp_remove c s =
     (if identity c = [] then (err_json ''no identity'' 401, s)
      else (answer 200 BOk, db_upd (dbDeleteTOTP (identity c)) s))"

section \<open>People and invites\<close>

definition handleSetUserRole :: handler where
  "handleSetUserRole c s =
     (let email = trim_space (hr_json (c_req c) ''email''); role = trim_space (hr_json (c_req c) ''role'') in
      if \<not> hr_json_ok (c_req c) then (err_json ''bad request'' 400, s)
      else if email = [] \<or> \<not> validRole role then (err_json ''email and a valid role are required'' 400, s)
      else if eq_fold email (trim_space (serverRootAdmin (gs_db s))) \<and> role \<noteq> ''admin''
      then (err_json ''the root admin's role can't be changed'' 409, s)
      else (answer 200 (BApproved email role), db_upd (\<lambda>db. snd (dbSetUserRole (c_now c) email role (identity c) db)) s))"

definition buildInviteLink :: "string \<Rightarrow> string \<Rightarrow> string option" where
  "buildInviteLink d token =
     (if d = [] then None else Some (''https://'' @ serverConsoleOnboardHost d @ ''/?invite='' @ token))"

definition handleBaileyPeopleInvite :: handler where
  "handleBaileyPeopleInvite c s =
     (let email = trim_space (hr_json (c_req c) ''email''); role0 = trim_space (hr_json (c_req c) ''role'');
          role = (if role0 = [] then ''member'' else role0); now = c_now c in
      if \<not> hr_json_ok (c_req c) then (err_json ''bad request'' 400, s)
      else if email = [] \<or> (role \<noteq> ''member'' \<and> role \<noteq> ''admin'')
      then (err_json ''email and a role of member or admin are required'' 400, s)
      else if dbListDevices email (gs_db s) \<noteq> []
      then (err_coded ''that user already has a trusted device on this server'' ''already_trusted'' 409, s)
      else case c_org c of
          None \<Rightarrow> (err_json ''could not verify org membership with the AOC'' 502, s)
        | Some members \<Rightarrow>
            let canonical = (case find (\<lambda>u. eq_fold (trim_space u) email) members of Some u \<Rightarrow> trim_space u | None \<Rightarrow> []) in
            if canonical = [] then (err_coded ''that email is not a member of this server's organization'' ''not_in_org'' 400, s)
            else case buildInviteLink (c_domain c) (c_token c) of
                None \<Rightarrow> (err_json ''no protected domain configured for this server'' 500, s)
              | Some link \<Rightarrow>
                  let v = \<lparr>iv_email = canonical, iv_hash = c_sha c (c_token c), iv_role = role, iv_by = identity c,
                           iv_created = now, iv_expires = now + inviteTTL, iv_consumed = None\<rparr>
                  in (answer 200 (BInvite link v),
                      db_upd (recordEvent now (identity c) ''invite.create'' canonical \<circ> dbUpsertInvite v) s))"

definition handleBaileyInviteRevoke :: handler where
  "handleBaileyInviteRevoke c s =
     (let email = trim_space (hr_json (c_req c) ''email'') in
      if \<not> hr_json_ok (c_req c) \<or> email = [] then (err_json ''email is required'' 400, s)
      else case dbDeleteInvite email (gs_db s) of (deleted, db) \<Rightarrow>
        if \<not> deleted then (err_json ''no outstanding invite for that email'' 404, s\<lparr>gs_db := db\<rparr>)
        else (answer 200 BOk, s\<lparr>gs_db := recordEvent (c_now c) (identity c) ''invite.revoke'' email db\<rparr>))"

definition handleBaileyInviteResend :: handler where
  "handleBaileyInviteResend c s =
     (let email = trim_space (hr_json (c_req c) ''email''); now = c_now c in
      if \<not> hr_json_ok (c_req c) \<or> email = [] then (err_json ''email is required'' 400, s)
      else case dbLoadInviteByEmail email (gs_db s) of
          None \<Rightarrow> (err_json ''no outstanding invite for that email'' 404, s)
        | Some old \<Rightarrow>
            if inv_consumed old then (err_json ''no outstanding invite for that email'' 404, s)
            else if dbListDevices (iv_email old) (gs_db s) \<noteq> []
            then (err_coded ''that user already has a trusted device on this server'' ''already_trusted'' 409, s)
            else case buildInviteLink (c_domain c) (c_token c) of
                None \<Rightarrow> (err_json ''no protected domain configured for this server'' 500, s)
              | Some link \<Rightarrow>
                  let v = old\<lparr>iv_hash := c_sha c (c_token c), iv_created := now, iv_expires := now + inviteTTL\<rparr>
                  in (answer 200 (BInvite link v),
                      db_upd (recordEvent now (identity c) ''invite.resend'' (iv_email v) \<circ> dbUpsertInvite v) s))"

section \<open>Routing\<close>

definition elsewhere :: handler where "elsewhere c s = (answer 200 BElsewhere, s)"

definition trusted_routes :: "string \<Rightarrow> string \<Rightarrow> handler option" where
  "trusted_routes m path =
     (if path = ''/bailey/api/devices'' \<and> m = ''GET'' then Some handleBaileyDevicesAPI
      else if path = ''/bailey/api/devices/remove'' \<and> m = ''POST'' then Some handleBaileyDevicesRemoveAPI
      else if path = ''/bailey/api/devices/rename'' \<and> m = ''POST'' then Some handleBaileyDevicesRenameAPI
      else if path = ''/bailey/api/totp/remove'' \<and> m = ''POST'' then Some totp_remove
      else if path = ''/bailey/api/approvals'' \<and> m = ''GET'' then Some handleBaileyApprovalsAPI
      else if path = ''/bailey/api/approvals/deny'' \<and> m = ''POST'' then Some handleBaileyApprovalDenyAPI
      else if path \<in> set [''/bailey/api/notifications-count'', ''/bailey/api/people/directory'', ''/bailey/api/endpoints'',
                          ''/bailey/api/workspaces'', ''/bailey/api/workspaces/empty-trash''] then Some elsewhere
      else None)"

definition admin_routes :: "string \<Rightarrow> string \<Rightarrow> handler" where
  "admin_routes m path =
     (if path = ''/bailey/api/people/invite'' \<and> m = ''POST'' then handleBaileyPeopleInvite
      else if path = ''/bailey/api/people/invites/revoke'' \<and> m = ''POST'' then handleBaileyInviteRevoke
      else if path = ''/bailey/api/people/invites/resend'' \<and> m = ''POST'' then handleBaileyInviteResend
      else if path = ''/bailey/api/people/role'' \<and> m = ''POST'' then handleSetUserRole
      else if path = ''/bailey/api/admin/devices'' \<and> m = ''GET'' then handleAdminDevicesAPI
      else if path = ''/bailey/api/admin/devices/remove'' \<and> m = ''POST'' then handleAdminDeviceRemoveAPI
      else elsewhere)"

definition handleBailey :: handler where
  "handleBailey c s =
     (let path = hr_path (c_req c); m = hr_method (c_req c) in
      if path = ''/bailey/favicon.svg'' \<or> path = ''/bailey/api/whoami'' \<or> prefix ''/bailey/static/'' path \<or>
         path = ''/bailey/signout'' then elsewhere c s
      else case handleGateAPI path of
          Some h \<Rightarrow> h c s
        | None \<Rightarrow>
            if current_device c (identity c) (gs_db s) = None then (err_json ''device not trusted'' 401, s)
            else case trusted_routes m path of
                Some h \<Rightarrow> h c s
              | None \<Rightarrow>
                  if prefix ''/bailey/api/workspaces/'' path \<and> m = ''POST'' then elsewhere c s
                  else if \<not> callerIsAdmin (identity c) (gs_db s) then (err_json ''admin only'' 403, s)
                  else admin_routes m path c s)"

definition gate_pages :: "string \<Rightarrow> handler option" where
  "gate_pages path =
     (if path = ''/2fa-gate/api/device-grant'' then Some handleDeviceGrant
      else if path = ''/2fa-gate/api/device-claim'' then Some handleDeviceClaim
      else if path = ''/2fa-gate/api/magic-link/create'' then Some handleMagicLinkCreate
      else if path = ''/2fa-gate/api/magic-link/redeem'' then Some handleMagicLinkRedeem
      else if path = ''/2fa-gate/api/magic-link/list'' then Some handleMagicLinkList
      else if path = ''/2fa-gate/api/magic-link/revoke'' then Some handleMagicLinkRevoke
      else if path = ''/2fa-gate/claim'' then Some claimHandler
      else if path = ''/2fa-gate/pending-pair'' then Some pendingPairHandler
      else if path = ''/2fa-gate/pending-pair/poll'' then Some pendingPairPollHandler
      else if path = ''/2fa-gate/self-trust'' then Some selfTrustHandler
      else if path = ''/2fa-gate/approve'' then Some approveHandler
      else if path = ''/2fa-gate/recovery'' then Some recoveryHandler
      else if path = ''/2fa-gate/account/devices'' then Some accountDevicesHandler
      else if path = ''/2fa-gate/account/2fa'' then Some accountTOTPHandler
      else None)"

text \<open>The share, people and public-endpoint routes belong to other components.\<close>

definition handleGatePath :: handler where
  "handleGatePath c s =
     (let path = hr_path (c_req c) in
      if identity c = [] then (err_json ''no identity on request'' 403, s)
      else if path = ''/2fa-gate/whoami'' \<or> prefix ''/2fa-gate/api/share/'' path \<or>
         path = ''/2fa-gate/api/people/directory'' \<or> path = ''/2fa-gate/api/org-invite'' \<or>
         path = ''/2fa-gate/share'' \<or> prefix ''/2fa-gate/share/'' path \<or> prefix ''/2fa-gate/request-access/'' path then elsewhere c s
      else case gate_pages path of
          Some h \<Rightarrow> h c s
        | None \<Rightarrow>
            if prefix ''/2fa-gate/enroll'' path \<or> prefix ''/2fa-gate/challenge'' path
            then handleTOTPGate ''/2fa-gate'' c s
            else elsewhere c s)"

end
