(* ===== verification/Gate_Socket.thy ===== *)
theory Gate_Socket
  imports Gate_Hosts
begin

text \<open>
  The operator's side of the trust store: the Unix-socket API of the daemon (\<open>server.go\<close>,
  \<open>workspace_secrets_auth.go\<close>, \<open>bailey_devices_socket_api.go\<close>, \<open>bailey_access_socket_api.go\<close>, and the
  role look-ups of \<open>bailey_people.go\<close>). Every workspace container can reach the socket, so the
  privileged handlers ask for the admin token on top. Then the steps of the daemon: everything that
  changes the trust store and the access lists.
\<close>

section \<open>The admin token\<close>

text \<open>\<open>strings.SplitN(s, " ", 2)\<close> where it has two parts.\<close>

definition cut_space :: "string \<Rightarrow> (string \<times> string) option" where
  "cut_space s =
     (let a = takeWhile (\<lambda>x. x \<noteq> CHR '' '') s in
      if length a = length s then None else Some (a, drop (length a + 1) s))"

definition adminPrincipalHostCLI :: string where "adminPrincipalHostCLI = ''host-cli''"
definition adminPrincipalDaemon :: string where "adminPrincipalDaemon = ''daemon-token''"

definition callerAdminPrincipal :: "ctx \<Rightarrow> string option" where
  "callerAdminPrincipal c =
     (case cut_space (hr_header (c_req c) ''Authorization'') of
        None \<Rightarrow> None
      | Some (scheme, rest) \<Rightarrow>
          if \<not> eq_fold scheme ''bearer'' then None
          else
            let token = trim_space rest; host = trim_space (c_host_token c) in
            if token = [] then None
            else if c_daemon_token c \<noteq> [] \<and> token = c_daemon_token c then Some adminPrincipalDaemon
            else if host \<noteq> [] \<and> token = host then Some adminPrincipalHostCLI
            else None)"

definition callerHasAdminToken :: "ctx \<Rightarrow> bool" where
  "callerHasAdminToken c \<longleftrightarrow> callerAdminPrincipal c \<noteq> None"

text \<open>A peer on the socket has the address \<open>@\<close> or none, and passes without a token.\<close>

definition authMiddleware :: "handler \<Rightarrow> handler" where
  "authMiddleware next c s =
     (let h = hr_header (c_req c) ''Authorization'' in
      if hr_remote (c_req c) = [] \<or> hr_remote (c_req c) = ''@'' then next c s
      else if h = [] then (err_json ''missing Authorization header'' 401, s)
      else case cut_space h of
          None \<Rightarrow> (err_json ''invalid Authorization header format'' 401, s)
        | Some (scheme, token) \<Rightarrow>
            if to_lower scheme \<noteq> ''bearer'' then (err_json ''invalid Authorization header format'' 401, s)
            else if token \<noteq> c_daemon_token c then (err_json ''invalid token'' 401, s)
            else next c s)"

section \<open>Devices\<close>

definition root_or_cli :: "gate_state \<Rightarrow> string" where
  "root_or_cli s = (if serverRootAdmin (gs_db s) = [] then ''cli'' else serverRootAdmin (gs_db s))"

definition handleDeviceApprove :: handler where
  "handleDeviceApprove c s =
     (let cd = trim_space (hr_json (c_req c) ''code''); email = trim_space (hr_json (c_req c) ''email'') in
      if req_method c \<noteq> ''POST'' then (not_allowed, s)
      else case callerAdminPrincipal c of
          None \<Rightarrow> (err_json ''approving a device requires the automation-server admin token'' 403, s)
        | Some prin \<Rightarrow>
            if \<not> hr_json_ok (c_req c) then (err_json ''invalid request body'' 400, s)
            else if cd = [] then (err_json ''code is required'' 400, s)
            else if email \<noteq> [] \<and>
                (case dbLoadPendingPairByCode cd (gs_db s) of None \<Rightarrow> True | Some e \<Rightarrow> \<not> eq_fold (pp_email e) email)
            then (err_json ''no pending device request matches that code'' 404, s)
            else case approvePendingPairByCodeVia (c_now c) cd (root_or_cli s) prin (gs_db s) of
                (None, db) \<Rightarrow> (err_json ''no pending device request matches that code'' 404, s\<lparr>gs_db := db\<rparr>)
              | (Some e, db) \<Rightarrow>
                  (answer 200 (BApproved (pp_email e) []),
                   s\<lparr>gs_db := recordEvent (c_now c) prin ''device.approve'' (pp_email e) db\<rparr>))"

definition handleDevicesPending :: handler where
  "handleDevicesPending c s =
     (if req_method c \<noteq> ''GET'' then (not_allowed, s)
      else if \<not> callerHasAdminToken c
      then (err_json ''listing pending device requests requires the automation-server admin token'' 403, s)
      else
        let s1 = db_upd (dbPurgeExpiredPendingPairs (c_now c)) s
        in (answer 200 (BRequests (filter (\<lambda>e. \<not> pp_expires e < c_now c) (dbListPendingPairs (gs_db s1)))), s1))"

section \<open>Endpoint access\<close>

record access_grant_request =
  ag_host :: string
  ag_principal :: string
  ag_ptype :: string
  ag_role :: string

definition normalize_request :: "access_grant_request \<Rightarrow> access_grant_request" where
  "normalize_request r =
     (let t = trim_space (ag_ptype r); ro = trim_space (ag_role r) in
      \<lparr>ag_host = trim_space (ag_host r), ag_principal = trim_space (ag_principal r),
       ag_ptype = (if t = [] then ''email'' else t), ag_role = (if ro = [] then ''access'' else ro)\<rparr>)"

definition decode_request :: "ctx \<Rightarrow> access_grant_request" where
  "decode_request c =
     \<lparr>ag_host = hr_json (c_req c) ''host'', ag_principal = hr_json (c_req c) ''principal'',
      ag_ptype = hr_json (c_req c) ''principal_type'', ag_role = hr_json (c_req c) ''role''\<rparr>"

definition accessAuditTarget :: "access_grant_request \<Rightarrow> string" where
  "accessAuditTarget r = ag_host r @ '' '' @ ag_ptype r @ '':'' @ ag_principal r @ '' role='' @ ag_role r"

definition handleAccessGrant :: handler where
  "handleAccessGrant c s =
     (let r = normalize_request (decode_request c) in
      if req_method c \<noteq> ''POST'' then (not_allowed, s)
      else case callerAdminPrincipal c of
          None \<Rightarrow> (err_json ''granting access requires the automation-server admin token'' 403, s)
        | Some actor \<Rightarrow>
            if \<not> hr_json_ok (c_req c) then (err_json ''invalid request body'' 400, s)
            else if ag_host r = [] \<or> ag_principal r = [] then (err_json ''host and principal are required'' 400, s)
            else if getEndpoint (ag_host r) (gs_acl s) = None then (err_json ''no registered endpoint'' 404, s)
            else case addGrant (c_now c) (ag_host r) (ag_ptype r) (ag_principal r) (ag_role r) (root_or_cli s) (gs_acl s) of
                (Some e, acl) \<Rightarrow> (err_json ''grant'' 400, s\<lparr>gs_acl := acl\<rparr>)
              | (None, acl) \<Rightarrow>
                  (answer 200 BOk,
                   db_upd (recordEvent (c_now c) actor ''access.grant'' (accessAuditTarget r)) (s\<lparr>gs_acl := acl\<rparr>)))"

definition handleAccessRevoke :: handler where
  "handleAccessRevoke c s =
     (let r = normalize_request (decode_request c) in
      if req_method c \<noteq> ''POST'' then (not_allowed, s)
      else case callerAdminPrincipal c of
          None \<Rightarrow> (err_json ''revoking access requires the automation-server admin token'' 403, s)
        | Some actor \<Rightarrow>
            if \<not> hr_json_ok (c_req c) then (err_json ''invalid request body'' 400, s)
            else if ag_host r = [] \<or> ag_principal r = [] then (err_json ''host and principal are required'' 400, s)
            else
              (answer 200 BOk,
               db_upd (recordEvent (c_now c) actor ''access.revoke'' (accessAuditTarget r))
                 (s\<lparr>gs_acl := removeGrant (ag_host r) (ag_ptype r) (ag_principal r) (ag_role r) (gs_acl s)\<rparr>)))"

definition handleAccessList :: handler where
  "handleAccessList c s =
     (let host = trim_space (hr_query (c_req c) ''host'') in
      if req_method c \<noteq> ''GET'' then (not_allowed, s)
      else if \<not> callerHasAdminToken c then (err_json ''listing endpoint access requires the automation-server admin token'' 403, s)
      else if host = [] then (err_json ''host query parameter is required'' 400, s)
      else case getEndpoint host (gs_acl s) of
          None \<Rightarrow> (err_json ''no registered endpoint'' 404, s)
        | Some ep \<Rightarrow> (answer 200 (BGrants (ep_owner ep) (listGrants host (gs_acl s))), s))"

section \<open>Roles\<close>

definition handleUserRole :: handler where
  "handleUserRole c s =
     (let email = trim_space (hr_query (c_req c) ''email'') in
      if req_method c \<noteq> ''GET'' then (not_allowed, s)
      else if email = [] then (err_json ''email query parameter is required'' 400, s)
      else (answer 200 (BRoles [(email, effectiveRole email (gs_db s))]), s))"

definition handleWorkspaceAuditors :: handler where
  "handleWorkspaceAuditors c s =
     (let users = dbListUsersByRoles [''admin'', ''auditor''] (gs_db s); root = trim_space (serverRootAdmin (gs_db s)) in
      if req_method c \<noteq> ''GET'' then (not_allowed, s)
      else (answer 200 (BRoles
        (if root \<noteq> [] \<and> to_lower root \<notin> set (map (to_lower \<circ> fst) users) then (root, ''admin'') # users else users)), s))"

text \<open>The routes of \<open>setupRoutes\<close> modelled here; each stands behind \<open>authMiddleware\<close>.\<close>

definition socket_routes :: "string \<Rightarrow> handler option" where
  "socket_routes path =
     (if path = ''/bailey/devices/approve'' then Some handleDeviceApprove
      else if path = ''/bailey/devices/pending'' then Some handleDevicesPending
      else if path = ''/bailey/access/grant'' then Some handleAccessGrant
      else if path = ''/bailey/access/revoke'' then Some handleAccessRevoke
      else if path = ''/bailey/access/list'' then Some handleAccessList
      else if path = ''/bailey/role'' then Some handleUserRole
      else if path = ''/bailey/auditors'' then Some handleWorkspaceAuditors
      else None)"

definition socketPrivilegedRoutes :: "string list" where
  "socketPrivilegedRoutes =
     [''/bailey/devices/approve'', ''/bailey/devices/pending'', ''/bailey/access/grant'', ''/bailey/access/revoke'',
      ''/bailey/access/list'', ''/bailey/sso/disable'', ''/bailey/sso/status'']"

definition handleSocket :: handler where
  "handleSocket c s =
     (case socket_routes (hr_path (c_req c)) of
        None \<Rightarrow> elsewhere c s
      | Some h \<Rightarrow> authMiddleware h c s)"

section \<open>Everything that changes the state\<close>

text \<open>One step of the daemon: a request to one of the two path families, a request that passes the
  gate to an application, a request on the socket, the deletion of an endpoint with the rows that hang
  on it; and what the other components write: any setting but the two of the claim, any audit row, any
  change of the access lists.\<close>

datatype gate_call =
  Bailey ctx
| GatePath ctx
| Proxied ctx
| Socket ctx
| DeleteEndpoint string
| OtherSetting string "(string \<times> int \<times> string) option"
| OtherAudit event_row
| OtherAcl acl_db

definition cascade :: "string \<Rightarrow> trust_db \<Rightarrow> trust_db" where
  "cascade host db =
     db\<lparr>td_links := delete_rows (\<lambda>m. eq_fold (ml_host m) host) (td_links db),
        td_scoped := delete_rows (\<lambda>t. eq_fold (st_host t) host) (td_scoped db)\<rparr>"

fun gate_step :: "gate_call \<Rightarrow> gate_state \<Rightarrow> gate_state" where
  "gate_step (Bailey c) s = snd (handleBailey c s)"
| "gate_step (GatePath c) s = snd (handleGatePath c s)"
| "gate_step (Proxied c) s = snd (enforceMFAGate c s)"
| "gate_step (Socket c) s = snd (handleSocket c s)"
| "gate_step (DeleteEndpoint host) s = s\<lparr>gs_db := cascade host (gs_db s), gs_acl := deleteEndpoint host (gs_acl s)\<rparr>"
| "gate_step (OtherSetting k v) s =
     (if k = ''root_admin_email'' \<or> k = ''claimed_at'' then s
      else db_upd (\<lambda>db. db\<lparr>td_settings := (td_settings db)(k := v)\<rparr>) s)"
| "gate_step (OtherAudit e) s = db_upd (\<lambda>db. db\<lparr>td_events := td_events db @ [e]\<rparr>) s"
| "gate_step (OtherAcl acl) s = s\<lparr>gs_acl := acl\<rparr>"

section \<open>The admin token is enough and needed\<close>

lemma cut_space_append [simp]: "CHR '' '' \<notin> set a \<Longrightarrow> cut_space (a @ CHR '' '' # b) = Some (a, b)"
proof -
  assume "CHR '' '' \<notin> set a"
  then have "takeWhile (\<lambda>x. x \<noteq> CHR '' '') (a @ CHR '' '' # b) = a" by (simp add: takeWhile_append)
  then show ?thesis by (simp add: cut_space_def)
qed

lemma privileged_routes_modelled:
  "path \<in> set socketPrivilegedRoutes \<Longrightarrow>
     socket_routes path \<noteq> None \<or> path = ''/bailey/sso/disable'' \<or> path = ''/bailey/sso/status''"
  by (auto simp: socketPrivilegedRoutes_def socket_routes_def)

lemma cut_space_Some: "cut_space s = Some (a, b) \<Longrightarrow> s = a @ CHR '' '' # b"
proof -
  define t where "t = takeWhile (\<lambda>x. x \<noteq> CHR '' '') s"
  define u where "u = dropWhile (\<lambda>x. x \<noteq> CHR '' '') s"
  have s: "s = t @ u" by (simp add: t_def u_def)
  assume "cut_space s = Some (a, b)"
  then have a: "a = t" "b = drop (length t + 1) s" "length t \<noteq> length s"
    by (auto simp: cut_space_def t_def [symmetric] Let_def split: if_splits)
  then have "u \<noteq> []" using s by auto
  then obtain v where "u = CHR '' '' # v"
    using hd_dropWhile [of "\<lambda>x. x \<noteq> CHR '' ''" s] by (cases u) (auto simp: u_def)
  then show ?thesis using a s by simp
qed


section \<open>A small server for the witnesses\<close>

definition no_trust :: trust_db where
  "no_trust =
     \<lparr>td_devices = [], td_pairs = [], td_totp = [], td_codes = [], td_invites = [], td_links = [], td_scoped = [],
      td_roles = [], td_settings = Map.empty, td_events = [], td_key = None\<rparr>"

definition fresh_server :: gate_state where
  "fresh_server =
     \<lparr>gs_db = no_trust, gs_throttle = Map.empty, gs_grants = [],
      gs_acl = \<lparr>db_endpoints = [], db_grants = [], db_requests = []\<rparr>\<rparr>"

definition sample_req :: "string \<Rightarrow> string \<Rightarrow> string \<Rightarrow> http_req" where
  "sample_req m path email =
     \<lparr>hr_method = m, hr_path = path, hr_rawquery = [], hr_hostport = ''onboard.x.org'', hr_remote = ''@'', hr_tls = True,
      hr_header = (\<lambda>h. if h = ''X-Forwarded-Email'' then email
                     else if h = ''Content-Type'' then ''application/json'' else []),
      hr_cookies = [], hr_query = (\<lambda>_. []), hr_form_ok = True, hr_form = (\<lambda>_. []), hr_json_ok = True,
      hr_json = (\<lambda>_. [])\<rparr>"

text \<open>The hash is the identity, a code is right when it is the secret, and the MAC a tag.\<close>

definition sample_ctx :: "string \<Rightarrow> http_req \<Rightarrow> ctx" where
  "sample_ctx i r =
     \<lparr>c_mac = (\<lambda>k m. ''m'' @ m), c_sha = (\<lambda>x. x), c_totp = (\<lambda>cd sec0 t. cd = sec0), c_domain = ''x.org'',
      c_date = (\<lambda>t. ''2025-01-01''), c_stamp = (\<lambda>t. ''2025-01-01T00:00:00Z''), c_hops = 0, c_key = ''k'',
      c_daemon_token = ''secret'', c_host_token = ''host'', c_sso = (\<lambda>_. None), c_reuse = (\<lambda>_. None), c_org = None,
      c_now = 1000000000000, c_id = i, c_code = 123456, c_codes = [''AAAA-BBBB''], c_secret = ''S'', c_token = ''T'' @ i,
      c_nonce = ''n'', c_req = r\<rparr>"

definition with_json :: "string \<Rightarrow> string \<Rightarrow> http_req \<Rightarrow> http_req" where
  "with_json k v r = r\<lparr>hr_json := (hr_json r)(k := v)\<rparr>"

definition with_header :: "string \<Rightarrow> string \<Rightarrow> http_req \<Rightarrow> http_req" where
  "with_header k v r = r\<lparr>hr_header := (hr_header r)(k := v)\<rparr>"

definition guessing_peer :: ctx where
  "guessing_peer =
     sample_ctx ''d1'' (with_json ''code'' ''123456''
       (with_header ''Authorization'' ''Bearer guess'' (sample_req ''POST'' ''/bailey/devices/approve'' [])))"

lemmas samples =
  no_trust_def fresh_server_def sample_req_def sample_ctx_def with_json_def with_header_def guessing_peer_def


end
