(* ===== verification/Gate_Trust.thy ===== *)
theory Gate_Trust
  imports Gate_Socket
begin

text \<open>
  What the gate guarantees about the trust store: how a device becomes trusted, who may approve one,
  the keys of the tables under every request, single use of invites, finality of a revocation; and
  the way around the second factor that the enrolment routes leave open.
\<close>

section \<open>New devices\<close>

definition device_ids :: "gate_state \<Rightarrow> string set" where "device_ids s = dv_id ` set (td_devices (gs_db s))"

definition new_devices :: "gate_state \<Rightarrow> gate_state \<Rightarrow> device_row set" where
  "new_devices s s' = {d \<in> set (td_devices (gs_db s')). dv_id d \<notin> device_ids s}"

definition admitted :: "ctx \<Rightarrow> gate_state \<Rightarrow> bool" where
  "admitted c s \<longleftrightarrow>
     (case mfaThrottleBegin (identity c) (client_ip c) (c_now c) (gs_throttle s) of ((fs, retry, ok), th) \<Rightarrow> ok)"

text \<open>The five ways to become trusted.\<close>

definition by_claim :: "ctx \<Rightarrow> gate_state \<Rightarrow> bool" where
  "by_claim c s \<longleftrightarrow> \<not> serverClaimed (gs_db s) \<and> eligibleToClaim (identity c) (groups c)"

definition by_approval :: "ctx \<Rightarrow> gate_state \<Rightarrow> gate_state \<Rightarrow> bool" where
  "by_approval c s s' \<longleftrightarrow>
     (\<exists>e\<in>set (td_pairs (gs_db s)). eq_fold (pp_email e) (identity c) \<and> pp_by e \<noteq> [] \<and> c_now c \<le> pp_expires e) \<and>
     \<not> (\<exists>e\<in>set (td_pairs (gs_db s')). eq_fold (pp_email e) (identity c))"

definition by_authenticator :: "ctx \<Rightarrow> gate_state \<Rightarrow> bool" where
  "by_authenticator c s \<longleftrightarrow>
     admitted c s \<and> (\<exists>t cd. dbLoadTOTP (identity c) (gs_db s) = Some t \<and> c_totp c cd (tt_secret t) (c_now c))"

definition by_backup_code :: "ctx \<Rightarrow> gate_state \<Rightarrow> gate_state \<Rightarrow> bool" where
  "by_backup_code c s s' \<longleftrightarrow>
     admitted c s \<and>
     (\<exists>code. (\<exists>b\<in>set (td_codes (gs_db s)). same_code (identity c) (hashBackupCode (c_sha c) code) b) \<and>
       \<not> (\<exists>b\<in>set (td_codes (gs_db s')). same_code (identity c) (hashBackupCode (c_sha c) code) b))"

definition by_invite :: "ctx \<Rightarrow> gate_state \<Rightarrow> gate_state \<Rightarrow> bool" where
  "by_invite c s s' \<longleftrightarrow>
     serverClaimed (gs_db s) \<and> dbListDevices (identity c) (gs_db s) = [] \<and>
     (\<exists>token v. dbLoadInviteByTokenHash (c_sha c token) (gs_db s) = Some v \<and> inv_live (c_now c) v \<and>
        eq_fold (trim_space (iv_email v)) (trim_space (identity c)) \<and>
        (\<exists>u\<in>set (td_invites (gs_db s)). consumable (c_sha c token) (c_now c) u \<and>
           u\<lparr>iv_consumed := Some (c_now c)\<rparr> \<in> set (td_invites (gs_db s'))) \<and>
        \<not> (\<exists>u\<in>set (td_invites (gs_db s')). consumable (c_sha c token) (c_now c) u))"

definition trust_reason :: "ctx \<Rightarrow> gate_state \<Rightarrow> gate_state \<Rightarrow> bool" where
  "trust_reason c s s' \<longleftrightarrow>
     by_claim c s \<or> by_approval c s s' \<or> by_authenticator c s \<or> by_backup_code c s s' \<or> by_invite c s s'"

lemma trust_reasonI:
  "by_claim c s \<Longrightarrow> trust_reason c s s'" "by_approval c s s' \<Longrightarrow> trust_reason c s s'"
  "by_authenticator c s \<Longrightarrow> trust_reason c s s'" "by_backup_code c s s' \<Longrightarrow> trust_reason c s s'"
  "by_invite c s s' \<Longrightarrow> trust_reason c s s'"
  by (simp_all add: trust_reason_def)

named_theorems frame \<open>what an operation leaves alone\<close>

lemma frame_db [frame, simp]:
  "td_devices (recordEvent now a act tgt db) = td_devices db"
  "td_devices (dbSetSetting now k v by' db) = td_devices db"
  "td_devices (dbUpsertPendingPair e db) = td_devices db"
  "td_devices (dbDeletePendingPairByEmail email db) = td_devices db"
  "td_devices (dbPurgeExpiredPendingPairs now db) = td_devices db"
  "td_devices (dbSaveTOTP rec db) = td_devices db"
  "td_devices (saveTOTPRecord now rec db) = td_devices db"
  "td_devices (dbDeleteTOTP email db) = td_devices db"
  "td_devices (dbSaveBackupCodes sha now email codes db) = td_devices db"
  "td_devices (dbUpsertInvite iv db) = td_devices db"
  "td_devices (snd (dbConsumeBackupCode sha email cd db)) = td_devices db"
  "td_devices (snd (dbConsumeInviteAtomic h now db)) = td_devices db"
  "td_devices (snd (dbDeleteInvite email db)) = td_devices db"
  "td_devices (snd (dbCreateMagicLink sha now mid tok host by' ttl acl db)) = td_devices db"
  "td_devices (snd (dbRevokeMagicLink now mid host db)) = td_devices db"
  "td_devices (snd (dbAddEndpointDeviceTrust now dev host email acl db)) = td_devices db"
  "td_devices (snd (dbSetUserRole now email role by' db)) = td_devices db"
  "td_devices (cascade host db) = td_devices db"
  by (simp_all add: trust_ops saveTOTPRecord_def dbSaveBackupCodes_def dbConsumeBackupCode_def dbConsumeInviteAtomic_def
      dbDeleteInvite_def dbCreateMagicLink_def dbRevokeMagicLink_def dbAddEndpointDeviceTrust_def dbSetUserRole_def
      cascade_def Let_def)

lemma frame_pairs [frame, simp]:
  "td_devices (snd (generatePendingPairUA now n email ua db)) = td_devices db"
  "td_devices (snd (approvePendingPair now email cd by' adm db)) = td_devices db"
  "td_devices (snd (approvePendingPairByCodeVia now cd by' via db)) = td_devices db"
  "td_devices (snd (claimPendingPair now email db)) = td_devices db"
  by (simp_all add: generatePendingPairUA_def approvePendingPair_def approvePendingPairByCodeVia_def claimPendingPair_def
      Let_def split: option.splits)

lemma frame_recordServerClaim [frame, simp]: "td_devices (recordServerClaim now stamp email db) = td_devices db"
  by (simp add: recordServerClaim_def)

lemma ids_update_devices:
  "(\<And>d. dv_id (f d) = dv_id d) \<Longrightarrow> dv_id ` set (td_devices (update_devices P f db)) = dv_id ` set (td_devices db)"
  using arg_cong [OF update_rows_keys [of dv_id f P "td_devices db"], of set] by (simp add: update_devices_def)

lemma ids_touch [simp]: "dv_id ` set (td_devices (dbTouchDevice now email d db)) = dv_id ` set (td_devices db)"
  by (simp add: dbTouchDevice_def ids_update_devices)

lemma ids_rename [simp]: "dv_id ` set (td_devices (snd (renameDevice now email d name db))) = dv_id ` set (td_devices db)"
  by (simp add: renameDevice_def dbRenameDevice_def ids_update_devices case_prod_beta)

lemma removeDevice_devices [simp]:
  "td_devices (removeDevice now email d db) = delete_rows (own_device email d) (td_devices db)"
  by (simp add: removeDevice_def dbRemoveDevice_def)

lemma ids_remove: "dv_id ` set (td_devices (removeDevice now email d db)) \<subseteq> dv_id ` set (td_devices db)"
  by (auto simp: removeDevice_def dbRemoveDevice_def)

lemma no_new_devices: "device_ids s' \<subseteq> device_ids s \<Longrightarrow> new_devices s s' = {}"
  by (auto simp: new_devices_def device_ids_def)

text \<open>A routine is neutral when it trusts no device.\<close>

definition neutral :: "(gate_state \<Rightarrow> 'a \<times> gate_state) \<Rightarrow> bool" where
  "neutral k \<longleftrightarrow> (\<forall>s. device_ids (snd (k s)) \<subseteq> device_ids s)"

lemma neutralD: "neutral k \<Longrightarrow> new_devices s (snd (k s)) = {}"
  by (simp add: neutral_def no_new_devices)

lemma device_ids_db_upd [simp]: "device_ids (db_upd f s) = dv_id ` set (td_devices (f (gs_db s)))"
  by (simp add: device_ids_def db_upd_def)

lemma device_ids_upd [simp]:
  "device_ids (s\<lparr>gs_db := db\<rparr>) = dv_id ` set (td_devices db)"
  "device_ids (s\<lparr>gs_throttle := th\<rparr>) = device_ids s"
  "device_ids (s\<lparr>gs_grants := g\<rparr>) = device_ids s"
  "device_ids (s\<lparr>gs_acl := a\<rparr>) = device_ids s"
  by (simp_all add: device_ids_def)

lemma device_ids_fold: "dv_id ` set (td_devices (gs_db s)) = device_ids s"
  by (simp add: device_ids_def)

text \<open>The pieces handlers are made of.\<close>

lemma neutral_json [simp]:
  "neutral (json_reject c email ep fs retry)" "neutral (json_fail c email ep msg fs retry)"
  by (simp_all add: neutral_def json_reject_def json_fail_def Let_def device_ids_def db_upd_def)

lemma neutral_page [simp]: "neutral (page n m)"
  by (simp add: neutral_def page_def)

lemma neutral_pairing_page [simp]: "neutral (pairing_page c n email m)"
  by (simp add: neutral_def pairing_page_def case_prod_beta device_ids_fold)

lemma neutral_html:
  assumes "\<And>m. neutral (pg m)"
  shows "neutral (mfaHTMLThrottleReject c email ep pg fs retry)" "neutral (mfaHTMLThrottleFail c email ep msg pg fs retry)"
  using assms
  by (simp_all add: neutral_def mfaHTMLThrottleReject_def mfaHTMLThrottleFail_def Let_def case_prod_beta device_ids_fold
      device_ids_db_upd [unfolded db_upd_def] db_upd_def)

lemma applySSORoleMapping_devices [simp]: "td_devices (gs_db (applySSORoleMapping c email gs s)) = td_devices (gs_db s)"
  by (simp add: applySSORoleMapping_def Let_def case_prod_beta split: option.splits)

definition paired_db :: "ctx \<Rightarrow> string \<Rightarrow> device_row \<Rightarrow> trust_db \<Rightarrow> trust_db" where
  "paired_db c email d db =
     dbDeletePendingPairByEmail email
       (recordEvent (c_now c) email ''device.approve'' (dv_id d) (db\<lparr>td_devices := td_devices db @ [d]\<rparr>))"

lemma paired_db_simps [simp]:
  "td_devices (paired_db c email d db) = td_devices db @ [d]"
  "td_pairs (paired_db c email d db) = delete_rows (\<lambda>p. eq_fold (pp_email p) email) (td_pairs db)"
  "td_codes (paired_db c email d db) = td_codes db"
  "td_invites (paired_db c email d db) = td_invites db"
  "td_totp (paired_db c email d db) = td_totp db"
  "td_roles (paired_db c email d db) = td_roles db"
  "td_settings (paired_db c email d db) = td_settings db"
  by (simp_all add: paired_db_def dbDeletePendingPairByEmail_def recordEvent_def)

lemma id_taken: "(\<exists>x\<in>set (td_devices (gs_db s)). dv_id x = i) \<longleftrightarrow> i \<in> device_ids s"
  unfolding device_ids_def by (metis image_iff)

lemma add_device_cases:
  obtains (taken) "add_device c email name o' s = (None, s)" "c_id c \<in> device_ids s"
  | (added) d where "add_device c email name o' s = (Some d, s\<lparr>gs_db := paired_db c email d (gs_db s)\<rparr>)"
      "dv_email d = email" "dv_id d = c_id c" "c_id c \<notin> device_ids s"
proof -
  note e = id_taken [of s "c_id c"]
  show ?thesis
  proof (cases "c_id c \<in> device_ids s")
    case True
    then have "add_device c email name o' s = (None, s)"
      by (simp add: add_device_def addDeviceWithOrigin_def dbAddDevice_def Let_def e)
    then show ?thesis using taken True by blast
  next
    case False
    then show ?thesis using added
      by (simp add: add_device_def addDeviceWithOrigin_def dbAddDevice_def Let_def e paired_db_def)
  qed
qed

text \<open>\<open>still k\<close>: the continuation only builds the response.\<close>

definition still :: "(gate_state \<Rightarrow> 'a \<times> gate_state) \<Rightarrow> bool" where "still k \<longleftrightarrow> (\<forall>s. snd (k s) = s)"

lemma still_simps [simp]: "still (ok_redirect c)" "still (\<lambda>s. (f s, s))"
  by (simp_all add: still_def ok_redirect_def)

lemma trust_device_snd:
  "snd (trust_device c email info k s) =
     (if c_id c \<in> device_ids s then s
      else snd (k (s\<lparr>gs_db := paired_db c email
        \<lparr>dv_id = c_id c, dv_email = email,
         dv_name = (let name = deviceNameFromRequest c @ (if info \<noteq> [] then [CHR '' '', CHR 0xC2, CHR 0xB7] @ '' approved by '' @ info else [])
                    in if trim_space name = [] then ''Device added '' @ c_date c (c_now c) else name),
         dv_paired = rfc3339 (c_now c), dv_seen = None, dv_origin = ''linked''\<rparr> (gs_db s)\<rparr>)))"
  by (simp add: trust_device_def completeNewDevicePairFor_def add_device_def addDeviceWithOrigin_def dbAddDevice_def
      Let_def case_prod_beta id_taken paired_db_def)

lemma trust_device_effect:
  assumes "d \<in> new_devices s (snd (trust_device c email info k s))"
    and "\<And>s1. td_devices (gs_db (snd (k s1))) = td_devices (gs_db s1)"
  shows "dv_email d = email \<and> dv_id d = c_id c \<and>
    snd (trust_device c email info k s) = snd (k (s\<lparr>gs_db := paired_db c email d (gs_db s)\<rparr>))"
proof -
  have "c_id c \<notin> device_ids s" using assms(1) by (auto simp: trust_device_snd new_devices_def device_ids_def)
  then show ?thesis using assms by (auto simp: trust_device_snd new_devices_def device_ids_def)
qed

lemma throttled_effect:
  assumes d: "d \<in> new_devices s (snd (throttled c (identity c) rj fl chk k s))"
    and "\<And>fs r. neutral (rj fs r)" "\<And>fs r. neutral (fl fs r)"
    and "\<And>db. td_devices (snd (chk db)) = td_devices db"
  shows "\<exists>s2. admitted c s \<and> fst (chk (gs_db s)) \<and> gs_db s2 = snd (chk (gs_db s)) \<and>
    snd (throttled c (identity c) rj fl chk k s) = snd (k s2) \<and> d \<in> new_devices s2 (snd (k s2))"
proof -
  obtain fs retry allowed th where b: "mfaThrottleBegin (identity c) (client_ip c) (c_now c) (gs_throttle s) = ((fs, retry, allowed), th)"
    by (metis prod.exhaust)
  define s1 where "s1 = s\<lparr>gs_throttle := th\<rparr>"
  define s2 where "s2 = s1\<lparr>gs_db := snd (chk (gs_db s))\<rparr>"
  have ids: "device_ids s1 = device_ids s" "device_ids s2 = device_ids s"
    using assms(4) by (simp_all add: s1_def s2_def device_ids_def)
  have r: "snd (throttled c (identity c) rj fl chk k s) =
      (if \<not> allowed then snd (rj fs retry s1)
       else if \<not> fst (chk (gs_db s)) then snd (fl fs retry s2)
       else snd (k (s2\<lparr>gs_throttle := mfaThrottleReset (identity c) (client_ip c) (gs_throttle s2)\<rparr>)))"
    by (simp add: throttled_def b case_prod_beta Let_def s1_def s2_def)
  have "new_devices s s' = {}" if "device_ids s' \<subseteq> device_ids s" for s' using that by (rule no_new_devices)
  then have ok: "allowed" "fst (chk (gs_db s))"
    using d assms(2,3) ids unfolding r neutral_def by (auto split: if_splits) (metis empty_iff)+
  then show ?thesis
    using d ids unfolding r
    by (intro exI [of _ "s2\<lparr>gs_throttle := mfaThrottleReset (identity c) (client_ip c) (gs_throttle s2)\<rparr>"])
      (auto simp: admitted_def b new_devices_def device_ids_def s2_def)
qed

lemma throttled_neutral:
  assumes "\<And>fs r. neutral (rj fs r)" "\<And>fs r. neutral (fl fs r)" "neutral k"
    and "\<And>db. td_devices (snd (chk db)) = td_devices db"
  shows "device_ids (snd (throttled c email rj fl chk k s)) \<subseteq> device_ids s"
proof -
  have k: "device_ids (snd (k s1)) \<subseteq> device_ids s" if "td_devices (gs_db s1) = td_devices (gs_db s)" for s1
    using assms(3) that unfolding neutral_def device_ids_def by metis
  have rj: "device_ids (snd (rj fs r s1)) \<subseteq> device_ids s" if "td_devices (gs_db s1) = td_devices (gs_db s)" for fs r s1
    using assms(1) that unfolding neutral_def device_ids_def by metis
  have fl: "device_ids (snd (fl fs r s1)) \<subseteq> device_ids s" if "td_devices (gs_db s1) = td_devices (gs_db s)" for fs r s1
    using assms(2) that unfolding neutral_def device_ids_def by metis
  show ?thesis
    by (simp add: throttled_def case_prod_beta Let_def k rj fl assms(4))
qed

text \<open>A handler is justified when every device it trusts is the caller's and has one of the reasons.\<close>

definition justified :: "handler \<Rightarrow> bool" where
  "justified h \<longleftrightarrow>
     (\<forall>c s. \<forall>d\<in>new_devices s (snd (h c s)).
        dv_email d = identity c \<and> dv_id d = c_id c \<and> trust_reason c s (snd (h c s)))"

lemma neutral_justified: "(\<And>c. neutral (h c)) \<Longrightarrow> justified h"
  using neutralD by (fastforce simp: justified_def)

lemma justifiedI:
  "(\<And>c s d. d \<in> new_devices s (snd (h c s)) \<Longrightarrow> dv_email d = identity c \<and> dv_id d = c_id c \<and> trust_reason c s (snd (h c s)))
   \<Longrightarrow> justified h"
  by (simp add: justified_def)

lemma requireIdentity_snd: "snd (requireIdentity email k s) = (if trim_space email = [] then s else snd (k s))"
  by (simp add: requireIdentity_def)

lemma mfa_precheck_snd:
  "snd (mfa_precheck c email k s) =
     (if 0 < fst (mfaThrottleState email (client_ip c) (c_now c) (gs_throttle s)) then s else snd (k s))"
  by (simp add: mfa_precheck_def case_prod_beta)

lemma new_devices_same [simp]: "new_devices s s = {}"
  by (auto simp: new_devices_def device_ids_def)

lemmas handler_snd = requireIdentity_snd mfa_precheck_snd

lemma neutral_gate_api [simp]:
  "neutral (handleGateState c)" "neutral (handleGatePendingPair c)" "neutral (handleGateTOTPEnroll c)"
  "neutral (handleGateBackupCodesRegenerate c)"
  by (simp_all add: neutral_def handleGateState_def handleGatePendingPair_def handleGateTOTPEnroll_def
      handleGateBackupCodesRegenerate_def Let_def handler_snd case_prod_beta device_ids_fold)

lemma check_totp_devices [simp]: "td_devices (snd (check_totp c cd secret db)) = td_devices db"
  "fst (check_totp c cd secret db) = c_totp c cd secret (c_now c)" "snd (check_totp c cd secret db) = db"
  by (simp_all add: check_totp_def)

lemma neutral_handleGateTOTPVerify [simp]: "neutral (handleGateTOTPVerify c)"
proof -
  have k: "neutral (\<lambda>s. (f s, s\<lparr>gs_db := dbSaveBackupCodes sha now email codes (saveTOTPRecord now' rec (gs_db s))\<rparr>))"
    for f :: "gate_state \<Rightarrow> resp" and sha now email codes now' rec by (simp add: neutral_def device_ids_fold)
  have "device_ids (snd (throttled c email (json_reject c email ep) (json_fail c email ep msg) (check_totp c cd secret)
      (\<lambda>s. (f s, s\<lparr>gs_db := dbSaveBackupCodes sha now email codes (saveTOTPRecord now' rec (gs_db s))\<rparr>)) s)) \<subseteq> device_ids s"
    for f :: "gate_state \<Rightarrow> resp" and email ep msg cd secret sha now codes now' rec s
    by (rule throttled_neutral) (simp_all add: k)
  then show ?thesis by (simp add: neutral_def handleGateTOTPVerify_def Let_def handler_snd)
qed

definition claimed_state :: "ctx \<Rightarrow> string \<Rightarrow> gate_state \<Rightarrow> gate_state" where
  "claimed_state c email s =
     snd (add_device c email (deviceNameFromRequest c) ''root''
       (if serverRootAdmin (gs_db s) = [] then db_upd (recordServerClaim (c_now c) (c_stamp c (c_now c)) email) s else s))"

lemma claimed_state_new:
  assumes "d \<in> new_devices s (claimed_state c email s)" shows "dv_email d = email \<and> dv_id d = c_id c"
proof -
  define s1 where "s1 = (if serverRootAdmin (gs_db s) = [] then db_upd (recordServerClaim (c_now c) (c_stamp c (c_now c)) email) s else s)"
  have "td_devices (gs_db s1) = td_devices (gs_db s)" by (simp add: s1_def db_upd_def)
  then show ?thesis
    using assms unfolding claimed_state_def s1_def [symmetric]
    by (cases rule: add_device_cases [of c email "deviceNameFromRequest c" "''root''" s1])
      (auto simp: new_devices_def device_ids_def)
qed

lemma claim_snd:
  "still k \<Longrightarrow> snd (claim_server c email k s) = claimed_state c email s"
  "snd (handleGateClaim c s) =
     (if trim_space (identity c) \<noteq> [] \<and> by_claim c s then claimed_state c (identity c) s else s)"
  "snd (claimHandler c s) = (if by_claim c s \<and> req_method c = ''POST'' then claimed_state c (identity c) s else s)"
proof -
  show 1: "snd (claim_server c email k s) = claimed_state c email s" if "still k" for k email
    using that by (auto simp: claim_server_def claimed_state_def Let_def case_prod_beta still_def split: option.splits)
  show "snd (handleGateClaim c s) =
      (if trim_space (identity c) \<noteq> [] \<and> by_claim c s then claimed_state c (identity c) s else s)"
    by (simp add: handleGateClaim_def Let_def handler_snd by_claim_def 1)
  show "snd (claimHandler c s) = (if by_claim c s \<and> req_method c = ''POST'' then claimed_state c (identity c) s else s)"
    by (auto simp: claimHandler_def Let_def by_claim_def claimed_state_def case_prod_beta split: option.splits)
qed

lemma justified_claim: "justified handleGateClaim" "justified claimHandler"
  using claimed_state_new trust_reasonI(1)
  by (auto intro!: justifiedI simp: claim_snd split: if_splits)

text \<open>An approved pair that is claimed.\<close>

lemma claimPendingPair_cases:
  obtains (none) "claimPendingPair now email db = (None, db)"
  | (some) e where "claimPendingPair now email db = (Some e, dbDeletePendingPairByEmail email db)"
      "e \<in> set (td_pairs db)" "eq_fold (pp_email e) email" "pp_by e \<noteq> []" "now \<le> pp_expires e"
proof (cases "dbLoadPendingPairByEmail email db")
  case None
  then show ?thesis using none by (simp add: claimPendingPair_def)
next
  case (Some e)
  then have e: "e \<in> set (td_pairs db)" "eq_fold (pp_email e) email"
    by (auto simp: dbLoadPendingPairByEmail_def find_Some_iff)
  show ?thesis
  proof (cases "pp_by e = [] \<or> pp_expires e < now")
    case True
    then show ?thesis using none Some by (simp add: claimPendingPair_def)
  next
    case False
    then show ?thesis using some [of e] Some e by (simp add: claimPendingPair_def)
  qed
qed

lemma poll_effect:
  assumes d: "d \<in> new_devices s (snd (case claimPendingPair (c_now c) (identity c) (gs_db s) of
       (None, db) \<Rightarrow> (r0, s\<lparr>gs_db := db\<rparr>)
     | (Some e, db) \<Rightarrow> trust_device c (identity c) (pp_info e) (k e) (s\<lparr>gs_db := db\<rparr>)))" (is "_ \<in> new_devices s ?s'")
    and k: "\<And>e. still (k e)"
  shows "dv_email d = identity c \<and> dv_id d = c_id c \<and> trust_reason c s ?s'"
proof (cases rule: claimPendingPair_cases [of "c_now c" "identity c" "gs_db s"])
  case none
  then show ?thesis using d by simp
next
  case (some e)
  define s1 where "s1 = s\<lparr>gs_db := dbDeletePendingPairByEmail (identity c) (gs_db s)\<rparr>"
  have s': "?s' = snd (trust_device c (identity c) (pp_info e) (k e) s1)" using some by (simp add: s1_def)
  have "d \<in> new_devices s1 (snd (trust_device c (identity c) (pp_info e) (k e) s1))"
    using d unfolding s' by (simp add: new_devices_def s1_def device_ids_def)
  from trust_device_effect [OF this] have e: "dv_email d = identity c" "dv_id d = c_id c"
      "?s' = s1\<lparr>gs_db := paired_db c (identity c) d (gs_db s1)\<rparr>"
    using k unfolding s' by (auto simp: still_def)
  then have "by_approval c s ?s'" using some by (auto simp: by_approval_def)
  then show ?thesis using e trust_reasonI(2) by blast
qed

lemma justified_poll: "justified handleGatePendingPairPoll" "justified pendingPairPollHandler"
proof -
  have k: "still (\<lambda>s. let rs = r in (if p s then f rs else rs, s))" for r :: resp and p f by (simp add: still_def Let_def)
  show "justified handleGatePendingPairPoll"
    by (rule justifiedI)
      (use poll_effect [OF _ k] in \<open>auto simp: handleGatePendingPairPoll_def Let_def handler_snd poll_pair_def split: if_splits\<close>)
  show "justified pendingPairPollHandler"
    by (rule justifiedI) (use poll_effect [OF _ k] in \<open>auto simp: pendingPairPollHandler_def Let_def\<close>)
qed

text \<open>Codes: an authenticator, or a backup code that is burned.\<close>

lemma dbConsumeBackupCode_effect:
  assumes "fst (dbConsumeBackupCode sha email cd db)"
  shows "(\<exists>b\<in>set (td_codes db). same_code email (hashBackupCode sha cd) b) \<and>
    \<not> (\<exists>b\<in>set (td_codes (snd (dbConsumeBackupCode sha email cd db))). same_code email (hashBackupCode sha cd) b)"
  using assms by (auto simp: dbConsumeBackupCode_def list_ex_iff split: if_splits)

lemma totp_effect:
  assumes d: "d \<in> new_devices s (snd (throttled c (identity c) rj fl (check_totp c cd (tt_secret t))
      (trust_device c (identity c) info k) s))" (is "_ \<in> new_devices s ?s'")
    and t: "dbLoadTOTP (identity c) (gs_db s) = Some t" and k: "still k"
    and n: "\<And>fs r. neutral (rj fs r)" "\<And>fs r. neutral (fl fs r)"
  shows "dv_email d = identity c \<and> dv_id d = c_id c \<and> trust_reason c s ?s'"
proof -
  obtain s2 where s2: "admitted c s" "c_totp c cd (tt_secret t) (c_now c)"
      "d \<in> new_devices s2 (snd (trust_device c (identity c) info k s2))"
    using throttled_effect [OF d n] by auto
  have "dv_email d = identity c \<and> dv_id d = c_id c"
    using trust_device_effect [OF s2(3)] k by (auto simp: still_def)
  moreover have "by_authenticator c s" using s2 t by (auto simp: by_authenticator_def)
  ultimately show ?thesis using trust_reasonI(3) by blast
qed

lemma backup_effect:
  assumes d: "d \<in> new_devices s (snd (throttled c (identity c) rj fl (dbConsumeBackupCode (c_sha c) (identity c) cd)
      (trust_device c (identity c) info k) s))" (is "_ \<in> new_devices s ?s'")
    and k: "still k" and n: "\<And>fs r. neutral (rj fs r)" "\<And>fs r. neutral (fl fs r)"
  shows "dv_email d = identity c \<and> dv_id d = c_id c \<and> trust_reason c s ?s'"
proof -
  obtain s2 where s2: "admitted c s" "fst (dbConsumeBackupCode (c_sha c) (identity c) cd (gs_db s))"
      "gs_db s2 = snd (dbConsumeBackupCode (c_sha c) (identity c) cd (gs_db s))"
      "?s' = snd (trust_device c (identity c) info k s2)"
      "d \<in> new_devices s2 (snd (trust_device c (identity c) info k s2))"
    using throttled_effect [OF d n] by auto
  have e: "dv_email d = identity c" "dv_id d = c_id c" "?s' = s2\<lparr>gs_db := paired_db c (identity c) d (gs_db s2)\<rparr>"
    using trust_device_effect [OF s2(5)] k unfolding s2(4) by (auto simp: still_def)
  have "by_backup_code c s ?s'"
    using s2(1) dbConsumeBackupCode_effect [OF s2(2)] unfolding by_backup_code_def e(3) by (auto simp: s2(3))
  then show ?thesis using e trust_reasonI(4) by blast
qed

lemma neutral_rejects [simp]:
  "neutral (mfaHTMLThrottleReject c email ep (page n) fs retry)"
  "neutral (mfaHTMLThrottleFail c email ep msg (page n) fs retry)"
  "neutral (mfaHTMLThrottleReject c email ep (pairing_page c n email') fs retry)"
  "neutral (mfaHTMLThrottleFail c email ep msg (pairing_page c n email') fs retry)"
  by (simp_all add: neutral_html)

lemmas code_effects =
  totp_effect [OF _ _ still_simps(1) neutral_json(1) neutral_json(2)]
  backup_effect [OF _ still_simps(1) neutral_json(1) neutral_json(2)]
  totp_effect [OF _ _ still_simps(2) neutral_rejects(1) neutral_rejects(2)]
  backup_effect [OF _ still_simps(2) neutral_rejects(1) neutral_rejects(2)]
  totp_effect [OF _ _ still_simps(2) neutral_rejects(3) neutral_rejects(4)]

lemma justified_codes:
  "justified handleGateSelfTrust" "justified handleGateRecover" "justified selfTrustHandler" "justified recoveryHandler"
proof -
  show "justified handleGateSelfTrust"
    by (rule justifiedI)
      (auto simp: handleGateSelfTrust_def Let_def handler_snd split: if_splits option.splits dest: code_effects(1))
  show "justified handleGateRecover"
    by (rule justifiedI)
      (auto simp: handleGateRecover_def Let_def handler_snd split: if_splits option.splits dest: code_effects(1,2))
  show "justified selfTrustHandler"
    by (rule justifiedI)
      (auto simp: selfTrustHandler_def Let_def split: if_splits option.splits dest: code_effects(5))
  show "justified recoveryHandler"
  proof (rule justifiedI)
    fix c s d
    assume d: "d \<in> new_devices s (snd (recoveryHandler c s))"
    show "dv_email d = identity c \<and> dv_id d = c_id c \<and> trust_reason c s (snd (recoveryHandler c s))"
    proof (cases "form c ''mode'' = ''backup''")
      case True
      then show ?thesis using d
        by (auto simp: recoveryHandler_def Let_def split: if_splits dest: code_effects(4))
    next
      case False
      then show ?thesis using d
        by (auto simp: recoveryHandler_def Let_def split: if_splits option.splits dest: code_effects(3))
    qed
  qed
qed

text \<open>An invite that is consumed.\<close>

lemma dbConsumeInviteAtomic_effect:
  assumes "dbConsumeInviteAtomic h now db = (True, db')"
  shows "(\<exists>u\<in>set (td_invites db). consumable h now u \<and> u\<lparr>iv_consumed := Some now\<rparr> \<in> set (td_invites db')) \<and>
    \<not> (\<exists>u\<in>set (td_invites db'). consumable h now u) \<and> td_devices db' = td_devices db"
proof -
  define f :: "invite_row \<Rightarrow> invite_row" where "f v = (if consumable h now v then v\<lparr>iv_consumed := Some now\<rparr> else v)" for v
  have db': "db' = db\<lparr>td_invites := update_rows (consumable h now) (\<lambda>v. v\<lparr>iv_consumed := Some now\<rparr>) (td_invites db)\<rparr>"
    and "\<exists>u\<in>set (td_invites db). consumable h now u"
    using assms by (simp_all add: dbConsumeInviteAtomic_def list_ex_iff)
  then obtain u where u: "u \<in> set (td_invites db)" "consumable h now u" by blast
  have i: "set (td_invites db') = f ` set (td_invites db)"
    unfolding db' by (simp add: set_update_rows f_def)
  have "f u = u\<lparr>iv_consumed := Some now\<rparr>" using u by (simp add: f_def)
  then have "u\<lparr>iv_consumed := Some now\<rparr> \<in> set (td_invites db')" using u(1) unfolding i by (metis imageI)
  moreover have "\<not> consumable h now (f x)" for x by (simp add: f_def consumable_def)
  then have "\<not> (\<exists>u\<in>set (td_invites db'). consumable h now u)" unfolding i by blast
  moreover have "td_devices db' = td_devices db" by (simp add: db')
  ultimately show ?thesis using u by blast
qed

text \<open>What follows the consumption of an invite.\<close>

definition redeem_rest :: "ctx \<Rightarrow> invite_row \<Rightarrow> gate_state \<Rightarrow> resp \<times> gate_state" where
  "redeem_rest c v s =
     (let email = identity c; now = c_now c;
          db1 = (if dbGetUserRole email (gs_db s) = [] \<and> \<not> eq_fold email (trim_space (serverRootAdmin (gs_db s)))
                 then snd (dbSetUserRole now email (iv_role v) (iv_by v) (gs_db s)) else gs_db s);
          rs = fst (ok_redirect c s)
      in (if callerIsAdmin email db1 then setSessionCookie c email rs else rs,
          s\<lparr>gs_db := recordEvent now email ''invite.redeem'' (iv_by v) db1\<rparr>))"

lemma redeem_rest_db [simp]:
  "td_devices (gs_db (snd (redeem_rest c v s))) = td_devices (gs_db s)"
  "td_invites (gs_db (snd (redeem_rest c v s))) = td_invites (gs_db s)"
  by (simp_all add: redeem_rest_def Let_def recordEvent_def dbSetUserRole_def)

lemma redeem_snd:
  "snd (handleGateInviteRedeem c s) =
     (let token = trim_space (gb_token (decodeGateBody (c_req c))); h = c_sha c token in
      if trim_space (identity c) = [] \<or> \<not> serverClaimed (gs_db s) \<or> token = [] then s
      else case dbLoadInviteByTokenHash h (gs_db s) of
          None \<Rightarrow> s
        | Some v \<Rightarrow>
            if \<not> inv_live (c_now c) v \<or> \<not> eq_fold (trim_space (iv_email v)) (trim_space (identity c)) \<or>
               dbListDevices (identity c) (gs_db s) \<noteq> [] then s
            else
              let s1 = s\<lparr>gs_db := snd (dbConsumeInviteAtomic (iv_hash v) (c_now c) (gs_db s))\<rparr> in
              if fst (dbConsumeInviteAtomic (iv_hash v) (c_now c) (gs_db s))
              then snd (trust_device c (identity c) (''invite from '' @ iv_by v) (redeem_rest c v) s1) else s1)"
  by (auto simp: handleGateInviteRedeem_def Let_def handler_snd inv_live_def redeem_rest_def [abs_def] case_prod_beta
      split: option.splits)

lemma justified_redeem: "justified handleGateInviteRedeem"
proof (rule justifiedI)
  fix c :: ctx and s d
  define token where "token = trim_space (gb_token (decodeGateBody (c_req c)))"
  assume d: "d \<in> new_devices s (snd (handleGateInviteRedeem c s))" (is "_ \<in> new_devices s ?s'")
  then obtain v where v: "serverClaimed (gs_db s)" "dbLoadInviteByTokenHash (c_sha c token) (gs_db s) = Some v"
      "inv_live (c_now c) v" "eq_fold (trim_space (iv_email v)) (trim_space (identity c))"
      "dbListDevices (identity c) (gs_db s) = []" "trim_space (identity c) \<noteq> []" "token \<noteq> []"
    by (auto simp: redeem_snd Let_def token_def [symmetric] split: if_splits option.splits)
  have hv: "iv_hash v = c_sha c token" using v(2) by (auto simp: dbLoadInviteByTokenHash_def find_Some_iff)
  obtain ok db where co: "dbConsumeInviteAtomic (iv_hash v) (c_now c) (gs_db s) = (ok, db)" by (cases "dbConsumeInviteAtomic (iv_hash v) (c_now c) (gs_db s)")
  define s1 where "s1 = s\<lparr>gs_db := db\<rparr>"
  have ids: "td_devices (gs_db s1) = td_devices (gs_db s)"
    using frame_db(12) [of "iv_hash v" "c_now c" "gs_db s"] by (simp add: s1_def co)
  have s': "?s' = (if ok then snd (trust_device c (identity c) (''invite from '' @ iv_by v) (redeem_rest c v) s1) else s1)"
    using v by (simp add: redeem_snd Let_def token_def [symmetric] co s1_def)
  have ok: "ok" using d ids unfolding s' by (auto simp: new_devices_def device_ids_def split: if_splits)
  then have "d \<in> new_devices s1 (snd (trust_device c (identity c) (''invite from '' @ iv_by v) (redeem_rest c v) s1))"
    using d ids unfolding s' by (simp add: new_devices_def device_ids_def)
  from trust_device_effect [OF this] ok
  have e: "dv_email d = identity c" "dv_id d = c_id c"
      "?s' = snd (redeem_rest c v (s1\<lparr>gs_db := paired_db c (identity c) d (gs_db s1)\<rparr>))" unfolding s' by auto
  have "td_invites (gs_db ?s') = td_invites db" unfolding e(3) by (simp add: s1_def)
  then have "by_invite c s ?s'"
    using dbConsumeInviteAtomic_effect [of "iv_hash v" "c_now c" "gs_db s" db] co ok v(1-5)
    unfolding by_invite_def hv by auto
  then show "dv_email d = identity c \<and> dv_id d = c_id c \<and> trust_reason c s ?s'"
    using e trust_reasonI(5) by blast
qed

text \<open>The other routes trust no device.\<close>

lemma neutral_elsewhere [simp]: "neutral (elsewhere c)"
  by (simp add: neutral_def elsewhere_def)

lemma neutral_pages [simp]:
  "neutral (pendingPairHandler c)" "neutral (accountDevicesHandler c)" "neutral (approveHandler c)"
  "neutral (handleApprovePairJSON c)" "neutral (handleEnrollGET b c)" "neutral (handleChallengeGET b c)"
  using neutral_pairing_page [unfolded neutral_def]
  by (auto simp: neutral_def pendingPairHandler_def accountDevicesHandler_def approveHandler_def handleApprovePairJSON_def
      handleEnrollGET_def handleChallengeGET_def Let_def case_prod_beta device_ids_fold split: option.splits)
    (simp_all add: device_ids_def)

lemma neutral_code_pages [simp]:
  "neutral (accountTOTPHandler c)" "neutral (handleEnrollPOST b c)" "neutral (handleChallengePOST b c)"
proof -
  have k: "neutral (\<lambda>s. (f s, db_upd (saveTOTPRecord now rec) s))" for f :: "gate_state \<Rightarrow> resp" and now rec
    by (simp add: neutral_def device_ids_fold)
  have k': "neutral (\<lambda>s. (f s, s))" for f :: "gate_state \<Rightarrow> resp" by (simp add: neutral_def)
  have t: "device_ids (snd (throttled c email (mfaHTMLThrottleReject c e1 ep (page n)) (mfaHTMLThrottleFail c e1 ep msg (page n))
      (check_totp c cd sec0) (\<lambda>s. (f s, db_upd (saveTOTPRecord now rec) s)) s)) \<subseteq> device_ids s"
    for email e1 ep n msg cd sec0 now rec s and f :: "gate_state \<Rightarrow> resp"
    by (rule throttled_neutral) (simp_all add: k)
  have t': "device_ids (snd (throttled c email (mfaHTMLThrottleReject c e1 ep (pairing_page c n e2)) (mfaHTMLThrottleFail c e1 ep msg (pairing_page c n e2))
      (check_totp c cd sec0) (\<lambda>s. (f s, s)) s)) \<subseteq> device_ids s"
    for email e1 e2 ep n msg cd sec0 s and f :: "gate_state \<Rightarrow> resp"
    by (rule throttled_neutral) (simp_all add: k')
  show "neutral (accountTOTPHandler c)"
    using t by (auto simp: neutral_def accountTOTPHandler_def Let_def case_prod_beta device_ids_fold)
  show "neutral (handleEnrollPOST b c)"
    using t by (auto simp: neutral_def handleEnrollPOST_def Let_def)
  show "neutral (handleChallengePOST b c)"
    using t' by (auto simp: neutral_def handleChallengePOST_def Let_def split: option.splits)
qed

lemma neutral_handleTOTPGate [simp]: "neutral (handleTOTPGate b c)"
  using neutral_pages neutral_code_pages by (simp add: neutral_def handleTOTPGate_def Let_def)

lemma neutral_hosts [simp]:
  "neutral (handleDeviceGrant c)" "neutral (handleDeviceClaim c)" "neutral (handleMagicLinkCreate c)"
  "neutral (handleMagicLinkRedeem c)" "neutral (handleMagicLinkList c)" "neutral (handleMagicLinkRevoke c)"
  by (auto simp: neutral_def handleDeviceGrant_def handleDeviceClaim_def handleMagicLinkCreate_def
      handleMagicLinkRedeem_def handleMagicLinkList_def handleMagicLinkRevoke_def Let_def case_prod_beta device_ids_fold
      split: option.splits prod.splits)

lemma neutral_backend [simp]:
  "neutral (handleBaileyDevicesAPI c)" "neutral (handleBaileyDevicesRemoveAPI c)" "neutral (handleBaileyDevicesRenameAPI c)"
  "neutral (handleBaileyApprovalsAPI c)" "neutral (handleBaileyApprovalDenyAPI c)" "neutral (totp_remove c)"
  "neutral (handleSetUserRole c)" "neutral (handleBaileyPeopleInvite c)" "neutral (handleBaileyInviteRevoke c)"
  "neutral (handleBaileyInviteResend c)" "neutral (handleAdminDevicesAPI c)" "neutral (handleAdminDeviceRemoveAPI c)"
  by (auto simp: neutral_def handleBaileyDevicesAPI_def handleBaileyDevicesRemoveAPI_def handleBaileyDevicesRenameAPI_def
      handleBaileyApprovalsAPI_def handleBaileyApprovalDenyAPI_def totp_remove_def handleSetUserRole_def
      handleBaileyPeopleInvite_def handleBaileyInviteRevoke_def handleBaileyInviteResend_def handleAdminDevicesAPI_def
      handleAdminDeviceRemoveAPI_def Let_def case_prod_beta device_ids_fold split: option.splits sum.splits)
    (simp_all add: device_ids_def)

lemma neutral_enforceMFAGate [simp]: "neutral (enforceMFAGate c)"
  by (auto simp: neutral_def enforceMFAGate_def gate_refusal_def Let_def case_prod_beta split: option.splits)
    (simp_all add: device_ids_def)

lemma neutral_socket [simp]: "neutral (handleSocket c)"
proof -
  have "neutral (h c)" if "socket_routes path = Some h" for path h
    using that
    by (auto simp: socket_routes_def neutral_def handleDeviceApprove_def handleDevicesPending_def handleAccessGrant_def
        handleAccessRevoke_def handleAccessList_def handleUserRole_def handleWorkspaceAuditors_def Let_def case_prod_beta
        device_ids_fold split: if_splits option.splits)
  then show ?thesis
    using neutral_elsewhere
    by (auto simp: neutral_def handleSocket_def authMiddleware_def Let_def split: option.splits)
qed

text \<open>Routing.\<close>

lemma handleGateAPI_justified: "handleGateAPI path = Some h \<Longrightarrow> justified h"
proof -
  have g: "justified (guardGet h)" "justified (guardPost h)" if "justified h" for h
    using that by (simp_all add: justified_def guardGet_def guardPost_def)
  show "handleGateAPI path = Some h \<Longrightarrow> justified h"
    using justified_claim justified_poll justified_codes justified_redeem
    by (auto simp: handleGateAPI_def g neutral_justified split: if_splits)
qed

lemma gate_pages_justified: "gate_pages path = Some h \<Longrightarrow> justified h"
  using justified_claim justified_poll justified_codes
  by (auto simp: gate_pages_def neutral_justified split: if_splits)

lemma backend_neutral: "trusted_routes m path = Some h \<Longrightarrow> neutral (h c)" "neutral (admin_routes m path c)"
  by (auto simp: trusted_routes_def admin_routes_def split: if_splits)

lemma justified_bailey: "justified handleBailey"
proof (rule justifiedI)
  fix c s d
  assume d: "d \<in> new_devices s (snd (handleBailey c s))"
  obtain h where h: "handleGateAPI (hr_path (c_req c)) = Some h" and e: "snd (handleBailey c s) = snd (h c s)"
  proof (cases "handleGateAPI (hr_path (c_req c))")
    case None
    have "new_devices s (snd (handleBailey c s)) = {}"
      using neutralD [OF backend_neutral(1), where s = s] neutralD [OF neutral_elsewhere, where s = s]
        neutralD [OF backend_neutral(2), where s = s]
      by (auto simp: handleBailey_def Let_def None split: option.splits)
    then show thesis using d by simp
  next
    case (Some h)
    have "\<not> (hr_path (c_req c) = ''/bailey/favicon.svg'' \<or> hr_path (c_req c) = ''/bailey/api/whoami'' \<or>
        prefix ''/bailey/static/'' (hr_path (c_req c)) \<or> hr_path (c_req c) = ''/bailey/signout'')"
      using d neutralD [OF neutral_elsewhere, where s = s] by (auto simp: handleBailey_def Let_def)
    then show thesis using that [of h] Some by (simp add: handleBailey_def Let_def)
  qed
  show "dv_email d = identity c \<and> dv_id d = c_id c \<and> trust_reason c s (snd (handleBailey c s))"
    using handleGateAPI_justified [OF h] d unfolding e justified_def by blast
qed

lemma justified_gate_path: "justified handleGatePath"
proof (rule justifiedI)
  fix c s d
  assume d: "d \<in> new_devices s (snd (handleGatePath c s))"
  obtain h where h: "gate_pages (hr_path (c_req c)) = Some h" and e: "snd (handleGatePath c s) = snd (h c s)"
    using d neutralD [OF neutral_elsewhere, where s = s] neutralD [OF neutral_handleTOTPGate, where s = s]
    by (auto simp: handleGatePath_def Let_def split: if_splits option.splits)
  show "dv_email d = identity c \<and> dv_id d = c_id c \<and> trust_reason c s (snd (handleGatePath c s))"
    using gate_pages_justified [OF h] d unfolding e justified_def by blast
qed

text \<open>C1: no device becomes trusted without a reason. Whatever the daemon does in one step, a device
  that was not trusted before and is afterwards belongs to the account of the request and is there
  because that request claimed the unclaimed server, or collected an approval that was still valid
  (which is used up), or passed the throttle with a code of the enrolled authenticator or with a
  backup code (which is used up), or redeemed a live invite for this account as its first device
  (which is used up).\<close>

theorem every_new_device_has_a_reason:
  assumes "d \<in> new_devices s (gate_step call s)"
  shows "\<exists>c. (call = Bailey c \<or> call = GatePath c) \<and> dv_email d = identity c \<and> dv_id d = c_id c \<and>
    trust_reason c s (gate_step call s)"
proof (cases call)
  case (Bailey c)
  then show ?thesis using assms justified_bailey by (simp add: justified_def)
next
  case (GatePath c)
  then show ?thesis using assms justified_gate_path by (simp add: justified_def)
next
  case (Proxied c)
  then show ?thesis using assms neutralD [OF neutral_enforceMFAGate, where s = s] by simp
next
  case (Socket c)
  then show ?thesis using assms neutralD [OF neutral_socket, where s = s] by simp
qed (use assms in \<open>auto simp: new_devices_def device_ids_def cascade_def db_upd_def split: if_splits\<close>)

definition claiming :: ctx where "claiming = sample_ctx ''d1'' (sample_req ''POST'' ''/bailey/api/claim'' ''ana@x.org'')"

lemma claiming_facts:
  "identity claiming = ''ana@x.org''" "c_id claiming = ''d1''" "trim_space (identity claiming) \<noteq> []"
  "by_claim claiming fresh_server"
proof -
  show i: "identity claiming = ''ana@x.org''" "c_id claiming = ''d1''"
    by (simp_all add: claiming_def samples identity_def identityFromHeaders_def Let_def)
  have "trim_space ''ana@x.org'' \<noteq> []" by code_simp
  then show "trim_space (identity claiming) \<noteq> []" by (simp add: i)
  show "by_claim claiming fresh_server"
    by (simp add: by_claim_def i eligibleToClaim_def anyAdminElsewhere_def serverClaimed_def serverRootAdmin_def
        dbGetSetting_def dbAnyDevicesExist_def samples trim_space_def trim_right_def)
qed

lemma claiming_step: "gate_step (Bailey claiming) fresh_server = claimed_state claiming ''ana@x.org'' fresh_server"
  using claiming_facts claim_snd(2) [of claiming fresh_server]
  by (simp add: handleBailey_def Let_def guardPost_def handleGateAPI_def claiming_def samples)

lemma every_new_device_has_a_reason_witness:
  "\<exists>d\<in>new_devices fresh_server (gate_step (Bailey claiming) fresh_server).
     \<exists>c. Bailey claiming = Bailey c \<and> dv_email d = ''ana@x.org'' \<and>
       trust_reason c fresh_server (gate_step (Bailey claiming) fresh_server)"
proof -
  define s' where "s' = gate_step (Bailey claiming) fresh_server"
  have "dv_id ` set (td_devices (gs_db s')) = {''d1''}"
    unfolding s'_def claiming_step
    by (simp add: claimed_state_def add_device_def addDeviceWithOrigin_def dbAddDevice_def Let_def db_upd_def
        case_prod_beta fresh_server_def no_trust_def claiming_facts(2))
  then have "set (td_devices (gs_db s')) \<noteq> {}" by (metis image_empty insert_not_empty)
  then obtain d where "d \<in> set (td_devices (gs_db s'))" by (metis ex_in_conv)
  then have d: "d \<in> new_devices fresh_server s'"
    by (simp add: new_devices_def device_ids_def fresh_server_def no_trust_def)
  from every_new_device_has_a_reason [OF this [unfolded s'_def]] obtain c
    where "Bailey claiming = Bailey c" "dv_email d = identity c" "trust_reason c fresh_server s'"
    unfolding s'_def by blast
  then show ?thesis
    unfolding s'_def [symmetric] using d claiming_facts(1) by (intro bexI [OF _ d] exI [of _ c]) simp
qed

end
