(* ===== verification/Gate_Laws.thy ===== *)
theory Gate_Laws
  imports Gate_Trust
begin

text \<open>
  What every request may do to the trust store, once and for all: the locale \<open>quiet_relation\<close> asks
  for a reflexive and transitive relation that each operation of the store respects but the approval
  of a pending pair, and shows that every step of the daemon but an approval respects it;
  \<open>store_relation\<close> extends it to approvals and all steps. The properties over histories interpret them.
\<close>

text \<open>A routine respects a relation when the store it leaves is related to the one it found.\<close>

definition keeps :: "(trust_db \<Rightarrow> trust_db \<Rightarrow> bool) \<Rightarrow> (gate_state \<Rightarrow> 'a \<times> gate_state) \<Rightarrow> bool" where
  "keeps R k \<longleftrightarrow> (\<forall>s. R (gs_db s) (gs_db (snd (k s))))"

text \<open>The context of a call, for the calls that have one.\<close>

fun call_ctx :: "gate_call \<Rightarrow> ctx option" where
  "call_ctx (Bailey c) = Some c"
| "call_ctx (GatePath c) = Some c"
| "call_ctx (Proxied c) = Some c"
| "call_ctx (Socket c) = Some c"
| "call_ctx _ = None"

lemma gs_db_db_upd [simp]: "gs_db (db_upd f s) = f (gs_db s)"
  by (simp add: db_upd_def)

text \<open>The two requests that can approve a pending pair.\<close>

fun approving :: "gate_call \<Rightarrow> bool" where
  "approving (GatePath c) = (hr_path (c_req c) = ''/2fa-gate/approve'')"
| "approving (Socket c) = (hr_path (c_req c) = ''/bailey/devices/approve'')"
| "approving _ = False"

locale quiet_relation =
  fixes R :: "ctx \<Rightarrow> trust_db \<Rightarrow> trust_db \<Rightarrow> bool"
  assumes refl [simp, intro]: "R c db db"
    and trans: "R c db1 db2 \<Longrightarrow> R c db2 db3 \<Longrightarrow> R c db1 db3"
    and event: "R c db (db\<lparr>td_events := evs\<rparr>)"
    and setting: "R c db (db\<lparr>td_settings := m\<rparr>)"
    and new_device: "dv_id d = c_id c \<Longrightarrow> c_id c \<notin> dv_id ` set (td_devices db) \<Longrightarrow>
      R c db (db\<lparr>td_devices := td_devices db @ [d]\<rparr>)"
    and update_device: "(\<And>d. dv_id (f d) = dv_id d) \<Longrightarrow> R c db (update_devices P f db)"
    and remove_device: "R c db (dbRemoveDevice email devid db)"
    and upsert_pair: "pp_by e = [] \<Longrightarrow> R c db (dbUpsertPendingPair e db)"
    and delete_pair: "R c db (dbDeletePendingPairByEmail email db)"
    and purge_pairs: "R c db (dbPurgeExpiredPendingPairs now db)"
    and save_totp: "R c db (dbSaveTOTP rec db)"
    and delete_totp: "R c db (dbDeleteTOTP email db)"
    and save_codes: "R c db (dbSaveBackupCodes sha now email codes db)"
    and consume_code: "R c db (snd (dbConsumeBackupCode sha email cd db))"
    and upsert_invite: "iv_hash v = c_sha c (c_token c) \<Longrightarrow> R c db (dbUpsertInvite v db)"
    and consume_invite: "R c db (snd (dbConsumeInviteAtomic h now db))"
    and delete_invite: "R c db (snd (dbDeleteInvite email db))"
    and create_link: "R c db (snd (dbCreateMagicLink sha now mid tok host by' ttl acl db))"
    and revoke_link: "R c db (snd (dbRevokeMagicLink now mid host db))"
    and add_scoped: "R c db (snd (dbAddEndpointDeviceTrust now devid host email acl db))"
    and set_role: "R c db (snd (dbSetUserRole now email role by' db))"
    and cascade: "R c db (cascade host db)"
begin

text \<open>The laws as rules for a store that is the result of several operations.\<close>

lemma ops [intro]:
  "R c a db \<Longrightarrow> R c a (recordEvent now act' act tgt db)"
  "R c a db \<Longrightarrow> R c a (dbSetSetting now k val by' db)"
  "R c a db \<Longrightarrow> pp_by e = [] \<Longrightarrow> R c a (dbUpsertPendingPair e db)"
  "R c a db \<Longrightarrow> R c a (dbDeletePendingPairByEmail email db)"
  "R c a db \<Longrightarrow> R c a (dbPurgeExpiredPendingPairs now db)"
  "R c a db \<Longrightarrow> R c a (dbSaveTOTP rec db)"
  "R c a db \<Longrightarrow> R c a (dbDeleteTOTP email db)"
  "R c a db \<Longrightarrow> R c a (dbSaveBackupCodes sha now email codes db)"
  "R c a db \<Longrightarrow> R c a (snd (dbConsumeBackupCode sha email cd db))"
  "R c a db \<Longrightarrow> iv_hash v = c_sha c (c_token c) \<Longrightarrow> R c a (dbUpsertInvite v db)"
  "R c a db \<Longrightarrow> R c a (snd (dbConsumeInviteAtomic h now db))"
  "R c a db \<Longrightarrow> R c a (snd (dbDeleteInvite email db))"
  "R c a db \<Longrightarrow> R c a (snd (dbCreateMagicLink sha now mid tok host by' ttl acl db))"
  "R c a db \<Longrightarrow> R c a (snd (dbRevokeMagicLink now mid host db))"
  "R c a db \<Longrightarrow> R c a (snd (dbAddEndpointDeviceTrust now devid host email acl db))"
  "R c a db \<Longrightarrow> R c a (snd (dbSetUserRole now email role by' db))"
  "R c a db \<Longrightarrow> R c a (dbRemoveDevice email devid db)"
  using event setting upsert_pair delete_pair purge_pairs save_totp delete_totp save_codes consume_code upsert_invite
    consume_invite delete_invite create_link revoke_link add_scoped set_role remove_device
  by (auto intro: trans simp: recordEvent_def dbSetSetting_def)

lemma device_ops [intro]:
  "R c a db \<Longrightarrow> R c a (dbTouchDevice now email devid db)"
  "R c a db \<Longrightarrow> R c a (snd (renameDevice now email devid name db))"
  "R c a db \<Longrightarrow> R c a (removeDevice now email devid db)"
  "R c a db \<Longrightarrow> R c a (saveTOTPRecord now rec db)"
  "R c a db \<Longrightarrow> R c a (recordServerClaim now stamp email db)"
proof -
  have u: "R c a (update_devices P f db)" if "R c a db" "\<And>d. dv_id (f d) = dv_id d" for a db P f
    using trans [OF that(1) update_device] that(2) by blast
  show "R c a db \<Longrightarrow> R c a (dbTouchDevice now email devid db)" by (simp add: dbTouchDevice_def u)
  show "R c a db \<Longrightarrow> R c a (snd (renameDevice now email devid name db))"
    by (auto simp: renameDevice_def dbRenameDevice_def case_prod_beta u)
  show "R c a db \<Longrightarrow> R c a (removeDevice now email devid db)" by (auto simp: removeDevice_def)
  show "R c a db \<Longrightarrow> R c a (saveTOTPRecord now rec db)" by (auto simp: saveTOTPRecord_def)
  show "R c a db \<Longrightarrow> R c a (recordServerClaim now stamp email db)" by (auto simp: recordServerClaim_def)
qed

lemma pair_ops [intro]:
  "R c a db \<Longrightarrow> R c a (snd (generatePendingPairUA now n email ua db))"
  "R c a db \<Longrightarrow> R c a (snd (claimPendingPair now email db))"
  by (auto simp: generatePendingPairUA_def claimPendingPair_def Let_def intro!: ops split: option.splits)

lemma paired [intro]:
  assumes "R c a (gs_db s)" "dv_id d = c_id c" "c_id c \<notin> device_ids s"
  shows "R c a (paired_db c email d (gs_db s))"
  using trans [OF assms(1) new_device] assms(2,3) by (auto simp: paired_db_def device_ids_def)

section \<open>The pieces handlers are made of\<close>

lemma keeps_still: "still k \<Longrightarrow> keeps (R c) k"
  by (simp add: keeps_def still_def)

lemma keeps_rejects [simp]:
  "keeps (R c) (json_reject c' email ep fs retry)" "keeps (R c) (json_fail c' email ep msg fs retry)"
  "keeps (R c) (page n m)" "keeps (R c) (pairing_page c' n email m)"
  by (auto simp: keeps_def json_reject_def json_fail_def page_def pairing_page_def Let_def case_prod_beta)

lemma keeps_html [simp]:
  assumes "\<And>m. keeps (R c) (pg m)"
  shows "keeps (R c) (mfaHTMLThrottleReject c' email ep pg fs retry)"
    "keeps (R c) (mfaHTMLThrottleFail c' email ep msg pg fs retry)"
  using assms
  by (auto simp: keeps_def mfaHTMLThrottleReject_def mfaHTMLThrottleFail_def Let_def case_prod_beta)

lemma keeps_trust_device:
  assumes "keeps (R c) k" shows "keeps (R c) (trust_device c email info k)"
proof -
  have "R c (gs_db s) (gs_db (snd (k (s\<lparr>gs_db := paired_db c email d (gs_db s)\<rparr>))))"
    if "dv_id d = c_id c" "c_id c \<notin> device_ids s" for s d
    using trans [OF paired [OF refl that] assms [unfolded keeps_def, rule_format, of "s\<lparr>gs_db := paired_db c email d (gs_db s)\<rparr>", simplified]] .
  then show ?thesis by (simp add: keeps_def trust_device_snd)
qed

lemma keeps_throttled:
  assumes "\<And>fs r. keeps (R c) (rj fs r)" "\<And>fs r. keeps (R c) (fl fs r)" "keeps (R c) k"
    and "\<And>db. R c db (snd (chk db))"
  shows "keeps (R c) (throttled c email rj fl chk k)"
proof -
  have a: "R c (gs_db s) (gs_db (snd (j s1)))" if "keeps (R c) j" "R c (gs_db s) (gs_db s1)"
    for s s1 and j :: "gate_state \<Rightarrow> resp \<times> gate_state"
    using trans [OF that(2)] that(1) by (simp add: keeps_def)
  show ?thesis
    by (auto simp: keeps_def throttled_def case_prod_beta Let_def assms(4) intro!: a assms(1-3))
qed

lemma keeps_claimed: "R c (gs_db s) (gs_db (claimed_state c email s))"
proof -
  define s1 where "s1 = (if serverRootAdmin (gs_db s) = [] then db_upd (recordServerClaim (c_now c) (c_stamp c (c_now c)) email) s else s)"
  have 1: "R c (gs_db s) (gs_db s1)" by (auto simp: s1_def)
  show ?thesis unfolding claimed_state_def s1_def [symmetric]
    by (cases rule: add_device_cases [of c email "deviceNameFromRequest c" "''root''" s1]) (use 1 in auto)
qed

section \<open>The handlers\<close>

lemma keeps_claim: "keeps (R c) (handleGateClaim c)" "keeps (R c) (claimHandler c)"
  by (simp_all add: keeps_def claim_snd keeps_claimed)

lemma keeps_poll_tail:
  assumes "\<And>e. still (k e)"
  shows "keeps (R c) (\<lambda>s. case claimPendingPair now email (gs_db s) of
      (None, db) \<Rightarrow> (r0, s\<lparr>gs_db := db\<rparr>)
    | (Some e, db) \<Rightarrow> trust_device c email (pp_info e) (k e) (s\<lparr>gs_db := db\<rparr>))"
proof -
  have kt: "keeps (R c) (trust_device c email (pp_info e) (k e))" for e
    by (rule keeps_trust_device [OF keeps_still [OF assms]])
  have t: "R c (gs_db s) (gs_db (snd (trust_device c email (pp_info e) (k e) (s\<lparr>gs_db := db\<rparr>))))"
    if "R c (gs_db s) db" for s db e
    using trans [OF that kt [of e, unfolded keeps_def, rule_format, of "s\<lparr>gs_db := db\<rparr>", simplified]] .
  have "R c (gs_db s) (snd (claimPendingPair now email (gs_db s)))" for s by auto
  then show ?thesis
    by (auto simp: keeps_def case_prod_beta split: option.splits intro: t)
qed

lemma keeps_pairing:
  "keeps (R c) (handleGatePendingPairPoll c)" "keeps (R c) (pendingPairPollHandler c)"
  "keeps (R c) (handleGatePendingPair c)" "keeps (R c) (pendingPairHandler c)" "keeps (R c) (handleGateState c)"
proof -
  have k: "still (\<lambda>s. let rs = r in (if p s then f rs else rs, s))" for r :: resp and p f by (simp add: still_def Let_def)
  show "keeps (R c) (handleGatePendingPairPoll c)" "keeps (R c) (pendingPairPollHandler c)"
    using keeps_poll_tail [OF k]
    by (simp_all add: keeps_def handleGatePendingPairPoll_def pendingPairPollHandler_def handler_snd poll_pair_def Let_def)
  show "keeps (R c) (handleGatePendingPair c)" "keeps (R c) (pendingPairHandler c)" "keeps (R c) (handleGateState c)"
    using keeps_rejects(4) [of c c]
    by (auto simp: keeps_def handleGatePendingPair_def pendingPairHandler_def handleGateState_def handler_snd
        case_prod_beta Let_def)
qed

lemma check_totp_ok: "R c db (snd (check_totp c' cd secret db))"
  by simp

lemmas keeps_codes =
  keeps_throttled [OF keeps_rejects(1,2) keeps_trust_device [OF keeps_still [OF still_simps(1)]] check_totp_ok]
  keeps_throttled [OF keeps_rejects(1,2) keeps_trust_device [OF keeps_still [OF still_simps(1)]] consume_code]
  keeps_throttled [OF keeps_html [OF keeps_rejects(3)] keeps_trust_device [OF keeps_still [OF still_simps(2)]] check_totp_ok]
  keeps_throttled [OF keeps_html [OF keeps_rejects(3)] keeps_trust_device [OF keeps_still [OF still_simps(2)]] consume_code]
  keeps_throttled [OF keeps_html [OF keeps_rejects(4)] keeps_trust_device [OF keeps_still [OF still_simps(2)]] check_totp_ok]
  keeps_throttled [OF keeps_html [OF keeps_rejects(4)] keeps_still [OF still_simps(2)] check_totp_ok]

lemma keeps_self_trust:
  "keeps (R c) (handleGateSelfTrust c)" "keeps (R c) (handleGateRecover c)"
  "keeps (R c) (selfTrustHandler c)" "keeps (R c) (recoveryHandler c)"
  using keeps_codes
  by (auto simp: keeps_def handleGateSelfTrust_def handleGateRecover_def selfTrustHandler_def recoveryHandler_def
      Let_def handler_snd split: option.splits)

lemma keeps_enrolment:
  "keeps (R c) (handleGateTOTPEnroll c)" "keeps (R c) (handleGateTOTPVerify c)"
  "keeps (R c) (handleGateBackupCodesRegenerate c)" "keeps (R c) (accountTOTPHandler c)"
  "keeps (R c) (handleEnrollGET b c)" "keeps (R c) (handleEnrollPOST b c)"
  "keeps (R c) (handleChallengeGET b c)" "keeps (R c) (handleChallengePOST b c)"
proof -
  have k1: "keeps (R c) (\<lambda>s. (f s, s\<lparr>gs_db := dbSaveBackupCodes sha now email codes (saveTOTPRecord now' rec (gs_db s))\<rparr>))"
    for f :: "gate_state \<Rightarrow> resp" and sha now email codes now' rec by (auto simp: keeps_def)
  have k2: "keeps (R c) (\<lambda>s. (f s, db_upd (saveTOTPRecord now rec) s))"
    for f :: "gate_state \<Rightarrow> resp" and now rec by (auto simp: keeps_def)
  note t1 = keeps_throttled [OF keeps_rejects(1,2) k1 check_totp_ok, unfolded keeps_def, rule_format]
  note t2 = keeps_throttled [OF keeps_html [OF keeps_rejects(3)] k2 check_totp_ok, unfolded keeps_def, rule_format]
  note t3 = keeps_codes(6) [unfolded keeps_def, rule_format]
  note p = keeps_rejects(4) [unfolded keeps_def, rule_format]
  show "keeps (R c) (handleGateTOTPEnroll c)" by (simp add: keeps_def handleGateTOTPEnroll_def handler_snd Let_def)
  show "keeps (R c) (handleGateTOTPVerify c)" by (simp add: keeps_def handleGateTOTPVerify_def handler_snd Let_def t1)
  show "keeps (R c) (handleGateBackupCodesRegenerate c)"
    by (auto simp: keeps_def handleGateBackupCodesRegenerate_def handler_snd Let_def)
  show "keeps (R c) (accountTOTPHandler c)"
    by (auto simp: keeps_def accountTOTPHandler_def Let_def case_prod_beta t2)
  show "keeps (R c) (handleEnrollGET b c)" by (simp add: keeps_def handleEnrollGET_def Let_def)
  show "keeps (R c) (handleEnrollPOST b c)" by (simp add: keeps_def handleEnrollPOST_def Let_def t2)
  show "keeps (R c) (handleChallengeGET b c)" by (simp add: keeps_def handleChallengeGET_def Let_def case_prod_beta p)
  show "keeps (R c) (handleChallengePOST b c)"
    by (simp add: keeps_def handleChallengePOST_def Let_def t3 split: option.split)
qed

lemma keeps_redeem: "keeps (R c) (handleGateInviteRedeem c)"
proof -
  have k: "keeps (R c) (redeem_rest c v)" for v
    by (auto simp: keeps_def redeem_rest_def Let_def)
  have "R c (gs_db s) (gs_db (snd (trust_device c email info (redeem_rest c v) (s\<lparr>gs_db := snd (dbConsumeInviteAtomic h now (gs_db s))\<rparr>))))"
    for s email info v h now
    using trans [OF consume_invite keeps_trust_device [OF k, unfolded keeps_def, rule_format,
      of "s\<lparr>gs_db := snd (dbConsumeInviteAtomic h now (gs_db s))\<rparr>", simplified]] .
  then show ?thesis by (auto simp: keeps_def redeem_snd Let_def consume_invite split: option.split)
qed

lemma keeps_pages:
  "keeps (R c) (elsewhere c)" "keeps (R c) (accountDevicesHandler c)"
  "keeps (R c) (handleTOTPGate b c)"
proof -
  show "keeps (R c) (elsewhere c)" by (simp add: keeps_def elsewhere_def)
  show "keeps (R c) (accountDevicesHandler c)" by (auto simp: keeps_def accountDevicesHandler_def Let_def)
  show "keeps (R c) (handleTOTPGate b c)"
    using keeps_enrolment(5-8) by (simp add: keeps_def handleTOTPGate_def Let_def)
qed

lemma keeps_hosts:
  "keeps (R c) (handleDeviceGrant c)" "keeps (R c) (handleDeviceClaim c)" "keeps (R c) (handleMagicLinkCreate c)"
  "keeps (R c) (handleMagicLinkRedeem c)" "keeps (R c) (handleMagicLinkList c)" "keeps (R c) (handleMagicLinkRevoke c)"
  by (auto simp: keeps_def handleDeviceGrant_def handleDeviceClaim_def handleMagicLinkCreate_def
      handleMagicLinkRedeem_def handleMagicLinkList_def handleMagicLinkRevoke_def Let_def case_prod_beta
      split: option.split)

lemma keeps_backend:
  "keeps (R c) (handleBaileyDevicesAPI c)" "keeps (R c) (handleBaileyDevicesRemoveAPI c)"
  "keeps (R c) (handleBaileyDevicesRenameAPI c)" "keeps (R c) (handleBaileyApprovalsAPI c)"
  "keeps (R c) (handleBaileyApprovalDenyAPI c)" "keeps (R c) (totp_remove c)" "keeps (R c) (handleSetUserRole c)"
  "keeps (R c) (handleBaileyPeopleInvite c)" "keeps (R c) (handleBaileyInviteRevoke c)"
  "keeps (R c) (handleBaileyInviteResend c)" "keeps (R c) (handleAdminDevicesAPI c)"
  "keeps (R c) (handleAdminDeviceRemoveAPI c)"
  by (auto simp: keeps_def handleBaileyDevicesAPI_def handleBaileyDevicesRemoveAPI_def
      handleBaileyDevicesRenameAPI_def handleBaileyApprovalsAPI_def handleBaileyApprovalDenyAPI_def totp_remove_def
      handleSetUserRole_def handleBaileyPeopleInvite_def handleBaileyInviteRevoke_def handleBaileyInviteResend_def
      handleAdminDevicesAPI_def handleAdminDeviceRemoveAPI_def Let_def case_prod_beta intro!: ops split: option.split sum.split)

lemma keeps_sso: "R c (gs_db s) (gs_db (applySSORoleMapping c' email gs s))"
  by (auto simp: applySSORoleMapping_def Let_def case_prod_beta split: option.split)

lemma keeps_enforceMFAGate: "keeps (R c) (enforceMFAGate c)"
  using keeps_sso
  by (auto simp: keeps_def enforceMFAGate_def gate_refusal_def Let_def case_prod_beta split: option.split)

lemma keeps_socket:
  assumes "hr_path (c_req c) \<noteq> ''/bailey/devices/approve''" shows "keeps (R c) (handleSocket c)"
proof -
  have "keeps (R c) (h c)" if "socket_routes (hr_path (c_req c)) = Some h" for h
    using that assms
    by (auto simp: socket_routes_def keeps_def handleDevicesPending_def handleAccessGrant_def
        handleAccessRevoke_def handleAccessList_def handleUserRole_def handleWorkspaceAuditors_def Let_def case_prod_beta
        split: if_splits option.split)
  then show ?thesis
    using keeps_pages(1) by (simp add: keeps_def handleSocket_def authMiddleware_def Let_def split: option.split)
qed

section \<open>The steps\<close>

lemma keeps_routes:
  "handleGateAPI path = Some h \<Longrightarrow> keeps (R c) (h c)"
  "gate_pages path = Some h \<Longrightarrow> path \<noteq> ''/2fa-gate/approve'' \<Longrightarrow> keeps (R c) (h c)"
  "trusted_routes m path = Some h \<Longrightarrow> keeps (R c) (h c)"
  "keeps (R c) (admin_routes m path c)"
proof -
  have g: "keeps (R c) (guardGet h c)" "keeps (R c) (guardPost h c)" if "keeps (R c) (h c)" for h
    using that by (auto simp: keeps_def guardGet_def guardPost_def)
  note k = keeps_claim keeps_pairing keeps_self_trust keeps_enrolment keeps_redeem keeps_pages keeps_hosts keeps_backend
  show "handleGateAPI path = Some h \<Longrightarrow> keeps (R c) (h c)"
    by (auto simp: handleGateAPI_def g k split: if_splits)
  show "gate_pages path = Some h \<Longrightarrow> path \<noteq> ''/2fa-gate/approve'' \<Longrightarrow> keeps (R c) (h c)"
    by (auto simp: gate_pages_def k split: if_splits)
  show "trusted_routes m path = Some h \<Longrightarrow> keeps (R c) (h c)"
    by (auto simp: trusted_routes_def k split: if_splits)
  show "keeps (R c) (admin_routes m path c)"
    by (auto simp: admin_routes_def k)
qed

lemma keeps_bailey: "keeps (R c) (handleBailey c)"
  using keeps_routes(1,3,4) keeps_pages(1)
  by (auto simp: keeps_def handleBailey_def Let_def split: option.split)

lemma keeps_gate_path: "hr_path (c_req c) \<noteq> ''/2fa-gate/approve'' \<Longrightarrow> keeps (R c) (handleGatePath c)"
  using keeps_routes(2) keeps_pages(1,3)
  by (auto simp: keeps_def handleGatePath_def Let_def split: option.split)

lemma step: "call_ctx call \<in> {None, Some c} \<Longrightarrow> \<not> approving call \<Longrightarrow> R c (gs_db s) (gs_db (gate_step call s))"
  using keeps_bailey keeps_gate_path keeps_enforceMFAGate keeps_socket cascade setting event
  by (cases call) (auto simp: keeps_def)

end

locale store_relation = quiet_relation +
  assumes any_pair: "R c db (dbUpsertPendingPair e db)"
begin

lemma approve_ops [intro]:
  "R c a db \<Longrightarrow> R c a (snd (approvePendingPair now email cd by' adm db))"
  "R c a db \<Longrightarrow> R c a (snd (approvePendingPairByCodeVia now cd by' via db))"
  using trans [OF _ any_pair]
  by (auto simp: approvePendingPair_def approvePendingPairByCodeVia_def Let_def split: option.splits)

lemma keeps_approve: "keeps (R c) (approveHandler c)" "keeps (R c) (handleDeviceApprove c)"
  by (auto simp: keeps_def approveHandler_def handleDeviceApprove_def Let_def case_prod_beta split: option.split)

lemma any_step: "call_ctx call \<in> {None, Some c} \<Longrightarrow> R c (gs_db s) (gs_db (gate_step call s))"
proof (cases "approving call")
  case True
  then show "call_ctx call \<in> {None, Some c} \<Longrightarrow> R c (gs_db s) (gs_db (gate_step call s))"
    using keeps_approve keeps_pages(1)
    by (cases call)
      (auto simp: keeps_def handleGatePath_def gate_pages_def handleSocket_def socket_routes_def authMiddleware_def Let_def
        split: option.split)
qed (rule step)

end

end
