(* ===== verification/Gate_History.thy ===== *)
theory Gate_History
  imports Gate_Laws
begin

text \<open>
  Histories of the daemon: a list of steps folded over the state. The keys of the tables hold in every
  state, a spent invite stays spent, a revoked device stays out, an approval comes from someone who
  may give it; and the way around the second factor that the backup-code routes leave open.
\<close>

section \<open>Invariants along a history\<close>

text \<open>\<open>ok\<close> restricts the steps an invariant is kept by.\<close>

locale guarded_invariant =
  fixes step :: "'call \<Rightarrow> 's \<Rightarrow> 's" and ok :: "'call \<Rightarrow> bool" and good :: "'s \<Rightarrow> bool"
  assumes one_step: "good s \<Longrightarrow> ok call \<Longrightarrow> good (step call s)"
begin

lemma run: "good s \<Longrightarrow> \<forall>call\<in>set calls. ok call \<Longrightarrow> good (fold step calls s)"
  by (induction calls arbitrary: s) (auto simp: one_step)

end

section \<open>The keys of the tables\<close>

lemma trust_ok_upd [simp]:
  "trust_ok (db\<lparr>td_events := evs\<rparr>) = trust_ok db" "trust_ok (db\<lparr>td_settings := m\<rparr>) = trust_ok db"
  by (simp_all add: trust_ok_def)

lemma trust_ok_new_device:
  "trust_ok db \<Longrightarrow> dv_id d \<notin> dv_id ` set (td_devices db) \<Longrightarrow> trust_ok (db\<lparr>td_devices := td_devices db @ [d]\<rparr>)"
  by (simp add: trust_ok_def)

lemma trust_ok_cascade [simp, intro]: "trust_ok db \<Longrightarrow> trust_ok (cascade host db)"
  by (auto simp: trust_ok_def cascade_def)

lemma trust_ok_dbRemoveDevice [simp, intro]: "trust_ok db \<Longrightarrow> trust_ok (dbRemoveDevice email devid db)"
  by (auto simp: trust_ok_def dbRemoveDevice_def)

lemma trust_ok_dbSaveTOTP [simp, intro]: "trust_ok db \<Longrightarrow> trust_ok (dbSaveTOTP rec db)"
  by (auto simp: trust_ok_def dbSaveTOTP_def fold_key_def eq_fold_def intro!: upsert_row_keys)

interpretation keys: store_relation "\<lambda>c db db'. trust_ok db \<longrightarrow> trust_ok db'"
  by unfold_locales (use trust_ok_new_device in auto)

interpretation key_history: guarded_invariant gate_step "\<lambda>_. True" "\<lambda>s. trust_ok (gs_db s)"
  using keys.any_step by unfold_locales (metis insertCI not_None_eq)



section \<open>Approvals\<close>

definition approved :: "trust_db \<Rightarrow> pairing set" where
  "approved db = {e \<in> set (td_pairs db). pp_by e \<noteq> []}"

lemma approved_upsert:
  assumes "e \<in> approved (dbUpsertPendingPair p db)" "e \<notin> approved db"
  shows "pp_by e = pp_by p \<and> pp_code e = pp_code p \<and> pp_expires e = pp_expires p \<and> eq_fold (pp_email e) (pp_email p)"
proof -
  have "e \<in> set (td_pairs (dbUpsertPendingPair p db))" "e \<notin> set (td_pairs db)"
    using assms by (auto simp: approved_def)
  then show ?thesis
    by (auto simp: dbUpsertPendingPair_def upsert_row_def set_update_rows split: if_splits)
qed

lemma approved_other [simp]:
  "approved (db\<lparr>td_events := evs\<rparr>) = approved db" "approved (db\<lparr>td_settings := m\<rparr>) = approved db"
  "approved (db\<lparr>td_devices := ds\<rparr>) = approved db" "approved (update_devices P f db) = approved db"
  "approved (dbRemoveDevice email devid db) = approved db" "approved (dbSaveTOTP rec db) = approved db"
  "approved (dbDeleteTOTP email db) = approved db" "approved (dbSaveBackupCodes sha now email codes db) = approved db"
  "approved (snd (dbConsumeBackupCode sha email cd db)) = approved db" "approved (dbUpsertInvite v db) = approved db"
  "approved (snd (dbConsumeInviteAtomic h now db)) = approved db" "approved (snd (dbDeleteInvite email db)) = approved db"
  "approved (snd (dbCreateMagicLink sha now mid tok host by' ttl acl db)) = approved db"
  "approved (snd (dbRevokeMagicLink now mid host db)) = approved db"
  "approved (snd (dbAddEndpointDeviceTrust now devid host email acl db)) = approved db"
  "approved (snd (dbSetUserRole now email role by' db)) = approved db" "approved (cascade host db) = approved db"
  "approved (recordEvent now act' act tgt db) = approved db"
  by (simp_all add: approved_def trust_ops dbSaveBackupCodes_def dbConsumeBackupCode_def dbConsumeInviteAtomic_def
      dbDeleteInvite_def dbCreateMagicLink_def dbRevokeMagicLink_def dbAddEndpointDeviceTrust_def dbSetUserRole_def
      cascade_def Let_def)

lemma approved_quiet:
  "pp_by e = [] \<Longrightarrow> approved (dbUpsertPendingPair e db) \<subseteq> approved db"
  "approved (dbDeletePendingPairByEmail email db) \<subseteq> approved db"
  "approved (dbPurgeExpiredPendingPairs now db) \<subseteq> approved db"
proof -
  assume e: "pp_by e = []"
  show "approved (dbUpsertPendingPair e db) \<subseteq> approved db"
  proof
    fix x assume x: "x \<in> approved (dbUpsertPendingPair e db)"
    then have "pp_by x \<noteq> []" by (simp add: approved_def)
    then show "x \<in> approved db" using approved_upsert [OF x] e by auto
  qed
qed (auto simp: approved_def dbDeletePendingPairByEmail_def dbPurgeExpiredPendingPairs_def)

interpretation calm: quiet_relation "\<lambda>c db db'. approved db' \<subseteq> approved db"
  by unfold_locales (use approved_quiet in auto)

text \<open>Who approved a pair, and when it still could be.\<close>

definition approved_by :: "ctx \<Rightarrow> string \<Rightarrow> pairing \<Rightarrow> trust_db \<Rightarrow> bool" where
  "approved_by c who e db \<longleftrightarrow>
     pp_by e = who \<and> c_now c \<le> pp_expires e \<and>
     (\<exists>p\<in>set (td_pairs db). eq_fold (pp_email e) (pp_email p) \<and> pp_code p = pp_code e \<and> pp_expires p = pp_expires e)"

lemma approvePendingPair_effect:
  assumes "e \<in> approved (snd (approvePendingPair (c_now c) email cd who adm db))" "e \<notin> approved db"
  shows "approved_by c who e db \<and> eq_fold (pp_email e) email"
proof -
  obtain p where p: "dbLoadPendingPairByCode cd db = Some p" "pp_email p = email" "\<not> pp_expires p < c_now c"
      "e \<in> approved (dbUpsertPendingPair
         (p\<lparr>pp_by := who, pp_info := (if adm then who @ '' (admin)'' else who)\<rparr>) db)"
    using assms by (auto simp: approvePendingPair_def Let_def split: option.splits if_splits)
  have "p \<in> set (td_pairs db)" using p(1) by (auto simp: dbLoadPendingPairByCode_def find_Some_iff)
  then show ?thesis
    using approved_upsert [OF p(4) assms(2)] p(2,3) by (auto simp: approved_by_def intro!: bexI [of _ p])
qed

lemma approvePendingPairByCodeVia_effect:
  assumes "e \<in> approved (snd (approvePendingPairByCodeVia (c_now c) cd who via db))" "e \<notin> approved db"
  shows "approved_by c who e db"
proof -
  obtain p where p: "dbLoadPendingPairByCode cd db = Some p" "\<not> pp_expires p < c_now c"
      "e \<in> approved (dbUpsertPendingPair (p\<lparr>pp_by := who, pp_info := who @ '' (admin via '' @ via @ '')''\<rparr>) db)"
    using assms by (auto simp: approvePendingPairByCodeVia_def Let_def split: option.splits if_splits)
  have "p \<in> set (td_pairs db)" using p(1) by (auto simp: dbLoadPendingPairByCode_def find_Some_iff)
  then show ?thesis
    using approved_upsert [OF p(3) assms(2)] p(2) by (auto simp: approved_by_def intro!: bexI [of _ p])
qed

lemma approveHandler_effect:
  assumes "e \<in> approved (gs_db (snd (approveHandler c s)))" "e \<notin> approved (gs_db s)"
  shows "approved_by c (identity c) e (gs_db s) \<and>
    approverIsTrusted c (identity c) (callerIsAdmin (identity c) (gs_db s)) (gs_db s) \<and>
    (eq_fold (pp_email e) (identity c) \<or> callerIsAdmin (identity c) (gs_db s))"
proof -
  let ?adm = "callerIsAdmin (identity c) (gs_db s)"
  have g: "approverIsTrusted c (identity c) ?adm (gs_db s)" "eq_fold (form c ''email'') (identity c) \<or> ?adm"
      "e \<in> approved (snd (approvePendingPair (c_now c) (form c ''email'') (form c ''code'') (identity c) ?adm (gs_db s)))"
    using assms by (auto simp: approveHandler_def Let_def case_prod_beta split: if_splits option.splits)
  from approvePendingPair_effect [OF g(3) assms(2)] g(1,2) show ?thesis by (auto simp: eq_fold_def)
qed

lemma handleDeviceApprove_effect:
  assumes "e \<in> approved (gs_db (snd (handleDeviceApprove c s)))" "e \<notin> approved (gs_db s)"
  shows "approved_by c (root_or_cli s) e (gs_db s) \<and> callerHasAdminToken c"
proof -
  obtain prin where g: "callerAdminPrincipal c = Some prin"
      "e \<in> approved (snd (approvePendingPairByCodeVia (c_now c) (trim_space (hr_json (c_req c) ''code'')) (root_or_cli s) prin (gs_db s)))"
    using assms by (auto simp: handleDeviceApprove_def Let_def case_prod_beta split: if_splits option.splits)
  from approvePendingPairByCodeVia_effect [OF g(2) assms(2)] g(1) show ?thesis by (simp add: callerHasAdminToken_def)
qed

text \<open>C2: a pending pair is approved only by someone who may approve it. When a step of the daemon adds
  an approval, the pair was pending and had not expired, and either it came from the approval page by
  a signed-in user on a trusted device (or an admin with a session) who approves an own device or is
  an admin, and is recorded as the approver, or from the socket with the admin token.\<close>

theorem approval_needs_authority:
  assumes "e \<in> approved (gs_db (gate_step call s))" "e \<notin> approved (gs_db s)"
  shows "(\<exists>c. call = GatePath c \<and> approved_by c (identity c) e (gs_db s) \<and>
      approverIsTrusted c (identity c) (callerIsAdmin (identity c) (gs_db s)) (gs_db s) \<and>
      (eq_fold (pp_email e) (identity c) \<or> callerIsAdmin (identity c) (gs_db s))) \<or>
    (\<exists>c. call = Socket c \<and> approved_by c (root_or_cli s) e (gs_db s) \<and> callerHasAdminToken c)"
proof (cases "approving call")
  case False
  obtain c where "call_ctx call \<in> {None, Some c}" by (cases "call_ctx call") auto
  from calm.step [OF this False, of s] assms show ?thesis by blast
next
  case True
  show ?thesis
  proof (cases call)
    case (GatePath c)
    then have "gate_step call s = s \<or> gate_step call s = snd (approveHandler c s)"
      using True by (auto simp: handleGatePath_def gate_pages_def elsewhere_def Let_def)
    then show ?thesis using assms approveHandler_effect GatePath by metis
  next
    case (Socket c)
    then have "gate_step call s = s \<or> gate_step call s = snd (handleDeviceApprove c s)"
      using True
      by (auto simp: handleSocket_def socket_routes_def authMiddleware_def Let_def split: option.splits)
    then show ?thesis using assms handleDeviceApprove_effect Socket by metis
  qed (use True in auto)
qed

definition waiting :: gate_state where
  "waiting = fresh_server\<lparr>gs_db := no_trust\<lparr>td_pairs :=
     [\<lparr>pp_email = ''ana@x.org'', pp_code = ''123456'', pp_issued = 0, pp_expires = 2000000000000, pp_by = [],
       pp_info = [], pp_ua = []\<rparr>]\<rparr>\<rparr>"

definition operator_call :: ctx where
  "operator_call =
     sample_ctx ''d1'' (with_json ''code'' ''123456''
       (with_header ''Authorization'' ''Bearer secret'' (sample_req ''POST'' ''/bailey/devices/approve'' [])))"

lemma operator_call_facts:
  "callerAdminPrincipal operator_call = Some ''daemon-token''"
  "handleSocket operator_call waiting = handleDeviceApprove operator_call waiting"
  "snd (handleDeviceApprove operator_call waiting) = waiting\<lparr>gs_db := recordEvent 1000000000000 ''daemon-token'' ''device.approve'' ''ana@x.org''
     (snd (approvePendingPairByCodeVia 1000000000000 ''123456'' ''cli'' ''daemon-token'' (gs_db waiting)))\<rparr>"
proof -
  have t: "cut_space ''Bearer secret'' = Some (''Bearer'', ''secret'')" "eq_fold ''Bearer'' ''bearer''"
    "trim_space ''secret'' = ''secret''" "trim_space ''123456'' = ''123456''" "trim_space [] = []"
    by code_simp+
  show p: "callerAdminPrincipal operator_call = Some ''daemon-token''"
    by (simp add: callerAdminPrincipal_def operator_call_def samples t adminPrincipalDaemon_def)
  show "handleSocket operator_call waiting = handleDeviceApprove operator_call waiting"
    by (simp add: handleSocket_def operator_call_def samples socket_routes_def authMiddleware_def)
  have r: "root_or_cli waiting = ''cli''"
    by (simp add: root_or_cli_def waiting_def samples serverRootAdmin_def dbGetSetting_def t)
  show "snd (handleDeviceApprove operator_call waiting) = waiting\<lparr>gs_db := recordEvent 1000000000000 ''daemon-token'' ''device.approve'' ''ana@x.org''
     (snd (approvePendingPairByCodeVia 1000000000000 ''123456'' ''cli'' ''daemon-token'' (gs_db waiting)))\<rparr>"
    unfolding handleDeviceApprove_def Let_def p r
    by (simp add: operator_call_def req_method_def waiting_def samples t approvePendingPairByCodeVia_def
        dbLoadPendingPairByCode_def Let_def)
qed

lemma approval_needs_authority_witness:
  "\<exists>e\<in>approved (gs_db (gate_step (Socket operator_call) waiting)).
     \<exists>c. Socket operator_call = Socket c \<and> approved_by c (root_or_cli waiting) e (gs_db waiting) \<and> callerHasAdminToken c"
proof -
  define s' where "s' = gate_step (Socket operator_call) waiting"
  have w: "approved (gs_db waiting) = {}" by (simp add: approved_def waiting_def)
  have "approved (gs_db s') \<noteq> {}"
    unfolding s'_def gate_step.simps operator_call_facts(2,3)
    by (simp add: approved_def waiting_def samples approvePendingPairByCodeVia_def
        dbLoadPendingPairByCode_def Let_def dbUpsertPendingPair_def upsert_row_def update_rows_def recordEvent_def)
  then obtain e where e: "e \<in> approved (gs_db s')" by blast
  from approval_needs_authority [OF this [unfolded s'_def]] w show ?thesis
    unfolding s'_def [symmetric] by (intro bexI [OF _ e]) auto
qed

section \<open>Single use of an invite\<close>

definition invite_spent :: "string \<Rightarrow> trust_db \<Rightarrow> bool" where
  "invite_spent h db \<longleftrightarrow> (\<forall>v\<in>set (td_invites db). iv_hash v = h \<longrightarrow> iv_consumed v \<noteq> None)"

lemma invite_spent_other [simp]:
  "invite_spent h (db\<lparr>td_events := evs\<rparr>) = invite_spent h db" "invite_spent h (db\<lparr>td_settings := m\<rparr>) = invite_spent h db"
  "invite_spent h (db\<lparr>td_devices := ds\<rparr>) = invite_spent h db" "invite_spent h (update_devices P f db) = invite_spent h db"
  "invite_spent h (dbRemoveDevice email devid db) = invite_spent h db" "invite_spent h (dbSaveTOTP rec db) = invite_spent h db"
  "invite_spent h (dbDeleteTOTP email db) = invite_spent h db"
  "invite_spent h (dbSaveBackupCodes sha now email codes db) = invite_spent h db"
  "invite_spent h (snd (dbConsumeBackupCode sha email cd db)) = invite_spent h db"
  "invite_spent h (snd (dbCreateMagicLink sha now mid tok host by' ttl acl db)) = invite_spent h db"
  "invite_spent h (snd (dbRevokeMagicLink now mid host db)) = invite_spent h db"
  "invite_spent h (snd (dbAddEndpointDeviceTrust now devid host email acl db)) = invite_spent h db"
  "invite_spent h (snd (dbSetUserRole now email role by' db)) = invite_spent h db"
  "invite_spent h (cascade host db) = invite_spent h db" "invite_spent h (dbUpsertPendingPair e db) = invite_spent h db"
  "invite_spent h (dbDeletePendingPairByEmail email db) = invite_spent h db"
  "invite_spent h (dbPurgeExpiredPendingPairs now db) = invite_spent h db"
  by (simp_all add: invite_spent_def trust_ops dbSaveBackupCodes_def dbConsumeBackupCode_def
      dbCreateMagicLink_def dbRevokeMagicLink_def dbAddEndpointDeviceTrust_def dbSetUserRole_def cascade_def Let_def)

lemma invite_spent_ops:
  "invite_spent h db \<Longrightarrow> iv_hash v \<noteq> h \<Longrightarrow> invite_spent h (dbUpsertInvite v db)"
  "invite_spent h db \<Longrightarrow> invite_spent h (snd (dbConsumeInviteAtomic h' now db))"
  "invite_spent h db \<Longrightarrow> invite_spent h (snd (dbDeleteInvite email db))"
  by (auto simp: invite_spent_def dbUpsertInvite_def upsert_row_def set_update_rows dbConsumeInviteAtomic_def dbDeleteInvite_def)

definition mints :: "string \<Rightarrow> gate_call \<Rightarrow> bool" where
  "mints h call \<longleftrightarrow> (\<exists>c. call_ctx call = Some c \<and> c_sha c (c_token c) = h)"

interpretation spent: store_relation "\<lambda>c db db'. c_sha c (c_token c) \<noteq> h \<longrightarrow> invite_spent h db \<longrightarrow> invite_spent h db'" for h
  by unfold_locales (use invite_spent_ops in auto)

lemma spent_step: "invite_spent h (gs_db s) \<Longrightarrow> \<not> mints h call \<Longrightarrow> invite_spent h (gs_db (gate_step call s))"
proof (cases "call_ctx call")
  case None
  define c where "c = (sample_ctx [] (sample_req [] [] []))\<lparr>c_sha := \<lambda>_. CHR ''x'' # h\<rparr>"
  have "c_sha c (c_token c) \<noteq> h" by (simp add: c_def)
  then show "invite_spent h (gs_db s) \<Longrightarrow> ?thesis" using None spent.any_step [of call c h s] by simp
next
  case (Some c)
  then show "invite_spent h (gs_db s) \<Longrightarrow> \<not> mints h call \<Longrightarrow> ?thesis"
    using spent.any_step [of call c h s] by (simp add: mints_def)
qed

interpretation spent_history: guarded_invariant gate_step "\<lambda>call. \<not> mints h call" "\<lambda>s. invite_spent h (gs_db s)" for h
  by unfold_locales (rule spent_step)

text \<open>The invite of a token, and the answer to a token whose invites are spent.\<close>

definition invite_token :: "ctx \<Rightarrow> string" where
  "invite_token c = trim_space (gb_token (decodeGateBody (c_req c)))"

lemma redeem_ok:
  assumes "rs_status (fst (handleGateInviteRedeem c s)) = 200"
  shows "\<exists>v. dbLoadInviteByTokenHash (c_sha c (invite_token c)) (gs_db s) = Some v \<and>
    fst (dbConsumeInviteAtomic (iv_hash v) (c_now c) (gs_db s)) \<and>
    td_invites (gs_db (snd (handleGateInviteRedeem c s))) =
      td_invites (snd (dbConsumeInviteAtomic (iv_hash v) (c_now c) (gs_db s)))"
proof -
  obtain v where v: "trim_space (identity c) \<noteq> []" "serverClaimed (gs_db s)" "invite_token c \<noteq> []"
      "dbLoadInviteByTokenHash (c_sha c (invite_token c)) (gs_db s) = Some v" "inv_live (c_now c) v"
      "eq_fold (trim_space (iv_email v)) (trim_space (identity c))" "dbListDevices (identity c) (gs_db s) = []"
      "fst (dbConsumeInviteAtomic (iv_hash v) (c_now c) (gs_db s))"
    using assms
    by (auto simp: handleGateInviteRedeem_def invite_token_def requireIdentity_def Let_def err_coded_def err_json_def
        answer_def case_prod_beta inv_live_def split: if_splits option.splits)
  then show ?thesis by (auto simp: redeem_snd Let_def invite_token_def [symmetric] trust_device_snd)
qed

lemma redeem_spends:
  assumes "rs_status (fst (handleGateInviteRedeem c s)) = 200" "distinct (map iv_hash (td_invites (gs_db s)))"
  shows "invite_spent (c_sha c (invite_token c)) (gs_db (snd (handleGateInviteRedeem c s)))"
proof -
  define h where "h = c_sha c (invite_token c)"
  obtain v where v: "dbLoadInviteByTokenHash h (gs_db s) = Some v" "fst (dbConsumeInviteAtomic (iv_hash v) (c_now c) (gs_db s))"
      "td_invites (gs_db (snd (handleGateInviteRedeem c s))) = td_invites (snd (dbConsumeInviteAtomic (iv_hash v) (c_now c) (gs_db s)))"
    using redeem_ok [OF assms(1)] unfolding h_def by blast
  have hv: "iv_hash v = h" using v(1) by (auto simp: dbLoadInviteByTokenHash_def find_Some_iff)
  then obtain u where u: "u \<in> set (td_invites (gs_db s))" "consumable h (c_now c) u"
    using v(2) by (auto simp: dbConsumeInviteAtomic_def list_ex_iff)
  have "w = u" if "w \<in> set (td_invites (gs_db s))" "iv_hash w = h" for w
    using assms(2) inj_onD [of iv_hash "set (td_invites (gs_db s))" w u] u that by (simp add: distinct_map consumable_def)
  then have "iv_hash w \<noteq> h" if "w \<in> set (td_invites (gs_db s))" "\<not> consumable h (c_now c) w" for w
    using u(2) that by blast
  then have "iv_hash x = h \<longrightarrow> iv_consumed x \<noteq> None"
    if "x \<in> set (td_invites (snd (dbConsumeInviteAtomic h (c_now c) (gs_db s))))" for x
    using that by (auto simp: dbConsumeInviteAtomic_def set_update_rows)
  then show ?thesis unfolding h_def [symmetric] invite_spent_def v(3) hv by blast
qed

lemma redeem_spent:
  assumes "invite_spent (c_sha c (invite_token c)) (gs_db s)"
  shows "400 \<le> rs_status (fst (handleGateInviteRedeem c s)) \<and> snd (handleGateInviteRedeem c s) = s"
proof -
  have "inv_consumed v" if "dbLoadInviteByTokenHash (c_sha c (invite_token c)) (gs_db s) = Some v" for v
    using that assms by (auto simp: dbLoadInviteByTokenHash_def find_Some_iff invite_spent_def inv_consumed_def)
  then show ?thesis
    by (auto simp: handleGateInviteRedeem_def requireIdentity_def Let_def err_coded_def err_json_def answer_def
        invite_token_def [symmetric] split: option.split)
qed

text \<open>C16: an invite is good for one redemption. After a redemption that answers 200, no later request
  with a token of the same hash is served as long as no new invite with that hash is minted: it gets
  an error and changes nothing, whatever the daemon did in between.\<close>

theorem invite_is_single_use:
  assumes "rs_status (fst (handleGateInviteRedeem c s)) = 200" "distinct (map iv_hash (td_invites (gs_db s)))"
    and "\<forall>call\<in>set calls. \<not> mints (c_sha c (invite_token c)) call"
    and "c_sha c' (invite_token c') = c_sha c (invite_token c)"
  shows "400 \<le> rs_status (fst (handleGateInviteRedeem c' (fold gate_step calls (snd (handleGateInviteRedeem c s))))) \<and>
    snd (handleGateInviteRedeem c' (fold gate_step calls (snd (handleGateInviteRedeem c s)))) =
      fold gate_step calls (snd (handleGateInviteRedeem c s))"
proof -
  have "invite_spent (c_sha c (invite_token c)) (gs_db (fold gate_step calls (snd (handleGateInviteRedeem c s))))"
    using spent_history.run [OF redeem_spends [OF assms(1,2)] assms(3)] .
  then show ?thesis by (intro redeem_spent) (simp add: assms(4))
qed

definition invited :: gate_state where
  "invited = fresh_server\<lparr>gs_db := no_trust\<lparr>
     td_devices := [\<lparr>dv_id = ''d0'', dv_email = ''ana@x.org'', dv_name = ''n'', dv_paired = 0, dv_seen = None, dv_origin = ''root''\<rparr>],
     td_invites := [\<lparr>iv_email = ''bob@x.org'', iv_hash = ''tok'', iv_role = ''member'', iv_by = ''ana@x.org'',
       iv_created = 0, iv_expires = 2000000000000, iv_consumed = None\<rparr>]\<rparr>\<rparr>"

definition redeeming :: ctx where
  "redeeming = sample_ctx ''d1'' (with_json ''token'' ''tok'' (sample_req ''POST'' ''/bailey/api/invite/redeem'' ''bob@x.org''))"

lemma redeeming_facts:
  "identity redeeming = ''bob@x.org''" "c_now redeeming = 1000000000000" "c_sha redeeming x = x" "c_id redeeming = ''d1''"
  "invite_token redeeming = ''tok''"
proof -
  have "trim_space ''tok'' = ''tok''" by code_simp
  then show "identity redeeming = ''bob@x.org''" "c_now redeeming = 1000000000000" "c_sha redeeming x = x"
    "c_id redeeming = ''d1''" "invite_token redeeming = ''tok''"
    by (simp_all add: redeeming_def samples identity_def identityFromHeaders_def invite_token_def decodeGateBody_def)
qed

lemma trust_device_status:
  "c_id c \<notin> device_ids s \<Longrightarrow> (\<And>s1. rs_status (fst (k s1)) = n) \<Longrightarrow> rs_status (fst (trust_device c email info k s)) = n"
  by (simp add: trust_device_def completeNewDevicePairFor_def add_device_def addDeviceWithOrigin_def dbAddDevice_def
      Let_def case_prod_beta id_taken setDeviceCookie_def)

lemma distinct_invited: "distinct (map iv_hash (td_invites (gs_db invited)))"
  by (simp add: invited_def)

lemma redeeming_200: "rs_status (fst (handleGateInviteRedeem redeeming invited)) = 200"
proof -
  have t: "trim_space ''bob@x.org'' = ''bob@x.org''" "eq_fold ''bob@x.org'' ''bob@x.org''"
    "\<not> eq_fold ''ana@x.org'' ''bob@x.org''" "nano_less 1000000000000 2000000000000"
    by code_simp+
  let ?s = "invited\<lparr>gs_db := snd (dbConsumeInviteAtomic ''tok'' 1000000000000 (gs_db invited))\<rparr>"
  have "c_id redeeming \<notin> device_ids ?s"
    by (simp add: device_ids_def invited_def samples dbConsumeInviteAtomic_def redeeming_facts)
  then show ?thesis
    by (simp add: handleGateInviteRedeem_def requireIdentity_def redeeming_facts invite_token_def [symmetric] t
        serverClaimed_def dbAnyDevicesExist_def invited_def samples dbLoadInviteByTokenHash_def inv_consumed_def
        inv_expired_def dbListDevices_def dbConsumeInviteAtomic_def consumable_def case_prod_beta Let_def
        trust_device_status ok_redirect_def answer_def setSessionCookie_def add_cookie_def)
qed

lemma invite_is_single_use_witness:
  "400 \<le> rs_status (fst (handleGateInviteRedeem redeeming
     (fold gate_step [Socket operator_call] (snd (handleGateInviteRedeem redeeming invited)))))"
proof -
  have "\<not> mints (c_sha redeeming (invite_token redeeming)) (Socket operator_call)"
    by (simp add: mints_def redeeming_facts operator_call_def samples)
  then show ?thesis
    using invite_is_single_use [OF redeeming_200, of "[Socket operator_call]" redeeming] by (simp add: distinct_invited)
qed

section \<open>Revocation\<close>

definition unlisted :: "string \<Rightarrow> trust_db \<Rightarrow> bool" where
  "unlisted i db \<longleftrightarrow> i \<notin> dv_id ` set (td_devices db)"

lemma unlisted_other [simp]:
  "unlisted i (db\<lparr>td_events := evs\<rparr>) = unlisted i db" "unlisted i (db\<lparr>td_settings := m\<rparr>) = unlisted i db"
  "(\<And>d. dv_id (f d) = dv_id d) \<Longrightarrow> unlisted i (update_devices P f db) = unlisted i db"
  "unlisted i (dbSaveTOTP rec db) = unlisted i db" "unlisted i (dbDeleteTOTP email db) = unlisted i db"
  "unlisted i (dbSaveBackupCodes sha now email codes db) = unlisted i db"
  "unlisted i (snd (dbConsumeBackupCode sha email cd db)) = unlisted i db" "unlisted i (dbUpsertInvite v db) = unlisted i db"
  "unlisted i (snd (dbConsumeInviteAtomic h now db)) = unlisted i db" "unlisted i (snd (dbDeleteInvite email db)) = unlisted i db"
  "unlisted i (snd (dbCreateMagicLink sha now mid tok host by' ttl acl db)) = unlisted i db"
  "unlisted i (snd (dbRevokeMagicLink now mid host db)) = unlisted i db"
  "unlisted i (snd (dbAddEndpointDeviceTrust now devid host email acl db)) = unlisted i db"
  "unlisted i (snd (dbSetUserRole now email role by' db)) = unlisted i db" "unlisted i (cascade host db) = unlisted i db"
  "unlisted i (dbUpsertPendingPair e db) = unlisted i db" "unlisted i (dbDeletePendingPairByEmail email db) = unlisted i db"
  "unlisted i (dbPurgeExpiredPendingPairs now db) = unlisted i db"
  by (simp_all add: unlisted_def ids_update_devices)

interpretation gone: store_relation "\<lambda>c db db'. c_id c \<noteq> i \<longrightarrow> unlisted i db \<longrightarrow> unlisted i db'" for i
proof unfold_locales
  show "c_id c \<noteq> i \<longrightarrow> unlisted i db \<longrightarrow> unlisted i (dbRemoveDevice email devid db)" for c db email devid
    by (auto simp: unlisted_def dbRemoveDevice_def)
qed (auto simp: unlisted_def ids_update_devices)

text \<open>No request of a history draws the id \<open>i\<close> for a new device.\<close>

definition draws :: "string \<Rightarrow> gate_call \<Rightarrow> bool" where
  "draws i call \<longleftrightarrow> (\<exists>c. call_ctx call = Some c \<and> c_id c = i)"

lemma gone_step: "unlisted i (gs_db s) \<Longrightarrow> \<not> draws i call \<Longrightarrow> unlisted i (gs_db (gate_step call s))"
proof (cases "call_ctx call")
  case None
  define c where "c = sample_ctx (CHR ''x'' # i) (sample_req [] [] [])"
  have "c_id c \<noteq> i" by (simp add: c_def sample_ctx_def)
  then show "unlisted i (gs_db s) \<Longrightarrow> ?thesis" using None gone.any_step [of call c i s] by simp
next
  case (Some c)
  then show "unlisted i (gs_db s) \<Longrightarrow> \<not> draws i call \<Longrightarrow> ?thesis"
    using gone.any_step [of call c i s] by (simp add: draws_def)
qed

interpretation gone_history: guarded_invariant gate_step "\<lambda>call. \<not> draws i call" "\<lambda>s. unlisted i (gs_db s)" for i
  by unfold_locales (rule gone_step)

lemma removed_unlisted:
  assumes "trust_ok db" "d \<in> set (td_devices db)" "eq_fold (dv_email d) email"
  shows "unlisted (dv_id d) (removeDevice now email (dv_id d) db)"
proof -
  have "x = d" if "x \<in> set (td_devices db)" "dv_id x = dv_id d" for x
    using assms(1,2) that inj_onD [of dv_id "set (td_devices db)" x d] by (simp add: trust_ok_def distinct_map)
  then show ?thesis using assms(3) by (auto simp: unlisted_def own_device_def)
qed

lemma unlisted_no_device: "unlisted i db \<Longrightarrow> dbFindDevice email i db = None"
  by (auto simp: unlisted_def dbFindDevice_def find_None_iff own_device_def)

lemma applySSO_scoped [simp]:
  "dbEndpointDeviceTrusted i host (gs_db (applySSORoleMapping c email gs s)) = dbEndpointDeviceTrusted i host (gs_db s)"
  by (simp add: dbEndpointDeviceTrusted_def applySSORoleMapping_def recordEvent_def dbSetUserRole_def Let_def case_prod_beta
      split: option.split)

definition after_removal :: "int \<Rightarrow> string \<Rightarrow> device_row \<Rightarrow> gate_call list \<Rightarrow> gate_state \<Rightarrow> gate_state" where
  "after_removal now email d calls s = fold gate_step calls (db_upd (removeDevice now email (dv_id d)) s)"

text \<open>C14: a revoked device stays out. Once a device was removed from its account, and as long as no
  later device is given its random id, no history brings it back: the cookie that names it never
  yields a trusted device again, and the gate answers its requests to an application itself, unless
  the device holds a magic-link trust for just that endpoint.\<close>

theorem revoked_device_stays_out:
  assumes "trust_ok (gs_db s)" "d \<in> set (td_devices (gs_db s))" "eq_fold (dv_email d) email"
    and "\<forall>call\<in>set calls. \<not> draws (dv_id d) call"
    and "deviceIDFromRequest (c_mac c) (c_key c) (c_req c) (identity c) = Some (dv_id d)" "identity c \<noteq> []"
    and "\<not> gateExemptPath (hr_path (c_req c))" "\<not> onOnboardHost (c_domain c) (c_req c)"
    and "\<not> dbEndpointDeviceTrusted (dv_id d) (outer_host c) (gs_db (after_removal now email d calls s))"
  shows "current_device c (identity c) (gs_db (after_removal now email d calls s)) = None \<and>
    (\<exists>r. fst (enforceMFAGate c (after_removal now email d calls s)) = Inl r)"
proof -
  have "unlisted (dv_id d) (gs_db (db_upd (removeDevice now email (dv_id d)) s))"
    using removed_unlisted [OF assms(1-3)] by simp
  from gone_history.run [OF this assms(4)] have u: "unlisted (dv_id d) (gs_db (after_removal now email d calls s))" by (simp add: after_removal_def)
  have none: "current_device c (identity c) db = None" if "unlisted (dv_id d) db" for db
    using assms(5) unlisted_no_device [OF that]
    by (auto simp: current_device_def currentDeviceForRequest_def deviceIDFromRequest_def split: if_splits)
  have "unlisted (dv_id d) (gs_db (applySSORoleMapping c (identity c) (groups c) (after_removal now email d calls s)))"
    using u by (simp add: unlisted_def)
  then show ?thesis
    using none u assms(5-9)
    by (auto simp: enforceMFAGate_def gate_refusal_def Let_def case_prod_beta)
qed

definition old_device :: device_row where
  "old_device = \<lparr>dv_id = ''d0'', dv_email = ''ana@x.org'', dv_name = ''n'', dv_paired = 0, dv_seen = None, dv_origin = ''root''\<rparr>"

definition returning :: ctx where
  "returning = (sample_ctx ''d1'' ((sample_req ''GET'' ''/app'' ''ana@x.org'')
     \<lparr>hr_hostport := ''app.x.org'', hr_cookies := [(deviceCookieName, signedDeviceCookie (\<lambda>_ _. ''mac'') ''k'' ''ana@x.org'' ''d0'' 0)]\<rparr>))
     \<lparr>c_mac := \<lambda>_ _. ''mac''\<rparr>"

lemma revoked_device_stays_out_witness:
  "current_device returning (identity returning) (gs_db (after_removal 0 ''ana@x.org'' old_device [DeleteEndpoint ''x''] invited)) = None \<and>
   (\<exists>r. fst (enforceMFAGate returning (after_removal 0 ''ana@x.org'' old_device [DeleteEndpoint ''x''] invited)) = Inl r)"
proof (rule revoked_device_stays_out)
  show "trust_ok (gs_db invited)" by (simp add: trust_ok_def invited_def no_trust_def)
  show "old_device \<in> set (td_devices (gs_db invited))" by (simp add: invited_def old_device_def)
  show "eq_fold (dv_email old_device) ''ana@x.org''" by (simp add: old_device_def)
  show "\<forall>call\<in>set [DeleteEndpoint ''x'']. \<not> draws (dv_id old_device) call" by (simp add: draws_def)
  have i: "identity returning = ''ana@x.org''"
    by (simp add: returning_def samples identity_def identityFromHeaders_def)
  then show "identity returning \<noteq> []" by simp
  have v: "verifyDeviceCookie (\<lambda>_ _. ''mac'') ''k'' ''ana@x.org'' (signedDeviceCookie (\<lambda>_ _. ''mac'') ''k'' ''ana@x.org'' ''d0'' 0) = Some ''d0''"
    by (rule signedDeviceCookie_accepted) (simp_all add: unix_def)
  then have "signedDeviceCookie (\<lambda>_ _. ''mac'') ''k'' ''ana@x.org'' ''d0'' 0 \<noteq> []"
    by (auto simp: verifyDeviceCookie_def)
  then show "deviceIDFromRequest (c_mac returning) (c_key returning) (c_req returning) (identity returning) = Some (dv_id old_device)"
    unfolding i by (simp add: deviceIDFromRequest_def returning_def samples cookie_def v old_device_def)
  show "\<not> gateExemptPath (hr_path (c_req returning))" by (simp add: gateExemptPath_def returning_def samples)
  have "\<not> isServerConsoleOnboardHost ''x.org'' (toOuterHost (to_lower (fst (cut_at CHR '':'' ''app.x.org''))))" by code_simp
  then show "\<not> onOnboardHost (c_domain returning) (c_req returning)"
    by (simp add: onOnboardHost_def returning_def samples requestEndpointHost_def)
  show "\<not> dbEndpointDeviceTrusted (dv_id old_device) (outer_host returning)
      (gs_db (after_removal 0 ''ana@x.org'' old_device [DeleteEndpoint ''x''] invited))"
    by (simp add: after_removal_def dbEndpointDeviceTrusted_def cascade_def removeDevice_def recordEvent_def
        dbRemoveDevice_def invited_def samples delete_rows_def)
qed

section \<open>The first factor alone\<close>

lemma saved_code_found:
  assumes "cd \<in> set codes" "normalizeBackupCode cd \<noteq> []"
  shows "list_ex (same_code email (hashBackupCode sha cd)) (td_codes (dbSaveBackupCodes sha now email codes db))"
proof -
  have kept: "list_ex P rows \<Longrightarrow> list_ex P (fold (insert_code sha now email) cs rows)" for P cs rows
    by (induction cs arbitrary: rows) (auto simp: insert_code_def)
  have "list_ex (same_code email (hashBackupCode sha cd)) (fold (insert_code sha now email) codes rows)" for rows
    using assms(1)
  proof (induction codes arbitrary: rows)
    case (Cons x codes)
    show ?case
    proof (cases "x = cd")
      case True
      have "list_ex (same_code email (hashBackupCode sha cd)) (insert_code sha now email cd rows)"
        using assms(2) by (auto simp: insert_code_def same_code_def)
      then show ?thesis using kept by (simp add: True)
    next
      case False
      then show ?thesis using Cons by auto
    qed
  qed simp
  then show ?thesis by (simp add: dbSaveBackupCodes_def)
qed

text \<open>C15: a signed-in browser makes itself trusted. A browser that holds no cookie at all, only the
  identity the proxy forwards, asks for new backup codes and gets them in the clear; sending one of
  them to the recovery route, when the throttle lets it through, makes the browser a trusted device
  of the account. No second factor and no approval is involved.\<close>

theorem first_factor_alone_gets_trusted:
  assumes "hr_method (c_req c1) = ''POST''" "hr_path (c_req c1) = ''/bailey/api/backup-codes/regenerate''"
    and "hr_method (c_req c2) = ''POST''" "hr_path (c_req c2) = ''/bailey/api/recover''"
    and "identity c1 = identity c2" "trim_space (identity c2) \<noteq> []" "c_sha c1 = c_sha c2"
    and "hr_cookies (c_req c1) = []" "hr_cookies (c_req c2) = []"
    and "cd \<in> set (c_codes c1)" "normalizeBackupCode cd \<noteq> []" "trim_space (gb_backup (decodeGateBody (c_req c2))) = cd"
    and "fst (mfaThrottleState (identity c2) (client_ip c2) (c_now c2) (gs_throttle s)) \<le> 0" "admitted c2 s"
    and "c_id c2 \<notin> device_ids s"
  shows "rs_body (fst (handleBailey c1 s)) = BCodes (c_codes c1) \<and>
    (\<exists>d\<in>new_devices s (gate_step (Bailey c2) (gate_step (Bailey c1) s)). dv_email d = identity c2 \<and> dv_id d = c_id c2)"
proof -
  define s1 where "s1 = db_upd (dbSaveBackupCodes (c_sha c2) (c_now c1) (identity c2) (c_codes c1)) s"
  have 1: "handleBailey c1 s = (answer 200 (BCodes (c_codes c1)), s1)"
    using assms(1,2,5-7)
    by (simp add: handleBailey_def Let_def handleGateAPI_def guardPost_def handleGateBackupCodesRegenerate_def
        requireIdentity_def s1_def)
  have code: "list_ex (same_code (identity c2) (hashBackupCode (c_sha c2) cd)) (td_codes (gs_db s1))"
    using saved_code_found [OF assms(10,11)] by (simp add: s1_def)
  then have ex: "dbBackupCodesExist (identity c2) (gs_db s1)" "fst (dbConsumeBackupCode (c_sha c2) (identity c2) cd (gs_db s1))"
    using assms(11) by (auto simp: dbBackupCodesExist_def dbConsumeBackupCode_def list_ex_iff same_code_def)
  have ne: "cd \<noteq> []" using assms(11) by (auto simp: normalizeBackupCode_def)
  have same: "device_ids s1 = device_ids s" "gs_throttle s1 = gs_throttle s"
    by (simp_all add: s1_def device_ids_def dbSaveBackupCodes_def db_upd_def)
  obtain fs retry th where b: "mfaThrottleBegin (identity c2) (client_ip c2) (c_now c2) (gs_throttle s) = ((fs, retry, True), th)"
    using assms(14) by (auto simp: admitted_def split: prod.splits)
  define s2 where "s2 = s1\<lparr>gs_db := snd (dbConsumeBackupCode (c_sha c2) (identity c2) cd (gs_db s1)),
    gs_throttle := mfaThrottleReset (identity c2) (client_ip c2) th\<rparr>"
  have 2: "snd (handleBailey c2 s1) = snd (trust_device c2 (identity c2) ''self via backup code'' (ok_redirect c2) s2)"
    using assms(3,4,6,12,13) ex ne
    by (simp add: handleBailey_def Let_def handleGateAPI_def guardPost_def handleGateRecover_def requireIdentity_def
        mfa_precheck_def case_prod_beta same throttled_def b s2_def)
  have "c_id c2 \<notin> device_ids s2" using assms(15) same by (simp add: s2_def device_ids_def)
  then have "\<exists>d\<in>set (td_devices (gs_db (snd (handleBailey c2 s1)))). dv_email d = identity c2 \<and> dv_id d = c_id c2"
    unfolding 2 trust_device_snd by (simp add: ok_redirect_def Let_def)
  then show ?thesis using assms(15) by (auto simp: 1 new_devices_def answer_def)
qed

definition asking :: ctx where
  "asking = sample_ctx ''d1'' (sample_req ''POST'' ''/bailey/api/backup-codes/regenerate'' ''bob@x.org'')"

definition recovering :: ctx where
  "recovering = sample_ctx ''d1'' (with_json ''backup'' ''AAAA-BBBB'' (sample_req ''POST'' ''/bailey/api/recover'' ''bob@x.org''))"

lemma first_factor_alone_gets_trusted_witness:
  "rs_body (fst (handleBailey asking invited)) = BCodes (c_codes asking) \<and>
   (\<exists>d\<in>new_devices invited (gate_step (Bailey recovering) (gate_step (Bailey asking) invited)).
      dv_email d = identity recovering \<and> dv_id d = c_id recovering)"
proof (rule first_factor_alone_gets_trusted [where cd = "''AAAA-BBBB''"])
  note defs = asking_def recovering_def samples
  have t: "trim_space ''bob@x.org'' \<noteq> []" "trim_space ''AAAA-BBBB'' = ''AAAA-BBBB''"
    "fst (mfaThrottleState ''bob@x.org'' (clientIPForRequest 0 ''@'' []) 1000000000000 Map.empty) \<le> 0"
    "snd (snd (fst (mfaThrottleBegin ''bob@x.org'' (clientIPForRequest 0 ''@'' []) 1000000000000 Map.empty)))"
    by code_simp+
  show "normalizeBackupCode ''AAAA-BBBB'' \<noteq> []" by code_simp
  have i: "identity asking = ''bob@x.org''" "identity recovering = ''bob@x.org''"
    by (simp_all add: defs identity_def identityFromHeaders_def)
  then show "identity asking = identity recovering" "trim_space (identity recovering) \<noteq> []" using t by simp_all
  show "trim_space (gb_backup (decodeGateBody (c_req recovering))) = ''AAAA-BBBB''"
    by (simp add: defs decodeGateBody_def t)
  have ip: "client_ip recovering = clientIPForRequest 0 ''@'' []" by (simp add: client_ip_def defs)
  show "fst (mfaThrottleState (identity recovering) (client_ip recovering) (c_now recovering) (gs_throttle invited)) \<le> 0"
    using t by (simp add: i ip) (simp add: defs invited_def)
  show "admitted recovering invited"
    using t by (simp add: admitted_def i ip case_prod_beta) (simp add: defs invited_def)
  show "c_id recovering \<notin> device_ids invited" by (simp add: device_ids_def defs invited_def)
qed (simp_all add: asking_def recovering_def samples)

end
