(* ===== verification/Driver_Names.thy ===== *)
theory Driver_Names
  imports Infra_Json "HOL-Library.List_Lexorder"
begin

text \<open>
  How the docker driver names things (\<open>internal/infradriver/dockerdriver/config.go\<close>): host name
  labels of services, secret realms, per-process database and bucket names, and the settings of an
  \<open>automation.toml\<close>. \<open>sha\<close> is the hex text of SHA-256 and the TOML decoder is an argument. The
  regular expressions replace one byte of a name at a time, which is what they do on ASCII names.
\<close>

section \<open>Strings\<close>

text \<open>Decimal digits computed on integers, for evaluating port numbers.\<close>

function int_digits :: "int \<Rightarrow> string" where
  "int_digits i = (if i < 10 then [digit_char (nat i)] else int_digits (i div 10) @ [digit_char (nat (i mod 10))])"
  by pat_completeness auto

termination int_digits
  by (relation "measure nat") auto

declare int_digits.simps [simp del]

lemma int_digits_itoa: "int_digits (int n) = itoa n"
proof (induction n rule: less_induct)
  case (less n)
  show ?case
  proof (cases "n < 10")
    case True
    then show ?thesis
      by (simp add: itoa_def nat_string_base.simps [of 10 n] int_digits.simps [of "int n"])
  next
    case False
    then have "int_digits (int n) = int_digits (int (n div 10)) @ [digit_char (n mod 10)]"
      by (simp add: int_digits.simps [of "int n"] zdiv_int nat_mod_distrib)
    with False less [of "n div 10"] show ?thesis
      by (simp add: itoa_def nat_string_base.simps [of 10 n])
  qed
qed

lemma format_int_code [code]:
  "format_int i = (if i < 0 then CHR ''-'' # int_digits (- i) else int_digits i)"
  using int_digits_itoa [of "nat (- i)"] int_digits_itoa [of "nat i"] by (cases "i < 0") (simp_all add: format_int_def)

definition maxNameLen :: nat where "maxNameLen = 24"
definition maxLabelLen :: nat where "maxLabelLen = 63"

definition appSlots :: "string list" where "appSlots = [''blue'', ''green'', ''purple'']"

text \<open>\<open>strings.TrimRight\<close> and \<open>strings.Trim\<close> with a one-byte cut set.\<close>

definition trim_right_byte :: "char \<Rightarrow> string \<Rightarrow> string" where
  "trim_right_byte c s = rev (dropWhile (\<lambda>x. x = c) (rev s))"

definition trim_byte :: "char \<Rightarrow> string \<Rightarrow> string" where
  "trim_byte c s = trim_right_byte c (dropWhile (\<lambda>x. x = c) s)"

definition truncate_str :: "string \<Rightarrow> nat \<Rightarrow> string" where
  "truncate_str s n = (if n < length s then take n s else s)"

definition joinNonEmpty :: "char \<Rightarrow> string list \<Rightarrow> string" where
  "joinNonEmpty sep parts = join_with sep (filter (\<lambda>p. p \<noteq> []) parts)"

definition firstNonEmpty :: "string \<Rightarrow> string \<Rightarrow> string" where
  "firstNonEmpty a b = (if a \<noteq> [] then a else b)"

definition alnum :: "char \<Rightarrow> bool" where
  "alnum c = (let n = (of_char c :: nat) in (97 \<le> n \<and> n \<le> 122) \<or> (48 \<le> n \<and> n \<le> 57))"

definition sanitizeAutomationName :: "string \<Rightarrow> string" where
  "sanitizeAutomationName name =
     trim_byte CHR ''-'' (map (\<lambda>c. if alnum c \<or> c = CHR ''-'' then c else CHR ''-'') (to_lower name))"

definition replace_byte :: "char \<Rightarrow> char \<Rightarrow> string \<Rightarrow> string" where
  "replace_byte a b s = map (\<lambda>c. if c = a then b else c) s"

section \<open>Host name labels\<close>

definition shortHash :: "(string \<Rightarrow> string) \<Rightarrow> string \<Rightarrow> string" where
  "shortHash sha ctx = take 4 (sha ctx)"

definition label_tail :: "(string \<Rightarrow> string) \<Rightarrow> string \<Rightarrow> string \<Rightarrow> string \<Rightarrow> string list" where
  "label_tail sha ctx stage slot =
     (if ctx \<noteq> [] then [shortHash sha ctx] else []) @
     (if stage \<noteq> [] then [stage] else []) @ (if slot \<noteq> [] then [slot] else [])"

definition makeHostnameLabel ::
    "(string \<Rightarrow> string) \<Rightarrow> string \<Rightarrow> string \<Rightarrow> string \<Rightarrow> string \<Rightarrow> string \<Rightarrow> string" where
  "makeHostnameLabel sha workspaceName automationName ctx stage slot =
     (let ws = truncate_str workspaceName maxNameLen;
          an = truncate_str automationName maxNameLen;
          tailStr = joinNonEmpty CHR ''-'' (label_tail sha ctx stage slot);
          label = joinNonEmpty CHR ''-'' [ws, an, tailStr]
      in if length label \<le> maxLabelLen then label
         else
           (let budget0 = int maxLabelLen - int (length tailStr) - 2;
                budget = nat (if budget0 < 2 then 2 else budget0);
                ws' = truncate_str ws (budget div 2);
                an' = truncate_str an (budget - length ws')
            in joinNonEmpty CHR ''-'' [ws', an', tailStr]))"

section \<open>Realms\<close>

definition realmForStage :: "string \<Rightarrow> string" where
  "realmForStage stage =
     (if stage = ''live-dev'' \<or> stage = ''dev'' then ''dev''
      else if stage = [] \<or> stage = ''production'' then ''production''
      else stage)"

definition stageForDeployment :: "string \<Rightarrow> string" where
  "stageForDeployment stage = (if stage = ''live-dev'' then ''dev'' else stage)"

definition postureFor :: "string \<Rightarrow> string" where
  "postureFor realm = (if realm = ''staging'' \<or> realm = ''production'' then ''enforce'' else ''monitor'')"

section \<open>Business processes and their resources\<close>

text \<open>\<open>strings.Split(p, "/")\<close> after turning backslashes round.\<close>

definition deriveBPAndCopy :: "string \<Rightarrow> string \<times> string" where
  "deriveBPAndCopy relativePath =
     (let (bpName, copyName) =
        (if relativePath = [] then ([], [])
         else
           (let parts = split_on CHR ''/'' (replace_byte (CHR 0x5C) CHR ''/'' relativePath);
                (copyName, parts') =
                  (case parts of
                     p0 # c # rest \<Rightarrow>
                       if p0 = ''copies'' then (if c \<noteq> ''main'' then c else [], rest) else ([], parts)
                   | _ \<Rightarrow> ([], parts))
            in (case parts' of b # _ # _ \<Rightarrow> b | _ \<Rightarrow> [], copyName)))
      in (if bpName \<noteq> [] then sanitizeAutomationName bpName else [], copyName))"

record resource_names =
  rn_postgres_db :: string
  rn_couchdb_prefix :: string
  rn_s3_bucket :: string

definition bpResourceNames :: "string \<Rightarrow> int \<Rightarrow> resource_names" where
  "bpResourceNames bpSlug db =
     (let pg0 = ''bp_'' @ replace_byte CHR ''-'' CHR ''_'' bpSlug;
          bucket0 = ''bp-'' @ bpSlug
      in if db \<noteq> 0 then
           \<lparr>rn_postgres_db = truncate_str pg0 61 @ ''_'' @ format_int db,
            rn_couchdb_prefix = ''bp-'' @ bpSlug @ ''-'' @ format_int db @ ''-'',
            rn_s3_bucket = trim_right_byte CHR ''-'' (truncate_str bucket0 61) @ ''-'' @ format_int db\<rparr>
         else
           \<lparr>rn_postgres_db = truncate_str pg0 63,
            rn_couchdb_prefix = ''bp-'' @ bpSlug @ ''-'',
            rn_s3_bucket = trim_right_byte CHR ''-'' (truncate_str bucket0 63)\<rparr>)"

definition copyBPResourceNames :: "string \<Rightarrow> string \<Rightarrow> resource_names" where
  "copyBPResourceNames copyName bpSlug =
     (let cpU = map (\<lambda>c. if alnum c \<or> c = CHR ''_'' then c else CHR ''_'') (to_lower copyName);
          cpD = sanitizeAutomationName copyName;
          bpU = replace_byte CHR ''-'' CHR ''_'' bpSlug
      in \<lparr>rn_postgres_db = truncate_str (''copy_'' @ cpU @ ''_bp_'' @ bpU) maxLabelLen,
          rn_couchdb_prefix = ''copy-'' @ cpD @ ''-bp-'' @ bpSlug @ ''-'',
          rn_s3_bucket = trim_right_byte CHR ''-'' (truncate_str (''copy-'' @ cpD @ ''-bp-'' @ bpSlug) maxLabelLen)\<rparr>)"

section \<open>automation.toml\<close>

record service_dep =
  sd_type :: string
  sd_enabled :: bool

record automation_config =
  ac_image :: string
  ac_expose :: bool
  ac_port :: int
  ac_mount_path :: string
  ac_external_testing :: bool
  ac_services :: "service_dep list"

definition hasServices :: "automation_config \<Rightarrow> bool" where
  "hasServices c \<longleftrightarrow> ac_services c \<noteq> []"

definition defaultRuntimeImage :: string where
  "defaultRuntimeImage = ''bitswan/pipeline-runtime-environment:latest''"

definition defaultAutomationConfig :: automation_config where
  "defaultAutomationConfig =
     \<lparr>ac_image = defaultRuntimeImage, ac_expose = False, ac_port = 8080, ac_mount_path = ''/app/'',
      ac_external_testing = False, ac_services = []\<rparr>"

text \<open>What \<open>toml.Decode\<close> fills in; an absent key leaves the zero value, in \<open>[services.x]\<close> the
  nil pointer.\<close>

record toml_automation =
  tm_image :: string
  tm_expose :: bool
  tm_port :: int
  tm_external_testing :: bool
  tm_services :: "(string \<times> bool option) list"

text \<open>The text before the first of the two bytes, all of it when there is none.\<close>

definition before_any :: "char list \<Rightarrow> string \<Rightarrow> string" where
  "before_any cs s = takeWhile (\<lambda>c. c \<notin> set cs) s"

definition service_section :: "string \<Rightarrow> string option" where
  "service_section line =
     (let l = trim_space line in
      if \<not> prefix ''[services.'' l then None
      else
        (let l1 = trim_space (trim_suffix '']'' (trim_prefix ''[services.'' l));
             l2 = trim_byte (CHR 0x22) (before_any [CHR ''.'', CHR '']''] l1)
         in if l2 = [] then None else Some l2))"

definition serviceOrder :: "string \<Rightarrow> string list" where
  "serviceOrder content =
     rev (fold (\<lambda>line out. case service_section line of
                   None \<Rightarrow> out
                 | Some l \<Rightarrow> if l \<in> set out then out else l # out)
            (split_on (CHR 0x0A) content) [])"

definition parseAutomationTOML ::
    "(string \<Rightarrow> toml_automation option) \<Rightarrow> string \<Rightarrow> automation_config option" where
  "parseAutomationTOML decode content =
     (if trim_space content = [] then None
      else case decode content of
          None \<Rightarrow> None
        | Some t \<Rightarrow>
            Some \<lparr>ac_image = firstNonEmpty (tm_image t) defaultRuntimeImage,
                  ac_expose = tm_expose t,
                  ac_port = (if tm_port t = 0 then 8080 else tm_port t),
                  ac_mount_path = ''/app/'',
                  ac_external_testing = tm_external_testing t,
                  ac_services =
                    List.map_filter (\<lambda>svc. map_option
                        (\<lambda>e. \<lparr>sd_type = svc, sd_enabled = (case e of None \<Rightarrow> True | Some b \<Rightarrow> b)\<rparr>)
                        (map_of (tm_services t) svc))
                      (serviceOrder content)\<rparr>)"

section \<open>Facts\<close>

lemma truncate_str_take: "truncate_str s n = take n s"
  by (simp add: truncate_str_def)

lemma length_truncate_str: "length (truncate_str s n) = min (length s) n"
  by (simp add: truncate_str_take)

lemma length_truncate_str_le [simp]: "length (truncate_str s n) \<le> n"
  by (simp add: length_truncate_str)

lemma joinNonEmpty_Nil [simp]: "joinNonEmpty c [] = []"
  by (simp add: joinNonEmpty_def)

lemma joinNonEmpty_skip [simp]: "joinNonEmpty c ([] # ps) = joinNonEmpty c ps"
  by (simp add: joinNonEmpty_def)

lemma joinNonEmpty_one [simp]: "joinNonEmpty c [p] = p"
  by (simp add: joinNonEmpty_def)

lemma joinNonEmpty_Cons:
  "joinNonEmpty c (p # ps) =
     (if p = [] then joinNonEmpty c ps
      else if \<forall>q\<in>set ps. q = [] then p else p @ c # joinNonEmpty c ps)"
proof (cases "filter (\<lambda>p. p \<noteq> []) ps")
  case Nil
  then show ?thesis by (auto simp: joinNonEmpty_def filter_empty_conv)
next
  case (Cons q qs)
  then have "q \<in> set (filter (\<lambda>p. p \<noteq> []) ps)" by simp
  then have "\<not> (\<forall>q\<in>set ps. q = [])" by auto
  with Cons show ?thesis by (auto simp: joinNonEmpty_def)
qed

lemma length_joinNonEmpty3:
  "length (joinNonEmpty c [a, b, d]) \<le> length a + length b + length d + 2"
  by (simp add: joinNonEmpty_Cons)

text \<open>A label ends with its tail: context hash, stage and slot.\<close>

lemma suffix_joinNonEmpty3: "suffix d (joinNonEmpty c [a, b, d])"
  by (auto simp: joinNonEmpty_Cons suffix_def)

definition hostname_tail :: "(string \<Rightarrow> string) \<Rightarrow> string \<Rightarrow> string \<Rightarrow> string \<Rightarrow> string" where
  "hostname_tail sha ctx stage slot = joinNonEmpty CHR ''-'' (label_tail sha ctx stage slot)"

lemma makeHostnameLabel_tail: "suffix (hostname_tail sha ctx stage slot) (makeHostnameLabel sha w a ctx stage slot)"
  by (simp add: makeHostnameLabel_def Let_def hostname_tail_def suffix_joinNonEmpty3)

text \<open>Two automations of a business process whose names agree in the first 24 bytes share their
  service name, and with it their container.\<close>

lemma long_names_share_a_service:
  assumes "take 24 a = take 24 b"
  shows "makeHostnameLabel sha w a ctx stage slot = makeHostnameLabel sha w b ctx stage slot"
proof -
  have "truncate_str a maxNameLen = truncate_str b maxNameLen"
    using assms by (simp add: truncate_str_take maxNameLen_def)
  then show ?thesis by (simp only: makeHostnameLabel_def)
qed

text \<open>A host name label fits the limit of 63 bytes of DNS and ends with the part that tells contexts,
  stages and slots apart, as long as that part is at most 59 bytes long. (The code's "hard limit"
  has no guard beyond that: a stage name alone may exceed it.)
\<close>

theorem hostname_label_fits:
  assumes "length (hostname_tail sha ctx stage slot) \<le> 59"
  shows "length (makeHostnameLabel sha w a ctx stage slot) \<le> 63 \<and>
    suffix (hostname_tail sha ctx stage slot) (makeHostnameLabel sha w a ctx stage slot)"
proof
  let ?t = "hostname_tail sha ctx stage slot"
  let ?ws = "truncate_str w maxNameLen" and ?an = "truncate_str a maxNameLen"
  let ?b = "nat (if 61 - int (length ?t) < 2 then 2 else 61 - int (length ?t))"
  let ?ws' = "truncate_str ?ws (?b div 2)"
  let ?an' = "truncate_str ?an (?b - length ?ws')"
  have b: "?b = 61 - length ?t" using assms by auto
  have "length ?ws' \<le> ?b div 2" by simp
  moreover have "length ?an' \<le> ?b - length ?ws'" by simp
  ultimately have "length ?ws' + length ?an' \<le> ?b" by linarith
  then have "length (joinNonEmpty CHR ''-'' [?ws', ?an', ?t]) \<le> 63"
    using length_joinNonEmpty3 [of "CHR ''-''" ?ws' ?an' ?t] b assms by linarith
  then show "length (makeHostnameLabel sha w a ctx stage slot) \<le> 63"
    by (simp add: makeHostnameLabel_def Let_def hostname_tail_def [symmetric] maxLabelLen_def)
qed (rule makeHostnameLabel_tail)

theorem hostname_label_fits_witness:
  "let l = makeHostnameLabel (\<lambda>s. ''c0ffee'') ''the-longest-workspace-name'' ''the-longest-automation-name'' ''acme''
             ''production'' ''purple''
   in length l \<le> 63 \<and> suffix ''c0ff-production-purple'' l"
proof -
  have tail: "hostname_tail (\<lambda>s. ''c0ffee'') ''acme'' ''production'' ''purple'' = ''c0ff-production-purple''"
    by code_simp
  show ?thesis
    using hostname_label_fits [of "\<lambda>s. ''c0ffee''" "''acme''" "''production''" "''purple''"
        "''the-longest-workspace-name''" "''the-longest-automation-name''"] by (simp add: tail Let_def)
qed

end
