(* ===== verification/Driver_Paths.thy ===== *)
theory Driver_Paths
  imports Driver_Names
begin

text \<open>
  File paths of the docker driver: Go's \<open>path/filepath\<close> on slash-separated paths (lexical, no disk),
  and the containment check on tenant-supplied path elements
  (\<open>internal/infradriver/dockerdriver/paths.go\<close>). Symbolic links are an argument: \<open>real\<close> tells what
  \<open>filepath.EvalSymlinks\<close> makes of a path.
\<close>

section \<open>Package filepath\<close>

definition rooted :: "string \<Rightarrow> bool" where
  "rooted s \<longleftrightarrow> s \<noteq> [] \<and> hd s = CHR ''/''"

text \<open>One element of a path on a stack of the elements before it, the last on top.\<close>

definition clean_push :: "bool \<Rightarrow> string \<Rightarrow> string list \<Rightarrow> string list" where
  "clean_push r c st =
     (if c = [] \<or> c = ''.'' then st
      else if c = ''..'' then
        (case st of
           [] \<Rightarrow> if r then [] else [''..'']
         | t # st' \<Rightarrow> if t = ''..'' then ''..'' # st else st')
      else c # st)"

text \<open>A normal form as text.\<close>

definition path_text :: "bool \<Rightarrow> string list \<Rightarrow> string" where
  "path_text r parts =
     (let body = join_with CHR ''/'' parts
      in if r then CHR ''/'' # body else if body = [] then ''.'' else body)"

definition filepath_Clean :: "string \<Rightarrow> string" where
  "filepath_Clean s = path_text (rooted s) (rev (fold (clean_push (rooted s)) (split_on CHR ''/'' s) []))"

definition filepath_Join :: "string list \<Rightarrow> string" where
  "filepath_Join elems =
     (case dropWhile (\<lambda>e. e = []) elems of
        [] \<Rightarrow> []
      | es \<Rightarrow> filepath_Clean (join_with CHR ''/'' es))"

definition filepath_Dir :: "string \<Rightarrow> string" where
  "filepath_Dir s = filepath_Clean (rev (dropWhile (\<lambda>c. c \<noteq> CHR ''/'') (rev s)))"

definition path_elems :: "string \<Rightarrow> string list" where
  "path_elems s =
     (let s' = (if rooted s then tl s else s) in if s' = [] then [] else split_on CHR ''/'' s')"

fun strip_common :: "string list \<Rightarrow> string list \<Rightarrow> string list \<times> string list" where
  "strip_common (b # bs) (t # ts) = (if b = t then strip_common bs ts else (b # bs, t # ts))"
| "strip_common bs ts = (bs, ts)"

definition filepath_Rel :: "string \<Rightarrow> string \<Rightarrow> string option" where
  "filepath_Rel base targ =
     (let b = filepath_Clean base; t = filepath_Clean targ in
      if t = b then Some ''.''
      else if rooted b \<noteq> rooted t then None
      else
        (case strip_common (if b = ''.'' then [] else path_elems b) (path_elems t) of
           ([], ts) \<Rightarrow> Some (join_with CHR ''/'' ts)
         | (c # bs, ts) \<Rightarrow>
             if c = ''..'' \<and> ts \<noteq> [] then None
             else Some (join_with CHR ''/'' (replicate (Suc (length bs)) ''..'' @ ts))))"

section \<open>The containment check\<close>

definition escapesRel :: "string \<Rightarrow> bool" where
  "escapesRel rel \<longleftrightarrow> rel = ''.'' \<or> rel = ''..'' \<or> prefix ''../'' rel"

definition containedJoin :: "string \<Rightarrow> string \<Rightarrow> string option" where
  "containedJoin root elem =
     (let cleanRoot = filepath_Clean root;
          joined = filepath_Join [cleanRoot, elem]
      in case filepath_Rel cleanRoot joined of
           None \<Rightarrow> None
         | Some rel \<Rightarrow> if escapesRel rel then None else Some joined)"

datatype real_path = RealPath string | RealMissing | RealError

text \<open>True: no error.\<close>

definition assertRealUnder :: "(string \<Rightarrow> real_path) \<Rightarrow> string \<Rightarrow> string \<Rightarrow> bool" where
  "assertRealUnder real root path =
     (case real root of
        RealMissing \<Rightarrow> True
      | RealError \<Rightarrow> False
      | RealPath realRoot \<Rightarrow>
          (case real path of
             RealMissing \<Rightarrow> True
           | RealError \<Rightarrow> False
           | RealPath realPath \<Rightarrow>
               (case filepath_Rel realRoot realPath of
                  None \<Rightarrow> False
                | Some rel \<Rightarrow> \<not> escapesRel rel)))"

section \<open>Normal forms\<close>

definition plain_elem :: "string \<Rightarrow> bool" where
  "plain_elem c \<longleftrightarrow> c \<noteq> [] \<and> c \<noteq> ''.'' \<and> c \<noteq> ''..'' \<and> CHR ''/'' \<notin> set c"

text \<open>A stack of path elements, the last on top: plain elements over a run of \<open>..\<close>, which only a
  relative path has.\<close>

definition norm_stack :: "bool \<Rightarrow> string list \<Rightarrow> bool" where
  "norm_stack r st \<longleftrightarrow> (\<exists>n ps. st = ps @ replicate n ''..'' \<and> (\<forall>p\<in>set ps. plain_elem p) \<and> (r \<longrightarrow> n = 0))"

lemma norm_stack_Nil [simp]: "norm_stack r []"
  by (simp add: norm_stack_def)

lemma norm_stack_push:
  assumes "norm_stack r st" "CHR ''/'' \<notin> set c"
  shows "norm_stack r (clean_push r c st)"
proof -
  obtain n ps where st: "st = ps @ replicate n ''..''" "\<forall>p\<in>set ps. plain_elem p" "r \<longrightarrow> n = 0"
    using assms(1) by (auto simp: norm_stack_def)
  consider "c = [] \<or> c = ''.''" | "c = ''..''" "ps = []" | t ps' where "c = ''..''" "ps = t # ps'"
    | "plain_elem c"
    using assms(2) by (cases ps) (auto simp: plain_elem_def)
  then show ?thesis
  proof cases
    case 1
    with assms(1) show ?thesis by (auto simp: clean_push_def)
  next
    case 2
    then have "clean_push r c st = [] \<and> r \<or> clean_push r c st = replicate (Suc n) ''..'' \<and> \<not> r"
      using st by (cases n) (auto simp: clean_push_def)
    then show ?thesis by (auto simp: norm_stack_def intro: exI [of _ "Suc n"])
  next
    case 3
    then have "clean_push r c st = ps' @ replicate n ''..''"
      using st by (auto simp: clean_push_def plain_elem_def)
    with 3 st show ?thesis by (auto simp: norm_stack_def)
  next
    case 4
    then have "clean_push r c st = (c # ps) @ replicate n ''..''"
      using st by (auto simp: clean_push_def plain_elem_def)
    with 4 st show ?thesis
      unfolding norm_stack_def by (intro exI [of _ n] exI [of _ "c # ps"]) auto
  qed
qed

lemma norm_stack_fold:
  "norm_stack r st \<Longrightarrow> \<forall>c\<in>set cs. CHR ''/'' \<notin> set c \<Longrightarrow> norm_stack r (fold (clean_push r) cs st)"
  by (induction cs arbitrary: st) (auto simp: norm_stack_push)

lemma norm_stack_elems:
  assumes "norm_stack r st" "c \<in> set st"
  shows "c \<noteq> []" "CHR ''/'' \<notin> set c" "c \<noteq> ''.''"
proof -
  have "plain_elem c \<or> c = ''..''"
    using assms unfolding norm_stack_def by (metis Un_iff in_set_replicate set_append)
  then show "c \<noteq> []" "CHR ''/'' \<notin> set c" "c \<noteq> ''.''"
    by (auto simp: plain_elem_def)
qed

lemma clean_push_plain: "plain_elem c \<Longrightarrow> clean_push r c st = c # st"
  by (simp add: clean_push_def plain_elem_def)

lemma fold_push_plain: "\<forall>c\<in>set cs. plain_elem c \<Longrightarrow> fold (clean_push r) cs st = rev cs @ st"
  by (induction cs arbitrary: st) (simp_all add: clean_push_plain)

lemma fold_push_dots: "fold (clean_push False) (replicate n ''..'') (replicate m ''..'') = replicate (n + m) ''..''"
proof (induction n arbitrary: m)
  case (Suc n)
  have push: "clean_push False ''..'' (replicate m ''..'') = replicate (Suc m) ''..''"
    by (cases m) (auto simp: clean_push_def)
  have "fold (clean_push False) (replicate (Suc n) ''..'') (replicate m ''..'')
      = fold (clean_push False) (replicate n ''..'') (replicate (Suc m) ''..'')"
    by (simp only: replicate_Suc fold_Cons comp_apply push)
  then show ?case by (simp only: Suc [of "Suc m"] add_Suc add_Suc_right)
qed simp

lemma fold_push_norm:
  assumes "norm_stack r st"
  shows "fold (clean_push r) (rev st) [] = st"
proof -
  obtain n ps where st: "st = ps @ replicate n ''..''" "\<forall>p\<in>set ps. plain_elem p" "r \<longrightarrow> n = 0"
    using assms by (auto simp: norm_stack_def)
  have "fold (clean_push r) (replicate n ''..'') [] = replicate n ''..''"
    using st(3) fold_push_dots [of n 0] by (cases r) auto
  with st show ?thesis by (simp add: fold_push_plain)
qed

lemma join_with_eq_Nil: "join_with c ps = [] \<longleftrightarrow> ps = [] \<or> ps = [[]]"
  by (induction c ps rule: join_with.induct) auto

lemma hd_join_with: "p \<noteq> [] \<Longrightarrow> join_with c (p # ps) \<noteq> [] \<and> hd (join_with c (p # ps)) = hd p"
  by (cases ps) auto

lemma split_path_text:
  assumes "norm_stack r st"
  shows "fold (clean_push r) (split_on CHR ''/'' (path_text r (rev st))) [] = st"
    and "rooted (path_text r (rev st)) = r"
proof -
  have elems: "\<And>c. c \<in> set (rev st) \<Longrightarrow> CHR ''/'' \<notin> set c \<and> c \<noteq> []"
    using norm_stack_elems [OF assms] by auto
  have skip: "fold (clean_push r) ([] # cs) [] = fold (clean_push r) cs []" for cs
    by (simp add: clean_push_def)
  show "fold (clean_push r) (split_on CHR ''/'' (path_text r (rev st))) [] = st"
  proof (cases "st = []")
    case True
    then show ?thesis by (simp add: path_text_def clean_push_def)
  next
    case False
    then have "join_with CHR ''/'' (rev st) \<noteq> []"
      using elems by (auto simp: join_with_eq_Nil)
    moreover have "split_on CHR ''/'' (join_with CHR ''/'' (rev st)) = rev st"
      using False elems by (intro split_join) auto
    ultimately show ?thesis
      using fold_push_norm [OF assms] skip by (cases r) (simp_all add: path_text_def Let_def)
  qed
  show "rooted (path_text r (rev st)) = r"
  proof (cases "rev st")
    case Nil
    then show ?thesis by (simp add: path_text_def rooted_def)
  next
    case (Cons p ps)
    then have p: "p \<noteq> []" "CHR ''/'' \<notin> set p" using elems by auto
    then have "hd p \<noteq> CHR ''/''" by (cases p) auto
    with p show ?thesis
      using hd_join_with [OF p(1), of "CHR ''/''" ps] Cons by (auto simp: path_text_def rooted_def Let_def)
  qed
qed

lemma filepath_Clean_text: "norm_stack r st \<Longrightarrow> filepath_Clean (path_text r (rev st)) = path_text r (rev st)"
  by (simp add: filepath_Clean_def split_path_text)

text \<open>The stack of a path.\<close>

definition path_stack :: "string \<Rightarrow> string list" where
  "path_stack s = fold (clean_push (rooted s)) (split_on CHR ''/'' s) []"

lemma norm_path_stack: "norm_stack (rooted s) (path_stack s)"
  unfolding path_stack_def by (intro norm_stack_fold) (auto dest: split_on_parts_no_sep)

lemma filepath_Clean_stack: "filepath_Clean s = path_text (rooted s) (rev (path_stack s))"
  by (simp add: filepath_Clean_def path_stack_def)

lemma filepath_Clean_idem: "filepath_Clean (filepath_Clean s) = filepath_Clean s"
  unfolding filepath_Clean_stack [of s] by (rule filepath_Clean_text [OF norm_path_stack])

lemma rooted_Clean [simp]: "rooted (filepath_Clean s) = rooted s"
  by (simp add: filepath_Clean_stack split_path_text norm_path_stack)

lemma path_elems_text:
  assumes "norm_stack r st" "r \<or> st \<noteq> []"
  shows "path_elems (path_text r (rev st)) = rev st"
proof (cases "st = []")
  case True
  with assms show ?thesis by (simp add: path_elems_def path_text_def rooted_def)
next
  case False
  have elems: "\<And>c. c \<in> set (rev st) \<Longrightarrow> CHR ''/'' \<notin> set c \<and> c \<noteq> []"
    using norm_stack_elems [OF assms(1)] by auto
  from False elems have "join_with CHR ''/'' (rev st) \<noteq> []"
    by (auto simp: join_with_eq_Nil)
  moreover have "split_on CHR ''/'' (join_with CHR ''/'' (rev st)) = rev st"
    using False elems by (intro split_join) auto
  moreover have "rooted (path_text r (rev st)) = r" by (rule split_path_text(2) [OF assms(1)])
  ultimately show ?thesis by (auto simp: path_elems_def path_text_def Let_def)
qed

section \<open>What the check promises\<close>

definition base_elems :: "string \<Rightarrow> string list" where
  "base_elems b = (if b = ''.'' then [] else path_elems b)"

text \<open>A path strictly below a root: the root's elements, and then at least one more, all plain.\<close>

definition below_root :: "string \<Rightarrow> string \<Rightarrow> bool" where
  "below_root root p \<longleftrightarrow>
     (let bs = base_elems (filepath_Clean root) in
      rooted p = rooted root \<and> take (length bs) (path_elems p) = bs \<and>
      length bs < length (path_elems p) \<and> (\<forall>c\<in>set (drop (length bs) (path_elems p)). plain_elem c))"

lemma path_text_dot:
  assumes "norm_stack r st" "r \<or> st \<noteq> []"
  shows "path_text r (rev st) \<noteq> ''.''"
proof
  assume dot: "path_text r (rev st) = ''.''"
  have "path_elems ''.'' = [''.'']" by code_simp
  then have "rev st = [''.'']" using path_elems_text [OF assms] unfolding dot by (rule trans [OF sym, rotated])
  then have "''.'' \<in> set st" by (metis list.set_intros(1) set_rev)
  then show False using norm_stack_elems(3) [OF assms(1)] by blast
qed

lemma base_elems_text: "norm_stack r st \<Longrightarrow> base_elems (path_text r (rev st)) = rev st"
  using path_text_dot [of r st] path_elems_text [of r st]
  by (cases "r \<or> st \<noteq> []") (auto simp: base_elems_def path_text_def)

lemma base_elems_Clean: "base_elems (filepath_Clean s) = rev (path_stack s)"
  unfolding filepath_Clean_stack by (rule base_elems_text [OF norm_path_stack])

lemma strip_common_eq:
  "strip_common bs ts = (bs', ts') \<Longrightarrow>
     \<exists>pre. bs = pre @ bs' \<and> ts = pre @ ts' \<and> (bs' \<noteq> [] \<longrightarrow> ts' \<noteq> [] \<longrightarrow> hd bs' \<noteq> hd ts')"
  by (induction bs ts rule: strip_common.induct) (auto split: if_splits intro: exI [of _ "_ # _"])

lemma strip_common_append [simp]: "strip_common bs (bs @ ts) = ([], ts)"
  by (induction bs) (cases ts; simp)+

lemma escapes_dots: "escapesRel (join_with CHR ''/'' (''..'' # ps))"
  by (cases ps) (auto simp: escapesRel_def prefix_def)

lemma escapes_plain:
  assumes "plain_elem p" "\<forall>c\<in>set ps. CHR ''/'' \<notin> set c"
  shows "\<not> escapesRel (join_with CHR ''/'' (p # ps))"
proof
  assume esc: "escapesRel (join_with CHR ''/'' (p # ps))"
  have split: "split_on CHR ''/'' (join_with CHR ''/'' (p # ps)) = p # ps"
    using assms by (intro split_join) (auto simp: plain_elem_def)
  from esc consider "join_with CHR ''/'' (p # ps) = ''.''" | "join_with CHR ''/'' (p # ps) = ''..''"
    | z where "join_with CHR ''/'' (p # ps) = ''..'' @ CHR ''/'' # z"
    by (auto simp: escapesRel_def prefix_def)
  then have "p = ''.'' \<or> p = ''..''"
    using split by cases (auto simp: split_on_append)
  with assms(1) show False by (auto simp: plain_elem_def)
qed

text \<open>Elements above a stack's normal form are plain once the first of them is not \<open>..\<close>.\<close>

lemma norm_tail_plain:
  assumes "norm_stack r st" "rev st = pre @ ts" "ts \<noteq> []" "hd ts \<noteq> ''..''"
  shows "\<forall>c\<in>set ts. plain_elem c"
proof -
  obtain n ps where st: "st = ps @ replicate n ''..''" "\<forall>p\<in>set ps. plain_elem p"
    using assms(1) by (auto simp: norm_stack_def)
  have eq: "replicate n ''..'' @ rev ps = pre @ ts" using st(1) assms(2) by simp
  have "n \<le> length pre"
  proof (rule ccontr)
    assume "\<not> n \<le> length pre"
    then have "(pre @ ts) ! length pre = ''..''"
      unfolding eq [symmetric] by (simp add: nth_append)
    with assms(3,4) show False by (simp add: nth_append hd_conv_nth)
  qed
  then have "ts = drop (length pre - n) (rev ps)"
    using eq by (metis append_eq_conv_conj drop_append drop_all length_replicate append_Nil)
  with st(2) show ?thesis by (auto dest: in_set_dropD)
qed

lemma take_extension_iff:
  "take (length bs) es = bs \<and> length bs < length es \<and> (\<forall>c\<in>set (drop (length bs) es). P c) \<longleftrightarrow>
     (\<exists>ts. es = bs @ ts \<and> ts \<noteq> [] \<and> (\<forall>c\<in>set ts. P c))" (is "?l \<longleftrightarrow> ?r")
proof
  assume ?l
  then have "es = bs @ drop (length bs) es \<and> drop (length bs) es \<noteq> []"
    by (metis append_take_drop_id drop_eq_Nil leD)
  with \<open>?l\<close> show ?r by blast
qed auto

lemma filepath_Rel_below:
  assumes st: "norm_stack r st0" "norm_stack r st1"
  shows "(case filepath_Rel (path_text r (rev st0)) (path_text r (rev st1)) of
            None \<Rightarrow> False | Some rel \<Rightarrow> \<not> escapesRel rel) \<longleftrightarrow>
     below_root (path_text r (rev st0)) (path_text r (rev st1))" (is "?ok \<longleftrightarrow> ?below")
proof -
  let ?b = "path_text r (rev st0)" and ?t = "path_text r (rev st1)"
  have b: "filepath_Clean ?b = ?b" "rooted ?b = r" "base_elems ?b = rev st0"
    by (simp_all add: filepath_Clean_text split_path_text base_elems_text st)
  have t: "filepath_Clean ?t = ?t" "rooted ?t = r"
    by (simp_all add: filepath_Clean_text split_path_text st)
  have below: "?below \<longleftrightarrow> (\<exists>ts. path_elems ?t = rev st0 @ ts \<and> ts \<noteq> [] \<and> (\<forall>c\<in>set ts. plain_elem c))"
    unfolding below_root_def Let_def b t by (simp only: take_extension_iff simp_thms)
  have elems: "path_elems ?t = rev st1" if "r \<or> st1 \<noteq> []"
    by (rule path_elems_text [OF st(2) that])
  have dot: "path_elems ?t = [''.'']" if "\<not> (r \<or> st1 \<noteq> [])"
  proof -
    have "path_elems ''.'' = [''.'']" by code_simp
    with that show ?thesis by (simp add: path_text_def)
  qed
  show ?thesis
  proof (cases "?t = ?b")
    case True
    have "\<not> ?below"
    proof
      assume ?below
      then obtain ts where ts: "path_elems ?t = rev st0 @ ts" "ts \<noteq> []" "\<forall>c\<in>set ts. plain_elem c"
        unfolding below by blast
      show False
      proof (cases "r \<or> st1 \<noteq> []")
        case real: True
        then have "path_elems ?t = rev st0"
          using b(3) path_text_dot [OF st(2)] \<open>?t = ?b\<close> unfolding base_elems_def by metis
        with ts show False by simp
      next
        case False
        then have "rev st0 @ ts = [''.'']" using ts(1) dot by simp
        then have "''.'' \<in> set ts" using ts(2) by (cases "rev st0") auto
        with ts(3) show False by (auto simp: plain_elem_def)
      qed
    qed
    with True show ?thesis by (simp add: filepath_Rel_def b t escapesRel_def)
  next
    case False
    obtain bs ts where strip: "strip_common (rev st0) (path_elems ?t) = (bs, ts)"
      by (cases "strip_common (rev st0) (path_elems ?t)")
    have ok: "?ok \<longleftrightarrow> (case (bs, ts) of ([], ts) \<Rightarrow> \<not> escapesRel (join_with CHR ''/'' ts) | _ \<Rightarrow> False)"
      using False strip b t escapes_dots
      by (auto simp: filepath_Rel_def base_elems_def [symmetric] Let_def split: list.splits)
    obtain pre where pre: "rev st0 = pre @ bs" "path_elems ?t = pre @ ts"
      and hds: "bs \<noteq> [] \<longrightarrow> ts \<noteq> [] \<longrightarrow> hd bs \<noteq> hd ts"
      using strip_common_eq [OF strip] by blast
    show ?thesis
    proof
      assume ?below
      then obtain ts' where ts': "path_elems ?t = rev st0 @ ts'" "ts' \<noteq> []" "\<forall>c\<in>set ts'. plain_elem c"
        unfolding below by blast
      then have "bs = []" "ts = ts'" using strip by simp_all
      moreover obtain c cs where "ts' = c # cs" using ts'(2) by (cases ts') auto
      moreover from this have "\<not> escapesRel (join_with CHR ''/'' (c # cs))"
        using ts'(3) by (intro escapes_plain) (auto simp: plain_elem_def)
      ultimately show ?ok unfolding ok by simp
    next
      assume ?ok
      then have bs: "bs = []" and esc: "\<not> escapesRel (join_with CHR ''/'' ts)"
        unfolding ok by (auto split: list.splits)
      have real: "r \<or> st1 \<noteq> []"
      proof (rule ccontr)
        assume none: "\<not> (r \<or> st1 \<noteq> [])"
        then have "rev st0 @ ts = [''.'']" using dot pre bs by simp
        then have "st0 = [] \<or> ''.'' \<in> set st0"
          by (metis append_is_Nil_conv append_eq_Cons_conv list.set_intros(1) rev_is_Nil_conv set_rev)
        with norm_stack_elems(3) [OF st(1)] none False show False by auto
      qed
      have "ts \<noteq> []"
        using False pre bs elems [OF real] by auto
      moreover have "hd ts \<noteq> ''..''"
        using esc escapes_dots [of "tl ts"] \<open>ts \<noteq> []\<close> by (metis list.collapse)
      ultimately have "\<forall>c\<in>set ts. plain_elem c"
        using norm_tail_plain [OF st(2), of pre ts] pre(2) elems [OF real] by auto
      with pre bs \<open>ts \<noteq> []\<close> show ?below unfolding below by auto
    qed
  qed
qed

lemma filepath_Rel_Clean: "filepath_Rel (filepath_Clean base) (filepath_Clean targ) = filepath_Rel base targ"
  by (simp add: filepath_Rel_def filepath_Clean_idem)

lemma below_root_Clean [simp]: "below_root (filepath_Clean root) p = below_root root p"
  by (simp add: below_root_def filepath_Clean_idem)

lemma contained_Rel:
  "(case filepath_Rel base targ of None \<Rightarrow> False | Some rel \<Rightarrow> \<not> escapesRel rel) \<longleftrightarrow>
     below_root base (filepath_Clean targ)"
proof (cases "rooted base = rooted targ")
  case True
  have "norm_stack (rooted base) (path_stack targ)"
    unfolding True by (rule norm_path_stack)
  from filepath_Rel_below [OF norm_path_stack [of base] this]
  show ?thesis
    unfolding filepath_Clean_stack [symmetric] unfolding True unfolding filepath_Clean_stack [symmetric]
      filepath_Rel_Clean below_root_Clean .
next
  case False
  then have "filepath_Clean targ \<noteq> filepath_Clean base" by (metis rooted_Clean)
  with False show ?thesis by (simp add: filepath_Rel_def below_root_def)
qed

lemma filepath_Clean_not_Nil [simp]: "filepath_Clean s \<noteq> []"
  by (simp add: filepath_Clean_def path_text_def Let_def)

lemma filepath_Join_Clean: "filepath_Clean (filepath_Join [filepath_Clean root, elem]) = filepath_Join [filepath_Clean root, elem]"
  by (simp add: filepath_Join_def filepath_Clean_idem)

lemma assertRealUnder_below:
  "assertRealUnder real root path \<Longrightarrow> real root = RealPath r \<Longrightarrow> real path = RealPath p \<Longrightarrow>
     below_root r (filepath_Clean p)"
  unfolding contained_Rel [symmetric] by (auto simp: assertRealUnder_def split: option.splits)


end
