(* ===== verification/Driver_Secrets.thy ===== *)
theory Driver_Secrets
  imports Driver_Paths
begin

text \<open>
  The secrets volume of a workspace as the docker driver reads and writes it
  (\<open>secrets.go\<close>, \<open>bpcreds.go\<close>, \<open>provision.go\<close> of \<open>internal/infradriver/dockerdriver\<close>): \<open>KEY=VALUE\<close>
  files, the workspace key, decrypted secrets and the credentials of databases and buckets. A disk
  maps paths to texts; a write replaces a whole file or fails and changes nothing (the code writes
  a temporary file and renames it). File modes and owners are not modelled, nor lines longer than
  the 64 KiB a scanner takes.
\<close>

section \<open>Disk and platform\<close>

record disk =
  dk_file :: "string \<Rightarrow> string option"
  dk_dir :: "string \<Rightarrow> bool"

text \<open>
  Not in the repository: the hex text of SHA-256, the TOML and the registry's JSON decoder, the
  opening of an encrypted blob (base64, AES-GCM and JSON) under a key, the JSON text of a value, the
  random key and the password drawn for a file (\<open>None\<close>: no randomness), which files can be written,
  and where symbolic links lead.
\<close>

record platform =
  pf_sha :: "string \<Rightarrow> string"
  pf_toml :: "string \<Rightarrow> toml_automation option"
  pf_registry :: "string \<Rightarrow> (string \<times> string list) list option"
  pf_open :: "string \<Rightarrow> string \<Rightarrow> (string \<times> json) list option"
  pf_json :: "json \<Rightarrow> string"
  pf_key :: "string option"
  pf_password :: "string \<Rightarrow> string option"
  pf_writable :: "string \<Rightarrow> bool"
  pf_real :: "string \<Rightarrow> real_path"

definition path_exists :: "disk \<Rightarrow> string \<Rightarrow> bool" where
  "path_exists d p \<longleftrightarrow> dk_file d p \<noteq> None \<or> dk_dir d p"

definition write_file :: "platform \<Rightarrow> string \<Rightarrow> string \<Rightarrow> disk \<Rightarrow> bool \<times> disk" where
  "write_file pf path content d =
     (if pf_writable pf path then (True, d\<lparr>dk_file := (dk_file d)(path \<mapsto> content)\<rparr>) else (False, d))"

section \<open>KEY=VALUE files\<close>

definition newline :: char where "newline = CHR 0x0A"

definition cut_eq :: "string \<Rightarrow> string \<times> string" where
  "cut_eq line = (takeWhile (\<lambda>c. c \<noteq> CHR ''='') line, drop 1 (dropWhile (\<lambda>c. c \<noteq> CHR ''='') line))"

definition env_line :: "string \<Rightarrow> (string \<times> string) option" where
  "env_line raw =
     (let line = trim_space raw in
      if line = [] \<or> hd line = CHR ''#'' \<or> CHR ''='' \<notin> set line then None else Some (cut_eq line))"

definition parse_env :: "string \<Rightarrow> (string \<times> string) list" where
  "parse_env content =
     fold (\<lambda>raw out. case env_line raw of None \<Rightarrow> out | Some (k, v) \<Rightarrow> AList.update k v out)
       (split_on newline content) []"

definition readEnvFile :: "disk \<Rightarrow> string \<Rightarrow> (string \<times> string) list option" where
  "readEnvFile d path =
     (case dk_file d path of
        None \<Rightarrow> None
      | Some content \<Rightarrow> (let out = parse_env content in if out = [] then None else Some out))"

definition env_text :: "(string \<times> string) list \<Rightarrow> string" where
  "env_text values =
     concat (map (\<lambda>k. case map_of values k of
                   None \<Rightarrow> []
                 | Some v \<Rightarrow> if trim_space v \<noteq> [] then k @ ''='' @ v @ [newline] else [])
        (sort (map fst values)))"

definition writeEnvFile :: "platform \<Rightarrow> string \<Rightarrow> (string \<times> string) list \<Rightarrow> disk \<Rightarrow> bool \<times> disk" where
  "writeEnvFile pf path values = write_file pf path (env_text values)"

definition env_get :: "(string \<times> string) list \<Rightarrow> string \<Rightarrow> string" where
  "env_get vals k = (case map_of vals k of None \<Rightarrow> [] | Some v \<Rightarrow> v)"

definition serviceSecrets :: "disk \<Rightarrow> string \<Rightarrow> string \<Rightarrow> string \<Rightarrow> (string \<times> string) list option" where
  "serviceSecrets d secretsDir serviceType realm =
     (let sfx = (if realm \<noteq> ''production'' then CHR ''-'' # realm else [])
      in readEnvFile d (filepath_Join [secretsDir, serviceType @ sfx]))"

section \<open>Secrets of a business process\<close>

definition bpSecretEnvFilePath :: "string \<Rightarrow> string \<Rightarrow> string \<Rightarrow> string" where
  "bpSecretEnvFilePath secretsDir bp stage =
     filepath_Join [secretsDir, ''bp'', sanitizeAutomationName bp, realmForStage stage]"

definition loadAESKey :: "platform \<Rightarrow> string \<Rightarrow> disk \<Rightarrow> string option \<times> disk" where
  "loadAESKey pf secretsDir d =
     (let path = filepath_Join [secretsDir, ''.aes-key''] in
      case dk_file d path of
        Some data \<Rightarrow>
          if length data = 32 then (Some data, d)
          else (case pf_key pf of
                  None \<Rightarrow> (None, d)
                | Some k \<Rightarrow> (case write_file pf path k d of (ok, d') \<Rightarrow> (if ok then Some k else None, d')))
      | None \<Rightarrow>
          (case pf_key pf of
             None \<Rightarrow> (None, d)
           | Some k \<Rightarrow> (case write_file pf path k d of (ok, d') \<Rightarrow> (if ok then Some k else None, d'))))"

definition stringify :: "platform \<Rightarrow> json \<Rightarrow> string" where
  "stringify pf v = (case v of JStr s \<Rightarrow> s | JNull \<Rightarrow> [] | _ \<Rightarrow> pf_json pf v)"

definition decryptSecrets :: "platform \<Rightarrow> string \<Rightarrow> string \<Rightarrow> disk \<Rightarrow> (string \<times> string) list option \<times> disk" where
  "decryptSecrets pf secretsDir blob d =
     (if blob = [] then (None, d)
      else case loadAESKey pf secretsDir d of
          (None, d') \<Rightarrow> (None, d')
        | (Some key, d') \<Rightarrow>
            (map_option (map (\<lambda>(k, v). (k, stringify pf v))) (pf_open pf key blob), d'))"

text \<open>The path, or \<open>None\<close> when the file cannot be written.\<close>

definition materializeEnv ::
    "platform \<Rightarrow> string \<Rightarrow> string \<Rightarrow> string \<Rightarrow> (string \<times> string) list \<Rightarrow> disk \<Rightarrow> string option \<times> disk" where
  "materializeEnv pf secretsDir bp stage values d =
     (let path = bpSecretEnvFilePath secretsDir bp stage in
      case write_file pf path (env_text values) d of (ok, d') \<Rightarrow> (if ok then Some path else None, d'))"

definition secretsContentHash :: "platform \<Rightarrow> (string \<times> string) list \<Rightarrow> string" where
  "secretsContentHash pf values =
     (if values = [] then [] else if env_text values = [] then [] else take 16 (pf_sha pf (env_text values)))"

section \<open>Credentials of databases and buckets\<close>

definition scopedPGRole :: "string \<Rightarrow> string" where
  "scopedPGRole dbName = truncate_str (''u_'' @ dbName) maxLabelLen"

definition scopedROPGRole :: "string \<Rightarrow> string" where
  "scopedROPGRole dbName = truncate_str (''ro_'' @ dbName) maxLabelLen"

definition dbCredsPath :: "string \<Rightarrow> string \<Rightarrow> string \<Rightarrow> string" where
  "dbCredsPath secretsDir realm dbName = filepath_Join [secretsDir, ''dbcreds'', realm, dbName]"

definition bucketCredsPath :: "string \<Rightarrow> string \<Rightarrow> string \<Rightarrow> string" where
  "bucketCredsPath secretsDir realm bucket = filepath_Join [secretsDir, ''garagecreds'', realm, bucket]"

definition systemKeyName :: string where "systemKeyName = ''_system''"

definition getOrCreateDBCreds ::
    "platform \<Rightarrow> string \<Rightarrow> string \<Rightarrow> string \<Rightarrow> disk \<Rightarrow> (string \<times> string) option \<times> disk" where
  "getOrCreateDBCreds pf secretsDir realm dbName d =
     (let user = scopedPGRole dbName;
          path = dbCredsPath secretsDir realm dbName;
          old = (case readEnvFile d path of None \<Rightarrow> [] | Some vals \<Rightarrow> env_get vals ''POSTGRES_PASSWORD'')
      in if old \<noteq> [] then (Some (user, old), d)
         else (case pf_password pf path of
             None \<Rightarrow> (None, d)
           | Some password \<Rightarrow>
               (case writeEnvFile pf path [(''POSTGRES_USER'', user), (''POSTGRES_PASSWORD'', password)] d of
                  (ok, d') \<Rightarrow> (if ok then Some (user, password) else None, d'))))"

definition readBucketCreds :: "disk \<Rightarrow> string \<Rightarrow> string \<Rightarrow> string \<Rightarrow> string \<times> string" where
  "readBucketCreds d secretsDir realm bucket =
     (case readEnvFile d (bucketCredsPath secretsDir realm bucket) of
        None \<Rightarrow> ([], [])
      | Some vals \<Rightarrow>
          if env_get vals ''S3_SECRET_KEY'' = [] then ([], [])
          else (env_get vals ''S3_ACCESS_KEY'', env_get vals ''S3_SECRET_KEY''))"

definition writeBucketCreds ::
    "platform \<Rightarrow> string \<Rightarrow> string \<Rightarrow> string \<Rightarrow> string \<Rightarrow> string \<Rightarrow> disk \<Rightarrow> bool \<times> disk" where
  "writeBucketCreds pf secretsDir realm bucket accessKey secretKey =
     writeEnvFile pf (bucketCredsPath secretsDir realm bucket)
       [(''S3_ACCESS_KEY'', accessKey), (''S3_SECRET_KEY'', secretKey)]"

definition ensureBucketCredsFile :: "platform \<Rightarrow> string \<Rightarrow> string \<Rightarrow> string \<Rightarrow> disk \<Rightarrow> bool \<times> disk" where
  "ensureBucketCredsFile pf secretsDir realm bucket d =
     (let path = bucketCredsPath secretsDir realm bucket in
      if path_exists d path then (True, d) else writeEnvFile pf path [] d)"

section \<open>Reading back what was written\<close>

text \<open>A key and a value that survive the text form of a file.\<close>

definition env_key_ok :: "string \<Rightarrow> bool" where
  "env_key_ok k \<longleftrightarrow> CHR ''='' \<notin> set k \<and> newline \<notin> set k \<and>
     (k = [] \<or> \<not> is_space (hd k) \<and> hd k \<noteq> CHR ''#'')"

definition env_value_ok :: "string \<Rightarrow> bool" where
  "env_value_ok v \<longleftrightarrow> newline \<notin> set v \<and> (v = [] \<or> \<not> is_space (last v))"

definition env_pair :: "(string \<times> string) list \<Rightarrow> string \<Rightarrow> (string \<times> string) option" where
  "env_pair values k =
     (case map_of values k of
        None \<Rightarrow> None | Some v \<Rightarrow> if trim_space v \<noteq> [] then Some (k, v) else None)"

definition env_pairs :: "(string \<times> string) list \<Rightarrow> (string \<times> string) list" where
  "env_pairs values = List.map_filter (env_pair values) (sort (map fst values))"

lemma env_pair_Some: "env_pair values k = Some (k', v) \<longleftrightarrow> k' = k \<and> map_of values k = Some v \<and> trim_space v \<noteq> []"
  by (auto simp: env_pair_def split: option.splits)

lemma set_map_filter: "y \<in> set (List.map_filter f xs) \<longleftrightarrow> (\<exists>x\<in>set xs. f x = Some y)"
  by (induction xs) (auto simp: map_filter_simps split: option.splits)

lemma env_text_pairs: "env_text values = concat (map (\<lambda>(k, v). (k @ ''='' @ v) @ [newline]) (env_pairs values))"
proof -
  have "concat (map (\<lambda>k. case map_of values k of None \<Rightarrow> []
               | Some v \<Rightarrow> if trim_space v \<noteq> [] then k @ ''='' @ v @ [newline] else []) ks)
     = concat (map (\<lambda>(k, v). (k @ ''='' @ v) @ [newline]) (List.map_filter (env_pair values) ks))" for ks
    by (induction ks) (auto simp: map_filter_simps env_pair_def split: option.splits)
  then show ?thesis by (simp add: env_text_def env_pairs_def)
qed

lemma set_env_pairs: "(k, v) \<in> set (env_pairs values) \<longleftrightarrow> map_of values k = Some v \<and> trim_space v \<noteq> []"
proof -
  have "map_of values k = Some v \<Longrightarrow> k \<in> set (sort (map fst values))"
    by (force dest: map_of_SomeD)
  then show ?thesis unfolding env_pairs_def set_map_filter env_pair_Some by blast
qed

lemma distinct_env_pairs: "distinct (map fst values) \<Longrightarrow> distinct (map fst (env_pairs values))"
proof -
  have "fst ` set (List.map_filter (env_pair values) ks) \<subseteq> set ks" for ks
  proof
    fix k
    assume "k \<in> fst ` set (List.map_filter (env_pair values) ks)"
    then obtain v where "(k, v) \<in> set (List.map_filter (env_pair values) ks)" by auto
    then show "k \<in> set ks" unfolding set_map_filter env_pair_Some by blast
  qed
  then have "distinct ks \<Longrightarrow> distinct (map fst (List.map_filter (env_pair values) ks))" for ks
    by (induction ks) (auto simp: map_filter_simps env_pair_Some split: option.splits)
  then show "distinct (map fst values) \<Longrightarrow> distinct (map fst (env_pairs values))"
    by (simp add: env_pairs_def)
qed

lemma split_on_lines:
  "\<forall>l\<in>set ls. c \<notin> set l \<Longrightarrow> split_on c (concat (map (\<lambda>l. l @ [c]) ls)) = ls @ [[]]"
  by (induction ls) (simp_all add: split_on_first)

lemma env_line_pair:
  assumes "env_key_ok k" "env_value_ok v" "trim_space v \<noteq> []"
  shows "env_line (k @ ''='' @ v) = Some (k, v)"
proof -
  have "v \<noteq> []" using assms(3) by auto
  then have "trimmed (k @ ''='' @ v)"
    using assms(1,2) by (auto simp: trimmed_def env_key_ok_def env_value_ok_def is_space_def hd_append)
  moreover have "takeWhile (\<lambda>c. c \<noteq> CHR ''='') (k @ ''='' @ v) = k"
    "dropWhile (\<lambda>c. c \<noteq> CHR ''='') (k @ ''='' @ v) = ''='' @ v"
    using assms(1) by (auto simp: env_key_ok_def takeWhile_append dropWhile_append)
  ultimately show ?thesis
    using assms(1) by (auto simp: env_line_def cut_eq_def env_key_ok_def trim_space_trimmed hd_append)
qed

lemma map_of_fold_update:
  "distinct (map fst ps) \<Longrightarrow>
     map_of (fold (\<lambda>(k, v). AList.update k v) ps out) = map_of out ++ map_of ps"
proof (induction ps arbitrary: out)
  case (Cons p ps)
  obtain k v where p: "p = (k, v)" by (cases p)
  have "map_of (fold (\<lambda>(k, v). AList.update k v) (p # ps) out) = (map_of out)(k \<mapsto> v) ++ map_of ps"
    using Cons.IH [of "AList.update k v out"] Cons.prems
    by (simp only: p fold_Cons comp_apply case_prod_conv update_conv' list.map distinct.simps)
  also have "\<dots> = map_of out ++ (map_of ps)(k \<mapsto> v)"
    using Cons.prems p by (simp add: map_add_upd_left map_of_eq_None_iff dom_map_of_conv_image_fst)
  finally show ?case unfolding p by (simp only: map_of.simps fst_conv snd_conv)
qed simp

lemma parse_env_text:
  assumes "distinct (map fst values)" "\<forall>(k, v)\<in>set values. env_key_ok k \<and> env_value_ok v"
  shows "parse_env (env_text values) = fold (\<lambda>(k, v). AList.update k v) (env_pairs values) []"
proof -
  let ?ls = "map (\<lambda>(k, v). k @ ''='' @ v) (env_pairs values)"
  have ok: "env_key_ok k \<and> env_value_ok v \<and> trim_space v \<noteq> []" if "(k, v) \<in> set (env_pairs values)" for k v
    using that assms(2) by (auto simp: set_env_pairs dest: map_of_SomeD)
  then have "\<forall>l\<in>set ?ls. newline \<notin> set l"
    by (fastforce simp: env_key_ok_def env_value_ok_def newline_def)
  from split_on_lines [OF this]
  have lines: "split_on newline (env_text values) = ?ls @ [[]]"
    by (simp add: env_text_pairs case_prod_beta' comp_def)
  have "fold (\<lambda>raw out. case env_line raw of None \<Rightarrow> out | Some (k, v) \<Rightarrow> AList.update k v out)
      (map (\<lambda>(k, v). k @ ''='' @ v) ps) out = fold (\<lambda>(k, v). AList.update k v) ps out"
    if "set ps \<subseteq> set (env_pairs values)" for ps out
    using that
  proof (induction ps arbitrary: out)
    case (Cons p ps)
    obtain k v where p: "p = (k, v)" by (cases p)
    with Cons.prems have "env_line (k @ ''='' @ v) = Some (k, v)" by (intro env_line_pair) (auto simp: ok)
    with Cons p show ?case by simp
  qed simp
  from this [OF subset_refl] show ?thesis
    by (simp add: parse_env_def lines env_line_def)
qed

text \<open>A file of clean keys and values is read back as its non-blank values.\<close>

lemma env_file_roundtrip:
  assumes "distinct (map fst values)" "\<forall>(k, v)\<in>set values. env_key_ok k \<and> env_value_ok v"
    and "env_pairs values \<noteq> []"
    and "writeEnvFile pf path values d = (True, d')"
  shows "\<exists>vals. readEnvFile d' path = Some vals \<and>
     (\<forall>k. map_of vals k = (case map_of values k of
            None \<Rightarrow> None | Some v \<Rightarrow> if trim_space v \<noteq> [] then Some v else None))"
proof -
  let ?out = "fold (\<lambda>(k, v). AList.update k v) (env_pairs values) []"
  have stored: "dk_file d' path = Some (env_text values)"
    using assms(4) by (auto simp: writeEnvFile_def write_file_def split: if_splits)
  have out: "map_of ?out = map_of (env_pairs values)"
    using map_of_fold_update [OF distinct_env_pairs [OF assms(1)], of "[]"] by simp
  then have "?out \<noteq> []" using assms(3) by (metis dom_eq_empty_conv dom_map_of_conv_image_fst image_is_empty set_empty)
  then have "readEnvFile d' path = Some ?out"
    using parse_env_text [OF assms(1,2)] stored by (simp add: readEnvFile_def Let_def)
  moreover have "map_of (env_pairs values) k = (case map_of values k of
            None \<Rightarrow> None | Some v \<Rightarrow> if trim_space v \<noteq> [] then Some v else None)" for k
  proof (cases "map_of (env_pairs values) k")
    case None
    then have "\<nexists>v. (k, v) \<in> set (env_pairs values)" by (auto simp: map_of_eq_None_iff rev_image_eqI)
    with None show ?thesis by (auto simp: set_env_pairs split: option.splits)
  next
    case (Some v)
    then have "(k, v) \<in> set (env_pairs values)" by (rule map_of_SomeD)
    with Some show ?thesis by (simp add: set_env_pairs)
  qed
  ultimately show ?thesis using out by auto
qed

text \<open>A text with no white space in it.\<close>

definition no_space :: "string \<Rightarrow> bool" where
  "no_space s \<longleftrightarrow> (\<forall>c\<in>set s. \<not> is_space c)"

lemma newline_space: "is_space newline"
  by (simp add: newline_def is_space_def)

lemma no_space_trimmed: "no_space s \<Longrightarrow> trimmed s"
  by (cases s) (auto simp: no_space_def trimmed_def)

lemma no_space_value: "no_space s \<Longrightarrow> env_value_ok s"
  using newline_space by (auto simp: no_space_def env_value_ok_def)

text \<open>C23: a database's credentials are stable. Once the driver has handed them out, every later run
  hands out the same role and password and leaves the disk alone, whatever randomness it has and
  even when it can write nothing, as long as neither the database's name nor the password drawn
  has white space in it (names come from sanitised parts, passwords are base64 text).
\<close>

theorem db_creds_are_stable:
  assumes "getOrCreateDBCreds pf secretsDir realm dbName d = (Some creds, d')"
    and "no_space dbName"
    and "\<forall>pw. pf_password pf (dbCredsPath secretsDir realm dbName) = Some pw \<longrightarrow> no_space pw \<and> pw \<noteq> []"
  shows "getOrCreateDBCreds pf' secretsDir realm dbName d' = (Some creds, d')"
proof -
  let ?path = "dbCredsPath secretsDir realm dbName" and ?user = "scopedPGRole dbName"
  let ?old = "case readEnvFile d ?path of None \<Rightarrow> [] | Some vals \<Rightarrow> env_get vals ''POSTGRES_PASSWORD''"
  show ?thesis
  proof (cases "?old = []")
    case False
    then have "creds = (?user, ?old)" "d' = d"
      using assms(1) by (auto simp: getOrCreateDBCreds_def Let_def)
    with False show ?thesis by (simp add: getOrCreateDBCreds_def Let_def)
  next
    case True
    let ?kvs = "\<lambda>pw. [(''POSTGRES_USER'', ?user), (''POSTGRES_PASSWORD'', pw)]"
    obtain pw where pw: "pf_password pf ?path = Some pw" "creds = (?user, pw)"
        "writeEnvFile pf ?path (?kvs pw) d = (True, d')"
      using assms(1) True
      by (auto simp: getOrCreateDBCreds_def Let_def split: option.splits prod.splits if_splits)
    have clean: "no_space pw" "pw \<noteq> []" "no_space ?user"
      using assms(2,3) pw(1)
      by (auto simp: scopedPGRole_def truncate_str_take no_space_def is_space_def dest!: in_set_takeD)
    have keys: "env_key_ok ''POSTGRES_USER''" "env_key_ok ''POSTGRES_PASSWORD''"
      by code_simp+
    have "(''POSTGRES_PASSWORD'', pw) \<in> set (env_pairs (?kvs pw))"
      using clean by (simp add: set_env_pairs trim_space_trimmed [OF no_space_trimmed])
    then have "env_pairs (?kvs pw) \<noteq> []" by auto
    then obtain vals where vals: "readEnvFile d' ?path = Some vals"
        "map_of vals ''POSTGRES_PASSWORD'' = Some pw"
      using env_file_roundtrip [OF _ _ _ pw(3)] keys clean
      by (auto simp: no_space_value trim_space_trimmed [OF no_space_trimmed])
    with clean pw show ?thesis by (simp add: getOrCreateDBCreds_def Let_def env_get_def)
  qed
qed

definition sample_creds_platform :: platform where
  "sample_creds_platform =
     \<lparr>pf_sha = (\<lambda>s. []), pf_toml = (\<lambda>s. None), pf_registry = (\<lambda>s. None), pf_open = (\<lambda>k b. None),
      pf_json = (\<lambda>j. []), pf_key = None, pf_password = (\<lambda>p. Some ''pw''), pf_writable = (\<lambda>p. True),
      pf_real = (\<lambda>p. RealMissing)\<rparr>"

definition blank_disk :: disk where
  "blank_disk = \<lparr>dk_file = (\<lambda>p. None), dk_dir = (\<lambda>p. False)\<rparr>"

theorem db_creds_are_stable_witness:
  "let run = getOrCreateDBCreds sample_creds_platform ''/s'' ''dev'' ''bp_x'' blank_disk
   in fst run = Some (''u_bp_x'', ''pw'') \<and>
      getOrCreateDBCreds (sample_creds_platform\<lparr>pf_password := (\<lambda>p. Some ''other''), pf_writable := (\<lambda>p. False)\<rparr>)
        ''/s'' ''dev'' ''bp_x'' (snd run) = run"
proof -
  let ?run = "getOrCreateDBCreds sample_creds_platform ''/s'' ''dev'' ''bp_x'' blank_disk"
  have f: "fst ?run = Some (''u_bp_x'', ''pw'')" by code_simp
  then have run: "?run = (Some (''u_bp_x'', ''pw''), snd ?run)" by (metis prod.collapse)
  have "no_space ''bp_x''" by code_simp
  moreover have "no_space ''pw''" by code_simp
  then have "\<forall>pw. pf_password sample_creds_platform (dbCredsPath ''/s'' ''dev'' ''bp_x'') = Some pw \<longrightarrow>
      no_space pw \<and> pw \<noteq> []"
    by (simp add: sample_creds_platform_def)
  ultimately have "getOrCreateDBCreds (sample_creds_platform\<lparr>pf_password := (\<lambda>p. Some ''other''), pf_writable := (\<lambda>p. False)\<rparr>)
      ''/s'' ''dev'' ''bp_x'' (snd ?run) = (Some (''u_bp_x'', ''pw''), snd ?run)"
    using db_creds_are_stable [OF run] by blast
  then show ?thesis unfolding Let_def run [symmetric] using f by simp
qed

end
