(* ===== verification/Driver_Model.thy ===== *)
theory Driver_Model
  imports Driver_Secrets
begin

text \<open>
  What a workspace declares (\<open>model.go\<close>) and what the docker driver's compiler derives from it
  before it builds a service (\<open>compile.go\<close>, \<open>config.go\<close>, both in
  \<open>internal/infradriver/dockerdriver\<close>): slots and databases of a blue-green process, firewall
  nodes, and the ingress route of an automation. A Go map is the list of its entries; where the code
  ranges over one, the list's order stands for Go's unspecified one. A nil pointer is \<open>None\<close>.
\<close>

section \<open>bitswan.yaml\<close>

record deployment =
  de_enabled :: "bool option"
  de_active :: "bool option"
  de_automation_name :: string
  de_context :: string
  de_stage :: string
  de_checksum :: string
  de_source :: string
  de_relative_path :: string
  de_image :: string
  de_tag_checksum :: string
  de_replicas :: "int option"
  de_deployment_ctx :: string
  de_services :: "(string \<times> json) list"
  de_mem_reservation :: "int option"
  de_mem_policy :: string
  de_stage_set :: bool

definition empty_deployment :: deployment where
  "empty_deployment =
     \<lparr>de_enabled = None, de_active = None, de_automation_name = [], de_context = [], de_stage = [],
      de_checksum = [], de_source = [], de_relative_path = [], de_image = [], de_tag_checksum = [],
      de_replicas = None, de_deployment_ctx = [], de_services = [], de_mem_reservation = None,
      de_mem_policy = [], de_stage_set = False\<rparr>"

type_synonym deployments = "(string \<times> deployment option) list"

record backup_rec =
  bk_slots :: "(string \<times> int option option) list"   \<comment> \<open>\<open>SlotRec\<close> holds just the database number\<close>
  bk_live_db :: "int option"
  bk_live_slot :: string

record firewall_node =
  fn_posture :: string
  fn_rules :: "(string \<times> string option) list"         \<comment> \<open>\<open>FirewallRule\<close> holds just the status\<close>

record bitswan =
  bs_deployments :: deployments
  bs_processes :: "(string \<times> (string \<times> deployments option) list) list"
  bs_backups :: "(string \<times> backup_rec option) list"
  bs_secrets :: "(string \<times> (string \<times> string) list) list"
  bs_firewall :: "(string \<times> (string \<times> firewall_node option) list) list"

definition EnabledOrDefault :: "deployment \<Rightarrow> bool" where
  "EnabledOrDefault d = (case de_enabled d of None \<Rightarrow> True | Some b \<Rightarrow> b)"

definition ReplicasOrOne :: "deployment \<Rightarrow> int" where
  "ReplicasOrOne d = (case de_replicas d of None \<Rightarrow> 1 | Some n \<Rightarrow> n)"

definition StageOrProduction :: "deployment \<Rightarrow> string" where
  "StageOrProduction d = (if de_stage d = [] then ''production'' else de_stage d)"

definition AutomationNameOr :: "deployment \<Rightarrow> string \<Rightarrow> string" where
  "AutomationNameOr d depID = (if de_automation_name d = [] then depID else de_automation_name d)"

text \<open>One deployment of the tree form.\<close>

definition hydrated :: "string \<Rightarrow> string \<Rightarrow> deployment option \<Rightarrow> deployment" where
  "hydrated bp stage conf =
     (let c = (case conf of None \<Rightarrow> empty_deployment | Some c \<Rightarrow> c);
          c1 = (if de_context c = [] then c\<lparr>de_context := bp\<rparr> else c)
      in if \<not> de_stage_set c1 \<and> de_stage c1 = [] \<and> stage \<noteq> ''production''
         then c1\<lparr>de_stage := stage\<rparr> else c1)"

definition hydrate :: "bitswan \<Rightarrow> bitswan" where
  "hydrate bs =
     (let flat = map (\<lambda>(depID, d). (depID, map_option (\<lambda>x. x\<lparr>de_stage_set := True\<rparr>) d)) (bs_deployments bs)
      in bs\<lparr>bs_deployments :=
           fold (\<lambda>(bp, stages) ds.
             fold (\<lambda>(stage, node) ds.
               case node of
                 None \<Rightarrow> ds
               | Some confs \<Rightarrow>
                   fold (\<lambda>(depID, conf) ds. AList.update depID (Some (hydrated bp stage conf)) ds) confs ds)
               stages ds)
             (bs_processes bs) flat\<rparr>)"

section \<open>The compiler's context\<close>

record compile_state =
  cx_workspaceName :: string
  cx_gitopsDir :: string
  cx_gitopsDirHost :: string
  cx_workspaceDir :: string
  cx_workspaceRepo :: string
  cx_secretsDir :: string
  cx_domain :: string
  cx_certsDirHost :: string
  cx_keycloakURL :: string
  cx_orgGroupPath :: string
  cx_adminGroupPath :: string
  cx_authMode :: string
  cx_volumeName :: string
  cx_gatewayImage :: string
  cx_firewallDir :: string
  cx_bs :: bitswan
  cx_registry :: "(string \<times> string list) list"

text \<open>The registry of databases: for each process the realms it is registered for. An absent or
  unreadable file is an empty registry.\<close>

definition loadRegistry :: "platform \<Rightarrow> disk \<Rightarrow> string \<Rightarrow> (string \<times> string list) list" where
  "loadRegistry pf d secretsDir =
     (case dk_file d (filepath_Join [secretsDir, ''bp-databases.json'']) of
        None \<Rightarrow> []
      | Some data \<Rightarrow> (case pf_registry pf data of None \<Rightarrow> [] | Some reg \<Rightarrow> reg))"

definition isRegistered :: "(string \<times> string list) list \<Rightarrow> string \<Rightarrow> string \<Rightarrow> bool" where
  "isRegistered reg bpSlug realm \<longleftrightarrow>
     (case map_of reg bpSlug of None \<Rightarrow> False | Some stages \<Rightarrow> realm \<in> set stages)"

definition newCompileState ::
    "platform \<Rightarrow> disk \<Rightarrow> (string \<Rightarrow> string) \<Rightarrow> workspace_context \<Rightarrow> bitswan \<Rightarrow> compile_state" where
  "newCompileState pf d genv wctx bs =
     (let envOr = (\<lambda>key def. if genv key \<noteq> [] then genv key else def);
          gitops = wc_gitops_dir wctx
      in \<lparr>cx_workspaceName = wc_name wctx,
          cx_gitopsDir = gitops,
          cx_gitopsDirHost = envOr ''BITSWAN_GITOPS_DIR_HOST'' gitops,
          cx_workspaceDir = envOr ''BITSWAN_WORKSPACE_DIR_HOST'' (filepath_Join [gitops, ''..'', ''workspace'']),
          cx_workspaceRepo = envOr ''BITSWAN_WORKSPACE_REPO_DIR'' ''/workspace-repo'',
          cx_secretsDir =
            (if wc_secrets_dir wctx = [] then filepath_Join [gitops, ''secrets''] else wc_secrets_dir wctx),
          cx_domain = wc_domain wctx,
          cx_certsDirHost = genv ''BITSWAN_CERTS_DIR'',
          cx_keycloakURL = genv ''KEYCLOAK_URL'',
          cx_orgGroupPath = genv ''BITSWAN_ALLOWED_GROUP'',
          cx_adminGroupPath = genv ''BITSWAN_ADMIN_GROUP'',
          cx_authMode = genv ''BITSWAN_AUTH_MODE'',
          cx_volumeName = genv ''BITSWAN_VOLUME_NAME'',
          cx_gatewayImage = envOr ''BITSWAN_EGRESS_GATEWAY_IMAGE'' ''bitswan/egress-gateway:latest'',
          cx_firewallDir = filepath_Join [gitops, ''firewall''],
          cx_bs = bs,
          cx_registry = loadRegistry pf d (wc_secrets_dir wctx)\<rparr>)"

definition stageNetwork :: "compile_state \<Rightarrow> string \<Rightarrow> string" where
  "stageNetwork c realm = cx_workspaceName c @ ''-'' @ realm"

definition cx_label :: "platform \<Rightarrow> compile_state \<Rightarrow> string \<Rightarrow> string \<Rightarrow> string \<Rightarrow> string \<Rightarrow> string" where
  "cx_label pf c = makeHostnameLabel (pf_sha pf) (cx_workspaceName c)"

section \<open>Firewall nodes\<close>

text \<open>A nil node, realm or map is \<open>None\<close>.\<close>

definition firewallNode :: "bitswan \<Rightarrow> string \<Rightarrow> string \<Rightarrow> firewall_node option" where
  "firewallNode bs bp realm =
     (case map_of (bs_firewall bs) bp of
        None \<Rightarrow> None
      | Some byRealm \<Rightarrow> (case map_of byRealm realm of None \<Rightarrow> None | Some node \<Rightarrow> node))"

definition allowedHosts :: "bitswan \<Rightarrow> string \<Rightarrow> string \<Rightarrow> string list" where
  "allowedHosts bs bp realm =
     (case firewallNode bs bp realm of
        None \<Rightarrow> []
      | Some node \<Rightarrow> sort (map fst (filter (\<lambda>(h, r). r = Some ''allowed'') (fn_rules node))))"

section \<open>Blue-green slots\<close>

definition backupRec :: "compile_state \<Rightarrow> string \<Rightarrow> backup_rec option" where
  "backupRec c bpSlug = (case map_of (bs_backups (cx_bs c)) bpSlug of None \<Rightarrow> None | Some r \<Rightarrow> r)"

definition slotsFor :: "backup_rec option \<Rightarrow> (string \<times> int option option) list" where
  "slotsFor r =
     (case r of
        Some b \<Rightarrow> if bk_slots b \<noteq> [] then bk_slots b
                 else [(''blue'', Some (Some 1)), (''green'', Some (Some 2))]
      | None \<Rightarrow> [(''blue'', Some (Some 1)), (''green'', Some (Some 2))])"

text \<open>The database of a slot, when the slot and its number are there.\<close>

definition slot_db :: "(string \<times> int option option) list \<Rightarrow> string \<Rightarrow> int option" where
  "slot_db slots s = (case map_of slots s of Some (Some db) \<Rightarrow> db | _ \<Rightarrow> None)"

definition slotDBPairs :: "compile_state \<Rightarrow> deployment \<Rightarrow> (string \<times> int) list" where
  "slotDBPairs c conf =
     (let bpSlug = fst (deriveBPAndCopy (de_relative_path conf));
          slots = slotsFor (backupRec c bpSlug);
          pairs = List.map_filter (\<lambda>s. map_option (\<lambda>db. (s, db)) (slot_db slots s)) appSlots
      in if StageOrProduction conf \<noteq> ''production'' \<or> bpSlug = [] \<or> pairs = [] then [([], 0)] else pairs)"

definition effectiveSlotConf :: "string \<Rightarrow> deployment \<Rightarrow> string \<Rightarrow> deployments \<Rightarrow> deployment" where
  "effectiveSlotConf baseID base slot ds =
     (if slot = [] then base
      else case map_of ds (baseID @ ''@'' @ slot) of
          Some (Some overlay) \<Rightarrow>
            base\<lparr>de_checksum := firstNonEmpty (de_checksum overlay) (de_checksum base),
                 de_source := firstNonEmpty (de_source overlay) (de_source base),
                 de_relative_path := firstNonEmpty (de_relative_path overlay) (de_relative_path base),
                 de_image := firstNonEmpty (de_image overlay) (de_image base),
                 de_tag_checksum := firstNonEmpty (de_tag_checksum overlay) (de_tag_checksum base)\<rparr>
        | _ \<Rightarrow> base)"

definition live_db :: "backup_rec option \<Rightarrow> int" where
  "live_db r = (case r of Some b \<Rightarrow> (case bk_live_db b of Some n \<Rightarrow> n | None \<Rightarrow> 1) | None \<Rightarrow> 1)"

definition liveSlotFor :: "compile_state \<Rightarrow> deployment \<Rightarrow> string" where
  "liveSlotFor c conf =
     (let r = backupRec c (fst (deriveBPAndCopy (de_relative_path conf)));
          named = (case r of Some b \<Rightarrow> bk_live_slot b | None \<Rightarrow> [])
      in if named \<noteq> [] then named
         else case List.find (\<lambda>s. slot_db (slotsFor r) s = Some (live_db r)) appSlots of
             Some s \<Rightarrow> s
           | None \<Rightarrow> ''blue'')"

definition drSlotFor :: "compile_state \<Rightarrow> deployment \<Rightarrow> string" where
  "drSlotFor c conf =
     (let r = backupRec c (fst (deriveBPAndCopy (de_relative_path conf)));
          standbyDB = (if live_db r = 1 then 2 else 1);
          live = liveSlotFor c conf
      in case List.find (\<lambda>s. slot_db (slotsFor r) s = Some standbyDB \<and> s \<noteq> live) appSlots of
           Some s \<Rightarrow> s
         | None \<Rightarrow> [])"

definition sortedDepIDs :: "deployments \<Rightarrow> string list" where
  "sortedDepIDs ds = sort (map fst ds)"

section \<open>Routes\<close>

record route =
  rt_hostname :: string
  rt_upstream :: string
  rt_stage :: string
  rt_parent :: string
  rt_kind :: string

definition workspaceRoute ::
    "platform \<Rightarrow> compile_state \<Rightarrow> string \<Rightarrow> string \<Rightarrow> string \<Rightarrow> int \<Rightarrow> string \<Rightarrow> string \<Rightarrow> route" where
  "workspaceRoute pf c automationName depContext depStage port upstreamSlot hostStage =
     \<lparr>rt_hostname = cx_label pf c automationName depContext hostStage [] @ ''.'' @ cx_domain c,
      rt_upstream = cx_label pf c automationName depContext depStage upstreamSlot @ '':'' @ format_int port,
      rt_stage = depStage,
      rt_parent = cx_workspaceName c @ ''-dashboard.'' @ cx_domain c,
      rt_kind = ''frontend''\<rparr>"

section \<open>automation.toml of a deployment\<close>

definition readAutomationConfig :: "platform \<Rightarrow> disk \<Rightarrow> string \<Rightarrow> automation_config" where
  "readAutomationConfig pf d sourceDir =
     (case dk_file d (filepath_Join [sourceDir, ''automation.toml'']) of
        None \<Rightarrow> defaultAutomationConfig
      | Some data \<Rightarrow>
          (case parseAutomationTOML (pf_toml pf) data of
             None \<Rightarrow> defaultAutomationConfig
           | Some cfg \<Rightarrow> cfg))"

definition resolveAutomationConfig :: "platform \<Rightarrow> disk \<Rightarrow> compile_state \<Rightarrow> deployment \<Rightarrow> automation_config" where
  "resolveAutomationConfig pf d c conf =
     (let stage = StageOrProduction conf;
          rel = de_relative_path conf;
          src = firstNonEmpty (de_source conf) (de_checksum conf);
          join = (\<lambda>root elem. case containedJoin root elem of None \<Rightarrow> [] | Some p \<Rightarrow> p);
          sourceDir =
            (if stage = ''live-dev'' \<and> rel \<noteq> [] then join (cx_workspaceRepo c) rel
             else if src \<noteq> [] then join (cx_gitopsDir c) src else []);
          wsDir = (if rel \<noteq> [] then containedJoin (cx_workspaceRepo c) rel else None)
      in if sourceDir \<noteq> [] \<and> path_exists d sourceDir then readAutomationConfig pf d sourceDir
         else case wsDir of
             Some p \<Rightarrow> if path_exists d p then readAutomationConfig pf d p else defaultAutomationConfig
           | None \<Rightarrow> defaultAutomationConfig)"

text \<open>The routes an inactive deployment keeps, so that a request can wake it.\<close>

definition routesKeptWhileAsleep ::
    "platform \<Rightarrow> disk \<Rightarrow> compile_state \<Rightarrow> string \<Rightarrow> deployment \<Rightarrow> deployments \<Rightarrow> route list" where
  "routesKeptWhileAsleep pf d c depID conf ds =
     List.map_filter (\<lambda>(slot, db).
       let slotConf = effectiveSlotConf depID conf slot ds;
           cfg = resolveAutomationConfig pf d c slotConf;
           isLiveSlot = (slot = [] \<or> slot = liveSlotFor c slotConf);
           isDRSlot = (slot \<noteq> [] \<and> slot = drSlotFor c slotConf);
           depStage = StageOrProduction conf
       in if \<not> ac_expose cfg \<or> ac_port cfg = 0 \<or> (\<not> isLiveSlot \<and> \<not> isDRSlot) then None
          else Some (workspaceRoute pf c (AutomationNameOr conf depID) (de_context slotConf) depStage
                       (ac_port cfg) slot (if isDRSlot then ''dr'' else depStage)))
     (slotDBPairs c conf)"

end
