(* ===== verification/Driver_Entry.thy ===== *)
theory Driver_Entry
  imports Driver_Model
begin

text \<open>
  How the docker driver compiles one deployment to a service of the compose project
  (\<open>internal/infradriver/dockerdriver/entry.go\<close>): the egress-firewall groups, the ports of workers that
  share a gateway's network namespace, and \<open>buildServiceEntry\<close>, here one definition per block of
  the function, composed in its order. A compose service is a record; an absent key is \<open>None\<close> or the
  empty list. The disk is threaded, since the function writes secrets and credentials.
\<close>

section \<open>Compose services\<close>

datatype networks = NetNone | NetList "string list" | NetAliases "(string \<times> string list) list"

text \<open>A mount in the short form, or one of a part of a named volume: volume, target, subpath, read-only.\<close>

datatype mount = Bind string | Subpath string string string bool

record service =
  sv_image :: string
  sv_container_name :: "string option"
  sv_restart :: string
  sv_pull_policy :: "string option"
  sv_environment :: "(string \<times> json) list"
  sv_labels :: "(string \<times> string) list"
  sv_env_file :: "string list"
  sv_cap_add :: "string list"
  sv_cap_drop :: "string list"
  sv_sysctls :: "string list"
  sv_depends_on :: "string option"        \<comment> \<open>with condition \<open>service_healthy\<close>\<close>
  sv_network_mode :: "string option"
  sv_networks :: networks
  sv_replicas :: "int option"
  sv_volumes :: "mount list"
  sv_healthcheck :: "json option"
  sv_command :: "string list"
  sv_entrypoint :: "string list"
  sv_nofile :: "int option"

definition empty_service :: service where
  "empty_service =
     \<lparr>sv_image = [], sv_container_name = None, sv_restart = [], sv_pull_policy = None, sv_environment = [],
      sv_labels = [], sv_env_file = [], sv_cap_add = [], sv_cap_drop = [], sv_sysctls = [],
      sv_depends_on = None, sv_network_mode = None, sv_networks = NetNone, sv_replicas = None,
      sv_volumes = [], sv_healthcheck = None, sv_command = [], sv_entrypoint = [], sv_nofile = None\<rparr>"

section \<open>Firewall groups\<close>

datatype fw_key = FwKey (fk_ctx: string) (fk_stage: string) (fk_slot: string)

text \<open>The order in which \<open>emitGateways\<close> sorts the groups.\<close>

definition fw_key_less :: "fw_key \<Rightarrow> fw_key \<Rightarrow> bool" where
  "fw_key_less a b \<longleftrightarrow>
     (if fk_ctx a \<noteq> fk_ctx b then fk_ctx a < fk_ctx b
      else if fk_stage a \<noteq> fk_stage b then fk_stage a < fk_stage b
      else fk_slot a < fk_slot b)"

instantiation fw_key :: linorder
begin

definition less_fw_key :: "fw_key \<Rightarrow> fw_key \<Rightarrow> bool" where
  "less_fw_key = fw_key_less"

definition less_eq_fw_key :: "fw_key \<Rightarrow> fw_key \<Rightarrow> bool" where
  "less_eq_fw_key a b \<longleftrightarrow> a = b \<or> a < b"

instance
  by standard (auto simp: less_eq_fw_key_def less_fw_key_def fw_key_less_def fw_key.expand split: if_splits)

end

record fw_group =
  fg_gw :: string
  fg_mode :: string
  fg_allow :: "string list"
  fg_realm :: string
  fg_bp :: string
  fg_ok :: bool

type_synonym fw_scope = "(fw_key \<times> fw_group) list"

text \<open>The group of one deployment and slot.\<close>

definition new_group :: "platform \<Rightarrow> compile_state \<Rightarrow> deployment \<Rightarrow> string \<Rightarrow> fw_group" where
  "new_group pf c conf slot =
     (let stage = StageOrProduction conf;
          realm = realmForStage stage;
          bp = fst (deriveBPAndCopy (de_relative_path conf));
          fwKeyBP = (if bp = [] then de_context conf else bp);
          mode = (case firewallNode (cx_bs c) fwKeyBP realm of
                    Some node \<Rightarrow> if fn_posture node \<noteq> [] then fn_posture node else postureFor realm
                  | None \<Rightarrow> postureFor realm)
      in \<lparr>fg_gw = cx_label pf c ''fwgw'' (de_context conf) stage slot,
          fg_mode = mode,
          fg_allow = allowedHosts (cx_bs c) fwKeyBP realm,
          fg_realm = realm, fg_bp = fwKeyBP, fg_ok = True\<rparr>)"

definition inactive :: "deployment \<Rightarrow> bool" where
  "inactive conf \<longleftrightarrow> de_active conf = Some False"

definition scope_step :: "platform \<Rightarrow> compile_state \<Rightarrow> deployment \<Rightarrow> string \<times> int \<Rightarrow> fw_scope \<Rightarrow> fw_scope" where
  "scope_step pf c conf sd scope =
     (let key = FwKey (de_context conf) (StageOrProduction conf) (fst sd) in
      if map_of scope key = None then scope @ [(key, new_group pf c conf (fst sd))] else scope)"

definition scope_of_deployment :: "platform \<Rightarrow> compile_state \<Rightarrow> deployment option \<Rightarrow> fw_scope \<Rightarrow> fw_scope" where
  "scope_of_deployment pf c d scope =
     (case d of
        None \<Rightarrow> scope
      | Some conf \<Rightarrow> if inactive conf then scope else fold (scope_step pf c conf) (slotDBPairs c conf) scope)"

text \<open>Go's \<open>deployments[depID]\<close>: nil for an absent id and for a nil entry.\<close>

definition dep_at :: "deployments \<Rightarrow> string \<Rightarrow> deployment option" where
  "dep_at ds depID = (case map_of ds depID of Some d \<Rightarrow> d | None \<Rightarrow> None)"

definition computeFirewallScope :: "platform \<Rightarrow> compile_state \<Rightarrow> deployments \<Rightarrow> fw_scope" where
  "computeFirewallScope pf c ds =
     fold (\<lambda>depID. scope_of_deployment pf c (dep_at ds depID)) (sortedDepIDs ds) []"

definition fwActive :: "fw_scope \<Rightarrow> string \<Rightarrow> string \<Rightarrow> string \<Rightarrow> fw_group option" where
  "fwActive scope ctx stage slot =
     (case map_of scope (FwKey ctx stage slot) of
        Some g \<Rightarrow> if fg_ok g then Some g else None
      | None \<Rightarrow> None)"

section \<open>Worker ports\<close>

text \<open>The next port from \<open>port\<close> on that is not used yet.\<close>

function next_free :: "int list \<Rightarrow> int \<Rightarrow> int" where
  "next_free used port = (if port \<in> set used then next_free used (port + 1) else port)"
  by pat_completeness auto

lemma fewer_ports:
  "port \<in> set used \<Longrightarrow> length (filter (\<lambda>q. port + 1 \<le> q) used) < length (filter (\<lambda>q. port \<le> q) used)"
  for port :: int
proof (induction used)
  case (Cons q used)
  have le: "length (filter (\<lambda>q. port + 1 \<le> q) used) \<le> length (filter (\<lambda>q. port \<le> q) used)"
    by (induction used) auto
  with Cons show ?case by (cases "q = port") auto
qed simp

termination next_free
  by (relation "measure (\<lambda>(used, port). length (filter (\<lambda>q. port \<le> q) used))") (simp_all add: fewer_ports)

declare next_free.simps [simp del]

record port_assignment =
  pa_app :: int
  pa_ui :: int

record worker_hosts =
  wh_out :: "(fw_key \<times> string list) list"
  wh_ports :: "((fw_key \<times> string) \<times> port_assignment) list"
  wh_used :: "(fw_key \<times> int list) list"

definition used_in :: "(fw_key \<times> int list) list \<Rightarrow> fw_key \<Rightarrow> int list" where
  "used_in used key = (case map_of used key of Some u \<Rightarrow> u | None \<Rightarrow> [])"

definition take_port :: "fw_key \<Rightarrow> int \<Rightarrow> worker_hosts \<Rightarrow> int \<times> worker_hosts" where
  "take_port key port w =
     (let u = used_in (wh_used w) key; p = next_free u port
      in (p, w\<lparr>wh_used := AList.update key (p # u) (wh_used w)\<rparr>))"

definition frontendUIPort :: int where "frontendUIPort = 5173"

text \<open>Pass 1, an exposed worker under an enforcing gateway: the port of its shim and the one of its
  server behind it.\<close>

definition exposed_slot ::
    "fw_scope \<Rightarrow> deployment \<Rightarrow> string \<Rightarrow> automation_config \<Rightarrow> string \<times> int \<Rightarrow> worker_hosts \<Rightarrow> worker_hosts" where
  "exposed_slot scope conf depID cfg sd w =
     (let key = FwKey (de_context conf) (StageOrProduction conf) (fst sd) in
      case fwActive scope (de_context conf) (StageOrProduction conf) (fst sd) of
        Some fw \<Rightarrow>
          if fg_mode fw = ''enforce'' then
            (let (app, w1) = take_port key (ac_port cfg) w;
                 (ui, w2) = take_port key frontendUIPort w1
             in w2\<lparr>wh_ports := AList.update (key, AutomationNameOr conf depID) \<lparr>pa_app = app, pa_ui = ui\<rparr>
                                 (wh_ports w2)\<rparr>)
          else w
      | None \<Rightarrow> w)"

definition exposed_ports ::
    "platform \<Rightarrow> disk \<Rightarrow> compile_state \<Rightarrow> fw_scope \<Rightarrow> string \<Rightarrow> deployment option \<Rightarrow> worker_hosts \<Rightarrow> worker_hosts" where
  "exposed_ports pf d c scope depID dep w =
     (case dep of
        None \<Rightarrow> w
      | Some conf \<Rightarrow>
          (let cfg = resolveAutomationConfig pf d c conf in
           if \<not> ac_expose cfg then w else fold (exposed_slot scope conf depID cfg) (slotDBPairs c conf) w))"

text \<open>Pass 2, a worker that is not exposed.\<close>

definition worker_slot ::
    "platform \<Rightarrow> compile_state \<Rightarrow> fw_scope \<Rightarrow> deployment \<Rightarrow> string \<Rightarrow> automation_config \<Rightarrow> string \<times> int \<Rightarrow>
       worker_hosts \<Rightarrow> worker_hosts" where
  "worker_slot pf c scope conf depID cfg sd w =
     (let stage = StageOrProduction conf;
          name = AutomationNameOr conf depID;
          key = FwKey (de_context conf) stage (fst sd);
          (host, port, w1) =
            (case fwActive scope (de_context conf) stage (fst sd) of
               Some fw \<Rightarrow> (fg_gw fw, take_port key (ac_port cfg) w)
             | None \<Rightarrow> (cx_label pf c name (de_context conf) stage (fst sd), ac_port cfg, w))
      in w1\<lparr>wh_ports := AList.update (key, name) \<lparr>pa_app = port, pa_ui = 0\<rparr> (wh_ports w1),
            wh_out := AList.update key
              ((case map_of (wh_out w1) key of Some hs \<Rightarrow> hs | None \<Rightarrow> []) @
                 [name @ ''='' @ host @ '':'' @ format_int port]) (wh_out w1)\<rparr>)"

definition worker_ports ::
    "platform \<Rightarrow> disk \<Rightarrow> compile_state \<Rightarrow> fw_scope \<Rightarrow> string \<Rightarrow> deployment option \<Rightarrow> worker_hosts \<Rightarrow> worker_hosts" where
  "worker_ports pf d c scope depID dep w =
     (case dep of
        None \<Rightarrow> w
      | Some conf \<Rightarrow>
          (let cfg = resolveAutomationConfig pf d c conf in
           if ac_expose cfg then w else fold (worker_slot pf c scope conf depID cfg) (slotDBPairs c conf) w))"

definition computeWorkerHosts ::
    "platform \<Rightarrow> disk \<Rightarrow> compile_state \<Rightarrow> deployments \<Rightarrow> fw_scope \<Rightarrow> worker_hosts" where
  "computeWorkerHosts pf d c ds scope =
     fold (\<lambda>depID. worker_ports pf d c scope depID (dep_at ds depID)) (sortedDepIDs ds)
       (fold (\<lambda>depID. exposed_ports pf d c scope depID (dep_at ds depID)) (sortedDepIDs ds)
          \<lparr>wh_out = [], wh_ports = [], wh_used = []\<rparr>)"

end
