(* ===== verification/Driver_Service.thy ===== *)
theory Driver_Service
  imports Driver_Entry
begin

text \<open>
  \<open>buildServiceEntry\<close> of the docker driver's compiler (\<open>entry.go\<close>): the compose service of one
  deployment and slot, its ingress route and the networks it names. Each block of the function is a
  definition; \<open>buildServiceEntry\<close> composes them in the order of the code.
\<close>

datatype driver_err =
    NotContained string string string        \<comment> \<open>deployment, element, root\<close>
  | MissingRelativePath string
  | MissingDirectory string
  | ResolvesOutside string string
  | WriteFailed string
  | NoCredentials string

section \<open>Environment\<close>

type_synonym env = "(string \<times> json) list"

definition set_env :: "string \<Rightarrow> string \<Rightarrow> env \<Rightarrow> env" where
  "set_env k v = AList.update k (JStr v)"

text \<open>Set only when the value is not empty.\<close>

definition set_env_ne :: "string \<Rightarrow> string \<Rightarrow> env \<Rightarrow> env" where
  "set_env_ne k v env = (if v = [] then env else set_env k v env)"

definition env_str :: "env \<Rightarrow> string \<Rightarrow> string" where
  "env_str env k = (case map_of env k of Some (JStr s) \<Rightarrow> s | _ \<Rightarrow> [])"

definition memReservationMB :: "deployment \<Rightarrow> int" where
  "memReservationMB conf =
     (case de_mem_reservation conf of Some n \<Rightarrow> if n > 0 then n else 50 | None \<Rightarrow> 50)"

definition memPolicy :: "deployment \<Rightarrow> string" where
  "memPolicy conf = (if de_mem_policy conf = ''always-on'' then ''always-on'' else ''on-demand'')"

definition deployment_context :: "deployment \<Rightarrow> string" where
  "deployment_context conf =
     (let stage = StageOrProduction conf;
          (bp, wt) = deriveBPAndCopy (de_relative_path conf);
          wtPart = (if wt \<noteq> [] then ''-copy-'' @ wt else []);
          stageSuffix = (if stage \<noteq> ''production'' then CHR ''-'' # stage else [])
      in if de_deployment_ctx conf \<noteq> [] then de_deployment_ctx conf
         else if bp \<noteq> [] then bp @ wtPart @ stageSuffix
         else if wt \<noteq> [] then ''copy-'' @ wt @ stageSuffix
         else if stage \<noteq> ''production'' then stage else [])"

text \<open>Database, prefix and bucket of the process: those of its registration, or the copy's own.\<close>

definition resource_names_for :: "compile_state \<Rightarrow> deployment \<Rightarrow> int \<Rightarrow> resource_names option" where
  "resource_names_for c conf db =
     (let stage = StageOrProduction conf;
          (bp, wt) = deriveBPAndCopy (de_relative_path conf)
      in if wt \<noteq> [] \<and> stage = ''live-dev'' \<and> bp \<noteq> [] then Some (copyBPResourceNames wt bp)
         else if bp \<noteq> [] \<and> isRegistered (cx_registry c) bp (stageForDeployment stage)
         then Some (bpResourceNames bp db) else None)"

definition resource_env :: "compile_state \<Rightarrow> deployment \<Rightarrow> int \<Rightarrow> env \<Rightarrow> env" where
  "resource_env c conf db env =
     (case resource_names_for c conf db of
        None \<Rightarrow> env
      | Some n \<Rightarrow> set_env ''S3_BUCKET'' (rn_s3_bucket n)
                   (set_env ''COUCHDB_DB_PREFIX'' (rn_couchdb_prefix n)
                     (set_env ''POSTGRES_DB'' (rn_postgres_db n) env)))"

definition url_template :: "platform \<Rightarrow> compile_state \<Rightarrow> deployment \<Rightarrow> string \<Rightarrow> string" where
  "url_template pf c conf slot =
     (let ctx = de_context conf; stage = StageOrProduction conf;
          sfx =
            (if ctx \<noteq> [] then
               (if stage \<noteq> ''production'' then ''-'' @ shortHash (pf_sha pf) ctx @ ''-'' @ stage
                else ''-'' @ shortHash (pf_sha pf) ctx)
             else if stage \<noteq> ''production'' then ''-'' @ stage else []);
          sfx' = (if slot \<noteq> [] then sfx @ ''-'' @ slot else sfx)
      in if cx_workspaceName c \<noteq> [] \<and> cx_domain c \<noteq> []
         then ''https://'' @ cx_workspaceName c @ ''-{name}'' @ sfx' @ ''.'' @ cx_domain c else [])"

definition base_env ::
    "platform \<Rightarrow> compile_state \<Rightarrow> deployment \<Rightarrow> string \<Rightarrow> int \<Rightarrow> string \<Rightarrow> string list \<Rightarrow> port_assignment option \<Rightarrow> env" where
  "base_env pf c conf slot db effectiveDepID workers assigned =
     (let stage = StageOrProduction conf;
          e0 = set_env ''BITSWAN_DEPLOYMENT_ID'' effectiveDepID
                 (set_env ''BITSWAN_AUTOMATION_STAGE'' stage (set_env ''DEPLOYMENT_ID'' effectiveDepID []));
          e1 = (if workers \<noteq> [] then set_env ''BITSWAN_WORKER_HOSTS'' (join_with CHR '','' workers) e0 else e0);
          e2 = (case assigned of
                  None \<Rightarrow> e1
                | Some a \<Rightarrow>
                    (let e = set_env ''PORT'' (format_int (pa_app a)) e1
                     in if pa_ui a \<noteq> 0 then set_env ''BITSWAN_UI_PORT'' (format_int (pa_ui a)) e else e));
          e3 = set_env_ne ''BITSWAN_GITOPS_DOMAIN'' (cx_domain c)
                 (set_env_ne ''BITSWAN_WORKSPACE_NAME'' (cx_workspaceName c) e2);
          e4 = set_env_ne ''BITSWAN_DEPLOYMENT_CONTEXT'' (deployment_context conf) e3;
          e5 = set_env_ne ''BITSWAN_URL_TEMPLATE'' (url_template pf c conf slot) (resource_env c conf db e4)
      in set_env_ne ''BITSWAN_IMAGE_CHECKSUM'' (de_tag_checksum conf)
           (set_env_ne ''BITSWAN_DEPLOY_CHECKSUM'' (de_checksum conf) e5))"

text \<open>\<open>strings.LastIndex\<close>, as the texts on both sides of the last occurrence.\<close>

definition split_last_sub :: "string \<Rightarrow> string \<Rightarrow> (string \<times> string) option" where
  "split_last_sub sub s =
     (case List.find (\<lambda>i. prefix sub (drop i s)) (rev [0..<Suc (length s)]) of
        None \<Rightarrow> None
      | Some i \<Rightarrow> Some (take i s, drop (i + length sub) s))"

definition keycloak_env :: "compile_state \<Rightarrow> string \<Rightarrow> env \<Rightarrow> env" where
  "keycloak_env c stage env =
     (let e0 = set_env_ne ''BITSWAN_AUTH_MODE'' (cx_authMode c) env;
          ku = cx_keycloakURL c;
          agent = ''https://agent-auth.'' @ cx_domain c;
          e1 = (if ku = [] then e0
                else
                  (let (url, realm) = (case split_last_sub ''/realms/'' ku of
                                         Some (a, b) \<Rightarrow> (a, b) | None \<Rightarrow> (ku, []));
                       e = set_env ''KEYCLOAK_REALM'' realm (set_env ''KEYCLOAK_URL'' url e0)
                   in if stage = ''live-dev'' \<and> cx_domain c \<noteq> []
                      then set_env ''BITSWAN_ISSUER_URLS'' (ku @ '','' @ agent)
                             (set_env ''KEYCLOAK_ISSUER_URL'' agent e)
                      else set_env ''KEYCLOAK_ISSUER_URL'' ku e));
          e2 = set_env_ne ''BITSWAN_ALLOWED_GROUP'' (cx_orgGroupPath c) e1
      in if cx_adminGroupPath c \<noteq> [] then set_env ''BITSWAN_ADMIN_GROUP'' (cx_adminGroupPath c) e2
         else if cx_orgGroupPath c \<noteq> [] then set_env ''BITSWAN_ADMIN_GROUP'' (cx_orgGroupPath c @ ''/admin'') e2
         else e2)"

section \<open>Sources\<close>

text \<open>The containment checks and the existence checks before anything is built; \<open>Inr None\<close> means
  that nothing is emitted.\<close>

definition check_sources ::
    "disk \<Rightarrow> compile_state \<Rightarrow> string \<Rightarrow> deployment \<Rightarrow> string \<Rightarrow> automation_config \<Rightarrow> driver_err + string option" where
  "check_sources d c depID conf source cfg =
     (case containedJoin (cx_gitopsDir c) source of
        None \<Rightarrow> Inl (NotContained depID source (cx_gitopsDir c))
      | Some sourceDir \<Rightarrow>
          (let stage = StageOrProduction conf; rel = de_relative_path conf in
           if rel \<noteq> [] \<and> containedJoin (cx_workspaceRepo c) rel = None
           then Inl (NotContained depID rel (cx_workspaceRepo c))
           else if stage = ''live-dev'' \<and> ac_image cfg = [] then Inr None
           else if stage = ''live-dev'' \<and> rel = [] then Inl (MissingRelativePath depID)
           else if stage \<noteq> ''live-dev'' \<and> de_image conf = [] \<and> \<not> path_exists d sourceDir
           then Inl (MissingDirectory sourceDir)
           else Inr (Some sourceDir)))"

section \<open>Secrets and credentials\<close>

definition appendEnvFile :: "string \<Rightarrow> string list \<Rightarrow> string list" where
  "appendEnvFile path ef = (if path \<in> set ef then ef else ef @ [path])"

text \<open>What the blocks about secrets work on: the \<open>env_file\<close> list, the environment and the labels.\<close>

record secret_part =
  sp_files :: "string list"
  sp_env :: env
  sp_labels :: "(string \<times> string) list"

definition bp_secrets ::
    "platform \<Rightarrow> compile_state \<Rightarrow> deployment \<Rightarrow> string \<Rightarrow> bool \<Rightarrow> secret_part \<Rightarrow> disk \<Rightarrow>
       (driver_err + secret_part) \<times> disk" where
  "bp_secrets pf c conf slot expose sp d =
     (let stage = StageOrProduction conf;
          bp = fst (deriveBPAndCopy (de_relative_path conf))
      in if bp = [] \<or> expose then (Inr sp, d)
         else
           (let blob = (case map_of (bs_secrets (cx_bs c)) bp of
                          None \<Rightarrow> [] | Some byRealm \<Rightarrow> env_get byRealm (realmForStage stage));
                (vals, d1) = (if blob \<noteq> [] then decryptSecrets pf (cx_secretsDir c) blob d else (None, d));
                values = (case vals of None \<Rightarrow> [] | Some vs \<Rightarrow> vs)
            in case materializeEnv pf (cx_secretsDir c) bp stage values d1 of
                 (None, d2) \<Rightarrow> (Inl (WriteFailed (bpSecretEnvFilePath (cx_secretsDir c) bp stage)), d2)
               | (Some path, d2) \<Rightarrow>
                   (let h = secretsContentHash pf values;
                        sp1 = sp\<lparr>sp_files := appendEnvFile path (sp_files sp)\<rparr>
                    in (Inr (if slot = [] \<and> h \<noteq> []
                             then sp1\<lparr>sp_labels := AList.update ''gitops.secrets_hash'' h (sp_labels sp1)\<rparr>
                             else sp1), d2))))"

definition copyS3Coordinates :: "disk \<Rightarrow> compile_state \<Rightarrow> string \<Rightarrow> env \<Rightarrow> env" where
  "copyS3Coordinates d c realm env =
     (case serviceSecrets d (cx_secretsDir c) ''garage'' realm of
        None \<Rightarrow> env
      | Some g \<Rightarrow> set_env_ne ''S3_PORT'' (env_get g ''S3_PORT'') (set_env_ne ''S3_HOST'' (env_get g ''S3_HOST'') env))"

definition scoped_postgres ::
    "platform \<Rightarrow> compile_state \<Rightarrow> string \<Rightarrow> secret_part \<Rightarrow> disk \<Rightarrow> (driver_err + secret_part) \<times> disk" where
  "scoped_postgres pf c credRealm sp d =
     (let pgDB = env_str (sp_env sp) ''POSTGRES_DB'' in
      if pgDB = [] then (Inr sp, d)
      else case getOrCreateDBCreds pf (cx_secretsDir c) credRealm pgDB d of
          (None, d1) \<Rightarrow> (Inl (NoCredentials (dbCredsPath (cx_secretsDir c) credRealm pgDB)), d1)
        | (Some creds, d1) \<Rightarrow>
            (Inr (sp\<lparr>sp_files := appendEnvFile (dbCredsPath (cx_secretsDir c) credRealm pgDB) (sp_files sp),
                     sp_env :=
                       (case serviceSecrets d1 (cx_secretsDir c) ''postgres'' credRealm of
                          None \<Rightarrow> sp_env sp
                        | Some pg \<Rightarrow> set_env_ne ''POSTGRES_PORT'' (env_get pg ''POSTGRES_PORT'')
                                       (set_env_ne ''POSTGRES_HOST'' (env_get pg ''POSTGRES_HOST'') (sp_env sp)))\<rparr>), d1))"

text \<open>Attach the credentials of one bucket (the process's own, or the realm's system key).\<close>

definition attach_bucket ::
    "platform \<Rightarrow> compile_state \<Rightarrow> string \<Rightarrow> string \<Rightarrow> secret_part \<Rightarrow> disk \<Rightarrow> (driver_err + secret_part) \<times> disk" where
  "attach_bucket pf c credRealm bucket sp d =
     (case ensureBucketCredsFile pf (cx_secretsDir c) credRealm bucket d of
        (False, d1) \<Rightarrow> (Inl (WriteFailed (bucketCredsPath (cx_secretsDir c) credRealm bucket)), d1)
      | (True, d1) \<Rightarrow>
          (Inr (sp\<lparr>sp_files := appendEnvFile (bucketCredsPath (cx_secretsDir c) credRealm bucket) (sp_files sp),
                   sp_env := copyS3Coordinates d1 c credRealm (sp_env sp)\<rparr>), d1))"

definition isKnownInfraType :: "string \<Rightarrow> bool" where
  "isKnownInfraType svcType \<longleftrightarrow>
     svcType = ''couchdb'' \<or> svcType = ''garage'' \<or> svcType = ''postgres'' \<or> svcType = ''kafka''"

definition serviceSuffix :: "string \<Rightarrow> string" where
  "serviceSuffix stage = (if stage = ''production'' \<or> stage = [] then [] else ''-'' @ stage)"

definition infraServiceSecretsName :: "string \<Rightarrow> string \<Rightarrow> string" where
  "infraServiceSecretsName svcType stage = svcType @ serviceSuffix stage"

definition resolveServiceSecrets :: "automation_config \<Rightarrow> string \<Rightarrow> string list" where
  "resolveServiceSecrets cfg stage =
     map (\<lambda>svc. infraServiceSecretsName (sd_type svc) (stageForDeployment stage))
       (filter (\<lambda>svc. sd_enabled svc \<and> isKnownInfraType (sd_type svc)) (ac_services cfg))"

text \<open>One service the automation depends on; an error stays.\<close>

definition service_secret ::
    "platform \<Rightarrow> compile_state \<Rightarrow> string \<Rightarrow> bool \<Rightarrow> bool \<Rightarrow> string \<Rightarrow>
       (driver_err + secret_part) \<times> disk \<Rightarrow> (driver_err + secret_part) \<times> disk" where
  "service_secret pf c credRealm scopedPG scopedS3 secretName r =
     (case r of
        (Inl e, d) \<Rightarrow> (Inl e, d)
      | (Inr sp, d) \<Rightarrow>
          if scopedPG \<and> prefix ''postgres'' secretName then (Inr sp, d)
          else if prefix ''garage'' secretName then
            (if scopedS3 then (Inr sp, d) else attach_bucket pf c credRealm systemKeyName sp d)
          else
            (let p = filepath_Join [cx_secretsDir c, secretName] in
             (Inr (if path_exists d p then sp\<lparr>sp_files := appendEnvFile p (sp_files sp)\<rparr> else sp), d)))"

definition attach_secrets ::
    "platform \<Rightarrow> compile_state \<Rightarrow> deployment \<Rightarrow> string \<Rightarrow> automation_config \<Rightarrow> secret_part \<Rightarrow> disk \<Rightarrow>
       (driver_err + secret_part) \<times> disk" where
  "attach_secrets pf c conf slot cfg sp0 d0 =
     (let stage = StageOrProduction conf;
          credRealm = realmForStage stage;
          scopedPG = (env_str (sp_env sp0) ''POSTGRES_DB'' \<noteq> []);
          s3Bucket = env_str (sp_env sp0) ''S3_BUCKET''
      in case bp_secrets pf c conf slot (ac_expose cfg) sp0 d0 of
           (Inl e, d1) \<Rightarrow> (Inl e, d1)
         | (Inr sp1, d1) \<Rightarrow>
             (case scoped_postgres pf c credRealm sp1 d1 of
                (Inl e, d2) \<Rightarrow> (Inl e, d2)
              | (Inr sp2, d2) \<Rightarrow>
                  fold (service_secret pf c credRealm scopedPG (s3Bucket \<noteq> [])) (resolveServiceSecrets cfg stage)
                    (if s3Bucket \<noteq> [] then attach_bucket pf c credRealm s3Bucket sp2 d2 else (Inr sp2, d2))))"

section \<open>Networks, route and mounts\<close>

text \<open>The gateway whose network namespace the worker joins, if any.\<close>

definition joined_gateway :: "fw_scope \<Rightarrow> deployment \<Rightarrow> string \<Rightarrow> automation_config \<Rightarrow> fw_group option" where
  "joined_gateway scope conf slot cfg =
     (case fwActive scope (de_context conf) (StageOrProduction conf) slot of
        Some fw \<Rightarrow> if \<not> ac_expose cfg \<or> fg_mode fw = ''enforce'' then Some fw else None
      | None \<Rightarrow> None)"

definition networks_list :: "compile_state \<Rightarrow> deployment \<Rightarrow> automation_config \<Rightarrow> string list" where
  "networks_list c conf cfg =
     (if ac_external_testing cfg then [''bitswan_external_testing'']
      else [stageNetwork c (realmForStage (StageOrProduction conf))])"

text \<open>The networks with the aliases: a scaled service has its name, a public one its host name. (The
  latter is never the former, so the code's check for a duplicate always appends.)\<close>

definition service_networks ::
    "compile_state \<Rightarrow> deployment \<Rightarrow> automation_config \<Rightarrow> bool \<Rightarrow> int \<Rightarrow> string \<Rightarrow> networks" where
  "service_networks c conf cfg joined port serviceName =
     (let nets = networks_list c conf cfg;
          urlHost = serviceName @ ''.'' @ cx_domain c;
          public = (ac_expose cfg \<and> port \<noteq> 0 \<and> cx_domain c \<noteq> [])
      in if joined then NetNone
         else if ReplicasOrOne conf > 1 then
           NetAliases (map (\<lambda>n. (n, if public then [serviceName, urlHost] else [serviceName])) nets)
         else if public then NetAliases (map (\<lambda>n. (n, [urlHost])) nets)
         else NetList nets)"

definition publishes :: "compile_state \<Rightarrow> deployment \<Rightarrow> string \<Rightarrow> bool" where
  "publishes c conf slot \<longleftrightarrow>
     slot = [] \<or> slot = liveSlotFor c conf \<or> slot = drSlotFor c conf"

definition role_stage :: "compile_state \<Rightarrow> deployment \<Rightarrow> string \<Rightarrow> string" where
  "role_stage c conf slot =
     (if slot \<noteq> [] \<and> slot = drSlotFor c conf then ''dr'' else StageOrProduction conf)"

definition service_route ::
    "platform \<Rightarrow> compile_state \<Rightarrow> string \<Rightarrow> deployment \<Rightarrow> string \<Rightarrow> fw_group option \<Rightarrow> int \<Rightarrow> route" where
  "service_route pf c depID conf slot joined port =
     (let r = workspaceRoute pf c (AutomationNameOr conf depID) (de_context conf) (StageOrProduction conf)
                port slot (role_stage c conf slot)
      in case joined of
           Some fw \<Rightarrow> r\<lparr>rt_upstream := fg_gw fw @ '':'' @ format_int port\<rparr>
         | None \<Rightarrow> r)"

definition url_env ::
    "platform \<Rightarrow> compile_state \<Rightarrow> string \<Rightarrow> deployment \<Rightarrow> string \<Rightarrow> env \<Rightarrow> env" where
  "url_env pf c depID conf slot env =
     set_env ''BITSWAN_URL_SUFFIX'' (''.'' @ cx_domain c)
       (set_env ''BITSWAN_URL_PREFIX'' (''https://'' @ cx_workspaceName c @ ''-'')
         (set_env ''BITSWAN_AUTOMATION_URL''
           (''https://'' @ cx_label pf c (AutomationNameOr conf depID) (de_context conf) (role_stage c conf slot) []
              @ ''.'' @ cx_domain c) env))"

function normalizeSubpath :: "string \<Rightarrow> string" where
  "normalizeSubpath p =
     (if prefix ''./'' p then normalizeSubpath (drop 2 p)
      else if prefix ''/'' p then normalizeSubpath (drop 1 p) else p)"
  by pat_completeness auto
termination by (relation "measure length") (auto simp: prefix_def)

declare normalizeSubpath.simps [simp del]

definition source_mount ::
    "platform \<Rightarrow> compile_state \<Rightarrow> string \<Rightarrow> deployment \<Rightarrow> string \<Rightarrow> string \<Rightarrow> string \<Rightarrow> string \<Rightarrow>
       driver_err + mount list" where
  "source_mount pf c depID conf source sourceDir deploymentDirHost mountPath =
     (let rel = de_relative_path conf in
      if StageOrProduction conf = ''live-dev'' \<and> rel \<noteq> [] then
        (if cx_volumeName c \<noteq> [] then
           Inr [Subpath (cx_volumeName c) mountPath
                  (normalizeSubpath (''workspaces/'' @ cx_workspaceName c @ ''/'' @ rel)) True]
         else
           (case containedJoin (cx_workspaceDir c) rel of
              None \<Rightarrow> Inl (NotContained depID rel (cx_workspaceDir c))
            | Some p \<Rightarrow>
                if assertRealUnder (pf_real pf) (cx_workspaceRepo c) (filepath_Join [cx_workspaceRepo c, rel])
                then Inr [Bind (p @ '':'' @ mountPath @ '':ro'')]
                else Inl (ResolvesOutside depID rel)))
      else if de_image conf \<noteq> [] then Inr []
      else if cx_volumeName c \<noteq> [] then
        Inr [Subpath (cx_volumeName c) mountPath
               (normalizeSubpath (''workspaces/'' @ cx_workspaceName c @ ''/gitops/'' @ source)) True]
      else if assertRealUnder (pf_real pf) (cx_gitopsDir c) sourceDir
      then Inr [Bind (deploymentDirHost @ '':'' @ mountPath @ '':ro'')]
      else Inl (ResolvesOutside depID source))"

section \<open>The service\<close>

record built =
  bt_entry :: service
  bt_name :: string
  bt_route :: "route option"
  bt_emit :: bool
  bt_conf :: deployment                  \<comment> \<open>the record, with the services found on disk\<close>
  bt_networks :: "string list"           \<comment> \<open>added to the external networks\<close>

definition service_labels ::
    "compile_state \<Rightarrow> string \<Rightarrow> deployment \<Rightarrow> string \<Rightarrow> string \<Rightarrow> (string \<times> string) list" where
  "service_labels c depID conf slot effectiveDepID =
     (let bp = fst (deriveBPAndCopy (de_relative_path conf)) in
      [(''gitops.deployment_id'', effectiveDepID),
       (''gitops.workspace'', cx_workspaceName c),
       (''gitops.automation_name'', AutomationNameOr conf depID),
       (''gitops.context'', de_context conf),
       (''gitops.bp'', if bp = [] then de_context conf else bp),
       (''gitops.stage'', StageOrProduction conf),
       (''gitops.slot'', slot),
       (''gitops.intended_exposed'', ''false''),
       (''gitops.mem_reservation_mb'', format_int (memReservationMB conf)),
       (''gitops.mem_policy'', memPolicy conf)])"

text \<open>The services declared on disk, for a record that names none.\<close>

definition with_disk_services :: "automation_config \<Rightarrow> deployment \<Rightarrow> deployment" where
  "with_disk_services cfg conf =
     (if hasServices cfg \<and> de_services conf = []
      then conf\<lparr>de_services := map (\<lambda>svc. (sd_type svc, JObj [(''enabled'', JBool (sd_enabled svc))])) (ac_services cfg)\<rparr>
      else conf)"

definition net_names :: "networks \<Rightarrow> string list" where
  "net_names n = (case n of NetNone \<Rightarrow> [] | NetList ns \<Rightarrow> ns | NetAliases ns \<Rightarrow> map fst ns)"

definition service_source :: "string \<Rightarrow> deployment \<Rightarrow> string" where
  "service_source depID conf = firstNonEmpty (firstNonEmpty (de_source conf) (de_checksum conf)) depID"

text \<open>The service itself, once secrets and mounts are known.\<close>

definition service_of ::
    "compile_state \<Rightarrow> deployment \<Rightarrow> automation_config \<Rightarrow> fw_group option \<Rightarrow> int \<Rightarrow> string \<Rightarrow>
       env \<Rightarrow> (string \<times> string) list \<Rightarrow> string list \<Rightarrow> mount list \<Rightarrow> service" where
  "service_of c conf cfg joined port serviceName env labels files mounts =
     empty_service
       \<lparr>sv_image := (if StageOrProduction conf \<noteq> ''live-dev'' \<and> de_image conf \<noteq> [] then de_image conf
                     else ac_image cfg),
        sv_container_name := (if ReplicasOrOne conf \<le> 1 then Some serviceName else None),
        sv_restart := ''always'',
        sv_environment := (if cx_certsDirHost c \<noteq> [] then set_env ''UPDATE_CA_CERTIFICATES'' ''true'' env else env),
        sv_labels := (if cx_certsDirHost c \<noteq> [] then AList.update ''gitops.certs.enabled'' ''true'' labels else labels),
        sv_env_file := files,
        sv_cap_drop := (if joined \<noteq> None then [''NET_ADMIN'', ''NET_RAW''] else []),
        sv_depends_on := map_option fg_gw joined,
        sv_network_mode := map_option (\<lambda>fw. ''service:'' @ fg_gw fw) joined,
        sv_networks := service_networks c conf cfg (joined \<noteq> None) port serviceName,
        sv_replicas := (if joined = None \<and> ReplicasOrOne conf > 1 then Some (ReplicasOrOne conf) else None),
        sv_volumes :=
          (if cx_certsDirHost c \<noteq> [] then [Bind (cx_certsDirHost c @ '':/usr/local/share/ca-certificates/custom:ro'')]
           else []) @ mounts,
        sv_nofile := Some 65536\<rparr>"

text \<open>The result for one slot, from what the blocks computed; \<open>port\<close> is the port the worker listens on.\<close>

definition built_of ::
    "platform \<Rightarrow> compile_state \<Rightarrow> string \<Rightarrow> deployment \<Rightarrow> string \<Rightarrow> automation_config \<Rightarrow> fw_group option \<Rightarrow> int \<Rightarrow>
       secret_part \<Rightarrow> mount list \<Rightarrow> built" where
  "built_of pf c depID conf slot cfg joined port sp mounts =
     (let stage = StageOrProduction conf;
          serviceName = cx_label pf c (AutomationNameOr conf depID) (de_context conf) stage slot;
          exposed = (ac_expose cfg \<and> port \<noteq> 0);
          published = (exposed \<and> publishes c conf slot);
          env1 = (if exposed then url_env pf c depID conf slot (sp_env sp) else sp_env sp);
          labels1 = (if published then AList.update ''gitops.intended_exposed'' ''true'' (sp_labels sp) else sp_labels sp);
          entry = service_of c conf cfg joined port serviceName (keycloak_env c stage env1) labels1 (sp_files sp) mounts
      in \<lparr>bt_entry = entry, bt_name = serviceName,
          bt_route = (if published then Some (service_route pf c depID conf slot joined port) else None),
          bt_emit = EnabledOrDefault conf, bt_conf = conf, bt_networks = net_names (sv_networks entry)\<rparr>)"

text \<open>The function after its checks, with the slot's gateway, port assignment and peers at hand.\<close>

definition build_checked ::
    "platform \<Rightarrow> compile_state \<Rightarrow> string \<Rightarrow> deployment \<Rightarrow> string \<Rightarrow> int \<Rightarrow> automation_config \<Rightarrow> fw_group option \<Rightarrow>
       port_assignment option \<Rightarrow> string list \<Rightarrow> string \<Rightarrow> disk \<Rightarrow> (driver_err + built) \<times> disk" where
  "build_checked pf c depID conf slot db cfg joined assigned workers sourceDir d =
     (let effectiveDepID = (if slot = [] \<or> slot = liveSlotFor c conf then depID else depID @ ''@'' @ slot);
          source = service_source depID conf;
          sp0 = \<lparr>sp_files = [], sp_env = base_env pf c conf slot db effectiveDepID workers assigned,
                 sp_labels = service_labels c depID conf slot effectiveDepID\<rparr>
      in case attach_secrets pf c conf slot cfg sp0 d of
           (Inl e, d1) \<Rightarrow> (Inl e, d1)
         | (Inr sp, d1) \<Rightarrow>
             (case containedJoin (cx_gitopsDirHost c) source of
                None \<Rightarrow> (Inl (NotContained depID source (cx_gitopsDirHost c)), d1)
              | Some hostDir \<Rightarrow>
                  (case source_mount pf c depID conf source sourceDir hostDir (ac_mount_path cfg) of
                     Inl e \<Rightarrow> (Inl e, d1)
                   | Inr mounts \<Rightarrow>
                       (Inr (built_of pf c depID conf slot cfg joined
                               (case assigned of Some a \<Rightarrow> pa_app a | None \<Rightarrow> ac_port cfg) sp mounts), d1))))"

definition buildServiceEntry ::
    "platform \<Rightarrow> compile_state \<Rightarrow> string \<Rightarrow> deployment \<Rightarrow> string \<Rightarrow> int \<Rightarrow> worker_hosts \<Rightarrow> fw_scope \<Rightarrow> disk \<Rightarrow>
       (driver_err + built) \<times> disk" where
  "buildServiceEntry pf c depID conf slot db wh scope d =
     (let key = FwKey (de_context conf) (StageOrProduction conf) slot;
          cfg = resolveAutomationConfig pf d c conf
      in case check_sources d c depID conf (service_source depID conf) cfg of
           Inl e \<Rightarrow> (Inl e, d)
         | Inr None \<Rightarrow>
             (Inr \<lparr>bt_entry = empty_service, bt_name = [], bt_route = None, bt_emit = False, bt_conf = conf,
                   bt_networks = []\<rparr>, d)
         | Inr (Some sourceDir) \<Rightarrow>
             build_checked pf c depID (with_disk_services cfg conf) slot db cfg (joined_gateway scope conf slot cfg)
               (map_of (wh_ports wh) (key, AutomationNameOr conf depID))
               (case map_of (wh_out wh) key of Some hs \<Rightarrow> hs | None \<Rightarrow> []) sourceDir d)"

section \<open>Facts\<close>

lemma with_disk_services_fields [simp]:
  "de_context (with_disk_services cfg conf) = de_context conf"
  "de_stage (with_disk_services cfg conf) = de_stage conf"
  "de_automation_name (with_disk_services cfg conf) = de_automation_name conf"
  "de_enabled (with_disk_services cfg conf) = de_enabled conf"
  "de_active (with_disk_services cfg conf) = de_active conf"
  "de_replicas (with_disk_services cfg conf) = de_replicas conf"
  "de_relative_path (with_disk_services cfg conf) = de_relative_path conf"
  "de_image (with_disk_services cfg conf) = de_image conf"
  "de_source (with_disk_services cfg conf) = de_source conf"
  "de_checksum (with_disk_services cfg conf) = de_checksum conf"
  "StageOrProduction (with_disk_services cfg conf) = StageOrProduction conf"
  "service_source depID (with_disk_services cfg conf) = service_source depID conf"
  by (simp_all add: with_disk_services_def StageOrProduction_def service_source_def)

lemma build_checked_emit:
  assumes "build_checked pf c depID conf slot db cfg joined assigned workers sourceDir d = (Inr b, d')"
  obtains sp hostDir mounts effectiveDepID where
    "attach_secrets pf c conf slot cfg
       \<lparr>sp_files = [], sp_env = base_env pf c conf slot db effectiveDepID workers assigned,
        sp_labels = service_labels c depID conf slot effectiveDepID\<rparr> d = (Inr sp, d')"
    "containedJoin (cx_gitopsDirHost c) (service_source depID conf) = Some hostDir"
    "source_mount pf c depID conf (service_source depID conf) sourceDir hostDir (ac_mount_path cfg) = Inr mounts"
    "b = built_of pf c depID conf slot cfg joined
       (case assigned of Some a \<Rightarrow> pa_app a | None \<Rightarrow> ac_port cfg) sp mounts"
  using assms unfolding build_checked_def Let_def
  by (auto split: prod.splits sum.splits option.splits)

lemma buildServiceEntry_emit:
  assumes "buildServiceEntry pf c depID conf slot db wh scope d = (Inr b, d')" "bt_emit b"
  obtains cfg sourceDir assigned workers where
    "cfg = resolveAutomationConfig pf d c conf"
    "check_sources d c depID conf (service_source depID conf) cfg = Inr (Some sourceDir)"
    "build_checked pf c depID (with_disk_services cfg conf) slot db cfg (joined_gateway scope conf slot cfg)
       assigned workers sourceDir d = (Inr b, d')"
  using assms unfolding buildServiceEntry_def Let_def
  by (auto split: sum.splits option.splits)

lemma bt_conf_built:
  "buildServiceEntry pf c depID conf slot db wh scope d = (Inr b, d') \<Longrightarrow>
     \<exists>cfg. bt_conf b = conf \<or> bt_conf b = with_disk_services cfg conf"
  unfolding buildServiceEntry_def Let_def
  by (auto simp: built_of_def Let_def split: sum.splits option.splits elim!: build_checked_emit)

end
