(* ===== verification/Driver_Compile.thy ===== *)
theory Driver_Compile
  imports Driver_Service
begin

text \<open>
  The compose project of a workspace (\<open>compile.go\<close>, \<open>infra.go\<close> and \<open>emitGateways\<close> of \<open>entry.go\<close> in
  \<open>internal/infradriver/dockerdriver\<close>): the services of the deployments, a gateway and its proxy
  for each firewall group, the shared infrastructure services, and the networks and volumes they
  name. The YAML text of the project is its value.
\<close>

section \<open>Egress gateways\<close>

type_synonym services = "(string \<times> service) list"

definition healthcheck :: "string \<Rightarrow> json" where
  "healthcheck cmd =
     JObj [(''test'', JArr [JStr ''CMD-SHELL'', JStr cmd]), (''interval'', JStr ''3s''), (''timeout'', JStr ''3s''),
           (''retries'', JInt 10), (''start_period'', JStr ''2s'')]"

definition firewall_mount :: "compile_state \<Rightarrow> mount" where
  "firewall_mount c =
     (if cx_volumeName c \<noteq> [] then
        Subpath (cx_volumeName c) ''/firewall'' (''workspaces/'' @ cx_workspaceName c @ ''/firewall'') False
      else Bind (filepath_Join [filepath_Dir (cx_gitopsDirHost c), ''firewall''] @ '':/firewall''))"

definition gateway_labels :: "compile_state \<Rightarrow> string \<Rightarrow> fw_key \<Rightarrow> fw_group \<Rightarrow> (string \<times> string) list" where
  "gateway_labels c mark k g =
     [(mark, ''true''), (''gitops.bp'', fg_bp g), (''gitops.workspace'', cx_workspaceName c),
      (''gitops.context'', fk_ctx k), (''gitops.stage'', fk_stage k), (''gitops.slot'', fk_slot k)]"

definition proxy_name :: "fw_group \<Rightarrow> string" where "proxy_name g = fg_gw g @ ''-proxy''"

definition proxy_service :: "compile_state \<Rightarrow> fw_key \<Rightarrow> fw_group \<Rightarrow> service" where
  "proxy_service c k g =
     (let slotTag = (if fk_slot k \<noteq> [] then ''__'' @ fk_slot k else []) in
      empty_service
       \<lparr>sv_image := cx_gatewayImage c,
        sv_pull_policy := Some ''missing'',
        sv_container_name := Some (proxy_name g),
        sv_restart := ''unless-stopped'',
        sv_cap_add := [''NET_ADMIN''],
        sv_sysctls := [''net.ipv4.ip_forward=1''],
        sv_environment :=
          [(''BITSWAN_FW_ROLE'', JStr ''proxy''), (''BITSWAN_FW_MODE'', JStr (fg_mode g)),
           (''BITSWAN_FW_ALLOW'', JStr (join_with CHR '','' (fg_allow g))),
           (''BITSWAN_FW_ATTEMPTS'',
              JStr (''/firewall/'' @ fg_bp g @ ''__'' @ fg_realm g @ slotTag @ ''.attempts.jsonl''))],
        sv_networks := NetAliases [(stageNetwork c (fg_realm g), [proxy_name g])],
        sv_volumes := [firewall_mount c],
        sv_healthcheck := Some (healthcheck ''nc -z 127.0.0.1 18077''),
        sv_labels := gateway_labels c ''gitops.firewall_proxy'' k g\<rparr>)"

definition owner_service :: "compile_state \<Rightarrow> fw_key \<Rightarrow> fw_group \<Rightarrow> service" where
  "owner_service c k g =
     empty_service
       \<lparr>sv_image := cx_gatewayImage c,
        sv_pull_policy := Some ''missing'',
        sv_container_name := Some (fg_gw g),
        sv_restart := ''unless-stopped'',
        sv_cap_add := [''NET_ADMIN''],
        sv_networks := NetAliases [(stageNetwork c (fg_realm g), [fg_gw g])],
        sv_environment :=
          [(''BITSWAN_FW_ROLE'', JStr ''owner''), (''BITSWAN_FW_MODE'', JStr (fg_mode g)),
           (''BITSWAN_FW_PROXY'', JStr (proxy_name g))],
        sv_depends_on := Some (proxy_name g),
        sv_healthcheck := Some (healthcheck ''test -f /tmp/fw-ready''),
        sv_labels := gateway_labels c ''gitops.firewall_gateway'' k g\<rparr>"

definition add_gateway :: "compile_state \<Rightarrow> fw_scope \<Rightarrow> fw_key \<Rightarrow> services \<Rightarrow> services" where
  "add_gateway c scope k services =
     (case map_of scope k of
        None \<Rightarrow> services
      | Some g \<Rightarrow>
          if fg_ok g then
            AList.update (fg_gw g) (owner_service c k g)
              (AList.update (proxy_name g) (proxy_service c k g) services)
          else services)"

text \<open>The services and the external networks with the gateways, or the error that the directory of
  the attempts files cannot be made.\<close>

definition emitGateways ::
    "platform \<Rightarrow> compile_state \<Rightarrow> fw_scope \<Rightarrow> services \<Rightarrow> string list \<Rightarrow> driver_err + services \<times> string list" where
  "emitGateways pf c scope services nets =
     (if \<not> (\<exists>kg\<in>set scope. fg_ok (snd kg)) then Inr (services, nets)
      else if \<not> pf_writable pf (cx_firewallDir c) then Inl (WriteFailed (cx_firewallDir c))
      else
        Inr (fold (add_gateway c scope) (sort (map fst scope)) services,
             nets @ map (\<lambda>(k, g). stageNetwork c (fg_realm g)) (filter (\<lambda>kg. fg_ok (snd kg)) scope)))"

section \<open>Infrastructure services\<close>

record infra_names =
  in_suffix :: string
  in_secretsName :: string
  in_secretsPath :: string
  in_containerName :: string
  in_volumeName :: string
  in_workspaceName :: string

definition infraNamesFor :: "string \<Rightarrow> string \<Rightarrow> string \<Rightarrow> string \<Rightarrow> infra_names" where
  "infraNamesFor secretsDir workspaceName svcType stage =
     (let sfx = serviceSuffix stage in
      \<lparr>in_suffix = sfx, in_secretsName = svcType @ sfx,
       in_secretsPath = filepath_Join [secretsDir, svcType @ sfx],
       in_containerName = workspaceName @ ''__'' @ svcType @ sfx,
       in_volumeName = workspaceName @ ''-'' @ svcType @ sfx @ ''-data'',
       in_workspaceName = workspaceName\<rparr>)"

definition infraEnabled :: "disk \<Rightarrow> string \<Rightarrow> string \<Rightarrow> string \<Rightarrow> bool" where
  "infraEnabled d secretsDir svcType stage =
     path_exists d (in_secretsPath (infraNamesFor secretsDir [] svcType stage))"

text \<open>A template: its services and the volumes it declares. Every template declares the external
  network \<open>bitswan_network\<close>.\<close>

record infra_compose =
  ic_services :: services
  ic_volumes :: "string list"

definition infra_service :: "infra_names \<Rightarrow> string \<Rightarrow> string \<Rightarrow> service" where
  "infra_service n img container =
     empty_service\<lparr>sv_image := img, sv_container_name := Some container, sv_restart := ''unless-stopped'',
       sv_networks := NetList [''bitswan_network''],
       sv_labels := [(''gitops.workspace'', in_workspaceName n)]\<rparr>"

definition couchdbCompose :: "infra_names \<Rightarrow> infra_compose" where
  "couchdbCompose n =
     \<lparr>ic_services =
        [(''couchdb'' @ in_suffix n,
          (infra_service n ''couchdb:3.3'' (in_containerName n))
            \<lparr>sv_env_file := [in_secretsPath n], sv_volumes := [Bind (in_volumeName n @ '':/opt/couchdb/data'')]\<rparr>)],
      ic_volumes = [in_volumeName n]\<rparr>"

definition garageAlias :: "infra_names \<Rightarrow> string" where
  "garageAlias n = in_workspaceName n @ ''-garage'' @ in_suffix n"

definition garageConfigMount :: "compile_state \<Rightarrow> infra_names \<Rightarrow> mount" where
  "garageConfigMount c n =
     (let fname = in_secretsName n @ ''.toml'' in
      if cx_volumeName c \<noteq> [] then
        Subpath (cx_volumeName c) ''/etc/garage.toml''
          (normalizeSubpath (''workspaces/'' @ cx_workspaceName c @ ''/secrets/'' @ fname)) True
      else Bind (filepath_Join [cx_gitopsDirHost c, ''secrets'', fname] @ '':/etc/garage.toml:ro''))"

definition infra_healthcheck :: "json list \<Rightarrow> string \<Rightarrow> json" where
  "infra_healthcheck test start =
     JObj [(''test'', JArr test), (''interval'', JStr ''5s''), (''timeout'', JStr ''3s''), (''retries'', JInt 30),
           (''start_period'', JStr start), (''start_interval'', JStr ''250ms'')]"

definition garageCompose :: "compile_state \<Rightarrow> infra_names \<Rightarrow> infra_compose" where
  "garageCompose c n =
     (let metaVol = take (length (in_volumeName n) - length ''-data'') (in_volumeName n) @ ''-meta'' in
      \<lparr>ic_services =
         [(''garage'' @ in_suffix n,
           (infra_service n ''dxflrs/garage:v2.3.0'' (in_containerName n))
             \<lparr>sv_command := [''/garage'', ''server'', ''--single-node''],
              sv_env_file := [in_secretsPath n],
              sv_volumes := [Bind (metaVol @ '':/meta''), Bind (in_volumeName n @ '':/data''), garageConfigMount c n],
              sv_networks := NetAliases [(''bitswan_network'', [garageAlias n])],
              sv_healthcheck :=
                Some (infra_healthcheck (map JStr [''CMD'', ''/garage'', ''json-api'', ''GetClusterHealth'']) ''15s'')\<rparr>),
          (''garage'' @ in_suffix n @ ''-toolbox'',
           (infra_service n ''rclone/rclone:1.68'' (in_containerName n @ ''-toolbox''))
             \<lparr>sv_entrypoint := [''sleep'', ''infinity'']\<rparr>)],
       ic_volumes = [metaVol, in_volumeName n]\<rparr>)"

definition quoted :: "string \<Rightarrow> string" where "quoted s = [CHR 0x22] @ s @ [CHR 0x22]"

definition postgresCompose :: "infra_names \<Rightarrow> infra_compose" where
  "postgresCompose n =
     \<lparr>ic_services =
        [(''postgres'' @ in_suffix n,
          (infra_service n ''postgres:16'' (in_containerName n))
            \<lparr>sv_env_file := [in_secretsPath n],
             sv_volumes := [Bind (in_volumeName n @ ''-data:/var/lib/postgresql/data'')],
             sv_healthcheck :=
               Some (infra_healthcheck
                 [JStr ''CMD-SHELL'', JStr (''pg_isready -U '' @ quoted ''$$POSTGRES_USER'' @ '' -q'')]
                 ''30s'')\<rparr>)],
      ic_volumes = [in_volumeName n @ ''-data'']\<rparr>"

definition splitEnvLine :: "string \<Rightarrow> (string \<times> string) option" where
  "splitEnvLine raw =
     (let strip = (\<lambda>c. c = CHR '' '' \<or> c = CHR 0x09 \<or> c = CHR 0x0D \<or> c = CHR 0x0A);
          line = rev (dropWhile strip (rev (dropWhile strip raw)))
      in if line = [] \<or> hd line = CHR ''#'' \<or> CHR ''='' \<notin> set line then None else Some (cut_eq line))"

definition readKafkaClusterID :: "disk \<Rightarrow> string \<Rightarrow> string \<Rightarrow> string" where
  "readKafkaClusterID d secretsDir sfx =
     (case dk_file d (filepath_Join [secretsDir, ''kafka'' @ sfx]) of
        None \<Rightarrow> []
      | Some data \<Rightarrow>
          (case List.find (\<lambda>(k, v). k = ''KAFKA_CLUSTER_ID'' \<or> k = ''CLUSTER_ID'')
                  (List.map_filter splitEnvLine (split_on newline data)) of
             None \<Rightarrow> []
           | Some (k, v) \<Rightarrow> v))"

definition kafkaEntrypointScript :: string where
  "kafkaEntrypointScript =
     concat (map (\<lambda>l. l @ [newline])
       [''cat > /etc/kafka/kafka_server_jaas.conf <<JAASEOF'',
        ''KafkaServer {'',
        ''   org.apache.kafka.common.security.plain.PlainLoginModule required'',
        ''   username='' @ quoted ''admin'',
        ''   password='' @ quoted ''$$KAFKA_ADMIN_PASSWORD'',
        ''   user_admin='' @ quoted ''$$KAFKA_ADMIN_PASSWORD'' @ '';'',
        ''};'',
        [],
        ''Client {'',
        ''   org.apache.kafka.common.security.plain.PlainLoginModule required'',
        ''   username='' @ quoted ''admin'',
        ''   password='' @ quoted ''$$KAFKA_ADMIN_PASSWORD'',
        ''   user_admin='' @ quoted ''$$KAFKA_ADMIN_PASSWORD'' @ '';'',
        ''};'',
        ''JAASEOF'',
        ''exec /etc/confluent/docker/run''])"

definition kafkaCompose :: "disk \<Rightarrow> string \<Rightarrow> infra_names \<Rightarrow> infra_compose" where
  "kafkaCompose d secretsDir n =
     \<lparr>ic_services =
        [(''kafka'' @ in_suffix n @ ''-ui'',
          (infra_service n ''provectuslabs/kafka-ui:latest'' (in_containerName n @ ''-ui''))
            \<lparr>sv_restart := ''always'',
             sv_environment :=
               [(''DYNAMIC_CONFIG_ENABLED'', JStr ''true''),
                (''AUTH_TYPE'', JStr ''LOGIN_FORM''),
                (''SPRING_SECURITY_USER_NAME'', JStr ''admin''),
                (''SERVER_SERVLET_CONTEXTPATH'', JStr ''/kafka''),
                (''KAFKA_CLUSTERS_0_NAME'', JStr ''local-cluster''),
                (''KAFKA_CLUSTERS_0_BOOTSTRAPSERVERS'', JStr (in_containerName n @ '':9092'')),
                (''KAFKA_CLUSTERS_0_PROPERTIES_SECURITY_PROTOCOL'', JStr ''SASL_PLAINTEXT''),
                (''KAFKA_CLUSTERS_0_PROPERTIES_SASL_MECHANISM'', JStr ''PLAIN'')],
             sv_env_file := [in_secretsPath n]\<rparr>),
         (''kafka'' @ in_suffix n,
          (infra_service n ''confluentinc/cp-kafka:7.5.0'' (in_containerName n))
            \<lparr>sv_entrypoint := [''/bin/bash'', ''-c'', kafkaEntrypointScript],
             sv_environment :=
               [(''KAFKA_NODE_ID'', JInt 1),
                (''KAFKA_PROCESS_ROLES'', JStr ''broker,controller''),
                (''KAFKA_CONTROLLER_QUORUM_VOTERS'', JStr (''1@'' @ in_containerName n @ '':9094'')),
                (''KAFKA_CONTROLLER_LISTENER_NAMES'', JStr ''CONTROLLER''),
                (''KAFKA_LISTENERS'', JStr ''SASL_PLAINTEXT://0.0.0.0:9092,CONTROLLER://0.0.0.0:9094''),
                (''KAFKA_ADVERTISED_LISTENERS'', JStr (''SASL_PLAINTEXT://'' @ in_containerName n @ '':9092'')),
                (''KAFKA_LISTENER_SECURITY_PROTOCOL_MAP'', JStr ''CONTROLLER:PLAINTEXT,SASL_PLAINTEXT:SASL_PLAINTEXT''),
                (''KAFKA_INTER_BROKER_LISTENER_NAME'', JStr ''SASL_PLAINTEXT''),
                (''KAFKA_SASL_ENABLED_MECHANISMS'', JStr ''PLAIN''),
                (''KAFKA_SASL_MECHANISM_INTER_BROKER_PROTOCOL'', JStr ''PLAIN''),
                (''KAFKA_OPTS'', JStr ''-Djava.security.auth.login.config=/etc/kafka/kafka_server_jaas.conf''),
                (''KAFKA_OFFSETS_TOPIC_REPLICATION_FACTOR'', JInt 1),
                (''KAFKA_TRANSACTION_STATE_LOG_REPLICATION_FACTOR'', JInt 1),
                (''KAFKA_TRANSACTION_STATE_LOG_MIN_ISR'', JInt 1),
                (''KAFKA_AUTO_CREATE_TOPICS_ENABLE'', JStr ''true''),
                (''CLUSTER_ID'', JStr (readKafkaClusterID d secretsDir (in_suffix n)))],
             sv_volumes := [Bind (in_volumeName n @ '':/var/lib/kafka/data'')],
             sv_env_file := [in_secretsPath n]\<rparr>)],
      ic_volumes = [in_volumeName n]\<rparr>"

definition generateInfraCompose :: "disk \<Rightarrow> compile_state \<Rightarrow> string \<Rightarrow> string \<Rightarrow> infra_compose" where
  "generateInfraCompose d c svcType stage =
     (let n = infraNamesFor (cx_secretsDir c) (cx_workspaceName c) svcType stage in
      if svcType = ''couchdb'' then couchdbCompose n
      else if svcType = ''garage'' then garageCompose c n
      else if svcType = ''postgres'' then postgresCompose n
      else if svcType = ''kafka'' then kafkaCompose d (cx_secretsDir c) n
      else \<lparr>ic_services = [], ic_volumes = []\<rparr>)"

text \<open>An entry of a deployment's services.\<close>

definition svcEnabled :: "json \<Rightarrow> bool" where
  "svcEnabled raw =
     (case raw of
        JObj t \<Rightarrow> (case map_of t ''enabled'' of Some (JBool b) \<Rightarrow> b | Some _ \<Rightarrow> False | None \<Rightarrow> True)
      | JBool b \<Rightarrow> b
      | JNull \<Rightarrow> False
      | _ \<Rightarrow> True)"

definition wanted_infra :: "deployments \<Rightarrow> (string \<times> string) list" where
  "wanted_infra ds =
     sort_key (\<lambda>(svc, stage). FwKey svc stage [])
       (remdups (concat (map (\<lambda>(depID, dep).
          case dep of
            None \<Rightarrow> []
          | Some conf \<Rightarrow> map (\<lambda>(svc, raw). (svc, stageForDeployment (StageOrProduction conf)))
                           (filter (\<lambda>(svc, raw). svcEnabled raw) (de_services conf))) ds)))"

definition pin_network :: "string \<Rightarrow> service \<Rightarrow> service" where
  "pin_network stageNet sv =
     (let aliases = (case sv_networks sv of NetAliases ns \<Rightarrow> concat (map snd ns) | _ \<Rightarrow> []) in
      sv\<lparr>sv_networks := (if aliases \<noteq> [] then NetAliases [(stageNet, aliases)] else NetList [stageNet])\<rparr>)"

record infra_merge =
  im_services :: services
  im_volumes :: "string list"
  im_networks :: "string list"
  im_merged :: "string list"

definition merge_infra :: "disk \<Rightarrow> compile_state \<Rightarrow> string \<times> string \<Rightarrow> infra_merge \<Rightarrow> infra_merge" where
  "merge_infra d c p m =
     (case p of (svc, stage) \<Rightarrow>
        if \<not> isKnownInfraType svc \<or> \<not> infraEnabled d (cx_secretsDir c) svc stage then m
        else
          (let t = generateInfraCompose d c svc stage;
               stageNet = stageNetwork c (realmForStage stage);
               fresh = filter (\<lambda>(name, sv). name \<notin> set (map fst (im_services m))) (ic_services t)
           in \<lparr>im_services = im_services m @ map (\<lambda>(name, sv). (name, pin_network stageNet sv)) fresh,
               im_volumes = im_volumes m @ filter (\<lambda>v. v \<notin> set (im_volumes m)) (ic_volumes t),
               im_networks = im_networks m @ [stageNet, ''bitswan_network''],
               im_merged = im_merged m @ sort (map fst fresh)\<rparr>))"

definition mergeInfraServices :: "disk \<Rightarrow> compile_state \<Rightarrow> services \<Rightarrow> deployments \<Rightarrow> string list \<Rightarrow> infra_merge" where
  "mergeInfraServices d c services ds nets =
     fold (merge_infra d c) (wanted_infra ds)
       \<lparr>im_services = services, im_volumes = [], im_networks = nets, im_merged = []\<rparr>"

section \<open>The project\<close>

record compose =
  co_services :: services
  co_networks :: "string list"          \<comment> \<open>external, but for \<open>bitswan_external_testing\<close>\<close>
  co_volumes :: "(string \<times> bool) list"    \<comment> \<open>whether the volume is external\<close>

record compiling =
  cp_deployments :: deployments
  cp_services :: services
  cp_routes :: "route list"
  cp_networks :: "string list"

definition compile_slot ::
    "platform \<Rightarrow> compile_state \<Rightarrow> worker_hosts \<Rightarrow> fw_scope \<Rightarrow> string \<Rightarrow> string \<times> int \<Rightarrow>
       (driver_err + compiling) \<times> disk \<Rightarrow> (driver_err + compiling) \<times> disk" where
  "compile_slot pf c wh scope depID sd r =
     (case r of
        (Inl e, d) \<Rightarrow> (Inl e, d)
      | (Inr s, d) \<Rightarrow>
          (case dep_at (cp_deployments s) depID of
             None \<Rightarrow> (Inr s, d)
           | Some conf \<Rightarrow>
               (let slotConf = effectiveSlotConf depID conf (fst sd) (cp_deployments s);
                    own = (fst sd = [] \<or> dep_at (cp_deployments s) (depID @ ''@'' @ fst sd) = None)
                in case buildServiceEntry pf c depID slotConf (fst sd) (snd sd) wh scope d of
                     (Inl e, d1) \<Rightarrow> (Inl e, d1)
                   | (Inr b, d1) \<Rightarrow>
                       (Inr \<lparr>cp_deployments =
                               (if own then AList.update depID (Some (bt_conf b)) (cp_deployments s)
                                else cp_deployments s),
                             cp_services =
                               (if bt_emit b then AList.update (bt_name b) (bt_entry b) (cp_services s)
                                else cp_services s),
                             cp_routes = cp_routes s @ (case bt_route b of Some rt \<Rightarrow> [rt] | None \<Rightarrow> []),
                             cp_networks = cp_networks s @ bt_networks b\<rparr>, d1))))"

definition compile_deployment ::
    "platform \<Rightarrow> compile_state \<Rightarrow> worker_hosts \<Rightarrow> fw_scope \<Rightarrow> string \<Rightarrow>
       (driver_err + compiling) \<times> disk \<Rightarrow> (driver_err + compiling) \<times> disk" where
  "compile_deployment pf c wh scope depID r =
     (case r of
        (Inl e, d) \<Rightarrow> (Inl e, d)
      | (Inr s, d) \<Rightarrow>
          if CHR ''@'' \<in> set depID then (Inr s, d)
          else
            (let conf = (case dep_at (cp_deployments s) depID of Some cf \<Rightarrow> cf | None \<Rightarrow> empty_deployment);
                 s1 = s\<lparr>cp_deployments := AList.update depID (Some conf) (cp_deployments s)\<rparr>
             in if inactive conf
                then (Inr (s1\<lparr>cp_routes := cp_routes s1 @ routesKeptWhileAsleep pf d c depID conf (cp_deployments s1)\<rparr>), d)
                else fold (compile_slot pf c wh scope depID) (slotDBPairs c conf) (Inr s1, d)))"

definition compile_in ::
    "platform \<Rightarrow> compile_state \<Rightarrow> disk \<Rightarrow> (driver_err + compose \<times> route list \<times> string list) \<times> disk" where
  "compile_in pf c d =
     (let ds = bs_deployments (cx_bs c);
          scope = computeFirewallScope pf c ds;
          wh = computeWorkerHosts pf d c ds scope
      in case fold (compile_deployment pf c wh scope) (sortedDepIDs ds)
                (Inr \<lparr>cp_deployments = ds, cp_services = [], cp_routes = [], cp_networks = [''bitswan_network'']\<rparr>, d) of
           (Inl e, d1) \<Rightarrow> (Inl e, d1)
         | (Inr s, d1) \<Rightarrow>
             (case emitGateways pf c scope (cp_services s) (cp_networks s) of
                Inl e \<Rightarrow> (Inl e, d1)
              | Inr (services, nets) \<Rightarrow>
                  (let m = mergeInfraServices d1 c services (cp_deployments s) nets in
                   (Inr (\<lparr>co_services = im_services m,
                          co_networks = remdups (im_networks m),
                          co_volumes = (let vs = map (\<lambda>v. (v, False)) (im_volumes m) in
                            if cx_volumeName c \<noteq> [] then AList.update (cx_volumeName c) True vs else vs)\<rparr>,
                         cp_routes s, im_merged m), d1))))"

text \<open>\<open>compile\<close> of the driver, from the request's context and the parsed declaration.\<close>

definition compile ::
    "platform \<Rightarrow> (string \<Rightarrow> string) \<Rightarrow> workspace_context \<Rightarrow> bitswan \<Rightarrow> disk \<Rightarrow>
       (driver_err + compose \<times> route list \<times> string list) \<times> disk" where
  "compile pf genv wctx bs d = compile_in pf (newCompileState pf d genv wctx bs) d"

end
