(* ===== verification/Driver_Laws.thy ===== *)
theory Driver_Laws
  imports Driver_Compile
begin

text \<open>
  What holds of every service of a compiled project: the locale \<open>service_law\<close> takes a predicate that
  each way of making a service establishes (a deployment's slot, a gateway, its proxy, a pinned
  infrastructure service) and shows it of the whole project. Also the facts about the firewall
  groups that the compiler forms.
\<close>

section \<open>Firewall groups\<close>

lemma map_of_append_None: "map_of (xs @ [(k, v)]) k' = (case map_of xs k' of Some y \<Rightarrow> Some y | None \<Rightarrow> if k' = k then Some v else None)"
  by (auto simp: map_add_def split: option.splits)

text \<open>What \<open>scope_step\<close> and the folds over it keep: every group is the one of some deployment.\<close>

definition scope_ok :: "platform \<Rightarrow> compile_state \<Rightarrow> fw_scope \<Rightarrow> bool" where
  "scope_ok pf c scope \<longleftrightarrow> distinct (map fst scope) \<and>
     (\<forall>(k, g)\<in>set scope. \<exists>conf. g = new_group pf c conf (fk_slot k) \<and>
        fk_ctx k = de_context conf \<and> fk_stage k = StageOrProduction conf)"

lemma scope_ok_step: "scope_ok pf c scope \<Longrightarrow> scope_ok pf c (scope_step pf c conf sd scope)"
  by (auto simp: scope_ok_def scope_step_def Let_def map_of_eq_None_iff)

lemma scope_ok_fold_step: "scope_ok pf c scope \<Longrightarrow> scope_ok pf c (fold (scope_step pf c conf) sds scope)"
  by (induction sds arbitrary: scope) (simp_all add: scope_ok_step)

lemma scope_ok_deployment: "scope_ok pf c scope \<Longrightarrow> scope_ok pf c (scope_of_deployment pf c d scope)"
  by (auto simp: scope_of_deployment_def scope_ok_fold_step split: option.splits)

lemma scope_ok_fold:
  "scope_ok pf c scope \<Longrightarrow> scope_ok pf c (fold (\<lambda>i. scope_of_deployment pf c (f i)) ids scope)"
  by (induction ids arbitrary: scope) (simp_all add: scope_ok_deployment)

lemma computeFirewallScope_ok: "scope_ok pf c (computeFirewallScope pf c ds)"
  unfolding computeFirewallScope_def by (rule scope_ok_fold) (simp add: scope_ok_def)

lemma new_group_ok [simp]: "fg_ok (new_group pf c conf slot)"
  by (simp add: new_group_def Let_def)

lemma fwActive_scope_ok:
  "scope_ok pf c scope \<Longrightarrow> fwActive scope ctx stage slot = map_of scope (FwKey ctx stage slot)"
  by (auto simp: fwActive_def scope_ok_def split: option.splits dest!: map_of_SomeD)

lemma fwActive_group:
  assumes "scope_ok pf c scope" "fwActive scope ctx stage slot = Some g"
  shows "\<exists>conf. g = new_group pf c conf slot \<and> de_context conf = ctx \<and> StageOrProduction conf = stage"
proof -
  from assms have "(FwKey ctx stage slot, g) \<in> set scope"
    by (auto simp: fwActive_scope_ok dest: map_of_SomeD)
  with assms(1) show ?thesis by (fastforce simp: scope_ok_def)
qed

text \<open>Keys are only added.\<close>

lemma scope_step_mono: "map_of scope k \<noteq> None \<Longrightarrow> map_of (scope_step pf c conf sd scope) k \<noteq> None"
  by (auto simp: scope_step_def Let_def map_of_append_None simp del: map_of_append split: option.splits)

lemma fold_scope_step_mono: "map_of scope k \<noteq> None \<Longrightarrow> map_of (fold (scope_step pf c conf) sds scope) k \<noteq> None"
  by (induction sds arbitrary: scope) (simp_all add: scope_step_mono del: not_None_eq)

lemma scope_of_deployment_mono: "map_of scope k \<noteq> None \<Longrightarrow> map_of (scope_of_deployment pf c d scope) k \<noteq> None"
  by (auto simp: scope_of_deployment_def fold_scope_step_mono split: option.splits simp del: not_None_eq)

lemma fold_scope_mono:
  "map_of scope k \<noteq> None \<Longrightarrow> map_of (fold (\<lambda>i. scope_of_deployment pf c (f i)) ids scope) k \<noteq> None"
  by (induction ids arbitrary: scope) (simp_all add: scope_of_deployment_mono del: not_None_eq)

lemma fold_scope_step_covers:
  "slot \<in> fst ` set sds \<Longrightarrow>
     map_of (fold (scope_step pf c conf) sds scope) (FwKey (de_context conf) (StageOrProduction conf) slot) \<noteq> None"
proof (induction sds arbitrary: scope)
  case (Cons sd sds)
  show ?case
  proof (cases "slot = fst sd")
    case True
    then have "map_of (scope_step pf c conf sd scope) (FwKey (de_context conf) (StageOrProduction conf) slot) \<noteq> None"
      by (auto simp: scope_step_def Let_def map_of_append_None simp del: map_of_append split: option.splits)
    from fold_scope_step_mono [OF this] show ?thesis by simp
  next
    case False
    with Cons show ?thesis by (simp del: not_None_eq)
  qed
qed simp

lemma fold_scope_covers:
  assumes "depID \<in> set ids" "f depID = Some conf" "\<not> inactive conf" "slot \<in> fst ` set (slotDBPairs c conf)"
  shows "map_of (fold (\<lambda>i. scope_of_deployment pf c (f i)) ids scope)
           (FwKey (de_context conf) (StageOrProduction conf) slot) \<noteq> None"
  using assms(1)
proof (induction ids arbitrary: scope)
  case (Cons i ids)
  show ?case
  proof (cases "i = depID")
    case True
    then have "map_of (scope_of_deployment pf c (f i) scope) (FwKey (de_context conf) (StageOrProduction conf) slot) \<noteq> None"
      using assms fold_scope_step_covers [OF assms(4), of pf c conf scope]
      by (simp add: scope_of_deployment_def del: not_None_eq)
    from fold_scope_mono [OF this] show ?thesis by simp
  next
    case False
    with Cons show ?thesis by (simp del: not_None_eq)
  qed
qed simp

text \<open>Every slot of an active deployment that is not nil has a group.\<close>

lemma computeFirewallScope_covers:
  assumes "dep_at ds depID = Some conf" "\<not> inactive conf" "slot \<in> fst ` set (slotDBPairs c conf)"
  shows "\<exists>g. fwActive (computeFirewallScope pf c ds) (de_context conf) (StageOrProduction conf) slot = Some g"
proof -
  have "depID \<in> set (sortedDepIDs ds)"
    using assms(1) by (force simp: dep_at_def sortedDepIDs_def split: option.splits dest: map_of_SomeD)
  from fold_scope_covers [of depID _ "dep_at ds", OF this assms, of pf "[]"] show ?thesis
    unfolding fwActive_scope_ok [OF computeFirewallScope_ok] by (simp add: computeFirewallScope_def)
qed

section \<open>The slots that are compiled\<close>

text \<open>A version of a deployment: another source or image under the same name, stage and settings.\<close>

definition version_of :: "deployment \<Rightarrow> deployment \<Rightarrow> bool" where
  "version_of base conf \<longleftrightarrow>
     de_context conf = de_context base \<and> de_stage conf = de_stage base \<and>
     de_automation_name conf = de_automation_name base \<and> de_enabled conf = de_enabled base \<and>
     de_active conf = de_active base \<and> de_replicas conf = de_replicas base"

definition declared :: "compile_state \<Rightarrow> string \<Rightarrow> deployment" where
  "declared c depID =
     (case dep_at (bs_deployments (cx_bs c)) depID of Some conf \<Rightarrow> conf | None \<Rightarrow> empty_deployment)"

definition slot_call :: "compile_state \<Rightarrow> string \<Rightarrow> deployment \<Rightarrow> string \<Rightarrow> bool" where
  "slot_call c depID conf slot \<longleftrightarrow>
     depID \<in> fst ` set (bs_deployments (cx_bs c)) \<and> CHR ''@'' \<notin> set depID \<and>
     \<not> inactive (declared c depID) \<and> slot \<in> fst ` set (slotDBPairs c (declared c depID)) \<and>
     version_of (declared c depID) conf"

lemma version_of_refl [simp]: "version_of conf conf"
  by (simp add: version_of_def)

lemma version_of_effective: "version_of base conf \<Longrightarrow> version_of base (effectiveSlotConf depID conf slot ds)"
  by (auto simp: effectiveSlotConf_def version_of_def split: option.splits)

lemma version_of_stage: "version_of base conf \<Longrightarrow> StageOrProduction conf = StageOrProduction base"
  by (simp add: version_of_def StageOrProduction_def)

text \<open>The declarations while the loop runs: as they were, but for services found on disk and for nil
  entries that were filled in.\<close>

definition deps_ok :: "compile_state \<Rightarrow> deployments \<Rightarrow> bool" where
  "deps_ok c ds \<longleftrightarrow>
     (\<forall>depID conf. CHR ''@'' \<notin> set depID \<longrightarrow> dep_at ds depID = Some conf \<longrightarrow>
        version_of (declared c depID) conf \<and> de_relative_path conf = de_relative_path (declared c depID)) \<and>
     (\<forall>depID. dep_at ds depID = None \<longrightarrow> dep_at (bs_deployments (cx_bs c)) depID = None)"

lemma dep_at_update: "dep_at (AList.update k v ds) i = (if i = k then v else dep_at ds i)"
  by (simp add: dep_at_def update_conv')

lemma slotDBPairs_cong:
  "de_relative_path a = de_relative_path b \<Longrightarrow> de_stage a = de_stage b \<Longrightarrow> slotDBPairs c a = slotDBPairs c b"
  by (simp add: slotDBPairs_def StageOrProduction_def)

lemma bt_conf_version:
  "buildServiceEntry pf c depID conf slot db wh scope d = (Inr b, d') \<Longrightarrow>
     version_of conf (bt_conf b) \<and> de_relative_path (bt_conf b) = de_relative_path conf"
  by (drule bt_conf_built) (auto simp: version_of_def)

section \<open>The loop over deployments and slots\<close>

text \<open>An outcome of the loop that failed, or succeeded with a property.\<close>

definition settled :: "(compiling \<Rightarrow> bool) \<Rightarrow> (driver_err + compiling) \<times> disk \<Rightarrow> bool" where
  "settled P r \<longleftrightarrow> (case fst r of Inl e \<Rightarrow> True | Inr s \<Rightarrow> P s)"

lemma settled_fold:
  "settled P r \<Longrightarrow> (\<And>x r. x \<in> set xs \<Longrightarrow> settled P r \<Longrightarrow> settled P (f x r)) \<Longrightarrow> settled P (fold f xs r)"
  by (induction xs arbitrary: r) auto

text \<open>The slots of one deployment are compiled from versions of its declaration.\<close>

definition slot_state :: "compile_state \<Rightarrow> string \<Rightarrow> (compiling \<Rightarrow> bool) \<Rightarrow> compiling \<Rightarrow> bool" where
  "slot_state c depID P s \<longleftrightarrow> deps_ok c (cp_deployments s) \<and> P s \<and>
     (\<exists>conf. dep_at (cp_deployments s) depID = Some conf \<and> version_of (declared c depID) conf \<and>
        de_relative_path conf = de_relative_path (declared c depID))"

lemma deps_ok_update:
  "deps_ok c ds \<Longrightarrow> version_of (declared c depID) conf \<Longrightarrow>
     de_relative_path conf = de_relative_path (declared c depID) \<Longrightarrow> deps_ok c (AList.update depID (Some conf) ds)"
  by (simp add: deps_ok_def dep_at_update)

lemma deps_ok_conf:
  assumes "deps_ok c ds" "CHR ''@'' \<notin> set depID"
  shows "version_of (declared c depID) (case dep_at ds depID of Some cf \<Rightarrow> cf | None \<Rightarrow> empty_deployment) \<and>
     de_relative_path (case dep_at ds depID of Some cf \<Rightarrow> cf | None \<Rightarrow> empty_deployment) =
       de_relative_path (declared c depID)"
proof (cases "dep_at ds depID")
  case None
  then have "dep_at (bs_deployments (cx_bs c)) depID = None"
    using assms(1) by (simp only: deps_ok_def)
  with None show ?thesis by (simp add: declared_def)
next
  case (Some cf)
  with assms show ?thesis by (simp only: deps_ok_def option.case) blast
qed

lemma version_of_trans: "version_of a b \<Longrightarrow> version_of b d \<Longrightarrow> version_of a d"
  by (simp add: version_of_def)

lemma effectiveSlotConf_own:
  "slot = [] \<or> dep_at ds (depID @ ''@'' @ slot) = None \<Longrightarrow> effectiveSlotConf depID conf slot ds = conf"
  by (auto simp: effectiveSlotConf_def dep_at_def split: option.splits)

lemma compile_slot_state:
  assumes "settled (slot_state c depID P) r"
    and "depID \<in> fst ` set (bs_deployments (cx_bs c))" "CHR ''@'' \<notin> set depID"
    and "\<not> inactive (declared c depID)" "sd \<in> set (slotDBPairs c (declared c depID))"
    and step: "\<And>s conf d b d' ds rts nets. P s \<Longrightarrow> slot_call c depID conf (fst sd) \<Longrightarrow>
      buildServiceEntry pf c depID conf (fst sd) (snd sd) wh scope d = (Inr b, d') \<Longrightarrow>
      P \<lparr>cp_deployments = ds,
         cp_services = (if bt_emit b then AList.update (bt_name b) (bt_entry b) (cp_services s) else cp_services s),
         cp_routes = rts, cp_networks = nets\<rparr>"
  shows "settled (slot_state c depID P) (compile_slot pf c wh scope depID sd r)"
proof -
  obtain r1 d where r: "r = (r1, d)" by (cases r)
  show ?thesis
  proof (cases r1)
    case (Inl e)
    then show ?thesis by (simp add: r compile_slot_def settled_def)
  next
    case (Inr s)
    with assms(1) obtain conf where s: "deps_ok c (cp_deployments s)" "P s"
        "dep_at (cp_deployments s) depID = Some conf" "version_of (declared c depID) conf"
        "de_relative_path conf = de_relative_path (declared c depID)"
      by (auto simp: r settled_def slot_state_def)
    let ?sc = "effectiveSlotConf depID conf (fst sd) (cp_deployments s)"
    have call: "slot_call c depID ?sc (fst sd)"
      using assms(2-5) s(4) by (auto simp: slot_call_def intro: version_of_effective)
    show ?thesis
    proof (cases "buildServiceEntry pf c depID ?sc (fst sd) (snd sd) wh scope d")
      case (Pair res d1)
      show ?thesis
      proof (cases res)
        case (Inl e)
        then show ?thesis using Pair s(3) by (simp add: r Inr compile_slot_def settled_def)
      next
        case b: (Inr b)
        note built = Pair [unfolded b]
        have own: "version_of (declared c depID) (bt_conf b) \<and>
            de_relative_path (bt_conf b) = de_relative_path (declared c depID)"
          if "fst sd = [] \<or> dep_at (cp_deployments s) (depID @ ''@'' @ fst sd) = None"
        proof -
          have "?sc = conf" using that by (rule effectiveSlotConf_own)
          then show ?thesis
            using bt_conf_version [OF built] s(4,5) version_of_trans by auto
        qed
        show ?thesis
          using Pair b s own step [OF s(2) call built]
          by (auto simp: r Inr compile_slot_def settled_def slot_state_def dep_at_update deps_ok_update)
      qed
    qed
  qed
qed

lemma compile_deployment_state:
  assumes "settled (\<lambda>s. deps_ok c (cp_deployments s) \<and> P s) r"
    and "depID \<in> fst ` set (bs_deployments (cx_bs c))"
    and frame: "\<And>s ds rts. P s \<Longrightarrow> P (s\<lparr>cp_deployments := ds, cp_routes := rts\<rparr>)"
    and step: "\<And>s conf slot db d b d' ds rts nets. P s \<Longrightarrow> slot_call c depID conf slot \<Longrightarrow>
      buildServiceEntry pf c depID conf slot db wh scope d = (Inr b, d') \<Longrightarrow>
      P \<lparr>cp_deployments = ds,
         cp_services = (if bt_emit b then AList.update (bt_name b) (bt_entry b) (cp_services s) else cp_services s),
         cp_routes = rts, cp_networks = nets\<rparr>"
  shows "settled (\<lambda>s. deps_ok c (cp_deployments s) \<and> P s) (compile_deployment pf c wh scope depID r)"
proof -
  obtain r1 d where r: "r = (r1, d)" by (cases r)
  show ?thesis
  proof (cases r1)
    case (Inl e)
    then show ?thesis by (simp add: r compile_deployment_def settled_def)
  next
    case (Inr s)
    with assms(1) have s: "deps_ok c (cp_deployments s)" "P s" by (simp_all add: r settled_def)
    let ?conf = "case dep_at (cp_deployments s) depID of Some cf \<Rightarrow> cf | None \<Rightarrow> empty_deployment"
    let ?s1 = "s\<lparr>cp_deployments := AList.update depID (Some ?conf) (cp_deployments s)\<rparr>"
    show ?thesis
    proof (cases "CHR ''@'' \<in> set depID")
      case True
      then show ?thesis using assms(1) by (simp add: r Inr compile_deployment_def)
    next
      case at: False
      have conf: "version_of (declared c depID) ?conf" "de_relative_path ?conf = de_relative_path (declared c depID)"
        using deps_ok_conf [OF s(1) at] by simp_all
      have "?s1 = s\<lparr>cp_deployments := cp_deployments ?s1, cp_routes := cp_routes s\<rparr>"
        by (cases s) simp
      then have s1: "deps_ok c (cp_deployments ?s1)" "P ?s1"
        using deps_ok_update [OF s(1) conf] frame [OF s(2), where ds = "cp_deployments ?s1" and rts = "cp_routes s"] by simp_all
      have act: "inactive ?conf = inactive (declared c depID)"
        using conf(1) by (simp add: version_of_def inactive_def)
      have pairs: "slotDBPairs c ?conf = slotDBPairs c (declared c depID)"
        using conf by (intro slotDBPairs_cong) (simp_all add: version_of_def)
      show ?thesis
      proof (cases "inactive ?conf")
        case True
        then show ?thesis
          using at s1(1) frame [OF s(2)]
          by (simp add: r Inr compile_deployment_def settled_def Let_def)
      next
        case False
        have start: "settled (slot_state c depID P) (Inr ?s1, d)"
          using s1 conf by (auto simp: settled_def slot_state_def dep_at_update)
        have "settled (slot_state c depID P) (fold (compile_slot pf c wh scope depID) (slotDBPairs c ?conf) (Inr ?s1, d))"
        proof (rule settled_fold [OF start])
          fix sd r'
          assume sd: "sd \<in> set (slotDBPairs c ?conf)" and r': "settled (slot_state c depID P) r'"
          show "settled (slot_state c depID P) (compile_slot pf c wh scope depID sd r')"
            by (rule compile_slot_state [where P = P, OF r' assms(2) at])
               (use False act sd pairs step in auto)
        qed
        then show ?thesis
          using at False
          by (auto simp: r Inr compile_deployment_def settled_def slot_state_def Let_def split: sum.splits)
      qed
    qed
  qed
qed

text \<open>The whole loop, from the declarations as they are.\<close>

definition compile_loop ::
    "platform \<Rightarrow> compile_state \<Rightarrow> disk \<Rightarrow> (driver_err + compiling) \<times> disk" where
  "compile_loop pf c d =
     (let ds = bs_deployments (cx_bs c); scope = computeFirewallScope pf c ds in
      fold (compile_deployment pf c (computeWorkerHosts pf d c ds scope) scope) (sortedDepIDs ds)
        (Inr \<lparr>cp_deployments = ds, cp_services = [], cp_routes = [], cp_networks = [''bitswan_network'']\<rparr>, d))"

lemma deps_ok_start: "deps_ok c (bs_deployments (cx_bs c))"
  by (simp add: deps_ok_def declared_def)

lemma compile_loop_state:
  assumes "P \<lparr>cp_deployments = bs_deployments (cx_bs c), cp_services = [], cp_routes = [], cp_networks = [''bitswan_network'']\<rparr>"
    and frame: "\<And>s ds rts. P s \<Longrightarrow> P (s\<lparr>cp_deployments := ds, cp_routes := rts\<rparr>)"
    and step: "\<And>s depID conf slot db d b d' ds rts nets wh. P s \<Longrightarrow> slot_call c depID conf slot \<Longrightarrow>
      buildServiceEntry pf c depID conf slot db wh (computeFirewallScope pf c (bs_deployments (cx_bs c))) d = (Inr b, d') \<Longrightarrow>
      P \<lparr>cp_deployments = ds,
         cp_services = (if bt_emit b then AList.update (bt_name b) (bt_entry b) (cp_services s) else cp_services s),
         cp_routes = rts, cp_networks = nets\<rparr>"
    and loop: "compile_loop pf c d = (Inr s, d')"
  shows "P s"
proof -
  let ?ds = "bs_deployments (cx_bs c)"
  let ?scope = "computeFirewallScope pf c ?ds"
  let ?wh = "computeWorkerHosts pf d c ?ds ?scope"
  have "settled (\<lambda>s. deps_ok c (cp_deployments s) \<and> P s)
      (fold (compile_deployment pf c ?wh ?scope) (sortedDepIDs ?ds)
        (Inr \<lparr>cp_deployments = ?ds, cp_services = [], cp_routes = [], cp_networks = [''bitswan_network'']\<rparr>, d))"
  proof (rule settled_fold)
    fix depID r
    assume mem: "depID \<in> set (sortedDepIDs ?ds)"
      and r: "settled (\<lambda>s. deps_ok c (cp_deployments s) \<and> P s) r"
    from mem have "depID \<in> fst ` set ?ds" by (simp add: sortedDepIDs_def)
    from compile_deployment_state [where P = P, OF r this frame step]
    show "settled (\<lambda>s. deps_ok c (cp_deployments s) \<and> P s) (compile_deployment pf c ?wh ?scope depID r)" .
  qed (simp add: settled_def deps_ok_start assms(1))
  then show ?thesis using loop by (simp add: compile_loop_def Let_def settled_def)
qed

lemma compile_in_parts:
  assumes "compile_in pf c d = (Inr (co, rts, merged), d')"
  obtains s services nets where
    "compile_loop pf c d = (Inr s, d')"
    "emitGateways pf c (computeFirewallScope pf c (bs_deployments (cx_bs c))) (cp_services s) (cp_networks s)
       = Inr (services, nets)"
    "co_services co = im_services (mergeInfraServices d' c services (cp_deployments s) nets)"
    "rts = cp_routes s"
  using assms unfolding compile_in_def compile_loop_def Let_def
  by (auto split: prod.splits sum.splits)

section \<open>Laws of all services\<close>

definition all_services :: "(service \<Rightarrow> bool) \<Rightarrow> services \<Rightarrow> bool" where
  "all_services good services \<longleftrightarrow> (\<forall>(name, sv)\<in>set services. good sv)"

lemma in_set_alist_update: "x \<in> set (AList.update k v xs) \<Longrightarrow> x = (k, v) \<or> x \<in> set xs"
  by (induction xs) (auto split: if_splits)

lemma all_services_update: "all_services good services \<Longrightarrow> good sv \<Longrightarrow> all_services good (AList.update n sv services)"
  by (auto simp: all_services_def dest!: in_set_alist_update)

text \<open>\<open>good\<close> is a law of the services that a compile run of \<open>c\<close> makes.\<close>

locale service_law =
  fixes pf :: platform and c :: compile_state and good :: "service \<Rightarrow> bool"
  assumes built: "slot_call c depID conf slot \<Longrightarrow>
      buildServiceEntry pf c depID conf slot db wh (computeFirewallScope pf c (bs_deployments (cx_bs c))) d = (Inr b, d') \<Longrightarrow>
      bt_emit b \<Longrightarrow> good (bt_entry b)"
    and gateway: "map_of (computeFirewallScope pf c (bs_deployments (cx_bs c))) k = Some g \<Longrightarrow>
      good (owner_service c k g) \<and> good (proxy_service c k g)"
    and infra: "(name, sv) \<in> set (ic_services (generateInfraCompose d c svc stage)) \<Longrightarrow>
      good (pin_network (stageNetwork c (realmForStage stage)) sv)"
begin

lemma loop: "compile_loop pf c d = (Inr s, d') \<Longrightarrow> all_services good (cp_services s)"
  by (rule compile_loop_state [where P = "\<lambda>s. all_services good (cp_services s)"])
     (auto simp: all_services_def built dest!: in_set_alist_update split: if_splits)

lemma gateways:
  "scope = computeFirewallScope pf c (bs_deployments (cx_bs c)) \<Longrightarrow> all_services good services \<Longrightarrow>
     all_services good (fold (add_gateway c scope) ks services)"
  by (induction ks arbitrary: services)
     (auto simp: add_gateway_def gateway all_services_update split: option.splits)

lemma merged: "all_services good (im_services m) \<Longrightarrow> all_services good (im_services (merge_infra d c p m))"
  by (cases p) (auto simp: merge_infra_def Let_def all_services_def infra)

lemma merged_all: "all_services good (im_services m) \<Longrightarrow> all_services good (im_services (fold (merge_infra d c) ps m))"
  by (induction ps arbitrary: m) (simp_all add: merged)

lemma compiled:
  assumes "compile_in pf c d = (Inr (co, rts, mg), d')" "(name, sv) \<in> set (co_services co)"
  shows "good sv"
proof -
  obtain s services nets where parts: "compile_loop pf c d = (Inr s, d')"
      "emitGateways pf c (computeFirewallScope pf c (bs_deployments (cx_bs c))) (cp_services s) (cp_networks s)
         = Inr (services, nets)"
      "co_services co = im_services (mergeInfraServices d' c services (cp_deployments s) nets)"
    using compile_in_parts [OF assms(1)] by metis
  have "all_services good services"
    using parts(2) loop [OF parts(1)] gateways [OF refl]
    by (auto simp: emitGateways_def split: if_splits)
  then have "all_services good (co_services co)"
    unfolding parts(3) mergeInfraServices_def by (intro merged_all) simp
  with assms(2) show ?thesis by (auto simp: all_services_def)
qed

end

end
