(* ===== verification/Driver_Confine.thy ===== *)
theory Driver_Confine
  imports Driver_Laws
begin

text \<open>
  What a workspace's declaration cannot do, whatever it says: leave a worker of an enforcing realm
  outside its egress gateway, attach a service to the control plane's network, mount a host path
  from outside the workspace's roots, or hand a service the secrets of another. And the places where
  the compiler falls short of that.
\<close>

section \<open>What the secrets blocks keep\<close>

text \<open>A property of the part the secrets blocks work on, kept by each of them on the way from \<open>sp0\<close>.\<close>

abbreviation credRealm :: "deployment \<Rightarrow> string" where
  "credRealm conf \<equiv> realmForStage (StageOrProduction conf)"

locale secrets_law =
  fixes pf :: platform and c :: compile_state and conf :: deployment and slot :: string
    and cfg :: automation_config and sp0 :: secret_part and keep :: "secret_part \<Rightarrow> bool"
  assumes bp: "keep sp \<Longrightarrow> bp_secrets pf c conf slot (ac_expose cfg) sp d = (Inr sp', d') \<Longrightarrow> keep sp'"
    and pg: "keep sp \<Longrightarrow> scoped_postgres pf c (credRealm conf) sp d = (Inr sp', d') \<Longrightarrow> keep sp'"
    and bucket: "keep sp \<Longrightarrow> attach_bucket pf c (credRealm conf) b sp d = (Inr sp', d') \<Longrightarrow>
      b = env_str (sp_env sp0) ''S3_BUCKET'' \<and> b \<noteq> [] \<or>
      b = systemKeyName \<and> env_str (sp_env sp0) ''S3_BUCKET'' = [] \<and>
        (\<exists>n\<in>set (resolveServiceSecrets cfg (StageOrProduction conf)). prefix ''garage'' n) \<Longrightarrow> keep sp'"
    and dependency: "keep sp \<Longrightarrow> n \<in> set (resolveServiceSecrets cfg (StageOrProduction conf)) \<Longrightarrow>
      \<not> prefix ''garage'' n \<Longrightarrow> \<not> (env_str (sp_env sp0) ''POSTGRES_DB'' \<noteq> [] \<and> prefix ''postgres'' n) \<Longrightarrow>
      keep (sp\<lparr>sp_files := appendEnvFile (filepath_Join [cx_secretsDir c, n]) (sp_files sp)\<rparr>)"
begin

lemma service_secrets_stuck:
  "fold (service_secret pf c realm scopedPG scopedS3) names (Inl e, d) = (Inl e, d)"
  by (induction names) (simp_all add: service_secret_def)

lemma service_secrets:
  assumes "scopedPG = (env_str (sp_env sp0) ''POSTGRES_DB'' \<noteq> [])" "scopedS3 = (env_str (sp_env sp0) ''S3_BUCKET'' \<noteq> [])"
  shows "keep sp \<Longrightarrow> set names \<subseteq> set (resolveServiceSecrets cfg (StageOrProduction conf)) \<Longrightarrow>
     fold (service_secret pf c (credRealm conf) scopedPG scopedS3) names (Inr sp, d) = (Inr sp', d') \<Longrightarrow> keep sp'"
proof (induction names arbitrary: sp d)
  case (Cons n names)
  let ?one = "service_secret pf c (credRealm conf) scopedPG scopedS3 n (Inr sp, d)"
  obtain r d1 where one: "?one = (r, d1)" by (cases ?one)
  show ?case
  proof (cases r)
    case (Inl e)
    with Cons.prems one service_secrets_stuck show ?thesis by simp
  next
    case (Inr sp1)
    have "keep sp1"
    proof (cases "prefix ''garage'' n \<and> \<not> scopedS3 \<and> \<not> (scopedPG \<and> prefix ''postgres'' n)")
      case True
      with one Inr have "attach_bucket pf c (credRealm conf) systemKeyName sp d = (Inr sp1, d1)"
        by (simp add: service_secret_def)
      from bucket [OF Cons.prems(1) this] show ?thesis using True assms Cons.prems(2) by auto
    next
      case False
      then show ?thesis
        using Cons.prems(1,2) one Inr assms
        by (auto simp: service_secret_def Let_def intro!: dependency split: if_splits)
    qed
    with Cons one Inr show ?thesis by simp
  qed
qed simp

lemma attach:
  assumes "attach_secrets pf c conf slot cfg sp0 d0 = (Inr sp, d)" "keep sp0"
  shows "keep sp"
proof -
  obtain sp1 d1 where 1: "bp_secrets pf c conf slot (ac_expose cfg) sp0 d0 = (Inr sp1, d1)"
    using assms(1) by (auto simp: attach_secrets_def Let_def split: prod.splits sum.splits)
  obtain sp2 d2 where 2: "scoped_postgres pf c (credRealm conf) sp1 d1 = (Inr sp2, d2)"
    using assms(1) 1 by (auto simp: attach_secrets_def Let_def split: prod.splits sum.splits)
  have "keep sp2" using bp [OF assms(2) 1] pg [OF _ 2] by blast
  note rest = service_secrets [OF refl refl _ subset_refl]
  show ?thesis
  proof (cases "env_str (sp_env sp0) ''S3_BUCKET'' = []")
    case True
    then show ?thesis
      using assms(1) 1 2 rest [OF \<open>keep sp2\<close>] by (simp add: attach_secrets_def Let_def)
  next
    case False
    let ?b = "env_str (sp_env sp0) ''S3_BUCKET''"
    obtain r d3 where r: "attach_bucket pf c (credRealm conf) ?b sp2 d2 = (r, d3)"
      by (cases "attach_bucket pf c (credRealm conf) ?b sp2 d2")
    show ?thesis
    proof (cases r)
      case (Inl e)
      with assms(1) 1 2 r False service_secrets_stuck show ?thesis by (simp add: attach_secrets_def Let_def)
    next
      case (Inr sp3)
      with bucket [OF \<open>keep sp2\<close>] r False have "keep sp3" by blast
      then show ?thesis
        using assms(1) 1 2 r Inr False rest [of sp3] by (simp add: attach_secrets_def Let_def)
    qed
  qed
qed

end

text \<open>Labels other than the hash of the secrets stay.\<close>

interpretation labels: secrets_law pf c conf slot cfg sp0
    "\<lambda>sp. k \<noteq> ''gitops.secrets_hash'' \<longrightarrow> map_of (sp_labels sp) k = v" for pf c conf slot cfg sp0 k v
proof
  fix sp d sp' d'
  assume "k \<noteq> ''gitops.secrets_hash'' \<longrightarrow> map_of (sp_labels sp) k = v"
    and "bp_secrets pf c conf slot (ac_expose cfg) sp d = (Inr sp', d')"
  then show "k \<noteq> ''gitops.secrets_hash'' \<longrightarrow> map_of (sp_labels sp') k = v"
    by (auto simp: bp_secrets_def Let_def update_conv' split: if_splits option.splits prod.splits)
next
  fix sp d sp' d'
  assume "k \<noteq> ''gitops.secrets_hash'' \<longrightarrow> map_of (sp_labels sp) k = v"
    and "scoped_postgres pf c (credRealm conf) sp d = (Inr sp', d')"
  then show "k \<noteq> ''gitops.secrets_hash'' \<longrightarrow> map_of (sp_labels sp') k = v"
    by (auto simp: scoped_postgres_def Let_def split: if_splits option.splits prod.splits)
next
  fix sp d sp' d' b
  assume "k \<noteq> ''gitops.secrets_hash'' \<longrightarrow> map_of (sp_labels sp) k = v"
    and "attach_bucket pf c (credRealm conf) b sp d = (Inr sp', d')"
  then show "k \<noteq> ''gitops.secrets_hash'' \<longrightarrow> map_of (sp_labels sp') k = v"
    by (auto simp: attach_bucket_def split: if_splits option.splits prod.splits bool.splits)
qed simp

section \<open>A built service\<close>

lemma built_entry:
  assumes "buildServiceEntry pf c depID conf slot db wh scope d = (Inr b, d')" "bt_emit b"
  obtains cfg conf' sp sp0 sourceDir hostDir mounts port name env labels where
    "cfg = resolveAutomationConfig pf d c conf" "conf' = with_disk_services cfg conf"
    "check_sources d c depID conf (service_source depID conf) cfg = Inr (Some sourceDir)"
    "attach_secrets pf c conf' slot cfg sp0 d = (Inr sp, d')" "sp_files sp0 = []"
    "\<And>k. k \<noteq> ''gitops.secrets_hash'' \<Longrightarrow> k \<noteq> ''gitops.deployment_id'' \<Longrightarrow>
       map_of (sp_labels sp0) k = map_of (service_labels c depID conf slot []) k"
    "map_of (sp_labels sp0) ''gitops.deployment_id'' \<noteq> None"
    "containedJoin (cx_gitopsDirHost c) (service_source depID conf) = Some hostDir"
    "source_mount pf c depID conf' (service_source depID conf) sourceDir hostDir (ac_mount_path cfg) = Inr mounts"
    "labels = sp_labels sp \<or> labels = AList.update ''gitops.intended_exposed'' ''true'' (sp_labels sp)"
    "bt_entry b = service_of c conf' cfg (joined_gateway scope conf slot cfg) port name env labels (sp_files sp) mounts"
proof -
  from buildServiceEntry_emit [OF assms] obtain cfg sourceDir assigned workers where
    1: "cfg = resolveAutomationConfig pf d c conf"
       "check_sources d c depID conf (service_source depID conf) cfg = Inr (Some sourceDir)"
       "build_checked pf c depID (with_disk_services cfg conf) slot db cfg (joined_gateway scope conf slot cfg)
          assigned workers sourceDir d = (Inr b, d')" .
  let ?conf = "with_disk_services cfg conf"
  from build_checked_emit [OF 1(3)] obtain sp hostDir mounts eid where
    2: "attach_secrets pf c ?conf slot cfg
          \<lparr>sp_files = [], sp_env = base_env pf c ?conf slot db eid workers assigned,
           sp_labels = service_labels c depID ?conf slot eid\<rparr> d = (Inr sp, d')"
       "containedJoin (cx_gitopsDirHost c) (service_source depID ?conf) = Some hostDir"
       "source_mount pf c depID ?conf (service_source depID ?conf) sourceDir hostDir (ac_mount_path cfg) = Inr mounts"
       "b = built_of pf c depID ?conf slot cfg (joined_gateway scope conf slot cfg)
          (case assigned of Some a \<Rightarrow> pa_app a | None \<Rightarrow> ac_port cfg) sp mounts" .
  let ?sp0 = "\<lparr>sp_files = [], sp_env = base_env pf c ?conf slot db eid workers assigned,
           sp_labels = service_labels c depID ?conf slot eid\<rparr>"
  have labels: "map_of (sp_labels ?sp0) k = map_of (service_labels c depID conf slot []) k"
    if "k \<noteq> ''gitops.deployment_id''" for k
    using that by (simp add: service_labels_def Let_def AutomationNameOr_def memReservationMB_def memPolicy_def
        with_disk_services_def StageOrProduction_def)
  have "\<exists>port name env labels.
      bt_entry b = service_of c ?conf cfg (joined_gateway scope conf slot cfg) port name env labels (sp_files sp) mounts \<and>
      (labels = sp_labels sp \<or> labels = AList.update ''gitops.intended_exposed'' ''true'' (sp_labels sp))"
    by (auto simp: 2(4) built_of_def Let_def)
  then obtain port name env lbl where
    3: "bt_entry b = service_of c ?conf cfg (joined_gateway scope conf slot cfg) port name env lbl (sp_files sp) mounts"
       "lbl = sp_labels sp \<or> lbl = AList.update ''gitops.intended_exposed'' ''true'' (sp_labels sp)"
    by blast
  show thesis
    using that [OF 1(1) refl 1(2) 2(1) _ _ _ _ _ 3(2) 3(1)] 2(2,3) labels
    by (simp add: service_labels_def Let_def)
qed

text \<open>The labels that say which deployment, stage and slot a worker belongs to.\<close>

definition label_of :: "service \<Rightarrow> string \<Rightarrow> string" where
  "label_of sv k = (case map_of (sv_labels sv) k of Some v \<Rightarrow> v | None \<Rightarrow> [])"

definition is_worker :: "service \<Rightarrow> bool" where
  "is_worker sv \<longleftrightarrow> map_of (sv_labels sv) ''gitops.deployment_id'' \<noteq> None"

lemma built_label:
  assumes built: "buildServiceEntry pf c depID conf slot db wh scope d = (Inr b, d')" "bt_emit b"
    and k: "k \<notin> {''gitops.secrets_hash'', ''gitops.deployment_id'', ''gitops.intended_exposed'', ''gitops.certs.enabled''}"
  shows "map_of (sv_labels (bt_entry b)) k = map_of (service_labels c depID conf slot []) k"
  using built
proof (rule built_entry)
  fix cfg conf' sp sp0 sourceDir hostDir mounts port name env lbl
  assume sp: "attach_secrets pf c conf' slot cfg sp0 d = (Inr sp, d')"
    and start: "\<And>k. k \<noteq> ''gitops.secrets_hash'' \<Longrightarrow> k \<noteq> ''gitops.deployment_id'' \<Longrightarrow>
       map_of (sp_labels sp0) k = map_of (service_labels c depID conf slot []) k"
    and lbl: "lbl = sp_labels sp \<or> lbl = AList.update ''gitops.intended_exposed'' ''true'' (sp_labels sp)"
    and entry: "bt_entry b = service_of c conf' cfg (joined_gateway scope conf slot cfg) port name env lbl (sp_files sp) mounts"
  have "map_of (sp_labels sp) k = map_of (service_labels c depID conf slot []) k"
    using labels.attach [OF sp, of k "map_of (sp_labels sp0) k"] start k by simp
  moreover have "map_of lbl k = map_of (sp_labels sp) k"
    using lbl k by (auto simp add: update_conv')
  ultimately show ?thesis using k by (simp add: entry service_of_def update_conv')
qed

lemma built_labels:
  assumes "buildServiceEntry pf c depID conf slot db wh scope d = (Inr b, d')" "bt_emit b"
  shows "label_of (bt_entry b) ''gitops.context'' = de_context conf"
    and "label_of (bt_entry b) ''gitops.stage'' = StageOrProduction conf"
    and "label_of (bt_entry b) ''gitops.slot'' = slot"
  by (simp_all add: label_of_def built_label [OF assms] service_labels_def Let_def)

lemma infra_labels:
  "(name, sv) \<in> set (ic_services (generateInfraCompose d c svc stage)) \<Longrightarrow>
     sv_labels sv = [(''gitops.workspace'', cx_workspaceName c)]"
  by (auto simp: generateInfraCompose_def couchdbCompose_def garageCompose_def postgresCompose_def kafkaCompose_def
        infra_service_def infraNamesFor_def Let_def split: if_splits)

lemma not_workers:
  "\<not> is_worker (owner_service c k g)" "\<not> is_worker (proxy_service c k g)"
  "(name, sv) \<in> set (ic_services (generateInfraCompose d c svc stage)) \<Longrightarrow> \<not> is_worker (pin_network net sv)"
  by (auto simp: is_worker_def owner_service_def proxy_service_def gateway_labels_def pin_network_def Let_def
        dest!: infra_labels)

section \<open>Egress\<close>

definition compile_scope :: "platform \<Rightarrow> compile_state \<Rightarrow> fw_scope" where
  "compile_scope pf c = computeFirewallScope pf c (bs_deployments (cx_bs c))"

text \<open>Inside the namespace of its group's gateway, without the capabilities to leave it; or outside of
  it, and then the group's gateway does not enforce.\<close>

definition confined :: "service \<Rightarrow> string \<Rightarrow> bool" where
  "confined sv gw \<longleftrightarrow>
     sv_network_mode sv = Some (''service:'' @ gw) \<and> sv_networks sv = NetNone \<and> sv_replicas sv = None \<and>
     sv_depends_on sv = Some gw \<and> sv_cap_add sv = [] \<and> set (sv_cap_drop sv) = {''NET_ADMIN'', ''NET_RAW''}"

definition grouped :: "platform \<Rightarrow> compile_state \<Rightarrow> service \<Rightarrow> bool" where
  "grouped pf c sv \<longleftrightarrow>
     (case fwActive (compile_scope pf c) (label_of sv ''gitops.context'') (label_of sv ''gitops.stage'')
             (label_of sv ''gitops.slot'') of
        None \<Rightarrow> False
      | Some g \<Rightarrow> confined sv (fg_gw g) \<or> fg_mode g \<noteq> ''enforce'')"

definition null_free :: "deployments \<Rightarrow> bool" where
  "null_free ds \<longleftrightarrow> (\<forall>(depID, dep)\<in>set ds. dep \<noteq> None)"

lemma null_free_declared:
  "null_free (bs_deployments (cx_bs c)) \<Longrightarrow> depID \<in> fst ` set (bs_deployments (cx_bs c)) \<Longrightarrow>
     dep_at (bs_deployments (cx_bs c)) depID = Some (declared c depID)"
  by (auto simp: null_free_def declared_def dep_at_def map_of_eq_None_iff dest!: map_of_SomeD
        split: option.splits)

lemma slot_call_group:
  assumes "null_free (bs_deployments (cx_bs c))" "slot_call c depID conf slot"
  shows "\<exists>g. fwActive (compile_scope pf c) (de_context conf) (StageOrProduction conf) slot = Some g"
proof -
  from assms(2) have call: "depID \<in> fst ` set (bs_deployments (cx_bs c))" "\<not> inactive (declared c depID)"
      "slot \<in> fst ` set (slotDBPairs c (declared c depID))" "version_of (declared c depID) conf"
    by (auto simp: slot_call_def)
  have "de_context conf = de_context (declared c depID)" using call(4) by (simp add: version_of_def)
  then show ?thesis
    using computeFirewallScope_covers [OF null_free_declared [OF assms(1) call(1)] call(2,3), of pf]
    unfolding compile_scope_def version_of_stage [OF call(4)] by simp
qed

interpretation egress: service_law pf c
    "\<lambda>sv. null_free (bs_deployments (cx_bs c)) \<longrightarrow> is_worker sv \<longrightarrow> grouped pf c sv" for pf c
proof
  fix depID conf slot db wh d b d'
  assume call: "slot_call c depID conf slot"
    and built: "buildServiceEntry pf c depID conf slot db wh (computeFirewallScope pf c (bs_deployments (cx_bs c))) d = (Inr b, d')"
    and emit: "bt_emit b"
  show "null_free (bs_deployments (cx_bs c)) \<longrightarrow> is_worker (bt_entry b) \<longrightarrow> grouped pf c (bt_entry b)"
  proof (intro impI)
    assume "null_free (bs_deployments (cx_bs c))"
    from slot_call_group [OF this call] obtain g where
      g: "fwActive (compile_scope pf c) (de_context conf) (StageOrProduction conf) slot = Some g" by blast
    from built emit have "confined (bt_entry b) (fg_gw g) \<or> fg_mode g \<noteq> ''enforce''"
      by (rule built_entry)
         (auto simp: service_of_def joined_gateway_def g [unfolded compile_scope_def] confined_def
            service_networks_def empty_service_def Let_def)
    with g show "grouped pf c (bt_entry b)"
      by (simp add: grouped_def built_labels [OF built emit])
  qed
qed (simp_all add: not_workers)

text \<open>A service under a name that is not a worker.\<close>

definition gateway_at :: "services \<Rightarrow> string \<Rightarrow> bool" where
  "gateway_at services n \<longleftrightarrow> (\<exists>sv. map_of services n = Some sv \<and> \<not> is_worker sv)"

lemma gateway_at_update: "\<not> is_worker sv \<Longrightarrow> gateway_at services n \<Longrightarrow> gateway_at (AList.update m sv services) n"
  by (auto simp: gateway_at_def update_conv')

lemma gateway_at_add: "gateway_at services n \<Longrightarrow> gateway_at (add_gateway c scope k services) n"
  by (auto simp: add_gateway_def gateway_at_update not_workers split: option.splits)

lemma gateway_at_fold: "gateway_at services n \<Longrightarrow> gateway_at (fold (add_gateway c scope) ks services) n"
  by (induction ks arbitrary: services) (simp_all add: gateway_at_add)

lemma gateway_at_emitted:
  "k \<in> set ks \<Longrightarrow> map_of scope k = Some g \<Longrightarrow> fg_ok g \<Longrightarrow>
     gateway_at (fold (add_gateway c scope) ks services) (fg_gw g)"
proof (induction ks arbitrary: services)
  case (Cons k' ks)
  show ?case
  proof (cases "k' = k")
    case True
    then have "gateway_at (add_gateway c scope k' services) (fg_gw g)"
      using Cons.prems by (simp add: add_gateway_def gateway_at_def update_conv' not_workers)
    then show ?thesis by (simp add: gateway_at_fold)
  next
    case False
    with Cons show ?thesis by simp
  qed
qed simp

lemma merge_infra_keeps: "map_of (im_services m) n = Some sv \<Longrightarrow> map_of (im_services (fold (merge_infra d c) ps m)) n = Some sv"
  by (induction ps arbitrary: m) (auto simp: merge_infra_def Let_def split: prod.splits if_splits)

lemma compile_in_gateways:
  assumes "compile_in pf c d = (Inr (co, rts, mg), d')" "(k, g) \<in> set (compile_scope pf c)"
  obtains services where
    "\<And>n sv. map_of (fold (add_gateway c (compile_scope pf c)) (sort (map fst (compile_scope pf c))) services) n = Some sv \<Longrightarrow>
       map_of (co_services co) n = Some sv"
proof -
  have ok: "fg_ok g" using assms(2) computeFirewallScope_ok
    by (fastforce simp: compile_scope_def scope_ok_def)
  from assms(1) obtain s services nets where "compile_loop pf c d = (Inr s, d')"
    and parts: "emitGateways pf c (computeFirewallScope pf c (bs_deployments (cx_bs c))) (cp_services s) (cp_networks s)
       = Inr (services, nets)"
      "co_services co = im_services (mergeInfraServices d' c services (cp_deployments s) nets)"
    and "rts = cp_routes s"
    by (rule compile_in_parts)
  have "services = fold (add_gateway c (compile_scope pf c)) (sort (map fst (compile_scope pf c))) (cp_services s)"
    using parts(1) assms(2) ok by (force simp: emitGateways_def compile_scope_def split: if_splits)
  then show thesis
    using that [of "cp_services s"] merge_infra_keeps by (simp add: parts(2) mergeInfraServices_def)
qed

lemma scope_lookup: "(k, g) \<in> set (compile_scope pf c) \<Longrightarrow> map_of (compile_scope pf c) k = Some g \<and> fg_ok g"
  using computeFirewallScope_ok [of pf c "bs_deployments (cx_bs c)"]
  by (fastforce simp: compile_scope_def scope_ok_def)

lemma group_has_gateway:
  assumes "compile_in pf c d = (Inr (co, rts, mg), d')" "(k, g) \<in> set (compile_scope pf c)"
  shows "gateway_at (co_services co) (fg_gw g)"
proof -
  obtain services where
    keep: "\<And>n sv. map_of (fold (add_gateway c (compile_scope pf c)) (sort (map fst (compile_scope pf c))) services) n = Some sv \<Longrightarrow>
       map_of (co_services co) n = Some sv"
    using compile_in_gateways [OF assms] by blast
  have "k \<in> set (sort (map fst (compile_scope pf c)))" using assms(2) by force
  from gateway_at_emitted [OF this, of "compile_scope pf c" g c services] scope_lookup [OF assms(2)] keep
  show ?thesis by (auto simp: gateway_at_def)
qed

lemma newCompileState_bs [simp]: "cx_bs (newCompileState pf d genv wctx bs) = bs"
  by (simp add: newCompileState_def Let_def)

lemma newCompileState_name [simp]: "cx_workspaceName (newCompileState pf d genv wctx bs) = wc_name wctx"
  by (simp add: newCompileState_def Let_def)

text \<open>No process's rules for a realm say anything but enforce.\<close>

definition enforced_realm :: "bitswan \<Rightarrow> string \<Rightarrow> bool" where
  "enforced_realm bs realm \<longleftrightarrow> postureFor realm = ''enforce'' \<and>
     (\<forall>(bp, byRealm)\<in>set (bs_firewall bs). \<forall>(r, node)\<in>set byRealm.
        r = realm \<longrightarrow> (case node of None \<Rightarrow> True | Some n \<Rightarrow> fn_posture n = [] \<or> fn_posture n = ''enforce''))"

lemma enforced_node:
  assumes "enforced_realm bs realm" "firewallNode bs bp realm = Some node"
  shows "fn_posture node = [] \<or> fn_posture node = ''enforce''"
proof -
  from assms(2) obtain byRealm where "(bp, byRealm) \<in> set (bs_firewall bs)" "(realm, Some node) \<in> set byRealm"
    by (auto simp: firewallNode_def split: option.splits dest: map_of_SomeD)
  with assms(1) show ?thesis by (fastforce simp: enforced_realm_def)
qed

lemma enforced_group:
  "enforced_realm (cx_bs c) (realmForStage (StageOrProduction conf)) \<Longrightarrow> fg_mode (new_group pf c conf slot) = ''enforce''"
  using enforced_node [of "cx_bs c" "realmForStage (StageOrProduction conf)"]
  by (auto simp: new_group_def Let_def enforced_realm_def split: option.splits)

text \<open>C3: egress fails closed. Whatever a workspace declares, as long as no entry of its deployments is
  null and nobody's firewall rules for the realm ask for less than enforcement: in a realm that is
  enforced by default (staging and production), every worker of the compiled project runs inside
  the network namespace of its group's gateway, with no network, no replicas and no added capability
  of its own and without NET_ADMIN and NET_RAW, and starts only when the gateway is healthy. The
  project has a service under the gateway's name, and it is not a worker.
\<close>

theorem enforced_workers_are_confined:
  assumes "compile pf genv wctx bs d = (Inr (co, rts, mg), d')"
    and "null_free (bs_deployments bs)"
    and "(name, sv) \<in> set (co_services co)" "is_worker sv"
    and "enforced_realm bs (realmForStage (label_of sv ''gitops.stage''))"
  shows "\<exists>gw. gw = makeHostnameLabel (pf_sha pf) (wc_name wctx) ''fwgw'' (label_of sv ''gitops.context'')
                    (label_of sv ''gitops.stage'') (label_of sv ''gitops.slot'') \<and>
     confined sv gw \<and> gateway_at (co_services co) gw"
proof -
  let ?c = "newCompileState pf d genv wctx bs"
  let ?ctx = "label_of sv ''gitops.context''" and ?stage = "label_of sv ''gitops.stage''"
    and ?slot = "label_of sv ''gitops.slot''"
  have run: "compile_in pf ?c d = (Inr (co, rts, mg), d')" using assms(1) by (simp add: compile_def)
  have "grouped pf ?c sv" using egress.compiled [OF run assms(3)] assms(2,4) by simp
  then obtain g where g: "fwActive (compile_scope pf ?c) ?ctx ?stage ?slot = Some g"
      "confined sv (fg_gw g) \<or> fg_mode g \<noteq> ''enforce''"
    by (auto simp: grouped_def split: option.splits)
  obtain conf where
    conf: "g = new_group pf ?c conf ?slot" "de_context conf = ?ctx" "StageOrProduction conf = ?stage"
    using fwActive_group [OF computeFirewallScope_ok g(1) [unfolded compile_scope_def]] by blast
  have mode: "fg_mode g = ''enforce''"
    unfolding conf(1) using assms(5) by (intro enforced_group) (simp add: conf(3))
  have gw: "fg_gw g = makeHostnameLabel (pf_sha pf) (wc_name wctx) ''fwgw'' ?ctx ?stage ?slot"
    unfolding conf(1) using conf(2,3) by (simp add: new_group_def Let_def cx_label_def)
  have "(FwKey ?ctx ?stage ?slot, g) \<in> set (compile_scope pf ?c)"
    using g(1) by (auto simp: fwActive_def split: option.splits if_splits dest: map_of_SomeD)
  from group_has_gateway [OF run this] g(2) mode gw show ?thesis by auto
qed

section \<open>A sample workspace\<close>

text \<open>A workspace with one deployment, in production, and the same workspace with a null entry.\<close>

definition sample_platform :: platform where
  "sample_platform =
     \<lparr>pf_sha = (\<lambda>s. ''c0ffee00c0ffee00''), pf_toml = (\<lambda>s. None), pf_registry = (\<lambda>s. None),
      pf_open = (\<lambda>k b. None), pf_json = (\<lambda>j. []), pf_key = None, pf_password = (\<lambda>p. Some ''pw''),
      pf_writable = (\<lambda>p. True), pf_real = (\<lambda>p. RealMissing)\<rparr>"

definition sample_files :: disk where
  "sample_files = \<lparr>dk_file = (\<lambda>p. None), dk_dir = (\<lambda>p. p = ''/g/app'')\<rparr>"

definition sample_wctx :: workspace_context where
  "sample_wctx =
     \<lparr>wc_name = ''ws'', wc_domain = ''example.com'', wc_gitops_dir = ''/g'', wc_secrets_dir = ''/s'', wc_wrap = False,
      wc_bp = []\<rparr>"

definition sample_bitswan :: "deployment option \<Rightarrow> bitswan" where
  "sample_bitswan d =
     \<lparr>bs_deployments = [(''app'', d)], bs_processes = [], bs_backups = [], bs_secrets = [], bs_firewall = []\<rparr>"

definition sample_run :: "deployment option \<Rightarrow> (driver_err + compose \<times> route list \<times> string list) \<times> disk" where
  "sample_run d = compile sample_platform (\<lambda>k. []) sample_wctx (sample_bitswan d) sample_files"

definition sample_compose :: "deployment option \<Rightarrow> compose" where
  "sample_compose d =
     (case fst (sample_run d) of Inr (co, rts, mg) \<Rightarrow> co
      | Inl e \<Rightarrow> \<lparr>co_services = [], co_networks = [], co_volumes = []\<rparr>)"

definition sample_service :: "deployment option \<Rightarrow> service" where
  "sample_service d = the (map_of (co_services (sample_compose d)) ''ws-app-production'')"

lemma sample_compiled:
  assumes "\<not> isl (fst (sample_run d))"
  obtains rts mg d' where
    "compile sample_platform (\<lambda>k. []) sample_wctx (sample_bitswan d) sample_files = (Inr (sample_compose d, rts, mg), d')"
proof -
  obtain r d' where r: "sample_run d = (r, d')" by fastforce
  with assms obtain co rts mg where "r = Inr (co, rts, mg)" by (cases r) auto
  with r have "sample_run d = (Inr (sample_compose d, rts, mg), d')" by (simp add: sample_compose_def)
  then show ?thesis unfolding sample_run_def by (rule that)
qed

lemma sample_service_mem:
  assumes "map_of (co_services (sample_compose d)) ''ws-app-production'' \<noteq> None"
  shows "(''ws-app-production'', sample_service d) \<in> set (co_services (sample_compose d))"
  using assms by (auto simp: sample_service_def dest: map_of_SomeD)

theorem enforced_workers_are_confined_witness:
  "is_worker (sample_service (Some empty_deployment)) \<and>
   (\<exists>gw. confined (sample_service (Some empty_deployment)) gw \<and>
      gateway_at (co_services (sample_compose (Some empty_deployment))) gw)"
proof -
  let ?d = "Some empty_deployment"
  have "\<not> isl (fst (sample_run ?d))" by code_simp
  then obtain rts mg d' where run: "compile sample_platform (\<lambda>k. []) sample_wctx (sample_bitswan ?d) sample_files =
      (Inr (sample_compose ?d, rts, mg), d')"
    by (rule sample_compiled)
  have "map_of (co_services (sample_compose ?d)) ''ws-app-production'' \<noteq> None" by code_simp
  then have mem: "(''ws-app-production'', sample_service ?d) \<in> set (co_services (sample_compose ?d))"
    by (rule sample_service_mem)
  have worker: "is_worker (sample_service ?d)" by code_simp
  have stage: "enforced_realm (sample_bitswan ?d) (realmForStage (label_of (sample_service ?d) ''gitops.stage''))"
    by code_simp
  have free: "null_free (bs_deployments (sample_bitswan ?d))" by code_simp
  from enforced_workers_are_confined [OF run free mem worker stage] worker show ?thesis by auto
qed

text \<open>The hypothesis on null entries is needed. A deployment whose entry is null gets no egress
  gateway, since the firewall scope skips it, but the compile loop reads it as an empty deployment:
  the container runs in the realm of production, which is enforced, in no gateway's namespace and on
  the networks of its stage.\<close>

lemma null_deployment_escapes:
  "enforced_realm (sample_bitswan None) (realmForStage (label_of (sample_service None) ''gitops.stage'')) \<and>
   is_worker (sample_service None) \<and> sv_network_mode (sample_service None) = None \<and>
   sv_networks (sample_service None) \<noteq> NetNone"
  by code_simp

end
