(* ===== verification/Driver_Scope.thy ===== *)
theory Driver_Scope
  imports Driver_Confine
begin

text \<open>
  What a compiled service can reach besides the outside world: the networks it is attached to, the
  parts of the disk it mounts, the secrets files it is given, and the ports it shares with the other
  workers of its gateway. The driver is meant to be a constraining layer, so each of these is a law
  about whatever the declaration says.
\<close>

section \<open>Networks\<close>

text \<open>A network of the workspace's stages, or the one for external tests.\<close>

definition workspace_net :: "string \<Rightarrow> string \<Rightarrow> bool" where
  "workspace_net ws n \<longleftrightarrow> n = ''bitswan_external_testing'' \<or> (\<exists>realm. n = ws @ ''-'' @ realm)"

definition net_bound :: "string \<Rightarrow> service \<Rightarrow> bool" where
  "net_bound ws sv \<longleftrightarrow> (\<forall>n\<in>set (net_names (sv_networks sv)). workspace_net ws n) \<and>
     (sv_network_mode sv = None \<or> (\<exists>gw. sv_network_mode sv = Some (''service:'' @ gw)))"

lemma workspace_net_stage: "workspace_net (cx_workspaceName c) (stageNetwork c realm)"
  by (auto simp: workspace_net_def stageNetwork_def)

lemma workspace_net_testing: "workspace_net ws ''bitswan_external_testing''"
  by (simp add: workspace_net_def)

lemma workspace_net_control: "\<not> workspace_net ws ''bitswan_network''"
proof
  assume "workspace_net ws ''bitswan_network''"
  then obtain realm where "''bitswan_network'' = ws @ ''-'' @ realm" by (auto simp: workspace_net_def)
  then have "CHR ''-'' \<in> set ''bitswan_network''" by simp
  then show False by simp
qed

lemma net_names_service:
  "n \<in> set (net_names (service_networks c conf cfg joined port name)) \<Longrightarrow> workspace_net (cx_workspaceName c) n"
  by (auto simp: service_networks_def net_names_def networks_list_def Let_def workspace_net_stage
        workspace_net_testing split: if_splits)

lemma infra_service_mode [simp]: "sv_network_mode (infra_service n img ct) = None"
  by (simp add: infra_service_def empty_service_def)

lemma couchdb_mode: "(name, sv) \<in> set (ic_services (couchdbCompose n)) \<Longrightarrow> sv_network_mode sv = None"
  by (auto simp: couchdbCompose_def)

lemma garage_mode: "(name, sv) \<in> set (ic_services (garageCompose c n)) \<Longrightarrow> sv_network_mode sv = None"
  by (auto simp: garageCompose_def Let_def)

lemma postgres_mode: "(name, sv) \<in> set (ic_services (postgresCompose n)) \<Longrightarrow> sv_network_mode sv = None"
  by (auto simp: postgresCompose_def)

lemma kafka_mode: "(name, sv) \<in> set (ic_services (kafkaCompose d s n)) \<Longrightarrow> sv_network_mode sv = None"
  by (auto simp: kafkaCompose_def)

lemma infra_mode:
  "(name, sv) \<in> set (ic_services (generateInfraCompose d c svc stage)) \<Longrightarrow> sv_network_mode sv = None"
  unfolding generateInfraCompose_def Let_def by (auto split: if_split_asm dest: couchdb_mode garage_mode postgres_mode kafka_mode)

lemma built_service:
  assumes "buildServiceEntry pf c depID conf slot db wh scope d = (Inr b, d')" "bt_emit b"
  obtains conf' cfg joined port name env labels files mounts where
    "bt_entry b = service_of c conf' cfg joined port name env labels files mounts"
  using assms by (rule built_entry) (rule that)

interpretation nets: service_law pf c "net_bound (cx_workspaceName c)" for pf c
proof
  fix depID conf slot db wh d b d'
  assume built: "buildServiceEntry pf c depID conf slot db wh (computeFirewallScope pf c (bs_deployments (cx_bs c))) d = (Inr b, d')"
    and emit: "bt_emit b"
  then obtain conf' cfg joined port name env labels files mounts where
    entry: "bt_entry b = service_of c conf' cfg joined port name env labels files mounts"
    by (rule built_service)
  show "net_bound (cx_workspaceName c) (bt_entry b)"
    unfolding entry by (auto simp: net_bound_def service_of_def empty_service_def net_names_service)
next
  fix k g
  show "net_bound (cx_workspaceName c) (owner_service c k g) \<and> net_bound (cx_workspaceName c) (proxy_service c k g)"
    by (auto simp: net_bound_def owner_service_def proxy_service_def empty_service_def net_names_def
          workspace_net_stage Let_def)
next
  fix name sv d svc stage
  assume "(name, sv) \<in> set (ic_services (generateInfraCompose d c svc stage))"
  then show "net_bound (cx_workspaceName c) (pin_network (stageNetwork c (realmForStage stage)) sv)"
    by (auto simp: net_bound_def pin_network_def infra_mode net_names_def workspace_net_stage Let_def)
qed

text \<open>C9: no service of a compiled project is on the control plane's network. Every network it is
  attached to is one of its workspace's stages or the one for external tests, never
  \<open>bitswan_network\<close> (though every infrastructure template asks for it), and its network mode, if it
  has one, is another service's namespace, never the host's.\<close>

theorem services_stay_off_the_control_network:
  assumes "compile pf genv wctx bs d = (Inr (co, rts, mg), d')" "(name, sv) \<in> set (co_services co)"
  shows "(\<forall>n\<in>set (net_names (sv_networks sv)). workspace_net (wc_name wctx) n \<and> n \<noteq> ''bitswan_network'') \<and>
    (sv_network_mode sv = None \<or> (\<exists>gw. sv_network_mode sv = Some (''service:'' @ gw)))"
proof -
  let ?c = "newCompileState pf d genv wctx bs"
  have run: "compile_in pf ?c d = (Inr (co, rts, mg), d')" using assms(1) by (simp add: compile_def)
  have "net_bound (wc_name wctx) sv" using nets.compiled [OF run assms(2)] by simp
  then show ?thesis using workspace_net_control [of "wc_name wctx"] by (auto simp: net_bound_def)
qed

section \<open>Secrets files\<close>

text \<open>The files of secrets that belong to a deployment: those of its business process unless it is
  exposed, the credentials of its own database and bucket (or the realm's system key where it has
  no bucket), and the shared services it depends on, of which the database server's only where it
  has no database of its own, and the object store's never.\<close>

definition own_files :: "compile_state \<Rightarrow> deployment \<Rightarrow> automation_config \<Rightarrow> int \<Rightarrow> string list" where
  "own_files c conf cfg db =
     (let sd = cx_secretsDir c; realm = credRealm conf;
          bp = fst (deriveBPAndCopy (de_relative_path conf));
          names = resource_names_for c conf db
      in (if bp \<noteq> [] \<and> \<not> ac_expose cfg then [bpSecretEnvFilePath sd bp (StageOrProduction conf)] else []) @
         (case names of
            Some n \<Rightarrow> [dbCredsPath sd realm (rn_postgres_db n), bucketCredsPath sd realm (rn_s3_bucket n)]
          | None \<Rightarrow> [bucketCredsPath sd realm systemKeyName]) @
         map (\<lambda>n. filepath_Join [sd, n])
           (filter (\<lambda>n. \<not> prefix ''garage'' n \<and> \<not> (names \<noteq> None \<and> prefix ''postgres'' n))
              (resolveServiceSecrets cfg (StageOrProduction conf))))"

lemma env_str_set_env [simp]: "env_str (set_env k v env) k' = (if k' = k then v else env_str env k')"
  by (simp add: env_str_def set_env_def update_conv')

lemma env_str_set_env_ne:
  "env_str (set_env_ne k v env) k' = (if v \<noteq> [] \<and> k' = k then v else env_str env k')"
  by (simp add: set_env_ne_def)

lemma resource_env_str:
  "env_str (resource_env c conf db env) ''POSTGRES_DB'' =
     (case resource_names_for c conf db of None \<Rightarrow> env_str env ''POSTGRES_DB'' | Some n \<Rightarrow> rn_postgres_db n)"
  "env_str (resource_env c conf db env) ''S3_BUCKET'' =
     (case resource_names_for c conf db of None \<Rightarrow> env_str env ''S3_BUCKET'' | Some n \<Rightarrow> rn_s3_bucket n)"
  by (simp_all add: resource_env_def split: option.splits)

lemma base_env_str:
  "env_str (base_env pf c conf slot db eid workers assigned) ''POSTGRES_DB'' =
     (case resource_names_for c conf db of None \<Rightarrow> [] | Some n \<Rightarrow> rn_postgres_db n)"
  "env_str (base_env pf c conf slot db eid workers assigned) ''S3_BUCKET'' =
     (case resource_names_for c conf db of None \<Rightarrow> [] | Some n \<Rightarrow> rn_s3_bucket n)"
  by (simp_all add: base_env_def Let_def env_str_set_env_ne resource_env_str split: option.split)
     (simp_all add: env_str_def)

text \<open>The names of a database and a bucket are never empty.\<close>

lemma trim_right_byte_eq_Nil: "trim_right_byte x s = [] \<longleftrightarrow> (\<forall>y\<in>set s. y = x)"
  by (simp add: trim_right_byte_def dropWhile_eq_Nil_conv)

lemma truncate_str_Cons: "0 < n \<Longrightarrow> truncate_str (x # xs) n = x # truncate_str xs (n - 1)"
  by (cases n) (simp_all add: truncate_str_take)

lemma resource_names_nonempty:
  assumes "resource_names_for c conf db = Some n"
  shows "rn_postgres_db n \<noteq> [] \<and> rn_s3_bucket n \<noteq> []"
  using assms
  by (auto simp: resource_names_for_def Let_def bpResourceNames_def copyBPResourceNames_def truncate_str_Cons
        trim_right_byte_eq_Nil maxLabelLen_def split: if_splits prod.splits)

text \<open>An environment with the deployment's own database and bucket, or none.\<close>

definition own_env :: "compile_state \<Rightarrow> deployment \<Rightarrow> int \<Rightarrow> env \<Rightarrow> bool" where
  "own_env c conf db env \<longleftrightarrow>
     env_str env ''POSTGRES_DB'' =
       (case resource_names_for c conf db of None \<Rightarrow> [] | Some n \<Rightarrow> rn_postgres_db n) \<and>
     env_str env ''S3_BUCKET'' = (case resource_names_for c conf db of None \<Rightarrow> [] | Some n \<Rightarrow> rn_s3_bucket n)"

definition own_part :: "compile_state \<Rightarrow> deployment \<Rightarrow> automation_config \<Rightarrow> int \<Rightarrow> secret_part \<Rightarrow> bool" where
  "own_part c conf cfg db sp \<longleftrightarrow>
     own_env c conf db (sp_env sp) \<and> set (sp_files sp) \<subseteq> set (own_files c conf cfg db)"

lemma set_appendEnvFile [simp]: "set (appendEnvFile p ef) = insert p (set ef)"
  by (auto simp: appendEnvFile_def)

lemma own_env_set_ne:
  "own_env c conf db env \<Longrightarrow> k \<noteq> ''POSTGRES_DB'' \<Longrightarrow> k \<noteq> ''S3_BUCKET'' \<Longrightarrow> own_env c conf db (set_env_ne k v env)"
  by (simp add: own_env_def env_str_set_env_ne)

lemma own_env_S3: "own_env c conf db env \<Longrightarrow> own_env c conf db (copyS3Coordinates d c realm env)"
  by (auto simp: copyS3Coordinates_def own_env_set_ne split: option.splits)

interpretation files: secrets_law pf c conf slot cfg sp0
    "\<lambda>sp. own_env c conf db (sp_env sp0) \<longrightarrow> own_part c conf cfg db sp" for pf c conf slot cfg sp0 db
proof
  fix sp d sp' d'
  assume keep: "own_env c conf db (sp_env sp0) \<longrightarrow> own_part c conf cfg db sp"
    and run: "bp_secrets pf c conf slot (ac_expose cfg) sp d = (Inr sp', d')"
  have "sp_env sp' = sp_env sp \<and> (sp_files sp' = sp_files sp \<or>
      fst (deriveBPAndCopy (de_relative_path conf)) \<noteq> [] \<and> \<not> ac_expose cfg \<and>
      sp_files sp' = appendEnvFile (bpSecretEnvFilePath (cx_secretsDir c)
        (fst (deriveBPAndCopy (de_relative_path conf))) (StageOrProduction conf)) (sp_files sp))"
    using run by (auto simp: bp_secrets_def materializeEnv_def Let_def split: if_splits option.splits prod.splits)
  with keep show "own_env c conf db (sp_env sp0) \<longrightarrow> own_part c conf cfg db sp'"
    by (auto simp: own_part_def own_files_def Let_def)
next
  fix sp d sp' d'
  assume keep: "own_env c conf db (sp_env sp0) \<longrightarrow> own_part c conf cfg db sp"
    and run: "scoped_postgres pf c (credRealm conf) sp d = (Inr sp', d')"
  show "own_env c conf db (sp_env sp0) \<longrightarrow> own_part c conf cfg db sp'"
  proof
    assume "own_env c conf db (sp_env sp0)"
    with keep have own: "own_part c conf cfg db sp" by simp
    show "own_part c conf cfg db sp'"
    proof (cases "resource_names_for c conf db")
      case None
      with own run show ?thesis by (auto simp: scoped_postgres_def own_part_def own_env_def Let_def)
    next
      case (Some n)
      with own have "env_str (sp_env sp) ''POSTGRES_DB'' = rn_postgres_db n"
        by (simp add: own_part_def own_env_def)
      with run Some own resource_names_nonempty [OF Some] show ?thesis
        by (auto simp: scoped_postgres_def own_part_def own_files_def own_env_set_ne Let_def
              split: option.splits prod.splits)
    qed
  qed
next
  fix sp b d sp' d'
  assume keep: "own_env c conf db (sp_env sp0) \<longrightarrow> own_part c conf cfg db sp"
    and run: "attach_bucket pf c (credRealm conf) b sp d = (Inr sp', d')"
    and b: "b = env_str (sp_env sp0) ''S3_BUCKET'' \<and> b \<noteq> [] \<or>
      b = systemKeyName \<and> env_str (sp_env sp0) ''S3_BUCKET'' = [] \<and>
        (\<exists>n\<in>set (resolveServiceSecrets cfg (StageOrProduction conf)). prefix ''garage'' n)"
  show "own_env c conf db (sp_env sp0) \<longrightarrow> own_part c conf cfg db sp'"
  proof
    assume own0: "own_env c conf db (sp_env sp0)"
    with keep have own: "own_part c conf cfg db sp" by simp
    have "bucketCredsPath (cx_secretsDir c) (credRealm conf) b \<in> set (own_files c conf cfg db)"
      using b own0 resource_names_nonempty [of c conf db]
      by (auto simp: own_env_def own_files_def Let_def split: option.splits)
    with own run show "own_part c conf cfg db sp'"
      by (auto simp: attach_bucket_def own_part_def own_env_S3 split: option.splits prod.splits bool.splits)
  qed
next
  fix sp n
  assume keep: "own_env c conf db (sp_env sp0) \<longrightarrow> own_part c conf cfg db sp"
    and n: "n \<in> set (resolveServiceSecrets cfg (StageOrProduction conf))" "\<not> prefix ''garage'' n"
      "\<not> (env_str (sp_env sp0) ''POSTGRES_DB'' \<noteq> [] \<and> prefix ''postgres'' n)"
  show "own_env c conf db (sp_env sp0) \<longrightarrow>
      own_part c conf cfg db (sp\<lparr>sp_files := appendEnvFile (filepath_Join [cx_secretsDir c, n]) (sp_files sp)\<rparr>)"
  proof
    assume own0: "own_env c conf db (sp_env sp0)"
    with keep have own: "own_part c conf cfg db sp" by simp
    have "filepath_Join [cx_secretsDir c, n] \<in> set (own_files c conf cfg db)"
      using n own0 resource_names_nonempty [of c conf db]
      by (auto simp: own_env_def own_files_def Let_def split: option.splits)
    with own show "own_part c conf cfg db
        (sp\<lparr>sp_files := appendEnvFile (filepath_Join [cx_secretsDir c, n]) (sp_files sp)\<rparr>)"
      by (simp add: own_part_def)
  qed
qed

lemma resource_names_for_disk [simp]:
  "resource_names_for c (with_disk_services cfg conf) db = resource_names_for c conf db"
  by (simp add: resource_names_for_def Let_def)


section \<open>Mounts\<close>

lemma containedJoin_below:
  "containedJoin root elem = Some p \<Longrightarrow> below_root root p"
  using contained_Rel [of "filepath_Clean root" "filepath_Join [filepath_Clean root, elem]"]
  by (auto simp: containedJoin_def Let_def filepath_Join_Clean split: option.splits)

text \<open>What a worker may mount: its certificates, and read-only under \<open>/app/\<close> one source, below the
  roots on the host, or with a shared volume at a subpath made of the declared path.\<close>

definition own_mount :: "compile_state \<Rightarrow> string \<Rightarrow> deployment \<Rightarrow> mount \<Rightarrow> bool" where
  "own_mount c depID conf m \<longleftrightarrow>
     (case m of
        Bind s \<Rightarrow>
          s = cx_certsDirHost c @ '':/usr/local/share/ca-certificates/custom:ro'' \<or>
          (\<exists>p. s = p @ '':/app/:ro'' \<and> (below_root (cx_workspaceDir c) p \<or> below_root (cx_gitopsDirHost c) p))
      | Subpath v t p ro \<Rightarrow>
          v = cx_volumeName c \<and> t = ''/app/'' \<and> ro \<and>
          (p = normalizeSubpath (''workspaces/'' @ cx_workspaceName c @ ''/gitops/'' @ service_source depID conf) \<or>
           StageOrProduction conf = ''live-dev'' \<and>
           p = normalizeSubpath (''workspaces/'' @ cx_workspaceName c @ ''/'' @ de_relative_path conf)))"

lemma resolved_mount_path: "ac_mount_path (resolveAutomationConfig pf d c conf) = ''/app/''"
proof -
  have "ac_mount_path (readAutomationConfig f d' s) = ''/app/''" for f d' s
    by (auto simp: readAutomationConfig_def parseAutomationTOML_def defaultAutomationConfig_def
        split: option.splits if_splits)
  then show ?thesis
    by (auto simp: resolveAutomationConfig_def defaultAutomationConfig_def Let_def split: option.splits)
qed

lemma source_mount_own:
  assumes "source_mount pf c depID conf (service_source depID conf) sourceDir hostDir ''/app/'' = Inr mounts"
    and "containedJoin (cx_gitopsDirHost c) (service_source depID conf) = Some hostDir" "m \<in> set mounts"
  shows "own_mount c depID conf m"
  using assms containedJoin_below
  by (fastforce simp: source_mount_def own_mount_def Let_def split: if_splits option.splits)


section \<open>Samples\<close>

text \<open>A worker of the process \<open>shop\<close>, registered for the realm \<open>dev\<close>, that depends on every service.\<close>

definition shop_platform :: platform where
  "shop_platform = sample_platform
     \<lparr>pf_toml := (\<lambda>s. Some \<lparr>tm_image = [], tm_expose = False, tm_port = 0, tm_external_testing = False,
        tm_services = [(''postgres'', None), (''garage'', None), (''kafka'', None)]\<rparr>),
      pf_registry := (\<lambda>s. Some [(''shop'', [''dev''])])\<rparr>"

definition shop_files :: disk where
  "shop_files =
     \<lparr>dk_file = (\<lambda>p.
        if p = ''/g/app/automation.toml'' then
          Some (''[services.postgres]'' @ [newline] @ ''[services.garage]'' @ [newline] @ ''[services.kafka]'')
        else if p = ''/s/bp-databases.json'' then Some ''{}''
        else if p = ''/s/kafka-dev'' \<or> p = ''/s/postgres-dev'' \<or> p = ''/s/garage-dev'' then Some ''A=b''
        else None),
      dk_dir = (\<lambda>p. p = ''/g/app'')\<rparr>"

definition shop_conf :: deployment where
  "shop_conf = empty_deployment\<lparr>de_stage := ''dev'', de_checksum := ''app'', de_relative_path := ''copies/main/shop/app''\<rparr>"

definition shop_state :: "string \<Rightarrow> compile_state" where
  "shop_state volume =
     newCompileState shop_platform shop_files (\<lambda>k. if k = ''BITSWAN_VOLUME_NAME'' then volume else []) sample_wctx
       (sample_bitswan None)"

definition shop_build :: "string \<Rightarrow> deployment \<Rightarrow> (driver_err + built) \<times> disk" where
  "shop_build volume conf =
     buildServiceEntry shop_platform (shop_state volume) ''app'' conf [] 0 \<lparr>wh_out = [], wh_ports = [], wh_used = []\<rparr> []
       shop_files"

definition shop_built :: "string \<Rightarrow> deployment \<Rightarrow> built" where
  "shop_built volume conf = (case fst (shop_build volume conf) of
       Inr b \<Rightarrow> b
     | Inl e \<Rightarrow> \<lparr>bt_entry = empty_service, bt_name = [], bt_route = None, bt_emit = False, bt_conf = conf, bt_networks = []\<rparr>)"

lemma shop_runs:
  assumes "\<not> isl (fst (shop_build volume conf))"
  obtains d' where
    "buildServiceEntry shop_platform (shop_state volume) ''app'' conf [] 0 \<lparr>wh_out = [], wh_ports = [], wh_used = []\<rparr> []
       shop_files = (Inr (shop_built volume conf), d')"
proof -
  obtain r d' where r: "shop_build volume conf = (r, d')" by fastforce
  with assms have "r = Inr (shop_built volume conf)" by (cases r) (auto simp: shop_built_def)
  with r show ?thesis using that by (simp add: shop_build_def)
qed

theorem services_stay_off_the_control_network_witness:
  "net_names (sv_networks (sample_service None)) = [''ws-production''] \<and>
   list_all (\<lambda>n. workspace_net ''ws'' n \<and> n \<noteq> ''bitswan_network'') (net_names (sv_networks (sample_service None)))"
proof -
  have "\<not> isl (fst (sample_run None))" by code_simp
  then obtain rts mg d' where run: "compile sample_platform (\<lambda>k. []) sample_wctx (sample_bitswan None) sample_files =
      (Inr (sample_compose None, rts, mg), d')"
    by (rule sample_compiled)
  have "map_of (co_services (sample_compose None)) ''ws-app-production'' \<noteq> None" by code_simp
  from services_stay_off_the_control_network [OF run sample_service_mem [OF this]]
  have "list_all (\<lambda>n. workspace_net ''ws'' n \<and> n \<noteq> ''bitswan_network'') (net_names (sv_networks (sample_service None)))"
    by (simp add: sample_wctx_def list_all_iff)
  moreover have "net_names (sv_networks (sample_service None)) = [''ws-production'']" by code_simp
  ultimately show ?thesis by simp
qed



text \<open>With a shared volume, which is how the server is installed, the declared path of a live-dev worker
  is checked against the repository's root but joined to the workspace's directory of the volume.
  That directory also holds the workspace's secrets, so a declared path of \<open>secrets\<close> mounts all of
  them into the worker.\<close>

lemma live_dev_mounts_the_secrets:
  "sv_volumes (bt_entry (shop_built ''bitswan''
      (shop_conf\<lparr>de_stage := ''live-dev'', de_relative_path := ''secrets''\<rparr>))) =
     [Subpath ''bitswan'' ''/app/'' ''workspaces/ws/secrets'' True]"
  by code_simp

end
