(* ===== verification/Driver_Gateways.thy ===== *)
theory Driver_Gateways
  imports Driver_Confine
begin

text \<open>
  What the workers of a firewall group share: the gateway that carries the rules of the group, and
  the one network namespace in which their ports must not clash.
\<close>

section \<open>Ports\<close>

lemma next_free:
  "next_free used p \<notin> set used \<and> p \<le> next_free used p \<and> (\<forall>q. p \<le> q \<and> q < next_free used p \<longrightarrow> q \<in> set used)"
proof (induction used p rule: next_free.induct)
  case (1 used p)
  show ?case
  proof (cases "p \<in> set used")
    case True
    then have eq: "next_free used p = next_free used (p + 1)" by (subst next_free.simps) simp
    have "q \<in> set used" if "p \<le> q" "q < next_free used (p + 1)" for q
      using that True 1 [OF True] by (cases "q = p") auto
    then show ?thesis unfolding eq using 1 [OF True] by auto
  next
    case False
    then have "next_free used p = p" by (subst next_free.simps) simp
    with False show ?thesis by auto
  qed
qed

text \<open>The ports a worker binds: its own, and for an exposed one that of the server behind its shim.\<close>

definition ports_of :: "port_assignment \<Rightarrow> int list" where
  "ports_of a = pa_app a # (if pa_ui a \<noteq> 0 then [pa_ui a] else [])"

definition grouped_key :: "fw_scope \<Rightarrow> fw_key \<Rightarrow> bool" where
  "grouped_key scope key \<longleftrightarrow> fwActive scope (fk_ctx key) (fk_stage key) (fk_slot key) \<noteq> None"

definition ports_ok :: "fw_scope \<Rightarrow> worker_hosts \<Rightarrow> bool" where
  "ports_ok scope w \<longleftrightarrow>
     (\<forall>key n a. grouped_key scope key \<longrightarrow> map_of (wh_ports w) (key, n) = Some a \<longrightarrow>
        distinct (ports_of a) \<and> set (ports_of a) \<subseteq> set (used_in (wh_used w) key)) \<and>
     (\<forall>key n1 n2 a1 a2. grouped_key scope key \<longrightarrow> n1 \<noteq> n2 \<longrightarrow>
        map_of (wh_ports w) (key, n1) = Some a1 \<longrightarrow> map_of (wh_ports w) (key, n2) = Some a2 \<longrightarrow>
        set (ports_of a1) \<inter> set (ports_of a2) = {})"

lemma ports_okD:
  assumes "ports_ok scope w" "grouped_key scope key"
  shows "map_of (wh_ports w) (key, n) = Some a \<Longrightarrow>
      distinct (ports_of a) \<and> set (ports_of a) \<subseteq> set (used_in (wh_used w) key)"
    and "n1 \<noteq> n2 \<Longrightarrow> map_of (wh_ports w) (key, n1) = Some a1 \<Longrightarrow> map_of (wh_ports w) (key, n2) = Some a2 \<Longrightarrow>
      set (ports_of a1) \<inter> set (ports_of a2) = {}"
  using assms unfolding ports_ok_def by blast+

lemma ports_ok_assign:
  assumes ok: "ports_ok scope w"
    and fresh: "grouped_key scope key \<Longrightarrow> distinct (ports_of a) \<and>
      set (ports_of a) \<inter> set (used_in (wh_used w) key) = {} \<and>
      set (ports_of a) \<union> set (used_in (wh_used w) key) \<subseteq> set (used_in (wh_used w') key)"
    and frame: "\<And>k. k \<noteq> key \<Longrightarrow> used_in (wh_used w') k = used_in (wh_used w) k"
    and ports: "wh_ports w' = AList.update (key, n) a (wh_ports w)"
  shows "ports_ok scope w'"
  unfolding ports_ok_def
proof (intro conjI allI impI)
  fix k m b
  assume k: "grouped_key scope k" and "map_of (wh_ports w') (k, m) = Some b"
  then have "k = key \<and> m = n \<and> b = a \<or> map_of (wh_ports w) (k, m) = Some b"
    by (auto simp: ports update_conv' split: if_splits)
  then have "distinct (ports_of b) \<and> set (ports_of b) \<subseteq> set (used_in (wh_used w') k)"
  proof
    assume "k = key \<and> m = n \<and> b = a"
    with fresh k show ?thesis by simp
  next
    assume "map_of (wh_ports w) (k, m) = Some b"
    from ports_okD(1) [OF ok k this] fresh frame [of k] k show ?thesis by (cases "k = key") auto
  qed
  then show "distinct (ports_of b)" "set (ports_of b) \<subseteq> set (used_in (wh_used w') k)" by simp_all
next
  fix k n1 n2 a1 a2
  assume k: "grouped_key scope k" and neq: "n1 \<noteq> n2"
    and "map_of (wh_ports w') (k, n1) = Some a1" "map_of (wh_ports w') (k, n2) = Some a2"
  then have "k = key \<and> n1 = n \<and> a1 = a \<and> map_of (wh_ports w) (k, n2) = Some a2 \<or>
      k = key \<and> n2 = n \<and> a2 = a \<and> map_of (wh_ports w) (k, n1) = Some a1 \<or>
      map_of (wh_ports w) (k, n1) = Some a1 \<and> map_of (wh_ports w) (k, n2) = Some a2"
    by (auto simp: ports update_conv' split: if_splits)
  then show "set (ports_of a1) \<inter> set (ports_of a2) = {}"
    using ports_okD(1) [OF ok k, of n1 a1] ports_okD(1) [OF ok k, of n2 a2] ports_okD(2) [OF ok k neq] fresh k
    by blast
qed

lemma used_in_update: "used_in (AList.update key u used) k = (if k = key then u else used_in used k)"
  by (simp add: used_in_def update_conv')

lemma used_in_take:
  "take_port key port w = (p, w') \<Longrightarrow>
     p \<notin> set (used_in (wh_used w) key) \<and> port \<le> p \<and> wh_ports w' = wh_ports w \<and> wh_out w' = wh_out w \<and>
     used_in (wh_used w') k = (if k = key then p # used_in (wh_used w) k else used_in (wh_used w) k)"
  using next_free [of "used_in (wh_used w) key" port] by (auto simp: take_port_def used_in_update Let_def)

lemma ports_ok_exposed_slot:
  assumes "ports_ok scope w"
  shows "ports_ok scope (exposed_slot scope conf depID cfg sd w)"
proof -
  let ?key = "FwKey (de_context conf) (StageOrProduction conf) (fst sd)"
  obtain app w1 where app: "take_port ?key (ac_port cfg) w = (app, w1)" by fastforce
  obtain ui w2 where ui: "take_port ?key frontendUIPort w1 = (ui, w2)" by fastforce
  note taken = used_in_take [OF app] used_in_take [OF ui]
  have "ports_ok scope (w2\<lparr>wh_ports := AList.update (?key, AutomationNameOr conf depID) \<lparr>pa_app = app, pa_ui = ui\<rparr>
      (wh_ports w2)\<rparr>)"
    by (rule ports_ok_assign [OF assms, where key = ?key]) (use taken in \<open>auto simp: ports_of_def\<close>)
  with assms show ?thesis by (auto simp: exposed_slot_def app ui Let_def split: option.splits)
qed

lemma ports_ok_worker_slot:
  assumes "ports_ok scope w"
  shows "ports_ok scope (worker_slot pf c scope conf depID cfg sd w)"
proof (cases "fwActive scope (de_context conf) (StageOrProduction conf) (fst sd)")
  case None
  then show ?thesis
    unfolding worker_slot_def Let_def
    by (simp, intro ports_ok_assign [OF assms, where key = "FwKey (de_context conf) (StageOrProduction conf) (fst sd)"])
       (simp_all add: grouped_key_def)
next
  case (Some fw)
  let ?key = "FwKey (de_context conf) (StageOrProduction conf) (fst sd)"
  obtain port w1 where port: "take_port ?key (ac_port cfg) w = (port, w1)" by fastforce
  note taken = used_in_take [OF port]
  show ?thesis
    unfolding worker_slot_def Let_def Some
    by (simp add: port, intro ports_ok_assign [OF assms, where key = ?key])
       (use taken in \<open>auto simp: ports_of_def\<close>)
qed

lemma ports_ok_fold:
  "ports_ok scope w \<Longrightarrow> (\<And>x w. ports_ok scope w \<Longrightarrow> ports_ok scope (f x w)) \<Longrightarrow> ports_ok scope (fold f xs w)"
  by (induction xs arbitrary: w) auto

lemma ports_ok_computed: "ports_ok scope (computeWorkerHosts pf d c ds scope)"
proof -
  have "ports_ok scope (exposed_ports pf d c scope depID dep w)" if "ports_ok scope w" for depID dep w
    using that by (auto simp: exposed_ports_def Let_def intro: ports_ok_fold ports_ok_exposed_slot split: option.splits)
  moreover have "ports_ok scope (worker_ports pf d c scope depID dep w)" if "ports_ok scope w" for depID dep w
    using that by (auto simp: worker_ports_def Let_def intro: ports_ok_fold ports_ok_worker_slot split: option.splits)
  moreover have "ports_ok scope \<lparr>wh_out = [], wh_ports = [], wh_used = []\<rparr>" by (simp add: ports_ok_def)
  ultimately show ?thesis unfolding computeWorkerHosts_def by (intro ports_ok_fold)
qed

text \<open>C11: workers that share a gateway's network namespace do not fight over ports. Two workers of
  different names in one firewall group are assigned disjoint ports, and an exposed one gets
  different ports for its shim and for the server behind it, whatever ports the workers ask for.\<close>

theorem group_ports_are_distinct:
  assumes "fwActive scope ctx stage slot \<noteq> None" "n1 \<noteq> n2"
    and "map_of (wh_ports (computeWorkerHosts pf d c ds scope)) (FwKey ctx stage slot, n1) = Some a1"
    and "map_of (wh_ports (computeWorkerHosts pf d c ds scope)) (FwKey ctx stage slot, n2) = Some a2"
  shows "set (ports_of a1) \<inter> set (ports_of a2) = {} \<and> distinct (ports_of a1)"
proof -
  have "grouped_key scope (FwKey ctx stage slot)" using assms(1) by (simp add: grouped_key_def)
  note ok = ports_okD [OF ports_ok_computed this]
  from ok(1) [OF assms(3)] ok(2) [OF assms(2-4)] show ?thesis by simp
qed

section \<open>Rules\<close>

text \<open>The names of the gateways and proxies of a project tell its groups apart.\<close>

definition gateways_apart :: "fw_scope \<Rightarrow> bool" where
  "gateways_apart scope \<longleftrightarrow>
     (\<forall>(k1, g1)\<in>set scope. \<forall>(k2, g2)\<in>set scope.
        fg_gw g1 \<noteq> proxy_name g2 \<and> (k1 \<noteq> k2 \<longrightarrow> fg_gw g1 \<noteq> fg_gw g2))"

definition carried :: "compile_state \<Rightarrow> services \<Rightarrow> fw_key \<Rightarrow> fw_group \<Rightarrow> bool" where
  "carried c services k g \<longleftrightarrow>
     map_of services (fg_gw g) = Some (owner_service c k g) \<and>
     map_of services (proxy_name g) = Some (proxy_service c k g)"

lemma proxy_name_inject [simp]: "proxy_name g1 = proxy_name g2 \<longleftrightarrow> fg_gw g1 = fg_gw g2"
  by (simp add: proxy_name_def)

lemma carried_fold:
  assumes "gateways_apart scope" "distinct (map fst scope)" "(k, g) \<in> set scope" "fg_ok g"
  shows "k \<in> set ks \<or> carried c services k g \<Longrightarrow> carried c (fold (add_gateway c scope) ks services) k g"
proof (induction ks arbitrary: services)
  case (Cons k' ks)
  have k: "map_of scope k = Some g" using assms(2,3) by simp
  have "carried c (add_gateway c scope k' services) k g" if "k' = k \<or> carried c services k g"
  proof (cases "k' = k")
    case True
    have "fg_gw g \<noteq> proxy_name g" using assms(1,3) by (auto simp: gateways_apart_def)
    with k assms(4) True show ?thesis by (simp add: add_gateway_def carried_def update_conv')
  next
    case False
    show ?thesis
    proof (cases "map_of scope k'")
      case None
      with that False show ?thesis by (simp add: add_gateway_def)
    next
      case (Some g')
      then have "(k', g') \<in> set scope" by (rule map_of_SomeD)
      with assms(1,3) False have "fg_gw g' \<noteq> fg_gw g" "fg_gw g' \<noteq> proxy_name g" "fg_gw g \<noteq> proxy_name g'"
        by (auto simp: gateways_apart_def)
      with that False Some show ?thesis by (auto simp: add_gateway_def carried_def update_conv')
    qed
  qed
  with Cons show ?case by auto
qed simp

text \<open>C7: a group's gateway carries the group's rules. In a compiled project whose gateways have names of
  their own, the service under a group's gateway name runs in the group's mode with the group's
  proxy, and that proxy has exactly the allow-list that the rules of the group's process and realm
  give, whatever else the project declares.\<close>

theorem gateways_carry_their_rules:
  assumes "compile_in pf c d = (Inr (co, rts, mg), d')"
    and "(k, g) \<in> set (compile_scope pf c)" "gateways_apart (compile_scope pf c)"
  shows "map_of (co_services co) (fg_gw g) = Some (owner_service c k g) \<and>
    map_of (co_services co) (proxy_name g) = Some (proxy_service c k g) \<and>
    fg_allow g = allowedHosts (cx_bs c) (fg_bp g) (fg_realm g)"
proof -
  obtain services where
    keep: "\<And>n sv. map_of (fold (add_gateway c (compile_scope pf c)) (sort (map fst (compile_scope pf c))) services) n = Some sv \<Longrightarrow>
       map_of (co_services co) n = Some sv"
    using compile_in_gateways [OF assms(1,2)] by blast
  have ok: "scope_ok pf c (compile_scope pf c)" unfolding compile_scope_def by (rule computeFirewallScope_ok)
  have "carried c (fold (add_gateway c (compile_scope pf c)) (sort (map fst (compile_scope pf c))) services) k g"
    by (rule carried_fold [OF assms(3) _ assms(2)])
       (use ok assms(2) scope_lookup in \<open>force simp: scope_ok_def\<close>)+
  moreover have "fg_allow g = allowedHosts (cx_bs c) (fg_bp g) (fg_realm g)"
    using ok assms(2) by (fastforce simp: scope_ok_def new_group_def Let_def)
  ultimately show ?thesis using keep by (simp add: carried_def)
qed

section \<open>Samples\<close>

text \<open>Two workers of one group that ask for the same port.\<close>

definition pair_deployments :: deployments where
  "pair_deployments = [(''a'', Some empty_deployment), (''b'', Some empty_deployment)]"

definition pair_state :: compile_state where
  "pair_state = newCompileState sample_platform sample_files (\<lambda>k. []) sample_wctx (sample_bitswan None)"

definition pair_hosts :: worker_hosts where
  "pair_hosts =
     computeWorkerHosts sample_platform sample_files pair_state pair_deployments
       (computeFirewallScope sample_platform pair_state pair_deployments)"

theorem group_ports_are_distinct_witness:
  "case (map_of (wh_ports pair_hosts) (FwKey [] ''production'' [], ''a''),
         map_of (wh_ports pair_hosts) (FwKey [] ''production'' [], ''b'')) of
     (Some a1, Some a2) \<Rightarrow> set (ports_of a1) \<inter> set (ports_of a2) = {}
   | _ \<Rightarrow> False"
proof -
  have a: "map_of (wh_ports pair_hosts) (FwKey [] ''production'' [], ''a'') = Some \<lparr>pa_app = 8080, pa_ui = 0\<rparr>"
    by code_simp
  have b: "map_of (wh_ports pair_hosts) (FwKey [] ''production'' [], ''b'') = Some \<lparr>pa_app = 8081, pa_ui = 0\<rparr>"
    by code_simp
  have "fwActive (computeFirewallScope sample_platform pair_state pair_deployments) [] ''production'' [] \<noteq> None"
    by code_simp
  from group_ports_are_distinct [OF this _ a [unfolded pair_hosts_def] b [unfolded pair_hosts_def]]
  show ?thesis by (simp add: a b)
qed

theorem gateways_carry_their_rules_witness:
  "case compile_scope sample_platform (newCompileState sample_platform sample_files (\<lambda>k. []) sample_wctx
          (sample_bitswan (Some empty_deployment))) of
     [(k, g)] \<Rightarrow>
       fg_gw g = ''ws-fwgw-production'' \<and>
       map_of (co_services (sample_compose (Some empty_deployment))) (fg_gw g) \<noteq> None \<and>
       map_of (co_services (sample_compose (Some empty_deployment))) (proxy_name g) \<noteq> None
   | _ \<Rightarrow> False"
proof -
  let ?d = "Some empty_deployment"
  let ?c = "newCompileState sample_platform sample_files (\<lambda>k. []) sample_wctx (sample_bitswan ?d)"
  let ?g = "\<lparr>fg_gw = ''ws-fwgw-production'', fg_mode = ''enforce'', fg_allow = [], fg_realm = ''production'',
    fg_bp = [], fg_ok = True\<rparr>"
  have "\<not> isl (fst (sample_run ?d))" by code_simp
  then obtain rts mg d' where run: "compile sample_platform (\<lambda>k. []) sample_wctx (sample_bitswan ?d) sample_files =
      (Inr (sample_compose ?d, rts, mg), d')"
    by (rule sample_compiled)
  have scope: "compile_scope sample_platform ?c = [(FwKey [] ''production'' [], ?g)]" by code_simp
  have "gateways_apart (compile_scope sample_platform ?c)" unfolding scope by code_simp
  from gateways_carry_their_rules [OF run [unfolded compile_def] _ this, of "FwKey [] ''production'' []" ?g]
  show ?thesis by (simp add: scope)
qed

text \<open>The hypothesis on names is needed. A context is told apart by the first four hex digits of its
  hash. Two processes of one stage with the same four digits are two groups whose gateways and
  proxies have the same names, and the one that sorts last replaces the other's: here \<open>shop\<close>'s
  traffic is decided by the rules of \<open>zoo\<close>.\<close>

definition clash_bitswan :: bitswan where
  "clash_bitswan =
     \<lparr>bs_deployments = [(''app'', Some (empty_deployment\<lparr>de_context := ''shop''\<rparr>)),
                        (''ape'', Some (empty_deployment\<lparr>de_context := ''zoo''\<rparr>))],
      bs_processes = [], bs_backups = [], bs_secrets = [],
      bs_firewall = [(''shop'', [(''production'', Some \<lparr>fn_posture = [], fn_rules = [(''bank.example'', Some ''allowed'')]\<rparr>)]),
                     (''zoo'', [(''production'', Some \<lparr>fn_posture = ''monitor'', fn_rules = []\<rparr>)])]\<rparr>"

lemma colliding_contexts_share_a_gateway:
  "shortHash (pf_sha sample_platform) ''shop'' = shortHash (pf_sha sample_platform) ''zoo'' \<and>
   map (\<lambda>(k, g). (fk_ctx k, fg_gw g, fg_mode g, fg_allow g))
     (compile_scope sample_platform (newCompileState sample_platform sample_files (\<lambda>k. []) sample_wctx clash_bitswan)) =
     [(''zoo'', ''ws-fwgw-c0ff-production'', ''monitor'', []),
      (''shop'', ''ws-fwgw-c0ff-production'', ''enforce'', [''bank.example''])]"
  by code_simp

lemma colliding_gateway_is_the_last:
  "map_option (\<lambda>sv. (label_of sv ''gitops.context'', map_of (sv_environment sv) ''BITSWAN_FW_MODE''))
     (map_of (fold (add_gateway pair_state
         (compile_scope sample_platform (newCompileState sample_platform sample_files (\<lambda>k. []) sample_wctx clash_bitswan)))
       [FwKey ''shop'' ''production'' [], FwKey ''zoo'' ''production'' []] []) ''ws-fwgw-c0ff-production'') =
   Some (''zoo'', Some (JStr ''monitor''))"
  by code_simp

end
