(* ===== verification/Driver_Docker.thy ===== *)
theory Driver_Docker
  imports Infra_Rpc Driver_Service
begin

text \<open>
  The container and image operations of the docker driver (\<open>dockerdriver.go\<close>, \<open>images.go\<close> and
  \<open>build.go\<close> in \<open>internal/infradriver/dockerdriver\<close>), each as the docker commands it runs. Docker itself
  is an argument: a function from an argument list and the input to what the process does. The gate
  that confines a driver to the containers of its workspace is \<open>assertInWorkspace\<close>; the driver that
  the server of \<open>Infra_Rpc\<close> is given is \<open>dockerDriver\<close>.
\<close>

section \<open>Running docker\<close>

text \<open>What a process did: whether it started and its exit code; its two outputs, the chunks and the
  lines of both in the order in which the readers hand them on, and the merged output.\<close>

record cli_result =
  cr_started :: bool
  cr_exit :: int
  cr_out :: string
  cr_err :: string
  cr_chunks :: "(bool \<times> bytes) list"
  cr_lines :: "(bool \<times> string) list"
  cr_merged :: string

text \<open>The host: docker and the image scanner, the writing of a temporary file (its name, or \<open>None\<close>), the
  environment, the two time formats (\<open>None\<close> also for the zero time), the JSON rows of an image listing,
  and the reading of a memory cell, which computes on floats.\<close>

record 'h docker_host =
  dh_run :: "string list \<Rightarrow> bytes \<Rightarrow> 'h \<Rightarrow> cli_result \<times> 'h"
  dh_syft :: "string list \<Rightarrow> 'h \<Rightarrow> cli_result \<times> 'h"
  dh_temp :: "string \<Rightarrow> 'h \<Rightarrow> string option \<times> 'h"
  dh_env :: "string \<Rightarrow> string"
  dh_ps_time :: "string \<Rightarrow> int option"
  dh_rfc3339 :: "string \<Rightarrow> int option"
  dh_mem :: "string \<Rightarrow> int"
  dh_image_line :: "string \<Rightarrow> (string \<times> string \<times> string) option"   \<comment> \<open>ID, repository, tag\<close>

definition cli_ok :: "cli_result \<Rightarrow> bool" where
  "cli_ok r \<longleftrightarrow> cr_started r \<and> cr_exit r = 0"

text \<open>The text of the error of \<open>Run\<close>, \<open>Output\<close> and \<open>CombinedOutput\<close>.\<close>

definition cli_error :: "cli_result \<Rightarrow> string" where
  "cli_error r = (if cr_started r then ''exit status '' @ format_int (cr_exit r) else ''executable file not found'')"

section \<open>The workspace gate\<close>

definition label_format :: string where
  "label_format = ''{{ index .Config.Labels '' @ [CHR 0x22] @ ''gitops.workspace'' @ [CHR 0x22] @ '' }}''"

definition assertInWorkspace :: "string \<Rightarrow> 'h docker_host \<Rightarrow> string \<Rightarrow> 'h \<Rightarrow> string option \<times> 'h" where
  "assertInWorkspace ws dk container h =
     (if ws = [] then (None, h)
      else
        (let (r, h') = dh_run dk [''inspect'', ''--format'', label_format, container] [] h;
             got = trim_space (cr_out r)
         in (if \<not> cli_ok r then Some (''scope check: inspect '' @ container @ '': '' @ cli_error r)
             else if got \<noteq> ws then
               Some (''refused: container '' @ container @ '' is not in workspace '' @ ws @ '' (gitops.workspace='' @ got @ '')'')
             else None, h')))"

text \<open>Run one docker command on a container that passed the gate.\<close>

definition gated ::
    "string \<Rightarrow> 'h docker_host \<Rightarrow> string \<Rightarrow> (string \<Rightarrow> 'r) \<Rightarrow> string list \<Rightarrow> bytes \<Rightarrow> (cli_result \<Rightarrow> 'r) \<Rightarrow> 'h \<Rightarrow> 'r \<times> 'h" where
  "gated ws dk container refused args input k h =
     (case assertInWorkspace ws dk container h of
        (Some e, h1) \<Rightarrow> (refused e, h1)
      | (None, h1) \<Rightarrow> (case dh_run dk args input h1 of (r, h2) \<Rightarrow> (k r, h2)))"

definition combined_error :: "string \<Rightarrow> cli_result \<Rightarrow> string option" where
  "combined_error what r =
     (if cli_ok r then None else Some (what @ '': '' @ cli_error r @ '': '' @ trim_space (cr_merged r)))"

definition docker_stop :: "string \<Rightarrow> 'h docker_host \<Rightarrow> string \<Rightarrow> 'h \<Rightarrow> string option \<times> 'h" where
  "docker_stop ws dk container =
     gated ws dk container Some [''stop'', container] [] (combined_error (''docker stop '' @ container))"

definition docker_restart :: "string \<Rightarrow> 'h docker_host \<Rightarrow> string \<Rightarrow> 'h \<Rightarrow> string option \<times> 'h" where
  "docker_restart ws dk container =
     gated ws dk container Some [''restart'', container] [] (combined_error (''docker restart '' @ container))"

definition docker_remove :: "string \<Rightarrow> 'h docker_host \<Rightarrow> string \<Rightarrow> 'h \<Rightarrow> string option \<times> 'h" where
  "docker_remove ws dk container =
     gated ws dk container (\<lambda>e. if str_contains (to_lower e) ''no such'' then None else Some e)
       [''rm'', ''-f'', container] []
       (\<lambda>r. let msg = to_lower (cr_merged r) in
            if str_contains msg ''already in progress'' \<or> str_contains msg ''no such container'' then None
            else combined_error (''docker rm -f '' @ container) r)"

definition docker_inspect :: "string \<Rightarrow> 'h docker_host \<Rightarrow> string \<Rightarrow> 'h \<Rightarrow> (string + bytes) \<times> 'h" where
  "docker_inspect ws dk container =
     gated ws dk container Inl [''inspect'', container] []
       (\<lambda>r. if cli_ok r then Inr (bytes_of_string (cr_out r))
            else Inl (''docker inspect '' @ container @ '': '' @ cli_error r))"

definition docker_logs ::
    "string \<Rightarrow> 'h docker_host \<Rightarrow> string \<Rightarrow> int \<Rightarrow> bool \<Rightarrow> 'h \<Rightarrow> (log_line list \<times> string option) \<times> 'h" where
  "docker_logs ws dk container tail follow =
     gated ws dk container (\<lambda>e. ([], Some e))
       ([''logs''] @ (if tail > 0 then [''--tail'', format_int tail] else [''--tail'', ''all'']) @
        (if follow then [''--follow''] else []) @ [container]) []
       (\<lambda>r. if cr_started r then (map (\<lambda>(se, l). \<lparr>ll_line = l, ll_stderr = se\<rparr>) (cr_lines r), None)
            else ([], Some (''docker logs: '' @ cli_error r)))"

text \<open>The server always hands on the request's body as input, so the command is interactive.\<close>

definition docker_exec ::
    "string \<Rightarrow> 'h docker_host \<Rightarrow> exec_spec \<Rightarrow> bytes \<Rightarrow> 'h \<Rightarrow> ((bool \<times> bytes) list \<times> (string + int)) \<times> 'h" where
  "docker_exec ws dk spec input =
     gated ws dk (ex_container spec) (\<lambda>e. ([], Inl e))
       ([''exec'', ''-i''] @ (if ex_tty spec then [''-t''] else []) @
        (if ex_user spec \<noteq> [] then [''--user'', ex_user spec] else []) @ [ex_container spec] @ ex_cmd spec) input
       (\<lambda>r. if cr_started r then (cr_chunks r, Inr (cr_exit r))
            else ([], Inl (''docker exec '' @ ex_container spec @ '': '' @ cli_error r)))"

text \<open>A failing \<open>docker cp\<close> only shows in the error of \<open>Close\<close>, which the server ignores.\<close>

definition docker_copy_out ::
    "string \<Rightarrow> 'h docker_host \<Rightarrow> string \<Rightarrow> string \<Rightarrow> 'h \<Rightarrow> (string + bytes \<times> string option) \<times> 'h" where
  "docker_copy_out ws dk container src =
     gated ws dk container Inl [''cp'', container @ '':'' @ src, ''-''] []
       (\<lambda>r. if cr_started r then Inr (bytes_of_string (cr_out r), None)
            else Inl (''docker cp '' @ container @ '':'' @ src @ '' -: '' @ cli_error r))"

definition docker_copy_in ::
    "string \<Rightarrow> 'h docker_host \<Rightarrow> string \<Rightarrow> string \<Rightarrow> bytes \<Rightarrow> 'h \<Rightarrow> string option \<times> 'h" where
  "docker_copy_in ws dk container dst archive =
     gated ws dk container Some [''cp'', ''-'', container @ '':'' @ dst] archive
       (combined_error (''docker cp - '' @ container @ '':'' @ dst))"

section \<open>Listing\<close>

definition psSep :: char where "psSep = CHR 0x1F"

definition firstField :: "string \<Rightarrow> char \<Rightarrow> string" where
  "firstField s c = takeWhile (\<lambda>x. x \<noteq> c) s"

definition psState :: "string \<Rightarrow> string \<Rightarrow> string" where
  "psState state status =
     (if state \<noteq> [] then state
      else if prefix ''Up'' status then ''running''
      else if prefix ''Exited'' status then ''exited''
      else to_lower (firstField status CHR '' ''))"

definition psHealth :: "string \<Rightarrow> string" where
  "psHealth status =
     (if str_contains status ''(healthy)'' then ''healthy''
      else if str_contains status ''(unhealthy)'' then ''unhealthy''
      else if str_contains status ''(health: starting)'' then ''starting''
      else [])"

definition parsePSLabels :: "string \<Rightarrow> (string \<times> string) list" where
  "parsePSLabels s =
     (if s = [] then []
      else fold (\<lambda>kv out. if CHR ''='' \<in> set kv then AList.update (fst (cut_eq kv)) (snd (cut_eq kv)) out else out)
             (split_on CHR '','' s) [])"

definition ps_row :: "(string \<Rightarrow> int option) \<Rightarrow> string \<Rightarrow> container option" where
  "ps_row ptime line =
     (case split_on psSep line of
        [i, st, status, img, created, names, lbls] \<Rightarrow>
          Some \<lparr>ct_id = i, ct_name = trim_prefix ''/'' (firstField names CHR '',''), ct_state = psState st status,
                ct_health = psHealth status, ct_image = img,
                ct_created = (case ptime created of None \<Rightarrow> 0 | Some t \<Rightarrow> t),
                ct_labels = parsePSLabels lbls, ct_restarts = None, ct_started = None\<rparr>
      | _ \<Rightarrow> None)"

definition parsePS :: "(string \<Rightarrow> int option) \<Rightarrow> string \<Rightarrow> string + container list" where
  "parsePS ptime raw =
     (let rows = map (ps_row ptime) (filter (\<lambda>l. trim_space l \<noteq> []) (split_on newline raw)) in
      if None \<in> set rows then Inl ''parse docker ps line: want 7 fields'' else Inr (map the rows))"

definition psFormat :: string where
  "psFormat = join_with psSep [''{{.ID}}'', ''{{.State}}'', ''{{.Status}}'', ''{{.Image}}'', ''{{.CreatedAt}}'',
     ''{{.Names}}'', ''{{.Labels}}'']"

definition ps_args :: "string \<Rightarrow> container_filter \<Rightarrow> string list" where
  "ps_args ws flt =
     [''ps'', ''--all'', ''--no-trunc'', ''--format'', psFormat] @
     concat (map (\<lambda>(k, v). if k = ''gitops.workspace'' then [] else [''--filter'', ''label='' @ k @ ''='' @ v]) (cf_labels flt)) @
     (if ws \<noteq> [] then [''--filter'', ''label=gitops.workspace='' @ ws] else [])"

definition listContainers ::
    "string \<Rightarrow> 'h docker_host \<Rightarrow> container_filter \<Rightarrow> 'h \<Rightarrow> (string + container list) \<times> 'h" where
  "listContainers ws dk flt h =
     (case dh_run dk (ps_args ws flt) [] h of
        (r, h1) \<Rightarrow> (if cli_ok r then parsePS (dh_ps_time dk) (cr_out r) else Inl (''docker ps: '' @ cli_error r), h1))"

section \<open>Readings\<close>

definition cut_byte :: "char \<Rightarrow> string \<Rightarrow> (string \<times> string) option" where
  "cut_byte c s =
     (if c \<in> set s then Some (takeWhile (\<lambda>x. x \<noteq> c) s, drop 1 (dropWhile (\<lambda>x. x \<noteq> c) s)) else None)"

text \<open>One line of \<open>docker inspect\<close>: the id, the restart count and the start, where they can be read.\<close>

definition reading :: "(string \<Rightarrow> int option) \<Rightarrow> string \<Rightarrow> (string \<times> int option \<times> int option) option" where
  "reading rfc line =
     (if trim_space line = [] then None
      else case cut_byte psSep line of
          None \<Rightarrow> None
        | Some (i, rest) \<Rightarrow>
            (case cut_byte psSep rest of
               None \<Rightarrow> None
             | Some (n, ts) \<Rightarrow> Some (i, atoi (trim_space n), rfc (trim_space ts))))"

text \<open>The last readable value for an id wins.\<close>

definition parseInspectReadings ::
    "(string \<Rightarrow> int option) \<Rightarrow> string \<Rightarrow> (string \<times> int) list \<times> (string \<times> int) list" where
  "parseInspectReadings rfc raw =
     fold (\<lambda>(i, n, ts) (counts, started).
         (case n of None \<Rightarrow> counts | Some k \<Rightarrow> AList.update i k counts,
          case ts of None \<Rightarrow> started | Some t \<Rightarrow> AList.update i t started))
       (List.map_filter (reading rfc) (split_on newline raw)) ([], [])"

definition inspectReadingsFormat :: string where
  "inspectReadingsFormat = join_with psSep [''{{.Id}}'', ''{{.RestartCount}}'', ''{{.State.StartedAt}}'']"

definition with_readings ::
    "(string \<times> int) list \<times> (string \<times> int) list \<Rightarrow> container \<Rightarrow> container" where
  "with_readings rd ct =
     ct\<lparr>ct_restarts := (case map_of (fst rd) (ct_id ct) of None \<Rightarrow> ct_restarts ct | Some n \<Rightarrow> Some n),
        ct_started := (case map_of (snd rd) (ct_id ct) of None \<Rightarrow> ct_started ct | Some t \<Rightarrow> Some t)\<rparr>"

definition fillInspectReadings :: "'h docker_host \<Rightarrow> container list \<Rightarrow> 'h \<Rightarrow> container list \<times> 'h" where
  "fillInspectReadings dk cts h =
     (if cts = [] then (cts, h)
      else case dh_run dk ([''inspect'', ''--format'', inspectReadingsFormat] @ map ct_id cts) [] h of
          (r, h1) \<Rightarrow>
            (if cr_out r = [] then cts else map (with_readings (parseInspectReadings (dh_rfc3339 dk) (cr_out r))) cts, h1))"

definition docker_list ::
    "string \<Rightarrow> 'h docker_host \<Rightarrow> container_filter \<Rightarrow> 'h \<Rightarrow> (string + container list) \<times> 'h" where
  "docker_list ws dk flt h =
     (case listContainers ws dk flt h of
        (Inl e, h1) \<Rightarrow> (Inl e, h1)
      | (Inr cts, h1) \<Rightarrow>
          if cf_restarts flt then (case fillInspectReadings dk cts h1 of (cts', h2) \<Rightarrow> (Inr cts', h2))
          else (Inr cts, h1))"

definition stat_row :: "(string \<Rightarrow> int) \<Rightarrow> (string \<times> container) list \<Rightarrow> string \<Rightarrow> container_stat option" where
  "stat_row mem byID line =
     (if trim_space line = [] then None
      else case cut_byte psSep line of
          None \<Rightarrow> None
        | Some (i, cell) \<Rightarrow>
            map_option (\<lambda>ct. \<lparr>cs_id = ct_id ct, cs_name = ct_name ct, cs_mem = mem cell, cs_labels = ct_labels ct\<rparr>)
              (case map_of byID i of
                 Some ct \<Rightarrow> Some ct
               | None \<Rightarrow> map_option snd (List.find (\<lambda>(full, ct). prefix i full) byID)))"

definition parseStats :: "(string \<Rightarrow> int) \<Rightarrow> (string \<times> container) list \<Rightarrow> string \<Rightarrow> container_stat list" where
  "parseStats mem byID raw = List.map_filter (stat_row mem byID) (split_on newline raw)"

definition statsFormat :: string where
  "statsFormat = join_with psSep [''{{.ID}}'', ''{{.MemUsage}}'']"

definition docker_stats ::
    "string \<Rightarrow> 'h docker_host \<Rightarrow> container_filter \<Rightarrow> 'h \<Rightarrow> (string + container_stat list) \<times> 'h" where
  "docker_stats ws dk flt h =
     (case listContainers ws dk flt h of
        (Inl e, h1) \<Rightarrow> (Inl e, h1)
      | (Inr cts, h1) \<Rightarrow>
          (let up = filter (\<lambda>ct. ct_state ct = ''running'') cts in
           if up = [] then (Inr [], h1)
           else case dh_run dk ([''stats'', ''--no-stream'', ''--no-trunc'', ''--format'', statsFormat] @ map ct_id up) [] h1 of
               (r, h2) \<Rightarrow>
                 (if cli_ok r then Inr (parseStats (dh_mem dk) (map (\<lambda>ct. (ct_id ct, ct)) up) (cr_out r))
                  else Inl (''docker stats: '' @ cli_error r), h2)))"

text \<open>The event stream, up to its end or the end of the request.\<close>

definition event_row :: "string \<Rightarrow> container_event" where
  "event_row line =
     (case cut_byte (CHR 0x09) line of
        None \<Rightarrow> \<lparr>ce_action = trim_space line, ce_container = [], ce_id = []\<rparr>
      | Some (a, rest) \<Rightarrow>
          (case cut_byte (CHR 0x09) rest of
             None \<Rightarrow> \<lparr>ce_action = trim_space a, ce_container = rest, ce_id = []\<rparr>
           | Some (n, i) \<Rightarrow> \<lparr>ce_action = trim_space a, ce_container = n, ce_id = i\<rparr>))"

definition event_format :: string where
  "event_format =
     join_with (CHR 0x09)
       [''{{.Action}}'', ''{{index .Actor.Attributes '' @ [CHR 0x22] @ ''name'' @ [CHR 0x22] @ ''}}'', ''{{.Actor.ID}}'']"

definition docker_events :: "string \<Rightarrow> 'h docker_host \<Rightarrow> 'h \<Rightarrow> (container_event list \<times> string option) \<times> 'h" where
  "docker_events ws dk h =
     (case dh_run dk
             ([''events'', ''--filter'', ''type=container''] @
              (if ws \<noteq> [] then [''--filter'', ''label=gitops.workspace='' @ ws] else []) @
              concat (map (\<lambda>ev. [''--filter'', ''event='' @ ev]) [''start'', ''die'', ''destroy'', ''health_status'']) @
              [''--format'', event_format]) [] h of
        (r, h1) \<Rightarrow>
          (if cr_started r then (map event_row (map snd (filter (\<lambda>l. \<not> fst l) (cr_lines r))), None)
           else ([], Some (''docker events: '' @ cli_error r)), h1))"

section \<open>Images\<close>

definition imageTagPrefix :: "string \<Rightarrow> string" where
  "imageTagPrefix ws = (if ws = [] then [] else ''internal/'' @ ws @ ''-'')"

definition in_namespace :: "string \<Rightarrow> string \<Rightarrow> bool" where
  "in_namespace ws tag \<longleftrightarrow> imageTagPrefix ws = [] \<or> prefix (imageTagPrefix ws) tag"

definition image_row :: "string \<Rightarrow> 'h docker_host \<Rightarrow> string \<Rightarrow> image option" where
  "image_row ws dk line =
     (if line = [] then None
      else case dh_image_line dk line of
          None \<Rightarrow> None
        | Some (i, repo, tag) \<Rightarrow>
            if repo = ''<none>'' \<or> tag = ''<none>'' \<or> \<not> in_namespace ws (repo @ '':'' @ tag) then None
            else Some \<lparr>im_id = i, im_tag = repo @ '':'' @ tag, im_created = 0, im_size = 0\<rparr>)"

definition docker_images :: "string \<Rightarrow> 'h docker_host \<Rightarrow> 'h \<Rightarrow> (string + image list) \<times> 'h" where
  "docker_images ws dk h =
     (case dh_run dk [''images'', ''--no-trunc'', ''--format'', ''{{json .}}''] [] h of
        (r, h1) \<Rightarrow>
          (if cli_ok r then Inr (List.map_filter (image_row ws dk) (split_on newline (trim_space (cr_out r))))
           else Inl (''docker images: '' @ cli_error r), h1))"

definition refused_image :: "string \<Rightarrow> string \<Rightarrow> string" where
  "refused_image ws tag = ''refused: image '' @ tag @ '' is not in the namespace of workspace '' @ ws"

definition docker_image_remove :: "string \<Rightarrow> 'h docker_host \<Rightarrow> string \<Rightarrow> 'h \<Rightarrow> string option \<times> 'h" where
  "docker_image_remove ws dk tag h =
     (if \<not> in_namespace ws tag then (Some (refused_image ws tag), h)
      else case dh_run dk [''image'', ''rm'', ''-f'', tag] [] h of
          (r, h1) \<Rightarrow> (combined_error (''docker image rm '' @ tag) r, h1))"

definition docker_sbom :: "string \<Rightarrow> 'h docker_host \<Rightarrow> string \<Rightarrow> 'h \<Rightarrow> (string + bytes) \<times> 'h" where
  "docker_sbom ws dk tag h =
     (if \<not> in_namespace ws tag then (Inl (refused_image ws tag), h)
      else case dh_syft dk [tag, ''-o'', ''syft-json''] h of
          (r, h1) \<Rightarrow>
            (if cli_ok r then Inr (bytes_of_string (cr_out r))
             else Inl (''syft '' @ tag @ '': '' @ cli_error r @ '': '' @ trim_space (cr_err r)), h1))"

section \<open>Building\<close>

definition imageID :: "'h docker_host \<Rightarrow> string \<Rightarrow> 'h \<Rightarrow> string \<times> 'h" where
  "imageID dk tag h =
     (case dh_run dk [''image'', ''inspect'', ''--format'', ''{{.Id}}'', tag] [] h of
        (r, h1) \<Rightarrow> (if cli_ok r then trim_space (cr_out r) else [], h1))"

definition contentSHA :: "build_request \<Rightarrow> string" where
  "contentSHA req =
     (if br_source_sha req \<noteq> [] then br_source_sha req
      else case split_last_sub '':sha'' (br_tag req) of Some (a, b) \<Rightarrow> b | None \<Rightarrow> [])"

definition sha_row :: "string \<Rightarrow> string \<Rightarrow> string \<Rightarrow> string \<Rightarrow> (string \<times> string) option" where
  "sha_row ws sha exclude line =
     (case cut_byte (CHR 0x09) line of
        None \<Rightarrow> None
      | Some (tag, i) \<Rightarrow>
          if tag = [] \<or> tag = exclude \<or> suffix '':<none>'' tag \<or> \<not> suffix ('':sha'' @ sha) tag \<or> \<not> in_namespace ws tag
          then None else Some (tag, i))"

definition findImageByContentSHA ::
    "string \<Rightarrow> 'h docker_host \<Rightarrow> string \<Rightarrow> string \<Rightarrow> 'h \<Rightarrow> (string \<times> string) option \<times> 'h" where
  "findImageByContentSHA ws dk sha exclude h =
     (let pre = imageTagPrefix ws;
          ref = (if pre \<noteq> [] then pre @ ''*:sha'' @ sha else ''*/*:sha'' @ sha)
      in case dh_run dk [''images'', ''--no-trunc'', ''--format'', ''{{.Repository}}:{{.Tag}}'' @ [CHR 0x09] @ ''{{.ID}}'',
                ''--filter'', ''reference='' @ ref] [] h of
           (r, h1) \<Rightarrow>
             (if \<not> cli_ok r then None
              else case List.map_filter (sha_row ws sha exclude) (split_on newline (trim_space (cr_out r))) of
                  [] \<Rightarrow> None
                | x # _ \<Rightarrow> Some x, h1))"

definition generated_dockerfile :: "build_request \<Rightarrow> string" where
  "generated_dockerfile req =
     (let m = (if br_mount_path req = [] then ''/app'' else br_mount_path req) in
      ''FROM '' @ br_base_image req @ [newline] @ ''COPY . '' @ m @ [newline] @
      ''RUN if [ -f '' @ m @ ''/build.sh ]; then cd '' @ m @ '' && sh ./build.sh; fi'' @ [newline])"

text \<open>The Dockerfile's path: a generated file, or the request's, relative to the source unless it is
  rooted.\<close>

definition dockerfile_path :: "'h docker_host \<Rightarrow> build_request \<Rightarrow> 'h \<Rightarrow> string option \<times> 'h" where
  "dockerfile_path dk req h =
     (if br_dockerfile req = [] then dh_temp dk (generated_dockerfile req) h
      else if rooted (br_dockerfile req) then (Some (br_dockerfile req), h)
      else (Some (filepath_Join [br_source_path req, br_dockerfile req]), h))"

definition build_args :: "'h docker_host \<Rightarrow> build_request \<Rightarrow> string \<Rightarrow> string list" where
  "build_args dk req dfile =
     [''build'', ''--pull=false'', ''-t'', br_tag req, ''-f'', dfile] @
     (if dh_env dk ''BITSWAN_BUILD_NETWORK'' \<noteq> [] then [''--network'', dh_env dk ''BITSWAN_BUILD_NETWORK''] else []) @
     (if dh_env dk ''BITSWAN_GOPROXY'' \<noteq> [] then [''--build-arg'', ''GOPROXY='' @ dh_env dk ''BITSWAN_GOPROXY''] else []) @
     (if dh_env dk ''BITSWAN_NPM_REGISTRY'' \<noteq> []
      then [''--build-arg'', ''NPM_CONFIG_REGISTRY='' @ dh_env dk ''BITSWAN_NPM_REGISTRY''] else []) @
     [br_source_path req]"

definition run_build ::
    "'h docker_host \<Rightarrow> build_request \<Rightarrow> 'h \<Rightarrow> (string list \<times> (string + image_ref)) \<times> 'h" where
  "run_build dk req h =
     (case dockerfile_path dk req h of
        (None, h1) \<Rightarrow> (([], Inl ''temporary file''), h1)
      | (Some dfile, h1) \<Rightarrow>
          (case dh_run dk (build_args dk req dfile) [] h1 of
             (r, h2) \<Rightarrow>
               if \<not> cli_ok r
               then ((map snd (cr_lines r), Inl (''docker build '' @ br_tag req @ '': '' @ cli_error r)), h2)
               else (case imageID dk (br_tag req) h2 of
                   (i, h3) \<Rightarrow>
                     ((map snd (cr_lines r), Inr \<lparr>ir_full_tag = br_tag req, ir_image_id = i, ir_cache_hit = False\<rparr>), h3))))"

text \<open>An image of the same content under another tag is given the requested tag too.\<close>

definition retag ::
    "'h docker_host \<Rightarrow> build_request \<Rightarrow> string \<times> string \<Rightarrow> 'h \<Rightarrow> (string list \<times> (string + image_ref)) \<times> 'h" where
  "retag dk req found h =
     (case dh_run dk [''tag'', fst found, br_tag req] [] h of
        (r, h1) \<Rightarrow>
          (case combined_error (''docker tag '' @ fst found @ '' '' @ br_tag req) r of
             Some e \<Rightarrow> (([], Inl e), h1)
           | None \<Rightarrow>
               (([''cache hit (retagged from '' @ fst found @ ''): '' @ br_tag req],
                 Inr \<lparr>ir_full_tag = br_tag req, ir_image_id = snd found, ir_cache_hit = True\<rparr>), h1)))"

definition docker_build ::
    "string \<Rightarrow> 'h docker_host \<Rightarrow> build_request \<Rightarrow> 'h \<Rightarrow> (string list \<times> (string + image_ref)) \<times> 'h" where
  "docker_build ws dk req h =
     (if br_tag req = [] \<or> br_source_path req = [] then (([], Inl ''build: tag and source_path are required''), h)
      else if br_dockerfile req = [] \<and> br_base_image req = []
      then (([], Inl ''build: base_image is required unless dockerfile is set''), h)
      else case imageID dk (br_tag req) h of
          (i, h1) \<Rightarrow>
            if i \<noteq> [] then
              (([''cache hit: '' @ br_tag req], Inr \<lparr>ir_full_tag = br_tag req, ir_image_id = i, ir_cache_hit = True\<rparr>), h1)
            else if contentSHA req = [] then run_build dk req h1
            else case findImageByContentSHA ws dk (contentSHA req) (br_tag req) h1 of
                (Some found, h2) \<Rightarrow> retag dk req found h2
              | (None, h2) \<Rightarrow> run_build dk req h2)"

section \<open>The driver\<close>

text \<open>\<open>DockerDriver\<close> as the server is given it; the request's context is not consulted.\<close>

definition dockerDriver :: "string \<Rightarrow> 'h docker_host \<Rightarrow> 'h driver" where
  "dockerDriver ws dk =
     \<lparr>drv_build = docker_build ws dk, drv_list = (\<lambda>c. docker_list ws dk), drv_stats = (\<lambda>c. docker_stats ws dk),
      drv_logs = (\<lambda>c. docker_logs ws dk), drv_events = (\<lambda>c. docker_events ws dk), drv_stop = (\<lambda>c. docker_stop ws dk),
      drv_restart = (\<lambda>c. docker_restart ws dk), drv_remove = (\<lambda>c. docker_remove ws dk),
      drv_images = (\<lambda>c. docker_images ws dk), drv_image_remove = (\<lambda>c. docker_image_remove ws dk),
      drv_sbom = (\<lambda>c. docker_sbom ws dk), drv_inspect = (\<lambda>c. docker_inspect ws dk), drv_exec = (\<lambda>c. docker_exec ws dk),
      drv_copy_out = (\<lambda>c. docker_copy_out ws dk), drv_copy_in = (\<lambda>c. docker_copy_in ws dk)\<rparr>"

end
