(* ===== verification/Driver_Host.thy ===== *)
theory Driver_Host
  imports Driver_Docker Driver_Compile
begin

text \<open>
  What an apply of the docker driver works on, and the helpers of \<open>provision.go\<close> that all of it shares:
  commands inside a container, the health of a container and the wait for it. The state of an apply
  is a \<open>world\<close>: the disk, the host behind docker, and the progress that was reported.
\<close>

record 'h world =
  w_disk :: disk
  w_host :: 'h
  w_log :: "(string \<times> string) list"

text \<open>What a watch on a container's health saw until the deadline: the lines of the event stream,
  whether the stream ended, and the answers of the inspections that replace it then.\<close>

record health_watch =
  hw_lines :: "string list"
  hw_ended :: bool
  hw_polls :: "string list"

text \<open>Beside docker: that watch (\<open>None\<close>: it does not start) and the JSON decoder.\<close>

record 'h apply_host =
  ah_docker :: "'h docker_host"
  ah_watch :: "string \<Rightarrow> int \<Rightarrow> 'h \<Rightarrow> health_watch option \<times> 'h"
  ah_json :: "string \<Rightarrow> json option"

definition report :: "string \<Rightarrow> string \<Rightarrow> 'h world \<Rightarrow> 'h world" where
  "report step msg w = w\<lparr>w_log := w_log w @ [(step, msg)]\<rparr>"

definition docker :: "'h apply_host \<Rightarrow> string list \<Rightarrow> 'h world \<Rightarrow> cli_result \<times> 'h world" where
  "docker hst args w = (case dh_run (ah_docker hst) args [] (w_host w) of (r, h) \<Rightarrow> (r, w\<lparr>w_host := h\<rparr>))"

text \<open>The standard output, the standard error and the exit code, -1 when docker did not start.\<close>

definition dockerExec ::
    "'h apply_host \<Rightarrow> string \<Rightarrow> string list \<Rightarrow> 'h world \<Rightarrow> (string \<times> string \<times> int) \<times> 'h world" where
  "dockerExec hst container args w =
     (case docker hst ([''exec'', container] @ args) w of
        (r, w') \<Rightarrow> ((cr_out r, cr_err r, if cr_started r then cr_exit r else - 1), w'))"

definition containerRunning :: "'h apply_host \<Rightarrow> string \<Rightarrow> 'h world \<Rightarrow> bool \<times> 'h world" where
  "containerRunning hst name w =
     (case docker hst [''inspect'', ''-f'', ''{{.State.Running}}'', name] w of
        (r, w') \<Rightarrow> (cli_ok r \<and> trim_space (cr_out r) = ''true'', w'))"

definition serviceContainerName :: "string \<Rightarrow> string \<Rightarrow> string \<Rightarrow> string" where
  "serviceContainerName workspace serviceType realm =
     workspace @ ''__'' @ serviceType @ (if realm \<noteq> ''production'' then CHR ''-'' # realm else [])"

section \<open>Health\<close>

definition health_format :: string where
  "health_format = ''{{if .State.Health}}{{.State.Health.Status}}{{else}}none{{end}}''"

definition containerHealth :: "'h apply_host \<Rightarrow> string \<Rightarrow> 'h world \<Rightarrow> string \<times> 'h world" where
  "containerHealth hst container w =
     (case docker hst [''inspect'', ''-f'', health_format, container] w of
        (r, w') \<Rightarrow> (if cli_ok r then trim_space (cr_out r) else ''unknown'', w'))"

definition no_healthcheck :: "string \<Rightarrow> string" where
  "no_healthcheck container =
     ''container '' @ container @ '' declares no healthcheck - cannot wait on a readiness event''"

definition not_healthy :: "string \<Rightarrow> string" where
  "not_healthy container = ''container '' @ container @ '' not healthy in time''"

definition healthy_line :: "string \<Rightarrow> bool" where
  "healthy_line l \<longleftrightarrow> str_contains (trim_space l) ''healthy'' \<and> \<not> str_contains (trim_space l) ''unhealthy''"

fun poll_health :: "string \<Rightarrow> string list \<Rightarrow> string option" where
  "poll_health container [] = Some (not_healthy container)"
| "poll_health container (a # as) =
     (if a = ''healthy'' then None
      else if a = ''none'' then Some (no_healthcheck container)
      else poll_health container as)"

definition waitForHealthy :: "'h apply_host \<Rightarrow> string \<Rightarrow> int \<Rightarrow> 'h world \<Rightarrow> string option \<times> 'h world" where
  "waitForHealthy hst container timeout w =
     (case containerHealth hst container w of
        (health, w1) \<Rightarrow>
          if health = ''healthy'' then (None, w1)
          else case ah_watch hst container timeout (w_host w1) of
              (None, h) \<Rightarrow> (Some (''docker events for '' @ container), w1\<lparr>w_host := h\<rparr>)
            | (Some hw, h) \<Rightarrow>
                (case containerHealth hst container (w1\<lparr>w_host := h\<rparr>) of
                   (again, w2) \<Rightarrow>
                     (if again = ''healthy'' then None
                      else if again = ''none'' then Some (no_healthcheck container)
                      else if list_ex healthy_line (hw_lines hw) then None
                      else if hw_ended hw then poll_health container (hw_polls hw)
                      else Some (not_healthy container), w2)))"

section \<open>What a step leaves alone\<close>

named_theorems quiet

lemma docker_quiet [quiet]: "w_disk (snd (docker hst args w)) = w_disk w" "w_log (snd (docker hst args w)) = w_log w"
  by (simp_all add: docker_def case_prod_beta)

lemma dockerExec_quiet [quiet]:
  "w_disk (snd (dockerExec hst c args w)) = w_disk w" "w_log (snd (dockerExec hst c args w)) = w_log w"
  by (simp_all add: dockerExec_def case_prod_beta quiet)

lemma health_quiet [quiet]:
  "w_disk (snd (containerHealth hst c w)) = w_disk w" "w_log (snd (containerHealth hst c w)) = w_log w"
  "w_disk (snd (containerRunning hst c w)) = w_disk w" "w_log (snd (containerRunning hst c w)) = w_log w"
  by (simp_all add: containerHealth_def containerRunning_def case_prod_beta quiet)

lemma wait_quiet [quiet]:
  "w_disk (snd (waitForHealthy hst c t w)) = w_disk w" "w_log (snd (waitForHealthy hst c t w)) = w_log w"
  by (auto simp: waitForHealthy_def case_prod_beta quiet split: option.split)

end
