(* ===== verification/Driver_Garage.thy ===== *)
theory Driver_Garage
  imports Driver_Host
begin

text \<open>
  Buckets and access keys in Garage, the object store of a workspace (\<open>garage.go\<close> and the Garage half of
  \<open>provision.go\<close>): every control operation is a command inside the store's container, whose answer is
  JSON. Texts that Go quotes (\<open>%q\<close>) are names of keys and buckets, without characters to escape.
\<close>

section \<open>garage.go\<close>

definition garageJSONAPI ::
    "'h apply_host \<Rightarrow> string \<Rightarrow> string \<Rightarrow> string \<Rightarrow> (json \<Rightarrow> 'a option) \<Rightarrow> 'h world \<Rightarrow> (string + 'a) \<times> 'h world" where
  "garageJSONAPI hst container endpoint body dec w =
     (case dockerExec hst container ([''/garage'', ''json-api'', endpoint] @ (if body = [] then [] else [body])) w of
        ((out, err, rc), w1) \<Rightarrow>
          (if rc \<noteq> 0 then Inl (''garage '' @ endpoint @ '': '' @ trim_space err)
           else case Option.bind (ah_json hst out) dec of
               None \<Rightarrow> Inl (''garage '' @ endpoint @ '': unmarshal response'')
             | Some x \<Rightarrow> Inr x, w1))"

text \<open>The call that discards its answer.\<close>

definition garageCall :: "'h apply_host \<Rightarrow> string \<Rightarrow> string \<Rightarrow> string \<Rightarrow> 'h world \<Rightarrow> string option \<times> 'h world" where
  "garageCall hst container endpoint body w =
     (case dockerExec hst container ([''/garage'', ''json-api'', endpoint] @ (if body = [] then [] else [body])) w of
        ((out, err, rc), w1) \<Rightarrow>
          (if rc \<noteq> 0 then Some (''garage '' @ endpoint @ '': '' @ trim_space err) else None, w1))"

definition garageIsAlreadyExists :: "string \<Rightarrow> bool" where
  "garageIsAlreadyExists err = str_contains err ''BucketAlreadyExists''"

definition dec_key :: "json \<Rightarrow> (string \<times> string) option" where
  "dec_key j = Option.bind (fields_of j) (\<lambda>fs.
     Option.bind (jfield ''accessKeyId'' as_str [] fs) (\<lambda>ak. map_option (Pair ak) (jfield ''secretAccessKey'' as_str [] fs)))"

definition dec_id :: "json \<Rightarrow> string option" where
  "dec_id j = Option.bind (fields_of j) (jfield ''id'' as_str [])"

definition dec_bucket :: "json \<Rightarrow> (string \<times> string list) option" where
  "dec_bucket j = Option.bind (fields_of j) (\<lambda>fs.
     Option.bind (jfield ''id'' as_str [] fs) (\<lambda>i. map_option (Pair i) (jfield ''globalAliases'' (as_list as_str) [] fs)))"

text \<open>A \<open>null\<close> response is an empty list.\<close>

definition dec_rows :: "(json \<Rightarrow> 'a option) \<Rightarrow> json \<Rightarrow> 'a list option" where
  "dec_rows dec j = (if j = JNull then Some [] else as_list dec j)"

definition key_body :: "string \<Rightarrow> string" where "key_body name = ''{'' @ quoted ''name'' @ '':'' @ quoted name @ ''}''"

definition alias_body :: "string \<Rightarrow> string" where
  "alias_body a = ''{'' @ quoted ''globalAlias'' @ '':'' @ quoted a @ ''}''"

definition allow_body :: "string \<Rightarrow> string \<Rightarrow> string" where
  "allow_body bucketID accessKeyID =
     ''{'' @ quoted ''bucketId'' @ '':'' @ quoted bucketID @ '','' @ quoted ''accessKeyId'' @ '':'' @ quoted accessKeyID @
     '','' @ quoted ''permissions'' @ '':{'' @ quoted ''read'' @ '':true,'' @ quoted ''write'' @ '':true,'' @ quoted ''owner'' @
     '':true}}''"

definition garageCreateKey ::
    "'h apply_host \<Rightarrow> string \<Rightarrow> string \<Rightarrow> 'h world \<Rightarrow> (string + string \<times> string) \<times> 'h world" where
  "garageCreateKey hst container name w =
     (case garageJSONAPI hst container ''CreateKey'' (key_body name) dec_key w of
        (Inl e, w1) \<Rightarrow> (Inl e, w1)
      | (Inr (ak, sk), w1) \<Rightarrow>
          (if ak = [] \<or> sk = [] then Inl (''garage CreateKey '' @ name @ '': empty key material in response'')
           else Inr (ak, sk), w1))"

definition garageGetBucketID :: "'h apply_host \<Rightarrow> string \<Rightarrow> string \<Rightarrow> 'h world \<Rightarrow> (string + string) \<times> 'h world" where
  "garageGetBucketID hst container a = garageJSONAPI hst container ''GetBucketInfo'' (alias_body a) dec_id"

definition garageCreateBucket :: "'h apply_host \<Rightarrow> string \<Rightarrow> string \<Rightarrow> 'h world \<Rightarrow> (string + string) \<times> 'h world" where
  "garageCreateBucket hst container a w =
     (case garageJSONAPI hst container ''CreateBucket'' (alias_body a) dec_id w of
        (Inl e, w1) \<Rightarrow> if garageIsAlreadyExists e then garageGetBucketID hst container a w1 else (Inl e, w1)
      | (Inr i, w1) \<Rightarrow> (Inr i, w1))"

definition garageAllowBucketKey ::
    "'h apply_host \<Rightarrow> string \<Rightarrow> string \<Rightarrow> string \<Rightarrow> 'h world \<Rightarrow> string option \<times> 'h world" where
  "garageAllowBucketKey hst container bucketID accessKeyID =
     garageCall hst container ''AllowBucketKey'' (allow_body bucketID accessKeyID)"

definition alias_map :: "(string \<times> string list) list \<Rightarrow> (string \<times> string) list" where
  "alias_map rows = fold (\<lambda>(i, as) out. fold (\<lambda>a. AList.update a i) as out) rows []"

definition garageListBuckets :: "'h apply_host \<Rightarrow> string \<Rightarrow> 'h world \<Rightarrow> (string + (string \<times> string) list) \<times> 'h world" where
  "garageListBuckets hst container w =
     (case garageJSONAPI hst container ''ListBuckets'' [] (dec_rows dec_bucket) w of
        (Inl e, w1) \<Rightarrow> (Inl e, w1)
      | (Inr rows, w1) \<Rightarrow> (Inr (alias_map rows), w1))"

definition garageListKeys :: "'h apply_host \<Rightarrow> string \<Rightarrow> 'h world \<Rightarrow> (string + string list) \<times> 'h world" where
  "garageListKeys hst container = garageJSONAPI hst container ''ListKeys'' [] (dec_rows dec_id)"

text \<open>The callers drop the error of the listing of keys.\<close>

definition keys_or_none :: "(string + string list) \<times> 'h world \<Rightarrow> string list \<times> 'h world" where
  "keys_or_none p = (case p of (Inl e, w) \<Rightarrow> ([], w) | (Inr ks, w) \<Rightarrow> (ks, w))"

definition buckets_or_none :: "(string + (string \<times> string) list) \<times> 'h world \<Rightarrow> (string \<times> string) list \<times> 'h world" where
  "buckets_or_none p = (case p of (Inl e, w) \<Rightarrow> ([], w) | (Inr m, w) \<Rightarrow> (m, w))"

section \<open>Minting a key\<close>

text \<open>A fresh key, kept in its file; \<open>None\<close> and a report when either step fails.\<close>

definition mint_key ::
    "platform \<Rightarrow> 'h apply_host \<Rightarrow> string \<Rightarrow> string \<Rightarrow> string \<Rightarrow> string \<Rightarrow> string \<Rightarrow> string \<Rightarrow> 'h world \<Rightarrow> string option \<times> 'h world" where
  "mint_key pf hst container secretsDir realm bucket name what w =
     (case garageCreateKey hst container name w of
        (Inl e, w1) \<Rightarrow> (None, report ''provision'' (''mint garage '' @ what @ '' deferred: '' @ e) w1)
      | (Inr (ak, sk), w1) \<Rightarrow>
          (case writeBucketCreds pf secretsDir realm bucket ak sk (w_disk w1) of
             (ok, d) \<Rightarrow>
               if ok then (Some ak, w1\<lparr>w_disk := d\<rparr>)
               else (None, report ''provision'' (''persist garage '' @ what @ '' failed'') (w1\<lparr>w_disk := d\<rparr>))))"

definition grant_key ::
    "'h apply_host \<Rightarrow> string \<Rightarrow> string \<Rightarrow> string \<Rightarrow> string \<Rightarrow> 'h world \<Rightarrow> 'h world" where
  "grant_key hst container bucketID ak what w =
     (case garageAllowBucketKey hst container bucketID ak w of
        (None, w1) \<Rightarrow> w1
      | (Some e, w1) \<Rightarrow> report ''provision'' (''grant '' @ what @ '' deferred: '' @ e) w1)"

section \<open>Before the compilation\<close>

definition precompile_bucket ::
    "platform \<Rightarrow> 'h apply_host \<Rightarrow> string \<Rightarrow> string \<Rightarrow> string \<Rightarrow> string list \<Rightarrow> (string \<times> string) list \<Rightarrow> string \<Rightarrow>
       'h world \<Rightarrow> 'h world" where
  "precompile_bucket pf hst container secretsDir realm keys buckets bucket w =
     (let ak0 = fst (readBucketCreds (w_disk w) secretsDir realm bucket) in
      if ak0 \<noteq> [] \<and> ak0 \<in> set keys then w
      else case mint_key pf hst container secretsDir realm bucket (''bp-'' @ bucket) (''key for '' @ bucket) w of
          (None, w1) \<Rightarrow> w1
        | (Some ak, w1) \<Rightarrow>
            (if env_get buckets bucket \<noteq> []
             then grant_key hst container (env_get buckets bucket) ak (ak @ '' on '' @ bucket) w1 else w1))"

definition precompile_realm ::
    "platform \<Rightarrow> 'h apply_host \<Rightarrow> workspace_context \<Rightarrow> string \<times> string list \<Rightarrow> 'h world \<Rightarrow> 'h world" where
  "precompile_realm pf hst wctx p w =
     (case p of (realm, want) \<Rightarrow>
        if serviceSecrets (w_disk w) (wc_secrets_dir wctx) ''garage'' realm = None then w
        else
          (let container = serviceContainerName (wc_name wctx) ''garage'' realm in
           case containerRunning hst container w of
             (running, w1) \<Rightarrow>
               if \<not> running then w1
               else
                 (case keys_or_none (garageListKeys hst container w1) of
                    (keys, w2) \<Rightarrow>
                      (case buckets_or_none (garageListBuckets hst container w2) of
                         (buckets, w3) \<Rightarrow>
                           fold (precompile_bucket pf hst container (wc_secrets_dir wctx) realm keys buckets) (sort want) w3))))"

section \<open>After the containers are up\<close>

text \<open>The listing that shows whether the store answers, with one wait for it.\<close>

definition ready_buckets ::
    "'h apply_host \<Rightarrow> string \<Rightarrow> string \<Rightarrow> 'h world \<Rightarrow> (string \<times> string) list option \<times> 'h world" where
  "ready_buckets hst container realm w =
     (case garageListBuckets hst container w of
        (Inr m, w1) \<Rightarrow> (Some m, w1)
      | (Inl e, w1) \<Rightarrow>
          (case waitForHealthy hst container 60 w1 of
             (Some werr, w2) \<Rightarrow> (None, report ''provision'' (''garage '' @ realm @ '' not ready: '' @ werr) w2)
           | (None, w2) \<Rightarrow>
               (case garageListBuckets hst container w2 of
                  (Inr m, w3) \<Rightarrow> (Some m, w3)
                | (Inl e', w3) \<Rightarrow>
                    (None, report ''provision'' (''garage '' @ realm @ '' list buckets deferred: '' @ e') w3))))"

text \<open>The key of the realm itself: its id, and whether it was minted here.\<close>

definition system_key ::
    "platform \<Rightarrow> 'h apply_host \<Rightarrow> string \<Rightarrow> string \<Rightarrow> string \<Rightarrow> string list \<Rightarrow> 'h world \<Rightarrow> (string \<times> bool) \<times> 'h world" where
  "system_key pf hst container secretsDir realm keys w =
     (let sysAK = fst (readBucketCreds (w_disk w) secretsDir realm systemKeyName) in
      if sysAK \<noteq> [] \<and> sysAK \<in> set keys then ((sysAK, False), w)
      else case mint_key pf hst container secretsDir realm systemKeyName systemKeyName (''_system key ('' @ realm @ '')'') w of
          (None, w1) \<Rightarrow> ((sysAK, False), w1)
        | (Some ak, w1) \<Rightarrow> ((ak, True), w1))"

definition bucket_id ::
    "'h apply_host \<Rightarrow> string \<Rightarrow> (string \<times> string) list \<Rightarrow> string \<Rightarrow> 'h world \<Rightarrow> string option \<times> 'h world" where
  "bucket_id hst container existing b w =
     (if env_get existing b \<noteq> [] then (Some (env_get existing b), w)
      else case garageCreateBucket hst container b w of
          (Inl e, w1) \<Rightarrow> (None, report ''provision'' (''create bucket '' @ b @ '' deferred: '' @ e) w1)
        | (Inr i, w1) \<Rightarrow> (Some i, w1))"

text \<open>One bucket, with the paths of the credentials that were minted.\<close>

definition finish_bucket ::
    "'h apply_host \<Rightarrow> string \<Rightarrow> (string \<times> string) list \<Rightarrow> string \<Rightarrow> string \<Rightarrow> string \<Rightarrow> 'h world \<Rightarrow> 'h world" where
  "finish_bucket hst container existing sysAK b bpAK w =
     (case bucket_id hst container existing b w of
        (None, w1) \<Rightarrow> w1
      | (Some i, w1) \<Rightarrow>
          (let w2 = grant_key hst container i bpAK (bpAK @ '' on '' @ b) w1 in
           if sysAK \<noteq> [] then grant_key hst container i sysAK (''_system on '' @ b) w2 else w2))"

definition reconcile_bucket ::
    "platform \<Rightarrow> 'h apply_host \<Rightarrow> string \<Rightarrow> string \<Rightarrow> string \<Rightarrow> (string \<times> string) list \<Rightarrow> string list \<Rightarrow> string \<times> bool \<Rightarrow>
       string \<Rightarrow> string list \<times> 'h world \<Rightarrow> string list \<times> 'h world" where
  "reconcile_bucket pf hst container secretsDir realm existing keys sys b p =
     (case p of (changed, w) \<Rightarrow>
        (let bpAK = fst (readBucketCreds (w_disk w) secretsDir realm b) in
         if env_get existing b \<noteq> [] \<and> bpAK \<noteq> [] \<and> bpAK \<in> set keys \<and> \<not> snd sys then (changed, w)
         else if bpAK = [] \<or> bpAK \<notin> set keys then
           (case mint_key pf hst container secretsDir realm b (''bp-'' @ b) (''key for '' @ b) w of
              (None, w1) \<Rightarrow> (changed, w1)
            | (Some ak, w1) \<Rightarrow>
                (changed @ [bucketCredsPath secretsDir realm b], finish_bucket hst container existing (fst sys) b ak w1))
         else (changed, finish_bucket hst container existing (fst sys) b bpAK w)))"

definition reconcileGarageBuckets ::
    "platform \<Rightarrow> 'h apply_host \<Rightarrow> workspace_context \<Rightarrow> string \<Rightarrow> string list \<Rightarrow> 'h world \<Rightarrow> string list \<times> 'h world" where
  "reconcileGarageBuckets pf hst wctx realm want w =
     (if serviceSecrets (w_disk w) (wc_secrets_dir wctx) ''garage'' realm = None then ([], w)
      else
        (let container = serviceContainerName (wc_name wctx) ''garage'' realm in
         case containerRunning hst container w of
           (running, w1) \<Rightarrow>
             if \<not> running then ([], w1)
             else
               (case ready_buckets hst container realm w1 of
                  (None, w2) \<Rightarrow> ([], w2)
                | (Some existing, w2) \<Rightarrow>
                    (case keys_or_none (garageListKeys hst container w2) of
                       (keys, w3) \<Rightarrow>
                         (case system_key pf hst container (wc_secrets_dir wctx) realm keys w3 of
                            (sys, w4) \<Rightarrow>
                              fold (reconcile_bucket pf hst container (wc_secrets_dir wctx) realm existing keys sys)
                                (sort want) ([], w4))))))"

end
