(* ===== verification/Driver_Gate.thy ===== *)
theory Driver_Gate
  imports Driver_Docker
begin

text \<open>
  The security boundary of the infra driver: whatever a client sends, the docker commands that the
  server runs for it touch only containers of the driver's own workspace, and images of its namespace. The locale
  \<open>driver_invariant\<close> shows of any driver that what each operation keeps, the whole HTTP server
  keeps; it is interpreted on the docker driver over a docker that records every command.
\<close>

section \<open>What the server keeps\<close>

locale driver_invariant =
  fixes d :: "'s driver" and keep :: "'s \<Rightarrow> bool"
  assumes build: "keep s \<Longrightarrow> keep (snd (drv_build d b s))"
    and list: "keep s \<Longrightarrow> keep (snd (drv_list d c flt s))"
    and stats: "keep s \<Longrightarrow> keep (snd (drv_stats d c flt s))"
    and logs: "keep s \<Longrightarrow> keep (snd (drv_logs d c n tail follow s))"
    and events: "keep s \<Longrightarrow> keep (snd (drv_events d c s))"
    and stop: "keep s \<Longrightarrow> keep (snd (drv_stop d c n s))"
    and restart: "keep s \<Longrightarrow> keep (snd (drv_restart d c n s))"
    and remove: "keep s \<Longrightarrow> keep (snd (drv_remove d c n s))"
    and images: "keep s \<Longrightarrow> keep (snd (drv_images d c s))"
    and image_remove: "keep s \<Longrightarrow> keep (snd (drv_image_remove d c tag s))"
    and sbom: "keep s \<Longrightarrow> keep (snd (drv_sbom d c tag s))"
    and inspect: "keep s \<Longrightarrow> keep (snd (drv_inspect d c n s))"
    and exec: "keep s \<Longrightarrow> keep (snd (drv_exec d c spec input s))"
    and copy_out: "keep s \<Longrightarrow> keep (snd (drv_copy_out d c n p s))"
    and copy_in: "keep s \<Longrightarrow> keep (snd (drv_copy_in d c n p archive s))"
begin

lemma json_call_keeps:
  "keep s \<Longrightarrow> (\<And>b. keep (snd (run b s))) \<Longrightarrow> keep (snd (json_call dec run write r s))"
  by (auto simp: json_call_def split: sum.splits prod.splits) (metis snd_conv)+

lemma sse_call_keeps:
  "keep s \<Longrightarrow> (\<And>b. keep (snd (run b s))) \<Longrightarrow> keep (snd (sse_call dec run flush r s))"
  by (auto simp: sse_call_def split: sum.splits prod.splits) (metis snd_conv)+

lemma unit_keeps: "keep (snd p) \<Longrightarrow> keep (snd (unit_result p))"
  by (simp add: unit_result_def split: option.splits)

lemma stream_handlers:
  assumes "keep s"
  shows "keep (snd (handleBuildImage d fl r s))" "keep (snd (handleLogs d fl r s))" "keep (snd (handleEvents d fl r s))"
  unfolding handleBuildImage_def handleLogs_def handleEvents_def
  using build [OF assms] logs [OF assms] events [OF assms]
  by (auto intro!: sse_call_keeps assms simp: case_prod_beta)

lemma json_handlers:
  assumes "keep s"
  shows "keep (snd (handleList d r s))" "keep (snd (handleStats d r s))" "keep (snd (handleImageList d r s))"
    "keep (snd (handleImageRemove d r s))" "keep (snd (handleImageSBOM d r s))" "keep (snd (handleInspect d r s))"
    "keep (snd (handleStop d r s))" "keep (snd (handleRestart d r s))" "keep (snd (handleRemove d r s))"
    "keep (snd (handleCopyOut d r s))"
  unfolding handleList_def handleStats_def handleImageList_def handleImageRemove_def handleImageSBOM_def
    handleInspect_def handleStop_def handleRestart_def handleRemove_def handleCopyOut_def containerAction_def
  by (auto intro!: json_call_keeps unit_keeps assms list stats images image_remove sbom inspect stop restart remove
        copy_out simp: case_prod_beta)

lemma header_handlers:
  assumes "keep s"
  shows "keep (snd (handleExec d fl r s))" "keep (snd (handleCopyIn d r s))"
proof -
  have "keep (snd (case drv_exec d c spec input s of ((chunks, res), s') \<Rightarrow> (f chunks res, s')))" for c spec input f
    using exec [OF assms] by (simp add: case_prod_beta)
  then show "keep (snd (handleExec d fl r s))"
    by (auto simp: handleExec_def assms split: option.splits)
  have "keep (snd (case drv_copy_in d c n p b s of (Some e, s') \<Rightarrow> (f e, s') | (None, s') \<Rightarrow> (g, s')))" for c n p b f g
    using copy_in [OF assms, of c n p b] by (auto split: prod.splits option.splits)
  then show "keep (snd (handleCopyIn d r s))"
    by (auto simp: handleCopyIn_def assms split: option.splits)
qed

lemma served:
  assumes "sv_driver sv = d" "keep s"
    and ensure: "\<And>f bp s. sv_ensure sv = Some f \<Longrightarrow> keep s \<Longrightarrow> keep (snd (f bp s))"
    and git: "\<And>f s. sv_git sv = Some f \<Longrightarrow> keep s \<Longrightarrow> keep (snd (f r s))"
  shows "keep (snd (serve sv r s))"
proof -
  have "keep (snd (handleEnsureDeployRepo sv r s))"
    using ensure [OF _ assms(2)] assms(2)
    by (auto simp: handleEnsureDeployRepo_def split: sum.splits option.splits prod.splits) (metis snd_conv)+
  then have "keep (snd (routes sv r s))"
    using git [OF _ assms(2)]
    by (simp add: routes_def Let_def assms(1,2) stream_handlers json_handlers header_handlers split: option.split)
  then show ?thesis by (simp add: serve_def tokenAuth_def assms(2))
qed

end

section \<open>A docker that records\<close>

text \<open>The same docker, with every command and the state it ran in.\<close>

definition logged :: "'h docker_host \<Rightarrow> ('h \<times> (string list \<times> 'h) list) docker_host" where
  "logged dk =
     \<lparr>dh_run = (\<lambda>args input (h, log). case dh_run dk args input h of (r, h') \<Rightarrow> (r, (h', log @ [(args, h)]))),
      dh_syft = (\<lambda>args (h, log). case dh_syft dk args h of (r, h') \<Rightarrow> (r, (h', log @ [(''syft'' # args, h)]))),
      dh_temp = (\<lambda>content (h, log). case dh_temp dk content h of (p, h') \<Rightarrow> (p, (h', log))),
      dh_env = dh_env dk, dh_ps_time = dh_ps_time dk, dh_rfc3339 = dh_rfc3339 dk, dh_mem = dh_mem dk,
      dh_image_line = dh_image_line dk\<rparr>"

definition label_args :: "string \<Rightarrow> string list" where
  "label_args n = [''inspect'', ''--format'', label_format, n]"

definition labelled :: "string \<Rightarrow> 'h docker_host \<Rightarrow> string \<Rightarrow> 'h \<Rightarrow> bool" where
  "labelled ws dk n h \<longleftrightarrow>
     (let r = fst (dh_run dk (label_args n) [] h) in cli_ok r \<and> trim_space (cr_out r) = ws)"

text \<open>A command on the container \<open>n\<close>.\<close>

definition container_args :: "string \<Rightarrow> string list \<Rightarrow> bool" where
  "container_args n args \<longleftrightarrow>
     args = [''stop'', n] \<or> args = [''restart'', n] \<or> args = [''rm'', ''-f'', n] \<or> args = [''inspect'', n] \<or>
     (\<exists>flags. args = ''logs'' # flags @ [n]) \<or> (\<exists>flags cmd. args = ''exec'' # flags @ [n] @ cmd) \<or>
     (\<exists>src. args = [''cp'', n @ '':'' @ src, ''-'']) \<or> (\<exists>dst. args = [''cp'', ''-'', n @ '':'' @ dst])"

text \<open>A listing that docker restricts to the workspace, and the readings of containers by id.\<close>

definition scoped_filter :: "string \<Rightarrow> string list \<Rightarrow> bool" where
  "scoped_filter ws args \<longleftrightarrow> sublist [''--filter'', ''label=gitops.workspace='' @ ws] args"

definition listing_args :: "string \<Rightarrow> string list \<Rightarrow> bool" where
  "listing_args ws args \<longleftrightarrow>
     args \<noteq> [] \<and> (hd args = ''ps'' \<or> hd args = ''events'') \<and> scoped_filter ws args \<or>
     (\<exists>ids. args = [''inspect'', ''--format'', inspectReadingsFormat] @ ids) \<or>
     (\<exists>ids. args = [''stats'', ''--no-stream'', ''--no-trunc'', ''--format'', statsFormat] @ ids)"

definition image_args :: "string \<Rightarrow> string list \<Rightarrow> bool" where
  "image_args ws args \<longleftrightarrow>
     (\<exists>tag. in_namespace ws tag \<and> (args = [''image'', ''rm'', ''-f'', tag] \<or> args = [''syft'', tag, ''-o'', ''syft-json''])) \<or>
     (\<exists>tag. args = [''image'', ''inspect'', ''--format'', ''{{.Id}}'', tag]) \<or> (\<exists>rest. args = ''images'' # rest) \<or>
     (\<exists>a b. args = [''tag'', a, b]) \<or> (\<exists>rest. args = ''build'' # rest)"

definition permitted :: "string \<Rightarrow> 'h docker_host \<Rightarrow> string list \<Rightarrow> 'h \<Rightarrow> bool" where
  "permitted ws dk args h \<longleftrightarrow>
     (\<exists>n. container_args n args \<and> labelled ws dk n h) \<or> (\<exists>n. args = label_args n) \<or>
     listing_args ws args \<or> image_args ws args"

definition all_permitted :: "string \<Rightarrow> 'h docker_host \<Rightarrow> 'h \<times> (string list \<times> 'h) list \<Rightarrow> bool" where
  "all_permitted ws dk s \<longleftrightarrow> (\<forall>(args, h)\<in>set (snd s). permitted ws dk args h)"

lemma logged_run:
  "dh_run (logged dk) args input s =
     (fst (dh_run dk args input (fst s)), (snd (dh_run dk args input (fst s)), snd s @ [(args, fst s)]))"
  by (simp add: logged_def case_prod_beta)

lemma logged_syft:
  "dh_syft (logged dk) args s =
     (fst (dh_syft dk args (fst s)), (snd (dh_syft dk args (fst s)), snd s @ [(''syft'' # args, fst s)]))"
  by (simp add: logged_def case_prod_beta)

lemma permitted_run:
  "all_permitted ws dk s \<Longrightarrow> permitted ws dk args (fst s) \<Longrightarrow> all_permitted ws dk (snd (dh_run (logged dk) args input s))"
  by (auto simp: logged_run all_permitted_def)

lemma permitted_gated:
  assumes "ws \<noteq> []" "\<And>n h. snd (dh_run dk (label_args n) [] h) = h"
    and "container_args n args" "all_permitted ws dk s"
  shows "all_permitted ws dk (snd (gated ws (logged dk) n refused args input k s))"
proof -
  let ?r = "fst (dh_run dk (label_args n) [] (fst s))" and ?s1 = "(fst s, snd s @ [(label_args n, fst s)])"
  have ask: "dh_run (logged dk) (label_args n) [] s = (?r, ?s1)" using assms(2) by (simp add: logged_run)
  have "permitted ws dk (label_args n) (fst s)" by (auto simp: permitted_def)
  then have s1: "all_permitted ws dk ?s1" using assms(4) by (auto simp: all_permitted_def)
  show ?thesis
  proof (cases "labelled ws dk n (fst s)")
    case True
    then have "permitted ws dk args (fst ?s1)" using assms(3) by (auto simp: permitted_def)
    from permitted_run [OF s1 this] show ?thesis
      using True assms(1)
      by (simp add: gated_def assertInWorkspace_def ask [unfolded label_args_def] labelled_def label_args_def Let_def
            case_prod_beta)
  next
    case False
    then show ?thesis
      using s1 assms(1)
      by (auto simp: gated_def assertInWorkspace_def ask [unfolded label_args_def] labelled_def label_args_def Let_def)
  qed
qed

text \<open>The docker driver only inspects labels without effect, and is confined to a workspace.\<close>

definition scoped_host :: "string \<Rightarrow> 'h docker_host \<Rightarrow> bool" where
  "scoped_host ws dk \<longleftrightarrow> ws \<noteq> [] \<and> (\<forall>n h. snd (dh_run dk (label_args n) [] h) = h)"

definition keeps_log :: "string \<Rightarrow> 'h docker_host \<Rightarrow> 'h \<times> (string list \<times> 'h) list \<Rightarrow> bool" where
  "keeps_log ws dk s \<longleftrightarrow> scoped_host ws dk \<longrightarrow> all_permitted ws dk s"

section \<open>Each operation keeps the log permitted\<close>

lemma keeps_gated:
  "container_args n args \<Longrightarrow> keeps_log ws dk s \<Longrightarrow> keeps_log ws dk (snd (gated ws (logged dk) n refused args input k s))"
  by (simp add: keeps_log_def scoped_host_def permitted_gated)

lemma keeps_run:
  "(scoped_host ws dk \<Longrightarrow> permitted ws dk args (fst s)) \<Longrightarrow> keeps_log ws dk s \<Longrightarrow>
     keeps_log ws dk (snd (dh_run (logged dk) args input s))"
  by (simp add: keeps_log_def permitted_run)

lemma keeps_temp: "keeps_log ws dk s \<Longrightarrow> keeps_log ws dk (snd (dh_temp (logged dk) content s))"
  by (simp add: keeps_log_def logged_def all_permitted_def case_prod_beta)

lemma container_flags:
  "container_args n ([''logs''] @ f @ g @ [n])" "container_args n ([''exec'', ''-i''] @ f @ g @ [n] @ cmd)"
proof -
  have "[''logs''] @ f @ g @ [n] = ''logs'' # (f @ g) @ [n]" by simp
  then show "container_args n ([''logs''] @ f @ g @ [n])" unfolding container_args_def by blast
  have "[''exec'', ''-i''] @ f @ g @ [n] @ cmd = ''exec'' # (''-i'' # f @ g) @ [n] @ cmd" by simp
  then show "container_args n ([''exec'', ''-i''] @ f @ g @ [n] @ cmd)" unfolding container_args_def by blast
qed

lemma gated_ops:
  assumes "keeps_log ws dk s"
  shows "keeps_log ws dk (snd (docker_stop ws (logged dk) n s))" "keeps_log ws dk (snd (docker_restart ws (logged dk) n s))"
    "keeps_log ws dk (snd (docker_remove ws (logged dk) n s))" "keeps_log ws dk (snd (docker_inspect ws (logged dk) n s))"
    "keeps_log ws dk (snd (docker_logs ws (logged dk) n tail follow s))"
    "keeps_log ws dk (snd (docker_exec ws (logged dk) spec input s))"
    "keeps_log ws dk (snd (docker_copy_out ws (logged dk) n src s))"
    "keeps_log ws dk (snd (docker_copy_in ws (logged dk) n dst archive s))"
  unfolding docker_stop_def docker_restart_def docker_remove_def docker_inspect_def docker_logs_def docker_exec_def
    docker_copy_out_def docker_copy_in_def
  by (rule keeps_gated [OF _ assms], (rule container_flags | simp add: container_args_def))+

lemma scoped_filterI: "scoped_filter ws (xs @ [''--filter'', ''label=gitops.workspace='' @ ws] @ ys)"
  unfolding scoped_filter_def by (metis sublist_appendI)

lemma listing_permitted:
  assumes "scoped_host ws dk"
  shows "permitted ws dk (ps_args ws flt) h"
    "permitted ws dk ([''inspect'', ''--format'', inspectReadingsFormat] @ ids) h"
    "permitted ws dk ([''stats'', ''--no-stream'', ''--no-trunc'', ''--format'', statsFormat] @ ids) h"
proof -
  have "scoped_filter ws (ps_args ws flt)"
    using assms scoped_filterI [of ws _ "[]"]
    by (simp add: ps_args_def scoped_host_def append_assoc [symmetric] del: append.simps append_assoc)
  then show "permitted ws dk (ps_args ws flt) h"
    by (simp add: permitted_def listing_args_def ps_args_def)
qed (auto simp: permitted_def listing_args_def)

lemma readings_keep:
  assumes "keeps_log ws dk s"
  shows "keeps_log ws dk (snd (dh_run (logged dk) ([''inspect'', ''--format'', inspectReadingsFormat] @ ids) input s))"
    "keeps_log ws dk
       (snd (dh_run (logged dk) ([''stats'', ''--no-stream'', ''--no-trunc'', ''--format'', statsFormat] @ ids) input s))"
  by (rule keeps_run [OF _ assms], erule listing_permitted)+

lemma listContainers_keeps: "keeps_log ws dk s \<Longrightarrow> keeps_log ws dk (snd (listContainers ws (logged dk) flt s))"
  by (simp add: listContainers_def case_prod_beta keeps_run listing_permitted)

lemma list_keeps:
  assumes "keeps_log ws dk s"
  shows "keeps_log ws dk (snd (docker_list ws (logged dk) flt s))"
proof -
  obtain res s1 where ran: "listContainers ws (logged dk) flt s = (res, s1)" by (rule prod.exhaust)
  have "keeps_log ws dk s1" using listContainers_keeps [OF assms, of flt] ran by simp
  then have "keeps_log ws dk (snd (fillInspectReadings (logged dk) cts s1))" for cts
    using readings_keep(1) [of ws dk s1 "map ct_id cts" "[]"] by (simp add: fillInspectReadings_def case_prod_beta)
  with \<open>keeps_log ws dk s1\<close> show ?thesis
    by (simp add: docker_list_def ran case_prod_beta split: sum.split)
qed

lemma stats_keeps:
  assumes "keeps_log ws dk s"
  shows "keeps_log ws dk (snd (docker_stats ws (logged dk) flt s))"
proof -
  obtain res s1 where ran: "listContainers ws (logged dk) flt s = (res, s1)" by (rule prod.exhaust)
  have "keeps_log ws dk s1" using listContainers_keeps [OF assms, of flt] ran by simp
  then show ?thesis
    using readings_keep(2) [of ws dk s1 _ "[]"]
    by (simp add: docker_stats_def ran Let_def case_prod_beta split: sum.split)
qed

lemma events_keeps:
  assumes "keeps_log ws dk s"
  shows "keeps_log ws dk (snd (docker_events ws (logged dk) s))"
proof -
  have "permitted ws dk ([''events'', ''--filter'', ''type=container''] @
              (if ws \<noteq> [] then [''--filter'', ''label=gitops.workspace='' @ ws] else []) @ rest) (fst s)"
    if "scoped_host ws dk" for rest
  proof -
    have "scoped_filter ws ([''events'', ''--filter'', ''type=container''] @ [''--filter'', ''label=gitops.workspace='' @ ws] @ rest)"
      by (rule scoped_filterI)
    with that show ?thesis
      by (simp add: permitted_def listing_args_def scoped_filter_def scoped_host_def)
  qed
  then show ?thesis
    unfolding docker_events_def case_prod_beta prod.sel by (rule keeps_run [OF _ assms])
qed

lemma image_permitted:
  "permitted ws dk (''images'' # rest) h" "permitted ws dk [''image'', ''inspect'', ''--format'', ''{{.Id}}'', tag] h"
  "permitted ws dk [''tag'', a, b] h" "permitted ws dk (''build'' # rest) h"
  "in_namespace ws tag \<Longrightarrow> permitted ws dk [''image'', ''rm'', ''-f'', tag] h"
  "in_namespace ws tag \<Longrightarrow> permitted ws dk [''syft'', tag, ''-o'', ''syft-json''] h"
  by (auto simp: permitted_def image_args_def)

lemma image_ops:
  assumes "keeps_log ws dk s"
  shows "keeps_log ws dk (snd (docker_images ws (logged dk) s))"
    "keeps_log ws dk (snd (docker_image_remove ws (logged dk) tag s))"
    "keeps_log ws dk (snd (imageID (logged dk) tag s))"
    "keeps_log ws dk (snd (findImageByContentSHA ws (logged dk) sha exclude s))"
    "keeps_log ws dk (snd (retag (logged dk) req found s))"
  using assms
  by (simp_all add: docker_images_def docker_image_remove_def imageID_def findImageByContentSHA_def retag_def Let_def
      case_prod_beta keeps_run image_permitted split: option.split)

lemma sbom_keeps: "keeps_log ws dk s \<Longrightarrow> keeps_log ws dk (snd (docker_sbom ws (logged dk) tag s))"
  by (auto simp: docker_sbom_def logged_syft keeps_log_def all_permitted_def image_permitted case_prod_beta)

lemma build_keeps:
  assumes "keeps_log ws dk s"
  shows "keeps_log ws dk (snd (docker_build ws (logged dk) req s))"
proof -
  have path: "keeps_log ws dk (snd (dockerfile_path (logged dk) req t))" if "keeps_log ws dk t" for t
    using that by (simp add: dockerfile_path_def keeps_temp)
  have built: "keeps_log ws dk (snd (dh_run (logged dk) (build_args (logged dk) req dfile) [] t))"
    if "keeps_log ws dk t" for t dfile
    using that by (simp add: keeps_run build_args_def image_permitted)
  have run: "keeps_log ws dk (snd (run_build (logged dk) req t))" if t: "keeps_log ws dk t" for t
    using path [OF t] built [OF path [OF t]] image_ops(3) [OF built [OF path [OF t]]]
    by (simp add: run_build_def case_prod_beta split: option.split)
  have i: "keeps_log ws dk (snd (imageID (logged dk) (br_tag req) s))" by (rule image_ops [OF assms])
  have f: "keeps_log ws dk (snd (findImageByContentSHA ws (logged dk) sha x (snd (imageID (logged dk) (br_tag req) s))))" for sha x
    by (rule image_ops [OF i])
  show ?thesis
    by (simp add: docker_build_def case_prod_beta assms i f run image_ops(5) split: option.split)
qed

interpretation confined_driver: driver_invariant "dockerDriver ws (logged dk)" "keeps_log ws dk"
  by unfold_locales
    (simp_all add: dockerDriver_def gated_ops list_keeps stats_keeps events_keeps image_ops sbom_keeps build_keeps)

section \<open>The server over the docker driver\<close>

definition serve_all :: "'s server_cfg \<Rightarrow> request list \<Rightarrow> 's \<Rightarrow> 's" where
  "serve_all sv rs s = fold (\<lambda>r t. snd (serve sv r t)) rs s"

lemma serve_all_keeps:
  assumes "\<And>r t. keep t \<Longrightarrow> keep (snd (serve sv r t))" "keep s"
  shows "keep (serve_all sv rs s)"
  using assms(2) by (induction rs arbitrary: s) (simp_all add: serve_all_def assms(1))


text \<open>A docker with one container of the workspace and one of another; removed ones are not found.\<close>

definition no_output :: cli_result where
  "no_output = \<lparr>cr_started = True, cr_exit = 0, cr_out = [], cr_err = [], cr_chunks = [], cr_lines = [], cr_merged = []\<rparr>"

definition sample_docker :: "(string \<times> string) list docker_host" where
  "sample_docker =
     \<lparr>dh_run = (\<lambda>args input h.
         if take 3 args = [''inspect'', ''--format'', label_format]
         then (case map_of h (last args) of
                 None \<Rightarrow> no_output\<lparr>cr_exit := 1, cr_err := ''Error: No such object: '' @ last args\<rparr>
               | Some ws \<Rightarrow> no_output\<lparr>cr_out := ws @ [newline]\<rparr>, h)
         else if take 2 args = [''rm'', ''-f''] then (no_output, AList.delete (last args) h)
         else (no_output, h)),
      dh_syft = (\<lambda>args h. (no_output, h)), dh_temp = (\<lambda>content h. (Some ''/tmp/Dockerfile'', h)), dh_env = (\<lambda>_. []),
      dh_ps_time = (\<lambda>_. None), dh_rfc3339 = (\<lambda>_. None), dh_mem = (\<lambda>_. 0), dh_image_line = (\<lambda>_. None)\<rparr>"

definition sample_socket :: "((string \<times> string) list \<times> (string list \<times> (string \<times> string) list) list) server_cfg" where
  "sample_socket =
     \<lparr>sv_token = [], sv_driver = dockerDriver ''acme'' (logged sample_docker), sv_flush = True, sv_ensure = None, sv_git = None\<rparr>"

definition remove_request :: "string \<Rightarrow> request" where
  "remove_request n = new_request [] PathContainersRemove (JsonBody (enc_name_body ''container'' (zero_ctx, n)))"

abbreviation two_containers :: "(string \<times> string) list" where
  "two_containers \<equiv> [(''acme-app'', ''acme''), (''other-app'', ''other'')]"

lemma sample_scoped: "scoped_host ''acme'' sample_docker"
  by (simp add: scoped_host_def sample_docker_def label_args_def)


text \<open>The run of the witness: the workspace's own container goes, the other one is only looked at.\<close>

lemma sample_commands:
  "fst (serve_all sample_socket [remove_request ''acme-app'', remove_request ''other-app''] (two_containers, [])) =
     [(''other-app'', ''other'')]"
  "map fst (snd (serve_all sample_socket [remove_request ''acme-app'', remove_request ''other-app''] (two_containers, []))) =
     [label_args ''acme-app'', [''rm'', ''-f'', ''acme-app''], label_args ''other-app'']"
  by code_simp+

section \<open>Where the boundary is weaker than it reads\<close>

text \<open>A tag prefix is not a namespace when one workspace's name continues another's with a hyphen.\<close>

lemma hyphenated_workspaces_share_a_namespace:
  "in_namespace (ws @ ''-'' @ rest) tag \<Longrightarrow> in_namespace ws tag"
  by (auto simp: in_namespace_def imageTagPrefix_def prefix_def)

text \<open>A build writes the tag that the request names, whatever its prefix.\<close>

lemma build_tags_are_not_checked:
  "map fst (snd (snd (docker_build ''acme'' (logged sample_docker)
       \<lparr>br_ctx = zero_ctx, br_tag = ''internal/other-app:latest'', br_source_path = ''/src'', br_base_image = [],
        br_mount_path = [], br_dockerfile = ''/src/Dockerfile'', br_source_sha = []\<rparr> ([], [])))) =
     [[''image'', ''inspect'', ''--format'', ''{{.Id}}'', ''internal/other-app:latest''],
      [''build'', ''--pull=false'', ''-t'', ''internal/other-app:latest'', ''-f'', ''/src/Dockerfile'', ''/src''],
      [''image'', ''inspect'', ''--format'', ''{{.Id}}'', ''internal/other-app:latest'']]"
  "\<not> in_namespace ''acme'' ''internal/other-app:latest''"
  by code_simp+

text \<open>Removing a container that is already gone fails in a scoped driver: the label check's error carries
  docker's exit status and not its message.\<close>

lemma remove_of_a_removed_container_fails:
  "docker_remove ''acme'' sample_docker ''acme-app'' [] =
     (Some ''scope check: inspect acme-app: exit status 1'', [])"
  by code_simp

end
