(* ===== verification/Driver_Grants.thy ===== *)
theory Driver_Grants
  imports Driver_Garage Driver_Gate
begin

text \<open>
  What an apply leaves in Garage. The store is known by a view of its state (its keys, its buckets by
  alias, and which key may use which bucket) and by how its admin operations change that view; a run
  that reports nothing leaves every wanted bucket usable with the key in its credentials file.
\<close>

section \<open>Garage as its clients know it\<close>

record garage_view =
  gv_keys :: "string set"
  gv_buckets :: "string \<Rightarrow> string option"
  gv_grants :: "(string \<times> string) set"

definition garage_le :: "garage_view \<Rightarrow> garage_view \<Rightarrow> bool" where
  "garage_le v v' \<longleftrightarrow> gv_keys v \<subseteq> gv_keys v' \<and> gv_buckets v \<subseteq>\<^sub>m gv_buckets v' \<and> gv_grants v \<subseteq> gv_grants v'"

text \<open>
  The documented behaviour: reading changes nothing and is truthful, creating and granting only add, and
  what a successful operation answers is there afterwards. A key's id and secret are texts without blanks.
\<close>

definition garage_reads :: "'h apply_host \<Rightarrow> string \<Rightarrow> ('h \<Rightarrow> garage_view) \<Rightarrow> bool" where
  "garage_reads hst c gv \<longleftrightarrow>
     (\<forall>h args. hd args = ''inspect'' \<longrightarrow> gv (snd (dh_run (ah_docker hst) args [] h)) = gv h) \<and>
     (\<forall>h t. gv (snd (ah_watch hst c t h)) = gv h) \<and>
     (\<forall>w. gv (w_host (snd (garageListBuckets hst c w))) = gv (w_host w)) \<and>
     (\<forall>w m. fst (garageListBuckets hst c w) = Inr m \<longrightarrow> map_of m \<subseteq>\<^sub>m gv_buckets (gv (w_host w))) \<and>
     (\<forall>w. gv (w_host (snd (garageListKeys hst c w))) = gv (w_host w)) \<and>
     (\<forall>w ks. fst (garageListKeys hst c w) = Inr ks \<longrightarrow> set ks \<subseteq> gv_keys (gv (w_host w)))"

definition garage_writes :: "'h apply_host \<Rightarrow> string \<Rightarrow> ('h \<Rightarrow> garage_view) \<Rightarrow> bool" where
  "garage_writes hst c gv \<longleftrightarrow>
     (\<forall>w name. garage_le (gv (w_host w)) (gv (w_host (snd (garageCreateKey hst c name w))))) \<and>
     (\<forall>w name ak sk. fst (garageCreateKey hst c name w) = Inr (ak, sk) \<longrightarrow>
        no_space ak \<and> no_space sk \<and> ak \<in> gv_keys (gv (w_host (snd (garageCreateKey hst c name w))))) \<and>
     (\<forall>w a. garage_le (gv (w_host w)) (gv (w_host (snd (garageCreateBucket hst c a w))))) \<and>
     (\<forall>w a i. fst (garageCreateBucket hst c a w) = Inr i \<longrightarrow>
        gv_buckets (gv (w_host (snd (garageCreateBucket hst c a w)))) a = Some i) \<and>
     (\<forall>w i ak. garage_le (gv (w_host w)) (gv (w_host (snd (garageAllowBucketKey hst c i ak w))))) \<and>
     (\<forall>w i ak. fst (garageAllowBucketKey hst c i ak w) = None \<longrightarrow>
        (i, ak) \<in> gv_grants (gv (w_host (snd (garageAllowBucketKey hst c i ak w)))))"

lemma garage_le_refl [simp]: "garage_le v v"
  by (simp add: garage_le_def)

lemma garage_le_trans: "garage_le u v \<Longrightarrow> garage_le v w \<Longrightarrow> garage_le u w"
  unfolding garage_le_def by (blast intro: map_le_trans)

section \<open>What an apply promises\<close>

definition bucket_key :: "string \<Rightarrow> string \<Rightarrow> string \<Rightarrow> 'h world \<Rightarrow> string" where
  "bucket_key sd realm b w = fst (readBucketCreds (w_disk w) sd realm b)"

text \<open>The bucket exists, and the key in its credentials file exists and may use it.\<close>

definition usable :: "('h \<Rightarrow> garage_view) \<Rightarrow> string \<Rightarrow> string \<Rightarrow> string \<Rightarrow> 'h world \<Rightarrow> bool" where
  "usable gv sd realm b w \<longleftrightarrow>
     (let v = gv (w_host w); ak = bucket_key sd realm b w in
      \<exists>i. gv_buckets v b = Some i \<and> ak \<noteq> [] \<and> ak \<in> gv_keys v \<and> (i, ak) \<in> gv_grants v)"

text \<open>A bucket and a key that both exist belong together.\<close>

definition no_half_grant :: "('h \<Rightarrow> garage_view) \<Rightarrow> string \<Rightarrow> string \<Rightarrow> string \<Rightarrow> 'h world \<Rightarrow> bool" where
  "no_half_grant gv sd realm b w \<longleftrightarrow>
     (let v = gv (w_host w); ak = bucket_key sd realm b w in
      \<forall>i. gv_buckets v b = Some i \<longrightarrow> ak \<noteq> [] \<longrightarrow> ak \<in> gv_keys v \<longrightarrow> (i, ak) \<in> gv_grants v)"

lemma usable_mono:
  "usable gv sd realm b w \<Longrightarrow> garage_le (gv (w_host w)) (gv (w_host w')) \<Longrightarrow>
     bucket_key sd realm b w' = bucket_key sd realm b w \<Longrightarrow> usable gv sd realm b w'"
  by (force simp: usable_def garage_le_def Let_def map_le_def dom_def)

section \<open>One step\<close>

lemma report_log [simp]: "w_log (report s m w) = w_log w @ [(s, m)]" "w_host (report s m w) = w_host w"
  "w_disk (report s m w) = w_disk w"
  by (simp_all add: report_def)

lemma garage_quiet [quiet]:
  "w_disk (snd (garageJSONAPI hst c ep b dec w)) = w_disk w" "w_log (snd (garageJSONAPI hst c ep b dec w)) = w_log w"
  "w_disk (snd (garageCall hst c ep b w)) = w_disk w" "w_log (snd (garageCall hst c ep b w)) = w_log w"
  by (simp_all add: garageJSONAPI_def garageCall_def case_prod_beta quiet)

lemma garage_ops_quiet [quiet]:
  "w_disk (snd (garageCreateKey hst c n w)) = w_disk w" "w_log (snd (garageCreateKey hst c n w)) = w_log w"
  "w_disk (snd (garageCreateBucket hst c n w)) = w_disk w" "w_log (snd (garageCreateBucket hst c n w)) = w_log w"
  "w_disk (snd (garageAllowBucketKey hst c i k w)) = w_disk w" "w_log (snd (garageAllowBucketKey hst c i k w)) = w_log w"
  "w_disk (snd (garageListBuckets hst c w)) = w_disk w" "w_log (snd (garageListBuckets hst c w)) = w_log w"
  "w_disk (snd (garageListKeys hst c w)) = w_disk w" "w_log (snd (garageListKeys hst c w)) = w_log w"
  by (auto simp: garageCreateKey_def garageCreateBucket_def garageGetBucketID_def garageAllowBucketKey_def
      garageListBuckets_def garageListKeys_def quiet split: prod.split sum.split)
    (metis garage_quiet snd_conv)+

lemma trim_no_space: "no_space s \<Longrightarrow> trim_space s = s"
  by (simp add: no_space_trimmed trim_space_trimmed)

lemma bucket_creds_roundtrip:
  assumes "writeBucketCreds pf sd realm b ak sk d = (True, d')" "no_space ak" "no_space sk" "ak \<noteq> []" "sk \<noteq> []"
  shows "readBucketCreds d' sd realm b = (ak, sk)"
proof -
  let ?kvs = "[(''S3_ACCESS_KEY'', ak), (''S3_SECRET_KEY'', sk)]"
  have "(''S3_ACCESS_KEY'', ak) \<in> set (env_pairs ?kvs)"
    using assms(2,4) by (simp add: set_env_pairs trim_no_space)
  then have "env_pairs ?kvs \<noteq> []" by auto
  moreover have "\<forall>(k, v)\<in>set ?kvs. env_key_ok k \<and> env_value_ok v"
    using assms(2,3) by (simp add: no_space_value, simp add: env_key_ok_def is_space_def newline_def)
  ultimately obtain vals where "readEnvFile d' (bucketCredsPath sd realm b) = Some vals"
    and "\<forall>k. map_of vals k = (case map_of ?kvs k of None \<Rightarrow> None | Some v \<Rightarrow> if trim_space v \<noteq> [] then Some v else None)"
    using env_file_roundtrip [of ?kvs pf "bucketCredsPath sd realm b" d d'] assms(1)
    by (auto simp: writeBucketCreds_def)
  then show ?thesis
    using assms(2-5) by (simp add: readBucketCreds_def env_get_def trim_no_space)
qed

lemma bucket_key_written:
  "writeBucketCreds pf sd realm b ak sk (w_disk w) = (ok, d') \<Longrightarrow>
     bucketCredsPath sd realm b' \<noteq> bucketCredsPath sd realm b \<Longrightarrow> bucket_key sd realm b' (w\<lparr>w_disk := d'\<rparr>) = bucket_key sd realm b' w"
  by (auto simp: bucket_key_def readBucketCreds_def readEnvFile_def writeBucketCreds_def writeEnvFile_def write_file_def
      split: if_splits)

text \<open>A step only adds to the report and to the store, and touches no other bucket's credentials.\<close>

definition steps_to :: "('h \<Rightarrow> garage_view) \<Rightarrow> string \<Rightarrow> string \<Rightarrow> string set \<Rightarrow> 'h world \<Rightarrow> 'h world \<Rightarrow> bool" where
  "steps_to gv sd realm B w w' \<longleftrightarrow>
     prefix (w_log w) (w_log w') \<and> garage_le (gv (w_host w)) (gv (w_host w')) \<and>
     (\<forall>b. bucketCredsPath sd realm b \<notin> bucketCredsPath sd realm ` B \<longrightarrow> bucket_key sd realm b w' = bucket_key sd realm b w)"

lemma steps_refl [simp]: "steps_to gv sd realm B w w"
  by (simp add: steps_to_def)

lemma steps_trans:
  "steps_to gv sd realm B w w' \<Longrightarrow> steps_to gv sd realm B' w' w'' \<Longrightarrow> steps_to gv sd realm (B \<union> B') w w''"
  unfolding steps_to_def by (auto intro: garage_le_trans simp: image_Un)

lemma steps_silent: "steps_to gv sd realm B w w1 \<Longrightarrow> steps_to gv sd realm B' w1 w' \<Longrightarrow> w_log w' = w_log w \<Longrightarrow>
    w_log w1 = w_log w \<and> w_log w' = w_log w1"
  unfolding steps_to_def by (metis prefix_order.antisym)

lemma steps_usable:
  "usable gv sd realm b w \<Longrightarrow> steps_to gv sd realm B w w' \<Longrightarrow> bucketCredsPath sd realm b \<notin> bucketCredsPath sd realm ` B \<Longrightarrow>
     usable gv sd realm b w'"
  by (rule usable_mono) (auto simp: steps_to_def)

lemma mint_key_steps:
  assumes "garage_writes hst c gv" "mint_key pf hst c sd realm b name what w = (res, w')"
  shows "steps_to gv sd realm {b} w w'"
    and "res = Some ak \<Longrightarrow> bucket_key sd realm b w' = ak \<and> ak \<noteq> [] \<and> ak \<in> gv_keys (gv (w_host w'))"
    and "res = None \<Longrightarrow> w_log w' \<noteq> w_log w"
proof -
  obtain kres w1 where key: "garageCreateKey hst c name w = (kres, w1)" by (rule prod.exhaust)
  have w1: "w_disk w1 = w_disk w" "w_log w1 = w_log w" "garage_le (gv (w_host w)) (gv (w_host w1))"
    using garage_ops_quiet(1,2) [of hst c name w] assms(1) key unfolding garage_writes_def by (metis snd_conv)+
  have same: "bucket_key sd realm b' w1 = bucket_key sd realm b' w" for b'
    using w1(1) by (simp add: bucket_key_def)
  have "steps_to gv sd realm {b} w w' \<and> (res = Some ak \<longrightarrow> bucket_key sd realm b w' = ak \<and> ak \<noteq> [] \<and>
      ak \<in> gv_keys (gv (w_host w'))) \<and> (res = None \<longrightarrow> w_log w' \<noteq> w_log w)"
  proof (cases kres)
    case (Inl e)
    then show ?thesis
      using assms(2) key w1 same by (auto simp: mint_key_def steps_to_def bucket_key_def)
  next
    case (Inr p)
    obtain ak0 sk where p: "p = (ak0, sk)" by (rule prod.exhaust)
    obtain ok d where wrote: "writeBucketCreds pf sd realm b ak0 sk (w_disk w1) = (ok, d)" by (rule prod.exhaust)
    have fresh: "no_space ak0" "no_space sk" "ak0 \<in> gv_keys (gv (w_host w1))"
      using assms(1) key Inr p unfolding garage_writes_def by (metis fst_conv snd_conv)+
    have "ak0 \<noteq> []" "sk \<noteq> []"
      using key Inr p by (auto simp: garageCreateKey_def split: prod.splits sum.splits if_splits)
    then have "ok \<Longrightarrow> bucket_key sd realm b (w1\<lparr>w_disk := d\<rparr>) = ak0"
      using bucket_creds_roundtrip [of pf sd realm b ak0 sk "w_disk w1" d] wrote fresh by (simp add: bucket_key_def)
    moreover have "bucket_key sd realm b' (w1\<lparr>w_disk := d\<rparr>) = bucket_key sd realm b' w"
      if "bucketCredsPath sd realm b' \<noteq> bucketCredsPath sd realm b" for b'
      using bucket_key_written [OF wrote that] same by simp
    ultimately show ?thesis
      using assms(2) key Inr p wrote w1 fresh \<open>ak0 \<noteq> []\<close>
      by (cases ok) (auto simp: mint_key_def steps_to_def bucket_key_def)
  qed
  then show "steps_to gv sd realm {b} w w'"
    "res = Some ak \<Longrightarrow> bucket_key sd realm b w' = ak \<and> ak \<noteq> [] \<and> ak \<in> gv_keys (gv (w_host w'))"
    "res = None \<Longrightarrow> w_log w' \<noteq> w_log w" by auto
qed

lemma mint_key_failed: "mint_key pf hst c sd realm b name what w = (None, w') \<Longrightarrow> w_disk w' = w_disk w"
  by (auto simp: mint_key_def writeBucketCreds_def writeEnvFile_def write_file_def
      split: prod.splits sum.splits if_splits) (metis garage_ops_quiet(1) snd_conv)+

lemma grant_key_steps:
  assumes "garage_writes hst c gv"
  shows "steps_to gv sd realm {} w (grant_key hst c i ak what w)"
    and "w_log (grant_key hst c i ak what w) = w_log w \<Longrightarrow>
      (i, ak) \<in> gv_grants (gv (w_host (grant_key hst c i ak what w)))"
proof -
  obtain r w1 where ran: "garageAllowBucketKey hst c i ak w = (r, w1)" by (rule prod.exhaust)
  have w1: "w_disk w1 = w_disk w" "w_log w1 = w_log w" "garage_le (gv (w_host w)) (gv (w_host w1))"
    and granted: "r = None \<longrightarrow> (i, ak) \<in> gv_grants (gv (w_host w1))"
    using garage_ops_quiet(5,6) [of hst c i ak w] assms ran unfolding garage_writes_def by (metis fst_conv snd_conv)+
  show "steps_to gv sd realm {} w (grant_key hst c i ak what w)"
    using w1 by (auto simp: grant_key_def ran steps_to_def bucket_key_def split: option.split)
  show "(i, ak) \<in> gv_grants (gv (w_host (grant_key hst c i ak what w)))"
    if "w_log (grant_key hst c i ak what w) = w_log w"
    using that w1 granted by (auto simp: grant_key_def ran split: option.splits)
qed

lemma bucket_id_steps:
  assumes "garage_writes hst c gv" "bucket_id hst c existing b w = (res, w')"
    and "map_of existing \<subseteq>\<^sub>m gv_buckets (gv (w_host w))"
  shows "steps_to gv sd realm {} w w'"
    and "res = Some i \<Longrightarrow> gv_buckets (gv (w_host w')) b = Some i"
    and "res = None \<Longrightarrow> w_log w' \<noteq> w_log w"
proof -
  obtain r w1 where ran: "garageCreateBucket hst c b w = (r, w1)" by (rule prod.exhaust)
  have w1: "w_disk w1 = w_disk w" "w_log w1 = w_log w" "garage_le (gv (w_host w)) (gv (w_host w1))"
    and granted: "r = Inr i \<longrightarrow> gv_buckets (gv (w_host w1)) b = Some i"
    using garage_ops_quiet(3,4) [of hst c b w] assms(1) ran unfolding garage_writes_def by (metis fst_conv snd_conv)+
  have listed: "gv_buckets (gv (w_host w)) b = Some (env_get existing b)" if "env_get existing b \<noteq> []"
    using that assms(3) by (cases "map_of existing b") (auto simp: env_get_def map_le_def dom_def)
  show "steps_to gv sd realm {} w w'"
    using assms(2) w1 by (auto simp: bucket_id_def ran steps_to_def bucket_key_def split: if_splits sum.splits)
  show "res = Some i \<Longrightarrow> gv_buckets (gv (w_host w')) b = Some i"
    using assms(2) listed granted by (auto simp: bucket_id_def ran split: if_splits sum.splits)
  show "res = None \<Longrightarrow> w_log w' \<noteq> w_log w"
    using assms(2) w1 by (auto simp: bucket_id_def ran split: if_splits sum.splits)
qed

lemma finish_bucket_steps:
  assumes "garage_writes hst c gv" "map_of existing \<subseteq>\<^sub>m gv_buckets (gv (w_host w))"
  shows "steps_to gv sd realm {} w (finish_bucket hst c existing sysAK b ak w)"
    and "w_log (finish_bucket hst c existing sysAK b ak w) = w_log w \<Longrightarrow> bucket_key sd realm b w = ak \<Longrightarrow> ak \<noteq> [] \<Longrightarrow>
      ak \<in> gv_keys (gv (w_host w)) \<Longrightarrow> usable gv sd realm b (finish_bucket hst c existing sysAK b ak w)"
proof -
  obtain r w1 where ran: "bucket_id hst c existing b w = (r, w1)" by (rule prod.exhaust)
  have steps1: "steps_to gv sd realm {} w w1" by (rule bucket_id_steps [OF assms(1) ran assms(2)])
  let ?grant = "\<lambda>i. grant_key hst c i ak (ak @ '' on '' @ b) w1" and ?w' = "finish_bucket hst c existing sysAK b ak w"
  have w': "?w' = (case r of None \<Rightarrow> w1 | Some i \<Rightarrow>
      if sysAK \<noteq> [] then grant_key hst c i sysAK (''_system on '' @ b) (?grant i) else ?grant i)"
    by (simp add: finish_bucket_def ran Let_def split: option.split)
  note granting = grant_key_steps(1) [OF assms(1)]
  have last: "steps_to gv sd realm {} (?grant i) ?w'" if "r = Some i" for i
    using that granting by (simp add: w')
  have rest: "steps_to gv sd realm {} w1 ?w'"
  proof (cases r)
    case (Some i)
    with steps_trans [OF granting last] show ?thesis by fastforce
  qed (simp add: w')
  show "steps_to gv sd realm {} w ?w'" using steps_trans [OF steps1 rest] by simp
  assume silent: "w_log ?w' = w_log w" and key: "bucket_key sd realm b w = ak" "ak \<noteq> []" "ak \<in> gv_keys (gv (w_host w))"
  have quiet1: "w_log w1 = w_log w" "w_log ?w' = w_log w1" using steps_silent [OF steps1 rest silent] by auto
  then obtain i where r: "r = Some i" using bucket_id_steps(3) [OF assms(1) ran assms(2)] by (cases r) auto
  have "gv_buckets (gv (w_host w1)) b = Some i" by (rule bucket_id_steps(2) [OF assms(1) ran assms(2) r])
  moreover have "w_log (?grant i) = w_log w1" using steps_silent [OF granting last [OF r] quiet1(2)] by simp
  then have "(i, ak) \<in> gv_grants (gv (w_host (?grant i)))" by (rule grant_key_steps(2) [OF assms(1)])
  moreover have "garage_le (gv (w_host w)) (gv (w_host w1))" "garage_le (gv (w_host w1)) (gv (w_host (?grant i)))"
    "\<forall>b. bucket_key sd realm b (?grant i) = bucket_key sd realm b w"
    using steps1 granting [of sd realm w1 i ak] by (auto simp: steps_to_def)
  ultimately have "usable gv sd realm b (?grant i)"
    using key by (auto simp: usable_def garage_le_def map_le_def dom_def)
  then show "usable gv sd realm b ?w'" by (rule steps_usable [OF _ last [OF r]]) simp
qed

section \<open>The buckets of a realm\<close>

text \<open>What the listings say is true of the store, and no listed bucket and key are half granted.\<close>

definition listed_ok ::
    "('h \<Rightarrow> garage_view) \<Rightarrow> string \<Rightarrow> string \<Rightarrow> (string \<times> string) list \<Rightarrow> string list \<Rightarrow> string set \<Rightarrow> 'h world \<Rightarrow> bool" where
  "listed_ok gv sd realm existing keys B w \<longleftrightarrow>
     map_of existing \<subseteq>\<^sub>m gv_buckets (gv (w_host w)) \<and> set keys \<subseteq> gv_keys (gv (w_host w)) \<and>
     (\<forall>b\<in>B. \<forall>i. map_of existing b = Some i \<longrightarrow> bucket_key sd realm b w \<noteq> [] \<longrightarrow> bucket_key sd realm b w \<in> set keys \<longrightarrow>
        (i, bucket_key sd realm b w) \<in> gv_grants (gv (w_host w)))"

lemma listed_ok_steps:
  assumes "listed_ok gv sd realm existing keys B w" "steps_to gv sd realm B' w w'"
    and "\<And>b. b \<in> B \<Longrightarrow> bucketCredsPath sd realm b \<notin> bucketCredsPath sd realm ` B'"
  shows "listed_ok gv sd realm existing keys B w'"
  using assms unfolding listed_ok_def steps_to_def garage_le_def by (auto intro: map_le_trans)

lemma reconcile_bucket_steps:
  assumes "garage_writes hst c gv" "listed_ok gv sd realm existing keys {b} w"
    and "reconcile_bucket pf hst c sd realm existing keys sys b (changed, w) = (changed', w')"
  shows "steps_to gv sd realm {b} w w'"
    and "w_log w' = w_log w \<Longrightarrow> usable gv sd realm b w'"
    and "set changed \<subseteq> set changed'"
    and "bucketCredsPath sd realm b \<notin> set changed' \<Longrightarrow> bucket_key sd realm b w' = bucket_key sd realm b w"
proof -
  let ?ak = "bucket_key sd realm b w"
  note step = assms(3) [unfolded reconcile_bucket_def, simplified, folded bucket_key_def, unfolded Let_def]
  have true: "map_of existing \<subseteq>\<^sub>m gv_buckets (gv (w_host w))" "set keys \<subseteq> gv_keys (gv (w_host w))"
    using assms(2) by (auto simp: listed_ok_def)
  consider (skip) "changed' = changed" "w' = w" "env_get existing b \<noteq> []" "?ak \<noteq> []" "?ak \<in> set keys"
    | (failed) "mint_key pf hst c sd realm b (''bp-'' @ b) (''key for '' @ b) w = (None, w')" "changed' = changed"
    | (mint) ak w1 where "mint_key pf hst c sd realm b (''bp-'' @ b) (''key for '' @ b) w = (Some ak, w1)"
        "changed' = changed @ [bucketCredsPath sd realm b]" "w' = finish_bucket hst c existing (fst sys) b ak w1"
    | (old) "?ak \<noteq> []" "?ak \<in> set keys" "changed' = changed" "w' = finish_bucket hst c existing (fst sys) b ?ak w"
    using step by (auto split: if_splits prod.splits option.splits)
  then have "steps_to gv sd realm {b} w w' \<and> (w_log w' = w_log w \<longrightarrow> usable gv sd realm b w') \<and> set changed \<subseteq> set changed' \<and>
      (bucketCredsPath sd realm b \<notin> set changed' \<longrightarrow> bucket_key sd realm b w' = ?ak)"
  proof cases
    case skip
    then obtain i where "map_of existing b = Some i" by (auto simp: env_get_def split: option.splits)
    with skip assms(2) true show ?thesis
      by (auto simp: usable_def listed_ok_def map_le_def dom_def intro!: exI [of _ i])
  next
    case failed
    then show ?thesis
      using mint_key_steps(1,3) [OF assms(1) failed(1)] mint_key_failed [OF failed(1)] by (simp add: bucket_key_def)
  next
    case mint
    note minted = mint_key_steps(1,2) [OF assms(1) mint(1)]
    have "map_of existing \<subseteq>\<^sub>m gv_buckets (gv (w_host w1))"
      using minted(1) true(1) by (auto simp: steps_to_def garage_le_def intro: map_le_trans)
    note finish = finish_bucket_steps [OF assms(1) this, where sd = sd and realm = realm and sysAK = "fst sys" and b = b and ak = ak]
    have "steps_to gv sd realm {b} w w'"
      using steps_trans [OF minted(1) finish(1)] by (simp add: mint(3))
    moreover have "usable gv sd realm b w'" if "w_log w' = w_log w"
    proof -
      have "w_log (finish_bucket hst c existing (fst sys) b ak w1) = w_log w1"
        using steps_silent [OF minted(1) finish(1)] that mint(3) by blast
      with minted(2) [OF refl] show ?thesis unfolding mint(3) by (intro finish(2)) auto
    qed
    ultimately show ?thesis by (simp add: mint(2)) blast
  next
    case old
    note finish = finish_bucket_steps [OF assms(1) true(1), where sd = sd and realm = realm and sysAK = "fst sys" and b = b and ak = ?ak]
    have "?ak \<in> gv_keys (gv (w_host w))" using old(2) true(2) by blast
    then have "w_log w' = w_log w \<longrightarrow> usable gv sd realm b w'"
      using finish(2) [OF _ refl old(1)] by (simp add: old(4))
    then show ?thesis
      using finish(1) old(3,4) by (auto simp: steps_to_def)
  qed
  then show "steps_to gv sd realm {b} w w'" "w_log w' = w_log w \<Longrightarrow> usable gv sd realm b w'" "set changed \<subseteq> set changed'"
    "bucketCredsPath sd realm b \<notin> set changed' \<Longrightarrow> bucket_key sd realm b w' = ?ak" by auto
qed

lemma reconcile_fold:
  assumes "garage_writes hst c gv" "distinct bs" "inj_on (bucketCredsPath sd realm) (set bs)"
    and "listed_ok gv sd realm existing keys (set bs) w"
    and "fold (reconcile_bucket pf hst c sd realm existing keys sys) bs (changed, w) = (changed', w')"
  shows "steps_to gv sd realm (set bs) w w' \<and> set changed \<subseteq> set changed' \<and>
    (\<forall>b\<in>set bs. (w_log w' = w_log w \<longrightarrow> usable gv sd realm b w') \<and>
       (bucketCredsPath sd realm b \<notin> set changed' \<longrightarrow> bucket_key sd realm b w' = bucket_key sd realm b w))"
  using assms(2-5)
proof (induction bs arbitrary: changed w)
  case (Cons b bs)
  obtain ch1 w1 where one: "reconcile_bucket pf hst c sd realm existing keys sys b (changed, w) = (ch1, w1)"
    by (rule prod.exhaust)
  have apart: "bucketCredsPath sd realm b' \<notin> bucketCredsPath sd realm ` {b}" if "b' \<in> set bs" for b'
    using that Cons.prems(1,2) by (auto simp: inj_on_def)
  have first: "listed_ok gv sd realm existing keys {b} w" using Cons.prems(3) by (auto simp: listed_ok_def)
  note step = reconcile_bucket_steps [OF assms(1) first one]
  have "listed_ok gv sd realm existing keys (set bs) w" using Cons.prems(3) by (auto simp: listed_ok_def)
  then have "listed_ok gv sd realm existing keys (set bs) w1" by (rule listed_ok_steps [OF _ step(1) apart])
  then have rest: "steps_to gv sd realm (set bs) w1 w'" "set ch1 \<subseteq> set changed'"
    "\<And>b. b \<in> set bs \<Longrightarrow> (w_log w' = w_log w1 \<longrightarrow> usable gv sd realm b w') \<and>
       (bucketCredsPath sd realm b \<notin> set changed' \<longrightarrow> bucket_key sd realm b w' = bucket_key sd realm b w1)"
    using Cons.IH [of w1 ch1] Cons.prems one by auto
  have away: "bucketCredsPath sd realm b \<notin> bucketCredsPath sd realm ` set bs" using apart by fastforce
  have "steps_to gv sd realm (set (b # bs)) w w'" using steps_trans [OF step(1) rest(1)] by simp
  moreover have "(w_log w' = w_log w \<longrightarrow> usable gv sd realm b w') \<and>
      (bucketCredsPath sd realm b \<notin> set changed' \<longrightarrow> bucket_key sd realm b w' = bucket_key sd realm b w)"
    using steps_silent [OF step(1) rest(1)] step(2,4) steps_usable [OF _ rest(1) away] rest(1,2) away
    by (auto simp: steps_to_def)
  moreover have "(w_log w' = w_log w \<longrightarrow> usable gv sd realm b' w') \<and>
      (bucketCredsPath sd realm b' \<notin> set changed' \<longrightarrow> bucket_key sd realm b' w' = bucket_key sd realm b' w)"
    if "b' \<in> set bs" for b'
    using rest(3) [OF that] steps_silent [OF step(1) rest(1)] step(1) apart [OF that] by (auto simp: steps_to_def)
  ultimately show ?case using step(3) rest(2) by auto
qed simp

lemma listings_true:
  assumes "garage_reads hst c gv"
  shows "containerRunning hst c w = (b, w1) \<Longrightarrow> gv (w_host w1) = gv (w_host w)"
    and "ready_buckets hst c realm w = (res, w1) \<Longrightarrow> gv (w_host w1) = gv (w_host w) \<and>
      (\<forall>m. res = Some m \<longrightarrow> map_of m \<subseteq>\<^sub>m gv_buckets (gv (w_host w1)))"
    and "keys_or_none (garageListKeys hst c w) = (keys, w1) \<Longrightarrow>
      gv (w_host w1) = gv (w_host w) \<and> set keys \<subseteq> gv_keys (gv (w_host w1))"
proof -
  show "containerRunning hst c w = (b, w1) \<Longrightarrow> gv (w_host w1) = gv (w_host w)"
    using assms by (auto simp: containerRunning_def docker_def garage_reads_def case_prod_beta)
  have inspect: "gv (w_host (snd (containerHealth hst c v))) = gv (w_host v)" for v
    using assms by (simp add: containerHealth_def docker_def garage_reads_def case_prod_beta)
  have watch: "gv (snd (ah_watch hst c 60 h)) = gv h" for h using assms by (simp add: garage_reads_def)
  have wait: "gv (w_host (snd (waitForHealthy hst c 60 v))) = gv (w_host v)" for v
    by (auto simp: waitForHealthy_def case_prod_beta inspect watch split: option.split)
  have list: "gv (w_host v') = gv (w_host v)" "\<forall>m. r = Inr m \<longrightarrow> map_of m \<subseteq>\<^sub>m gv_buckets (gv (w_host v))"
    if "garageListBuckets hst c v = (r, v')" for v r v'
    using assms that unfolding garage_reads_def by (metis snd_conv, metis fst_conv)
  show "gv (w_host w1) = gv (w_host w) \<and> (\<forall>m. res = Some m \<longrightarrow> map_of m \<subseteq>\<^sub>m gv_buckets (gv (w_host w1)))"
    if "ready_buckets hst c realm w = (res, w1)"
    using that list wait
    by (auto simp: ready_buckets_def split: prod.splits sum.splits option.splits) (metis snd_conv)+
  obtain r v where keys: "garageListKeys hst c w = (r, v)" by (rule prod.exhaust)
  then have "gv (w_host v) = gv (w_host w)" "\<forall>ks. r = Inr ks \<longrightarrow> set ks \<subseteq> gv_keys (gv (w_host w))"
    using assms unfolding garage_reads_def by (metis snd_conv, metis fst_conv)
  then show "keys_or_none (garageListKeys hst c w) = (keys, w1) \<Longrightarrow>
      gv (w_host w1) = gv (w_host w) \<and> set keys \<subseteq> gv_keys (gv (w_host w1))"
    by (auto simp: keys keys_or_none_def split: sum.splits)
qed

lemma listings_quiet:
  assumes "containerRunning hst c w = (b, w1)" "ready_buckets hst c realm w1 = (ex, w2)"
    and "keys_or_none (garageListKeys hst c w2) = (keys, w3)"
  shows "w_disk w3 = w_disk w" "prefix (w_log w) (w_log w3)" "ex = None \<Longrightarrow> w_log w2 \<noteq> w_log w"
proof -
  have up: "w_disk w1 = w_disk w" "w_log w1 = w_log w" using assms(1) health_quiet(3,4) by (metis snd_conv)+
  have listed: "w_disk v' = w_disk v" "w_log v' = w_log v" if "garageListBuckets hst c v = (r, v')" for v r v'
    using that garage_ops_quiet(7,8) by (metis snd_conv)+
  have waited: "w_disk v' = w_disk v" "w_log v' = w_log v" if "waitForHealthy hst c 60 v = (r, v')" for v r v'
    using that wait_quiet by (metis snd_conv)+
  have "w_disk w2 = w_disk w1 \<and> prefix (w_log w1) (w_log w2) \<and> (ex = None \<longrightarrow> w_log w2 \<noteq> w_log w1)"
    using assms(2) by (auto simp: ready_buckets_def listed waited split: prod.splits sum.splits option.splits)
  moreover have "w_disk w3 = w_disk w2" "w_log w3 = w_log w2"
    using assms(3) garage_ops_quiet(9,10) [of hst c w2] by (auto simp: keys_or_none_def split: prod.splits sum.splits)
  ultimately show "w_disk w3 = w_disk w" "prefix (w_log w) (w_log w3)" "ex = None \<Longrightarrow> w_log w2 \<noteq> w_log w"
    using up by simp_all
qed

lemma system_key_steps:
  "garage_writes hst c gv \<Longrightarrow> system_key pf hst c sd realm keys w = (sys, w') \<Longrightarrow> steps_to gv sd realm {systemKeyName} w w'"
  by (auto simp: system_key_def Let_def dest: mint_key_steps(1) split: if_splits prod.splits option.splits)


section \<open>A store that behaves\<close>

text \<open>Keys and buckets as lines of text, a bucket's id being its alias, the grants as the bodies they were
  asked with; the first grants fail as often as the flags say.\<close>

record garage_sim =
  gs_keys :: string
  gs_buckets :: string
  gs_grants :: "string list"
  gs_failing :: "bool list"

definition sim_object :: "string \<Rightarrow> json" where
  "sim_object a = JObj [(''id'', JStr a), (''accessKeyId'', JStr a), (''secretAccessKey'', JStr a), (''globalAliases'', JArr [JStr a])]"

definition sim_json :: "string \<Rightarrow> json option" where
  "sim_json s = (if prefix ''L'' s then Some (JArr (map sim_object (split_on newline (drop 1 s)))) else Some (sim_object s))"

definition sim_fails :: cli_result where "sim_fails = no_output\<lparr>cr_exit := 1, cr_err := ''timeout''\<rparr>"

definition sim_key :: "nat \<Rightarrow> string" where "sim_key n = ''GK'' @ replicate n CHR ''1''"

definition sim_call :: "string \<Rightarrow> string \<Rightarrow> garage_sim \<Rightarrow> cli_result \<times> garage_sim" where
  "sim_call ep body h =
     (if ep = ''ListKeys'' then (no_output\<lparr>cr_out := CHR ''L'' # gs_keys h\<rparr>, h)
      else if ep = ''ListBuckets'' then (no_output\<lparr>cr_out := CHR ''L'' # gs_buckets h\<rparr>, h)
      else if ep = ''CreateKey'' then
        (let ak = sim_key (length (split_on newline (gs_keys h))) in
         (no_output\<lparr>cr_out := ak\<rparr>, h\<lparr>gs_keys := gs_keys h @ [newline] @ ak\<rparr>))
      else if ep = ''CreateBucket'' then
        (let a = butlast (butlast (drop 16 body)) in
         if newline \<in> set a \<or> prefix ''L'' a then (sim_fails, h)
         else (no_output\<lparr>cr_out := a\<rparr>, h\<lparr>gs_buckets := gs_buckets h @ [newline] @ a\<rparr>))
      else if ep = ''AllowBucketKey'' then
        (if gs_failing h \<noteq> [] \<and> hd (gs_failing h) then (sim_fails, h\<lparr>gs_failing := tl (gs_failing h)\<rparr>)
         else (no_output, h\<lparr>gs_grants := body # gs_grants h, gs_failing := tl (gs_failing h)\<rparr>))
      else (sim_fails, h))"

definition sim_host :: "garage_sim apply_host" where
  "sim_host =
     \<lparr>ah_docker = \<lparr>dh_run = (\<lambda>args input h.
          if hd args = ''inspect'' then (no_output\<lparr>cr_out := ''true''\<rparr>, h)
          else case drop 4 args of ep # body \<Rightarrow> sim_call ep (concat body) h | [] \<Rightarrow> (sim_fails, h)),
        dh_syft = (\<lambda>args h. (no_output, h)), dh_temp = (\<lambda>content h. (None, h)), dh_env = (\<lambda>_. []),
        dh_ps_time = (\<lambda>_. None), dh_rfc3339 = (\<lambda>_. None), dh_mem = (\<lambda>_. 0), dh_image_line = (\<lambda>_. None)\<rparr>,
      ah_watch = (\<lambda>c t h. (None, h)), ah_json = sim_json\<rparr>"

definition sim_view :: "garage_sim \<Rightarrow> garage_view" where
  "sim_view h =
     \<lparr>gv_keys = set (split_on newline (gs_keys h)),
      gv_buckets = (\<lambda>b. if b \<in> set (split_on newline (gs_buckets h)) then Some b else None),
      gv_grants = {(i, k). allow_body i k \<in> set (gs_grants h)}\<rparr>"

lemma sim_key_clean:
  "newline \<notin> set (sim_key n)" "no_space (sim_key n)" "sim_key n \<noteq> []" "\<not> prefix ''L'' (sim_key n)"
  by (auto simp: sim_key_def newline_def no_space_def is_space_def)

lemma sim_decodes:
  "dec_key (sim_object a) = Some (a, a)" "dec_id (sim_object a) = Some a" "dec_bucket (sim_object a) = Some (a, [a])"
  by (simp_all add: sim_object_def dec_key_def dec_id_def dec_bucket_def)

lemma collect_Some: "collect (\<lambda>x. Some (f x)) xs = Some (map f xs)"
  by (induction xs) simp_all

lemma collect_comp: "collect g (map f xs) = collect (\<lambda>x. g (f x)) xs"
  by (induction xs) (simp_all split: option.split)

lemma sim_rows:
  "dec_rows dec_id (JArr (map sim_object xs)) = Some xs"
  "dec_rows dec_bucket (JArr (map sim_object xs)) = Some (map (\<lambda>a. (a, [a])) xs)"
  by (simp_all add: dec_rows_def collect_comp sim_decodes collect_Some)

lemma alias_map_sim: "map_of (alias_map (map (\<lambda>a. (a, [a])) xs)) b = (if b \<in> set xs then Some b else None)"
proof -
  have "map_of (fold (\<lambda>(i, as) out. fold (\<lambda>a. AList.update a i) as out) (map (\<lambda>a. (a, [a])) xs) out) b =
      (if b \<in> set xs then Some b else map_of out b)" for out
    by (induction xs arbitrary: out) (auto simp: update_conv')
  then show ?thesis by (simp add: alias_map_def)
qed

lemma no_output_ok [simp]: "cr_started no_output" "cr_exit no_output = 0" "cr_started sim_fails" "cr_exit sim_fails = 1"
  by (simp_all add: no_output_def sim_fails_def)

lemma sim_json_plain [simp]: "\<not> prefix ''L'' s \<Longrightarrow> sim_json s = Some (sim_object s)"
  "sim_json (CHR ''L'' # s) = Some (JArr (map sim_object (split_on newline s)))"
  by (simp_all add: sim_json_def)

lemma sim_exec:
  "dockerExec sim_host c ([''/garage'', ''json-api'', ep] @ body) w =
     (case sim_call ep (concat body) (w_host w) of
        (r, h) \<Rightarrow> ((cr_out r, cr_err r, if cr_started r then cr_exit r else - 1), w\<lparr>w_host := h\<rparr>))"
  by (simp add: dockerExec_def docker_def sim_host_def case_prod_beta)

lemma sim_api:
  "garageJSONAPI sim_host c ep body dec w =
     (case sim_call ep body (w_host w) of
        (r, h) \<Rightarrow>
          (if \<not> cli_ok r then Inl (''garage '' @ ep @ '': '' @ trim_space (cr_err r))
           else case Option.bind (sim_json (cr_out r)) dec of
               None \<Rightarrow> Inl (''garage '' @ ep @ '': unmarshal response'')
             | Some x \<Rightarrow> Inr x, w\<lparr>w_host := h\<rparr>))"
  "garageCall sim_host c ep body w =
     (case sim_call ep body (w_host w) of
        (r, h) \<Rightarrow> (if \<not> cli_ok r then Some (''garage '' @ ep @ '': '' @ trim_space (cr_err r)) else None, w\<lparr>w_host := h\<rparr>))"
proof -
  have json: "ah_json sim_host = sim_json" by (simp add: sim_host_def)
  have "concat (if body = [] then [] else [body]) = body" by simp
  then show "garageJSONAPI sim_host c ep body dec w =
     (case sim_call ep body (w_host w) of
        (r, h) \<Rightarrow>
          (if \<not> cli_ok r then Inl (''garage '' @ ep @ '': '' @ trim_space (cr_err r))
           else case Option.bind (sim_json (cr_out r)) dec of
               None \<Rightarrow> Inl (''garage '' @ ep @ '': unmarshal response'')
             | Some x \<Rightarrow> Inr x, w\<lparr>w_host := h\<rparr>))"
    "garageCall sim_host c ep body w =
     (case sim_call ep body (w_host w) of
        (r, h) \<Rightarrow> (if \<not> cli_ok r then Some (''garage '' @ ep @ '': '' @ trim_space (cr_err r)) else None, w\<lparr>w_host := h\<rparr>))"
    unfolding garageJSONAPI_def garageCall_def sim_exec json by (simp_all add: case_prod_beta cli_ok_def)
qed

lemma sim_reads: "garage_reads sim_host c sim_view"
proof -
  have keys: "garageListKeys sim_host c w = (Inr (split_on newline (gs_keys (w_host w))), w)" for w
    by (simp add: garageListKeys_def sim_api sim_call_def sim_rows cli_ok_def no_output_def)
  have buckets: "garageListBuckets sim_host c w =
      (Inr (alias_map (map (\<lambda>a. (a, [a])) (split_on newline (gs_buckets (w_host w))))), w)" for w
    by (simp add: garageListBuckets_def sim_api sim_call_def sim_rows cli_ok_def no_output_def)
  show ?thesis
    by (auto simp: garage_reads_def keys buckets sim_view_def alias_map_sim map_le_def) (simp_all add: sim_host_def)
qed

lemma sim_writes: "garage_writes sim_host c sim_view"
proof -
  have key: "garageCreateKey sim_host c name w =
      (let ak = sim_key (length (split_on newline (gs_keys (w_host w)))) in
       (Inr (ak, ak), w\<lparr>w_host := (w_host w)\<lparr>gs_keys := gs_keys (w_host w) @ newline # ak\<rparr>\<rparr>))" for name w
    by (simp add: garageCreateKey_def sim_api sim_call_def Let_def cli_ok_def sim_decodes sim_key_clean)
  have err: "trim_space (cr_err sim_fails) = ''timeout''" "\<not> garageIsAlreadyExists ''garage CreateBucket: timeout''"
    by code_simp+
  have named: "butlast (butlast (drop 16 (alias_body a))) = a" for a
    by (simp add: alias_body_def quoted_def butlast_append)
  have bucket: "garageCreateBucket sim_host c a w =
      (if newline \<in> set a \<or> prefix ''L'' a then (Inl ''garage CreateBucket: timeout'', w)
       else (Inr a, w\<lparr>w_host := (w_host w)\<lparr>gs_buckets := gs_buckets (w_host w) @ newline # a\<rparr>\<rparr>))" for a w
    by (simp add: garageCreateBucket_def sim_api sim_call_def named cli_ok_def sim_decodes err)
  have grant: "garageAllowBucketKey sim_host c i k w =
      (if gs_failing (w_host w) \<noteq> [] \<and> hd (gs_failing (w_host w))
       then (Some ''garage AllowBucketKey: timeout'', w\<lparr>w_host := (w_host w)\<lparr>gs_failing := tl (gs_failing (w_host w))\<rparr>\<rparr>)
       else (None, w\<lparr>w_host := (w_host w)\<lparr>gs_grants := allow_body i k # gs_grants (w_host w),
               gs_failing := tl (gs_failing (w_host w))\<rparr>\<rparr>))" for i k w
    by (simp add: garageAllowBucketKey_def sim_api sim_call_def cli_ok_def err)
  show ?thesis
    by (auto simp: garage_writes_def key bucket grant Let_def sim_view_def garage_le_def map_le_def split_on_append split_on_no_sep sim_key_clean)
qed

text \<open>A realm \<open>dev\<close> with one wanted bucket, over an empty store whose first grants fail as told.\<close>

definition sim_world :: "bool list \<Rightarrow> garage_sim world" where
  "sim_world failing =
     \<lparr>w_disk = blank_disk\<lparr>dk_file := [''/s/garage-dev'' \<mapsto> ''A=1'']\<rparr>,
      w_host = \<lparr>gs_keys = [], gs_buckets = [], gs_grants = [], gs_failing = failing\<rparr>, w_log = []\<rparr>"

definition sim_ctx :: workspace_context where
  "sim_ctx = zero_ctx\<lparr>wc_name := ''ws'', wc_secrets_dir := ''/s''\<rparr>"

definition sim_apply :: "garage_sim world \<Rightarrow> string list \<times> garage_sim world" where
  "sim_apply = reconcileGarageBuckets sample_creds_platform sim_host sim_ctx ''dev'' [''bp-shop'']"


section \<open>Where the repair stops\<close>

text \<open>A grant that fails once is never tried again. The bucket and its key exist after the failed run, so
  the next run takes the bucket for provisioned, reports nothing, and leaves it without the grant.\<close>

lemma failed_grant_is_never_repaired:
  "map fst (w_log (snd (sim_apply (sim_world [True])))) = [''provision'']"
  "w_log (snd (sim_apply (snd (sim_apply (sim_world [True]))))) = w_log (snd (sim_apply (sim_world [True])))"
  "bucket_key ''/s'' ''dev'' ''bp-shop'' (snd (sim_apply (snd (sim_apply (sim_world [True]))))) = ''GK11''"
  "gs_grants (w_host (snd (sim_apply (snd (sim_apply (sim_world [True])))))) = [allow_body ''bp-shop'' ''GK1'']"
  by code_simp+

end
