(* ===== verification/Driver_Postgres.thy ===== *)
theory Driver_Postgres
  imports Driver_Garage
begin

text \<open>
  The databases of the business processes (the Postgres half of \<open>provision.go\<close>): every control operation
  is a \<open>psql\<close> command inside the server's container. \<open>ensureLivePostgresDBs\<close> is the guard of an apply,
  which fails when a database is missing and cannot be made; \<open>reconcilePostgresDBs\<close> makes the others as
  far as it can. Names that Go quotes (\<open>%q\<close>) hold no characters to escape.
\<close>

definition bpPostgresConnLimit :: int where "bpPostgresConnLimit = 10"
definition bpPostgresROConnLimit :: int where "bpPostgresROConnLimit = 3"

definition psql :: "string \<Rightarrow> string \<Rightarrow> string list \<Rightarrow> string \<Rightarrow> string list" where
  "psql user db flags sql = [''psql'', ''-U'', user, ''-d'', db] @ flags @ [''-c'', sql]"

definition text_quote :: "string \<Rightarrow> string" where "text_quote s = CHR 0x27 # s @ [CHR 0x27]"

section \<open>Databases\<close>

definition exists_sql :: "string \<Rightarrow> string" where
  "exists_sql dbName = ''SELECT 1 FROM pg_database WHERE datname = '' @ text_quote dbName @ '';''"

definition postgresDBExists ::
    "'h apply_host \<Rightarrow> string \<Rightarrow> string \<Rightarrow> string \<Rightarrow> 'h world \<Rightarrow> (string + bool) \<times> 'h world" where
  "postgresDBExists hst container user dbName w =
     (case dockerExec hst container (psql user ''postgres'' [''-t'', ''-A''] (exists_sql dbName)) w of
        ((out, err, rc), w1) \<Rightarrow>
          (if rc \<noteq> 0 then Inl (''psql existence check failed: '' @ trim_space err) else Inr (trim_space out = ''1''), w1))"

definition create_sql :: "string \<Rightarrow> string" where "create_sql dbName = ''CREATE DATABASE '' @ quoted dbName @ '';''"

definition clone_sql :: "string \<Rightarrow> string \<Rightarrow> string" where
  "clone_sql target source = ''CREATE DATABASE '' @ quoted target @ '' WITH TEMPLATE '' @ quoted source @ '';''"

definition terminate_sql :: "string \<Rightarrow> string" where
  "terminate_sql source =
     ''SELECT pg_terminate_backend(pid) FROM pg_stat_activity WHERE datname = '' @ text_quote source @
     '' AND pid <> pg_backend_pid();''"

definition create_failed :: "string \<Rightarrow> string \<Rightarrow> int \<Rightarrow> string option" where
  "create_failed what err rc =
     (if rc \<noteq> 0 \<and> \<not> str_contains err ''already exists'' then Some (what @ '' failed: '' @ trim_space err) else None)"

definition createPostgresDB ::
    "'h apply_host \<Rightarrow> string \<Rightarrow> string \<Rightarrow> string \<Rightarrow> 'h world \<Rightarrow> string option \<times> 'h world" where
  "createPostgresDB hst container user dbName w =
     (case postgresDBExists hst container user dbName w of
        (Inl e, w1) \<Rightarrow> (Some e, w1)
      | (Inr True, w1) \<Rightarrow> (None, w1)
      | (Inr False, w1) \<Rightarrow>
          (case dockerExec hst container (psql user ''postgres'' [] (create_sql dbName)) w1 of
             ((out, err, rc), w2) \<Rightarrow> (create_failed (''CREATE DATABASE '' @ dbName) err rc, w2)))"

definition clonePostgresDBAs ::
    "'h apply_host \<Rightarrow> string \<Rightarrow> string \<Rightarrow> string \<Rightarrow> string \<Rightarrow> 'h world \<Rightarrow> string option \<times> 'h world" where
  "clonePostgresDBAs hst container user targetDB sourceDB w =
     (case postgresDBExists hst container user targetDB w of
        (Inl e, w1) \<Rightarrow> (Some e, w1)
      | (Inr True, w1) \<Rightarrow> (None, w1)
      | (Inr False, w1) \<Rightarrow>
          (case dockerExec hst container (psql user ''postgres'' [] (terminate_sql sourceDB)) w1 of
             (_, w2) \<Rightarrow>
               (case dockerExec hst container (psql user ''postgres'' [] (clone_sql targetDB sourceDB)) w2 of
                  ((out, err, rc), w3) \<Rightarrow>
                    (create_failed (''clone CREATE DATABASE '' @ targetDB @ '' (template '' @ sourceDB @ '')'') err rc, w3))))"

definition list_sql :: string where "list_sql = ''SELECT datname FROM pg_database''"

definition listPostgresDBs :: "'h apply_host \<Rightarrow> string \<Rightarrow> string \<Rightarrow> 'h world \<Rightarrow> (string + string list) \<times> 'h world" where
  "listPostgresDBs hst container user w =
     (case dockerExec hst container (psql user ''postgres'' [''-t'', ''-A''] list_sql) w of
        ((out, err, rc), w1) \<Rightarrow>
          (if rc \<noteq> 0 then Inl (trim_space err)
           else Inr (filter (\<lambda>n. n \<noteq> []) (map trim_space (split_on newline out))), w1))"

definition waitForPostgres :: "'h apply_host \<Rightarrow> string \<Rightarrow> 'h world \<Rightarrow> string option \<times> 'h world" where
  "waitForPostgres hst container = waitForHealthy hst container 60"

section \<open>The roles of a database\<close>

definition role_sql :: "string \<Rightarrow> string \<Rightarrow> string" where
  "role_sql role pass =
     ''DO $$ BEGIN IF NOT EXISTS (SELECT FROM pg_roles WHERE rolname = '' @ text_quote role @
     '') THEN CREATE ROLE '' @ quoted role @ '' LOGIN CONNECTION LIMIT '' @ format_int bpPostgresConnLimit @
     '' PASSWORD '' @ text_quote pass @ ''; ELSE ALTER ROLE '' @ quoted role @ '' WITH LOGIN CONNECTION LIMIT '' @
     format_int bpPostgresConnLimit @ '' PASSWORD '' @ text_quote pass @ ''; END IF; END $$;''"

definition grants_sql :: "string \<Rightarrow> string" where
  "grants_sql role =
     join_with CHR '' ''
       [''GRANT ALL ON SCHEMA public TO '' @ quoted role @ '';'',
        ''GRANT ALL ON ALL TABLES IN SCHEMA public TO '' @ quoted role @ '';'',
        ''GRANT ALL ON ALL SEQUENCES IN SCHEMA public TO '' @ quoted role @ '';'',
        ''ALTER DEFAULT PRIVILEGES IN SCHEMA public GRANT ALL ON TABLES TO '' @ quoted role @ '';'',
        ''ALTER DEFAULT PRIVILEGES IN SCHEMA public GRANT ALL ON SEQUENCES TO '' @ quoted role @ '';'']"

definition own_loop :: "string \<Rightarrow> string \<Rightarrow> string \<Rightarrow> string" where
  "own_loop query alter role =
     ''FOR r IN '' @ query @ '' LOOP EXECUTE format('' @
     text_quote (alter @ '' OWNER TO '' @ quoted role)"

definition reassign_sql :: "string \<Rightarrow> string" where
  "reassign_sql role =
     ''DO $$ DECLARE r record; BEGIN '' @
     own_loop (''SELECT tablename FROM pg_tables WHERE schemaname='' @ text_quote ''public'') ''ALTER TABLE public.%I'' role @
     '', r.tablename); END LOOP; '' @
     own_loop (''SELECT sequencename FROM pg_sequences WHERE schemaname='' @ text_quote ''public'') ''ALTER SEQUENCE public.%I'' role @
     '', r.sequencename); END LOOP; '' @
     own_loop (''SELECT table_name FROM information_schema.views WHERE table_schema='' @ text_quote ''public'') ''ALTER VIEW public.%I'' role @
     '', r.table_name); END LOOP; '' @
     ''END $$;''"

definition lock_sql :: "string \<Rightarrow> string \<Rightarrow> string" where
  "lock_sql dbName role =
     ''REVOKE CONNECT ON DATABASE '' @ quoted dbName @ '' FROM PUBLIC; GRANT CONNECT ON DATABASE '' @ quoted dbName @
     '' TO '' @ quoted role @ '';''"

definition ro_sql :: "string \<Rightarrow> string \<Rightarrow> string" where
  "ro_sql ro dbName =
     ''DO $$ BEGIN IF NOT EXISTS (SELECT FROM pg_roles WHERE rolname = '' @ text_quote ro @
     '') THEN CREATE ROLE '' @ quoted ro @ '' LOGIN CONNECTION LIMIT '' @ format_int bpPostgresROConnLimit @
     ''; ELSE ALTER ROLE '' @ quoted ro @ '' WITH LOGIN CONNECTION LIMIT '' @ format_int bpPostgresROConnLimit @
     '' PASSWORD NULL; END IF; END $$; GRANT CONNECT ON DATABASE '' @ quoted dbName @ '' TO '' @ quoted ro @ '';''"

definition ro_grants_sql :: "string \<Rightarrow> string \<Rightarrow> string" where
  "ro_grants_sql role ro =
     join_with CHR '' ''
       [''GRANT USAGE ON SCHEMA public TO '' @ quoted ro @ '';'',
        ''GRANT SELECT ON ALL TABLES IN SCHEMA public TO '' @ quoted ro @ '';'',
        ''ALTER DEFAULT PRIVILEGES FOR ROLE '' @ quoted role @ '' IN SCHEMA public GRANT SELECT ON TABLES TO '' @ quoted ro @ '';'']"

text \<open>The commands of a role in their order, each with the database it runs in and the text of its
  failure; the first that fails ends the sequence.\<close>

definition role_commands :: "string \<Rightarrow> string \<Rightarrow> string \<Rightarrow> (string \<times> string \<times> string) list" where
  "role_commands dbName role pass =
     (let ro = scopedROPGRole dbName in
      [(''postgres'', role_sql role pass, ''ensure role '' @ role),
       (dbName, grants_sql role, ''grant on '' @ dbName @ '' to '' @ role),
       (dbName, reassign_sql role, ''reassign ownership in '' @ dbName @ '' to '' @ role),
       (''postgres'', lock_sql dbName role, ''lock connect on '' @ dbName),
       (''postgres'', ro_sql ro dbName, ''ensure ro role '' @ ro),
       (dbName, ro_grants_sql role ro, ''grant read-only on '' @ dbName @ '' to '' @ ro)])"

fun run_commands ::
    "'h apply_host \<Rightarrow> string \<Rightarrow> string \<Rightarrow> (string \<times> string \<times> string) list \<Rightarrow> 'h world \<Rightarrow> string option \<times> 'h world" where
  "run_commands hst container user [] w = (None, w)"
| "run_commands hst container user ((db, sql, what) # cs) w =
     (case dockerExec hst container (psql user db [] sql) w of
        ((out, err, rc), w1) \<Rightarrow>
          if rc \<noteq> 0 then (Some (what @ '': '' @ trim_space err), w1) else run_commands hst container user cs w1)"

definition ensureBPRole ::
    "platform \<Rightarrow> 'h apply_host \<Rightarrow> string \<Rightarrow> string \<Rightarrow> string \<Rightarrow> string \<Rightarrow> string \<Rightarrow> 'h world \<Rightarrow> string option \<times> 'h world" where
  "ensureBPRole pf hst container adminUser secretsDir realm dbName w =
     (case getOrCreateDBCreds pf secretsDir realm dbName (w_disk w) of
        (None, d) \<Rightarrow> (Some ''database credentials'', w\<lparr>w_disk := d\<rparr>)
      | (Some (role, pass), d) \<Rightarrow>
          run_commands hst container adminUser (role_commands dbName role pass) (w\<lparr>w_disk := d\<rparr>))"

section \<open>Which databases there should be\<close>

definition productionDBNumbers :: "bitswan \<Rightarrow> string \<Rightarrow> int list" where
  "productionDBNumbers bs bpSlug =
     (let rec = (case map_of (bs_backups bs) bpSlug of Some r \<Rightarrow> r | None \<Rightarrow> None);
          nums = sort (remdups (List.map_filter (\<lambda>(s, sr). Option.bind sr id) (slotsFor rec)))
      in if nums = [] then [1] else nums)"

record container_info =
  ci_id :: string
  ci_state :: string
  ci_labels :: "(string \<times> string) list"

text \<open>\<open>None\<close>: the change cannot be told, so every deployment counts as fresh.\<close>

definition freshDeploymentIDs :: "string list \<Rightarrow> container_info list \<Rightarrow> string list option" where
  "freshDeploymentIDs preExistingIDs infos =
     (if preExistingIDs = [] then None
      else Some (filter (\<lambda>dep. dep \<noteq> [])
             (map (\<lambda>ci. env_get (ci_labels ci) ''gitops.deployment_id'') (filter (\<lambda>ci. ci_id ci \<notin> set preExistingIDs) infos))))"

definition known_realm :: "string \<Rightarrow> bool" where
  "known_realm realm \<longleftrightarrow> realm = ''dev'' \<or> realm = ''staging'' \<or> realm = ''production''"

text \<open>The wanted names of one deployment, added to the sets of their realms.\<close>

record wanted =
  wt_seen :: "string list"
  wt_pg :: "(string \<times> string list) list"
  wt_s3 :: "(string \<times> string list) list"

definition want :: "string \<Rightarrow> string \<Rightarrow> (string \<times> string list) list \<Rightarrow> (string \<times> string list) list" where
  "want realm name m =
     (let old = (case map_of m realm of None \<Rightarrow> [] | Some ns \<Rightarrow> ns) in AList.update realm (List.insert name old) m)"

definition want_names :: "string \<Rightarrow> string \<Rightarrow> int \<Rightarrow> wanted \<Rightarrow> wanted" where
  "want_names realm bpSlug db wt =
     (let names = bpResourceNames bpSlug db in
      wt\<lparr>wt_pg := want realm (rn_postgres_db names) (wt_pg wt), wt_s3 := want realm (rn_s3_bucket names) (wt_s3 wt)\<rparr>)"

definition wanted_by :: "(string \<times> string list) list \<Rightarrow> bitswan \<Rightarrow> deployment option \<Rightarrow> wanted \<Rightarrow> wanted" where
  "wanted_by reg bs conf wt =
     (case conf of
        None \<Rightarrow> wt
      | Some cf \<Rightarrow>
          (let (bpSlug, copyName) = deriveBPAndCopy (de_relative_path cf);
               stage = StageOrProduction cf;
               realm = realmForStage stage;
               bucket = rn_s3_bucket (copyBPResourceNames copyName bpSlug)
           in if bpSlug = [] \<or> \<not> known_realm realm then wt
              else if stage = ''live-dev'' \<and> copyName \<noteq> [] then
                (if ''copybucket:'' @ bucket \<in> set (wt_seen wt) then wt
                 else wt\<lparr>wt_seen := (''copybucket:'' @ bucket) # wt_seen wt, wt_s3 := want realm bucket (wt_s3 wt)\<rparr>)
              else if copyName \<noteq> [] then wt
              else if bpSlug @ '':'' @ realm \<in> set (wt_seen wt) \<or> \<not> isRegistered reg bpSlug realm then wt
              else fold (want_names realm bpSlug)
                     (if realm = ''production'' then productionDBNumbers bs bpSlug else [0])
                     (wt\<lparr>wt_seen := (bpSlug @ '':'' @ realm) # wt_seen wt\<rparr>)))"

definition wantedBPResources ::
    "platform \<Rightarrow> disk \<Rightarrow> workspace_context \<Rightarrow> bitswan \<Rightarrow> (string \<times> string list) list \<times> (string \<times> string list) list" where
  "wantedBPResources pf d wctx bs =
     (let wt = fold (\<lambda>depID. wanted_by (loadRegistry pf d (wc_secrets_dir wctx)) bs (dep_at (bs_deployments bs) depID))
            (sortedDepIDs (bs_deployments bs)) \<lparr>wt_seen = [], wt_pg = [], wt_s3 = []\<rparr>
      in (wt_pg wt, wt_s3 wt))"

text \<open>The keys of the wanted buckets, realm by realm in the order of a Go map, which the list stands for.\<close>

definition ensureGarageKeysPrecompile ::
    "platform \<Rightarrow> 'h apply_host \<Rightarrow> workspace_context \<Rightarrow> bitswan \<Rightarrow> 'h world \<Rightarrow> 'h world" where
  "ensureGarageKeysPrecompile pf hst wctx bs w =
     fold (precompile_realm pf hst wctx) (snd (wantedBPResources pf (w_disk w) wctx bs)) w"

section \<open>The guard of an apply\<close>

text \<open>What the loop carries: the names it has dealt with, and per realm the databases that were listed.\<close>

record live_state =
  lv_seen :: "string list"
  lv_listed :: "(string \<times> string list) list"

definition databaseAlreadyExists ::
    "'h apply_host \<Rightarrow> string \<Rightarrow> string \<Rightarrow> string \<Rightarrow> string \<Rightarrow> live_state \<Rightarrow> 'h world \<Rightarrow> bool \<times> live_state \<times> 'h world" where
  "databaseAlreadyExists hst realm container user dbName ls w =
     (case map_of (lv_listed ls) realm of
        Some dbs \<Rightarrow> (dbName \<in> set dbs, ls, w)
      | None \<Rightarrow>
          (case listPostgresDBs hst container user w of
             (r, w1) \<Rightarrow>
               (let dbs = (case r of Inr ns \<Rightarrow> ns | Inl e \<Rightarrow> [])
                in (dbName \<in> set dbs, ls\<lparr>lv_listed := (realm, dbs) # lv_listed ls\<rparr>, w1))))"

text \<open>The user of the realm's server, when the service is enabled.\<close>

definition server_user :: "disk \<Rightarrow> string \<Rightarrow> string \<Rightarrow> (string \<times> string) list option" where
  "server_user d secretsDir realm =
     (case serviceSecrets d secretsDir ''postgres'' realm of
        None \<Rightarrow> None
      | Some secrets \<Rightarrow> if env_get secrets ''POSTGRES_USER'' = [] then None else Some secrets)"

text \<open>Make one database ready: wait for the server, run the step that makes it, scope its role.\<close>

definition make_ready ::
    "platform \<Rightarrow> 'h apply_host \<Rightarrow> string \<Rightarrow> string \<Rightarrow> string \<Rightarrow> string \<Rightarrow> string \<Rightarrow> ('h world \<Rightarrow> string option \<times> 'h world) \<Rightarrow>
       'h world \<Rightarrow> string option \<times> 'h world" where
  "make_ready pf hst container user secretsDir realm dbName create w =
     (case waitForPostgres hst container w of
        (Some e, w1) \<Rightarrow> (Some e, w1)
      | (None, w1) \<Rightarrow>
          (case create w1 of
             (Some e, w2) \<Rightarrow> (Some e, w2)
           | (None, w2) \<Rightarrow> ensureBPRole pf hst container user secretsDir realm dbName w2))"

definition clone_source ::
    "'h apply_host \<Rightarrow> string \<Rightarrow> (string \<times> string) list \<Rightarrow> string \<Rightarrow> 'h world \<Rightarrow> string \<times> 'h world" where
  "clone_source hst container secrets bpSlug w =
     (let dflt = (if env_get secrets ''POSTGRES_DB'' = [] then ''postgres'' else env_get secrets ''POSTGRES_DB'');
          dev = rn_postgres_db (bpResourceNames bpSlug 0)
      in case postgresDBExists hst container (env_get secrets ''POSTGRES_USER'') dev w of
           (r, w1) \<Rightarrow> (if r = Inr True then dev else dflt, w1))"

definition clone_live ::
    "'h apply_host \<Rightarrow> string \<Rightarrow> (string \<times> string) list \<Rightarrow> string \<Rightarrow> string \<Rightarrow> 'h world \<Rightarrow> string option \<times> 'h world" where
  "clone_live hst container secrets bpSlug target w =
     (case clone_source hst container secrets bpSlug w of
        (source, w1) \<Rightarrow>
          clonePostgresDBAs hst container (env_get secrets ''POSTGRES_USER'') target source
            (report ''provision'' (''Cloning live-dev database '' @ target @ '' from '' @ source) w1))"

text \<open>One database of one deployment. The name is marked before the checks that may skip it.\<close>

definition live_database ::
    "platform \<Rightarrow> 'h apply_host \<Rightarrow> workspace_context \<Rightarrow> string \<Rightarrow> (string \<times> string) list \<Rightarrow> bool \<Rightarrow> string \<Rightarrow>
       live_state \<Rightarrow> 'h world \<Rightarrow> (string option \<times> live_state) \<times> 'h world" where
  "live_database pf hst wctx realm secrets unchanged dbName ls w =
     (let container = serviceContainerName (wc_name wctx) ''postgres'' realm;
          user = env_get secrets ''POSTGRES_USER'';
          ls0 = ls\<lparr>lv_seen := (''bp:'' @ dbName) # lv_seen ls\<rparr>;
          (there, ls1, w1) =
            (if unchanged then databaseAlreadyExists hst realm container user dbName ls0 w else (False, ls0, w))
      in if ''bp:'' @ dbName \<in> set (lv_seen ls) then ((None, ls), w)
         else if there then ((None, ls1), w1)
         else case make_ready pf hst container user (wc_secrets_dir wctx) realm dbName
                (createPostgresDB hst container user dbName)
                (report ''provision'' (''Ensuring Postgres database '' @ dbName) w1) of
             (r, w2) \<Rightarrow> ((r, ls1), w2))"

fun live_databases ::
    "platform \<Rightarrow> 'h apply_host \<Rightarrow> workspace_context \<Rightarrow> string \<Rightarrow> (string \<times> string) list \<Rightarrow> bool \<Rightarrow> string list \<Rightarrow>
       live_state \<Rightarrow> 'h world \<Rightarrow> (string option \<times> live_state) \<times> 'h world" where
  "live_databases pf hst wctx realm secrets unchanged [] ls w = ((None, ls), w)"
| "live_databases pf hst wctx realm secrets unchanged (db # dbs) ls w =
     (case live_database pf hst wctx realm secrets unchanged db ls w of
        ((Some e, ls1), w1) \<Rightarrow> ((Some e, ls1), w1)
      | ((None, ls1), w1) \<Rightarrow> live_databases pf hst wctx realm secrets unchanged dbs ls1 w1)"

definition live_copy ::
    "platform \<Rightarrow> 'h apply_host \<Rightarrow> workspace_context \<Rightarrow> string \<Rightarrow> bool \<Rightarrow> string \<Rightarrow> string \<Rightarrow>
       live_state \<Rightarrow> 'h world \<Rightarrow> (string option \<times> live_state) \<times> 'h world" where
  "live_copy pf hst wctx realm unchanged bpSlug target ls w =
     (if ''copybp:'' @ target \<in> set (lv_seen ls) then ((None, ls), w)
      else
        (let ls0 = ls\<lparr>lv_seen := (''copybp:'' @ target) # lv_seen ls\<rparr> in
         case server_user (w_disk w) (wc_secrets_dir wctx) realm of
           None \<Rightarrow> ((None, ls0), w)
         | Some secrets \<Rightarrow>
             (let container = serviceContainerName (wc_name wctx) ''postgres'' realm;
                  user = env_get secrets ''POSTGRES_USER'';
                  (there, ls1, w1) =
                    (if unchanged then databaseAlreadyExists hst realm container user target ls0 w else (False, ls0, w))
              in if there then ((None, ls1), w1)
                 else case make_ready pf hst container user (wc_secrets_dir wctx) realm target
                        (clone_live hst container secrets bpSlug target) w1 of
                     (r, w2) \<Rightarrow> ((r, ls1), w2))))"

definition live_deployment ::
    "platform \<Rightarrow> 'h apply_host \<Rightarrow> workspace_context \<Rightarrow> bitswan \<Rightarrow> (string \<times> string list) list \<Rightarrow> bool \<Rightarrow> deployment option \<Rightarrow>
       live_state \<Rightarrow> 'h world \<Rightarrow> (string option \<times> live_state) \<times> 'h world" where
  "live_deployment pf hst wctx bs reg unchanged conf ls w =
     (case conf of
        None \<Rightarrow> ((None, ls), w)
      | Some cf \<Rightarrow>
          (let (bpSlug, copyName) = deriveBPAndCopy (de_relative_path cf);
               stage = StageOrProduction cf;
               realm = realmForStage stage
           in if \<not> known_realm realm then ((None, ls), w)
              else if stage = ''live-dev'' \<and> copyName \<noteq> [] \<and> bpSlug \<noteq> [] then
                live_copy pf hst wctx realm unchanged bpSlug (rn_postgres_db (copyBPResourceNames copyName bpSlug)) ls w
              else if bpSlug = [] \<or> \<not> isRegistered reg bpSlug realm then ((None, ls), w)
              else case server_user (w_disk w) (wc_secrets_dir wctx) realm of
                  None \<Rightarrow> ((None, ls), w)
                | Some secrets \<Rightarrow>
                    live_databases pf hst wctx realm secrets unchanged
                      (map (\<lambda>db. rn_postgres_db (bpResourceNames bpSlug db))
                         (if realm = ''production'' then productionDBNumbers bs bpSlug else [0])) ls w))"

fun live_deployments ::
    "platform \<Rightarrow> 'h apply_host \<Rightarrow> workspace_context \<Rightarrow> bitswan \<Rightarrow> (string \<times> string list) list \<Rightarrow> string list option \<Rightarrow>
       string list \<Rightarrow> live_state \<Rightarrow> 'h world \<Rightarrow> string option \<times> 'h world" where
  "live_deployments pf hst wctx bs reg fresh [] ls w = (None, w)"
| "live_deployments pf hst wctx bs reg fresh (depID # ids) ls w =
     (case live_deployment pf hst wctx bs reg (fresh \<noteq> None \<and> depID \<notin> set (the fresh)) (dep_at (bs_deployments bs) depID) ls w of
        ((Some e, ls1), w1) \<Rightarrow> (Some e, w1)
      | ((None, ls1), w1) \<Rightarrow> live_deployments pf hst wctx bs reg fresh ids ls1 w1)"

definition ensureLivePostgresDBs ::
    "platform \<Rightarrow> 'h apply_host \<Rightarrow> workspace_context \<Rightarrow> bitswan \<Rightarrow> string list \<Rightarrow> container_info list \<Rightarrow>
       'h world \<Rightarrow> string option \<times> 'h world" where
  "ensureLivePostgresDBs pf hst wctx bs preExistingIDs infos w =
     live_deployments pf hst wctx bs (loadRegistry pf (w_disk w) (wc_secrets_dir wctx))
       (freshDeploymentIDs preExistingIDs infos) (sortedDepIDs (bs_deployments bs)) \<lparr>lv_seen = [], lv_listed = []\<rparr> w"

section \<open>The other databases\<close>

definition create_wanted ::
    "platform \<Rightarrow> 'h apply_host \<Rightarrow> string \<Rightarrow> string \<Rightarrow> string \<Rightarrow> string \<Rightarrow> string list \<Rightarrow> string \<Rightarrow> 'h world \<Rightarrow> 'h world" where
  "create_wanted pf hst container user secretsDir realm existing db w =
     (if db \<in> set existing then w
      else case dockerExec hst container (psql user ''postgres'' [] (create_sql db)) w of
          ((out, err, rc), w1) \<Rightarrow>
            if create_failed [] err rc \<noteq> None
            then report ''provision'' (''create database '' @ db @ '' deferred: '' @ trim_space err) w1
            else case ensureBPRole pf hst container user secretsDir realm db w1 of
                (None, w2) \<Rightarrow> w2
              | (Some e, w2) \<Rightarrow> report ''provision'' (''scope role for '' @ db @ '' deferred: '' @ e) w2)"

text \<open>The wanted databases in the order of a Go map, which the list stands for.\<close>

definition reconcilePostgresDBs ::
    "platform \<Rightarrow> 'h apply_host \<Rightarrow> workspace_context \<Rightarrow> string \<Rightarrow> string list \<Rightarrow> 'h world \<Rightarrow> 'h world" where
  "reconcilePostgresDBs pf hst wctx realm dbs w =
     (case serviceSecrets (w_disk w) (wc_secrets_dir wctx) ''postgres'' realm of
        None \<Rightarrow> w
      | Some secrets \<Rightarrow>
          (let container = serviceContainerName (wc_name wctx) ''postgres'' realm;
               user = (if env_get secrets ''POSTGRES_USER'' = [] then ''admin'' else env_get secrets ''POSTGRES_USER'')
           in case containerRunning hst container w of
                (running, w1) \<Rightarrow>
                  if \<not> running then w1
                  else case listPostgresDBs hst container user w1 of
                      (Inr existing, w2) \<Rightarrow>
                        fold (create_wanted pf hst container user (wc_secrets_dir wctx) realm existing) dbs w2
                    | (Inl e, w2) \<Rightarrow>
                        (case waitForHealthy hst container 60 w2 of
                           (Some werr, w3) \<Rightarrow> report ''provision'' (''postgres '' @ realm @ '' not ready: '' @ werr) w3
                         | (None, w3) \<Rightarrow>
                             (case listPostgresDBs hst container user w3 of
                                (Inl e', w4) \<Rightarrow> report ''provision'' (''postgres '' @ realm @ '' list databases deferred: '' @ e') w4
                              | (Inr existing, w4) \<Rightarrow>
                                  fold (create_wanted pf hst container user (wc_secrets_dir wctx) realm existing) dbs w4))))"

text \<open>The units run as goroutines, each on its own realm and service: here one after another, the
  databases first. The result names the credentials files that were minted.\<close>

definition provisionForDeployments ::
    "platform \<Rightarrow> 'h apply_host \<Rightarrow> workspace_context \<Rightarrow> bitswan \<Rightarrow> 'h world \<Rightarrow> string list \<times> 'h world" where
  "provisionForDeployments pf hst wctx bs w =
     (let (pgWant, s3Want) = wantedBPResources pf (w_disk w) wctx bs;
          w1 = fold (\<lambda>(realm, dbs). reconcilePostgresDBs pf hst wctx realm dbs) pgWant w
      in fold (\<lambda>(realm, buckets) (changed, v).
             case reconcileGarageBuckets pf hst wctx realm buckets v of (c, v') \<Rightarrow> (changed @ c, v')) s3Want ([], w1))"

end
