(* ===== verification/Driver_Databases.thy ===== *)
theory Driver_Databases
  imports Driver_Postgres
begin

text \<open>
  What the guard of an apply promises. A Postgres server is known by a view of its state (its databases,
  the passwords of its roles, who may connect to what) and by what the statements the driver sends do to
  it; when the guard returns without an error, the database of every deployment is there, and its backend
  can log in with the credentials it was compiled with.
\<close>

section \<open>Postgres as its client knows it\<close>

record pg_view =
  pv_dbs :: "(string \<times> string) set"                          \<comment> \<open>container and database\<close>
  pv_pass :: "string \<times> string \<Rightarrow> string option"          \<comment> \<open>container and role\<close>
  pv_connect :: "(string \<times> string \<times> string) set"     \<comment> \<open>container, database and role\<close>

text \<open>A name or password that needs no escape in a statement.\<close>

definition plain :: "string \<Rightarrow> bool" where
  "plain s \<longleftrightarrow> (\<forall>c\<in>set s. c \<noteq> CHR 0x27 \<and> c \<noteq> CHR 0x22)"

definition driver_sql :: "string \<Rightarrow> bool" where
  "driver_sql sql \<longleftrightarrow>
     sql = list_sql \<or>
     (\<exists>n s. sql \<in> {exists_sql n, create_sql n, clone_sql n s, terminate_sql n, grants_sql n, reassign_sql n, lock_sql n s,
        role_sql n s, ro_sql n s, ro_grants_sql n s})"

text \<open>The statements that change a role name it first.\<close>

definition names_role :: "string \<Rightarrow> string \<Rightarrow> bool" where
  "names_role sql r \<longleftrightarrow> prefix (''DO $$ BEGIN IF NOT EXISTS (SELECT FROM pg_roles WHERE rolname = '' @ text_quote r) sql"

text \<open>
  One statement: it drops nothing, changes no password but that of the role it names, and a success means
  what it says.
\<close>

definition pg_statement :: "string \<Rightarrow> string \<Rightarrow> string \<times> string \<times> int \<Rightarrow> pg_view \<Rightarrow> pg_view \<Rightarrow> bool" where
  "pg_statement c sql res v v' \<longleftrightarrow>
     (case res of (out, err, rc) \<Rightarrow>
        pv_dbs v \<subseteq> pv_dbs v' \<and> pv_connect v \<subseteq> pv_connect v' \<and>
        (\<forall>c' r. plain r \<longrightarrow> c' \<noteq> c \<or> \<not> names_role sql r \<longrightarrow> pv_pass v' (c', r) = pv_pass v (c', r)) \<and>
        (\<forall>n s. plain n \<longrightarrow> sql = create_sql n \<or> sql = clone_sql n s \<longrightarrow> create_failed [] err rc = None \<longrightarrow> (c, n) \<in> pv_dbs v') \<and>
        (\<forall>n. plain n \<longrightarrow> sql = exists_sql n \<longrightarrow> rc = 0 \<longrightarrow> trim_space out = ''1'' \<longrightarrow> (c, n) \<in> pv_dbs v') \<and>
        (sql = list_sql \<longrightarrow> rc = 0 \<longrightarrow> (\<forall>l\<in>set (split_on newline out). (c, trim_space l) \<in> pv_dbs v' \<or> trim_space l = [])) \<and>
        (\<forall>r p. plain r \<longrightarrow> plain p \<longrightarrow> sql = role_sql r p \<longrightarrow> rc = 0 \<longrightarrow> pv_pass v' (c, r) = Some p) \<and>
        (\<forall>n r. plain n \<longrightarrow> plain r \<longrightarrow> sql = lock_sql n r \<longrightarrow> rc = 0 \<longrightarrow> (c, n, r) \<in> pv_connect v'))"

definition pg_behaves :: "'h apply_host \<Rightarrow> ('h \<Rightarrow> pg_view) \<Rightarrow> bool" where
  "pg_behaves hst gv \<longleftrightarrow>
     (\<forall>c user db flags sql w. driver_sql sql \<longrightarrow>
        pg_statement c sql (fst (dockerExec hst c (psql user db flags sql) w)) (gv (w_host w))
          (gv (w_host (snd (dockerExec hst c (psql user db flags sql) w))))) \<and>
     (\<forall>h args. hd args = ''inspect'' \<longrightarrow> gv (snd (dh_run (ah_docker hst) args [] h)) = gv h) \<and>
     (\<forall>c t h. gv (snd (ah_watch hst c t h)) = gv h)"

section \<open>A backend that can log in\<close>

definition password_at :: "disk \<Rightarrow> string \<Rightarrow> string" where
  "password_at d path = (case readEnvFile d path of None \<Rightarrow> [] | Some vals \<Rightarrow> env_get vals ''POSTGRES_PASSWORD'')"

definition can_log_in :: "('h \<Rightarrow> pg_view) \<Rightarrow> string \<Rightarrow> string \<Rightarrow> string \<Rightarrow> string \<Rightarrow> 'h world \<Rightarrow> bool" where
  "can_log_in gv c sd realm db w \<longleftrightarrow>
     (let v = gv (w_host w); pw = password_at (w_disk w) (dbCredsPath sd realm db) in
      pw \<noteq> [] \<and> pv_pass v (c, scopedPGRole db) = Some pw \<and> (c, db, scopedPGRole db) \<in> pv_connect v)"

text \<open>The passwords on a disk and the ones that are drawn need no escape.\<close>

definition clean_passwords :: "platform \<Rightarrow> disk \<Rightarrow> bool" where
  "clean_passwords pf d \<longleftrightarrow>
     (\<forall>p. plain (password_at d p)) \<and> (\<forall>p pw. pf_password pf p = Some pw \<longrightarrow> pw \<noteq> [] \<and> no_space pw \<and> plain pw)"

text \<open>What a step of the guard may do: it adds, keeps the passwords on the disk and the users of the servers,
  and sets the passwords of the roles in \<open>P\<close>.\<close>

definition pg_steps ::
    "platform \<Rightarrow> ('h \<Rightarrow> pg_view) \<Rightarrow> string \<Rightarrow> (string \<times> string) set \<Rightarrow> 'h world \<Rightarrow> 'h world \<Rightarrow> bool" where
  "pg_steps pf gv sd P w w' \<longleftrightarrow>
     pv_dbs (gv (w_host w)) \<subseteq> pv_dbs (gv (w_host w')) \<and> pv_connect (gv (w_host w)) \<subseteq> pv_connect (gv (w_host w')) \<and>
     (\<forall>c r. plain r \<longrightarrow> prefix ''u_'' r \<longrightarrow> (c, r) \<notin> P \<longrightarrow>
        pv_pass (gv (w_host w')) (c, r) = pv_pass (gv (w_host w)) (c, r)) \<and>
     (\<forall>p. password_at (w_disk w) p \<noteq> [] \<longrightarrow> password_at (w_disk w') p = password_at (w_disk w) p) \<and>
     (clean_passwords pf (w_disk w) \<longrightarrow> clean_passwords pf (w_disk w')) \<and>
     (\<forall>realm. known_realm realm \<longrightarrow> server_user (w_disk w') sd realm = server_user (w_disk w) sd realm)"

lemma pg_steps_refl [simp]: "pg_steps pf gv sd P w w"
  by (simp add: pg_steps_def)

lemma pg_steps_trans: "pg_steps pf gv sd P w w1 \<Longrightarrow> pg_steps pf gv sd P w1 w' \<Longrightarrow> pg_steps pf gv sd P w w'"
  unfolding pg_steps_def by (elim conjE) (intro conjI, blast, blast, metis, metis, blast, metis)

lemma pg_steps_mono: "pg_steps pf gv sd P w w' \<Longrightarrow> P \<subseteq> P' \<Longrightarrow> pg_steps pf gv sd P' w w'"
  unfolding pg_steps_def by blast

lemma pg_steps_roles:
  "pg_steps pf gv sd P w w' \<Longrightarrow> (\<And>c r. (c, r) \<in> P \<Longrightarrow> plain r \<Longrightarrow> prefix ''u_'' r \<Longrightarrow> (c, r) \<in> P') \<Longrightarrow> pg_steps pf gv sd P' w w'"
  unfolding pg_steps_def by blast

lemma pg_steps_pass:
  "pg_steps pf gv sd P w w' \<Longrightarrow> plain r \<Longrightarrow> prefix ''u_'' r \<Longrightarrow> (c, r) \<notin> P \<Longrightarrow>
     pv_pass (gv (w_host w')) (c, r) = pv_pass (gv (w_host w)) (c, r)"
  unfolding pg_steps_def by blast

lemma pg_steps_log [simp]: "pg_steps pf gv sd P (report s m w) w' = pg_steps pf gv sd P w w'"
  "pg_steps pf gv sd P w (report s m w') = pg_steps pf gv sd P w w'"
  by (simp_all add: pg_steps_def report_def)

lemma plain_append [simp]: "plain (xs @ ys) \<longleftrightarrow> plain xs \<and> plain ys" "plain []"
  by (auto simp: plain_def)

lemma plain_truncate: "plain s \<Longrightarrow> plain (truncate_str s n)"
  unfolding plain_def truncate_str_def by (auto dest: in_set_takeD)

lemma plain_role:
  assumes "plain db"
  shows "plain (scopedPGRole db) \<and> prefix ''u_'' (scopedPGRole db)"
proof
  have "plain (''u_'' @ db)" using assms by (simp add: plain_def)
  then show "plain (scopedPGRole db)" unfolding scopedPGRole_def by (rule plain_truncate)
  show "prefix ''u_'' (scopedPGRole db)" by (simp add: scopedPGRole_def truncate_str_def maxLabelLen_def)
qed

lemma can_log_in_steps:
  "can_log_in gv c sd realm db w \<Longrightarrow> plain db \<Longrightarrow> pg_steps pf gv sd P w w' \<Longrightarrow> (c, scopedPGRole db) \<notin> P \<Longrightarrow>
     can_log_in gv c sd realm db w'"
  using plain_role [of db] unfolding can_log_in_def pg_steps_def Let_def by (metis subsetD)

section \<open>Statements\<close>

lemma driver_sqls [simp]:
  "driver_sql list_sql" "driver_sql (exists_sql n)" "driver_sql (create_sql n)" "driver_sql (clone_sql n s)"
  "driver_sql (terminate_sql n)" "driver_sql (grants_sql n)" "driver_sql (reassign_sql n)" "driver_sql (lock_sql n s)"
  "driver_sql (role_sql n s)" "driver_sql (ro_sql n s)" "driver_sql (ro_grants_sql n s)"
  unfolding driver_sql_def by blast+

lemma quoted_prefix: "plain r \<Longrightarrow> plain r' \<Longrightarrow> prefix (text_quote r) (text_quote r' @ rest) \<Longrightarrow> r = r'"
proof -
  assume "plain r" "plain r'" "prefix (text_quote r) (text_quote r' @ rest)"
  then obtain zs where "r @ CHR 0x27 # zs = r' @ CHR 0x27 # rest" by (auto simp: text_quote_def prefix_def)
  moreover have "takeWhile (\<lambda>x. x \<noteq> CHR 0x27) (s @ CHR 0x27 # t) = s" if "plain s" for s t
    using that by (subst takeWhile_append2) (auto simp: plain_def)
  from this [OF \<open>plain r\<close>, of zs] this [OF \<open>plain r'\<close>, of rest]
  have "takeWhile (\<lambda>x. x \<noteq> CHR 0x27) (r @ CHR 0x27 # zs) = r" "takeWhile (\<lambda>x. x \<noteq> CHR 0x27) (r' @ CHR 0x27 # rest) = r'" .
  ultimately show "r = r'" by metis
qed

lemma names_role_simps:
  "\<not> names_role (exists_sql n) r" "\<not> names_role list_sql r" "\<not> names_role (create_sql n) r" "\<not> names_role (clone_sql n s) r"
  "\<not> names_role (terminate_sql n) r" "\<not> names_role (grants_sql n) r" "\<not> names_role (reassign_sql n) r"
  "\<not> names_role (lock_sql n s) r" "\<not> names_role (ro_grants_sql n s) r"
  by (simp_all add: names_role_def exists_sql_def list_sql_def create_sql_def clone_sql_def terminate_sql_def grants_sql_def
      reassign_sql_def lock_sql_def ro_grants_sql_def)

lemma names_role_role:
  "plain r \<Longrightarrow> plain r' \<Longrightarrow> names_role (role_sql r' p) r \<Longrightarrow> r = r'"
  "plain r \<Longrightarrow> plain r' \<Longrightarrow> names_role (ro_sql r' d) r \<Longrightarrow> r = r'"
  unfolding names_role_def role_sql_def ro_sql_def same_prefix_prefix append_assoc by (auto intro: quoted_prefix)

lemma statement:
  assumes "pg_behaves hst gv" "driver_sql sql" "dockerExec hst c (psql user db flags sql) w = (res, w')"
  shows "pg_steps pf gv sd {(c, r) |r. names_role sql r} w w'" "pg_statement c sql res (gv (w_host w)) (gv (w_host w'))"
proof -
  have "pg_statement c sql (fst (dockerExec hst c (psql user db flags sql) w)) (gv (w_host w))
          (gv (w_host (snd (dockerExec hst c (psql user db flags sql) w))))"
    using assms(1,2) unfolding pg_behaves_def by blast
  then show st: "pg_statement c sql res (gv (w_host w)) (gv (w_host w'))" using assms(3) by simp
  have "w_disk w' = w_disk w" using dockerExec_quiet(1) assms(3) by (metis snd_conv)
  then show "pg_steps pf gv sd {(c, r) |r. names_role sql r} w w'"
    using st by (auto simp: pg_steps_def pg_statement_def split: prod.splits)
qed

lemma quiet_statement:
  assumes "pg_behaves hst gv" "driver_sql sql" "\<And>r. \<not> names_role sql r" "dockerExec hst c (psql user db flags sql) w = (res, w')"
  shows "pg_steps pf gv sd {} w w'" "pg_statement c sql res (gv (w_host w)) (gv (w_host w'))"
  using statement [OF assms(1,2,4)] assms(3) by auto

lemma statement_means:
  "pg_statement c (exists_sql n) (out, err, rc) v v' \<Longrightarrow> plain n \<Longrightarrow> rc = 0 \<Longrightarrow> trim_space out = ''1'' \<Longrightarrow> (c, n) \<in> pv_dbs v'"
  "pg_statement c (create_sql n) (out, err, rc) v v' \<Longrightarrow> plain n \<Longrightarrow> create_failed what err rc = None \<Longrightarrow> (c, n) \<in> pv_dbs v'"
  "pg_statement c (clone_sql n s) (out, err, rc) v v' \<Longrightarrow> plain n \<Longrightarrow> create_failed what err rc = None \<Longrightarrow> (c, n) \<in> pv_dbs v'"
  "pg_statement c list_sql (out, err, rc) v v' \<Longrightarrow> rc = 0 \<Longrightarrow> l \<in> set (split_on newline out) \<Longrightarrow> trim_space l \<noteq> [] \<Longrightarrow>
     (c, trim_space l) \<in> pv_dbs v'"
  "pg_statement c (role_sql r p) (out, err, rc) v v' \<Longrightarrow> plain r \<Longrightarrow> plain p \<Longrightarrow> rc = 0 \<Longrightarrow> pv_pass v' (c, r) = Some p"
  "pg_statement c (lock_sql n r) (out, err, rc) v v' \<Longrightarrow> plain n \<Longrightarrow> plain r \<Longrightarrow> rc = 0 \<Longrightarrow> (c, n, r) \<in> pv_connect v'"
  unfolding pg_statement_def create_failed_def by (simp_all split: if_splits) (blast+)?

lemma exec_result:
  obtains out err rc w' where "x = ((out, err, rc), w')"
  by (cases x) auto

lemma exists_steps:
  assumes "pg_behaves hst gv" "postgresDBExists hst c user n w = (r, w')"
  shows "pg_steps pf gv sd {} w w'" "r = Inr True \<Longrightarrow> plain n \<Longrightarrow> (c, n) \<in> pv_dbs (gv (w_host w'))"
proof -
  obtain out err rc w1 where ran: "dockerExec hst c (psql user ''postgres'' [''-t'', ''-A''] (exists_sql n)) w = ((out, err, rc), w1)"
    by (rule exec_result)
  note st = quiet_statement [OF assms(1) driver_sqls(2) names_role_simps(1) ran]
  have w': "w' = w1" and r: "r = Inr True \<Longrightarrow> rc = 0 \<and> trim_space out = ''1''"
    using assms(2) by (simp_all add: postgresDBExists_def ran split: if_splits)
  show "pg_steps pf gv sd {} w w'" unfolding w' by (rule st(1))
  show "r = Inr True \<Longrightarrow> plain n \<Longrightarrow> (c, n) \<in> pv_dbs (gv (w_host w'))"
    using statement_means(1) [OF st(2)] r unfolding w' by blast
qed

lemma create_steps:
  assumes "pg_behaves hst gv" "plain n"
  shows "createPostgresDB hst c user n w = (r, w') \<Longrightarrow>
      pg_steps pf gv sd {} w w' \<and> (r = None \<longrightarrow> (c, n) \<in> pv_dbs (gv (w_host w')))"
    and "clonePostgresDBAs hst c user n source w = (r, w') \<Longrightarrow>
      pg_steps pf gv sd {} w w' \<and> (r = None \<longrightarrow> (c, n) \<in> pv_dbs (gv (w_host w')))"
proof -
  obtain there w1 where ex: "postgresDBExists hst c user n w = (there, w1)" by (rule prod.exhaust)
  note exs = exists_steps [OF assms(1) ex]
  obtain out err rc w2 where create: "dockerExec hst c (psql user ''postgres'' [] (create_sql n)) w1 = ((out, err, rc), w2)"
    by (rule exec_result)
  note made = quiet_statement [OF assms(1) driver_sqls(3) names_role_simps(3) create]
  show "createPostgresDB hst c user n w = (r, w') \<Longrightarrow>
      pg_steps pf gv sd {} w w' \<and> (r = None \<longrightarrow> (c, n) \<in> pv_dbs (gv (w_host w')))"
  proof -
    assume run: "createPostgresDB hst c user n w = (r, w')"
    then consider (old) "w' = w1" "r = None \<longrightarrow> there = Inr True"
      | (new) what where "w' = w2" "r = create_failed what err rc"
      by (auto simp: createPostgresDB_def ex create split: sum.splits bool.splits)
    then show ?thesis
    proof cases
      case old
      with exs assms(2) show ?thesis by blast
    next
      case new
      with pg_steps_trans [OF exs(1) made(1)] statement_means(2) [OF made(2) assms(2), of what] show ?thesis by auto
    qed
  qed
  obtain res w3 where stop: "dockerExec hst c (psql user ''postgres'' [] (terminate_sql source)) w1 = (res, w3)"
    by (rule prod.exhaust)
  note stopped = quiet_statement(1) [OF assms(1) driver_sqls(5) names_role_simps(5) stop]
  obtain out' err' rc' w4 where clone: "dockerExec hst c (psql user ''postgres'' [] (clone_sql n source)) w3 = ((out', err', rc'), w4)"
    by (rule exec_result)
  note cloned = quiet_statement [OF assms(1) driver_sqls(4) names_role_simps(4) clone]
  show "clonePostgresDBAs hst c user n source w = (r, w') \<Longrightarrow>
      pg_steps pf gv sd {} w w' \<and> (r = None \<longrightarrow> (c, n) \<in> pv_dbs (gv (w_host w')))"
  proof -
    assume run: "clonePostgresDBAs hst c user n source w = (r, w')"
    then consider (old) "w' = w1" "r = None \<longrightarrow> there = Inr True"
      | (new) what where "w' = w4" "r = create_failed what err' rc'"
      by (auto simp: clonePostgresDBAs_def ex stop clone split: sum.splits bool.splits)
    then show ?thesis
    proof cases
      case old
      with exs assms(2) show ?thesis by blast
    next
      case new
      with pg_steps_trans [OF exs(1) pg_steps_trans [OF stopped cloned(1)]] statement_means(3) [OF cloned(2) assms(2), of what]
      show ?thesis by auto
    qed
  qed
qed

lemma list_steps:
  assumes "pg_behaves hst gv" "listPostgresDBs hst c user w = (r, w')"
  shows "pg_steps pf gv sd {} w w'" "r = Inr ns \<Longrightarrow> n \<in> set ns \<Longrightarrow> (c, n) \<in> pv_dbs (gv (w_host w'))"
proof -
  obtain out err rc w1 where ran: "dockerExec hst c (psql user ''postgres'' [''-t'', ''-A''] list_sql) w = ((out, err, rc), w1)"
    by (rule exec_result)
  note st = quiet_statement [OF assms(1) driver_sqls(1) names_role_simps(2) ran]
  have w': "w' = w1" and r: "r = Inr ns \<Longrightarrow> rc = 0 \<and> ns = filter (\<lambda>n. n \<noteq> []) (map trim_space (split_on newline out))"
    using assms(2) by (simp_all add: listPostgresDBs_def ran split: if_splits)
  show "pg_steps pf gv sd {} w w'" unfolding w' by (rule st(1))
  show "r = Inr ns \<Longrightarrow> n \<in> set ns \<Longrightarrow> (c, n) \<in> pv_dbs (gv (w_host w'))"
    using statement_means(4) [OF st(2)] r unfolding w' by force
qed

lemma wait_steps:
  assumes "pg_behaves hst gv" "waitForPostgres hst c w = (r, w')"
  shows "pg_steps pf gv sd {} w w'"
proof -
  have inspect: "gv (w_host (snd (containerHealth hst c v))) = gv (w_host v)" for v
    using assms(1) by (simp add: containerHealth_def docker_def pg_behaves_def case_prod_beta)
  have watch: "gv (snd (ah_watch hst c 60 h)) = gv h" for h using assms(1) by (simp add: pg_behaves_def)
  have "gv (w_host (snd (waitForHealthy hst c 60 w))) = gv (w_host w)"
    by (auto simp: waitForHealthy_def case_prod_beta inspect watch split: option.split)
  then show ?thesis
    using assms(2) wait_quiet(1) [of hst c 60 w] by (simp add: waitForPostgres_def pg_steps_def)
qed

section \<open>The role of a database\<close>

lemma password_written:
  assumes "writeEnvFile pf path [(''POSTGRES_USER'', user), (''POSTGRES_PASSWORD'', pw)] d = (True, d')"
    and "no_space user" "no_space pw" "pw \<noteq> []"
  shows "password_at d' path = pw"
proof -
  let ?kvs = "[(''POSTGRES_USER'', user), (''POSTGRES_PASSWORD'', pw)]"
  have trimmed: "trim_space pw = pw" using assms(3) by (simp add: no_space_trimmed trim_space_trimmed)
  then have "(''POSTGRES_PASSWORD'', pw) \<in> set (env_pairs ?kvs)" using assms(4) by (simp add: set_env_pairs)
  then have "env_pairs ?kvs \<noteq> []" by auto
  moreover have "\<forall>(k, v)\<in>set ?kvs. env_key_ok k \<and> env_value_ok v"
    using assms(2,3) by (simp add: no_space_value, simp add: env_key_ok_def is_space_def newline_def)
  ultimately obtain vals where "readEnvFile d' path = Some vals"
    "\<forall>k. map_of vals k = (case map_of ?kvs k of None \<Rightarrow> None | Some v \<Rightarrow> if trim_space v \<noteq> [] then Some v else None)"
    using env_file_roundtrip [of ?kvs pf path d d'] assms(1) by auto
  then show ?thesis using trimmed assms(4) by (simp add: password_at_def env_get_def)
qed

lemma no_space_role: "no_space db \<Longrightarrow> no_space (scopedPGRole db)"
  by (auto simp: no_space_def scopedPGRole_def truncate_str_def is_space_def dest!: in_set_takeD)

text \<open>The file of a realm's server.\<close>

definition server_path :: "string \<Rightarrow> string \<Rightarrow> string" where
  "server_path sd realm = filepath_Join [sd, ''postgres'' @ (if realm \<noteq> ''production'' then CHR ''-'' # realm else [])]"


lemma creds_steps:
  assumes "getOrCreateDBCreds pf sd realm db d = (res, d')" "clean_passwords pf d" "no_space db"
    and "\<And>r. known_realm r \<Longrightarrow> dbCredsPath sd realm db \<noteq> server_path sd r"
  shows "clean_passwords pf d' \<and> (\<forall>p. password_at d p \<noteq> [] \<longrightarrow> password_at d' p = password_at d p) \<and>
    (\<forall>r. known_realm r \<longrightarrow> server_user d' sd r = server_user d sd r) \<and>
    (\<forall>role pass. res = Some (role, pass) \<longrightarrow>
       role = scopedPGRole db \<and> pass = password_at d' (dbCredsPath sd realm db) \<and> pass \<noteq> [])"
proof -
  let ?path = "dbCredsPath sd realm db" and ?user = "scopedPGRole db"
  have run: "getOrCreateDBCreds pf sd realm db d =
      (if password_at d ?path \<noteq> [] then (Some (?user, password_at d ?path), d)
       else case pf_password pf ?path of
           None \<Rightarrow> (None, d)
         | Some pw \<Rightarrow> (case writeEnvFile pf ?path [(''POSTGRES_USER'', ?user), (''POSTGRES_PASSWORD'', pw)] d of
             (ok, d') \<Rightarrow> (if ok then Some (?user, pw) else None, d')))"
    by (simp add: getOrCreateDBCreds_def password_at_def Let_def)
  note ran = assms(1) [unfolded run]
  consider (old) "password_at d ?path \<noteq> []" | (none) "password_at d ?path = []" "pf_password pf ?path = None"
    | (drawn) pw where "password_at d ?path = []" "pf_password pf ?path = Some pw" by fastforce
  then show ?thesis
  proof cases
    case old
    then have "res = Some (?user, password_at d ?path)" "d' = d" using ran by auto
    then show ?thesis using assms(2) old by simp
  next
    case none
    then have "res = None" "d' = d" using ran by simp_all
    then show ?thesis using assms(2) by simp
  next
    case drawn
    then have pw: "pf_password pf ?path = Some pw" and new: "password_at d ?path = []" by auto
    obtain ok d1 where wrote: "writeEnvFile pf ?path [(''POSTGRES_USER'', ?user), (''POSTGRES_PASSWORD'', pw)] d = (ok, d1)"
      by (rule prod.exhaust)
    have clean: "pw \<noteq> []" "no_space pw" "plain pw" using assms(2) pw by (auto simp: clean_passwords_def)
    have res: "res = (if ok then Some (?user, pw) else None)" "d' = d1" using ran pw new wrote by simp_all
    have away: "readEnvFile d1 p = readEnvFile d p" if "p \<noteq> ?path" for p
      using wrote that by (auto simp: writeEnvFile_def write_file_def readEnvFile_def split: if_splits)
    have user: "server_user d1 sd r = server_user d sd r" if "known_realm r" for r
    proof -
      have "serviceSecrets d1 sd ''postgres'' r = serviceSecrets d sd ''postgres'' r"
        unfolding serviceSecrets_def Let_def using away assms(4) [OF that] by (simp add: server_path_def)
      then show ?thesis by (simp add: server_user_def)
    qed
    show ?thesis
    proof (cases ok)
      case True
      with wrote have "writeEnvFile pf ?path [(''POSTGRES_USER'', ?user), (''POSTGRES_PASSWORD'', pw)] d = (True, d1)" by simp
      from password_written [OF this no_space_role [OF assms(3)] clean(2,1)]
      have "password_at d1 ?path = pw" .
      moreover have "password_at d1 p = password_at d p" if "p \<noteq> ?path" for p using away [OF that] by (simp add: password_at_def)
      ultimately show ?thesis
        using res True clean assms(2) new user unfolding clean_passwords_def by (metis option.inject prod.inject)
    next
      case False
      then have "d1 = d" using wrote by (auto simp: writeEnvFile_def write_file_def split: if_splits)
      then show ?thesis using res False assms(2) by simp
    qed
  qed
qed

lemma run_commands_steps:
  assumes "pg_behaves hst gv" "\<And>db sql what. (db, sql, what) \<in> set cs \<Longrightarrow> driver_sql sql"
    and "run_commands hst c user cs w = (res, w')"
  shows "pg_steps pf gv sd {(c, r) |r. \<exists>cmd\<in>set cs. names_role (fst (snd cmd)) r} w w'"
  using assms(2,3)
proof (induction cs arbitrary: w)
  case (Cons cmd cs)
  obtain db sql what where cmd: "cmd = (db, sql, what)" by (rule prod_cases3)
  obtain out err rc w1 where ran: "dockerExec hst c (psql user db [] sql) w = ((out, err, rc), w1)" by (rule exec_result)
  let ?P = "{(c, r) |r. \<exists>cmd\<in>set (cmd # cs). names_role (fst (snd cmd)) r}"
  have "driver_sql sql" using Cons.prems(1) cmd by fastforce
  from pg_steps_mono [OF statement(1) [OF assms(1) this ran], of ?P] have one: "pg_steps pf gv sd ?P w w1"
    by (auto simp: cmd)
  show ?case
  proof (cases "rc = 0")
    case True
    then have "run_commands hst c user cs w1 = (res, w')" using Cons.prems(2) by (simp add: cmd ran)
    moreover have "\<And>db sql what. (db, sql, what) \<in> set cs \<Longrightarrow> driver_sql sql" using Cons.prems(1) by auto
    ultimately have "pg_steps pf gv sd ?P w1 w'" by (intro pg_steps_mono [OF Cons.IH]) auto
    with one show ?thesis by (rule pg_steps_trans)
  next
    case False
    then show ?thesis using Cons.prems(2) one by (simp add: cmd ran)
  qed
qed simp

lemma run_commands_Cons_None:
  "run_commands hst c user ((db, sql, what) # cs) w = (None, w') \<longleftrightarrow>
     (\<exists>out err w1. dockerExec hst c (psql user db [] sql) w = ((out, err, 0), w1) \<and> run_commands hst c user cs w1 = (None, w'))"
  by (auto split: prod.splits if_splits)

text \<open>The whole sequence sets the role's password and lets it connect, and changes no other password.\<close>

lemma role_command_sql: "(d, sql, what) \<in> set (role_commands db role pass) \<Longrightarrow> driver_sql sql"
  unfolding role_commands_def Let_def set_simps insert_iff empty_iff prod.inject by (elim disjE conjE) simp_all

lemma role_command_names:
  assumes "cmd \<in> set (role_commands db role pass)" "names_role (fst (snd cmd)) r" "plain r" "plain role" "plain (scopedROPGRole db)"
  shows "r = role \<or> r = scopedROPGRole db" "cmd \<in> set (drop 1 (role_commands db role pass)) \<Longrightarrow> r = scopedROPGRole db"
proof -
  have "fst (snd cmd) \<in> {role_sql role pass, ro_sql (scopedROPGRole db) db} \<or> \<not> names_role (fst (snd cmd)) r"
    using assms(1) unfolding role_commands_def Let_def set_simps insert_iff empty_iff
    by (elim disjE) (simp_all add: names_role_simps)
  then consider "fst (snd cmd) = role_sql role pass" | "fst (snd cmd) = ro_sql (scopedROPGRole db) db" using assms(2) by auto
  then show "r = role \<or> r = scopedROPGRole db"
    using assms(2) names_role_role(1) [OF assms(3,4)] names_role_role(2) [OF assms(3,5)] by cases metis+
  assume "cmd \<in> set (drop 1 (role_commands db role pass))"
  then have "fst (snd cmd) = ro_sql (scopedROPGRole db) db \<or> \<not> names_role (fst (snd cmd)) r"
    unfolding role_commands_def Let_def One_nat_def drop_Suc_Cons drop_0 set_simps insert_iff empty_iff
    by (elim disjE) (simp_all only: fst_conv snd_conv names_role_simps not_False_eq_True simp_thms)
  then show "r = scopedROPGRole db" using assms(2-) names_role_role(2) by metis
qed

lemma role_commands_steps:
  assumes "pg_behaves hst gv" "plain db" "plain pass" "role = scopedPGRole db"
    and "run_commands hst c user (role_commands db role pass) w = (res, w')"
  shows "pg_steps pf gv sd {(c, role)} w w'"
    and "res = None \<Longrightarrow> pv_pass (gv (w_host w')) (c, role) = Some pass \<and> (c, db, role) \<in> pv_connect (gv (w_host w'))"
proof -
  let ?ro = "scopedROPGRole db"
  let ?rest = "drop 1 (role_commands db role pass)"
  have cmds: "role_commands db role pass = (''postgres'', role_sql role pass, ''ensure role '' @ role) # ?rest"
    by (simp add: role_commands_def Let_def)
  have "plain (''ro_'' @ db)" using assms(2) by (simp add: plain_def)
  then have plain: "plain role" "plain ?ro"
    using plain_role [OF assms(2)] plain_truncate assms(4) by (simp_all add: scopedROPGRole_def)
  note named = role_command_names(1) [OF _ _ _ plain]
  have rest_named: "r = ?ro" if "cmd \<in> set ?rest" "names_role (fst (snd cmd)) r" "plain r" for cmd r
    using role_command_names(2) [OF in_set_dropD [OF that(1)] that(2,3) plain that(1)] .
  have ro: "\<not> prefix ''u_'' ?ro" by (simp add: scopedROPGRole_def truncate_str_def maxLabelLen_def)
  show "pg_steps pf gv sd {(c, role)} w w'"
  proof (rule pg_steps_roles [OF run_commands_steps [OF assms(1) _ assms(5)]])
    show "\<And>d sql what. (d, sql, what) \<in> set (role_commands db role pass) \<Longrightarrow> driver_sql sql" by (rule role_command_sql)
    fix c' r
    assume "(c', r) \<in> {(c, r) |r. \<exists>cmd\<in>set (role_commands db role pass). names_role (fst (snd cmd)) r}"
      and r: "plain r" "prefix ''u_'' r"
    then obtain cmd where "c' = c" "cmd \<in> set (role_commands db role pass)" "names_role (fst (snd cmd)) r" by blast
    then have "c' = c" "r = role \<or> r = ?ro" using named r(1) by blast+
    then show "(c', r) \<in> {(c, role)}" using ro r(2) by auto
  qed
  assume "res = None"
  with assms(5) cmds obtain out err w1 where ran: "dockerExec hst c (psql user ''postgres'' [] (role_sql role pass)) w = ((out, err, 0), w1)"
    and more: "run_commands hst c user ?rest w1 = (None, w')"
    by (metis run_commands_Cons_None)
  have "pv_pass (gv (w_host w1)) (c, role) = Some pass"
    by (rule statement_means(5) [OF statement(2) [OF assms(1) _ ran] plain(1) assms(3)]) simp_all
  moreover have "pv_pass (gv (w_host w')) (c, role) = pv_pass (gv (w_host w1)) (c, role)"
  proof (rule pg_steps_pass [OF run_commands_steps [OF assms(1) _ more] plain(1)])
    show "\<And>d sql what. (d, sql, what) \<in> set ?rest \<Longrightarrow> driver_sql sql" by (drule in_set_dropD) (rule role_command_sql)
    show "prefix ''u_'' role" using plain_role [OF assms(2)] assms(4) by simp
    then have "role \<noteq> ?ro" using ro by auto
    then show "(c, role) \<notin> {(c, r) |r. \<exists>cmd\<in>set ?rest. names_role (fst (snd cmd)) r}" using rest_named plain(1) by blast
  qed
  moreover have "(c, db, role) \<in> pv_connect (gv (w_host w'))"
  proof -
    let ?last = "drop 4 (role_commands db role pass)"
    have rest: "?rest = (db, grants_sql role, ''grant on '' @ db @ '' to '' @ role) #
        (db, reassign_sql role, ''reassign ownership in '' @ db @ '' to '' @ role) #
        (''postgres'', lock_sql db role, ''lock connect on '' @ db) # ?last"
      by (simp add: role_commands_def Let_def)
    from more obtain out err w2 w3 where lock: "dockerExec hst c (psql user ''postgres'' [] (lock_sql db role)) w2 = ((out, err, 0), w3)"
      and last: "run_commands hst c user ?last w3 = (None, w')"
      unfolding rest run_commands_Cons_None by blast
    have "(c, db, role) \<in> pv_connect (gv (w_host w3))"
      by (rule statement_means(6) [OF statement(2) [OF assms(1) _ lock] assms(2) plain(1)]) simp_all
    moreover have "\<And>d sql what. (d, sql, what) \<in> set ?last \<Longrightarrow> driver_sql sql"
      by (drule in_set_dropD) (rule role_command_sql)
    from run_commands_steps [OF assms(1) this last]
    have "pv_connect (gv (w_host w3)) \<subseteq> pv_connect (gv (w_host w'))" unfolding pg_steps_def by simp
    ultimately show ?thesis by blast
  qed
  ultimately show "pv_pass (gv (w_host w')) (c, role) = Some pass \<and> (c, db, role) \<in> pv_connect (gv (w_host w'))" by simp
qed

section \<open>Making a database ready\<close>

text \<open>A database's name needs no escape, and its credentials are not kept in a server's file.\<close>

definition db_ok :: "string \<Rightarrow> string \<Rightarrow> string \<Rightarrow> bool" where
  "db_ok sd realm db \<longleftrightarrow>
     known_realm realm \<and> plain db \<and> no_space db \<and>
     list_all (\<lambda>r. dbCredsPath sd realm db \<noteq> server_path sd r) [''dev'', ''staging'', ''production'']"

lemma db_okD:
  "db_ok sd realm db \<Longrightarrow> known_realm realm" "db_ok sd realm db \<Longrightarrow> plain db" "db_ok sd realm db \<Longrightarrow> no_space db"
  "db_ok sd realm db \<Longrightarrow> known_realm r \<Longrightarrow> dbCredsPath sd realm db \<noteq> server_path sd r"
  by (auto simp: db_ok_def known_realm_def)

lemma ensureBPRole_steps:
  assumes "pg_behaves hst gv" "clean_passwords pf (w_disk w)" "db_ok sd realm db"
    and "ensureBPRole pf hst c user sd realm db w = (res, w')"
  shows "pg_steps pf gv sd {(c, scopedPGRole db)} w w' \<and> (res = None \<longrightarrow> can_log_in gv c sd realm db w')"
proof -
  obtain creds d where creds: "getOrCreateDBCreds pf sd realm db (w_disk w) = (creds, d)" by (rule prod.exhaust)
  have cs: "clean_passwords pf d" "\<forall>p. password_at (w_disk w) p \<noteq> [] \<longrightarrow> password_at d p = password_at (w_disk w) p"
      "\<forall>r. known_realm r \<longrightarrow> server_user d sd r = server_user (w_disk w) sd r"
      "\<forall>role pass. creds = Some (role, pass) \<longrightarrow> role = scopedPGRole db \<and> pass = password_at d (dbCredsPath sd realm db) \<and> pass \<noteq> []"
    using creds_steps [OF creds assms(2) db_okD(3) [OF assms(3)] db_okD(4) [OF assms(3)]] by blast+
  let ?w1 = "w\<lparr>w_disk := d\<rparr>" and ?P = "{(c, scopedPGRole db)}"
  have one: "pg_steps pf gv sd ?P w ?w1" using cs by (simp add: pg_steps_def)
  show ?thesis
  proof (cases creds)
    case None
    then show ?thesis using assms(4) creds one by (auto simp: ensureBPRole_def)
  next
    case (Some rp)
    obtain role pass where rp: "rp = (role, pass)" by (rule prod.exhaust)
    then have rp': "role = scopedPGRole db" "pass = password_at d (dbCredsPath sd realm db)" "pass \<noteq> []"
      using cs(4) Some by blast+
    have run: "run_commands hst c user (role_commands db role pass) ?w1 = (res, w')"
      using assms(4) creds Some rp by (simp add: ensureBPRole_def)
    have "plain db" "plain pass" using db_okD(2) [OF assms(3)] cs(1) rp'(2) by (auto simp: clean_passwords_def)
    note rs = role_commands_steps [OF assms(1) this rp'(1) run]
    have "pg_steps pf gv sd ?P w w'" using pg_steps_trans [OF one] rs(1) rp'(1) by simp
    moreover have "can_log_in gv c sd realm db w'" if "res = None"
    proof -
      have "password_at (w_disk w') (dbCredsPath sd realm db) = pass"
        using rs(1) rp'(2,3) unfolding pg_steps_def by simp
      then show ?thesis using rs(2) [OF that] rp' by (simp add: can_log_in_def)
    qed
    ultimately show ?thesis by blast
  qed
qed

lemma make_ready_steps:
  assumes "pg_behaves hst gv" "clean_passwords pf (w_disk w)" "db_ok sd realm db"
    and create: "\<And>v r v'. create v = (r, v') \<Longrightarrow> pg_steps pf gv sd {} v v' \<and> (r = None \<longrightarrow> (c, db) \<in> pv_dbs (gv (w_host v')))"
    and "make_ready pf hst c user sd realm db create w = (res, w')"
  shows "pg_steps pf gv sd {(c, scopedPGRole db)} w w' \<and>
    (res = None \<longrightarrow> (c, db) \<in> pv_dbs (gv (w_host w')) \<and> can_log_in gv c sd realm db w')"
proof -
  let ?P = "{(c, scopedPGRole db)}"
  obtain r1 w1 where wait: "waitForPostgres hst c w = (r1, w1)" by (rule prod.exhaust)
  obtain r2 w2 where make: "create w1 = (r2, w2)" by (rule prod.exhaust)
  obtain r3 w3 where role: "ensureBPRole pf hst c user sd realm db w2 = (r3, w3)" by (rule prod.exhaust)
  have s1: "pg_steps pf gv sd ?P w w1" by (rule pg_steps_mono [OF wait_steps [OF assms(1) wait]]) simp
  have s2: "pg_steps pf gv sd ?P w w2" by (rule pg_steps_trans [OF s1 pg_steps_mono]) (use create [OF make] in auto)
  have "clean_passwords pf (w_disk w2)" using s2 assms(2) unfolding pg_steps_def by blast
  note s3 = ensureBPRole_steps [OF assms(1) this assms(3) role]
  have "pg_steps pf gv sd ?P w w3" using pg_steps_trans [OF s2] s3 by blast
  moreover have "r2 = None \<longrightarrow> (c, db) \<in> pv_dbs (gv (w_host w3))" using create [OF make] s3 unfolding pg_steps_def by blast
  ultimately show ?thesis
    using assms(5) s1 s2 s3 by (auto simp: make_ready_def wait make role split: option.splits)
qed

lemma clone_live_steps:
  assumes "pg_behaves hst gv" "plain target" "clone_live hst c secrets bpSlug target v = (r, v')"
  shows "pg_steps pf gv sd {} v v' \<and> (r = None \<longrightarrow> (c, target) \<in> pv_dbs (gv (w_host v')))"
proof -
  obtain there v1 where ex: "postgresDBExists hst c (env_get secrets ''POSTGRES_USER'') (rn_postgres_db (bpResourceNames bpSlug 0)) v = (there, v1)"
    by (rule prod.exhaust)
  obtain source where src: "clone_source hst c secrets bpSlug v = (source, v1)" by (simp add: clone_source_def ex)
  let ?v2 = "report ''provision'' (''Cloning live-dev database '' @ target @ '' from '' @ source) v1"
  have run: "clonePostgresDBAs hst c (env_get secrets ''POSTGRES_USER'') target source ?v2 = (r, v')"
    using assms(3) by (simp add: clone_live_def src)
  have "pg_steps pf gv sd {} v ?v2" using exists_steps(1) [OF assms(1) ex] by simp
  from pg_steps_trans [OF this] create_steps(2) [OF assms(1,2) run] show ?thesis by blast
qed

section \<open>The databases of a workspace\<close>

text \<open>The databases a deployment connects to: the mark the guard keeps, the realm and the name.\<close>

definition targets_of :: "(string \<times> string list) list \<Rightarrow> bitswan \<Rightarrow> deployment option \<Rightarrow> (string \<times> string \<times> string) list" where
  "targets_of reg bs conf =
     (case conf of
        None \<Rightarrow> []
      | Some cf \<Rightarrow>
          (let (bpSlug, copyName) = deriveBPAndCopy (de_relative_path cf);
               stage = StageOrProduction cf;
               realm = realmForStage stage;
               copy = rn_postgres_db (copyBPResourceNames copyName bpSlug);
               names = map (\<lambda>db. rn_postgres_db (bpResourceNames bpSlug db))
                 (if realm = ''production'' then productionDBNumbers bs bpSlug else [0])
           in if \<not> known_realm realm then []
              else if stage = ''live-dev'' \<and> copyName \<noteq> [] \<and> bpSlug \<noteq> [] then [(''copybp:'' @ copy, realm, copy)]
              else if bpSlug = [] \<or> \<not> isRegistered reg bpSlug realm then []
              else map (\<lambda>n. (''bp:'' @ n, realm, n)) names))"

definition all_targets :: "(string \<times> string list) list \<Rightarrow> bitswan \<Rightarrow> (string \<times> string \<times> string) list" where
  "all_targets reg bs = concat (map (\<lambda>i. targets_of reg bs (dep_at (bs_deployments bs) i)) (sortedDepIDs (bs_deployments bs)))"

text \<open>The login of a target's backend: a container and a role.\<close>

definition login_of :: "string \<Rightarrow> string \<times> string \<times> string \<Rightarrow> string \<times> string" where
  "login_of ws t = (case t of (k, r, db) \<Rightarrow> (serviceContainerName ws ''postgres'' r, scopedPGRole db))"

text \<open>No two targets share a mark or a login.\<close>

definition targets_ok :: "string \<Rightarrow> string \<Rightarrow> (string \<times> string \<times> string) set \<Rightarrow> bool" where
  "targets_ok ws sd T \<longleftrightarrow> (\<forall>(k, r, db)\<in>T. db_ok sd r db) \<and> inj_on fst T \<and> inj_on (login_of ws) T"

lemma targets_okD: "targets_ok ws sd T \<Longrightarrow> (k, r, db) \<in> T \<Longrightarrow> db_ok sd r db"
  unfolding targets_ok_def by blast

definition settled ::
    "('h \<Rightarrow> pg_view) \<Rightarrow> string \<Rightarrow> string \<Rightarrow> disk \<Rightarrow> (string \<times> string \<times> string) set \<Rightarrow> string set \<Rightarrow> string set \<Rightarrow> 'h world \<Rightarrow> bool" where
  "settled gv ws sd d0 T F S w \<longleftrightarrow>
     (\<forall>(k, r, db)\<in>T. k \<in> S \<longrightarrow> server_user d0 sd r \<noteq> None \<longrightarrow>
        (serviceContainerName ws ''postgres'' r, db) \<in> pv_dbs (gv (w_host w)) \<and>
        (k \<in> F \<longrightarrow> can_log_in gv (serviceContainerName ws ''postgres'' r) sd r db w))"

definition guard_base :: "platform \<Rightarrow> ('h \<Rightarrow> pg_view) \<Rightarrow> string \<Rightarrow> string \<Rightarrow> disk \<Rightarrow> live_state \<Rightarrow> 'h world \<Rightarrow> bool" where
  "guard_base pf gv ws sd d0 ls w \<longleftrightarrow>
     clean_passwords pf (w_disk w) \<and> (\<forall>r. known_realm r \<longrightarrow> server_user (w_disk w) sd r = server_user d0 sd r) \<and>
     (\<forall>(r, ns)\<in>set (lv_listed ls). \<forall>n\<in>set ns. (serviceContainerName ws ''postgres'' r, n) \<in> pv_dbs (gv (w_host w)))"

lemma guard_base_steps: "guard_base pf gv ws sd d0 ls w \<Longrightarrow> pg_steps pf gv sd P w w' \<Longrightarrow> guard_base pf gv ws sd d0 ls w'"
  unfolding guard_base_def pg_steps_def by fastforce

lemma guard_base_seen [simp]: "guard_base pf gv ws sd d0 (ls\<lparr>lv_seen := s\<rparr>) w = guard_base pf gv ws sd d0 ls w"
  by (simp add: guard_base_def)

lemma settled_steps:
  assumes "settled gv ws sd d0 T F S w" "pg_steps pf gv sd P w w'" "targets_ok ws sd T"
    and "\<And>t. t \<in> T \<Longrightarrow> fst t \<in> S \<Longrightarrow> login_of ws t \<notin> P"
  shows "settled gv ws sd d0 T F S w'"
proof -
  have "(serviceContainerName ws ''postgres'' r, db) \<in> pv_dbs (gv (w_host w')) \<and>
      (k \<in> F \<longrightarrow> can_log_in gv (serviceContainerName ws ''postgres'' r) sd r db w')"
    if t: "(k, r, db) \<in> T" "k \<in> S" "server_user d0 sd r \<noteq> None" for k r db
  proof -
    let ?c = "serviceContainerName ws ''postgres'' r"
    have old: "(?c, db) \<in> pv_dbs (gv (w_host w))" "k \<in> F \<Longrightarrow> can_log_in gv ?c sd r db w"
      using assms(1) t unfolding settled_def by blast+
    have "plain db" using targets_okD [OF assms(3) t(1)] by (rule db_okD)
    moreover have "(?c, scopedPGRole db) \<notin> P" using assms(4) [OF t(1)] t(2) by (simp add: login_of_def)
    ultimately show ?thesis using old can_log_in_steps [OF old(2) _ assms(2)] assms(2) unfolding pg_steps_def by blast
  qed
  then show ?thesis unfolding settled_def by blast
qed

lemma settled_insert:
  assumes "settled gv ws sd d0 T F S w" "targets_ok ws sd T" "(k, r, db) \<in> T"
    and "server_user d0 sd r \<noteq> None \<Longrightarrow> (serviceContainerName ws ''postgres'' r, db) \<in> pv_dbs (gv (w_host w))"
    and "server_user d0 sd r \<noteq> None \<Longrightarrow> k \<in> F \<Longrightarrow> can_log_in gv (serviceContainerName ws ''postgres'' r) sd r db w"
  shows "settled gv ws sd d0 T F (insert k S) w"
proof -
  have "(serviceContainerName ws ''postgres'' r', db') \<in> pv_dbs (gv (w_host w)) \<and>
      (k' \<in> F \<longrightarrow> can_log_in gv (serviceContainerName ws ''postgres'' r') sd r' db' w)"
    if t: "(k', r', db') \<in> T" "k' \<in> insert k S" and on: "server_user d0 sd r' \<noteq> None" for k' r' db'
  proof (cases "k' = k")
    case True
    have "inj_on fst T" using assms(2) by (simp add: targets_ok_def)
    from inj_onD [OF this _ t(1) assms(3)] True have "(k', r', db') = (k, r, db)" by simp
    then show ?thesis using assms(4,5) on by blast
  next
    case False
    then show ?thesis using assms(1) t on unfolding settled_def by blast
  qed
  then show ?thesis unfolding settled_def by blast
qed

lemma listed_steps:
  assumes "pg_behaves hst gv" "guard_base pf gv ws sd d0 ls w"
    and "databaseAlreadyExists hst r (serviceContainerName ws ''postgres'' r) user db ls w = (there, ls', w')"
  shows "pg_steps pf gv sd {} w w'" "guard_base pf gv ws sd d0 ls' w'" "lv_seen ls' = lv_seen ls"
    "there \<Longrightarrow> (serviceContainerName ws ''postgres'' r, db) \<in> pv_dbs (gv (w_host w'))"
proof -
  let ?c = "serviceContainerName ws ''postgres'' r"
  obtain res w1 where ran: "listPostgresDBs hst ?c user w = (res, w1)" by (rule prod.exhaust)
  note ls1 = list_steps [OF assms(1) ran]
  have "pg_steps pf gv sd {} w w' \<and> guard_base pf gv ws sd d0 ls' w' \<and> lv_seen ls' = lv_seen ls \<and>
      (there \<longrightarrow> (?c, db) \<in> pv_dbs (gv (w_host w')))"
  proof (cases "map_of (lv_listed ls) r")
    case (Some dbs)
    then have "(r, dbs) \<in> set (lv_listed ls)" by (rule map_of_SomeD)
    then show ?thesis using assms(2,3) Some by (auto simp: databaseAlreadyExists_def guard_base_def)
  next
    case None
    define dbs where "dbs = (case res of Inr ns \<Rightarrow> ns | Inl e \<Rightarrow> [])"
    have new: "there = (db \<in> set dbs)" "ls' = ls\<lparr>lv_listed := (r, dbs) # lv_listed ls\<rparr>" "w' = w1"
      using assms(3) None by (auto simp: databaseAlreadyExists_def ran dbs_def)
    have true: "\<forall>n\<in>set dbs. (?c, n) \<in> pv_dbs (gv (w_host w1))" using ls1(2) by (auto simp: dbs_def split: sum.splits)
    then have "guard_base pf gv ws sd d0 ls' w1"
      using guard_base_steps [OF assms(2) ls1(1)] by (simp add: new(2) guard_base_def)
    then show ?thesis using new true ls1(1) by simp
  qed
  then show "pg_steps pf gv sd {} w w'" "guard_base pf gv ws sd d0 ls' w'" "lv_seen ls' = lv_seen ls"
    "there \<Longrightarrow> (?c, db) \<in> pv_dbs (gv (w_host w'))" by blast+
qed

section \<open>The guard\<close>

text \<open>What one step of the guard leaves, where \<open>ks\<close> are the marks it deals with.\<close>

definition guard_inv ::
    "platform \<Rightarrow> ('h \<Rightarrow> pg_view) \<Rightarrow> string \<Rightarrow> string \<Rightarrow> disk \<Rightarrow> (string \<times> string \<times> string) set \<Rightarrow> string set \<Rightarrow>
       live_state \<Rightarrow> 'h world \<Rightarrow> bool" where
  "guard_inv pf gv ws sd d0 T F ls w \<longleftrightarrow>
     guard_base pf gv ws sd d0 ls w \<and> settled gv ws sd d0 T F (set (lv_seen ls)) w"

text \<open>A target that is made ready, or found to be there.\<close>

lemma target_step:
  assumes "pg_behaves hst gv" "targets_ok ws sd T" "guard_inv pf gv ws sd d0 T F ls w" "(k, r, db) \<in> T" "k \<notin> set (lv_seen ls)"
    and "server_user d0 sd r \<noteq> None" "unchanged \<Longrightarrow> k \<notin> F"
    and "(if unchanged then databaseAlreadyExists hst r (serviceContainerName ws ''postgres'' r) user db
            (ls\<lparr>lv_seen := k # lv_seen ls\<rparr>) w else (False, ls\<lparr>lv_seen := k # lv_seen ls\<rparr>, w)) = (there, ls1, w1)"
    and create: "\<And>v res v'. create v = (res, v') \<Longrightarrow> pg_steps pf gv sd {} v v' \<and>
        (res = None \<longrightarrow> (serviceContainerName ws ''postgres'' r, db) \<in> pv_dbs (gv (w_host v')))"
    and "w2 = w1 \<or> w2 = report step msg w1"
    and "(if there then (None, w1) else make_ready pf hst (serviceContainerName ws ''postgres'' r) user sd r db create w2) = (None, w')"
  shows "guard_inv pf gv ws sd d0 T F ls1 w' \<and> set (lv_seen ls1) = insert k (set (lv_seen ls))"
proof -
  let ?c = "serviceContainerName ws ''postgres'' r" and ?ls0 = "ls\<lparr>lv_seen := k # lv_seen ls\<rparr>"
  have base: "guard_base pf gv ws sd d0 ?ls0 w" and old: "settled gv ws sd d0 T F (set (lv_seen ls)) w"
    using assms(3) by (simp_all add: guard_inv_def)
  have check: "pg_steps pf gv sd {} w w1 \<and> guard_base pf gv ws sd d0 ls1 w1 \<and> lv_seen ls1 = k # lv_seen ls \<and>
      (there \<longrightarrow> unchanged \<and> (?c, db) \<in> pv_dbs (gv (w_host w1)))"
    using assms(8) base listed_steps [OF assms(1) base] by (auto split: if_splits)
  have apart: "login_of ws t \<notin> {(?c, scopedPGRole db)}" if "t \<in> T" "fst t \<in> set (lv_seen ls)" for t
  proof -
    have "t \<noteq> (k, r, db)" using that(2) assms(5) by auto
    then have "login_of ws t \<noteq> login_of ws (k, r, db)"
      using assms(2,4) that(1) unfolding targets_ok_def inj_on_def by blast
    then show ?thesis by (simp add: login_of_def)
  qed
  have settled1: "settled gv ws sd d0 T F (set (lv_seen ls)) w1" by (rule settled_steps [OF old _ assms(2)]) (use check in auto)
  have w2: "guard_base pf gv ws sd d0 ls1 w2" "settled gv ws sd d0 T F (set (lv_seen ls)) w2"
    using check settled1 assms(10) by (auto simp: guard_base_def settled_def can_log_in_def report_def)
  show ?thesis
  proof (cases there)
    case True
    then have "k \<notin> F" "(?c, db) \<in> pv_dbs (gv (w_host w1))" using check assms(7) by auto
    with settled_insert [OF settled1 assms(2,4)] have "settled gv ws sd d0 T F (insert k (set (lv_seen ls))) w1" by blast
    then show ?thesis using True assms(11) check by (simp add: guard_inv_def)
  next
    case False
    then have run: "make_ready pf hst ?c user sd r db create w2 = (None, w')" using assms(11) by simp
    have "clean_passwords pf (w_disk w2)" "db_ok sd r db"
      using w2(1) assms(2,4) unfolding guard_base_def targets_ok_def by blast+
    from make_ready_steps [OF assms(1) this create run]
    have ready: "pg_steps pf gv sd {(?c, scopedPGRole db)} w2 w'" "(?c, db) \<in> pv_dbs (gv (w_host w'))" "can_log_in gv ?c sd r db w'"
      by blast+
    have "settled gv ws sd d0 T F (set (lv_seen ls)) w'" by (rule settled_steps [OF w2(2) ready(1) assms(2) apart])
    from settled_insert [OF this assms(2,4)] ready(2,3)
    have "settled gv ws sd d0 T F (insert k (set (lv_seen ls))) w'" by blast
    with guard_base_steps [OF w2(1) ready(1)] show ?thesis using check by (simp add: guard_inv_def)
  qed
qed

text \<open>Steps of the guard, over a context that is fixed for a run.\<close>

definition guarded ::
    "platform \<Rightarrow> ('h \<Rightarrow> pg_view) \<Rightarrow> string \<Rightarrow> string \<Rightarrow> disk \<Rightarrow> (string \<times> string \<times> string) set \<Rightarrow> string set \<Rightarrow>
       string set \<Rightarrow> live_state \<Rightarrow> live_state \<Rightarrow> 'h world \<Rightarrow> bool" where
  "guarded pf gv ws sd d0 T F ks ls ls' w' \<longleftrightarrow>
     guard_inv pf gv ws sd d0 T F ls' w' \<and> ks \<union> set (lv_seen ls) \<subseteq> set (lv_seen ls')"

lemma live_database_step:
  assumes "pg_behaves hst gv" "targets_ok (wc_name wctx) (wc_secrets_dir wctx) T"
    and "guard_inv pf gv (wc_name wctx) (wc_secrets_dir wctx) d0 T F ls w" "(''bp:'' @ db, r, db) \<in> T"
    and "server_user d0 (wc_secrets_dir wctx) r \<noteq> None" "unchanged \<Longrightarrow> ''bp:'' @ db \<notin> F"
    and "live_database pf hst wctx r secrets unchanged db ls w = ((None, ls'), w')"
  shows "guarded pf gv (wc_name wctx) (wc_secrets_dir wctx) d0 T F {''bp:'' @ db} ls ls' w'"
proof (cases "''bp:'' @ db \<in> set (lv_seen ls)")
  case True
  then show ?thesis using assms(3,7) by (simp add: live_database_def guarded_def Let_def split: prod.splits if_splits)
next
  case False
  let ?c = "serviceContainerName (wc_name wctx) ''postgres'' r" and ?user = "env_get secrets ''POSTGRES_USER''"
  let ?create = "createPostgresDB hst ?c ?user db" and ?msg = "''Ensuring Postgres database '' @ db"
  obtain there ls1 w1 where check: "(if unchanged then databaseAlreadyExists hst r ?c ?user db
        (ls\<lparr>lv_seen := (''bp:'' @ db) # lv_seen ls\<rparr>) w else (False, ls\<lparr>lv_seen := (''bp:'' @ db) # lv_seen ls\<rparr>, w)) = (there, ls1, w1)"
    by (rule prod_cases3)
  obtain res w2 where ready: "make_ready pf hst ?c ?user (wc_secrets_dir wctx) r db ?create (report ''provision'' ?msg w1) = (res, w2)"
    by (rule prod.exhaust)
  have run: "(if there then (None, w1) else make_ready pf hst ?c ?user (wc_secrets_dir wctx) r db ?create
      (report ''provision'' ?msg w1)) = (None, w')" and ls': "ls' = ls1"
    using assms(7) False check ready by (auto simp: live_database_def Let_def split: if_splits)
  have "plain db" using targets_okD [OF assms(2,4)] by (rule db_okD)
  then have "pg_steps pf gv (wc_secrets_dir wctx) {} v v' \<and> (res = None \<longrightarrow> (?c, db) \<in> pv_dbs (gv (w_host v')))"
    if "?create v = (res, v')" for v res v' using create_steps(1) [OF assms(1) _ that] by blast
  from target_step [OF assms(1-4) False assms(5,6) check this _ run] ls' show ?thesis
    by (auto simp: guarded_def)
qed

lemma guarded_trans:
  "guarded pf gv ws sd d0 T F ks ls ls1 w1 \<Longrightarrow> guarded pf gv ws sd d0 T F ks' ls1 ls' w' \<Longrightarrow>
     guarded pf gv ws sd d0 T F (ks \<union> ks') ls ls' w'"
  unfolding guarded_def by blast

lemma live_databases_step:
  assumes "pg_behaves hst gv" "targets_ok (wc_name wctx) (wc_secrets_dir wctx) T"
    and "guard_inv pf gv (wc_name wctx) (wc_secrets_dir wctx) d0 T F ls w" "\<And>db. db \<in> set dbs \<Longrightarrow> (''bp:'' @ db, r, db) \<in> T"
    and "server_user d0 (wc_secrets_dir wctx) r \<noteq> None" "\<And>db. unchanged \<Longrightarrow> db \<in> set dbs \<Longrightarrow> ''bp:'' @ db \<notin> F"
    and "live_databases pf hst wctx r secrets unchanged dbs ls w = ((None, ls'), w')"
  shows "guarded pf gv (wc_name wctx) (wc_secrets_dir wctx) d0 T F ((@) ''bp:'' ` set dbs) ls ls' w'"
  using assms(3,4,6,7)
proof (induction dbs arbitrary: ls w)
  case (Cons db dbs)
  obtain res ls1 w1 where one: "live_database pf hst wctx r secrets unchanged db ls w = ((res, ls1), w1)"
    by (metis surj_pair)
  then have res: "res = None" and more: "live_databases pf hst wctx r secrets unchanged dbs ls1 w1 = ((None, ls'), w')"
    using Cons.prems(4) by (auto split: option.splits)
  have first: "guarded pf gv (wc_name wctx) (wc_secrets_dir wctx) d0 T F {''bp:'' @ db} ls ls1 w1"
    by (rule live_database_step [OF assms(1,2) Cons.prems(1) _ assms(5) _ one [unfolded res]]) (use Cons.prems(2,3) in auto)
  then have "guard_inv pf gv (wc_name wctx) (wc_secrets_dir wctx) d0 T F ls1 w1" by (simp add: guarded_def)
  from Cons.IH [OF this _ _ more] Cons.prems(2,3)
  have "guarded pf gv (wc_name wctx) (wc_secrets_dir wctx) d0 T F ((@) ''bp:'' ` set dbs) ls1 ls' w'" by simp
  from guarded_trans [OF first this] show ?case by simp
qed (simp add: guarded_def)

lemma live_copy_step:
  assumes "pg_behaves hst gv" "targets_ok (wc_name wctx) (wc_secrets_dir wctx) T"
    and "guard_inv pf gv (wc_name wctx) (wc_secrets_dir wctx) d0 T F ls w" "(''copybp:'' @ db, r, db) \<in> T"
    and "unchanged \<Longrightarrow> ''copybp:'' @ db \<notin> F"
    and "live_copy pf hst wctx r unchanged bpSlug db ls w = ((None, ls'), w')"
  shows "guarded pf gv (wc_name wctx) (wc_secrets_dir wctx) d0 T F {''copybp:'' @ db} ls ls' w'"
proof (cases "''copybp:'' @ db \<in> set (lv_seen ls)")
  case True
  then show ?thesis using assms(3,6) by (simp add: live_copy_def guarded_def)
next
  case False
  let ?sd = "wc_secrets_dir wctx" and ?ls0 = "ls\<lparr>lv_seen := (''copybp:'' @ db) # lv_seen ls\<rparr>"
  have same: "server_user (w_disk w) ?sd r = server_user d0 ?sd r"
    using assms(3) db_okD(1) [OF targets_okD [OF assms(2,4)]] by (simp add: guard_inv_def guard_base_def)
  show ?thesis
  proof (cases "server_user d0 ?sd r")
    case None
    then have "ls' = ?ls0" "w' = w" using assms(6) False same by (simp_all add: live_copy_def Let_def)
    moreover have "settled gv (wc_name wctx) ?sd d0 T F (insert (''copybp:'' @ db) (set (lv_seen ls))) w"
      using settled_insert [OF _ assms(2,4)] assms(3) None unfolding guard_inv_def by blast
    ultimately show ?thesis using assms(3) by (simp add: guarded_def guard_inv_def)
  next
    case (Some secrets)
    let ?c = "serviceContainerName (wc_name wctx) ''postgres'' r" and ?user = "env_get secrets ''POSTGRES_USER''"
    let ?create = "clone_live hst ?c secrets bpSlug db"
    obtain there ls1 w1 where check: "(if unchanged then databaseAlreadyExists hst r ?c ?user db ?ls0 w
        else (False, ?ls0, w)) = (there, ls1, w1)"
      by (rule prod_cases3)
    obtain res w2 where ready: "make_ready pf hst ?c ?user ?sd r db ?create w1 = (res, w2)" by (rule prod.exhaust)
    have run: "(if there then (None, w1) else make_ready pf hst ?c ?user ?sd r db ?create w1) = (None, w')" and ls': "ls' = ls1"
      using assms(6) False check ready same Some by (auto simp: live_copy_def Let_def split: if_splits)
    have on: "server_user d0 ?sd r \<noteq> None" using Some by simp
    have "plain db" using targets_okD [OF assms(2,4)] by (rule db_okD)
    then have "pg_steps pf gv ?sd {} v v' \<and> (res = None \<longrightarrow> (?c, db) \<in> pv_dbs (gv (w_host v')))"
      if "?create v = (res, v')" for v res v' using clone_live_steps [OF assms(1) _ that] by blast
    from target_step [OF assms(1-4) False on assms(5) check this _ run] ls' show ?thesis
      by (auto simp: guarded_def)
  qed
qed

definition marks_of :: "string \<Rightarrow> disk \<Rightarrow> (string \<times> string list) list \<Rightarrow> bitswan \<Rightarrow> deployment option \<Rightarrow> string set" where
  "marks_of sd d0 reg bs conf = {k. \<exists>r db. (k, r, db) \<in> set (targets_of reg bs conf) \<and> server_user d0 sd r \<noteq> None}"

lemma live_deployment_step:
  assumes "pg_behaves hst gv" "targets_ok (wc_name wctx) (wc_secrets_dir wctx) T"
    and "guard_inv pf gv (wc_name wctx) (wc_secrets_dir wctx) d0 T F ls w" "set (targets_of reg bs conf) \<subseteq> T"
    and "\<And>t. unchanged \<Longrightarrow> t \<in> set (targets_of reg bs conf) \<Longrightarrow> fst t \<notin> F"
    and "live_deployment pf hst wctx bs reg unchanged conf ls w = ((None, ls'), w')"
  shows "guarded pf gv (wc_name wctx) (wc_secrets_dir wctx) d0 T F (marks_of (wc_secrets_dir wctx) d0 reg bs conf) ls ls' w'"
proof (cases conf)
  case None
  then show ?thesis using assms(3,6) by (simp add: live_deployment_def guarded_def marks_of_def targets_of_def)
next
  case (Some cf)
  let ?sd = "wc_secrets_dir wctx"
  obtain bpSlug copyName where path: "deriveBPAndCopy (de_relative_path cf) = (bpSlug, copyName)" by (rule prod.exhaust)
  let ?stage = "StageOrProduction cf" let ?realm = "realmForStage ?stage"
  let ?copy = "rn_postgres_db (copyBPResourceNames copyName bpSlug)"
  let ?names = "map (\<lambda>db. rn_postgres_db (bpResourceNames bpSlug db))
      (if ?realm = ''production'' then productionDBNumbers bs bpSlug else [0])"
  have same: "server_user (w_disk w) ?sd ?realm = server_user d0 ?sd ?realm" if "known_realm ?realm"
    using assms(3) that by (simp add: guard_inv_def guard_base_def)
  note targets = targets_of_def [of reg bs conf, unfolded Some option.case path prod.case Let_def]
  note run = assms(6) [unfolded live_deployment_def Some option.case path prod.case Let_def]
  have idle: ?thesis if "\<And>t. t \<in> set (targets_of reg bs conf) \<Longrightarrow> server_user d0 ?sd (fst (snd t)) = None" "ls' = ls" "w' = w"
    using that assms(3) by (fastforce simp: guarded_def marks_of_def)
  consider (out) "\<not> known_realm ?realm"
    | (copy) "known_realm ?realm" "?stage = ''live-dev''" "copyName \<noteq> []" "bpSlug \<noteq> []"
    | (other) "known_realm ?realm" "\<not> (?stage = ''live-dev'' \<and> copyName \<noteq> [] \<and> bpSlug \<noteq> [])" "bpSlug = [] \<or> \<not> isRegistered reg bpSlug ?realm"
    | (own) "known_realm ?realm" "\<not> (?stage = ''live-dev'' \<and> copyName \<noteq> [] \<and> bpSlug \<noteq> [])" "bpSlug \<noteq> []" "isRegistered reg bpSlug ?realm"
    by blast
  then show ?thesis
  proof cases
    case out
    then show ?thesis using run targets by (intro idle) (simp_all add: Some)
  next
    case copy
    then have ts: "targets_of reg bs conf = [(''copybp:'' @ ?copy, ?realm, ?copy)]" using targets by (simp add: Some)
    have "live_copy pf hst wctx ?realm unchanged bpSlug ?copy ls w = ((None, ls'), w')" using run copy by simp
    from live_copy_step [OF assms(1-3) _ _ this] assms(4,5) ts
    have "guarded pf gv (wc_name wctx) ?sd d0 T F {''copybp:'' @ ?copy} ls ls' w'" by simp
    then show ?thesis by (auto simp: guarded_def marks_of_def ts)
  next
    case other
    then have "targets_of reg bs conf = []" "((None, ls), w) = ((None, ls'), w')"
      using run targets unfolding if_not_P [OF other(2)] by (simp_all add: Some)
    then show ?thesis by (intro idle) simp_all
  next
    case own
    then have ts: "targets_of reg bs conf = map (\<lambda>n. (''bp:'' @ n, ?realm, n)) ?names"
      using targets unfolding if_not_P [OF own(2)] by (simp add: Some)
    have run: "(case server_user d0 ?sd ?realm of None \<Rightarrow> ((None, ls), w)
        | Some secrets \<Rightarrow> live_databases pf hst wctx ?realm secrets unchanged ?names ls w) = ((None, ls'), w')"
      using run own(1,3,4) same unfolding if_not_P [OF own(2)] by simp
    show ?thesis
    proof (cases "server_user d0 ?sd ?realm")
      case None
      then show ?thesis using run ts by (intro idle) auto
    next
      case (Some secrets)
      then have "live_databases pf hst wctx ?realm secrets unchanged ?names ls w = ((None, ls'), w')" using run by simp
      moreover have mem: "(''bp:'' @ n, ?realm, n) \<in> set (targets_of reg bs conf)" if "n \<in> set ?names" for n
        using that unfolding ts by (auto simp del: set_map) (simp add: image_iff)
      then have "\<And>n. n \<in> set ?names \<Longrightarrow> (''bp:'' @ n, ?realm, n) \<in> T"
        "\<And>n. unchanged \<Longrightarrow> n \<in> set ?names \<Longrightarrow> ''bp:'' @ n \<notin> F"
        using assms(4,5) by (blast, metis fst_conv)
      moreover have "server_user d0 ?sd ?realm \<noteq> None" using Some by simp
      ultimately have "guarded pf gv (wc_name wctx) ?sd d0 T F ((@) ''bp:'' ` set ?names) ls ls' w'"
        using live_databases_step [OF assms(1-3)] by blast
      then show ?thesis by (auto simp: guarded_def marks_of_def ts)
    qed
  qed
qed

lemma live_deployments_step:
  assumes "pg_behaves hst gv" "targets_ok (wc_name wctx) (wc_secrets_dir wctx) T"
    and "guard_inv pf gv (wc_name wctx) (wc_secrets_dir wctx) d0 T F ls w"
    and "\<And>i. i \<in> set ids \<Longrightarrow> set (targets_of reg bs (dep_at (bs_deployments bs) i)) \<subseteq> T"
    and "\<And>i t. i \<in> set ids \<Longrightarrow> fresh \<noteq> None \<Longrightarrow> i \<notin> set (the fresh) \<Longrightarrow>
        t \<in> set (targets_of reg bs (dep_at (bs_deployments bs) i)) \<Longrightarrow> fst t \<notin> F"
    and "live_deployments pf hst wctx bs reg fresh ids ls w = (None, w')"
  shows "\<exists>ls'. guarded pf gv (wc_name wctx) (wc_secrets_dir wctx) d0 T F
      (\<Union>i\<in>set ids. marks_of (wc_secrets_dir wctx) d0 reg bs (dep_at (bs_deployments bs) i)) ls ls' w'"
  using assms(3-6)
proof (induction ids arbitrary: ls w)
  case (Cons i ids)
  let ?conf = "dep_at (bs_deployments bs) i" and ?unchanged = "fresh \<noteq> None \<and> i \<notin> set (the fresh)"
  obtain res ls1 w1 where one: "live_deployment pf hst wctx bs reg ?unchanged ?conf ls w = ((res, ls1), w1)"
    by (metis surj_pair)
  then have res: "res = None" and more: "live_deployments pf hst wctx bs reg fresh ids ls1 w1 = (None, w')"
    using Cons.prems(4) by (auto split: option.splits)
  have first: "guarded pf gv (wc_name wctx) (wc_secrets_dir wctx) d0 T F (marks_of (wc_secrets_dir wctx) d0 reg bs ?conf) ls ls1 w1"
  proof (rule live_deployment_step [OF assms(1,2) Cons.prems(1) _ _ one [unfolded res]])
    show "set (targets_of reg bs ?conf) \<subseteq> T" using Cons.prems(2) by simp
    show "\<And>t. ?unchanged \<Longrightarrow> t \<in> set (targets_of reg bs ?conf) \<Longrightarrow> fst t \<notin> F" using Cons.prems(3) [of i] by simp
  qed
  then have "guard_inv pf gv (wc_name wctx) (wc_secrets_dir wctx) d0 T F ls1 w1" by (simp add: guarded_def)
  moreover have "\<And>j. j \<in> set ids \<Longrightarrow> set (targets_of reg bs (dep_at (bs_deployments bs) j)) \<subseteq> T"
    "\<And>j t. j \<in> set ids \<Longrightarrow> fresh \<noteq> None \<Longrightarrow> j \<notin> set (the fresh) \<Longrightarrow>
        t \<in> set (targets_of reg bs (dep_at (bs_deployments bs) j)) \<Longrightarrow> fst t \<notin> F"
    using Cons.prems(2,3) by (meson list.set_intros(2))+
  ultimately obtain ls' where
    "guarded pf gv (wc_name wctx) (wc_secrets_dir wctx) d0 T F
      (\<Union>i\<in>set ids. marks_of (wc_secrets_dir wctx) d0 reg bs (dep_at (bs_deployments bs) i)) ls1 ls' w'" using Cons.IH [OF _ _ _ more] by blast
  from guarded_trans [OF first this] show ?case by auto
qed (auto simp: guarded_def)

text \<open>The marks of the deployments whose containers this apply did not make.\<close>

definition stale_marks :: "(string \<times> string list) list \<Rightarrow> bitswan \<Rightarrow> string list option \<Rightarrow> string list" where
  "stale_marks reg bs fresh =
     concat (map (\<lambda>i. if fresh \<noteq> None \<and> i \<notin> set (the fresh)
                     then map fst (targets_of reg bs (dep_at (bs_deployments bs) i)) else [])
               (sortedDepIDs (bs_deployments bs)))"


section \<open>A server that behaves\<close>

record pg_sim =
  ps_dbs :: "(string \<times> string) list"
  ps_pass :: "((string \<times> string) \<times> string) list"
  ps_connect :: "(string \<times> string \<times> string) list"

text \<open>The texts around the names in a statement, and the name that follows a text.\<close>

definition exists_text :: string where "exists_text = ''SELECT 1 FROM pg_database WHERE datname = '' @ [CHR 0x27]"
definition create_text :: string where "create_text = ''CREATE DATABASE '' @ [CHR 0x22]"
definition role_text :: string where
  "role_text = ''DO $$ BEGIN IF NOT EXISTS (SELECT FROM pg_roles WHERE rolname = '' @ [CHR 0x27]"
definition login_text :: "string \<Rightarrow> string" where
  "login_text r = [CHR 0x27] @ '') THEN CREATE ROLE '' @ quoted r @ '' LOGIN CONNECTION LIMIT '' @
     format_int bpPostgresConnLimit @ '' PASSWORD '' @ [CHR 0x27]"
definition lock_text :: string where "lock_text = ''REVOKE CONNECT ON DATABASE '' @ [CHR 0x22]"
definition grant_text :: "string \<Rightarrow> string" where
  "grant_text n = [CHR 0x22] @ '' FROM PUBLIC; GRANT CONNECT ON DATABASE '' @ quoted n @ '' TO '' @ [CHR 0x22]"

definition upto_char :: "char \<Rightarrow> string \<Rightarrow> string" where "upto_char c s = takeWhile (\<lambda>x. x \<noteq> c) s"
definition after :: "string \<Rightarrow> string \<Rightarrow> string" where "after t s = drop (length t) s"

definition ran_well :: "string \<Rightarrow> cli_result" where
  "ran_well out = \<lparr>cr_started = True, cr_exit = 0, cr_out = out, cr_err = [], cr_chunks = [], cr_lines = [], cr_merged = []\<rparr>"

definition pg_run :: "string \<Rightarrow> string \<Rightarrow> pg_sim \<Rightarrow> string \<times> pg_sim" where
  "pg_run c sql h =
     (if sql = list_sql then
        (concat (map (\<lambda>n. n @ [newline]) (filter no_space (map snd (filter (\<lambda>p. fst p = c) (ps_dbs h))))), h)
      else if prefix exists_text sql then
        (if (c, upto_char CHR 0x27 (after exists_text sql)) \<in> set (ps_dbs h) then ''1'' else [], h)
      else if prefix create_text sql then
        ([], h\<lparr>ps_dbs := (c, upto_char CHR 0x22 (after create_text sql)) # ps_dbs h\<rparr>)
      else if prefix role_text sql then
        (let r = upto_char CHR 0x27 (after role_text sql); rest = drop (length r) (after role_text sql) in
         ([], if prefix (login_text r) rest
              then h\<lparr>ps_pass := ((c, r), upto_char CHR 0x27 (after (login_text r) rest)) # ps_pass h\<rparr> else h))
      else if prefix lock_text sql then
        (let n = upto_char CHR 0x22 (after lock_text sql); rest = drop (length n) (after lock_text sql) in
         ([], h\<lparr>ps_connect := (c, n, upto_char CHR 0x22 (after (grant_text n) rest)) # ps_connect h\<rparr>))
      else ([], h))"

definition pg_host :: "pg_sim apply_host" where
  "pg_host =
     \<lparr>ah_docker = \<lparr>dh_run = (\<lambda>args input h.
          if hd args = ''inspect'' then (ran_well ''healthy'', h)
          else case pg_run (args ! 1) (last args) h of (out, h') \<Rightarrow> (ran_well out, h')),
        dh_syft = (\<lambda>args h. (ran_well [], h)), dh_temp = (\<lambda>content h. (None, h)), dh_env = (\<lambda>_. []),
        dh_ps_time = (\<lambda>_. None), dh_rfc3339 = (\<lambda>_. None), dh_mem = (\<lambda>_. 0), dh_image_line = (\<lambda>_. None)\<rparr>,
      ah_watch = (\<lambda>c t h. (None, h)), ah_json = (\<lambda>_. None)\<rparr>"

definition pg_sim_view :: "pg_sim \<Rightarrow> pg_view" where
  "pg_sim_view h = \<lparr>pv_dbs = set (ps_dbs h), pv_pass = map_of (ps_pass h), pv_connect = set (ps_connect h)\<rparr>"

lemma upto_plain: "plain n \<Longrightarrow> c = CHR 0x27 \<or> c = CHR 0x22 \<Longrightarrow> upto_char c (n @ c # rest) = n"
  unfolding upto_char_def by (subst takeWhile_append2) (auto simp: plain_def)

lemma after_append [simp]: "after t (t @ s) = s"
  by (simp add: after_def)

lemma sql_texts:
  "exists_sql n = exists_text @ n @ CHR 0x27 # '';''"
  "create_sql n = create_text @ n @ CHR 0x22 # '';''"
  "clone_sql n s = create_text @ n @ CHR 0x22 # '' WITH TEMPLATE '' @ quoted s @ '';''"
  "lock_sql n r = lock_text @ n @ grant_text n @ r @ CHR 0x22 # '';''"
  by (simp_all add: exists_sql_def create_sql_def clone_sql_def lock_sql_def exists_text_def create_text_def
      lock_text_def grant_text_def quoted_def text_quote_def)

lemma role_sql_text:
  "\<exists>rest. role_sql r p = role_text @ r @ login_text r @ p @ CHR 0x27 # rest"
  by (simp add: role_sql_def role_text_def login_text_def quoted_def text_quote_def)

lemma heads:
  "\<exists>t. login_text r = CHR 0x27 # t" "\<exists>t. grant_text n = CHR 0x22 # t"
  by (simp_all add: login_text_def grant_text_def)

lemma texts_differ:
  "\<not> prefix exists_text (create_text @ s)" "\<not> prefix exists_text (role_text @ s)" "\<not> prefix exists_text (lock_text @ s)"
  "\<not> prefix create_text (role_text @ s)" "\<not> prefix create_text (lock_text @ s)" "\<not> prefix role_text (lock_text @ s)"
  "exists_text @ s \<noteq> list_sql" "create_text @ s \<noteq> list_sql" "role_text @ s \<noteq> list_sql" "lock_text @ s \<noteq> list_sql"
  by (simp_all add: exists_text_def create_text_def role_text_def lock_text_def list_sql_def)

lemma pg_run_exists: "plain n \<Longrightarrow> pg_run c (exists_sql n) h = (if (c, n) \<in> set (ps_dbs h) then ''1'' else [], h)"
  by (simp add: pg_run_def sql_texts(1) texts_differ upto_plain)

lemma pg_run_create:
  "plain n \<Longrightarrow> sql = create_sql n \<or> sql = clone_sql n s \<Longrightarrow> pg_run c sql h = ([], h\<lparr>ps_dbs := (c, n) # ps_dbs h\<rparr>)"
  by (auto simp: pg_run_def sql_texts(2,3) texts_differ upto_plain)

lemma pg_run_role:
  assumes "plain r" "plain p"
  shows "pg_run c (role_sql r p) h = ([], h\<lparr>ps_pass := ((c, r), p) # ps_pass h\<rparr>)"
proof -
  obtain rest t where sql: "role_sql r p = role_text @ r @ login_text r @ p @ CHR 0x27 # rest" and t: "login_text r = CHR 0x27 # t"
    using role_sql_text heads(1) by blast
  then have "upto_char CHR 0x27 (after role_text (role_sql r p)) = r"
    using upto_plain [OF assms(1), of "CHR 0x27" "t @ p @ CHR 0x27 # rest"] by simp
  moreover have "drop (length r) (after role_text (role_sql r p)) = login_text r @ p @ CHR 0x27 # rest" by (simp add: sql)
  moreover have "upto_char CHR 0x27 (p @ CHR 0x27 # rest) = p" using upto_plain [OF assms(2)] by simp
  ultimately show ?thesis
    by (simp add: pg_run_def Let_def) (simp add: sql texts_differ)
qed

lemma pg_run_lock:
  assumes "plain n" "plain r"
  shows "pg_run c (lock_sql n r) h = ([], h\<lparr>ps_connect := (c, n, r) # ps_connect h\<rparr>)"
proof -
  obtain t where t: "grant_text n = CHR 0x22 # t" using heads(2) by blast
  then have "upto_char CHR 0x22 (after lock_text (lock_sql n r)) = n"
    using upto_plain [OF assms(1), of "CHR 0x22" "t @ r @ CHR 0x22 # '';''"] by (simp add: sql_texts(4))
  moreover have "drop (length n) (after lock_text (lock_sql n r)) = grant_text n @ r @ CHR 0x22 # '';''"
    by (simp add: sql_texts(4))
  moreover have "upto_char CHR 0x22 (r @ CHR 0x22 # '';'') = r" using upto_plain [OF assms(2)] by simp
  ultimately show ?thesis
    by (simp add: pg_run_def Let_def) (simp add: sql_texts(4) texts_differ)
qed

lemma pg_run_list:
  assumes "pg_run c list_sql h = (out, h')" "l \<in> set (split_on newline out)" "trim_space l \<noteq> []"
  shows "(c, trim_space l) \<in> set (ps_dbs h')"
proof -
  let ?names = "filter no_space (map snd (filter (\<lambda>p. fst p = c) (ps_dbs h)))"
  have "\<forall>n\<in>set ?names. newline \<notin> set n" using newline_space by (auto simp: no_space_def)
  from split_on_lines [OF this] assms(1,2) have l: "l \<in> set ?names \<or> l = []" by (auto simp: pg_run_def)
  with assms(3) have "l \<in> set ?names" by auto
  then show ?thesis using assms(1) by (auto simp: pg_run_def trim_space_trimmed [OF no_space_trimmed])
qed

lemma pg_run_frame:
  assumes "pg_run c sql h = (out, h')"
  shows "set (ps_dbs h) \<subseteq> set (ps_dbs h')" "set (ps_connect h) \<subseteq> set (ps_connect h')"
    and "c' \<noteq> c \<or> \<not> names_role sql r \<Longrightarrow> map_of (ps_pass h') (c', r) = map_of (ps_pass h) (c', r)"
proof -
  show "set (ps_dbs h) \<subseteq> set (ps_dbs h')" "set (ps_connect h) \<subseteq> set (ps_connect h')"
    using assms by (auto simp: pg_run_def Let_def split: if_splits)
  let ?r = "upto_char CHR 0x27 (after role_text sql)" let ?rest = "drop (length ?r) (after role_text sql)"
  have named: "names_role sql ?r" if a: "prefix role_text sql" and b: "prefix (login_text ?r) ?rest"
  proof -
    have "after role_text sql = ?r @ ?rest" by (metis append_take_drop_id takeWhile_eq_take upto_char_def)
    then have "sql = role_text @ ?r @ ?rest" using a by (metis after_append prefixE)
    moreover obtain t where "?rest = CHR 0x27 # t" using b heads(1) by (metis append_Cons prefixE)
    ultimately have "prefix (role_text @ ?r @ [CHR 0x27]) sql" by (metis append.assoc append_Cons append_Nil prefixI)
    then show ?thesis by (simp add: names_role_def role_text_def text_quote_def)
  qed
  show "map_of (ps_pass h') (c', r) = map_of (ps_pass h) (c', r)" if "c' \<noteq> c \<or> \<not> names_role sql r"
    using assms named that by (auto simp: pg_run_def Let_def split: if_splits)
qed

lemma sim_behaves: "pg_behaves pg_host pg_sim_view"
proof -
  have run: "dockerExec pg_host c (psql user db flags sql) w =
      ((fst (pg_run c sql (w_host w)), [], 0), w\<lparr>w_host := snd (pg_run c sql (w_host w))\<rparr>)" for c user db flags sql w
    by (simp add: dockerExec_def docker_def pg_host_def psql_def ran_well_def case_prod_beta)
  have "pg_statement c sql (out, [], 0) (pg_sim_view h) (pg_sim_view h')" if "pg_run c sql h = (out, h')" for c sql out h h'
    unfolding pg_statement_def prod.case
  proof (intro conjI allI impI)
    show "pv_dbs (pg_sim_view h) \<subseteq> pv_dbs (pg_sim_view h')" "pv_connect (pg_sim_view h) \<subseteq> pv_connect (pg_sim_view h')"
      using pg_run_frame(1,2) [OF that] by (simp_all add: pg_sim_view_def)
    show "pv_pass (pg_sim_view h') (c', r) = pv_pass (pg_sim_view h) (c', r)" if "c' \<noteq> c \<or> \<not> names_role sql r" for c' r
      using pg_run_frame(3) [OF \<open>pg_run c sql h = (out, h')\<close> that] by (simp add: pg_sim_view_def)
    show "(c, n) \<in> pv_dbs (pg_sim_view h')" if "plain n" "sql = create_sql n \<or> sql = clone_sql n s" for n s
      using \<open>pg_run c sql h = (out, h')\<close> pg_run_create [OF that, of c h] by (auto simp: pg_sim_view_def)
    show "(c, n) \<in> pv_dbs (pg_sim_view h')" if "plain n" "sql = exists_sql n" "trim_space out = ''1''" for n
    proof -
      have "trim_space [] \<noteq> ''1''" by code_simp
      then show ?thesis
        using \<open>pg_run c sql h = (out, h')\<close> pg_run_exists [OF that(1), of c h] that by (auto simp: pg_sim_view_def split: if_splits)
    qed
    show "\<forall>l\<in>set (split_on newline out). (c, trim_space l) \<in> pv_dbs (pg_sim_view h') \<or> trim_space l = []" if "sql = list_sql"
      using pg_run_list \<open>pg_run c sql h = (out, h')\<close> that by (auto simp: pg_sim_view_def)
    show "pv_pass (pg_sim_view h') (c, r) = Some p" if "plain r" "plain p" "sql = role_sql r p" for r p
      using \<open>pg_run c sql h = (out, h')\<close> pg_run_role [OF that(1,2), of c h] that(3) by (auto simp: pg_sim_view_def)
    show "(c, n, r) \<in> pv_connect (pg_sim_view h')" if "plain n" "plain r" "sql = lock_sql n r" for n r
      using \<open>pg_run c sql h = (out, h')\<close> pg_run_lock [OF that(1,2), of c h] that(3) by (auto simp: pg_sim_view_def)
  qed
  then show ?thesis
    by (simp add: pg_behaves_def run) (simp add: pg_host_def)
qed

section \<open>A workspace on that server\<close>

text \<open>A registered process \<open>shop\<close>, and a copy \<open>alice\<close> of the process \<open>till\<close>, both on the realm \<open>dev\<close>.\<close>

definition pg_platform :: platform where
  "pg_platform = sample_creds_platform\<lparr>pf_registry := (\<lambda>s. Some [(''shop'', [''dev'', ''staging''])])\<rparr>"

definition pg_world :: "pg_sim world" where
  "pg_world =
     \<lparr>w_disk = blank_disk\<lparr>dk_file := [''/s/postgres-dev'' \<mapsto> ''POSTGRES_USER=admin'',
          ''/s/postgres-staging'' \<mapsto> ''POSTGRES_USER=admin'', ''/s/bp-databases.json'' \<mapsto> ''{}'']\<rparr>,
      w_host = \<lparr>ps_dbs = [], ps_pass = [], ps_connect = []\<rparr>, w_log = []\<rparr>"

definition pg_ctx :: workspace_context where
  "pg_ctx = zero_ctx\<lparr>wc_name := ''ws'', wc_secrets_dir := ''/s''\<rparr>"

definition pg_deployment :: "string \<Rightarrow> string \<Rightarrow> deployment option" where
  "pg_deployment stage path = Some (empty_deployment\<lparr>de_stage := stage, de_relative_path := path\<rparr>)"

definition pg_bitswan :: "deployments \<Rightarrow> bitswan" where
  "pg_bitswan ds = \<lparr>bs_deployments = ds, bs_processes = [], bs_backups = [], bs_secrets = [], bs_firewall = []\<rparr>"

definition shop_and_till :: bitswan where
  "shop_and_till = pg_bitswan [(''a'', pg_deployment ''dev'' ''shop/app''), (''b'', pg_deployment ''live-dev'' ''copies/alice/till/app'')]"

definition pg_guard :: "bitswan \<Rightarrow> string option \<times> pg_sim world" where
  "pg_guard bs = ensureLivePostgresDBs pg_platform pg_host pg_ctx bs [] [] pg_world"

lemma pg_targets:
  "all_targets (loadRegistry pg_platform (w_disk pg_world) ''/s'') shop_and_till =
     [(''bp:bp_shop'', ''dev'', ''bp_shop''), (''copybp:copy_alice_bp_till'', ''dev'', ''copy_alice_bp_till'')]"
  by code_simp

lemma pg_ready: "fst (pg_guard shop_and_till) = None"
  by code_simp

lemma pg_targets_ok:
  "targets_ok ''ws'' ''/s'' (set [(''bp:bp_shop'', ''dev'', ''bp_shop''), (''copybp:copy_alice_bp_till'', ''dev'', ''copy_alice_bp_till'')])"
proof -
  have "db_ok ''/s'' ''dev'' ''bp_shop''" "db_ok ''/s'' ''dev'' ''copy_alice_bp_till''" by code_simp+
  moreover have "scopedPGRole ''bp_shop'' \<noteq> scopedPGRole ''copy_alice_bp_till''" by code_simp
  ultimately show ?thesis by (simp add: targets_ok_def login_of_def)
qed

lemma pg_clean: "clean_passwords pg_platform (w_disk pg_world)"
proof -
  have "password_at (w_disk pg_world) p = (if p \<in> {''/s/postgres-dev'', ''/s/postgres-staging'', ''/s/bp-databases.json''}
      then password_at (w_disk pg_world) p else [])" for p
    by (simp add: password_at_def readEnvFile_def pg_world_def blank_disk_def)
  moreover have "password_at (w_disk pg_world) ''/s/postgres-dev'' = []" "password_at (w_disk pg_world) ''/s/postgres-staging'' = []"
    "password_at (w_disk pg_world) ''/s/bp-databases.json'' = []" by code_simp+
  ultimately have "password_at (w_disk pg_world) p = []" for p by (metis insertE singletonD)
  moreover have "no_space ''pw'' \<and> plain ''pw''" by code_simp
  ultimately show ?thesis by (simp add: clean_passwords_def pg_platform_def sample_creds_platform_def)
qed


section \<open>Where the guard lets go\<close>

text \<open>The mark of a database does not name its realm. A process that is deployed on \<open>dev\<close> and \<open>staging\<close>
  has a database of the same name on both servers, and only the first is made: the guard returns no
  error, and the database of the other realm is not there.\<close>

definition shop_twice :: bitswan where
  "shop_twice = pg_bitswan [(''a'', pg_deployment ''dev'' ''shop/app''), (''b'', pg_deployment ''staging'' ''shop/app'')]"

lemma second_realm_is_skipped:
  "fst (pg_guard shop_twice) = None"
  "ps_dbs (w_host (snd (pg_guard shop_twice))) = [(''ws__postgres-dev'', ''bp_shop'')]"
  "filter (\<lambda>t. fst (snd t) = ''staging'') (all_targets (loadRegistry pg_platform (w_disk pg_world) ''/s'') shop_twice) =
     [(''bp:bp_shop'', ''staging'', ''bp_shop'')]"
  by code_simp+

text \<open>A failed listing of the containers cannot be told from one that finds none new: the deployments all
  count as unchanged, where an empty listing before the apply counts them as fresh.\<close>

lemma failed_listing_hides_fresh: "freshDeploymentIDs (i # is) [] = Some []" "freshDeploymentIDs [] infos = None"
  by (simp_all add: freshDeploymentIDs_def)

text \<open>The two production databases of a process whose slug is long share a role, so that the password of
  one is the password that was set last.\<close>

lemma long_slugs_share_a_role:
  "58 \<le> length bpSlug \<Longrightarrow>
     scopedPGRole (rn_postgres_db (bpResourceNames bpSlug 1)) = scopedPGRole (rn_postgres_db (bpResourceNames bpSlug 2))"
  by (simp add: bpResourceNames_def scopedPGRole_def truncate_str_def replace_byte_def maxLabelLen_def format_int_def Let_def)

end
