(* ===== verification/Spec2Isabelle.thy ===== *)
theory Spec2Isabelle
  imports Egress_Gateway Relay_Sni Relay_Server Docker_Subnets Mfa_Throttle Acl_Share Job_Runs Infra_Rpc Gate_History Driver_Confine Driver_Scope Driver_Gateways Driver_Grants Driver_Databases
begin

text \<open>
  A verification development of the Go services of the repository: the automation server's daemon
  (\<open>src/bitswan-automation-server\<close>), the egress gateway that confines a workspace's network
  traffic, the relay that publishes a server behind NAT, and the driver that runs the containers.
  Each theory translates the source files it names, function by function and with the source's
  names, and proves what makes that part correct. Paths below are relative to
  \<open>src/bitswan-automation-server\<close>.

  \<^bold>\<open>The program.\<close> The daemon owns the trust store (an SQLite file) and answers two families of
  HTTP routes: the public gate in front of every protected host, and a Unix socket for the command
  line. A browser reaches a protected application only through the gate, which asks for the identity
  the sign-in proxy forwards, for a paired device (a signed cookie that names a row of the trust
  store) and for a role on the endpoint. Containers are started through the infra driver, a process
  of its own that the daemon and gitops call over HTTP. A workspace's outgoing connections are
  redirected to its egress gateway, which reads the server name from the TLS hello, the host header or its notes of
  DNS answers, and decides by an allow-list. Servers without a public address keep a control
  connection to the relay, which routes a browser by the server name of its TLS hello.

  \<^bold>\<open>Theories.\<close>
  \<^item> \<open>Prelude\<close>: Go strings, checked slicing, big-endian numbers, decimal texts, the result type
    \<open>outcome\<close> with a panic as a value, and the facts all theories share.
  \<^item> \<open>Egress_Allowlist\<close> (\<open>cmd/egress-gateway/allowlist.go\<close>), \<open>Net_Ip\<close> (\<open>dial.go\<close> and package
    \<open>net\<close>), \<open>Egress_DnsCache\<close> (\<open>dnscache.go\<close>), \<open>Tls_Wire\<close> and \<open>Egress_Sni\<close> (\<open>sni.go\<close>),
    \<open>Egress_Gateway\<close> (\<open>main.go\<close>, \<open>origdst.go\<close>, \<open>dial.go\<close>): the egress gateway. Its state is the
    record \<open>gateway\<close>; the answers of the network and the connection are the records \<open>outside\<close> and \<open>conn\<close>; a handler
    yields the outcome, the lines of the attempts file and the addresses it dialed.
  \<^item> \<open>Relay_Sni\<close> (\<open>internal/relay/sni.go\<close>) and \<open>Relay_Server\<close> (\<open>server.go\<close>, \<open>protocol.go\<close>): the relay.
    Its tables are the record \<open>server\<close>; each critical section and each blocking wait of a handler
    goroutine is an event of an inductive step relation, so any interleaving is a run.
  \<^item> \<open>Docker_Subnets\<close> (\<open>internal/docker/subnets.go\<close>): the allocator of network address blocks.
  \<^item> \<open>Mfa_Throttle\<close> (\<open>internal/daemon/mfa_throttle.go\<close>): the counters that slow down guessing.
  \<^item> \<open>Acl_Store\<close> (\<open>acl.go\<close>) and \<open>Acl_Share\<close> (\<open>acl_share.go\<close>, \<open>acl_workspace_members.go\<close>): who owns
    and who may use an endpoint; three tables of rows with the checks and cascades of the schema.
  \<^item> \<open>Jobs\<close> and \<open>Job_Runs\<close> (\<open>jobs.go\<close>): the job object with its channels, and the goroutines of a
    restore job as a step relation in which a panic is a state.
  \<^item> \<open>Infra_Json\<close> (\<open>internal/infradriver/driver.go\<close>, \<open>api.go\<close>) and \<open>Infra_Rpc\<close> (\<open>server.go\<close>,
    \<open>client.go\<close>, \<open>execframe.go\<close>, \<open>githttp.go\<close>): the protocol of the infra driver.
  \<^item> \<open>Http_Request\<close>, \<open>Device_Cookie\<close>, \<open>Trust_Store\<close>, \<open>Gate_Origin\<close>, \<open>Gate_Base\<close>, \<open>Gate_Api\<close>,
    \<open>Gate_Pages\<close>, \<open>Gate_Hosts\<close>, \<open>Gate_Socket\<close> (the files \<open>auth.go\<close>, \<open>inner_host.go\<close>, \<open>mfa_*.go\<close>,
    \<open>bailey_*.go\<close>, \<open>protected_gate.go\<close> of \<open>internal/daemon\<close>): the gate. Its state is the record \<open>gate_state\<close> (trust store,
    throttle, outstanding grants); a handler takes the context of a request, a record \<open>ctx\<close> with the
    request, the clock and the random values it draws, and a state. The function \<open>gate_step\<close> of
    \<open>Gate_Socket\<close> is one request, socket call or deletion. \<open>Gate_Trust\<close> says where new devices come
    from, \<open>Gate_Laws\<close> and \<open>Gate_History\<close> hold the properties of histories of steps.
  \<^item> The docker driver, \<open>internal/infradriver/dockerdriver\<close>. \<open>Driver_Names\<close> (\<open>config.go\<close>),
    \<open>Driver_Paths\<close> (\<open>paths.go\<close>, \<open>path/filepath\<close>) and \<open>Driver_Secrets\<close> (\<open>secrets.go\<close>, \<open>bpcreds.go\<close>) are its
    ground; a record \<open>disk\<close> holds the files and a record \<open>platform\<close> what Go's libraries give.
    \<open>Driver_Model\<close> (\<open>model.go\<close>), \<open>Driver_Entry\<close> and \<open>Driver_Service\<close> (\<open>entry.go\<close>) and \<open>Driver_Compile\<close>
    (\<open>compile.go\<close>, \<open>infra.go\<close>) turn the declaration of a workspace, a record \<open>bitswan\<close>, into the services of a
    compose project; \<open>built\<close> is the entry of one service while the blocks of \<open>buildServiceEntry\<close> fill it.
    \<open>Driver_Docker\<close> (\<open>dockerdriver.go\<close>, \<open>images.go\<close>, \<open>build.go\<close>) has the operations on containers and images
    as the commands they send to a \<open>docker_host\<close>. \<open>Driver_Host\<close>, \<open>Driver_Garage\<close> and \<open>Driver_Postgres\<close>
    (\<open>provision.go\<close>, \<open>garage.go\<close>) make the databases, buckets and keys of an apply over the state \<open>world\<close>.
    Their properties are in \<open>Driver_Laws\<close>, \<open>Driver_Confine\<close>, \<open>Driver_Scope\<close>, \<open>Driver_Gateways\<close>,
    \<open>Driver_Gate\<close>, \<open>Driver_Grants\<close> and \<open>Driver_Databases\<close>.

  \<^bold>\<open>What is proved.\<close> For the gateway: parsers do not panic, the reader returns the name the client
  sent, in enforce mode only vetted public addresses are dialed and the attempts file is exact, the
  DNS notes are bounded and every name in them has an answer behind it. For the relay: names are
  routed to the connection that registered for them, splices pair the right connections, and both
  readers of server names agree. For the allocator: lowest free block and capacity. For the
  throttle: five attempts per window, and the address cannot be forged. For the access lists: who
  has which role, what the sharing API may touch, the last owner stays. For jobs: invariants of all
  interleavings, and draining. For the infra driver: the client over the server refines the driver,
  and frames are read back. For the gate: each new device has a reason, approvals need authority,
  invites are used once, revoked devices stay out, table keys stay unique, return targets stay on
  the site, and the socket's privileged routes need the token. For the docker driver: whatever a
  workspace declares, its enforced workers share the namespace of a gateway that carries their rules,
  no service reaches the control network, mounts beyond its source or is given another's secrets; whatever a
  client of the driver sends, only containers and images of the driver's workspace are touched; an apply
  whose guard returns no error has the databases its backends log in to, and one that reports
  nothing leaves usable buckets. Where the code does not do what its
  comments say, a theorem or a lemma shows the behaviour at a concrete input.

  \<^bold>\<open>Interfaces.\<close> \<open>sorter\<close> (\<open>Egress_DnsCache\<close>) is the contract of an unstable sort, interpreted on
  the merge sort by time. \<open>quiet_relation\<close> and \<open>store_relation\<close> (\<open>Gate_Laws\<close>) list the operations of
  the trust store as laws a relation between two stores must respect, and show once that then all
  handlers and all steps respect it; \<open>guarded_invariant\<close> (\<open>Gate_History\<close>) lifts an invariant of one
  step to histories. They are interpreted on \<open>gate_step\<close> for the keys of the tables, the approvals,
  the spent invites and the revoked devices. \<open>service_law\<close> (\<open>Driver_Laws\<close>) is a predicate on services
  that the compiler's blocks respect, and then every service of a project has it; \<open>secrets_law\<close>
  (\<open>Driver_Confine\<close>) is the same for the blocks that hand out secrets, and \<open>driver_invariant\<close>
  (\<open>Driver_Gate\<close>) an invariant of a driver that the HTTP server in front of it keeps. They are interpreted on
  the compiler for networks, gateways, labels and files, and on \<open>dockerDriver\<close> for its log of commands.

  \<^bold>\<open>Bounds.\<close> Loops are total functions with a measure, or structural. The one use of fuel is the
  text of an IPv6 address (\<open>ip6_text\<close>), started with more steps than an address has groups. Lengths
  on the wire are words of 8, 16 and 32 bits. Times and counters that cannot overflow in the code
  (nanoseconds below \<open>2 ^ 63\<close>, sums of addresses below \<open>2 ^ 34\<close>) are unbounded numbers.

  \<^bold>\<open>Arguments of the model.\<close> What is not in the repository is an argument: HMAC, SHA-256, \<open>totp\<close>,
  random values, the clock, the resolver, the network, \<open>net/http\<close>'s parser, the JSON text of a JSON
  value, the output of \<open>docker\<close> and \<open>ip route\<close>, and what \<open>psql\<close> and \<open>garage\<close> do inside their containers
  (\<open>pg_behaves\<close>, \<open>garage_reads\<close> and \<open>garage_writes\<close> say what is documented of them). Requirements on them are hypotheses of the theorems
  that need them, and the witnesses discharge them on concrete functions.

  \<^bold>\<open>Not modelled.\<close> Sockets, TLS, \<open>io.Copy\<close> and accept loops; failures of the SQLite file; HTML pages
  beyond their names; the reverse proxy of the gate; certificates, DNS and traefik's configuration;
  git, \<open>docker compose\<close> and restic as processes; the order of the phases of an apply (\<open>reconcile.go\<close>,
  \<open>egress_reconcile.go\<close>, \<open>ingress.go\<close>) and its file lock; the workspace life cycle, updates, branding,
  statistics and the SIEM export, which drive those; the command line. The Python service
  \<open>bitswan-gitops\<close> and the TypeScript user interfaces are outside: the development covers the Go code.
\<close>

end
